(* ===== verification/Prelude.thy ===== *)
theory Prelude
  imports Complex_Main "HOL-Library.AList" "HOL-Library.Sublist"
begin

text \<open>
  Shared vocabulary of the development.

  \<^item> Results: a TypeScript function that can throw is a function into
    \<open>js_error + 'a\<close>; \<open>rbind\<close> sequences two such computations and \<open>rmap\<close> maps a
    throwing function over an array, left to right, stopping at the first throw.
  \<^item> Dictionaries: plain objects and \<open>Map\<close>s are association lists in iteration
    order. A \<open>Map\<close> keeps insertion order (\<open>AList.update\<close>); a plain object
    enumerates its array-index keys first, in ascending order, and then the other
    keys in insertion order (\<open>obj_put\<close>).
  \<^item> The locales \<open>step_system\<close> and \<open>settling_system\<close>: invariants and termination of components
    that change their state in steps.
  \<^item> The locale \<open>js_dict\<close> states what the components rely on; both kinds of
    dictionary are interpretations of it, and the loops that fill a dictionary are
    proved once inside it.
\<close>

named_theorems js_simps \<open>computation rules of the JavaScript primitives\<close>
named_theorems dict_simps \<open>lookup laws of objects and Maps\<close>

section \<open>Throwing computations\<close>

datatype js_error =
    TypeError
  | InvalidOrderby
  | UnsupportedWhisker string
  | OverwriteProhibited string
  | BadCapacity
  | InvalidColor string
  | InvalidOpacity
  | InvalidFilterKey
  | StackOverflow
  | SyntaxError
  | PlainError string

type_synonym 'a res = "js_error + 'a"

fun rbind :: "'a res \<Rightarrow> ('a \<Rightarrow> 'b res) \<Rightarrow> 'b res" where
  "rbind (Inl e) f = Inl e"
| "rbind (Inr x) f = f x"

fun rmap :: "('a \<Rightarrow> 'b res) \<Rightarrow> 'a list \<Rightarrow> 'b list res" where
  "rmap f [] = Inr []"
| "rmap f (x # xs) = rbind (f x) (\<lambda>y. rbind (rmap f xs) (\<lambda>ys. Inr (y # ys)))"

text \<open>A \<open>forEach\<close> whose body updates a state and may throw.\<close>

fun rfold :: "('a \<Rightarrow> 's \<Rightarrow> 's res) \<Rightarrow> 'a list \<Rightarrow> 's \<Rightarrow> 's res" where
  "rfold f [] s = Inr s"
| "rfold f (x # xs) s = rbind (f x s) (rfold f xs)"

lemma rbind_Inr_iff [js_simps]:
  "rbind m f = Inr y \<longleftrightarrow> (\<exists>x. m = Inr x \<and> f x = Inr y)"
  by (cases m) auto

lemma rbind_Inl_iff [js_simps]:
  "rbind m f = Inl e \<longleftrightarrow> m = Inl e \<or> (\<exists>x. m = Inr x \<and> f x = Inl e)"
  by (cases m) auto

lemma rbind_cong [fundef_cong]:
  "m = m' \<Longrightarrow> (\<And>x. m' = Inr x \<Longrightarrow> f x = g x) \<Longrightarrow> rbind m f = rbind m' g"
  by (cases m') auto

lemma rmap_cong [fundef_cong]:
  "xs = ys \<Longrightarrow> (\<And>x. x \<in> set ys \<Longrightarrow> f x = g x) \<Longrightarrow> rmap f xs = rmap g ys"
  by (induction ys arbitrary: xs) (auto intro!: rbind_cong)

lemma rmap_Inr_iff:
  "rmap f xs = Inr ys \<longleftrightarrow> list_all2 (\<lambda>x y. f x = Inr y) xs ys"
  by (induction xs arbitrary: ys)
     (auto simp: rbind_Inr_iff list_all2_Cons1)

lemma rmap_total:
  assumes "\<And>x. x \<in> set xs \<Longrightarrow> f x = Inr (g x)"
  shows "rmap f xs = Inr (map g xs)"
  using assms by (induction xs) auto

lemma rmap_length: "rmap f xs = Inr ys \<Longrightarrow> length ys = length xs"
  by (auto simp: rmap_Inr_iff dest: list_all2_lengthD)

lemma rfold_total:
  assumes "\<And>x s. x \<in> set xs \<Longrightarrow> f x s = Inr (g x s)"
  shows "rfold f xs s = Inr (fold g xs s)"
  using assms by (induction xs arbitrary: s) auto

lemma rfold_invariant:
  assumes "rfold f xs s = Inr t" and "P s"
    and "\<And>x s s'. x \<in> set xs \<Longrightarrow> P s \<Longrightarrow> f x s = Inr s' \<Longrightarrow> P s'"
  shows "P t"
  using assms
proof (induction xs arbitrary: s)
  case Nil
  then show ?case by simp
next
  case (Cons x xs)
  from Cons.prems(1) obtain s' where s': "f x s = Inr s'" "rfold f xs s' = Inr t"
    by (auto simp: rbind_Inr_iff)
  have "P s'" using Cons.prems(2,3) s'(1) by auto
  with Cons.IH [OF s'(2)] Cons.prems(3) show ?case by auto
qed

lemma rfold_append:
  "rfold f (xs @ ys) s = rbind (rfold f xs s) (rfold f ys)"
proof (induction xs arbitrary: s)
  case Nil
  then show ?case by simp
next
  case (Cons x xs)
  show ?case by (cases "f x s") (simp_all add: Cons.IH)
qed

section \<open>Lists\<close>

text \<open>\<open>Array.prototype.findIndex\<close>, with \<open>None\<close> for the result -1.\<close>

fun find_index :: "('a \<Rightarrow> bool) \<Rightarrow> 'a list \<Rightarrow> nat option" where
  "find_index P [] = None"
| "find_index P (x # xs) = (if P x then Some 0 else map_option Suc (find_index P xs))"

lemma res_Inr: "\<not> isl r \<Longrightarrow> \<exists>x. r = Inr x"
  by (cases r) auto

lemma find_index_SomeD:
  "find_index P xs = Some i \<Longrightarrow> i < length xs \<and> P (xs ! i) \<and> (\<forall>j<i. \<not> P (xs ! j))"
proof (induction xs arbitrary: i)
  case Nil
  then show ?case by simp
next
  case (Cons x xs)
  then show ?case
    by (cases i) (auto simp: less_Suc_eq_0_disj split: if_splits)
qed

lemma find_index_SomeI:
  "i < length xs \<Longrightarrow> P (xs ! i) \<Longrightarrow> (\<And>j. j < i \<Longrightarrow> \<not> P (xs ! j)) \<Longrightarrow> find_index P xs = Some i"
proof (induction xs arbitrary: i)
  case (Cons x xs)
  show ?case
  proof (cases i)
    case 0
    then show ?thesis using Cons.prems by simp
  next
    case (Suc k)
    then have "find_index P xs = Some k"
      using Cons.prems by (intro Cons.IH) fastforce+
    then show ?thesis using Suc Cons.prems(3) [of 0] by simp
  qed
qed simp

lemma find_index_None_iff: "find_index P xs = None \<longleftrightarrow> (\<forall>x\<in>set xs. \<not> P x)"
  by (induction xs) auto

lemma find_SomeD: "find P xs = Some x \<Longrightarrow> x \<in> set xs \<and> P x"
  by (metis find_Some_iff nth_mem)

lemma subseq_set: "subseq xs ys \<Longrightarrow> set xs \<subseteq> set ys"
  using list_emb_set [of "(=)" xs ys] by blast

text \<open>\<open>[...new Set(xs)]\<close>: the first occurrence of each element, in order.\<close>

fun nub_from :: "'a list \<Rightarrow> 'a list \<Rightarrow> 'a list" where
  "nub_from seen [] = []"
| "nub_from seen (x # xs) =
     (if x \<in> set seen then nub_from seen xs else x # nub_from (x # seen) xs)"

definition nub :: "'a list \<Rightarrow> 'a list" where
  "nub xs = nub_from [] xs"

lemma set_nub_from: "set (nub_from seen xs) = set xs - set seen"
  by (induction seen xs rule: nub_from.induct) auto

lemma distinct_nub_from: "distinct (nub_from seen xs)"
  by (induction seen xs rule: nub_from.induct) (auto simp: set_nub_from)

lemma subseq_nub_from: "subseq (nub_from seen xs) xs"
  by (induction seen xs rule: nub_from.induct) (auto)

lemma nub_from_id: "distinct xs \<Longrightarrow> set xs \<inter> set seen = {} \<Longrightarrow> nub_from seen xs = xs"
  by (induction seen xs rule: nub_from.induct) auto

lemma set_nub [simp]: "set (nub xs) = set xs"
  by (simp add: nub_def set_nub_from)

lemma distinct_nub [simp]: "distinct (nub xs)"
  by (simp add: nub_def distinct_nub_from)

lemma nub_id: "distinct xs \<Longrightarrow> nub xs = xs"
  by (simp add: nub_def nub_from_id)

lemma nub_idem [simp]: "nub (nub xs) = nub xs"
  by (simp add: nub_id)

section \<open>Step systems\<close>

text \<open>
  A component that changes its state in steps keeps an invariant: then every state it reaches has it.
  When a weight falls with every step, runs are bounded by it and the system comes to rest.
\<close>

locale step_system =
  fixes step :: "'s \<Rightarrow> 's \<Rightarrow> bool"
    and inv :: "'s \<Rightarrow> bool"
  assumes inv_step: "inv s \<Longrightarrow> step s t \<Longrightarrow> inv t"
begin

lemma inv_steps: "step\<^sup>*\<^sup>* s t \<Longrightarrow> inv s \<Longrightarrow> inv t"
  by (induction rule: rtranclp_induct) (auto intro: inv_step)

lemma inv_run: "(step ^^ n) s t \<Longrightarrow> inv s \<Longrightarrow> inv t"
  using inv_steps [OF relpowp_imp_rtranclp] .

end

locale settling_system = step_system +
  fixes weight :: "'s \<Rightarrow> nat"
  assumes weight_step: "inv s \<Longrightarrow> step s t \<Longrightarrow> weight t < weight s"
begin

lemma run_bound: "(step ^^ n) s t \<Longrightarrow> inv s \<Longrightarrow> n + weight t \<le> weight s"
proof (induction n arbitrary: t)
  case (Suc n)
  then obtain u where u: "(step ^^ n) s u" "step u t" by auto
  then show ?case using Suc weight_step [OF inv_run [OF u(1)] u(2)] by fastforce
qed simp

lemma comes_to_rest: "inv s \<Longrightarrow> \<exists>t. step\<^sup>*\<^sup>* s t \<and> (\<nexists>u. step t u)"
proof (induction "weight s" arbitrary: s rule: less_induct)
  case less
  show ?case
  proof (cases "\<exists>u. step s u")
    case True
    then obtain u where u: "step s u" by blast
    then obtain t where "step\<^sup>*\<^sup>* u t" "\<nexists>v. step t v"
      using less.hyps [OF weight_step [OF less.prems u]] inv_step [OF less.prems u] by blast
    then show ?thesis using u converse_rtranclp_into_rtranclp [of step s u t] by blast
  qed blast
qed

end

section \<open>Dictionaries\<close>

subsection \<open>The contract\<close>

locale js_dict =
  fixes get :: "'m \<Rightarrow> 'k \<Rightarrow> 'v option"
    and put :: "'k \<Rightarrow> 'v \<Rightarrow> 'm \<Rightarrow> 'm"
    and del :: "'k \<Rightarrow> 'm \<Rightarrow> 'm"
    and keys :: "'m \<Rightarrow> 'k list"
    and wf :: "'m \<Rightarrow> bool"
  assumes get_put: "get (put k v m) = (get m)(k \<mapsto> v)"
    and get_del: "get (del k m) = (get m)(k := None)"
    and keys_dom: "set (keys m) = dom (get m)"
    and wf_put: "wf m \<Longrightarrow> wf (put k v m)"
    and wf_del: "wf m \<Longrightarrow> wf (del k m)"
    and wf_distinct: "wf m \<Longrightarrow> distinct (keys m)"
begin

lemma get_put_all:
  "get (fold (\<lambda>(k, v). put k v) ps m) = get m ++ map_of (rev ps)"
proof (induction ps arbitrary: m)
  case Nil
  then show ?case by simp
next
  case (Cons p ps)
  then show ?case
    by (cases p) (simp add: get_put map_add_def fun_eq_iff split: option.splits)
qed

lemma wf_put_all: "wf m \<Longrightarrow> wf (fold (\<lambda>(k, v). put k v) ps m)"
  by (induction ps arbitrary: m) (auto simp: wf_put)

lemma get_put_fun:
  "get (fold (\<lambda>x. put (f x) (g x)) xs m) k =
     (if k \<in> f ` set xs then Some (g (last (filter (\<lambda>x. f x = k) xs))) else get m k)"
proof (induction xs arbitrary: m)
  case Nil
  then show ?case by simp
next
  case (Cons x xs)
  show ?case
    using Cons.IH [of "put (f x) (g x) m"]
    by (auto simp: get_put filter_empty_conv)
qed

lemma dom_put_fun: "dom (get (fold (\<lambda>x. put (f x) (g x)) xs m)) = dom (get m) \<union> f ` set xs"
  by (auto simp: dom_def get_put_fun)

lemma get_put_same: "get (fold (\<lambda>x. put x (g x)) xs m) k =
     (if k \<in> set xs then Some (g k) else get m k)"
proof -
  have "k \<in> set xs \<Longrightarrow> last (filter (\<lambda>x. x = k) xs) = k"
    using last_in_set [of "filter (\<lambda>x. x = k) xs"] by (auto simp: filter_empty_conv)
  then show ?thesis
    using get_put_fun [of "\<lambda>x. x" g xs m k] by simp
qed

lemma wf_put_fun: "wf m \<Longrightarrow> wf (fold (\<lambda>x. put (f x) (g x)) xs m)"
  by (induction xs arbitrary: m) (auto simp: wf_put)

lemma get_del_all: "get (fold del ks m) = (get m) |` (- set ks)"
proof (induction ks arbitrary: m)
  case Nil
  then show ?case by simp
next
  case (Cons k ks)
  then show ?case by (auto simp: get_del restrict_map_def fun_eq_iff)
qed

lemma wf_del_all: "wf m \<Longrightarrow> wf (fold del ks m)"
  by (induction ks arbitrary: m) (auto simp: wf_del)

lemma length_keys: "wf m \<Longrightarrow> length (keys m) = card (dom (get m))"
  by (metis distinct_card keys_dom wf_distinct)

lemma finite_dom_get: "finite (dom (get m))"
  by (metis keys_dom List.finite_set)

lemma length_keys_put:
  "wf m \<Longrightarrow> length (keys (put k v m)) =
     (if get m k = None then Suc (length (keys m)) else length (keys m))"
  by (auto simp: length_keys wf_put get_put finite_dom_get card_insert_if domIff)

end

end
