(* ===== verification/JsDict.thy ===== *)
theory JsDict
  imports Prelude
begin

text \<open>
  The two dictionaries of the language. Decimal numerals come first, because the
  enumeration order of a plain object depends on which keys are array indices; the
  numerals are also used wherever the code formats or parses an id.
\<close>

section \<open>Decimal numerals\<close>

definition is_digit :: "char \<Rightarrow> bool" where
  "is_digit c \<longleftrightarrow> (48::nat) \<le> of_char c \<and> (of_char c :: nat) \<le> 57"

definition digit_val :: "char \<Rightarrow> nat" where
  "digit_val c = of_char c - 48"

definition nat_of_digits :: "string \<Rightarrow> nat" where
  "nat_of_digits s = foldl (\<lambda>n c. 10 * n + digit_val c) 0 s"

fun show_nat :: "nat \<Rightarrow> string" where
  "show_nat n =
     (if n < 10 then [char_of (48 + n)]
      else show_nat (n div 10) @ [char_of (48 + n mod 10)])"

declare show_nat.simps [simp del]

definition show_int :: "int \<Rightarrow> string" where
  "show_int i = (if i < 0 then CHR ''-'' # show_nat (nat (- i)) else show_nat (nat i))"

lemma of_char_digit [simp]: "d < 10 \<Longrightarrow> (of_char (char_of (48 + d :: nat)) :: nat) = 48 + d"
  by simp

lemma is_digit_char_of [simp]: "d < 10 \<Longrightarrow> is_digit (char_of (48 + d :: nat))"
  by (simp add: is_digit_def)

lemma digit_val_char_of [simp]: "d < 10 \<Longrightarrow> digit_val (char_of (48 + d :: nat)) = d"
  by (simp add: digit_val_def)

lemma show_nat_nonempty [simp]: "show_nat n \<noteq> []"
  by (subst show_nat.simps) simp

lemma show_nat_digits: "list_all is_digit (show_nat n)"
proof (induction n rule: show_nat.induct)
  case (1 n)
  then show ?case by (subst show_nat.simps) (auto simp: less_eq_Suc_le)
qed

lemma nat_of_digits_snoc: "nat_of_digits (s @ [c]) = 10 * nat_of_digits s + digit_val c"
  by (simp add: nat_of_digits_def)

lemma nat_of_show_nat [simp]: "nat_of_digits (show_nat n) = n"
proof (induction n rule: show_nat.induct)
  case (1 n)
  show ?case
  proof (cases "n < 10")
    case True
    then show ?thesis
      by (subst show_nat.simps) (simp add: nat_of_digits_def)
  next
    case False
    with "1.IH" show ?thesis
      by (subst show_nat.simps) (simp add: nat_of_digits_snoc)
  qed
qed

lemma show_nat_inject [simp]: "show_nat m = show_nat n \<longleftrightarrow> m = n"
  by (metis nat_of_show_nat)

lemma show_nat_head: "hd (show_nat n) = CHR ''0'' \<Longrightarrow> n = 0"
proof (induction n rule: show_nat.induct)
  case (1 n)
  show ?case
  proof (cases "n < 10")
    case True
    have "n = digit_val (hd (show_nat n))"
      using True by (subst show_nat.simps) simp
    with "1.prems" show ?thesis by (simp add: digit_val_def)
  next
    case False
    have "hd (show_nat n) = hd (show_nat (n div 10))"
      using False by (subst show_nat.simps) simp
    with "1.prems" "1.IH" False have "n div 10 = 0" by simp
    with False show ?thesis by simp
  qed
qed

lemma show_nat_not_minus: "show_nat n \<noteq> CHR ''-'' # s"
  using show_nat_digits [of n] by (auto simp: is_digit_def)

lemma show_int_inject [simp]: "show_int i = show_int j \<longleftrightarrow> i = j"
  using show_nat_not_minus by (auto simp: show_int_def) (metis show_nat_not_minus)+

section \<open>Plain objects\<close>

text \<open>The array-index keys of ECMAScript: canonical numerals below \<open>2^32 - 1\<close>.\<close>

definition index_of_key :: "string \<Rightarrow> nat option" where
  "index_of_key s =
     (if s \<noteq> [] \<and> list_all is_digit s \<and> (hd s = CHR ''0'' \<longrightarrow> s = ''0'') \<and>
         nat_of_digits s < 4294967295
      then Some (nat_of_digits s) else None)"

lemma index_of_key_show [simp]:
  "n < 4294967295 \<Longrightarrow> index_of_key (show_nat n) = Some n"
proof -
  assume n: "n < 4294967295"
  have "show_nat 0 = ''0''" by code_simp
  with n show ?thesis
    using show_nat_head [of n] by (auto simp: index_of_key_def show_nat_digits)
qed

definition key_before :: "string \<Rightarrow> string \<Rightarrow> bool" where
  "key_before k k' =
     (case index_of_key k of
        None \<Rightarrow> False
      | Some i \<Rightarrow> (case index_of_key k' of None \<Rightarrow> True | Some j \<Rightarrow> i < j))"

type_synonym 'v obj = "(string \<times> 'v) list"
type_synonym ('k, 'v) jmap = "('k \<times> 'v) list"

fun obj_put :: "string \<Rightarrow> 'v \<Rightarrow> 'v obj \<Rightarrow> 'v obj" where
  "obj_put k v [] = [(k, v)]"
| "obj_put k v ((k', v') # ps) =
     (if k = k' then (k, v) # ps
      else if key_before k k' then (k, v) # (k', v') # ps
      else (k', v') # obj_put k v ps)"

text \<open>
  The enumeration order of an object: index keys ascending, then the rest. An object
  built by assignments keeps it, and its keys are distinct.
\<close>

definition key_order :: "string \<Rightarrow> string \<Rightarrow> bool" where
  "key_order k k' =
     (case index_of_key k' of
        None \<Rightarrow> True
      | Some j \<Rightarrow> (case index_of_key k of None \<Rightarrow> False | Some i \<Rightarrow> i < j))"

definition obj_wf :: "'v obj \<Rightarrow> bool" where
  "obj_wf ps \<longleftrightarrow> distinct (map fst ps) \<and> sorted_wrt key_order (map fst ps)"

lemma key_before_order: "key_before k k' \<Longrightarrow> key_order k k'"
  by (auto simp: key_before_def key_order_def split: option.splits)

lemma key_before_trans: "key_before k k' \<Longrightarrow> key_order k' k'' \<Longrightarrow> key_order k k'' \<and> k \<noteq> k''"
  by (auto simp: key_before_def key_order_def split: option.splits)

lemma char_of_digit_val: "is_digit c \<Longrightarrow> char_of (48 + digit_val c) = c"
  by (simp add: is_digit_def digit_val_def)

lemma digit_val_less: "is_digit c \<Longrightarrow> digit_val c < 10"
  unfolding is_digit_def digit_val_def by linarith

lemma show_nat_of_digits:
  "s \<noteq> [] \<Longrightarrow> list_all is_digit s \<Longrightarrow> (hd s = CHR ''0'' \<Longrightarrow> s = ''0'') \<Longrightarrow>
   show_nat (nat_of_digits s) = s"
proof (induction s rule: rev_induct)
  case Nil
  then show ?case by simp
next
  case (snoc c s)
  have c: "is_digit c" using snoc.prems by simp
  show ?case
  proof (cases "s = []")
    case True
    then show ?thesis
      using c by (subst show_nat.simps)
        (simp add: nat_of_digits_def digit_val_less char_of_digit_val)
  next
    case False
    then have hd: "hd s \<noteq> CHR ''0''" using snoc.prems by auto
    then have IH: "show_nat (nat_of_digits s) = s"
      using snoc False by simp
    have "show_nat 0 = ''0''" by code_simp
    then have "nat_of_digits s \<noteq> 0"
      using IH hd by (metis list.sel(1))
    then show ?thesis
      using c IH digit_val_less [OF c]
      by (subst show_nat.simps) (auto simp: nat_of_digits_snoc char_of_digit_val)
  qed
qed

lemma index_of_key_inj: "index_of_key a = Some i \<Longrightarrow> index_of_key b = Some i \<Longrightarrow> a = b"
  using show_nat_of_digits [of a] show_nat_of_digits [of b]
  by (auto simp: index_of_key_def split: if_splits)

lemma not_key_before_order: "\<not> key_before k k' \<Longrightarrow> k \<noteq> k' \<Longrightarrow> key_order k' k"
  by (auto simp: key_before_def key_order_def split: option.splits)
     (metis index_of_key_inj linorder_neqE_nat)

lemma map_of_obj_put [dict_simps]: "map_of (obj_put k v ps) = (map_of ps)(k \<mapsto> v)"
  by (induction k v ps rule: obj_put.induct) (auto simp: fun_eq_iff)

lemma set_keys_obj_put: "set (map fst (obj_put k v ps)) = insert k (set (map fst ps))"
  by (induction k v ps rule: obj_put.induct) auto

lemma obj_put_not_Nil [simp]: "obj_put k v ps \<noteq> []"
  by (cases ps) (auto split: if_splits)

lemma obj_put_mem_iff: "x \<in> set (obj_put k v ps) \<Longrightarrow> x = (k, v) \<or> x \<in> set ps"
  by (induction k v ps rule: obj_put.induct) (auto split: if_splits)

lemma obj_wf_Nil [simp]: "obj_wf []"
  by (simp add: obj_wf_def)

lemma obj_wf_Cons:
  "obj_wf (p # ps) \<longleftrightarrow>
     fst p \<notin> set (map fst ps) \<and> (\<forall>k\<in>set (map fst ps). key_order (fst p) k) \<and> obj_wf ps"
  by (auto simp: obj_wf_def)

lemma obj_wf_put: "obj_wf ps \<Longrightarrow> obj_wf (obj_put k v ps)"
proof (induction k v ps rule: obj_put.induct)
  case (1 k v)
  then show ?case by (simp add: obj_wf_Cons)
next
  case (2 k v k' v' ps)
  consider (same) "k = k'" | (before) "k \<noteq> k'" "key_before k k'"
    | (later) "k \<noteq> k'" "\<not> key_before k k'" by blast
  then show ?case
  proof cases
    case same
    with "2.prems" show ?thesis by (simp add: obj_wf_Cons)
  next
    case before
    with "2.prems" have "key_order k x \<and> k \<noteq> x" if "x \<in> set (map fst ps)" for x
      using that key_before_trans [of k k' x] by (auto simp: obj_wf_Cons)
    with before "2.prems" show ?thesis
      by (auto simp: obj_wf_Cons key_before_order)
  next
    case later
    have "obj_wf (obj_put k v ps)"
      using 2 later by (simp add: obj_wf_Cons)
    with later "2.prems" show ?thesis
      using not_key_before_order [of k k'] set_keys_obj_put [of k v ps]
      by (auto simp: obj_wf_Cons simp del: set_map)
  qed
qed

lemma obj_wf_delete: "obj_wf ps \<Longrightarrow> obj_wf (AList.delete k ps)"
  by (induction ps) (auto simp: obj_wf_Cons AList.delete_eq)

interpretation objd: js_dict map_of obj_put AList.delete "map fst" obj_wf
proof
  fix k :: string and v :: 'a and m :: "'a obj"
  show "map_of (obj_put k v m) = (map_of m)(k \<mapsto> v)" by (rule map_of_obj_put)
  show "map_of (AList.delete k m) = (map_of m)(k := None)" by (rule delete_conv')
  show "set (map fst m) = dom (map_of m)" by (simp add: dom_map_of_conv_image_fst)
  show "obj_wf m \<Longrightarrow> obj_wf (obj_put k v m)" by (rule obj_wf_put)
  show "obj_wf m \<Longrightarrow> obj_wf (AList.delete k m)" by (rule obj_wf_delete)
  show "obj_wf m \<Longrightarrow> distinct (map fst m)" by (simp add: obj_wf_def)
qed

section \<open>Maps\<close>

text \<open>
  \<open>Map.prototype.set\<close> is \<open>AList.update\<close>: it overwrites in place or appends, so the
  list is in insertion order. \<open>Map.prototype.delete\<close> is \<open>AList.delete\<close>.
\<close>

interpretation mapd: js_dict map_of AList.update AList.delete "map fst" "\<lambda>m. distinct (map fst m)"
proof
  fix k :: 'a and v :: 'b and m :: "('a, 'b) jmap"
  show "map_of (AList.update k v m) = (map_of m)(k \<mapsto> v)" by (rule update_conv')
  show "map_of (AList.delete k m) = (map_of m)(k := None)" by (rule delete_conv')
  show "set (map fst m) = dom (map_of m)" by (simp add: dom_map_of_conv_image_fst)
  show "distinct (map fst m) \<Longrightarrow> distinct (map fst (AList.update k v m))"
    by (rule distinct_update)
  show "distinct (map fst m) \<Longrightarrow> distinct (map fst (AList.delete k m))"
    by (rule distinct_delete)
  show "distinct (map fst m) \<Longrightarrow> distinct (map fst m)" .
qed

lemmas [dict_simps] = update_conv' delete_conv'

end
