(* ===== verification/JsVal.thy ===== *)
theory JsVal
  imports JsDict
begin

text \<open>
  The dynamically typed values of the language, as far as the modelled code uses them:
  the seven JSON-like kinds of value, truthiness, strict equality, property access,
  spread, the string conversions and the numeric conversions.

  Modelling bounds. A string is a sequence of code units below 256. A finite number is
  an exact rational: no rounding to double precision and no negative zero; a number is
  printed in positional notation (the language switches to exponents below \<open>10^-6\<close>
  and from \<open>10^21\<close> on). An object is its own enumerable properties: names inherited
  from the built-in prototypes are not looked up. Two object or array values are never
  strictly equal: they stand for distinct references.
\<close>

section \<open>Strings\<close>

fun str_includes :: "string \<Rightarrow> string \<Rightarrow> bool" where
  "str_includes sub [] = (sub = [])"
| "str_includes sub (c # s) = (prefix sub (c # s) \<or> str_includes sub s)"

lemma str_includes_sublist: "str_includes sub s \<longleftrightarrow> sublist sub s"
proof (induction s)
  case Nil
  then show ?case by simp
next
  case (Cons c s)
  then show ?case by (simp add: sublist_Cons_right)
qed

definition is_ws :: "char \<Rightarrow> bool" where
  "is_ws c \<longleftrightarrow> (of_char c :: nat) \<in> {9, 10, 11, 12, 13, 32, 160}"

definition str_trim_start :: "string \<Rightarrow> string" where
  "str_trim_start s = dropWhile is_ws s"

definition str_trim :: "string \<Rightarrow> string" where
  "str_trim s = rev (dropWhile is_ws (rev (dropWhile is_ws s)))"

lemma dropWhile_hd: "dropWhile P s = c # t \<Longrightarrow> \<not> P c"
  by (induction s) (auto split: if_splits)

lemma str_trim_last: "str_trim s \<noteq> [] \<Longrightarrow> \<not> is_ws (last (str_trim s))"
proof -
  assume "str_trim s \<noteq> []"
  then have "dropWhile is_ws (rev (dropWhile is_ws s)) \<noteq> []"
    unfolding str_trim_def by (simp only: rev_is_Nil_conv not_False_eq_True)
  then obtain c t where "dropWhile is_ws (rev (dropWhile is_ws s)) = c # t"
    by (meson neq_Nil_conv)
  then show ?thesis
    using dropWhile_hd by (fastforce simp: str_trim_def)
qed

lemma str_trim_prefix: "\<exists>t. dropWhile is_ws s = str_trim s @ t"
proof -
  have "\<exists>t. u = rev (dropWhile P (rev u)) @ t" for u and P :: "char \<Rightarrow> bool"
    by (metis rev_append rev_rev_ident takeWhile_dropWhile_id)
  then show ?thesis unfolding str_trim_def by blast
qed

lemma str_trim_hd: "str_trim s \<noteq> [] \<Longrightarrow> \<not> is_ws (hd (str_trim s))"
  using str_trim_prefix [of s] dropWhile_hd [of is_ws s]
  by (metis append_Cons hd_Cons_tl)

lemma dropWhile_hd_id: "(s \<noteq> [] \<Longrightarrow> \<not> P (hd s)) \<Longrightarrow> dropWhile P s = s"
  by (cases s) auto

lemma str_trim_id:
  assumes "s \<noteq> [] \<Longrightarrow> \<not> is_ws (hd s)" and "s \<noteq> [] \<Longrightarrow> \<not> is_ws (last s)"
  shows "str_trim s = s"
  using assms dropWhile_hd_id [of s is_ws] dropWhile_hd_id [of "rev s" is_ws]
  by (simp add: str_trim_def hd_rev)

lemma str_trim_idem [simp]: "str_trim (str_trim s) = str_trim s"
  by (rule str_trim_id) (simp_all add: str_trim_hd str_trim_last)

fun str_join :: "string \<Rightarrow> string list \<Rightarrow> string" where
  "str_join sep [] = []"
| "str_join sep [x] = x"
| "str_join sep (x # y # ys) = x @ sep @ str_join sep (y # ys)"

text \<open>\<open>s.split(sep)\<close> for a non-empty separator.\<close>

fun split_from :: "string \<Rightarrow> string \<Rightarrow> nat \<Rightarrow> string \<Rightarrow> string list" where
  "split_from sep acc skip [] = [rev acc]"
| "split_from sep acc (Suc n) (c # s) = split_from sep acc n s"
| "split_from sep acc 0 (c # s) =
     (if prefix sep (c # s) then rev acc # split_from sep [] (length sep - 1) s
      else split_from sep (c # acc) 0 s)"

definition str_split :: "string \<Rightarrow> string \<Rightarrow> string list" where
  "str_split sep s = split_from sep [] 0 s"

text \<open>\<open>s.replace(pat, rep)\<close> with a string pattern: the first occurrence only.\<close>

fun str_replace :: "string \<Rightarrow> string \<Rightarrow> string \<Rightarrow> string" where
  "str_replace pat rep [] = (if pat = [] then rep else [])"
| "str_replace pat rep (c # s) =
     (if prefix pat (c # s) then rep @ drop (length pat) (c # s)
      else c # str_replace pat rep s)"

lemma str_replace_absent: "\<not> str_includes pat s \<Longrightarrow> str_replace pat rep s = s"
  by (induction s) auto

section \<open>Numbers\<close>

datatype jsnum = NaN | PosInf | NegInf | Fin rat

abbreviation num_of_nat :: "nat \<Rightarrow> jsnum" where
  "num_of_nat n \<equiv> Fin (of_nat n)"

abbreviation num_of_int :: "int \<Rightarrow> jsnum" where
  "num_of_int i \<equiv> Fin (of_int i)"

definition span_digits :: "string \<Rightarrow> string \<times> string" where
  "span_digits s = (takeWhile is_digit s, dropWhile is_digit s)"

fun split_sign :: "string \<Rightarrow> bool \<times> string" where
  "split_sign [] = (False, [])"
| "split_sign (c # s) =
     (if c = CHR ''-'' then (True, s) else if c = CHR ''+'' then (False, s)
      else (False, c # s))"

text \<open>The longest decimal literal at the start of a string, and what follows it.\<close>

definition parse_exponent :: "string \<Rightarrow> (int \<times> string) option" where
  "parse_exponent s =
     (case s of [] \<Rightarrow> None
      | c # r \<Rightarrow>
          if c = CHR ''e'' \<or> c = CHR ''E'' then
            (let (neg, r1) = split_sign r; (ds, r2) = span_digits r1
             in if ds = [] then None
                else Some ((if neg then - int (nat_of_digits ds) else int (nat_of_digits ds)), r2))
          else None)"

definition pow10 :: "int \<Rightarrow> rat" where
  "pow10 e = (if 0 \<le> e then 10 ^ nat e else 1 / 10 ^ nat (- e))"

definition parse_dec :: "string \<Rightarrow> (rat \<times> string) option" where
  "parse_dec s =
     (let (ip, r1) = span_digits s;
          (fp, r2) = (case r1 of [] \<Rightarrow> ([], [])
                      | c # r \<Rightarrow> if c = CHR ''.'' then span_digits r else ([], c # r))
      in if ip = [] \<and> fp = [] then None
         else let m = of_nat (nat_of_digits (ip @ fp)) * pow10 (- int (length fp))
              in (case parse_exponent r2 of
                    None \<Rightarrow> Some (m, r2)
                  | Some (e, r3) \<Rightarrow> Some (m * pow10 e, r3)))"

text \<open>\<open>parseInt(s, 10)\<close> and \<open>parseFloat(s)\<close>.\<close>

definition parseInt10 :: "string \<Rightarrow> jsnum" where
  "parseInt10 s =
     (let (neg, r) = split_sign (str_trim_start s); ds = fst (span_digits r)
      in if ds = [] then NaN
         else num_of_int (if neg then - int (nat_of_digits ds) else int (nat_of_digits ds)))"

definition parseFloat :: "string \<Rightarrow> jsnum" where
  "parseFloat s =
     (let (neg, r) = split_sign (str_trim_start s)
      in if prefix ''Infinity'' r then (if neg then NegInf else PosInf)
         else (case parse_dec r of None \<Rightarrow> NaN
               | Some (q, _) \<Rightarrow> Fin (if neg then - q else q)))"

text \<open>\<open>Number(s)\<close> on a string: whole-string numerals, including the radix prefixes.\<close>

definition hex_val :: "char \<Rightarrow> nat option" where
  "hex_val c =
     (let n = of_char c :: nat
      in if 48 \<le> n \<and> n \<le> 57 then Some (n - 48)
         else if 97 \<le> n \<and> n \<le> 102 then Some (n - 87)
         else if 65 \<le> n \<and> n \<le> 70 then Some (n - 55) else None)"

fun radix_val :: "nat \<Rightarrow> nat \<Rightarrow> string \<Rightarrow> nat option" where
  "radix_val b acc [] = Some acc"
| "radix_val b acc (c # s) =
     (case hex_val c of None \<Rightarrow> None
      | Some d \<Rightarrow> if d < b then radix_val b (b * acc + d) s else None)"

definition radix_number :: "nat \<Rightarrow> string \<Rightarrow> jsnum" where
  "radix_number b s =
     (if s = [] then NaN
      else case radix_val b 0 s of None \<Rightarrow> NaN | Some n \<Rightarrow> num_of_nat n)"

definition str_number :: "string \<Rightarrow> jsnum" where
  "str_number s0 =
     (let s = str_trim s0
      in if s = [] then Fin 0
         else if prefix ''0x'' s \<or> prefix ''0X'' s then radix_number 16 (drop 2 s)
         else if prefix ''0o'' s \<or> prefix ''0O'' s then radix_number 8 (drop 2 s)
         else if prefix ''0b'' s \<or> prefix ''0B'' s then radix_number 2 (drop 2 s)
         else let (neg, r) = split_sign s
              in if r = ''Infinity'' then (if neg then NegInf else PosInf)
                 else (case parse_dec r of None \<Rightarrow> NaN
                       | Some (q, rest) \<Rightarrow>
                           if rest = [] then Fin (if neg then - q else q) else NaN))"

fun frac_digits :: "nat \<Rightarrow> rat \<Rightarrow> string" where
  "frac_digits 0 r = []"
| "frac_digits (Suc n) r =
     (if r = 0 then []
      else let d = floor (10 * r) in show_nat (nat d) @ frac_digits n (10 * r - of_int d))"

fun num_to_string :: "jsnum \<Rightarrow> string" where
  "num_to_string NaN = ''NaN''"
| "num_to_string PosInf = ''Infinity''"
| "num_to_string NegInf = ''-Infinity''"
| "num_to_string (Fin q) =
     (let a = abs q; i = floor a; r = a - of_int i
      in (if q < 0 then ''-'' else []) @ show_nat (nat i) @
         (if r = 0 then [] else CHR ''.'' # frac_digits 20 r))"

lemma num_to_string_int: "num_to_string (num_of_int i) = show_int i"
  by (simp add: show_int_def Let_def)

section \<open>Values\<close>

datatype jsval =
    JUndef
  | JNull
  | JBool bool
  | JNum jsnum
  | JStr string
  | JArr "jsval list"
  | JObj "(string \<times> jsval) list"

abbreviation JInt :: "int \<Rightarrow> jsval" where
  "JInt i \<equiv> JNum (num_of_int i)"

fun truthy :: "jsval \<Rightarrow> bool" where
  "truthy JUndef = False"
| "truthy JNull = False"
| "truthy (JBool b) = b"
| "truthy (JNum n) = (n \<noteq> NaN \<and> n \<noteq> Fin 0)"
| "truthy (JStr s) = (s \<noteq> [])"
| "truthy (JArr _) = True"
| "truthy (JObj _) = True"

definition nullish :: "jsval \<Rightarrow> bool" where
  "nullish v \<longleftrightarrow> v = JUndef \<or> v = JNull"

definition js_or :: "jsval \<Rightarrow> jsval \<Rightarrow> jsval" where
  "js_or a b = (if truthy a then a else b)"

definition js_coalesce :: "jsval \<Rightarrow> jsval \<Rightarrow> jsval" where
  "js_coalesce a b = (if nullish a then b else a)"

text \<open>A destructuring default applies to \<open>undefined\<close> only.\<close>

definition js_default :: "jsval \<Rightarrow> jsval \<Rightarrow> jsval" where
  "js_default a d = (if a = JUndef then d else a)"

fun is_str :: "jsval \<Rightarrow> bool" where
  "is_str (JStr _) = True"
| "is_str _ = False"

fun is_bool :: "jsval \<Rightarrow> bool" where
  "is_bool (JBool _) = True"
| "is_bool _ = False"

fun is_arr :: "jsval \<Rightarrow> bool" where
  "is_arr (JArr _) = True"
| "is_arr _ = False"

fun strict_eq :: "jsval \<Rightarrow> jsval \<Rightarrow> bool" where
  "strict_eq JUndef JUndef = True"
| "strict_eq JNull JNull = True"
| "strict_eq (JBool a) (JBool b) = (a = b)"
| "strict_eq (JNum a) (JNum b) = (a = b \<and> a \<noteq> NaN)"
| "strict_eq (JStr a) (JStr b) = (a = b)"
| "strict_eq _ _ = False"

text \<open>The comparison of \<open>Set\<close>, \<open>Map\<close> and \<open>includes\<close>.\<close>

fun same_value_zero :: "jsval \<Rightarrow> jsval \<Rightarrow> bool" where
  "same_value_zero (JNum a) (JNum b) = (a = b)"
| "same_value_zero a b = strict_eq a b"

lemma strict_eq_imp_eq: "strict_eq a b \<Longrightarrow> a = b"
  by (induction a b rule: strict_eq.induct) auto

lemma strict_eq_JStr [simp]: "strict_eq v (JStr s) \<longleftrightarrow> v = JStr s" "strict_eq (JStr s) v \<longleftrightarrow> v = JStr s"
  by (cases v; auto)+

lemma same_value_zero_imp_eq: "same_value_zero a b \<Longrightarrow> a = b"
  by (cases a; cases b) auto

lemma same_value_zero_JStr [simp]:
  "same_value_zero v (JStr s) \<longleftrightarrow> v = JStr s" "same_value_zero (JStr s) v \<longleftrightarrow> v = JStr s"
  by (cases v; auto)+

subsection \<open>Property access\<close>

text \<open>
  The properties every plain object inherits, with the text of their values: they are found
  by \<open>k in obj\<close> and by \<open>obj[k]\<close> although no object literal mentions them.
\<close>

definition native_function :: "string \<Rightarrow> string" where
  "native_function name = ''function '' @ name @ ''() { [native code] }''"

definition object_prototype :: "string obj" where
  "object_prototype =
     (''constructor'', native_function ''Object'') # (''__proto__'', ''[object Object]'') #
     map (\<lambda>k. (k, native_function k))
       [''__defineGetter__'', ''__defineSetter__'', ''hasOwnProperty'', ''__lookupGetter__'',
        ''__lookupSetter__'', ''isPrototypeOf'', ''propertyIsEnumerable'', ''toString'', ''valueOf'',
        ''toLocaleString'']"

text \<open>\<open>oprop\<close> is \<open>v?.k\<close>; \<open>getprop\<close> is \<open>v.k\<close>, which throws on \<open>undefined\<close> and \<open>null\<close>.\<close>

fun oprop :: "jsval \<Rightarrow> string \<Rightarrow> jsval" where
  "oprop (JObj ps) k = (case map_of ps k of None \<Rightarrow> JUndef | Some v \<Rightarrow> v)"
| "oprop (JArr xs) k = (if k = ''length'' then JNum (num_of_nat (length xs)) else JUndef)"
| "oprop (JStr s) k = (if k = ''length'' then JNum (num_of_nat (length s)) else JUndef)"
| "oprop _ k = JUndef"

definition getprop :: "jsval \<Rightarrow> string \<Rightarrow> jsval res" where
  "getprop v k = (if nullish v then Inl TypeError else Inr (oprop v k))"

fun has_own :: "jsval \<Rightarrow> string \<Rightarrow> bool" where
  "has_own (JObj ps) k = (k \<in> set (map fst ps))"
| "has_own _ k = False"

text \<open>The elements an array iteration method visits; any other value throws.\<close>

fun elems :: "jsval \<Rightarrow> jsval list res" where
  "elems (JArr xs) = Inr xs"
| "elems _ = Inl TypeError"

text \<open>What \<open>[...v]\<close> iterates over.\<close>

fun iterate :: "jsval \<Rightarrow> jsval list res" where
  "iterate (JArr xs) = Inr xs"
| "iterate (JStr s) = Inr (map (\<lambda>c. JStr [c]) s)"
| "iterate _ = Inl TypeError"

definition js_concat :: "jsval list \<Rightarrow> jsval \<Rightarrow> jsval list" where
  "js_concat xs v = xs @ (case v of JArr ys \<Rightarrow> ys | _ \<Rightarrow> [v])"

subsection \<open>Spread\<close>

text \<open>
  \<open>{...a, ...b}\<close>: for each own key of the source, in order, the value read there is
  assigned.
\<close>

definition obj_assign :: "'v obj \<Rightarrow> 'v obj \<Rightarrow> 'v obj" where
  "obj_assign a b =
     fold (\<lambda>k ob. case map_of b k of None \<Rightarrow> ob | Some v \<Rightarrow> obj_put k v ob) (map fst b) a"

fun own_props :: "jsval \<Rightarrow> jsval obj" where
  "own_props (JObj ps) = ps"
| "own_props (JArr xs) = map (\<lambda>(i, v). (show_nat i, v)) (enumerate 0 xs)"
| "own_props (JStr s) = map (\<lambda>(i, c). (show_nat i, JStr [c])) (enumerate 0 s)"
| "own_props _ = []"

text \<open>\<open>Object.fromEntries\<close>.\<close>

definition from_entries :: "(string \<times> 'v) list \<Rightarrow> 'v obj" where
  "from_entries ps = fold (\<lambda>(k, v). obj_put k v) ps []"

lemma map_of_obj_assign [dict_simps]: "map_of (obj_assign a b) = map_of a ++ map_of b"
proof -
  have step: "map_of (fold (\<lambda>k ob. case map_of b k of None \<Rightarrow> ob | Some v \<Rightarrow> obj_put k v ob) ks a)
      = map_of a ++ (map_of b |` set ks)" for ks
    by (induction ks arbitrary: a)
       (auto simp: map_of_obj_put fun_eq_iff map_add_def restrict_map_def split: option.splits)
  have "map_of b |` set (map fst b) = map_of b"
    by (auto simp: fun_eq_iff restrict_map_def dom_map_of_conv_image_fst [symmetric] domIff)
  with step [of "map fst b"] show ?thesis by (simp add: obj_assign_def)
qed

lemma obj_wf_assign: "obj_wf a \<Longrightarrow> obj_wf (obj_assign a b)"
proof -
  have "obj_wf a \<Longrightarrow>
      obj_wf (fold (\<lambda>k ob. case map_of b k of None \<Rightarrow> ob | Some v \<Rightarrow> obj_put k v ob) ks a)" for ks
    by (induction ks arbitrary: a) (auto simp: obj_wf_put split: option.splits)
  then show "obj_wf a \<Longrightarrow> ?thesis" by (simp add: obj_assign_def)
qed

lemma obj_wf_from_entries: "obj_wf (from_entries ps)"
  unfolding from_entries_def by (rule objd.wf_put_all) simp

lemma map_of_from_entries [dict_simps]: "map_of (from_entries ps) = map_of (rev ps)"
  unfolding from_entries_def by (subst objd.get_put_all) simp

lemma oprop_Nil [simp]: "oprop (JObj []) k = JUndef"
  by simp

lemma oprop_Cons [simp]:
  "oprop (JObj ((k', v) # ps)) k = (if k' = k then v else oprop (JObj ps) k)"
  by simp

lemma oprop_put [simp]:
  "oprop (JObj (obj_put k v ps)) k' = (if k = k' then v else oprop (JObj ps) k')"
  by (simp add: map_of_obj_put)

lemma oprop_assign:
  "oprop (JObj (obj_assign a b)) k =
     (if k \<in> set (map fst b) then oprop (JObj b) k else oprop (JObj a) k)"
proof -
  have "k \<in> set (map fst b) \<longleftrightarrow> map_of b k \<noteq> None"
    by (simp add: map_of_eq_None_iff)
  then show ?thesis by (auto simp: map_of_obj_assign map_add_def split: option.splits)
qed

lemma oprop_delete [simp]:
  "oprop (JObj (AList.delete k ps)) k' = (if k = k' then JUndef else oprop (JObj ps) k')"
  by (simp add: delete_conv')

declare oprop.simps(1) [simp del]

subsection \<open>Conversions\<close>

fun to_str :: "jsval \<Rightarrow> string" where
  "to_str JUndef = ''undefined''"
| "to_str JNull = ''null''"
| "to_str (JBool b) = (if b then ''true'' else ''false'')"
| "to_str (JNum n) = num_to_string n"
| "to_str (JStr s) = s"
| "to_str (JArr xs) =
     str_join '','' (map (\<lambda>x. if x = JUndef \<or> x = JNull then [] else to_str x) xs)"
| "to_str (JObj _) = ''[object Object]''"

fun to_number :: "jsval \<Rightarrow> jsnum" where
  "to_number JUndef = NaN"
| "to_number JNull = Fin 0"
| "to_number (JBool b) = Fin (if b then 1 else 0)"
| "to_number (JNum n) = n"
| "to_number (JStr s) = str_number s"
| "to_number (JArr xs) = str_number (to_str (JArr xs))"
| "to_number (JObj ps) = NaN"

end
