(* ===== verification/JsJson.thy ===== *)
theory JsJson
  imports JsVal
begin

text \<open>
  \<open>JSON.parse\<close>, used by the code on option strings such as \<open>["col", true]\<close>. The
  parser follows the JSON grammar; \<open>None\<close> is the \<open>SyntaxError\<close>. Every call of the
  recursion spends one unit of fuel, and \<open>2 * length s + 2\<close> units are enough: a value
  is either a call that consumes its first character or one element of an array or
  object that has already consumed one, so at most two calls share a position
  (\<open>parse_value_fuel\<close> proves that more fuel never changes the result).
\<close>

definition json_ws :: "char \<Rightarrow> bool" where
  "json_ws c \<longleftrightarrow> (of_char c :: nat) \<in> {9, 10, 13, 32}"

definition skip_ws :: "string \<Rightarrow> string" where
  "skip_ws s = dropWhile json_ws s"

definition simple_escape :: "char \<Rightarrow> char option" where
  "simple_escape c =
     (if c = CHR 0x22 \<or> c = CHR 0x5C \<or> c = CHR ''/'' then Some c
      else if c = CHR ''b'' then Some (char_of (8::nat))
      else if c = CHR ''f'' then Some (char_of (12::nat))
      else if c = CHR ''n'' then Some (char_of (10::nat))
      else if c = CHR ''r'' then Some (char_of (13::nat))
      else if c = CHR ''t'' then Some (char_of (9::nat))
      else None)"

text \<open>The four digits of a \<open>\u\<close> escape; code units from 256 on are outside the model.\<close>

definition unicode_escape :: "string \<Rightarrow> char option" where
  "unicode_escape h =
     (if length h \<noteq> 4 then None
      else case radix_val 16 0 h of
        None \<Rightarrow> None
      | Some n \<Rightarrow> if n < 256 then Some (char_of n) else None)"

function (sequential) parse_chars :: "string \<Rightarrow> string \<Rightarrow> (string \<times> string) option" where
  "parse_chars acc [] = None"
| "parse_chars acc (c # s) =
     (if c = CHR 0x22 then Some (rev acc, s)
      else if c = CHR 0x5C then
        (case s of
           [] \<Rightarrow> None
         | e # s' \<Rightarrow>
             if e = CHR ''u'' then
               (case unicode_escape (take 4 s') of
                  None \<Rightarrow> None
                | Some u \<Rightarrow> parse_chars (u # acc) (drop 4 s'))
             else (case simple_escape e of
                     None \<Rightarrow> None
                   | Some u \<Rightarrow> parse_chars (u # acc) s'))
      else if (of_char c :: nat) < 32 then None
      else parse_chars (c # acc) s)"
  by pat_completeness auto
termination by (relation "measure (\<lambda>(acc, s). length s)") auto

text \<open>The optional fraction and exponent of a number, and what follows them.\<close>

definition json_frac :: "string \<Rightarrow> (string \<times> string) option" where
  "json_frac s =
     (if s \<noteq> [] \<and> hd s = CHR ''.'' then
        (if takeWhile is_digit (tl s) = [] then None else Some (span_digits (tl s)))
      else Some ([], s))"

definition json_exp :: "string \<Rightarrow> (int \<times> string) option" where
  "json_exp s =
     (if s \<noteq> [] \<and> (hd s = CHR ''e'' \<or> hd s = CHR ''E'') then parse_exponent s
      else Some (0, s))"

definition parse_json_number :: "string \<Rightarrow> (jsval \<times> string) option" where
  "parse_json_number s =
     (let neg = (s \<noteq> [] \<and> hd s = CHR ''-'');
          s1 = (if neg then tl s else s);
          ip = takeWhile is_digit s1
      in if ip = [] \<or> (hd ip = CHR ''0'' \<and> length ip > 1) then None
         else (case json_frac (dropWhile is_digit s1) of
                 None \<Rightarrow> None
               | Some (fp, r2) \<Rightarrow>
                   (case json_exp r2 of
                      None \<Rightarrow> None
                    | Some (e, r3) \<Rightarrow>
                        let q = of_nat (nat_of_digits (ip @ fp)) * pow10 (e - int (length fp))
                        in Some (JNum (Fin (if neg then - q else q)), r3))))"

text \<open>A string, a literal name or a number.\<close>

definition parse_atom :: "string \<Rightarrow> (jsval \<times> string) option" where
  "parse_atom s =
     (if prefix [CHR 0x22] s then map_option (\<lambda>(t, r). (JStr t, r)) (parse_chars [] (drop 1 s))
      else if prefix ''true'' s then Some (JBool True, drop 4 s)
      else if prefix ''false'' s then Some (JBool False, drop 5 s)
      else if prefix ''null'' s then Some (JNull, drop 4 s)
      else parse_json_number s)"

text \<open>The quoted key of an object member and its colon.\<close>

definition parse_key :: "string \<Rightarrow> (string \<times> string) option" where
  "parse_key s =
     (case skip_ws s of
        [] \<Rightarrow> None
      | q # s' \<Rightarrow>
          if q \<noteq> CHR 0x22 then None
          else (case parse_chars [] s' of
                  None \<Rightarrow> None
                | Some (k, r) \<Rightarrow>
                    (case skip_ws r of
                       [] \<Rightarrow> None
                     | c # r' \<Rightarrow> if c = CHR '':'' then Some (k, r') else None)))"

fun parse_value :: "nat \<Rightarrow> string \<Rightarrow> (jsval \<times> string) option"
  and parse_elems :: "nat \<Rightarrow> jsval list \<Rightarrow> string \<Rightarrow> (jsval \<times> string) option"
  and parse_members :: "nat \<Rightarrow> jsval obj \<Rightarrow> string \<Rightarrow> (jsval \<times> string) option" where
  "parse_value 0 s = None"
| "parse_value (Suc n) s =
     (case skip_ws s of
        [] \<Rightarrow> None
      | c # r \<Rightarrow>
          if c = CHR ''['' then
            (case skip_ws r of
               [] \<Rightarrow> None
             | d # r' \<Rightarrow> if d = CHR '']'' then Some (JArr [], r') else parse_elems n [] (d # r'))
          else if c = CHR ''{'' then
            (case skip_ws r of
               [] \<Rightarrow> None
             | d # r' \<Rightarrow> if d = CHR ''}'' then Some (JObj [], r') else parse_members n [] (d # r'))
          else parse_atom (c # r))"
| "parse_elems 0 acc s = None"
| "parse_elems (Suc n) acc s =
     (case parse_value n s of
        None \<Rightarrow> None
      | Some (v, r) \<Rightarrow>
          (case skip_ws r of
             [] \<Rightarrow> None
           | c # r' \<Rightarrow>
               if c = CHR '','' then parse_elems n (acc @ [v]) r'
               else if c = CHR '']'' then Some (JArr (acc @ [v]), r')
               else None))"
| "parse_members 0 acc s = None"
| "parse_members (Suc n) acc s =
     (case parse_key s of
        None \<Rightarrow> None
      | Some (k, r) \<Rightarrow>
          (case parse_value n r of
             None \<Rightarrow> None
           | Some (v, t) \<Rightarrow>
               (case skip_ws t of
                  [] \<Rightarrow> None
                | d # t' \<Rightarrow>
                    if d = CHR '','' then parse_members n (obj_put k v acc) t'
                    else if d = CHR ''}'' then Some (JObj (obj_put k v acc), t')
                    else None)))"

definition json_parse :: "string \<Rightarrow> jsval option" where
  "json_parse s =
     (case parse_value (2 * length s + 2) s of
        None \<Rightarrow> None
      | Some (v, r) \<Rightarrow> if skip_ws r = [] then Some v else None)"

subsection \<open>The fuel is enough\<close>

lemma parse_chars_length: "parse_chars acc s = Some (t, r) \<Longrightarrow> length r < length s"
proof (induction acc s rule: parse_chars.induct)
  case (1 acc)
  then show ?case by simp
next
  case (2 acc c s)
  then show ?case
    by (force split: if_splits list.splits option.splits)
qed

lemma parse_exponent_length: "parse_exponent s = Some (e, r) \<Longrightarrow> length r \<le> length s"
proof -
  have "length (snd (split_sign t)) \<le> length t" for t
    by (cases t) auto
  then show "parse_exponent s = Some (e, r) \<Longrightarrow> ?thesis"
    by (auto simp: parse_exponent_def span_digits_def Let_def split: list.splits if_splits prod.splits
        intro!: le_SucI)
      (metis length_dropWhile_le le_trans snd_conv)+
qed

lemma json_frac_length: "json_frac s = Some (fp, r) \<Longrightarrow> length r \<le> length s"
  by (cases s)
     (auto simp: json_frac_def span_digits_def le_SucI length_dropWhile_le split: if_splits)

lemma json_exp_length: "json_exp s = Some (e, r) \<Longrightarrow> length r \<le> length s"
  by (auto simp: json_exp_def dest: parse_exponent_length split: if_splits)

lemma parse_json_number_length:
  assumes "parse_json_number s = Some (v, r)"
  shows "length r \<le> length s"
proof -
  let ?s1 = "if s \<noteq> [] \<and> hd s = CHR ''-'' then tl s else s"
  obtain fp r2 e where "json_frac (dropWhile is_digit ?s1) = Some (fp, r2)"
      and "json_exp r2 = Some (e, r)"
    using assms unfolding parse_json_number_def Let_def
    by (auto split: if_splits option.splits)
  then have "length r \<le> length (dropWhile is_digit ?s1)"
    using json_frac_length json_exp_length le_trans by blast
  also have "\<dots> \<le> length ?s1" by (rule length_dropWhile_le)
  also have "\<dots> \<le> length s" by simp
  finally show ?thesis .
qed

lemma skip_ws_Cons_length: "skip_ws s = c # r \<Longrightarrow> length r < length s"
  using length_dropWhile_le [of json_ws s] by (simp add: skip_ws_def)

lemma parse_atom_length: "parse_atom s = Some (v, r) \<Longrightarrow> length r \<le> length s"
proof -
  have q: "length r \<le> length s" if "parse_chars [] (drop (Suc 0) s) = Some (t, r)" for t
    using parse_chars_length [OF that] by simp
  assume "parse_atom s = Some (v, r)"
  then show ?thesis
    by (auto simp: parse_atom_def dest: q parse_json_number_length split: if_splits)
qed

lemma parse_key_length: "parse_key s = Some (k, r) \<Longrightarrow> length r < length s"
  by (auto simp: parse_key_def split: list.splits if_splits option.splits
      dest!: skip_ws_Cons_length parse_chars_length)

lemma parse_length:
  "parse_value n s = Some (v, r) \<Longrightarrow> length r \<le> length s"
  "parse_elems n acc s = Some (v, r) \<Longrightarrow> length r \<le> length s"
  "parse_members n m s = Some (v, r) \<Longrightarrow> length r \<le> length s"
proof (induction n s and n acc s and n m s arbitrary: v r and v r and v r
    rule: parse_value_parse_elems_parse_members.induct)
  case (2 n s)
  from "2.prems" obtain c t where ct: "skip_ws s = c # t"
    by (cases "skip_ws s") simp_all
  have lt: "length t < length s" by (rule skip_ws_Cons_length [OF ct])
  show ?case
  proof (cases "c = CHR ''['' \<or> c = CHR ''{''")
    case True
    then obtain d r' where d: "skip_ws t = d # r'"
      using "2.prems" ct by (cases "skip_ws t") auto
    have ld: "length (d # r') \<le> length t" using skip_ws_Cons_length [OF d] by simp
    show ?thesis
      using "2.prems" "2.IH" True ct d lt ld by (fastforce split: if_splits)
  next
    case False
    then show ?thesis
      using "2.prems" ct lt parse_atom_length [of "c # t" v r] by simp
  qed
next
  case (4 n acc s)
  from "4.prems" obtain w t c r' where w: "parse_value n s = Some (w, t)" "skip_ws t = c # r'"
    by (auto split: option.splits list.splits)
  have "length t \<le> length s" using "4.IH"(1) w(1) by simp
  moreover have "length r' < length t" by (rule skip_ws_Cons_length [OF w(2)])
  ultimately show ?case
    using "4.prems" "4.IH"(2) w by (fastforce split: if_splits)
next
  case (6 n acc s)
  from "6.prems" obtain k r0 w t c r' where k: "parse_key s = Some (k, r0)"
      and w: "parse_value n r0 = Some (w, t)" "skip_ws t = c # r'"
    by (auto split: option.splits list.splits)
  have "length t \<le> length r0" using "6.IH"(1) k w(1) by simp
  moreover have "length r' < length t" by (rule skip_ws_Cons_length [OF w(2)])
  moreover have "length r0 < length s" by (rule parse_key_length [OF k])
  ultimately show ?case
    using "6.prems" "6.IH"(2) k w by (fastforce split: if_splits)
qed simp_all

lemma parse_fuel:
  "2 * length s + 1 \<le> n \<Longrightarrow> 2 * length s + 1 \<le> n' \<Longrightarrow> parse_value n s = parse_value n' s"
  "2 * length s + 2 \<le> n \<Longrightarrow> 2 * length s + 2 \<le> n' \<Longrightarrow> parse_elems n acc s = parse_elems n' acc s"
  "2 * length s + 2 \<le> n \<Longrightarrow> 2 * length s + 2 \<le> n' \<Longrightarrow> parse_members n m s = parse_members n' m s"
proof (induction n s and n acc s and n m s arbitrary: n' and n' and n'
    rule: parse_value_parse_elems_parse_members.induct)
  case (2 n s)
  from "2.prems"(2) obtain n0 where n': "n' = Suc n0" by (cases n') auto
  show ?case
  proof (cases "skip_ws s")
    case Nil
    then show ?thesis by (simp add: n')
  next
    case (Cons c t)
    have lt: "length t < length s" by (rule skip_ws_Cons_length [OF Cons])
    have ld: "length (d # r') \<le> length t" if "skip_ws t = d # r'" for d r'
      using skip_ws_Cons_length [OF that] by simp
    show ?thesis
    proof (cases "skip_ws t")
      case Nil
      with Cons show ?thesis by (simp add: n')
    next
      case (Cons d r')
      have "2 * length (d # r') + 2 \<le> n" "2 * length (d # r') + 2 \<le> n0"
        using ld [OF Cons] lt "2.prems" n' by auto
      then show ?thesis
        using "2.IH"(1)[OF \<open>skip_ws s = c # t\<close> _ Cons, of n0]
          "2.IH"(2)[OF \<open>skip_ws s = c # t\<close> _ _ Cons, of n0] Cons \<open>skip_ws s = c # t\<close>
        by (cases "c = CHR ''[''"; cases "c = CHR ''{''"; simp add: n')
    qed
  qed
next
  case (4 n acc s)
  from "4.prems"(2) obtain n0 where n': "n' = Suc n0" by (cases n') auto
  have v: "parse_value n s = parse_value n0 s"
    by (rule "4.IH"(1)) (use "4.prems" n' in simp_all)
  have e: "parse_elems n (acc @ [w]) r' = parse_elems n0 (acc @ [w]) r'"
    if "parse_value n s = Some (w, t)" "skip_ws t = c # r'" "c = CHR '',''" for w t c r'
  proof -
    have "length r' < length s"
      using parse_length(1)[OF that(1)] skip_ws_Cons_length [OF that(2)] by linarith
    then show ?thesis
      using "4.prems" n' by (intro "4.IH"(2)[OF that(1) refl that(2,3)]) simp_all
  qed
  show ?case
  proof (cases "parse_value n s")
    case None
    then show ?thesis by (simp add: n' v [symmetric])
  next
    case (Some p)
    then obtain w t where "parse_value n s = Some (w, t)" by (cases p) auto
    then show ?thesis
      using e [of w t] by (cases "skip_ws t") (simp_all add: n' v [symmetric])
  qed
next
  case (6 n acc s)
  from "6.prems"(2) obtain n0 where n': "n' = Suc n0" by (cases n') auto
  have v: "parse_value n r = parse_value n0 r" if "parse_key s = Some (k, r)" for k r
    by (rule "6.IH"(1)[OF that refl]) (use "6.prems" n' parse_key_length [OF that] in simp_all)
  have e: "parse_members n (obj_put k w acc) r' = parse_members n0 (obj_put k w acc) r'"
    if "parse_key s = Some (k, r)" "parse_value n r = Some (w, t)" "skip_ws t = c # r'" "c = CHR '',''"
    for k r w t c r'
  proof -
    have "length r' < length s"
      using parse_length(1)[OF that(2)] skip_ws_Cons_length [OF that(3)]
        parse_key_length [OF that(1)] by linarith
    then show ?thesis
      using "6.prems" n' by (intro "6.IH"(2)[OF that(1) refl that(2) refl that(3,4)]) simp_all
  qed
  show ?case
  proof (cases "parse_key s")
    case None
    then show ?thesis by (simp add: n')
  next
    case (Some p)
    then obtain k r where k: "parse_key s = Some (k, r)" by (cases p) auto
    note v = v [OF k]
    show ?thesis
    proof (cases "parse_value n r")
      case None
      then show ?thesis by (simp add: n' k v [symmetric])
    next
      case (Some p)
      then obtain w t where "parse_value n r = Some (w, t)" by (cases p) auto
      then show ?thesis
        using e [OF k, of w t] by (cases "skip_ws t") (simp_all add: n' k v [symmetric])
    qed
  qed
qed auto

lemma parse_value_fuel:
  "2 * length s + 2 \<le> n \<Longrightarrow> parse_value n s = parse_value (2 * length s + 2) s"
  by (rule parse_fuel(1)) simp_all

lemma json_parse_orderby_example:
  "json_parse (CHR ''['' # CHR 0x22 # ''col1'' @ CHR 0x22 # '', true]'') =
     Some (JArr [JStr ''col1'', JBool True])"
  by code_simp

end
