(* ===== verification/QueryTypes.thy ===== *)
theory QueryTypes
  imports JsJson
begin

text \<open>
  The vocabulary of a chart query: the helpers of \<open>superset-ui-core/src/utils\<close>, the
  operator tables and the type guards of \<open>query/types\<close>, the labels of columns and
  metrics, the x-axis accessors, the conversion of one ad-hoc filter and the datasource
  key. Form data, columns, metrics and filters are dynamically typed values, as in the
  code; a guard is a boolean function on them.
\<close>

section \<open>Helpers\<close>

fun ensureIsArray :: "jsval \<Rightarrow> jsval list" where
  "ensureIsArray JUndef = []"
| "ensureIsArray JNull = []"
| "ensureIsArray (JArr xs) = xs"
| "ensureIsArray v = [v]"

definition isDefined :: "jsval \<Rightarrow> bool" where
  "isDefined x \<longleftrightarrow> x \<noteq> JNull \<and> x \<noteq> JUndef"

definition ensureIsInt :: "jsval \<Rightarrow> jsnum option \<Rightarrow> jsnum" where
  "ensureIsInt value defaultValue =
     (let val = parseInt10 (to_str value);
          defaultOrNaN = (case defaultValue of None \<Rightarrow> NaN | Some d \<Rightarrow> d)
      in if val = NaN then defaultOrNaN else val)"

fun dedup_by :: "('a \<Rightarrow> jsval res) \<Rightarrow> jsval list \<Rightarrow> 'a list \<Rightarrow> 'a list res" where
  "dedup_by hash seen [] = Inr []"
| "dedup_by hash seen (x # xs) =
     rbind (hash x) (\<lambda>itemHash.
       if list_ex (same_value_zero itemHash) seen then dedup_by hash seen xs
       else rbind (dedup_by hash (itemHash # seen) xs) (\<lambda>ys. Inr (x # ys)))"

definition removeDuplicates :: "jsval list \<Rightarrow> (jsval \<Rightarrow> jsval res) option \<Rightarrow> jsval list res" where
  "removeDuplicates items hash =
     (case hash of
        Some h \<Rightarrow> dedup_by h [] items
      | None \<Rightarrow> dedup_by Inr [] items)"

section \<open>Operators\<close>

definition UNARY_OPERATORS :: "string list" where
  "UNARY_OPERATORS = [''IS NOT NULL'', ''IS NULL'']"

definition BINARY_OPERATORS :: "string list" where
  "BINARY_OPERATORS =
     [''=='', ''!='', ''>'', ''<'', ''>='', ''<='', ''ILIKE'', ''LIKE'', ''NOT LIKE'',
      ''REGEX'', ''TEMPORAL_RANGE'']"

definition SET_OPERATORS :: "string list" where
  "SET_OPERATORS = [''IN'', ''NOT IN'']"

definition isUnaryOperator :: "jsval \<Rightarrow> bool" where
  "isUnaryOperator opr \<longleftrightarrow> list_ex (\<lambda>s. opr = JStr s) UNARY_OPERATORS"

definition isBinaryOperator :: "jsval \<Rightarrow> bool" where
  "isBinaryOperator opr \<longleftrightarrow> list_ex (\<lambda>s. opr = JStr s) BINARY_OPERATORS"

definition isSetOperator :: "jsval \<Rightarrow> bool" where
  "isSetOperator opr \<longleftrightarrow> list_ex (\<lambda>s. opr = JStr s) SET_OPERATORS"

section \<open>Filters\<close>

definition isSimpleAdhocFilter :: "jsval \<Rightarrow> bool res" where
  "isSimpleAdhocFilter flt =
     rbind (getprop flt ''expressionType'') (\<lambda>t. Inr (t = JStr ''SIMPLE''))"

definition isFreeFormAdhocFilter :: "jsval \<Rightarrow> bool res" where
  "isFreeFormAdhocFilter flt =
     rbind (getprop flt ''expressionType'') (\<lambda>t. Inr (t = JStr ''SQL''))"

definition isUnaryAdhocFilter :: "jsval \<Rightarrow> bool res" where
  "isUnaryAdhocFilter flt = rbind (getprop flt ''operator'') (\<lambda>p. Inr (isUnaryOperator p))"

definition isBinaryAdhocFilter :: "jsval \<Rightarrow> bool res" where
  "isBinaryAdhocFilter flt = rbind (getprop flt ''operator'') (\<lambda>p. Inr (isBinaryOperator p))"

definition isSetAdhocFilter :: "jsval \<Rightarrow> bool res" where
  "isSetAdhocFilter flt = rbind (getprop flt ''operator'') (\<lambda>p. Inr (isSetOperator p))"

text \<open>\<open>convertFilter\<close>: a unary operator has no comparator in the clause it makes.\<close>

definition convertFilter :: "jsval \<Rightarrow> jsval res" where
  "convertFilter flt =
     rbind (getprop flt ''subject'') (\<lambda>subject.
     rbind (isUnaryAdhocFilter flt) (\<lambda>unary.
       if unary then
         Inr (JObj [(''col'', subject), (''op'', oprop flt ''operator'')])
       else rbind (isBinaryAdhocFilter flt) (\<lambda>binary.
         if binary then
           Inr (JObj [(''col'', subject), (''op'', oprop flt ''operator''),
                      (''val'', oprop flt ''comparator'')])
         else
           Inr (JObj [(''col'', subject), (''op'', oprop flt ''operator''),
                      (''val'', oprop flt ''comparator'')]))))"

section \<open>Columns\<close>

definition isPhysicalColumn :: "jsval \<Rightarrow> bool" where
  "isPhysicalColumn column \<longleftrightarrow> is_str column"

definition isAdhocColumn :: "jsval \<Rightarrow> bool" where
  "isAdhocColumn column \<longleftrightarrow>
     \<not> is_str column \<and> oprop column ''sqlExpression'' \<noteq> JUndef \<and>
     oprop column ''label'' \<noteq> JUndef \<and>
     (oprop column ''expressionType'' = JUndef \<or> oprop column ''expressionType'' = JStr ''SQL'')"

definition isAdhocColumnReference :: "jsval \<Rightarrow> bool" where
  "isAdhocColumnReference column \<longleftrightarrow>
     isAdhocColumn column \<and> oprop column ''isColumnReference'' = JBool True"

definition isQueryFormColumn :: "jsval \<Rightarrow> bool" where
  "isQueryFormColumn column \<longleftrightarrow> isPhysicalColumn column \<or> isAdhocColumn column"

definition getColumnLabel :: "jsval \<Rightarrow> jsval" where
  "getColumnLabel column =
     (if isPhysicalColumn column then column
      else if truthy (oprop column ''label'') then oprop column ''label''
      else oprop column ''sqlExpression'')"

section \<open>Metrics\<close>

definition isSavedMetric :: "jsval \<Rightarrow> bool" where
  "isSavedMetric metric \<longleftrightarrow> is_str metric"

definition isAdhocMetricSimple :: "jsval \<Rightarrow> bool" where
  "isAdhocMetricSimple metric \<longleftrightarrow>
     \<not> is_str metric \<and> oprop metric ''expressionType'' = JStr ''SIMPLE''"

definition isAdhocMetricSQL :: "jsval \<Rightarrow> bool" where
  "isAdhocMetricSQL metric \<longleftrightarrow>
     \<not> is_str metric \<and> oprop metric ''expressionType'' = JStr ''SQL''"

definition isQueryFormMetric :: "jsval \<Rightarrow> bool" where
  "isQueryFormMetric metric \<longleftrightarrow>
     isSavedMetric metric \<or> isAdhocMetricSimple metric \<or> isAdhocMetricSQL metric"

definition getMetricLabel :: "jsval \<Rightarrow> jsval res" where
  "getMetricLabel metric =
     (if isSavedMetric metric then Inr metric
      else rbind (getprop metric ''label'') (\<lambda>label.
        if truthy label then Inr label
        else if isAdhocMetricSimple metric then
          rbind (getprop (oprop metric ''column'') ''columnName'') (\<lambda>cn.
            Inr (JStr (to_str (oprop metric ''aggregate'') @ ''('' @
              to_str (js_or cn (oprop (oprop metric ''column'') ''column_name'')) @ '')'')))
        else Inr (oprop metric ''sqlExpression'')))"

section \<open>The x-axis and the time grain\<close>

definition DTTM_ALIAS :: string where
  "DTTM_ALIAS = ''__timestamp''"

definition NO_TIME_RANGE :: string where
  "NO_TIME_RANGE = ''No filter''"

definition isXAxisSet :: "jsval \<Rightarrow> bool" where
  "isXAxisSet formData \<longleftrightarrow> isQueryFormColumn (oprop formData ''x_axis'')"

definition getXAxisColumn :: "jsval \<Rightarrow> jsval" where
  "getXAxisColumn formData =
     (if \<not> truthy (js_or (oprop formData ''granularity_sqla'') (oprop formData ''x_axis'')) then JUndef
      else if isXAxisSet formData then oprop formData ''x_axis''
      else JStr DTTM_ALIAS)"

definition getXAxisLabel :: "jsval \<Rightarrow> jsval" where
  "getXAxisLabel formData =
     (let col = getXAxisColumn formData
      in if truthy col then getColumnLabel col else JUndef)"

definition extractTimegrain :: "jsval \<Rightarrow> jsval res" where
  "extractTimegrain formData =
     (let efd = oprop formData ''extra_form_data''
      in if truthy (oprop efd ''time_grain_sqla'') then Inr (oprop efd ''time_grain_sqla'')
         else
           rbind (elems (js_or (oprop formData ''extra_filters'') (JArr []))) (\<lambda>fs.
           rbind (rmap (\<lambda>f. getprop f ''col'') fs) (\<lambda>cols.
             case List.find (\<lambda>f. oprop f ''col'' = JStr ''__time_grain'') fs of
               Some f \<Rightarrow> Inr (oprop f ''val'')
             | None \<Rightarrow> Inr (oprop formData ''time_grain_sqla''))))"

section \<open>The datasource key\<close>

datatype DatasourceType = Table | Query | Dataset | SlTable | SavedQuery

record DatasourceKey =
  ds_id :: jsnum
  ds_type :: DatasourceType

definition newDatasourceKey :: "jsval \<Rightarrow> DatasourceKey res" where
  "newDatasourceKey key =
     (case key of
        JStr s \<Rightarrow>
          (let parts = str_split ''__'' s
           in Inr \<lparr>ds_id = parseInt10 (hd parts),
                   ds_type = (if length parts > 1 \<and> parts ! 1 = ''query'' then Query else Table)\<rparr>)
      | _ \<Rightarrow> Inl TypeError)"

fun ds_type_str :: "DatasourceType \<Rightarrow> string" where
  "ds_type_str Table = ''table''"
| "ds_type_str Query = ''query''"
| "ds_type_str Dataset = ''dataset''"
| "ds_type_str SlTable = ''sl_table''"
| "ds_type_str SavedQuery = ''saved_query''"

definition datasourceKey_toString :: "DatasourceKey \<Rightarrow> string" where
  "datasourceKey_toString k = num_to_string (ds_id k) @ ''__'' @ ds_type_str (ds_type k)"

definition datasourceKey_toObject :: "DatasourceKey \<Rightarrow> jsval" where
  "datasourceKey_toObject k =
     JObj [(''id'', JNum (ds_id k)), (''type'', JStr (ds_type_str (ds_type k)))]"

section \<open>Facts\<close>

subsection \<open>Removing duplicates\<close>

lemma same_value_zero_sym: "same_value_zero a b = same_value_zero b a"
  by (cases a; cases b) auto

lemma dedup_by_subseq: "dedup_by h seen xs = Inr ys \<Longrightarrow> subseq ys xs"
proof (induction xs arbitrary: seen ys)
  case Nil
  then show ?case by simp
next
  case (Cons x xs)
  then show ?case by (auto simp: rbind_Inr_iff split: if_splits)
qed

lemma dedup_by_fresh:
  "dedup_by h seen xs = Inr ys \<Longrightarrow> y \<in> set ys \<Longrightarrow> h y = Inr l \<Longrightarrow>
     \<not> list_ex (same_value_zero l) seen"
proof (induction xs arbitrary: seen ys)
  case Nil
  then show ?case by simp
next
  case (Cons x xs)
  then show ?case by (fastforce simp: rbind_Inr_iff split: if_splits)
qed

text \<open>No two kept items have equal labels.\<close>

lemma dedup_by_distinct:
  "dedup_by h seen xs = Inr ys \<Longrightarrow>
     sorted_wrt (\<lambda>a b. \<forall>k l. h a = Inr k \<longrightarrow> h b = Inr l \<longrightarrow> \<not> same_value_zero k l) ys"
proof (induction xs arbitrary: seen ys)
  case Nil
  then show ?case by simp
next
  case (Cons x xs)
  then obtain k where k: "h x = Inr k" by (auto simp: rbind_Inr_iff)
  show ?case
  proof (cases "list_ex (same_value_zero k) seen")
    case True
    with Cons k show ?thesis by auto
  next
    case False
    with Cons.prems k obtain zs where zs: "dedup_by h (k # seen) xs = Inr zs" "ys = x # zs"
      by (auto simp: rbind_Inr_iff)
    from dedup_by_fresh [OF zs(1)] have "\<not> same_value_zero k l" if "z \<in> set zs" "h z = Inr l" for z l
      using that same_value_zero_sym by auto
    with Cons.IH [OF zs(1)] zs(2) k show ?thesis by auto
  qed
qed

text \<open>Every dropped item has the label of an item kept (or already seen).\<close>

lemma dedup_by_covers:
  "dedup_by h seen xs = Inr ys \<Longrightarrow> x \<in> set xs \<Longrightarrow>
     \<exists>k. h x = Inr k \<and> (x \<in> set ys \<or> list_ex (same_value_zero k) seen \<or>
          (\<exists>y\<in>set ys. h y = Inr k))"
proof (induction xs arbitrary: seen ys)
  case Nil
  then show ?case by simp
next
  case (Cons a xs)
  then obtain k where k: "h a = Inr k" by (auto simp: rbind_Inr_iff)
  show ?case
  proof (cases "list_ex (same_value_zero k) seen")
    case True
    with Cons k show ?thesis by auto
  next
    case False
    with Cons.prems k obtain zs where zs: "dedup_by h (k # seen) xs = Inr zs" "ys = a # zs"
      by (auto simp: rbind_Inr_iff)
    show ?thesis
    proof (cases "x = a")
      case True
      with k zs show ?thesis by simp
    next
      case False
      with Cons.prems have "x \<in> set xs" by simp
      from Cons.IH [OF zs(1) this] obtain j where "h x = Inr j"
        "x \<in> set zs \<or> same_value_zero j k \<or> list_ex (same_value_zero j) seen \<or> (\<exists>y\<in>set zs. h y = Inr j)"
        by auto
      with zs(2) k show ?thesis using same_value_zero_imp_eq [of j k] by auto
    qed
  qed
qed

lemma dedup_by_total: "(\<And>x. x \<in> set xs \<Longrightarrow> \<exists>k. h x = Inr k) \<Longrightarrow> \<exists>ys. dedup_by h seen xs = Inr ys"
proof (induction xs arbitrary: seen)
  case Nil
  then show ?case by simp
next
  case (Cons x xs)
  then obtain k where k: "h x = Inr k" by auto
  from Cons obtain ys where "dedup_by h seen xs = Inr ys" by (meson list.set_intros(2))
  moreover from Cons obtain zs where "dedup_by h (k # seen) xs = Inr zs" by (meson list.set_intros(2))
  ultimately show ?case using k by auto
qed

lemma dedup_by_fixpoint:
  "sorted_wrt (\<lambda>a b. \<forall>k l. h a = Inr k \<longrightarrow> h b = Inr l \<longrightarrow> \<not> same_value_zero k l) ys \<Longrightarrow>
   (\<And>y. y \<in> set ys \<Longrightarrow> \<exists>k. h y = Inr k \<and> \<not> list_ex (same_value_zero k) seen) \<Longrightarrow>
   dedup_by h seen ys = Inr ys"
proof (induction ys arbitrary: seen)
  case Nil
  then show ?case by simp
next
  case (Cons y ys)
  obtain k where k: "h y = Inr k" "\<not> list_ex (same_value_zero k) seen"
    using Cons.prems(2)[of y] by auto
  have "dedup_by h (k # seen) ys = Inr ys"
    using Cons k by (intro Cons.IH) (auto, metis same_value_zero_sym)
  with k show ?case by simp
qed

subsection \<open>Operators and filters\<close>

lemma operators_disjoint:
  "isUnaryOperator p \<Longrightarrow> \<not> isBinaryOperator p \<and> \<not> isSetOperator p"
  "isBinaryOperator p \<Longrightarrow> \<not> isSetOperator p"
  by (auto simp: isUnaryOperator_def isBinaryOperator_def isSetOperator_def
      UNARY_OPERATORS_def BINARY_OPERATORS_def SET_OPERATORS_def)

lemma convertFilter_eq:
  "\<not> nullish f \<Longrightarrow> convertFilter f =
     Inr (JObj ([(''col'', oprop f ''subject''), (''op'', oprop f ''operator'')] @
       (if isUnaryOperator (oprop f ''operator'') then [] else [(''val'', oprop f ''comparator'')])))"
  by (simp add: convertFilter_def getprop_def isUnaryAdhocFilter_def isBinaryAdhocFilter_def)

subsection \<open>Labels\<close>

lemma getMetricLabel_string [simp]: "getMetricLabel (JStr s) = Inr (JStr s)"
  by (simp add: getMetricLabel_def isSavedMetric_def)

lemma getColumnLabel_string [simp]: "getColumnLabel (JStr s) = JStr s"
  by (simp add: getColumnLabel_def isPhysicalColumn_def)

subsection \<open>The datasource key\<close>

lemma split_from_plain:
  "(\<And>c. c \<in> set s \<Longrightarrow> c \<noteq> CHR ''_'') \<Longrightarrow>
   split_from ''__'' acc 0 (s @ t) = split_from ''__'' (rev s @ acc) 0 t"
  by (induction s arbitrary: acc) auto

lemma show_nat_no_underscore: "CHR ''_'' \<notin> set (show_nat n)"
  using show_nat_digits [of n] by (auto simp: list_all_iff is_digit_def)

lemma show_int_no_underscore: "CHR ''_'' \<notin> set (show_int i)"
  by (simp add: show_int_def show_nat_no_underscore)

lemma str_split_key:
  assumes "CHR ''_'' \<notin> set a" and "CHR ''_'' \<notin> set b"
  shows "str_split ''__'' (a @ ''__'' @ b) = [a, b]"
proof -
  have "str_split ''__'' (a @ ''__'' @ b) = split_from ''__'' (rev a) 0 (''__'' @ b)"
    unfolding str_split_def using assms(1) by (subst split_from_plain) auto
  also have "\<dots> = a # split_from ''__'' [] 0 (b @ [])" by simp
  also have "\<dots> = [a, b]"
    using assms(2) by (subst split_from_plain) auto
  finally show ?thesis .
qed

lemma takeWhile_show_nat: "takeWhile is_digit (show_nat n) = show_nat n"
  using show_nat_digits [of n] by (simp add: list_all_iff takeWhile_eq_all_conv)

lemma split_sign_show_nat: "split_sign (show_nat n) = (False, show_nat n)"
  using show_nat_digits [of n] by (cases "show_nat n") (auto simp: is_digit_def)

lemma trim_start_show_int: "str_trim_start (show_int i) = show_int i"
  using show_nat_digits [of "nat i"]
  by (cases "show_nat (nat i)")
     (auto simp: str_trim_start_def show_int_def is_ws_def is_digit_def)

lemma parseInt10_show_int [simp]: "parseInt10 (show_int i) = num_of_int i"
  by (auto simp: parseInt10_def trim_start_show_int)
     (auto simp: show_int_def split_sign_show_nat span_digits_def takeWhile_show_nat)

lemma datasourceKey_roundtrip_lemma:
  assumes "ds_id k = num_of_int i" and "ds_type k \<in> {Table, Query}"
  shows "newDatasourceKey (JStr (datasourceKey_toString k)) = Inr k"
proof -
  have "CHR ''_'' \<notin> set (ds_type_str (ds_type k))" using assms(2) by auto
  then have "str_split ''__'' (datasourceKey_toString k) = [show_int i, ds_type_str (ds_type k)]"
    using str_split_key [OF show_int_no_underscore]
    by (simp add: datasourceKey_toString_def assms(1) num_to_string_int del: num_to_string.simps)
  then show ?thesis
    using assms by (cases k) (auto simp: newDatasourceKey_def)
qed

end
