(* ===== verification/QueryBuild.thy ===== *)
theory QueryBuild
  imports QueryTypes
begin

text \<open>
  From form data to a query context, after \<open>superset-ui-core/src/query\<close>:
  \<open>extractQueryFields\<close>, \<open>extractExtras\<close>, \<open>processFilters\<close>,
  \<open>overrideExtraFormData\<close>, \<open>buildQueryObject\<close>, \<open>normalizeOrderBy\<close>,
  \<open>normalizeTimeColumn\<close> and \<open>buildQueryContext\<close>.

  Form data and query objects are plain objects (\<open>jsval obj\<close>). The arrays and the
  \<open>extras\<close> object that \<open>processFilters\<close> and \<open>overrideExtraFormData\<close> mutate are
  the fresh ones \<open>buildQueryObject\<close> created, so they are threaded as values. The
  functions of lodash are arguments: \<open>lodash_isEmpty\<close> and \<open>lodash_omit\<close>.
\<close>

section \<open>Query fields\<close>

record QueryFields =
  qf_columns :: "jsval list"
  qf_metrics :: "jsval list option"
  qf_orderby :: "jsval list option"

definition queryFieldAliases :: "string obj" where
  "queryFieldAliases =
     [(''metric'', ''metrics''), (''metric_2'', ''metrics''), (''secondary_metric'', ''metrics''),
      (''x'', ''metrics''), (''y'', ''metrics''), (''size'', ''metrics''),
      (''all_columns'', ''columns''), (''series'', ''groupby''), (''order_by_cols'', ''orderby'')]"

definition normalizedKey :: "string obj \<Rightarrow> string \<Rightarrow> string" where
  "normalizedKey aliases key =
     (case map_of aliases key of
        None \<Rightarrow> key
      | Some a \<Rightarrow> if a = [] then key else a)"

text \<open>The loop of \<open>extractQueryFields\<close> over one entry: columns, metrics, orderby.\<close>

type_synonym field_acc = "jsval list \<times> jsval list \<times> jsval list"

definition collect_field :: "jsval \<Rightarrow> string obj \<Rightarrow> string \<times> jsval \<Rightarrow> field_acc \<Rightarrow> field_acc" where
  "collect_field queryMode aliases kv acc =
     (let (key, value) = kv; (columns, metrics, orderby) = acc
      in if nullish value then acc
         else
           let nk = normalizedKey aliases key
           in if queryMode = JStr ''aggregate'' \<and> nk = ''columns'' then acc
              else if queryMode = JStr ''raw'' \<and> (nk = ''groupby'' \<or> nk = ''metrics'') then acc
              else
                let nk' = (if nk = ''groupby'' then ''columns'' else nk)
                in if nk' = ''metrics'' then (columns, js_concat metrics value, orderby)
                   else if nk' = ''columns'' then (js_concat columns value, metrics, orderby)
                   else if nk' = ''orderby'' then (columns, metrics, js_concat orderby value)
                   else acc)"

definition parse_orderby :: "jsval \<Rightarrow> jsval res" where
  "parse_orderby item =
     (case item of
        JStr s \<Rightarrow> (case json_parse s of None \<Rightarrow> Inl InvalidOrderby | Some v \<Rightarrow> Inr v)
      | _ \<Rightarrow> Inr item)"

definition extractQueryFields :: "jsval obj \<Rightarrow> string obj \<Rightarrow> QueryFields res" where
  "extractQueryFields formData aliases =
     (let queryMode = oprop (JObj formData) ''query_mode'';
          restFormData = AList.delete ''query_mode'' formData;
          (columns, metrics, orderby) =
            fold (collect_field queryMode (obj_assign queryFieldAliases aliases)) restFormData ([], [], [])
      in rbind (removeDuplicates (filter (\<lambda>col. col \<noteq> JStr []) columns)
                 (Some (\<lambda>c. Inr (getColumnLabel c)))) (\<lambda>cols.
         rbind (if queryMode = JStr ''raw'' then Inr None
                else rbind (removeDuplicates metrics (Some getMetricLabel)) (\<lambda>ms. Inr (Some ms))) (\<lambda>mets.
         rbind (if orderby = [] then Inr None
                else rbind (rmap parse_orderby orderby) (\<lambda>obs. Inr (Some obs))) (\<lambda>ord.
           Inr \<lparr>qf_columns = cols, qf_metrics = mets, qf_orderby = ord\<rparr>))))"

section \<open>Extras\<close>

definition reservedColumnsToQueryField :: "string obj" where
  "reservedColumnsToQueryField =
     [(''__time_range'', ''time_range''), (''__time_col'', ''granularity_sqla''),
      (''__time_grain'', ''time_grain_sqla''), (''__granularity'', ''granularity''),
      (''__time_compare'', ''time_compare'')]"

text \<open>
  The state of the loop: the extracted fields, the plain filters, the applied extras. The test
  \<open>filter.col in reservedColumnsToQueryField\<close> also finds the inherited properties of the
  literal; assigning \<open>applied_time_extras.__proto__\<close> creates no property.
\<close>

type_synonym extras_acc = "jsval obj \<times> jsval list \<times> jsval obj"

definition extract_extra :: "jsval \<Rightarrow> extras_acc \<Rightarrow> extras_acc res" where
  "extract_extra flt acc =
     (let (extract, filters, applied) = acc
      in rbind (getprop flt ''col'') (\<lambda>col.
         case map_of (reservedColumnsToQueryField @ object_prototype) (to_str col) of
           Some queryField \<Rightarrow>
             Inr (obj_put queryField (oprop flt ''val'') extract, filters,
                  if to_str col = ''__proto__'' then applied
                  else obj_put (to_str col) (oprop flt ''val'') applied)
         | None \<Rightarrow> Inr (extract, filters @ [flt], applied)))"

definition extractExtras :: "jsval obj \<Rightarrow> jsval obj res" where
  "extractExtras formData =
     rbind (elems (js_or (oprop (JObj formData) ''extra_filters'') (JArr []))) (\<lambda>extraFilters.
     rbind (rfold extract_extra extraFilters
       ([(''filters'', JArr []), (''extras'', JObj []), (''applied_time_extras'', JObj [])], [], []))
       (\<lambda>(extract, filters, applied).
         let fd = JObj formData;
             extras = [(''time_grain_sqla'',
                        js_or (oprop (JObj extract) ''time_grain_sqla'') (oprop fd ''time_grain_sqla''))];
             e1 = obj_put ''filters'' (JArr filters)
                    (obj_put ''extras'' (JObj extras)
                      (obj_put ''applied_time_extras'' (JObj applied) extract));
             e2 = obj_put ''granularity''
                    (js_or (js_or (oprop (JObj extract) ''granularity_sqla'') (oprop fd ''granularity''))
                      (oprop fd ''granularity_sqla'')) e1
         in Inr (AList.delete ''time_grain_sqla'' (AList.delete ''granularity_sqla'' e2))))"

section \<open>Filters\<close>

fun sanitizeClause :: "jsval \<Rightarrow> string res" where
  "sanitizeClause (JStr clause) =
     (let sanitizedClause = (if str_includes ''--'' clause then clause @ [CHR 0x0A] else clause)
      in Inr (''('' @ sanitizedClause @ '')''))"
| "sanitizeClause (JArr xs) =
     (let clause = to_str (JArr xs);
          sanitizedClause = (if JStr ''--'' \<in> set xs then clause @ [CHR 0x0A] else clause)
      in Inr (''('' @ sanitizedClause @ '')''))"
| "sanitizeClause _ = Inl TypeError"

fun js_push :: "jsval \<Rightarrow> jsval \<Rightarrow> jsval res" where
  "js_push (JArr xs) v = Inr (JArr (xs @ [v]))"
| "js_push _ v = Inl TypeError"

text \<open>The state of the loop: simple WHERE clauses, free-form WHERE, free-form HAVING.\<close>

type_synonym filter_acc = "jsval \<times> jsval list \<times> jsval list"

definition process_filter :: "jsval \<Rightarrow> filter_acc \<Rightarrow> filter_acc res" where
  "process_filter flt acc =
     (let (simpleWhere, freeformWhere, freeformHaving) = acc
      in rbind (getprop flt ''clause'') (\<lambda>clause.
         rbind (isSimpleAdhocFilter flt) (\<lambda>simple.
           if simple then
             rbind (convertFilter flt) (\<lambda>filterClause.
               if clause = JStr ''WHERE'' then
                 rbind (js_push simpleWhere filterClause) (\<lambda>sw. Inr (sw, freeformWhere, freeformHaving))
               else Inr acc)
           else
             (let sqlExpression = oprop flt ''sqlExpression''
              in if clause = JStr ''WHERE''
                 then Inr (simpleWhere, freeformWhere @ [sqlExpression], freeformHaving)
                 else Inr (simpleWhere, freeformWhere, freeformHaving @ [sqlExpression])))))"

fun obj_of :: "jsval \<Rightarrow> jsval obj res" where
  "obj_of (JObj ps) = Inr ps"
| "obj_of _ = Inl TypeError"

definition processFilters :: "jsval obj \<Rightarrow> jsval obj res" where
  "processFilters formData =
     (let fd = JObj formData;
          extras = js_default (oprop fd ''extras'') (JObj []);
          filters = js_default (oprop fd ''filters'') (JArr []);
          whr = oprop fd ''where''
      in rbind (elems (js_or (oprop fd ''adhoc_filters'') (JArr []))) (\<lambda>adhoc_filters.
         rbind (rfold process_filter adhoc_filters (filters, (if truthy whr then [whr] else []), []))
           (\<lambda>(simpleWhere, freeformWhere, freeformHaving).
         rbind (obj_of extras) (\<lambda>ex.
         rbind (rmap sanitizeClause freeformHaving) (\<lambda>having.
         rbind (rmap sanitizeClause freeformWhere) (\<lambda>wheres.
           Inr [(''filters'', simpleWhere),
                (''extras'', JObj (obj_put ''where'' (JStr (str_join '' AND '' wheres))
                   (obj_put ''having'' (JStr (str_join '' AND '' having)) ex)))]))))))"

section \<open>Overrides from extra form data\<close>

definition EXTRA_FORM_DATA_OVERRIDE_EXTRA_KEYS :: "string list" where
  "EXTRA_FORM_DATA_OVERRIDE_EXTRA_KEYS = [''relative_start'', ''relative_end'', ''time_grain_sqla'']"

definition EXTRA_FORM_DATA_APPEND_KEYS :: "string list" where
  "EXTRA_FORM_DATA_APPEND_KEYS =
     [''adhoc_filters'', ''filters'', ''interactive_groupby'', ''interactive_highlight'',
      ''interactive_drilldown'', ''custom_form_data'']"

definition EXTRA_FORM_DATA_OVERRIDE_REGULAR_MAPPINGS :: "string obj" where
  "EXTRA_FORM_DATA_OVERRIDE_REGULAR_MAPPINGS =
     [(''granularity'', ''granularity''), (''granularity_sqla'', ''granularity''),
      (''time_column'', ''time_column''), (''time_grain'', ''time_grain''),
      (''time_range'', ''time_range''), (''time_compare'', ''time_compare'')]"

definition EXTRA_FORM_DATA_OVERRIDE_REGULAR_KEYS :: "string list" where
  "EXTRA_FORM_DATA_OVERRIDE_REGULAR_KEYS = map fst EXTRA_FORM_DATA_OVERRIDE_REGULAR_MAPPINGS"

definition EXTRA_FORM_DATA_OVERRIDE_KEYS :: "string list" where
  "EXTRA_FORM_DATA_OVERRIDE_KEYS =
     EXTRA_FORM_DATA_OVERRIDE_REGULAR_KEYS @ EXTRA_FORM_DATA_OVERRIDE_EXTRA_KEYS"

definition override_regular :: "jsval obj \<Rightarrow> string \<times> string \<Rightarrow> jsval obj \<Rightarrow> jsval obj" where
  "override_regular overrideFormData kt q =
     (let value = oprop (JObj overrideFormData) (fst kt)
      in if value \<noteq> JUndef then obj_put (snd kt) value q else q)"

definition override_extra :: "jsval obj \<Rightarrow> string \<Rightarrow> jsval obj \<Rightarrow> jsval obj" where
  "override_extra overrideFormData key x =
     (if has_own (JObj overrideFormData) key
      then obj_put key (oprop (JObj overrideFormData) key) x else x)"

definition overrideExtraFormData :: "jsval obj \<Rightarrow> jsval obj \<Rightarrow> jsval obj res" where
  "overrideExtraFormData queryObject overrideFormData =
     rbind (obj_of (js_default (oprop (JObj queryObject) ''extras'') (JObj []))) (\<lambda>ex.
       let overridden =
             fold (override_regular overrideFormData) EXTRA_FORM_DATA_OVERRIDE_REGULAR_MAPPINGS queryObject;
           overriddenExtras =
             fold (override_extra overrideFormData) EXTRA_FORM_DATA_OVERRIDE_EXTRA_KEYS ex
       in Inr (if length overriddenExtras > 0
               then obj_put ''extras'' (JObj overriddenExtras) overridden else overridden))"

section \<open>The query object\<close>

text \<open>The keys \<open>buildQueryObject\<close> takes out of the form data before collecting fields.\<close>

definition consumed_keys :: "string list" where
  "consumed_keys =
     [''annotation_layers'', ''extra_form_data'', ''time_range'', ''since'', ''until'',
      ''row_limit'', ''row_offset'', ''order_desc'', ''limit'', ''timeseries_limit_metric'',
      ''granularity'', ''url_params'', ''custom_params'', ''series_columns'', ''series_limit'',
      ''series_limit_metric'', ''group_others_when_limit_reached'']"

definition normalizeSeriesLimitMetric :: "jsval \<Rightarrow> jsval" where
  "normalizeSeriesLimitMetric metric = (if isQueryFormMetric metric then metric else JUndef)"

definition numeric_or_undefined :: "jsval \<Rightarrow> jsval" where
  "numeric_or_undefined v =
     (if nullish v \<or> to_number v = NaN then JUndef else JNum (to_number v))"

definition arr_opt :: "jsval list option \<Rightarrow> jsval" where
  "arr_opt xs = (case xs of None \<Rightarrow> JUndef | Some ys \<Rightarrow> JArr ys)"

text \<open>
  The object literal of \<open>buildQueryObject\<close>: the fields before the two spreads and those
  after them.
\<close>

definition query_base :: "jsval obj \<Rightarrow> jsval obj" where
  "query_base formData =
     (let p = oprop (JObj formData)
      in [(''time_range'', js_or (p ''time_range'') JUndef),
          (''since'', js_or (p ''since'') JUndef),
          (''until'', js_or (p ''until'') JUndef),
          (''granularity'', js_or (p ''granularity'') JUndef)])"

definition query_rest :: "jsval obj \<Rightarrow> QueryFields \<Rightarrow> jsval obj" where
  "query_rest formData qf =
     (let p = oprop (JObj formData);
          annotation_layers = js_default (p ''annotation_layers'') (JArr []);
          url_params = js_default (p ''url_params'') (JObj []);
          custom_params = js_default (p ''custom_params'') (JObj [])
      in [(''columns'', JArr (qf_columns qf)),
          (''metrics'', arr_opt (qf_metrics qf)),
          (''orderby'', arr_opt (qf_orderby qf)),
          (''annotation_layers'', annotation_layers),
          (''row_limit'', numeric_or_undefined (p ''row_limit'')),
          (''row_offset'', numeric_or_undefined (p ''row_offset'')),
          (''series_columns'', p ''series_columns''),
          (''series_limit'', js_coalesce (p ''series_limit'')
             (if isDefined (p ''limit'') then JNum (to_number (p ''limit'')) else JInt 0)),
          (''series_limit_metric'',
             js_coalesce (js_coalesce (normalizeSeriesLimitMetric (p ''series_limit_metric''))
               (p ''timeseries_limit_metric'')) JUndef),
          (''group_others_when_limit_reached'',
             js_coalesce (p ''group_others_when_limit_reached'') (JBool False)),
          (''order_desc'', js_default (p ''order_desc'') (JBool True)),
          (''url_params'', js_or url_params JUndef),
          (''custom_params'', custom_params)])"

definition extra_form_data_of :: "jsval obj \<Rightarrow> jsval obj" where
  "extra_form_data_of formData = own_props (js_or (oprop (JObj formData) ''extra_form_data'') (JObj []))"

text \<open>\<open>{...formData, ...extras, filters: [...], adhoc_filters: [...]}\<close>\<close>

definition filter_form_data :: "jsval obj \<Rightarrow> jsval obj \<Rightarrow> jsval obj res" where
  "filter_form_data formData extras =
     (let efd = JObj (extra_form_data_of formData)
      in rbind (iterate (oprop (JObj extras) ''filters'')) (\<lambda>extraFilters.
         rbind (iterate (js_default (oprop efd ''filters'') (JArr []))) (\<lambda>appendFilters.
         rbind (iterate (js_or (oprop (JObj formData) ''adhoc_filters'') (JArr []))) (\<lambda>adhocFilters.
         rbind (iterate (js_default (oprop efd ''adhoc_filters'') (JArr []))) (\<lambda>appendAdhocFilters.
           Inr (obj_assign (obj_assign (obj_assign [] formData) extras)
                 [(''filters'', JArr (extraFilters @ appendFilters)),
                  (''adhoc_filters'', JArr (adhocFilters @ appendAdhocFilters))]))))))"

definition buildQueryObject :: "jsval obj \<Rightarrow> string obj \<Rightarrow> jsval obj res" where
  "buildQueryObject formData queryFields =
     (let residualFormData = fold AList.delete consumed_keys formData;
          efd = extra_form_data_of formData;
          custom_form_data = js_default (oprop (JObj efd) ''custom_form_data'') (JObj []);
          overrides = fold AList.delete [''adhoc_filters'', ''filters'', ''custom_form_data''] efd
      in rbind (extractQueryFields residualFormData queryFields) (\<lambda>qf.
         rbind (extractExtras formData) (\<lambda>extras.
         rbind (filter_form_data formData extras) (\<lambda>filterFormData.
         rbind (processFilters filterFormData) (\<lambda>extrasAndfilters.
         rbind (overrideExtraFormData
             (obj_assign (obj_assign (obj_assign (query_base formData) extras) extrasAndfilters)
               (query_rest formData qf)) overrides) (\<lambda>queryObject.
           Inr (obj_put ''custom_form_data'' custom_form_data queryObject)))))))"

section \<open>Order by\<close>

fun valid_orderby_clause :: "(jsval \<Rightarrow> bool) \<Rightarrow> jsval \<Rightarrow> bool" where
  "valid_orderby_clause lodash_isEmpty (JArr [m, JBool _]) = (\<not> lodash_isEmpty m)"
| "valid_orderby_clause lodash_isEmpty _ = False"

definition normalizeOrderBy :: "(jsval \<Rightarrow> bool) \<Rightarrow> jsval obj \<Rightarrow> jsval obj" where
  "normalizeOrderBy lodash_isEmpty queryObject =
     (let q = oprop (JObj queryObject);
          valid = (case q ''orderby'' of
                     JArr (c # _) \<Rightarrow> valid_orderby_clause lodash_isEmpty c | _ \<Rightarrow> False)
      in if valid then queryObject
         else
           let cloneQueryObject =
                 AList.delete ''orderby'' (AList.delete ''order_desc''
                   (AList.delete ''legacy_order_by'' (AList.delete ''series_limit_metric'' queryObject)));
               isAsc = JBool (\<not> truthy (q ''order_desc''));
               with_orderby = (\<lambda>m. obj_put ''orderby'' (JArr [JArr [m, isAsc]]) cloneQueryObject)
           in if q ''series_limit_metric'' \<noteq> JUndef \<and> q ''series_limit_metric'' \<noteq> JNull \<and>
                 \<not> lodash_isEmpty (q ''series_limit_metric'')
              then with_orderby (q ''series_limit_metric'')
              else if q ''legacy_order_by'' \<noteq> JUndef \<and> q ''legacy_order_by'' \<noteq> JNull \<and>
                 \<not> lodash_isEmpty (q ''legacy_order_by'')
              then with_orderby (q ''legacy_order_by'')
              else (case q ''metrics'' of
                      JArr (m # _) \<Rightarrow> with_orderby m
                    | _ \<Rightarrow> cloneQueryObject))"

section \<open>The time column\<close>

definition is_axis_column :: "jsval \<Rightarrow> jsval \<Rightarrow> bool" where
  "is_axis_column x_axis col \<longleftrightarrow>
     (isPhysicalColumn col \<and> isPhysicalColumn x_axis \<and> strict_eq col x_axis) \<or>
     (isAdhocColumn col \<and> isAdhocColumn x_axis \<and>
      strict_eq (oprop col ''sqlExpression'') (oprop x_axis ''sqlExpression''))"

definition base_axis_column :: "jsval \<Rightarrow> jsval \<Rightarrow> jsval \<Rightarrow> jsval" where
  "base_axis_column timeGrain x_axis col =
     (if isAdhocColumn col then
        JObj (obj_assign [(''timeGrain'', timeGrain), (''columnType'', JStr ''BASE_AXIS'')] (own_props col))
      else
        JObj [(''timeGrain'', timeGrain), (''columnType'', JStr ''BASE_AXIS''),
              (''sqlExpression'', x_axis), (''label'', x_axis),
              (''expressionType'', JStr ''SQL''), (''isColumnReference'', JBool True)])"

definition normalizeTimeColumn ::
  "(jsval obj \<Rightarrow> string list \<Rightarrow> jsval obj) \<Rightarrow> jsval obj \<Rightarrow> jsval obj \<Rightarrow> jsval obj res" where
  "normalizeTimeColumn lodash_omit formData queryObject =
     (if \<not> isXAxisSet (JObj formData) then Inr queryObject
      else
        let x_axis = oprop (JObj formData) ''x_axis'';
            timeGrain = oprop (oprop (JObj queryObject) ''extras'') ''time_grain_sqla''
        in (case oprop (JObj queryObject) ''columns'' of
              JArr cols \<Rightarrow>
                (case find_index (is_axis_column x_axis) cols of
                   Some axisIdx \<Rightarrow>
                     if truthy x_axis then
                       Inr (obj_put ''columns''
                             (JArr (cols[axisIdx := base_axis_column timeGrain x_axis (cols ! axisIdx)]))
                             (lodash_omit queryObject [''is_timeseries'']))
                     else Inr queryObject
                 | None \<Rightarrow> Inr queryObject)
            | JUndef \<Rightarrow> Inr queryObject
            | JNull \<Rightarrow> Inr queryObject
            | _ \<Rightarrow> Inl TypeError))"

section \<open>The query context\<close>

datatype query_options =
    NoOptions
  | BuildFunction "jsval obj \<Rightarrow> jsval obj list res"
  | Options "(jsval obj \<Rightarrow> jsval obj list res) option" "string obj option"

definition WRAP_IN_ARRAY :: "jsval obj \<Rightarrow> jsval obj list res" where
  "WRAP_IN_ARRAY baseQueryObject = Inr [baseQueryObject]"

fun query_options_parts ::
  "query_options \<Rightarrow> (jsval obj \<Rightarrow> jsval obj list res) \<times> string obj" where
  "query_options_parts NoOptions = (WRAP_IN_ARRAY, [])"
| "query_options_parts (BuildFunction f) = (f, [])"
| "query_options_parts (Options bq qf) =
     ((case bq of None \<Rightarrow> WRAP_IN_ARRAY | Some f \<Rightarrow> f), (case qf of None \<Rightarrow> [] | Some a \<Rightarrow> a))"

definition drop_falsy_post_processing :: "jsval obj \<Rightarrow> jsval obj" where
  "drop_falsy_post_processing query =
     (case oprop (JObj query) ''post_processing'' of
        JArr ops \<Rightarrow> obj_put ''post_processing'' (JArr (filter truthy ops)) query
      | _ \<Rightarrow> query)"

definition buildQueryContext ::
  "(jsval obj \<Rightarrow> string list \<Rightarrow> jsval obj) \<Rightarrow> jsval obj \<Rightarrow> query_options \<Rightarrow> jsval obj res" where
  "buildQueryContext lodash_omit formData options =
     (let (buildQuery, queryFields) = query_options_parts options; p = oprop (JObj formData)
      in rbind (buildQueryObject formData queryFields) (\<lambda>base.
         rbind (buildQuery base) (\<lambda>queries0.
         let queries1 = map drop_falsy_post_processing queries0
         in rbind (if isXAxisSet (JObj formData)
                   then rmap (normalizeTimeColumn lodash_omit formData) queries1
                   else Inr queries1) (\<lambda>queries.
            rbind (newDatasourceKey (p ''datasource'')) (\<lambda>key.
              Inr [(''datasource'', datasourceKey_toObject key),
                   (''force'', js_or (p ''force'') (JBool False)),
                   (''queries'', JArr (map JObj queries)),
                   (''form_data'', JObj formData),
                   (''result_format'', js_or (p ''result_format'') (JStr ''json'')),
                   (''result_type'', js_or (p ''result_type'') (JStr ''full''))])))))"

end
