(* ===== verification/QueryFacts.thy ===== *)
theory QueryFacts
  imports QueryBuild
begin

text \<open>
  What the query builder of \<open>QueryBuild\<close> guarantees: which form values become columns and
  metrics, what the filters become, which query fields dashboard overrides can reach, that
  ordering is normalised once, what happens to the x-axis column, and the shape of a query
  context. The last section evaluates the model on one concrete form.
\<close>

section \<open>What the field collection computes\<close>

text \<open>
  Reference definition: the target list an entry feeds, and the values a target list
  receives from all entries, in entry order.
\<close>

definition field_target :: "jsval \<Rightarrow> string obj \<Rightarrow> string \<times> jsval \<Rightarrow> string option" where
  "field_target mode aliases kv =
     (let nk = normalizedKey aliases (fst kv)
      in if nullish (snd kv) \<or> (mode = JStr ''aggregate'' \<and> nk = ''columns'') \<or>
            (mode = JStr ''raw'' \<and> nk \<in> {''groupby'', ''metrics''})
         then None else Some (if nk = ''groupby'' then ''columns'' else nk))"

definition field_values :: "jsval \<Rightarrow> string obj \<Rightarrow> string \<Rightarrow> jsval obj \<Rightarrow> jsval list" where
  "field_values mode aliases target entries =
     concat (map (\<lambda>kv. if field_target mode aliases kv = Some target then js_concat [] (snd kv) else [])
       entries)"

lemma collect_field_step:
  "collect_field mode aliases kv (c, m, b) =
     (c @ field_values mode aliases ''columns'' [kv], m @ field_values mode aliases ''metrics'' [kv],
      b @ field_values mode aliases ''orderby'' [kv])"
  by (cases kv)
     (auto simp: collect_field_def field_values_def field_target_def Let_def js_concat_def
        split: jsval.splits)

lemma collect_field_fold:
  "fold (collect_field mode aliases) entries (c, m, b) =
     (c @ field_values mode aliases ''columns'' entries,
      m @ field_values mode aliases ''metrics'' entries,
      b @ field_values mode aliases ''orderby'' entries)"
proof (induction entries arbitrary: c m b)
  case Nil
  then show ?case by (simp add: field_values_def)
next
  case (Cons kv entries)
  show ?case
    by (simp only: fold_Cons o_apply collect_field_step Cons.IH)
       (simp add: field_values_def)
qed

text \<open>Two items with the same label, and lists without such items.\<close>

definition distinct_labels :: "(jsval \<Rightarrow> jsval res) \<Rightarrow> jsval list \<Rightarrow> bool" where
  "distinct_labels label xs \<longleftrightarrow>
     sorted_wrt (\<lambda>a b. \<forall>k l. label a = Inr k \<longrightarrow> label b = Inr l \<longrightarrow> \<not> same_value_zero k l) xs"

lemma extractQueryFields_Inr:
  assumes "extractQueryFields fd aliases = Inr r"
  shows "let mode = oprop (JObj fd) ''query_mode''; rest = AList.delete ''query_mode'' fd;
             al = obj_assign queryFieldAliases aliases
         in dedup_by (\<lambda>c. Inr (getColumnLabel c)) []
              (filter (\<lambda>col. col \<noteq> JStr []) (field_values mode al ''columns'' rest)) = Inr (qf_columns r) \<and>
            (if mode = JStr ''raw'' then qf_metrics r = None
             else \<exists>ms. qf_metrics r = Some ms \<and>
               dedup_by getMetricLabel [] (field_values mode al ''metrics'' rest) = Inr ms) \<and>
            (if field_values mode al ''orderby'' rest = [] then qf_orderby r = None
             else \<exists>os. qf_orderby r = Some os \<and>
               rmap parse_orderby (field_values mode al ''orderby'' rest) = Inr os)"
  using assms
  by (auto simp: extractQueryFields_def Let_def collect_field_fold removeDuplicates_def rbind_Inr_iff
      split: if_splits)

text \<open>All the values form data holds for one query field.\<close>

definition collected :: "jsval obj \<Rightarrow> string obj \<Rightarrow> string \<Rightarrow> jsval list" where
  "collected fd aliases target =
     field_values (oprop (JObj fd) ''query_mode'') (obj_assign queryFieldAliases aliases) target
       (AList.delete ''query_mode'' fd)"

lemma dedup_by_labels:
  assumes "dedup_by h [] xs = Inr ys"
  shows "subseq ys xs" and "distinct_labels h ys" and "h ` set ys = h ` set xs"
proof -
  show sub: "subseq ys xs" and "distinct_labels h ys"
    using dedup_by_subseq [OF assms] dedup_by_distinct [OF assms]
    by (simp_all add: distinct_labels_def)
  have "h x \<in> h ` set ys" if "x \<in> set xs" for x
    using dedup_by_covers [OF assms that] by (auto intro: rev_image_eqI)
  then show "h ` set ys = h ` set xs" using subseq_set [OF sub] by blast
qed

lemma extractQueryFields_columns_lemma:
  assumes "extractQueryFields fd aliases = Inr r"
  shows "dedup_by (\<lambda>c. Inr (getColumnLabel c)) []
           (filter (\<lambda>c. c \<noteq> JStr []) (collected fd aliases ''columns'')) = Inr (qf_columns r)"
  using extractQueryFields_Inr [OF assms] by (simp add: Let_def collected_def)

lemma extractQueryFields_metrics_lemma:
  assumes "extractQueryFields fd aliases = Inr r" and "oprop (JObj fd) ''query_mode'' \<noteq> JStr ''raw''"
  shows "\<exists>ms. qf_metrics r = Some ms \<and>
           dedup_by getMetricLabel [] (collected fd aliases ''metrics'') = Inr ms"
  using extractQueryFields_Inr [OF assms(1)] assms(2) by (simp add: Let_def collected_def)

text \<open>
  C3. The columns of a query are the non-empty column values of the form data, in form
  order, with exactly one representative per label: no column is invented, none is lost up
  to its label, and no two columns of the query share a label.
\<close>

theorem extractQueryFields_columns:
  assumes "extractQueryFields fd aliases = Inr r"
  shows "subseq (qf_columns r) (filter (\<lambda>c. c \<noteq> JStr []) (collected fd aliases ''columns'')) \<and>
         distinct_labels (\<lambda>c. Inr (getColumnLabel c)) (qf_columns r) \<and>
         getColumnLabel ` set (qf_columns r) =
           getColumnLabel ` {c \<in> set (collected fd aliases ''columns''). c \<noteq> JStr []}"
proof -
  note d = dedup_by_labels [OF extractQueryFields_columns_lemma [OF assms]]
  have "Inr ` getColumnLabel ` set (qf_columns r) =
      (Inr :: jsval \<Rightarrow> jsval res) ` getColumnLabel ` {c \<in> set (collected fd aliases ''columns''). c \<noteq> JStr []}"
    using d(3) by (simp add: image_image)
  then show ?thesis
    using d(1,2) by (simp add: inj_image_eq_iff)
qed

lemma collected_mem:
  "c \<in> set (collected fd aliases target) \<longleftrightarrow>
     (\<exists>k v. (k, v) \<in> set fd \<and> k \<noteq> ''query_mode'' \<and> c \<in> set (js_concat [] v) \<and>
        field_target (oprop (JObj fd) ''query_mode'') (obj_assign queryFieldAliases aliases) (k, v) =
          Some target)"
proof -
  have mem: "x \<in> set (AList.delete ''query_mode'' fd) \<longleftrightarrow> x \<in> set fd \<and> fst x \<noteq> ''query_mode''" for x
    by (cases x) (auto simp: AList.delete_eq)
  show ?thesis
    unfolding collected_def field_values_def
    by (auto simp: mem split: if_splits intro!: bexI [where x = "(_, _)"]) blast
qed

lemma field_target_columns:
  "field_target mode al (k, v) = Some ''columns'' \<longleftrightarrow> \<not> nullish v \<and>
     (normalizedKey al k = ''columns'' \<and> mode \<noteq> JStr ''aggregate'' \<or>
      normalizedKey al k = ''groupby'' \<and> mode \<noteq> JStr ''raw'')"
  by (auto simp: field_target_def Let_def)

text \<open>
  Query mode. A value is collected as a column exactly when some form field other than
  \<open>query_mode\<close> holds it and that field is an alias of \<open>columns\<close> outside aggregate mode or
  an alias of \<open>groupby\<close> outside raw mode; and in raw-records mode the query has no metrics.
\<close>

lemma extractQueryFields_mode:
  "(c \<in> set (collected fd aliases ''columns'') \<longleftrightarrow>
     (\<exists>k v. (k, v) \<in> set fd \<and> k \<noteq> ''query_mode'' \<and> c \<in> set (js_concat [] v) \<and> \<not> nullish v \<and>
        (normalizedKey (obj_assign queryFieldAliases aliases) k = ''columns'' \<and>
           oprop (JObj fd) ''query_mode'' \<noteq> JStr ''aggregate'' \<or>
         normalizedKey (obj_assign queryFieldAliases aliases) k = ''groupby'' \<and>
           oprop (JObj fd) ''query_mode'' \<noteq> JStr ''raw''))) \<and>
   (oprop (JObj fd) ''query_mode'' = JStr ''raw'' \<longrightarrow>
     (\<forall>r. extractQueryFields fd aliases = Inr r \<longrightarrow> qf_metrics r = None))"
proof (intro conjI)
  show "oprop (JObj fd) ''query_mode'' = JStr ''raw'' \<longrightarrow>
     (\<forall>r. extractQueryFields fd aliases = Inr r \<longrightarrow> qf_metrics r = None)"
    by (auto dest!: extractQueryFields_Inr simp: Let_def)
qed (simp only: collected_mem field_target_columns)

section \<open>What the filter processing computes\<close>

definition is_simple :: "jsval \<Rightarrow> bool" where
  "is_simple f \<longleftrightarrow> oprop f ''expressionType'' = JStr ''SIMPLE''"

definition is_where :: "jsval \<Rightarrow> bool" where
  "is_where f \<longleftrightarrow> oprop f ''clause'' = JStr ''WHERE''"

definition filter_clause :: "jsval \<Rightarrow> jsval" where
  "filter_clause f =
     JObj ([(''col'', oprop f ''subject''), (''op'', oprop f ''operator'')] @
       (if isUnaryOperator (oprop f ''operator'') then [] else [(''val'', oprop f ''comparator'')]))"

definition sql_of :: "jsval \<Rightarrow> jsval" where
  "sql_of f = oprop f ''sqlExpression''"

lemma process_filter_eq:
  assumes "\<not> nullish f"
  shows "process_filter f (JArr sw, fw, fh) =
     Inr (JArr (sw @ (if is_simple f \<and> is_where f then [filter_clause f] else [])),
          fw @ (if \<not> is_simple f \<and> is_where f then [sql_of f] else []),
          fh @ (if \<not> is_simple f \<and> \<not> is_where f then [sql_of f] else []))"
  using assms
  by (simp add: process_filter_def getprop_def isSimpleAdhocFilter_def convertFilter_eq
      is_simple_def is_where_def filter_clause_def sql_of_def)

lemma process_filters_fold:
  assumes "\<forall>f\<in>set fs. \<not> nullish f"
  shows "rfold process_filter fs (JArr sw, fw, fh) =
     Inr (JArr (sw @ map filter_clause (filter (\<lambda>f. is_simple f \<and> is_where f) fs)),
          fw @ map sql_of (filter (\<lambda>f. \<not> is_simple f \<and> is_where f) fs),
          fh @ map sql_of (filter (\<lambda>f. \<not> is_simple f \<and> \<not> is_where f) fs))"
  using assms by (induction fs arbitrary: sw fw fh) (auto simp: process_filter_eq)

definition sanitized :: "string \<Rightarrow> string" where
  "sanitized c = ''('' @ c @ (if str_includes ''--'' c then [CHR 0x0A] else []) @ '')''"

lemma sanitizeClause_JStr: "sanitizeClause (JStr c) = Inr (sanitized c)"
  by (simp add: sanitized_def Let_def)

lemma rmap_sanitizeClause: "rmap sanitizeClause (map JStr cs) = Inr (map sanitized cs)"
  by (induction cs) (simp_all add: sanitizeClause_JStr del: sanitizeClause.simps)

definition free_clauses :: "bool \<Rightarrow> jsval list \<Rightarrow> jsval list" where
  "free_clauses whr fs = map sql_of (filter (\<lambda>f. \<not> is_simple f \<and> is_where f = whr) fs)"

lemma processFilters_eq:
  assumes "oprop (JObj fd) ''adhoc_filters'' = JArr fs" and "\<forall>f\<in>set fs. \<not> nullish f"
    and "oprop (JObj fd) ''filters'' = JArr sw" and "oprop (JObj fd) ''extras'' = JObj ex"
    and "(if truthy (oprop (JObj fd) ''where'') then [oprop (JObj fd) ''where''] else []) @
           free_clauses True fs = map JStr ws"
    and "free_clauses False fs = map JStr hs"
  shows "processFilters fd =
     Inr [(''filters'', JArr (sw @ map filter_clause (filter (\<lambda>f. is_simple f \<and> is_where f) fs))),
          (''extras'', JObj (obj_put ''where'' (JStr (str_join '' AND '' (map sanitized ws)))
             (obj_put ''having'' (JStr (str_join '' AND '' (map sanitized hs))) ex)))]"
  using assms
  by (simp add: processFilters_def Let_def js_or_def js_default_def process_filters_fold
      free_clauses_def rmap_sanitizeClause)

text \<open>Scanning SQL text for a line comment that is still open at its end.\<close>

fun in_comment :: "bool \<Rightarrow> string \<Rightarrow> bool" where
  "in_comment b [] = b"
| "in_comment True (c # s) = in_comment (c \<noteq> CHR 0x0A) s"
| "in_comment False [c] = False"
| "in_comment False (c # d # s) =
     (if c = CHR ''-'' \<and> d = CHR ''-'' then in_comment True s else in_comment False (d # s))"

lemma in_comment_newline: "\<not> in_comment b (s @ [CHR 0x0A])"
proof (induction b s rule: in_comment.induct)
  case (1 b)
  then show ?case by (cases b) simp_all
qed (auto split: if_splits)

lemma in_comment_plain: "\<not> str_includes ''--'' s \<Longrightarrow> \<not> in_comment False s"
proof (induction s rule: induct_list012)
  case (3 c d s)
  then show ?case by (auto split: if_splits)
qed auto

lemma str_includes_paren: "str_includes ''--'' (CHR ''('' # s) = str_includes ''--'' s"
  by simp

lemma sanitized_comment: "\<exists>body. sanitized c = body @ '')'' \<and> \<not> in_comment False body"
proof (cases "str_includes ''--'' c")
  case True
  then show ?thesis
    using in_comment_newline [of False "CHR ''('' # c"] by (auto simp: sanitized_def)
next
  case False
  then show ?thesis
    using in_comment_plain [of "CHR ''('' # c"] str_includes_paren [of c]
    by (auto simp: sanitized_def)
qed

section \<open>What the overrides reach\<close>

lemma fold_override_other:
  "k \<notin> set (map snd ms) \<Longrightarrow> oprop (JObj (fold (override_regular ov) ms q)) k = oprop (JObj q) k"
  by (induction ms arbitrary: q) (auto simp: override_regular_def Let_def)

lemma fold_extra_keys:
  "oprop (JObj (fold (override_extra ov) ks ex)) k =
     (if k \<in> set ks \<and> has_own (JObj ov) k then oprop (JObj ov) k else oprop (JObj ex) k)"
  by (induction ks arbitrary: ex) (auto simp: override_extra_def)

lemma fold_extra_Nil: "fold (override_extra ov) ks ex = [] \<Longrightarrow> ex = []"
proof (induction ks arbitrary: ex)
  case (Cons k ks)
  then have "override_extra ov k ex = []" by simp
  then show ?case by (simp add: override_extra_def split: if_splits)
qed simp

lemma override_targets:
  "set (map snd EXTRA_FORM_DATA_OVERRIDE_REGULAR_MAPPINGS) =
     {''granularity'', ''time_column'', ''time_grain'', ''time_range'', ''time_compare''}"
  by (auto simp: EXTRA_FORM_DATA_OVERRIDE_REGULAR_MAPPINGS_def)

lemma overrideExtraFormData_extras:
  assumes "overrideExtraFormData q ov = Inr r" and "oprop (JObj q) ''extras'' = JObj ex"
  shows "oprop (oprop (JObj r) ''extras'') k =
     (if k \<in> set EXTRA_FORM_DATA_OVERRIDE_EXTRA_KEYS \<and> has_own (JObj ov) k
      then oprop (JObj ov) k else oprop (JObj ex) k)"
proof -
  let ?ex' = "fold (override_extra ov) EXTRA_FORM_DATA_OVERRIDE_EXTRA_KEYS ex"
  have "''extras'' \<notin> set (map snd EXTRA_FORM_DATA_OVERRIDE_REGULAR_MAPPINGS)"
    by (simp add: override_targets del: set_map)
  note keep = fold_override_other [OF this]
  have "oprop (JObj r) ''extras'' = (if ?ex' = [] then JObj ex else JObj ?ex')"
    using assms by (auto simp: overrideExtraFormData_def js_default_def Let_def keep)
  then show ?thesis
    using fold_extra_keys [of ov EXTRA_FORM_DATA_OVERRIDE_EXTRA_KEYS ex k]
    by (cases "?ex' = []") (auto dest: fold_extra_Nil)
qed

lemma overrideExtraFormData_other:
  assumes "overrideExtraFormData q ov = Inr r"
    and "k \<notin> set (map snd EXTRA_FORM_DATA_OVERRIDE_REGULAR_MAPPINGS)" and "k \<noteq> ''extras''"
  shows "oprop (JObj r) k = oprop (JObj q) k"
  using assms(1,3) fold_override_other [OF assms(2)]
  by (auto simp: overrideExtraFormData_def rbind_Inr_iff Let_def)

text \<open>
  C4. Filter processing. With an array of ad-hoc filters, the query's simple filters are the
  given ones followed by the clauses of the SIMPLE filters of the WHERE clause; the WHERE text
  joins the sanitised free-form WHERE expressions (after the form's own \<open>where\<close>) with AND, and
  the HAVING text joins the sanitised other free-form expressions.
\<close>

theorem processFilters_spec:
  assumes "oprop (JObj fd) ''adhoc_filters'' = JArr fs" and "\<forall>f\<in>set fs. \<not> nullish f"
    and "oprop (JObj fd) ''filters'' = JArr sw" and "oprop (JObj fd) ''extras'' = JObj ex"
    and "(if truthy (oprop (JObj fd) ''where'') then [oprop (JObj fd) ''where''] else []) @
           free_clauses True fs = map JStr ws"
    and "free_clauses False fs = map JStr hs"
  shows "processFilters fd =
     Inr [(''filters'', JArr (sw @ map filter_clause (filter (\<lambda>f. is_simple f \<and> is_where f) fs))),
          (''extras'', JObj (obj_put ''where'' (JStr (str_join '' AND '' (map sanitized ws)))
             (obj_put ''having'' (JStr (str_join '' AND '' (map sanitized hs))) ex)))]"
  using assms by (rule processFilters_eq)

text \<open>
  Comment safety. The text \<open>sanitizeClause\<close> makes of a free-form SQL clause ends in a
  closing parenthesis that no line comment of the clause can swallow.
\<close>

lemma sanitizeClause_closes:
  "\<exists>body. sanitizeClause (JStr c) = Inr (body @ '')'') \<and> \<not> in_comment False body"
  using sanitized_comment [of c] by (simp add: sanitizeClause_JStr del: sanitizeClause.simps)

section \<open>The query object as a whole\<close>

lemma buildQueryObject_Inr:
  assumes "buildQueryObject fd al = Inr q"
  obtains qf extras ffd pf q1 where
    "extractQueryFields (fold AList.delete consumed_keys fd) al = Inr qf"
    "extractExtras fd = Inr extras" "filter_form_data fd extras = Inr ffd" "processFilters ffd = Inr pf"
    "overrideExtraFormData (obj_assign (obj_assign (obj_assign (query_base fd) extras) pf)
        (query_rest fd qf))
      (fold AList.delete [''adhoc_filters'', ''filters'', ''custom_form_data''] (extra_form_data_of fd)) = Inr q1"
    "q = obj_put ''custom_form_data''
       (js_default (oprop (JObj (extra_form_data_of fd)) ''custom_form_data'') (JObj [])) q1"
  using assms by (auto simp: buildQueryObject_def Let_def rbind_Inr_iff)

lemma processFilters_extras:
  "processFilters fd = Inr pf \<Longrightarrow> \<exists>ex. oprop (JObj pf) ''extras'' = JObj ex"
  by (auto simp: processFilters_def Let_def rbind_Inr_iff split: prod.splits)

definition query_rest_keys :: "string list" where
  "query_rest_keys =
     [''columns'', ''metrics'', ''orderby'', ''annotation_layers'', ''row_limit'', ''row_offset'',
      ''series_columns'', ''series_limit'', ''series_limit_metric'',
      ''group_others_when_limit_reached'', ''order_desc'', ''url_params'', ''custom_params'']"

lemma keys_query_rest: "map fst (query_rest fd qf) = query_rest_keys"
  by (simp add: query_rest_def query_rest_keys_def Let_def)

lemma processFilters_keys: "processFilters fd = Inr pf \<Longrightarrow> set (map fst pf) = {''filters'', ''extras''}"
  by (auto simp: processFilters_def Let_def rbind_Inr_iff split: prod.splits)

text \<open>
  C5. The WHERE and HAVING texts of a query are the ones \<open>processFilters\<close> made: no entry of
  \<open>extra_form_data\<close> other than its ad-hoc filters can change them.
\<close>

theorem buildQueryObject_where_having:
  assumes "buildQueryObject fd al = Inr q"
  shows "\<exists>extras ffd pf. extractExtras fd = Inr extras \<and> filter_form_data fd extras = Inr ffd \<and>
     processFilters ffd = Inr pf \<and>
     (\<forall>k \<in> {''where'', ''having''}.
        oprop (oprop (JObj q) ''extras'') k = oprop (oprop (JObj pf) ''extras'') k)"
proof -
  obtain qf extras ffd pf q1 where b: "extractExtras fd = Inr extras"
      "filter_form_data fd extras = Inr ffd" "processFilters ffd = Inr pf"
      "overrideExtraFormData (obj_assign (obj_assign (obj_assign (query_base fd) extras) pf)
        (query_rest fd qf))
      (fold AList.delete [''adhoc_filters'', ''filters'', ''custom_form_data''] (extra_form_data_of fd)) = Inr q1"
      "q = obj_put ''custom_form_data''
       (js_default (oprop (JObj (extra_form_data_of fd)) ''custom_form_data'') (JObj [])) q1"
    using assms by (elim buildQueryObject_Inr)
  obtain ex where ex: "oprop (JObj pf) ''extras'' = JObj ex"
    using processFilters_extras [OF b(3)] by blast
  have "oprop (JObj (obj_assign (obj_assign (obj_assign (query_base fd) extras) pf)
        (query_rest fd qf))) ''extras'' = JObj ex"
    using processFilters_keys [OF b(3)] ex by (simp add: oprop_assign keys_query_rest query_rest_keys_def del: set_map)
  from overrideExtraFormData_extras [OF b(4) this] ex b
  show ?thesis
    by (auto simp: EXTRA_FORM_DATA_OVERRIDE_EXTRA_KEYS_def simp del: has_own.simps)
qed

lemma query_rest_keys_safe:
  "list_all (\<lambda>k. k \<notin> {''granularity'', ''time_column'', ''time_grain'', ''time_range'', ''time_compare'',
     ''extras'', ''custom_form_data''}) query_rest_keys"
  by (simp add: query_rest_keys_def)

lemma buildQueryObject_rest:
  assumes "buildQueryObject fd al = Inr q"
  shows "\<exists>qf. extractQueryFields (fold AList.delete consumed_keys fd) al = Inr qf \<and>
           (\<forall>k\<in>set query_rest_keys. oprop (JObj q) k = oprop (JObj (query_rest fd qf)) k)"
proof -
  obtain qf extras pf q1 where b: "extractQueryFields (fold AList.delete consumed_keys fd) al = Inr qf"
      "overrideExtraFormData (obj_assign (obj_assign (obj_assign (query_base fd) extras) pf)
        (query_rest fd qf))
      (fold AList.delete [''adhoc_filters'', ''filters'', ''custom_form_data''] (extra_form_data_of fd)) = Inr q1"
      "q = obj_put ''custom_form_data''
       (js_default (oprop (JObj (extra_form_data_of fd)) ''custom_form_data'') (JObj [])) q1"
    using assms by (elim buildQueryObject_Inr)
  have "oprop (JObj q) k = oprop (JObj (query_rest fd qf)) k" if k: "k \<in> set query_rest_keys" for k
  proof -
    have s: "k \<notin> set (map snd EXTRA_FORM_DATA_OVERRIDE_REGULAR_MAPPINGS)" "k \<noteq> ''extras''"
        "k \<noteq> ''custom_form_data''"
      using query_rest_keys_safe k unfolding override_targets list_all_iff by blast+
    have "k \<in> set (map fst (query_rest fd qf))"
      using k unfolding keys_query_rest .
    then show ?thesis
      using overrideExtraFormData_other [OF b(2) s(1,2)] s(3) b(3) by (simp add: oprop_assign)
  qed
  with b(1) show ?thesis by blast
qed

lemma query_rest_limits:
  "oprop (JObj (query_rest fd qf)) ''row_limit'' = numeric_or_undefined (oprop (JObj fd) ''row_limit'')"
  "oprop (JObj (query_rest fd qf)) ''row_offset'' = numeric_or_undefined (oprop (JObj fd) ''row_offset'')"
  by (simp_all add: query_rest_def Let_def)

text \<open>
  The row limit and the row offset of a query are absent or proper numbers, never NaN, and
  depend on the form field of that name only.
\<close>

lemma buildQueryObject_row_limit:
  assumes "buildQueryObject fd al = Inr q" and "k \<in> {''row_limit'', ''row_offset''}"
  shows "oprop (JObj q) k = numeric_or_undefined (oprop (JObj fd) k) \<and>
         (oprop (JObj q) k = JUndef \<or> (\<exists>n. oprop (JObj q) k = JNum n \<and> n \<noteq> NaN))"
proof -
  obtain qf where q: "\<forall>k\<in>set query_rest_keys. oprop (JObj q) k = oprop (JObj (query_rest fd qf)) k"
    using buildQueryObject_rest [OF assms(1)] by blast
  have "k \<in> set query_rest_keys" using assms(2) by (auto simp: query_rest_keys_def)
  then have "oprop (JObj q) k = oprop (JObj (query_rest fd qf)) k" using q by blast
  also have "\<dots> = numeric_or_undefined (oprop (JObj fd) k)"
    using assms(2) query_rest_limits by blast
  finally show ?thesis by (auto simp: numeric_or_undefined_def)
qed

section \<open>Order by, time column and query context\<close>

lemma valid_orderby_clause_iff:
  "valid_orderby_clause empt c \<longleftrightarrow> (\<exists>m b. c = JArr [m, JBool b] \<and> \<not> empt m)"
  by (cases "(empt, c)" rule: valid_orderby_clause.cases) auto

lemma normalizeOrderBy_valid:
  assumes "oprop (JObj q) ''orderby'' = JArr (JArr [m, JBool b] # cs)" and "\<not> empt m"
  shows "normalizeOrderBy empt q = q"
  using assms by (simp add: normalizeOrderBy_def Let_def)

text \<open>The metric an invalid \<open>orderby\<close> is replaced by.\<close>

definition orderby_metric :: "(jsval \<Rightarrow> bool) \<Rightarrow> jsval obj \<Rightarrow> jsval option" where
  "orderby_metric empt q =
     (let slm = oprop (JObj q) ''series_limit_metric''; lob = oprop (JObj q) ''legacy_order_by''
      in if \<not> nullish slm \<and> \<not> empt slm then Some slm
         else if \<not> nullish lob \<and> \<not> empt lob then Some lob
         else (case oprop (JObj q) ''metrics'' of JArr (m # _) \<Rightarrow> Some m | _ \<Rightarrow> None))"

definition without_ordering :: "jsval obj \<Rightarrow> jsval obj" where
  "without_ordering q =
     AList.delete ''orderby'' (AList.delete ''order_desc''
       (AList.delete ''legacy_order_by'' (AList.delete ''series_limit_metric'' q)))"

definition has_valid_orderby :: "(jsval \<Rightarrow> bool) \<Rightarrow> jsval obj \<Rightarrow> bool" where
  "has_valid_orderby empt q \<longleftrightarrow>
     (\<exists>m b cs. oprop (JObj q) ''orderby'' = JArr (JArr [m, JBool b] # cs) \<and> \<not> empt m)"

lemma normalizeOrderBy_cases:
  "normalizeOrderBy empt q =
     (if has_valid_orderby empt q then q
      else case orderby_metric empt q of
             Some m \<Rightarrow> obj_put ''orderby''
               (JArr [JArr [m, JBool (\<not> truthy (oprop (JObj q) ''order_desc''))]]) (without_ordering q)
           | None \<Rightarrow> without_ordering q)"
proof (cases "has_valid_orderby empt q")
  case True
  then show ?thesis by (auto simp: has_valid_orderby_def normalizeOrderBy_valid)
next
  case False
  then have nv: "(case oprop (JObj q) ''orderby'' of
                 JArr (c # _) \<Rightarrow> valid_orderby_clause empt c | _ \<Rightarrow> False) = False"
    by (auto simp: has_valid_orderby_def valid_orderby_clause_iff split: jsval.splits list.splits)
  have mt: "(case oprop (JObj q) ''metrics'' of JArr (m # _) \<Rightarrow> f m | _ \<Rightarrow> c) =
      (case (case oprop (JObj q) ''metrics'' of JArr (m # _) \<Rightarrow> Some m | _ \<Rightarrow> None) of
         Some m \<Rightarrow> f m | None \<Rightarrow> c)" for f :: "jsval \<Rightarrow> jsval obj" and c
    by (simp split: jsval.split list.split)
  show ?thesis
    unfolding normalizeOrderBy_def Let_def nv mt orderby_metric_def without_ordering_def
    using False by (simp add: nullish_def)
qed

lemma oprop_without_ordering:
  "oprop (JObj (without_ordering q)) k =
     (if k \<in> {''orderby'', ''order_desc'', ''legacy_order_by'', ''series_limit_metric''} then JUndef
      else oprop (JObj q) k)"
  by (simp add: without_ordering_def)

lemma delete_without_ordering:
  "without_ordering (without_ordering q) = without_ordering q"
  by (simp add: without_ordering_def delete_twist AList.delete_idem)

lemma orderby_metric_without:
  "orderby_metric empt q = None \<Longrightarrow> orderby_metric empt (without_ordering q) = None"
  by (auto simp: orderby_metric_def Let_def oprop_without_ordering nullish_def
      split: if_splits jsval.splits list.splits)

text \<open>
  Ordering is normalised once and for all: unless the metric it has to fall back to is
  empty, normalising twice is normalising once; and the result has a valid first clause or
  no \<open>orderby\<close> at all, in which case nothing to order by was given.
\<close>

lemma normalizeOrderBy_idem:
  assumes "\<And>m ms. oprop (JObj q) ''metrics'' = JArr (m # ms) \<Longrightarrow> \<not> lodash_isEmpty m"
  shows "normalizeOrderBy lodash_isEmpty (normalizeOrderBy lodash_isEmpty q) =
           normalizeOrderBy lodash_isEmpty q \<and>
         (has_valid_orderby lodash_isEmpty (normalizeOrderBy lodash_isEmpty q) \<or>
          oprop (JObj (normalizeOrderBy lodash_isEmpty q)) ''orderby'' = JUndef \<and>
          orderby_metric lodash_isEmpty q = None)"
proof -
  let ?E = lodash_isEmpty
  consider "has_valid_orderby ?E q" | "\<not> has_valid_orderby ?E q" "orderby_metric ?E q = None"
    | m where "\<not> has_valid_orderby ?E q" "orderby_metric ?E q = Some m" by fastforce
  then show ?thesis
  proof cases
    case 2
    then have e: "normalizeOrderBy ?E q = without_ordering q" by (simp add: normalizeOrderBy_cases)
    have "\<not> has_valid_orderby ?E (without_ordering q)"
      by (simp add: has_valid_orderby_def oprop_without_ordering)
    then have "normalizeOrderBy ?E (without_ordering q) = without_ordering q"
      using orderby_metric_without [OF 2(2)]
      by (simp add: normalizeOrderBy_cases delete_without_ordering)
    with e 2(2) show ?thesis by (simp add: oprop_without_ordering)
  next
    case (3 m)
    then have "\<not> ?E m"
      using assms by (auto simp: orderby_metric_def Let_def split: if_splits jsval.splits list.splits)
    then have "has_valid_orderby ?E (normalizeOrderBy ?E q)"
      using 3 by (simp add: normalizeOrderBy_cases has_valid_orderby_def)
    then show ?thesis by (simp add: normalizeOrderBy_cases)
  qed (simp add: normalizeOrderBy_cases)
qed

text \<open>
  The time axis. When \<open>normalizeTimeColumn\<close> changes a query it replaces exactly the
  first column that denotes the x-axis, by a base-axis column with the query's time grain;
  every other column and, with lodash's \<open>omit\<close>, every field but \<open>is_timeseries\<close> stays.
\<close>

lemma normalizeTimeColumn_axis:
  assumes omit: "\<And>q ks k. oprop (JObj (lodash_omit q ks)) k = (if k \<in> set ks then JUndef else oprop (JObj q) k)"
    and set: "isXAxisSet (JObj fd)" "truthy (oprop (JObj fd) ''x_axis'')"
    and cols: "oprop (JObj q) ''columns'' = JArr cols"
    and idx: "i < length cols" "is_axis_column (oprop (JObj fd) ''x_axis'') (cols ! i)"
      "\<And>j. j < i \<Longrightarrow> \<not> is_axis_column (oprop (JObj fd) ''x_axis'') (cols ! j)"
  shows "\<exists>q' cols'. normalizeTimeColumn lodash_omit fd q = Inr q' \<and>
    oprop (JObj q') ''columns'' = JArr cols' \<and> length cols' = length cols \<and>
    (\<forall>j < length cols. j \<noteq> i \<longrightarrow> cols' ! j = cols ! j) \<and>
    cols' ! i = base_axis_column (oprop (oprop (JObj q) ''extras'') ''time_grain_sqla'')
                  (oprop (JObj fd) ''x_axis'') (cols ! i) \<and>
    oprop (JObj q') ''is_timeseries'' = JUndef \<and>
    (\<forall>k. k \<noteq> ''columns'' \<longrightarrow> k \<noteq> ''is_timeseries'' \<longrightarrow> oprop (JObj q') k = oprop (JObj q) k)"
proof -
  have "find_index (is_axis_column (oprop (JObj fd) ''x_axis'')) cols = Some i"
    using idx by (rule find_index_SomeI)
  then show ?thesis
    using set cols idx(1) by (simp add: normalizeTimeColumn_def Let_def omit)
qed

lemma drop_falsy_post_processing_truthy:
  "oprop (JObj (drop_falsy_post_processing q)) ''post_processing'' = JArr ops \<Longrightarrow> \<forall>v\<in>set ops. truthy v"
  by (auto simp: drop_falsy_post_processing_def split: jsval.splits)

lemma normalizeTimeColumn_keeps:
  assumes "\<And>q ks k. oprop (JObj (lodash_omit q ks)) k = (if k \<in> set ks then JUndef else oprop (JObj q) k)"
    and "normalizeTimeColumn lodash_omit fd q = Inr q'" and "k \<noteq> ''columns''" and "k \<noteq> ''is_timeseries''"
  shows "oprop (JObj q') k = oprop (JObj q) k"
  using assms(2-) by (auto simp: normalizeTimeColumn_def Let_def assms(1) split: if_splits jsval.splits option.splits)

lemma buildQueryContext_Inr:
  assumes "buildQueryContext om fd opts = Inr ctx"
  obtains base qs queries key where
    "buildQueryObject fd (snd (query_options_parts opts)) = Inr base"
    "fst (query_options_parts opts) base = Inr qs"
    "(if isXAxisSet (JObj fd) then rmap (normalizeTimeColumn om fd) (map drop_falsy_post_processing qs)
      else Inr (map drop_falsy_post_processing qs)) = Inr queries"
    "newDatasourceKey (oprop (JObj fd) ''datasource'') = Inr key"
    "oprop (JObj ctx) ''queries'' = JArr (map JObj queries)"
    "oprop (JObj ctx) ''datasource'' = datasourceKey_toObject key"
  using assms unfolding buildQueryContext_def Let_def
  by (auto simp: rbind_Inr_iff split: prod.splits)

text \<open>
  A query context has one query per query object the chart's \<open>buildQuery\<close> returned, none
  of which has a falsy post-processing step, whatever the chart's operators produced.
\<close>

lemma buildQueryContext_queries:
  assumes omit: "\<And>q ks k. oprop (JObj (lodash_omit q ks)) k = (if k \<in> set ks then JUndef else oprop (JObj q) k)"
    and "buildQueryContext lodash_omit fd opts = Inr ctx"
  shows "\<exists>base qs queries. buildQueryObject fd (snd (query_options_parts opts)) = Inr base \<and>
     fst (query_options_parts opts) base = Inr qs \<and>
     oprop (JObj ctx) ''queries'' = JArr (map JObj queries) \<and> length queries = length qs \<and>
     (\<forall>q\<in>set queries. \<forall>ops. oprop (JObj q) ''post_processing'' = JArr ops \<longrightarrow> (\<forall>v\<in>set ops. truthy v))"
proof -
  obtain base qs queries key where b: "buildQueryObject fd (snd (query_options_parts opts)) = Inr base"
    "fst (query_options_parts opts) base = Inr qs"
    "(if isXAxisSet (JObj fd) then rmap (normalizeTimeColumn lodash_omit fd) (map drop_falsy_post_processing qs)
      else Inr (map drop_falsy_post_processing qs)) = Inr queries"
    "oprop (JObj ctx) ''queries'' = JArr (map JObj queries)"
    using assms(2) by (elim buildQueryContext_Inr)
  have all: "list_all2 (\<lambda>q q'. oprop (JObj q') ''post_processing'' =
        oprop (JObj (drop_falsy_post_processing q)) ''post_processing'') qs queries"
  proof (cases "isXAxisSet (JObj fd)")
    case True
    then have "list_all2 (\<lambda>q q'. normalizeTimeColumn lodash_omit fd (drop_falsy_post_processing q) = Inr q') qs queries"
      using b(3) by (simp add: rmap_Inr_iff list.rel_map)
    then show ?thesis
      by (rule list.rel_mono_strong) (simp add: normalizeTimeColumn_keeps [OF omit])
  next
    case False
    then show ?thesis using b(3) by (auto simp: list.rel_map list.rel_refl_strong)
  qed
  have "\<forall>q'\<in>set queries. \<exists>q. oprop (JObj q') ''post_processing'' =
        oprop (JObj (drop_falsy_post_processing q)) ''post_processing''"
    using all by (auto simp: list_all2_conv_all_nth in_set_conv_nth) blast
  then have "\<forall>q\<in>set queries. \<forall>ops. oprop (JObj q) ''post_processing'' = JArr ops \<longrightarrow> (\<forall>v\<in>set ops. truthy v)"
    using drop_falsy_post_processing_truthy by metis
  then show ?thesis using b list_all2_lengthD [OF all] by auto
qed

text \<open>
  Each of \<open>time_range\<close>, \<open>time_column\<close>, \<open>time_grain\<close> and \<open>time_compare\<close> of a dashboard's extra
  form data replaces the query's field of the same name, \<open>granularity_sqla\<close> or else
  \<open>granularity\<close> replaces the query's \<open>granularity\<close>, and an absent one leaves the field alone.
\<close>

lemma overrideExtraFormData_regular:
  assumes "overrideExtraFormData q ov = Inr r"
  shows "(\<forall>k\<in>{''time_range'', ''time_column'', ''time_grain'', ''time_compare''}.
            oprop (JObj r) k = js_default (oprop (JObj ov) k) (oprop (JObj q) k)) \<and>
         oprop (JObj r) ''granularity'' =
           js_default (oprop (JObj ov) ''granularity_sqla'')
             (js_default (oprop (JObj ov) ''granularity'') (oprop (JObj q) ''granularity''))"
proof -
  have "oprop (JObj r) k =
      oprop (JObj (fold (override_regular ov) EXTRA_FORM_DATA_OVERRIDE_REGULAR_MAPPINGS q)) k"
    if "k \<noteq> ''extras''" for k
    using assms that by (auto simp: overrideExtraFormData_def rbind_Inr_iff Let_def)
  then show ?thesis
    by (simp add: EXTRA_FORM_DATA_OVERRIDE_REGULAR_MAPPINGS_def override_regular_def js_default_def Let_def)
qed

lemma process_filter_skips:
  assumes "is_simple f" and "\<not> is_where f"
  shows "process_filter f acc = Inr acc"
proof -
  have "\<not> nullish f" using assms(1) by (auto simp: is_simple_def nullish_def)
  then show ?thesis
    using assms by (cases acc) (simp add: process_filter_def getprop_def isSimpleAdhocFilter_def
      convertFilter_eq is_simple_def is_where_def)
qed

text \<open>
  A SIMPLE ad-hoc filter of any clause but WHERE has no effect on the query: it is
  neither a simple filter nor part of the HAVING text.
\<close>

lemma processFilters_drops_simple_having:
  assumes "is_simple f" and "\<not> is_where f"
    and "oprop (JObj fd) ''adhoc_filters'' = JArr (fs @ f # gs)"
  shows "processFilters fd = processFilters (obj_put ''adhoc_filters'' (JArr (fs @ gs)) fd)"
proof -
  have "rfold process_filter (f # gs) = rfold process_filter gs"
    using assms(1,2) by (simp add: fun_eq_iff process_filter_skips)
  then show ?thesis
    using assms(3) by (simp add: processFilters_def Let_def js_or_def rfold_append del: rfold.simps)
qed

text \<open>With the default options nothing after \<open>buildQueryObject\<close> fails.\<close>

lemma normalizeTimeColumn_total:
  "oprop (JObj q) ''columns'' = JArr cols \<Longrightarrow> \<exists>q'. normalizeTimeColumn om fd q = Inr q'"
  by (auto simp: normalizeTimeColumn_def Let_def split: option.split)

lemma buildQueryContext_total:
  assumes "buildQueryObject fd [] = Inr base" and "oprop (JObj fd) ''datasource'' = JStr s"
  shows "\<exists>ctx. buildQueryContext om fd NoOptions = Inr ctx"
proof -
  obtain qf where "\<forall>k\<in>set query_rest_keys. oprop (JObj base) k = oprop (JObj (query_rest fd qf)) k"
    using buildQueryObject_rest [OF assms(1)] by blast
  then have "oprop (JObj base) ''columns'' = JArr (qf_columns qf)"
    by (simp add: query_rest_keys_def query_rest_def Let_def)
  then have "oprop (JObj (drop_falsy_post_processing base)) ''columns'' = JArr (qf_columns qf)"
    by (simp add: drop_falsy_post_processing_def split: jsval.split)
  then obtain q' where "normalizeTimeColumn om fd (drop_falsy_post_processing base) = Inr q'"
    using normalizeTimeColumn_total by blast
  then show ?thesis
    using assms by (simp add: buildQueryContext_def WRAP_IN_ARRAY_def newDatasourceKey_def Let_def)
qed

text \<open>
  A datasource key with an integral id prints to a string that parses back to it.
\<close>

lemma datasourceKey_roundtrip:
  assumes "ds_id k = num_of_int i" and "ds_type k \<in> {Table, Query}"
  shows "newDatasourceKey (JStr (datasourceKey_toString k)) = Inr k"
  using assms by (rule datasourceKey_roundtrip_lemma)

section \<open>Witnesses\<close>

text \<open>A form with a grouped x-axis, a free-form and a simple filter, and extra form data.\<close>

definition sql_filter :: jsval where
  "sql_filter = JObj [(''expressionType'', JStr ''SQL''), (''clause'', JStr ''WHERE''),
     (''sqlExpression'', JStr ''x > 1 -- y'')]"

definition having_filter :: jsval where
  "having_filter = JObj [(''expressionType'', JStr ''SIMPLE''), (''clause'', JStr ''HAVING''),
     (''subject'', JStr ''n''), (''operator'', JStr ''==''), (''comparator'', JStr ''v'')]"

definition form1 :: "jsval obj" where
  "form1 =
     [(''query_mode'', JStr ''aggregate''),
      (''groupby'', JArr [JStr ''a'', JStr ''b'', JStr ''a'']),
      (''all_columns'', JArr [JStr ''c'']), (''metric'', JStr ''count''), (''x_axis'', JStr ''b''),
      (''row_limit'', JStr ''10''), (''datasource'', JStr ''5__table''),
      (''filters'', JArr []), (''extras'', JObj []),
      (''adhoc_filters'', JArr [sql_filter, having_filter]),
      (''extra_form_data'', JObj [(''time_range'', JStr ''Last week'')])]"

text \<open>Plain instances of the lodash functions.\<close>

definition omit_keys :: "jsval obj \<Rightarrow> string list \<Rightarrow> jsval obj" where
  "omit_keys q ks = fold AList.delete ks q"

definition is_empty :: "jsval \<Rightarrow> bool" where
  "is_empty v \<longleftrightarrow> nullish v \<or> v = JStr [] \<or> v = JArr [] \<or> v = JObj []"

lemma omit_keys_spec:
  "oprop (JObj (omit_keys q ks)) k = (if k \<in> set ks then JUndef else oprop (JObj q) k)"
  unfolding omit_keys_def by (induction ks arbitrary: q) auto

lemma form1_query: "\<exists>q. buildQueryObject form1 [] = Inr q"
  by (rule res_Inr) code_simp

theorem extractQueryFields_columns_witness:
  "\<exists>r. extractQueryFields form1 [] = Inr r \<and> qf_columns r = [JStr ''a'', JStr ''b''] \<and>
     distinct_labels (\<lambda>c. Inr (getColumnLabel c)) (qf_columns r)"
proof -
  have h: "extractQueryFields form1 [] =
      Inr \<lparr>qf_columns = [JStr ''a'', JStr ''b''], qf_metrics = Some [JStr ''count''], qf_orderby = None\<rparr>"
    by code_simp
  show ?thesis using h extractQueryFields_columns [OF h] by auto
qed

lemma form1_filters:
  "is_simple having_filter" "\<not> is_where having_filter" "\<not> is_simple sql_filter" "is_where sql_filter"
  "\<not> nullish having_filter" "\<not> nullish sql_filter" "sql_of sql_filter = JStr ''x > 1 -- y''"
  "oprop (JObj form1) ''adhoc_filters'' = JArr [sql_filter, having_filter]"
  "oprop (JObj form1) ''filters'' = JArr []" "oprop (JObj form1) ''extras'' = JObj []"
  "oprop (JObj form1) ''where'' = JUndef"
  by code_simp+

lemma not_before: "\<not> key_before ''where'' ''having''"
  by code_simp

theorem processFilters_spec_witness:
  "processFilters form1 =
     Inr [(''filters'', JArr []),
          (''extras'', JObj [(''having'', JStr ''''), (''where'', JStr (sanitized ''x > 1 -- y''))])]"
  using processFilters_spec [of form1 "[sql_filter, having_filter]" "[]" "[]" "[''x > 1 -- y'']" "[]"]
  by (simp add: form1_filters free_clauses_def not_before)

theorem buildQueryObject_where_having_witness:
  "\<exists>q. buildQueryObject form1 [] = Inr q \<and>
     oprop (oprop (JObj q) ''extras'') ''where'' = JStr (''(x > 1 -- y'' @ [CHR 0x0A] @ '')'')"
proof -
  obtain q where q: "buildQueryObject form1 [] = Inr q" using form1_query by blast
  obtain extras ffd pf where s: "extractExtras form1 = Inr extras" "filter_form_data form1 extras = Inr ffd"
      "processFilters ffd = Inr pf"
      "oprop (oprop (JObj q) ''extras'') ''where'' = oprop (oprop (JObj pf) ''extras'') ''where''"
    using buildQueryObject_where_having [OF q] by blast
  have "rbind (extractExtras form1) (\<lambda>x. rbind (filter_form_data form1 x) processFilters) =
      Inr [(''filters'', JArr []), (''extras'', JObj [(''time_grain_sqla'', JUndef), (''having'', JStr ''''),
        (''where'', JStr (''(x > 1 -- y'' @ [CHR 0x0A] @ '')''))])]"
    by code_simp
  then have "oprop (oprop (JObj pf) ''extras'') ''where'' = JStr (''(x > 1 -- y'' @ [CHR 0x0A] @ '')'')"
    using s(1-3) by simp
  with q s(4) show ?thesis by simp
qed

section \<open>What the extra filters become\<close>

definition is_reserved :: "jsval \<Rightarrow> bool" where
  "is_reserved f \<longleftrightarrow>
     to_str (oprop f ''col'') \<in> set (map fst (reservedColumnsToQueryField @ object_prototype))"

lemma extract_extra_eq:
  assumes "\<not> nullish f"
  shows "\<exists>e' a'. extract_extra f (e, fs, a) =
    Inr (if is_reserved f then e' else e, fs @ (if is_reserved f then [] else [f]), if is_reserved f then a' else a)"
proof (cases "is_reserved f")
  case True
  then obtain q where "map_of (reservedColumnsToQueryField @ object_prototype) (to_str (oprop f ''col'')) = Some q"
    unfolding is_reserved_def by (metis map_of_eq_None_iff not_None_eq set_map)
  then show ?thesis using assms True by (simp add: extract_extra_def getprop_def del: map_of_append)
next
  case False
  then have "map_of (reservedColumnsToQueryField @ object_prototype) (to_str (oprop f ''col'')) = None"
    unfolding is_reserved_def by (metis map_of_eq_None_iff set_map)
  then show ?thesis using assms False by (simp add: extract_extra_def getprop_def del: map_of_append)
qed

lemma extract_extras_fold:
  assumes "\<forall>f\<in>set fs. \<not> nullish f"
  shows "\<exists>e' a'. rfold extract_extra fs (e, gs, a) = Inr (e', gs @ filter (\<lambda>f. \<not> is_reserved f) fs, a')"
  using assms
proof (induction fs arbitrary: e gs a)
  case (Cons f fs)
  obtain e1 a1 where "extract_extra f (e, gs, a) =
      Inr (if is_reserved f then e1 else e, gs @ (if is_reserved f then [] else [f]), if is_reserved f then a1 else a)"
    using extract_extra_eq Cons.prems by (metis list.set_intros(1))
  then show ?case
    using Cons.IH [of "if is_reserved f then e1 else e" "gs @ (if is_reserved f then [] else [f])"
        "if is_reserved f then a1 else a"] Cons.prems by auto
qed simp

text \<open>
  Extra filters. \<open>extractExtras\<close> never fails on proper filters; it passes on, in order,
  exactly the filters on columns that are not reserved. Reserved are the five time
  pseudo-columns and every property name an object literal inherits, so that a filter on a
  column named \<open>constructor\<close> is dropped.
\<close>

lemma extractExtras_filters:
  assumes "oprop (JObj fd) ''extra_filters'' = JArr fs" and "\<forall>f\<in>set fs. \<not> nullish f"
  shows "\<exists>r. extractExtras fd = Inr r \<and>
           oprop (JObj r) ''filters'' = JArr (filter (\<lambda>f. \<not> is_reserved f) fs) \<and>
           is_reserved (JObj [(''col'', JStr ''constructor'')])"
proof -
  obtain e a where "rfold extract_extra fs
      ([(''filters'', JArr []), (''extras'', JObj []), (''applied_time_extras'', JObj [])], [], []) =
      Inr (e, filter (\<lambda>f. \<not> is_reserved f) fs, a)"
    using extract_extras_fold [OF assms(2)] by (metis append_Nil)
  moreover have "is_reserved (JObj [(''col'', JStr ''constructor'')])"
    by (simp add: is_reserved_def object_prototype_def)
  ultimately show ?thesis
    using assms(1) by (simp add: extractExtras_def js_or_def Let_def)
qed

text \<open>
  The extra filter \<open>__granularity\<close> has no effect on the query's granularity, although it
  is reported among the applied time extras.
\<close>

lemma extractExtras_granularity_ignored:
  "\<exists>r. extractExtras (obj_put ''extra_filters''
         (JArr [JObj [(''col'', JStr ''__granularity''), (''val'', v)]]) fd) = Inr r \<and>
     oprop (JObj r) ''granularity'' = js_or (oprop (JObj fd) ''granularity'') (oprop (JObj fd) ''granularity_sqla'') \<and>
     oprop (oprop (JObj r) ''applied_time_extras'') ''__granularity'' = v"
proof -
  let ?f = "JObj [(''col'', JStr ''__granularity''), (''val'', v)]"
  have f: "extract_extra ?f (e, fs, a) =
      Inr (obj_put ''granularity'' v e, fs, obj_put ''__granularity'' v a)" for e fs a
    by (simp add: extract_extra_def getprop_def nullish_def reservedColumnsToQueryField_def)
  show ?thesis
    by (simp add: extractExtras_def js_or_def f Let_def del: obj_put.simps)
qed

end
