(* ===== verification/Operators.thy ===== *)
theory Operators
  imports QueryTypes
begin

text \<open>
  The post-processing operators of \<open>superset-ui-chart-controls/src/operators\<close>: each maps
  form data and a query object to a post-processing step, or to \<open>undefined\<close> when the step
  does not apply. The theorems are about the columns the time-comparison operators name: how
  the compared columns pair up, how they are renamed, and how a series name is traced back.
\<close>

section \<open>Helpers\<close>

definition TIME_COMPARISON_SEPARATOR :: string where
  "TIME_COMPARISON_SEPARATOR = ''__''"

text \<open>\<open>Array.prototype.join\<close>: \<open>undefined\<close> and \<open>null\<close> print as the empty string.\<close>

definition js_join :: "string \<Rightarrow> jsval list \<Rightarrow> string" where
  "js_join sep vs = str_join sep (map (\<lambda>v. if nullish v then [] else to_str v) vs)"

text \<open>\<open>xs.some(p)\<close> where \<open>p\<close> may throw.\<close>

fun rsome :: "('a \<Rightarrow> bool res) \<Rightarrow> 'a list \<Rightarrow> bool res" where
  "rsome p [] = Inr False"
| "rsome p (x # xs) = rbind (p x) (\<lambda>b. if b then Inr True else rsome p xs)"

text \<open>Assignment \<open>o[k] = v\<close> with a computed key: \<open>__proto__\<close> creates no property.\<close>

definition obj_set :: "string \<Rightarrow> 'v \<Rightarrow> 'v obj \<Rightarrow> 'v obj" where
  "obj_set k v ob = (if k = ''__proto__'' then ob else obj_put k v ob)"

definition ComparisonType :: "string list" where
  "ComparisonType = [''values'', ''difference'', ''percentage'', ''ratio'']"

definition RollingType :: "string list" where
  "RollingType = [''mean'', ''sum'', ''std'', ''cumsum'']"

definition operation :: "string \<Rightarrow> jsval obj \<Rightarrow> jsval" where
  "operation name options = JObj [(''operation'', JStr name), (''options'', JObj options)]"

definition extractExtraMetrics :: "jsval obj \<Rightarrow> jsval list res" where
  "extractExtraMetrics formData =
     (let p = oprop (JObj formData);
          limitMetric = (case ensureIsArray (p ''timeseries_limit_metric'') of [] \<Rightarrow> JUndef | m # _ \<Rightarrow> m);
          x_axis_sort = p ''x_axis_sort''
      in if \<not> truthy (oprop (js_or (p ''groupby'') (JArr [])) ''length'') \<and> truthy limitMetric then
           rbind (getMetricLabel limitMetric) (\<lambda>label.
             if strict_eq label x_axis_sort then
               rbind (if nullish (p ''metrics'') then Inr False
                      else rbind (elems (p ''metrics''))
                        (rsome (\<lambda>metric. rbind (getMetricLabel metric) (\<lambda>l. Inr (strict_eq l x_axis_sort)))))
                 (\<lambda>found. Inr (if found then [] else [limitMetric]))
             else Inr [])
         else Inr [])"

text \<open>A JavaScript \<open>Map\<close> from offset labels to metric labels, in insertion order.\<close>

definition getMetricOffsetsMap :: "jsval obj \<Rightarrow> jsval obj \<Rightarrow> (string, jsval) jmap res" where
  "getMetricOffsetsMap formData queryObject =
     (let queryMetrics = ensureIsArray (oprop (JObj queryObject) ''metrics'');
          timeOffsets = ensureIsArray (oprop (JObj formData) ''time_compare'')
      in rbind (rmap getMetricLabel queryMetrics) (\<lambda>metricLabels.
           Inr (fold (\<lambda>metric. fold (\<lambda>offset.
                  AList.update (js_join TIME_COMPARISON_SEPARATOR [metric, offset]) metric) timeOffsets)
                metricLabels [])))"

definition is_comparison :: "jsval \<Rightarrow> bool" where
  "is_comparison v \<longleftrightarrow> list_ex (\<lambda>s. v = JStr s) ComparisonType"

definition isTimeComparison :: "jsval obj \<Rightarrow> jsval obj \<Rightarrow> bool res" where
  "isTimeComparison formData queryObject =
     rbind (getMetricOffsetsMap formData queryObject) (\<lambda>metricOffsetMap.
       Inr (is_comparison (oprop (JObj formData) ''comparison_type'') \<and> length metricOffsetMap > 0))"

text \<open>\<open>series.name.includes\<close> throws unless the name is a string or an array.\<close>

fun name_includes :: "jsval \<Rightarrow> string \<Rightarrow> bool res" where
  "name_includes (JStr s) sub = Inr (str_includes sub s)"
| "name_includes (JArr xs) sub = Inr (JStr sub \<in> set xs)"
| "name_includes _ sub = Inl TypeError"

fun getTimeOffset :: "jsval \<Rightarrow> jsval list \<Rightarrow> jsval res" where
  "getTimeOffset series [] = Inr JUndef"
| "getTimeOffset series (timeOffset # rest) =
     rbind (getprop series ''name'') (\<lambda>name.
     rbind (name_includes name (to_str timeOffset @ '','')) (\<lambda>a.
     rbind (if a then Inr True else name_includes name (''__'' @ to_str timeOffset)) (\<lambda>b.
       if b then Inr timeOffset else getTimeOffset series rest)))"

definition hasTimeOffset :: "jsval \<Rightarrow> jsval list \<Rightarrow> bool res" where
  "hasTimeOffset series timeCompare =
     rbind (getprop series ''name'') (\<lambda>name.
       if is_str name then rbind (getTimeOffset series timeCompare) (\<lambda>v. Inr (truthy v))
       else Inr False)"

definition getOriginalSeries :: "string \<Rightarrow> jsval list \<Rightarrow> string" where
  "getOriginalSeries seriesName timeCompare =
     str_trim (fold (\<lambda>compare result.
       str_replace (''__'' @ to_str compare) [] (str_replace (to_str compare @ '','') [] result))
       timeCompare seriesName)"

definition isDerivedSeries :: "jsval \<Rightarrow> jsval obj \<Rightarrow> bool res" where
  "isDerivedSeries series formData =
     (if oprop (JObj formData) ''comparison_type'' \<noteq> JStr ''values'' then Inr False
      else hasTimeOffset series (ensureIsArray (oprop (JObj formData) ''time_compare'')))"

section \<open>Operators\<close>

definition aggregationOperator :: "jsval obj \<Rightarrow> jsval obj \<Rightarrow> jsval res" where
  "aggregationOperator formData queryObject =
     (let aggregation = js_default (oprop (JObj formData) ''aggregation'') (JStr ''LAST_VALUE'');
          metrics = ensureIsArray (oprop (JObj queryObject) ''metrics'')
      in if aggregation = JStr ''LAST_VALUE'' \<or> aggregation = JStr ''raw'' \<or> metrics = [] then Inr JUndef
         else rbind (rfold (\<lambda>metric aggregates. rbind (getMetricLabel metric) (\<lambda>metricLabel.
                Inr (obj_set (to_str metricLabel)
                  (JObj [(''operator'', aggregation), (''column'', metricLabel)]) aggregates))) metrics [])
              (\<lambda>aggregates.
                Inr (operation ''aggregate'' [(''groupby'', JArr []), (''aggregates'', JObj aggregates)])))"

text \<open>\<open>PERCENTILE_REGEX\<close>: two numerals separated by a slash and followed by \<open>percentiles\<close>.\<close>

definition percentile_at :: "string \<Rightarrow> (string \<times> string) option" where
  "percentile_at s =
     (let (d1, r1) = span_digits s
      in case r1 of
           [] \<Rightarrow> None
         | c # r2 \<Rightarrow>
             (let (d2, r3) = span_digits r2
              in if d1 \<noteq> [] \<and> c = CHR ''/'' \<and> d2 \<noteq> [] \<and> prefix '' percentiles'' r3
                 then Some (d1, d2) else None))"

fun PERCENTILE_REGEX :: "string \<Rightarrow> (string \<times> string) option" where
  "PERCENTILE_REGEX [] = None"
| "PERCENTILE_REGEX (c # s) =
     (case percentile_at (c # s) of Some m \<Rightarrow> Some m | None \<Rightarrow> PERCENTILE_REGEX s)"

definition whisker :: "jsval \<Rightarrow> (string \<times> jsval) res" where
  "whisker whiskerOptions =
     (if whiskerOptions = JStr ''Tukey'' then Inr (''tukey'', JUndef)
      else if whiskerOptions = JStr ''Min/max (no outliers)'' then Inr (''min/max'', JUndef)
      else case PERCENTILE_REGEX (to_str whiskerOptions) of
             Some (a, b) \<Rightarrow> Inr (''percentile'', JArr [JNum (parseInt10 a), JNum (parseInt10 b)])
           | None \<Rightarrow> Inl (UnsupportedWhisker (to_str whiskerOptions)))"

definition boxplotOperator :: "jsval obj \<Rightarrow> jsval obj \<Rightarrow> jsval res" where
  "boxplotOperator formData queryObject =
     (let whiskerOptions = oprop (JObj formData) ''whiskerOptions''
      in if truthy whiskerOptions then
           rbind (whisker whiskerOptions) (\<lambda>(whiskerType, percentiles).
           rbind (rmap getMetricLabel (ensureIsArray (oprop (JObj queryObject) ''metrics''))) (\<lambda>metrics.
             Inr (operation ''boxplot''
               [(''whisker_type'', JStr whiskerType), (''percentiles'', percentiles),
                (''groupby'', JArr (map getColumnLabel (ensureIsArray (oprop (JObj formData) ''groupby'')))),
                (''metrics'', JArr metrics)])))
         else Inr JUndef)"

definition contributionOperator :: "jsval obj \<Rightarrow> jsval obj \<Rightarrow> jsval \<Rightarrow> jsval" where
  "contributionOperator formData queryObject time_shifts =
     (if truthy (oprop (JObj formData) ''contributionMode'')
      then operation ''contribution''
        [(''orientation'', oprop (JObj formData) ''contributionMode''), (''time_shifts'', time_shifts)]
      else JUndef)"

definition flattenOperator :: "jsval obj \<Rightarrow> jsval obj \<Rightarrow> jsval" where
  "flattenOperator formData queryObject = JObj [(''operation'', JStr ''flatten'')]"

definition histogramOperator :: "jsval obj \<Rightarrow> jsval obj \<Rightarrow> jsval res" where
  "histogramOperator formData queryObject =
     (let p = oprop (JObj formData);
          bins = to_number (p ''bins'');
          parsedBins = (if bins = NaN then num_of_int 5 else bins);
          parsedColumn = getColumnLabel (p ''column'')
      in rbind (elems (js_default (p ''groupby'') (JArr []))) (\<lambda>groupby.
           Inr (operation ''histogram''
             [(''column'', parsedColumn), (''groupby'', JArr (map getColumnLabel groupby)),
              (''bins'', JNum parsedBins), (''cumulative'', p ''cumulative''),
              (''normalize'', p ''normalize'')])))"

definition mean_aggregates :: "jsval list \<Rightarrow> jsval" where
  "mean_aggregates labels =
     JObj (from_entries (map (\<lambda>m. (to_str m, JObj [(''operator'', JStr ''mean'')])) labels))"

definition pivotOperator :: "jsval obj \<Rightarrow> jsval obj \<Rightarrow> jsval res" where
  "pivotOperator formData queryObject =
     (let q = oprop (JObj queryObject)
      in rbind (extractExtraMetrics formData) (\<lambda>extra.
         rbind (rmap getMetricLabel (ensureIsArray (q ''metrics'') @ extra)) (\<lambda>metricLabels.
           let xAxisLabel = getXAxisLabel (JObj formData);
               columns = js_or (q ''series_columns'') (q ''columns'')
           in if truthy xAxisLabel \<and> metricLabels \<noteq> [] then
                Inr (operation ''pivot''
                  [(''index'', JArr [xAxisLabel]),
                   (''columns'', JArr (map getColumnLabel (ensureIsArray columns))),
                   (''aggregates'', mean_aggregates metricLabels),
                   (''drop_missing_columns'', JBool (\<not> truthy (oprop (JObj formData) ''show_empty_columns'')))])
              else Inr JUndef)))"

definition prophetOperator :: "jsval obj \<Rightarrow> jsval obj \<Rightarrow> jsval" where
  "prophetOperator formData queryObject =
     (let p = oprop (JObj formData); xAxisLabel = getXAxisLabel (JObj formData)
      in if truthy (p ''forecastEnabled'') \<and> truthy xAxisLabel then
           operation ''prophet''
             [(''time_grain'', p ''time_grain_sqla''),
              (''periods'', JNum (parseInt10 (to_str (p ''forecastPeriods'')))),
              (''confidence_interval'', JNum (parseFloat (to_str (p ''forecastInterval'')))),
              (''yearly_seasonality'', p ''forecastSeasonalityYearly''),
              (''weekly_seasonality'', p ''forecastSeasonalityWeekly''),
              (''daily_seasonality'', p ''forecastSeasonalityDaily''),
              (''index'', xAxisLabel)]
         else JUndef)"

definition rankOperator :: "jsval obj \<Rightarrow> jsval obj \<Rightarrow> jsval \<Rightarrow> jsval" where
  "rankOperator formData queryObject options =
     JObj [(''operation'', JStr ''rank''), (''options'', options)]"

definition first_offset :: "jsval list \<Rightarrow> string \<Rightarrow> jsval" where
  "first_offset timeOffsets metricWithOffset =
     (case find (\<lambda>offset. str_includes (to_str offset) metricWithOffset) timeOffsets of
        Some offset \<Rightarrow> offset | None \<Rightarrow> JUndef)"

definition rename_pair :: "jsval obj \<Rightarrow> nat \<Rightarrow> string \<times> jsval \<Rightarrow> string \<times> jsval" where
  "rename_pair formData n_metrics entry =
     (let (metricWithOffset, metricOnly) = entry;
          comparison_type = oprop (JObj formData) ''comparison_type'';
          offsetLabel = first_offset (ensureIsArray (oprop (JObj formData) ''time_compare'')) metricWithOffset
      in (if comparison_type = JStr ''values'' then metricWithOffset
          else js_join TIME_COMPARISON_SEPARATOR [comparison_type, metricOnly, JStr metricWithOffset],
          if n_metrics > 1 then JStr (to_str metricOnly @ '', '' @ to_str offsetLabel) else offsetLabel))"

definition renameOperator :: "jsval obj \<Rightarrow> jsval obj \<Rightarrow> jsval res" where
  "renameOperator formData queryObject =
     (let p = oprop (JObj formData); q = oprop (JObj queryObject);
          metrics = ensureIsArray (q ''metrics'');
          columns = ensureIsArray (js_or (q ''series_columns'') (q ''columns''));
          timeOffsets = ensureIsArray (p ''time_compare'');
          truncate_metric = p ''truncate_metric'';
          xAxisLabel = getXAxisLabel (JObj formData)
      in rbind (isTimeComparison formData queryObject) (\<lambda>isTimeComparisonValue.
         if length metrics > 0 \<and> truthy xAxisLabel \<and>
            (isTimeComparisonValue \<or>
             (length columns > 0 \<or> length timeOffsets > 1) \<and>
             truncate_metric \<noteq> JUndef \<and> truthy truncate_metric) then
           rbind (if isTimeComparisonValue then
                    rbind (getMetricOffsetsMap formData queryObject) (\<lambda>metricOffsetMap.
                      Inr (map (rename_pair formData (length metrics)) metricOffsetMap))
                  else Inr []) (\<lambda>pairs.
           rbind (if p ''comparison_type'' \<notin> {JStr ''difference'', JStr ''percentage'', JStr ''ratio''} \<and>
                     length metrics = 1 \<and> pairs = [] then
                    rbind (getMetricLabel (hd metrics)) (\<lambda>l. Inr (pairs @ [(to_str l, JNull)]))
                  else Inr pairs) (\<lambda>renamePairs.
             Inr (if renamePairs = [] then JUndef
                  else operation ''rename''
                    [(''columns'', JObj (from_entries renamePairs)), (''level'', JInt 0),
                     (''inplace'', JBool True)])))
         else Inr JUndef))"

definition resampleOperator :: "jsval obj \<Rightarrow> jsval obj \<Rightarrow> jsval" where
  "resampleOperator formData queryObject =
     (let p = oprop (JObj formData);
          resampleZeroFill = (p ''resample_method'' = JStr ''zerofill'');
          resampleMethod = (if resampleZeroFill then JStr ''asfreq'' else p ''resample_method'');
          resampleRule = p ''resample_rule''
      in if truthy resampleMethod \<and> truthy resampleRule then
           operation ''resample''
             [(''method'', resampleMethod), (''rule'', resampleRule),
              (''fill_value'', if resampleZeroFill then JInt 0 else JNull)]
         else JUndef)"

definition rolling_columns :: "jsval obj \<Rightarrow> jsval obj \<Rightarrow> jsval list res" where
  "rolling_columns formData queryObject =
     rbind (isTimeComparison formData queryObject) (\<lambda>tc.
       if tc then rbind (getMetricOffsetsMap formData queryObject) (\<lambda>metricsMap.
         Inr (map snd metricsMap @ map (\<lambda>e. JStr (fst e)) metricsMap))
       else rmap (\<lambda>metric. if is_str metric then Inr metric else getprop metric ''label'')
              (ensureIsArray (oprop (JObj queryObject) ''metrics'')))"

definition rollingWindowOperator :: "jsval obj \<Rightarrow> jsval obj \<Rightarrow> jsval res" where
  "rollingWindowOperator formData queryObject =
     (let p = oprop (JObj formData); rolling_type = p ''rolling_type''
      in rbind (rolling_columns formData queryObject) (\<lambda>columns.
         let columnsMap = JObj (from_entries (map (\<lambda>col. (to_str col, col)) columns))
         in Inr (if rolling_type = JStr ''cumsum'' then
                   operation ''cum'' [(''operator'', JStr ''sum''), (''columns'', columnsMap)]
                 else if rolling_type \<in> {JStr ''sum'', JStr ''mean'', JStr ''std''} then
                   operation ''rolling''
                     [(''rolling_type'', rolling_type),
                      (''window'', JNum (ensureIsInt (p ''rolling_periods'') (Some (num_of_int 1)))),
                      (''min_periods'', JNum (ensureIsInt (p ''min_periods'') (Some (num_of_int 0)))),
                      (''columns'', columnsMap)]
                 else JUndef)))"

definition sortOperator :: "(jsval \<Rightarrow> bool) \<Rightarrow> jsval obj \<Rightarrow> jsval res" where
  "sortOperator lodash_isEmpty formData =
     (let p = oprop (JObj formData); x_axis_sort = p ''x_axis_sort'';
          ascending = p ''x_axis_sort_asc''; xAxisLabel = getXAxisLabel (JObj formData)
      in rbind (rmap getMetricLabel (ensureIsArray (p ''metrics''))) (\<lambda>metricLabels.
         rbind (extractExtraMetrics formData) (\<lambda>extra.
         rbind (rmap getMetricLabel extra) (\<lambda>extraLabels.
         let sortableLabels = filter truthy (xAxisLabel # metricLabels @ extraLabels)
         in Inr (if isDefined x_axis_sort \<and> isDefined ascending \<and>
                    list_ex (\<lambda>l. same_value_zero l x_axis_sort) sortableLabels \<and>
                    lodash_isEmpty (p ''groupby'') then
                   (if strict_eq x_axis_sort xAxisLabel
                    then operation ''sort'' [(''is_sort_index'', JBool True), (''ascending'', ascending)]
                    else operation ''sort'' [(''by'', x_axis_sort), (''ascending'', ascending)])
                 else JUndef)))))"

definition timeCompareOperator :: "jsval obj \<Rightarrow> jsval obj \<Rightarrow> jsval res" where
  "timeCompareOperator formData queryObject =
     (let comparisonType = oprop (JObj formData) ''comparison_type''
      in rbind (getMetricOffsetsMap formData queryObject) (\<lambda>metricOffsetMap.
         rbind (isTimeComparison formData queryObject) (\<lambda>tc.
           Inr (if tc \<and> comparisonType \<noteq> JStr ''values'' then
                  operation ''compare''
                    [(''source_columns'', JArr (map snd metricOffsetMap)),
                     (''compare_columns'', JArr (map (\<lambda>e. JStr (fst e)) metricOffsetMap)),
                     (''compare_type'', comparisonType), (''drop_original_columns'', JBool True)]
                else JUndef))))"

definition timeComparePivotOperator :: "jsval obj \<Rightarrow> jsval obj \<Rightarrow> jsval res" where
  "timeComparePivotOperator formData queryObject =
     (let q = oprop (JObj queryObject); xAxisLabel = getXAxisLabel (JObj formData);
          columns = js_or (q ''series_columns'') (q ''columns'')
      in rbind (getMetricOffsetsMap formData queryObject) (\<lambda>metricOffsetMap.
         rbind (isTimeComparison formData queryObject) (\<lambda>tc.
           Inr (if tc \<and> truthy xAxisLabel then
                  operation ''pivot''
                    [(''index'', JArr [xAxisLabel]),
                     (''columns'', JArr (map getColumnLabel (ensureIsArray columns))),
                     (''drop_missing_columns'', JBool (\<not> truthy (oprop (JObj formData) ''show_empty_columns''))),
                     (''aggregates'', mean_aggregates (map snd metricOffsetMap @ map (\<lambda>e. JStr (fst e)) metricOffsetMap))]
                else JUndef))))"

section \<open>The columns of a time comparison\<close>

lemma fold_product:
  "fold (\<lambda>a. fold (g a) bs) as s = fold (\<lambda>(a, b). g a b) (List.product as bs) s"
  by (induction as arbitrary: s) (simp_all add: fold_map comp_def)

lemma set_update_subset: "set (AList.update k v al) \<subseteq> insert (k, v) (set al)"
  by (induction al) auto

lemma set_updates_subset: "set (fold (\<lambda>(k, v). AList.update k v) ps al) \<subseteq> set ps \<union> set al"
proof (induction ps arbitrary: al)
  case (Cons p ps)
  then show ?case using set_update_subset [of "fst p" "snd p" al] by (cases p) fastforce
qed simp

lemma keys_updates: "fst ` set (fold (\<lambda>(k, v). AList.update k v) ps al) = fst ` set ps \<union> fst ` set al"
  by (induction ps arbitrary: al) (auto simp: update_conv' dom_map_of_conv_image_fst [symmetric] split: if_splits)

lemma distinct_updates_keys:
  "distinct (map fst al) \<Longrightarrow> distinct (map fst (fold (\<lambda>(k, v). AList.update k v) ps al))"
  by (induction ps arbitrary: al) (auto simp: distinct_update)

definition offset_label :: "jsval \<Rightarrow> jsval \<Rightarrow> string" where
  "offset_label metric offset = js_join TIME_COMPARISON_SEPARATOR [metric, offset]"

lemma offset_label_str [simp]: "offset_label (JStr m) (JStr off) = m @ ''__'' @ off"
  by (simp add: offset_label_def js_join_def TIME_COMPARISON_SEPARATOR_def nullish_def)

lemma offset_label_set:
  "{(offset_label (JStr m) off, JStr m) | off. off \<in> JStr ` A} = {(m @ ''__'' @ a, JStr m) | a. a \<in> A}"
  "{offset_label (JStr m) off | off. off \<in> JStr ` A} = {m @ ''__'' @ a | a. a \<in> A}"
  using offset_label_str by (blast intro: offset_label_str [symmetric])+

text \<open>Which entries a map of metric offsets has.\<close>

lemma getMetricOffsetsMap_spec:
  assumes "getMetricOffsetsMap fd q = Inr mp"
    and "rmap getMetricLabel (ensureIsArray (oprop (JObj q) ''metrics'')) = Inr labels"
    and "ensureIsArray (oprop (JObj fd) ''time_compare'') = offs"
  shows "set mp \<subseteq> {(offset_label m off, m) | m off. m \<in> set labels \<and> off \<in> set offs}"
    and "fst ` set mp = {offset_label m off | m off. m \<in> set labels \<and> off \<in> set offs}"
    and "distinct (map fst mp)"
proof -
  let ?ps = "map (\<lambda>(m, off). (offset_label m off, m)) (List.product labels offs)"
  have mp: "mp = fold (\<lambda>(k, v). AList.update k v) ?ps []"
    using assms by (simp add: getMetricOffsetsMap_def fold_product fold_map comp_def split_def offset_label_def)
  show "set mp \<subseteq> {(offset_label m off, m) | m off. m \<in> set labels \<and> off \<in> set offs}"
    using set_updates_subset [of ?ps "[]"] unfolding mp by fastforce
  show "fst ` set mp = {offset_label m off | m off. m \<in> set labels \<and> off \<in> set offs}"
    using keys_updates [of ?ps "[]"] unfolding mp by (force simp: image_def)
  show "distinct (map fst mp)"
    unfolding mp by (rule distinct_updates_keys) simp
qed

lemma getMetricOffsetsMap_labels:
  "getMetricOffsetsMap fd q = Inr mp \<Longrightarrow>
     \<exists>labels. rmap getMetricLabel (ensureIsArray (oprop (JObj q) ''metrics'')) = Inr labels"
  by (auto simp: getMetricOffsetsMap_def Let_def rbind_Inr_iff)

text \<open>
  A comparison step compares exactly the shifted columns: each of its compare columns is a
  metric label joined with one of the offsets, paired by position with that metric as its
  source column; every metric and offset has a compare column, and none occurs twice.
\<close>

lemma timeCompareOperator_pairs:
  assumes "timeCompareOperator fd q = Inr step" and "step \<noteq> JUndef"
  shows "\<exists>labels srcs cmps. rmap getMetricLabel (ensureIsArray (oprop (JObj q) ''metrics'')) = Inr labels \<and>
     oprop (oprop step ''options'') ''source_columns'' = JArr srcs \<and>
     oprop (oprop step ''options'') ''compare_columns'' = JArr (map JStr cmps) \<and>
     list_all2 (\<lambda>src cmp. src \<in> set labels \<and>
       (\<exists>off \<in> set (ensureIsArray (oprop (JObj fd) ''time_compare'')). cmp = offset_label src off)) srcs cmps \<and>
     set cmps = {offset_label m off | m off.
       m \<in> set labels \<and> off \<in> set (ensureIsArray (oprop (JObj fd) ''time_compare''))} \<and>
     distinct cmps"
proof -
  obtain mp where mp: "getMetricOffsetsMap fd q = Inr mp"
      "step = operation ''compare''
        [(''source_columns'', JArr (map snd mp)), (''compare_columns'', JArr (map (\<lambda>e. JStr (fst e)) mp)),
         (''compare_type'', oprop (JObj fd) ''comparison_type''), (''drop_original_columns'', JBool True)]"
    using assms by (auto simp: timeCompareOperator_def Let_def rbind_Inr_iff split: if_splits)
  obtain labels where l: "rmap getMetricLabel (ensureIsArray (oprop (JObj q) ''metrics'')) = Inr labels"
    using getMetricOffsetsMap_labels [OF mp(1)] by blast
  note s = getMetricOffsetsMap_spec [OF mp(1) l refl]
  have "list_all2 (\<lambda>src cmp. src \<in> set labels \<and>
       (\<exists>off \<in> set (ensureIsArray (oprop (JObj fd) ''time_compare'')). cmp = offset_label src off))
     (map snd mp) (map fst mp)"
    using s(1) by (fastforce simp: list.rel_map intro!: list.rel_refl_strong)
  then show ?thesis
    using l s(2,3) by (intro exI [of _ labels] exI [of _ "map snd mp"] exI [of _ "map fst mp"])
      (simp add: mp(2) operation_def comp_def)
qed

section \<open>Renaming and tracing back\<close>

lemma map_of_renamed:
  assumes "set mp \<subseteq> {(g a, c) | a. a \<in> A}" and "fst ` set mp = {g a | a. a \<in> A}"
    and "\<And>a. a \<in> A \<Longrightarrow> f (g a, c) = (g a, h a)" and "a \<in> A" and "inj_on g A"
  shows "map_of (rev (map f mp)) (g a) = Some (h a)"
proof -
  have keys: "e \<in> set (rev (map f mp)) \<Longrightarrow> \<exists>b\<in>A. e = (g b, h b)" for e
    using assms(1,3) by fastforce
  have "g a \<in> fst ` set (rev (map f mp))"
    using assms by (force simp: image_image)
  then obtain v where v: "map_of (rev (map f mp)) (g a) = Some v"
    by (metis map_of_eq_None_iff not_None_eq)
  then obtain b where "b \<in> A" "(g a, v) = (g b, h b)"
    using keys [OF map_of_SomeD [OF v]] by blast
  then show ?thesis using v assms(4,5) by (auto dest: inj_onD)
qed

text \<open>
  With one metric and offsets of which none occurs in the shifted column of another, the
  renaming step of a comparison of actual values gives every shifted column the name of its
  offset.
\<close>

lemma renameOperator_offsets:
  assumes "oprop (JObj q) ''metrics'' = JArr [JStr m]"
    and "oprop (JObj fd) ''time_compare'' = JArr (map JStr offs)" and "offs \<noteq> []"
    and "oprop (JObj fd) ''comparison_type'' = JStr ''values''" and "truthy (getXAxisLabel (JObj fd))"
    and sep: "\<And>a b. a \<in> set offs \<Longrightarrow> b \<in> set offs \<Longrightarrow> str_includes b (m @ ''__'' @ a) \<Longrightarrow> b = a"
  shows "\<exists>step. renameOperator fd q = Inr step \<and>
     (\<forall>a\<in>set offs. oprop (oprop (oprop step ''options'') ''columns'') (m @ ''__'' @ a) = JStr a)"
proof -
  obtain mp where mp: "getMetricOffsetsMap fd q = Inr mp"
    using assms(1) by (simp add: getMetricOffsetsMap_def)
  have sub: "set mp \<subseteq> {(m @ ''__'' @ a, JStr m) | a. a \<in> set offs}"
    and keys: "fst ` set mp = {m @ ''__'' @ a | a. a \<in> set offs}"
    using getMetricOffsetsMap_spec(1,2) [OF mp, of "[JStr m]" "map JStr offs"] assms(1,2)
    by (auto simp: offset_label_set)
  have mp_ne: "mp \<noteq> []" using keys assms(3) by auto
  have first: "first_offset (map JStr offs) (m @ ''__'' @ a) = JStr a" if a: "a \<in> set offs" for a
  proof -
    have "str_includes a (m @ ''__'' @ a)"
      unfolding str_includes_sublist sublist_def by (metis append_assoc append_Nil2)
    then have "\<exists>x \<in> set (map JStr offs). str_includes (to_str x) (m @ ''__'' @ a)" using a by auto
    then obtain x where x: "find (\<lambda>off. str_includes (to_str off) (m @ ''__'' @ a)) (map JStr offs) = Some x"
      by (metis find_None_iff not_None_eq)
    then have "x \<in> set (map JStr offs)" "str_includes (to_str x) (m @ ''__'' @ a)"
      by (auto simp: find_Some_iff)
    then show ?thesis using sep [OF a] x by (auto simp: first_offset_def)
  qed
  let ?ps = "map (rename_pair fd 1) mp"
  have pair: "rename_pair fd 1 (m @ ''__'' @ a, JStr m) = (m @ ''__'' @ a, JStr a)" if "a \<in> set offs" for a
    using first [OF that] assms(2,4) by (simp add: rename_pair_def)
  have step: "renameOperator fd q = Inr (operation ''rename''
      [(''columns'', JObj (from_entries ?ps)), (''level'', JInt 0), (''inplace'', JBool True)])"
    using assms(1,4,5) mp mp_ne
    by (simp add: renameOperator_def isTimeComparison_def is_comparison_def ComparisonType_def Let_def)
  have "map_of (rev ?ps) (m @ ''__'' @ a) = Some (JStr a)" if a: "a \<in> set offs" for a
    by (rule map_of_renamed [where g = "\<lambda>a. m @ ''__'' @ a" and c = "JStr m", OF _ _ pair a])
       (use sub keys in \<open>auto simp: inj_on_def image_def\<close>)
  then show ?thesis
    using step by (simp add: operation_def oprop.simps(1) map_of_from_entries)
qed

text \<open>
  When one offset is the tail of another, the two shifted columns can get the same name:
  comparing with \<open>1 year ago\<close> and \<open>11 year ago\<close> renames both columns to \<open>1 year ago\<close>.
\<close>

lemma renameOperator_collision:
  "\<exists>step. renameOperator
       [(''x_axis'', JStr ''ds''), (''comparison_type'', JStr ''values''),
        (''time_compare'', JArr [JStr ''1 year ago'', JStr ''11 year ago''])]
       [(''metrics'', JArr [JStr ''count''])] = Inr step \<and>
     oprop (oprop step ''options'') ''columns'' =
       JObj [(''count__1 year ago'', JStr ''1 year ago''), (''count__11 year ago'', JStr ''1 year ago'')]"
proof -
  have "renameOperator
       [(''x_axis'', JStr ''ds''), (''comparison_type'', JStr ''values''),
        (''time_compare'', JArr [JStr ''1 year ago'', JStr ''11 year ago''])]
       [(''metrics'', JArr [JStr ''count''])] =
    Inr (operation ''rename''
       [(''columns'', JObj [(''count__1 year ago'', JStr ''1 year ago''), (''count__11 year ago'', JStr ''1 year ago'')]),
        (''level'', JInt 0), (''inplace'', JBool True)])"
    by code_simp
  then show ?thesis by (simp add: operation_def)
qed

lemma str_replace_suffix:
  assumes "pat \<noteq> []" and "\<not> sublist pat (s @ butlast pat)"
  shows "str_replace pat [] (s @ pat) = s"
  using assms(2)
proof (induction s)
  case Nil
  then show ?case using assms(1) by (cases pat) simp_all
next
  case (Cons c s)
  have "\<not> prefix pat (c # s @ pat)"
  proof
    assume "prefix pat (c # s @ pat)"
    moreover have "c # s @ pat = (c # s @ butlast pat) @ [last pat]" using assms(1) by simp
    moreover have "length pat \<le> length (c # s @ butlast pat)" by simp
    ultimately have "prefix pat (c # s @ butlast pat)"
      by (metis prefix_length_prefix prefixI)
    then show False using Cons.prems by (simp add: prefix_imp_sublist)
  qed
  moreover have "\<not> sublist pat (s @ butlast pat)"
    using Cons.prems by (metis append_Cons sublist_Cons_right)
  ultimately show ?case using Cons.IH by simp
qed

text \<open>
  The series of a shifted metric is traced back to its metric: removing the offset from
  \<open>metric__offset\<close> gives the metric, trimmed, provided the two texts the code removes do not
  occur elsewhere in the name.
\<close>

lemma getOriginalSeries_offset:
  assumes "\<not> str_includes (off @ '','') (m @ ''__'' @ off)"
    and "\<not> str_includes (''__'' @ off) (m @ butlast (''__'' @ off))"
  shows "getOriginalSeries (m @ ''__'' @ off) [JStr off] = str_trim m"
  using str_replace_absent [OF assms(1)] str_replace_suffix [of "''__'' @ off" m] assms(2)
  by (simp add: getOriginalSeries_def str_includes_sublist)

section \<open>Whiskers\<close>

lemma PERCENTILE_REGEX_numerals:
  "PERCENTILE_REGEX (show_nat a @ ''/'' @ show_nat b @ '' percentiles'') = Some (show_nat a, show_nat b)"
proof -
  have d: "\<forall>c \<in> set (show_nat n). is_digit c" for n
    by (metis show_nat_digits list_all_iff)
  have ne: "show_nat n \<noteq> []" for n
    by (subst show_nat.simps) simp
  have sl: "\<not> is_digit (CHR ''/'')" "\<not> is_digit (CHR '' '')" by code_simp+
  have "percentile_at (show_nat a @ ''/'' @ show_nat b @ '' percentiles'') = Some (show_nat a, show_nat b)"
    using ne d sl by (simp add: percentile_at_def span_digits_def takeWhile_append2 dropWhile_append2)
  then show ?thesis
    by (cases "show_nat a @ ''/'' @ show_nat b @ '' percentiles''") simp_all
qed

text \<open>
  Box plot whiskers. The option \<open>a/b percentiles\<close> is read as the percentiles a and b, for
  all numbers; and the operator fails exactly on a truthy option that is none of the three
  forms, with an error that quotes it, before it looks at the metrics.
\<close>

lemma boxplotOperator_whiskers:
  "whisker (JStr (show_nat a @ ''/'' @ show_nat b @ '' percentiles'')) =
     Inr (''percentile'', JArr [JInt (int a), JInt (int b)]) \<and>
   ((\<exists>e. boxplotOperator fd q = Inl (UnsupportedWhisker e)) \<longleftrightarrow>
     truthy (oprop (JObj fd) ''whiskerOptions'') \<and>
     oprop (JObj fd) ''whiskerOptions'' \<noteq> JStr ''Tukey'' \<and>
     oprop (JObj fd) ''whiskerOptions'' \<noteq> JStr ''Min/max (no outliers)'' \<and>
     PERCENTILE_REGEX (to_str (oprop (JObj fd) ''whiskerOptions'')) = None)"
proof (intro conjI)
  have i: "parseInt10 (show_nat n) = num_of_int (int n)" for n
    using parseInt10_show_int [of "int n"] by (simp add: show_int_def)
  have "PERCENTILE_REGEX ''Tukey'' = None" "PERCENTILE_REGEX ''Min/max (no outliers)'' = None"
    by code_simp+
  then show "whisker (JStr (show_nat a @ ''/'' @ show_nat b @ '' percentiles'')) =
     Inr (''percentile'', JArr [JInt (int a), JInt (int b)])"
    using PERCENTILE_REGEX_numerals [of a b] by (auto simp: whisker_def i simp del: PERCENTILE_REGEX.simps)
  have e: "rmap getMetricLabel xs \<noteq> Inl (UnsupportedWhisker e)" for xs e
    by (induction xs) (auto simp: rbind_Inl_iff getMetricLabel_def getprop_def Let_def split: if_splits)
  show "(\<exists>e. boxplotOperator fd q = Inl (UnsupportedWhisker e)) \<longleftrightarrow>
     truthy (oprop (JObj fd) ''whiskerOptions'') \<and>
     oprop (JObj fd) ''whiskerOptions'' \<noteq> JStr ''Tukey'' \<and>
     oprop (JObj fd) ''whiskerOptions'' \<noteq> JStr ''Min/max (no outliers)'' \<and>
     PERCENTILE_REGEX (to_str (oprop (JObj fd) ''whiskerOptions'')) = None"
    by (auto simp: boxplotOperator_def whisker_def Let_def rbind_Inl_iff e
        split: if_splits option.splits prod.splits)
qed

section \<open>Witnesses\<close>

definition cmp_form :: "jsval obj" where
  "cmp_form = [(''x_axis'', JStr ''ds''), (''comparison_type'', JStr ''ratio''),
     (''time_compare'', JArr [JStr ''1 day'', JStr ''2 day''])]"

definition cmp_query :: "jsval obj" where
  "cmp_query = [(''metrics'', JArr [JStr ''count''])]"

end
