(* ===== verification/Registry.thy ===== *)
theory Registry
  imports JsVal
begin

text \<open>
  The registries of \<open>superset-ui-core/src/models\<close> (\<open>Registry\<close>, \<open>RegistryWithDefaultKey\<close>,
  \<open>TypedRegistry\<close>), the two formatter registries built on them and the least-recently-used
  cache of \<open>utils/lruCache.ts\<close>.

  Values and loaders are opaque and compared by identity; running a loader is the argument
  \<open>run\<close>. A listener is an identity too: the calls made to listeners and the console warnings
  are recorded in the state, so that a listener does not call back into the registry.
  \<open>items[key]\<close> and \<open>promises[key]\<close> are property reads of plain objects, which also find
  the inherited properties.
\<close>

section \<open>Registry\<close>

datatype OverwritePolicy = Allow | Prohibit | Warn

datatype ('v, 'l) item = ItemWithValue 'v | ItemWithLoader 'l

record ('v, 'l, 'f) registry =
  reg_name :: string
  overwritePolicy :: OverwritePolicy
  items :: "('v, 'l) item obj"
  promises :: "'v obj"
  listeners :: "'f list"
  listener_calls :: "('f \<times> string list) list"
  warnings :: "string list"

text \<open>Reading a property of a plain object: absent, own, or inherited.\<close>

datatype 'a slot = Absent | Own 'a | Inherited

definition slot_of :: "'a obj \<Rightarrow> string \<Rightarrow> 'a slot" where
  "slot_of ob key =
     (case map_of ob key of
        Some v \<Rightarrow> Own v
      | None \<Rightarrow> if key \<in> set (map fst object_prototype) then Inherited else Absent)"

definition newRegistry :: "string option \<Rightarrow> OverwritePolicy option \<Rightarrow> ('v, 'l, 'f) registry" where
  "newRegistry name policy =
     \<lparr>reg_name = (case name of None \<Rightarrow> [] | Some n \<Rightarrow> n),
      overwritePolicy = (case policy of None \<Rightarrow> Allow | Some p \<Rightarrow> p),
      items = [], promises = [], listeners = [], listener_calls = [], warnings = []\<rparr>"

definition notifyListeners :: "string list \<Rightarrow> ('v, 'l, 'f) registry \<Rightarrow> ('v, 'l, 'f) registry" where
  "notifyListeners ks r = r\<lparr>listener_calls := listener_calls r @ map (\<lambda>f. (f, ks)) (listeners r)\<rparr>"

definition reg_keys :: "('v, 'l, 'f) registry \<Rightarrow> string list" where
  "reg_keys r = map fst (items r)"

definition reg_clear :: "('v, 'l, 'f) registry \<Rightarrow> ('v, 'l, 'f) registry" where
  "reg_clear r = notifyListeners (reg_keys r) (r\<lparr>items := [], promises := []\<rparr>)"

definition reg_has :: "('v, 'l, 'f) registry \<Rightarrow> string \<Rightarrow> bool" where
  "reg_has r key \<longleftrightarrow> slot_of (items r) key \<noteq> Absent"

definition overwrite_warning :: "string \<Rightarrow> string" where
  "overwrite_warning key =
     ''Item with key \"'' @ key @ ''\" already exists. You are assigning a new value.''"

text \<open>The part \<open>registerValue\<close> and \<open>registerLoader\<close> share: policy, assignment, notification.\<close>

definition register_item ::
  "string \<Rightarrow> ('v, 'l) item \<Rightarrow> bool \<Rightarrow> ('v, 'l, 'f) registry \<Rightarrow> ('v, 'l, 'f) registry res" where
  "register_item key new willOverwrite r =
     (if willOverwrite \<and> overwritePolicy r = Prohibit then Inl (OverwriteProhibited key)
      else
        let r1 = (if willOverwrite \<and> overwritePolicy r = Warn
                  then r\<lparr>warnings := warnings r @ [overwrite_warning key]\<rparr> else r)
        in Inr (if slot_of (items r) key = Absent \<or> willOverwrite
                then notifyListeners [key]
                  (r1\<lparr>items := obj_put key new (items r), promises := AList.delete key (promises r)\<rparr>)
                else r1))"

definition registerValue :: "string \<Rightarrow> 'v \<Rightarrow> ('v, 'l, 'f) registry \<Rightarrow> ('v, 'l, 'f) registry res" where
  "registerValue key v r =
     register_item key (ItemWithValue v)
       (case slot_of (items r) key of
          Own (ItemWithValue w) \<Rightarrow> w \<noteq> v
        | Own (ItemWithLoader _) \<Rightarrow> True
        | _ \<Rightarrow> False) r"

definition registerLoader :: "string \<Rightarrow> 'l \<Rightarrow> ('v, 'l, 'f) registry \<Rightarrow> ('v, 'l, 'f) registry res" where
  "registerLoader key l r =
     register_item key (ItemWithLoader l)
       (case slot_of (items r) key of
          Own (ItemWithLoader k) \<Rightarrow> k \<noteq> l
        | Own (ItemWithValue _) \<Rightarrow> True
        | _ \<Rightarrow> False) r"

definition reg_get :: "('l \<Rightarrow> 'v option res) \<Rightarrow> ('v, 'l, 'f) registry \<Rightarrow> string \<Rightarrow> 'v option res" where
  "reg_get run r key =
     (case slot_of (items r) key of
        Own (ItemWithLoader l) \<Rightarrow> run l
      | Own (ItemWithValue v) \<Rightarrow> Inr (Some v)
      | Inherited \<Rightarrow> Inr None
      | Absent \<Rightarrow> Inr None)"

text \<open>
  The promise \<open>getAsPromise\<close> returns: resolved with a value, rejected, or, for a key that is
  an inherited property of \<open>promises\<close>, that property.
\<close>

datatype 'v promise = Resolved 'v | NotRegistered string | InheritedProperty string

definition getAsPromise ::
  "('l \<Rightarrow> 'v option res) \<Rightarrow> string \<Rightarrow> ('v, 'l, 'f) registry \<Rightarrow> ('v promise \<times> ('v, 'l, 'f) registry) res" where
  "getAsPromise run key r =
     (case slot_of (promises r) key of
        Own v \<Rightarrow> Inr (Resolved v, r)
      | Inherited \<Rightarrow> Inr (InheritedProperty key, r)
      | Absent \<Rightarrow>
          rbind (reg_get run r key) (\<lambda>it.
            case it of
              Some v \<Rightarrow> Inr (Resolved v, r\<lparr>promises := obj_put key v (promises r)\<rparr>)
            | None \<Rightarrow> Inr (NotRegistered key, r)))"

text \<open>The readers call \<open>this.get\<close>, which subclasses override: it is their first argument.\<close>

definition getMap :: "(string \<Rightarrow> 'v option res) \<Rightarrow> ('v, 'l, 'f) registry \<Rightarrow> 'v option obj res" where
  "getMap getter r = rfold (\<lambda>key mp. rbind (getter key) (\<lambda>v. Inr (obj_put key v mp))) (reg_keys r) []"

definition reg_values :: "(string \<Rightarrow> 'v option res) \<Rightarrow> ('v, 'l, 'f) registry \<Rightarrow> 'v option list res" where
  "reg_values getter r = rmap getter (reg_keys r)"

definition reg_entries :: "(string \<Rightarrow> 'v option res) \<Rightarrow> ('v, 'l, 'f) registry \<Rightarrow> (string \<times> 'v option) list res" where
  "reg_entries getter r = rmap (\<lambda>key. rbind (getter key) (\<lambda>v. Inr (key, v))) (reg_keys r)"

text \<open>\<open>Promise.all(keys.map(getAsPromise))\<close>: the promises of all keys, asked for in order.\<close>

fun promise_all ::
  "('l \<Rightarrow> 'v option res) \<Rightarrow> string list \<Rightarrow> ('v, 'l, 'f) registry \<Rightarrow> ('v promise list \<times> ('v, 'l, 'f) registry) res" where
  "promise_all run [] r = Inr ([], r)"
| "promise_all run (key # ks) r =
     rbind (getAsPromise run key r) (\<lambda>(p, r1).
     rbind (promise_all run ks r1) (\<lambda>(ps, r2). Inr (p # ps, r2)))"

definition valuesAsPromise ::
  "('l \<Rightarrow> 'v option res) \<Rightarrow> ('v, 'l, 'f) registry \<Rightarrow> ('v promise list \<times> ('v, 'l, 'f) registry) res" where
  "valuesAsPromise run r = promise_all run (reg_keys r) r"

definition entriesAsPromise ::
  "('l \<Rightarrow> 'v option res) \<Rightarrow> ('v, 'l, 'f) registry \<Rightarrow> ((string \<times> 'v promise) list \<times> ('v, 'l, 'f) registry) res" where
  "entriesAsPromise run r =
     rbind (valuesAsPromise run r) (\<lambda>(ps, r'). Inr (zip (reg_keys r) ps, r'))"

definition getMapAsPromise ::
  "('l \<Rightarrow> 'v option res) \<Rightarrow> ('v, 'l, 'f) registry \<Rightarrow> ('v promise obj \<times> ('v, 'l, 'f) registry) res" where
  "getMapAsPromise run r =
     rbind (promise_all run (reg_keys r) r) (\<lambda>(ps, r').
       Inr (fold (\<lambda>(key, p). obj_put key p) (zip (reg_keys r) ps) [], r'))"

definition reg_remove :: "string \<Rightarrow> ('v, 'l, 'f) registry \<Rightarrow> ('v, 'l, 'f) registry" where
  "reg_remove key r =
     (let isChange = reg_has r key;
          r1 = r\<lparr>items := AList.delete key (items r), promises := AList.delete key (promises r)\<rparr>
      in if isChange then notifyListeners [key] r1 else r1)"

definition addListener :: "'f \<Rightarrow> ('v, 'l, 'f) registry \<Rightarrow> ('v, 'l, 'f) registry" where
  "addListener f r = r\<lparr>listeners := (if f \<in> set (listeners r) then listeners r else listeners r @ [f])\<rparr>"

definition removeListener :: "'f \<Rightarrow> ('v, 'l, 'f) registry \<Rightarrow> ('v, 'l, 'f) registry" where
  "removeListener f r = r\<lparr>listeners := filter (\<lambda>g. g \<noteq> f) (listeners r)\<rparr>"

section \<open>Registry with a default key\<close>

text \<open>The inherited state is the field \<open>base\<close>; \<open>super.m\<close> is the operation on it.\<close>

record ('v, 'l, 'f) registry_dk =
  base :: "('v, 'l, 'f) registry"
  initialDefaultKey :: "string option"
  defaultKey :: "string option"
  setFirstItemAsDefault :: bool

definition newRegistryWithDefaultKey ::
  "string option \<Rightarrow> OverwritePolicy option \<Rightarrow> string option \<Rightarrow> bool \<Rightarrow> ('v, 'l, 'f) registry_dk" where
  "newRegistryWithDefaultKey name policy initial first =
     \<lparr>base = newRegistry name policy, initialDefaultKey = initial, defaultKey = initial,
      setFirstItemAsDefault = first\<rparr>"

definition dk_clear :: "('v, 'l, 'f) registry_dk \<Rightarrow> ('v, 'l, 'f) registry_dk" where
  "dk_clear r = r\<lparr>base := reg_clear (base r), defaultKey := initialDefaultKey r\<rparr>"

definition dk_get :: "('l \<Rightarrow> 'v option res) \<Rightarrow> ('v, 'l, 'f) registry_dk \<Rightarrow> string option \<Rightarrow> 'v option res" where
  "dk_get run r key =
     (let targetKey = (case key of Some k \<Rightarrow> Some k | None \<Rightarrow> defaultKey r)
      in case targetKey of
           None \<Rightarrow> Inr None
         | Some k \<Rightarrow> if k = [] then Inr None else reg_get run (base r) k)"

definition default_if_first :: "string \<Rightarrow> ('v, 'l, 'f) registry_dk \<Rightarrow> ('v, 'l, 'f) registry_dk" where
  "default_if_first key r =
     (if setFirstItemAsDefault r \<and> (defaultKey r = None \<or> defaultKey r = Some [])
      then r\<lparr>defaultKey := Some key\<rparr> else r)"

definition dk_registerValue :: "string \<Rightarrow> 'v \<Rightarrow> ('v, 'l, 'f) registry_dk \<Rightarrow> ('v, 'l, 'f) registry_dk res" where
  "dk_registerValue key v r =
     rbind (registerValue key v (base r)) (\<lambda>b. Inr (default_if_first key (r\<lparr>base := b\<rparr>)))"

definition dk_registerLoader :: "string \<Rightarrow> 'l \<Rightarrow> ('v, 'l, 'f) registry_dk \<Rightarrow> ('v, 'l, 'f) registry_dk res" where
  "dk_registerLoader key l r =
     rbind (registerLoader key l (base r)) (\<lambda>b. Inr (default_if_first key (r\<lparr>base := b\<rparr>)))"

definition getDefaultKey :: "('v, 'l, 'f) registry_dk \<Rightarrow> string option" where
  "getDefaultKey r = defaultKey r"

definition setDefaultKey :: "string \<Rightarrow> ('v, 'l, 'f) registry_dk \<Rightarrow> ('v, 'l, 'f) registry_dk" where
  "setDefaultKey key r = r\<lparr>defaultKey := Some key\<rparr>"

definition clearDefaultKey :: "('v, 'l, 'f) registry_dk \<Rightarrow> ('v, 'l, 'f) registry_dk" where
  "clearDefaultKey r = r\<lparr>defaultKey := None\<rparr>"

section \<open>Typed registry\<close>

definition newTypedRegistry :: "'v obj \<Rightarrow> 'v obj" where
  "newTypedRegistry initialRecords = initialRecords"

definition typed_get :: "'v obj \<Rightarrow> string \<Rightarrow> 'v slot" where
  "typed_get records key = slot_of records key"

definition typed_set :: "'v obj \<Rightarrow> string \<Rightarrow> 'v \<Rightarrow> 'v obj" where
  "typed_set records key v = (if key = ''__proto__'' then records else obj_put key v records)"

section \<open>Formatter registries\<close>

text \<open>
  A formatter registry is a registry with a default key and a locale. The factories of
  formatters are arguments; a missing formatter id (\<open>undefined\<close>, \<open>null\<close>) is \<open>None\<close>.
\<close>

record ('v, 'l, 'f) formatter_registry =
  dk :: "('v, 'l, 'f) registry_dk"
  d3Format :: "jsval obj"

definition DEFAULT_D3_FORMAT :: "jsval obj" where
  "DEFAULT_D3_FORMAT =
     [(''decimal'', JStr ''.''), (''thousands'', JStr '',''), (''grouping'', JArr [JInt 3]),
      (''currency'', JArr [JStr ''$'', JStr ''''])]"

definition strs :: "string list \<Rightarrow> jsval" where
  "strs xs = JArr (map JStr xs)"

definition DEFAULT_D3_TIME_FORMAT :: "jsval obj" where
  "DEFAULT_D3_TIME_FORMAT =
     [(''dateTime'', JStr ''%x, %X''), (''date'', JStr ''%-m/%-d/%Y''), (''time'', JStr ''%-I:%M:%S %p''),
      (''periods'', strs [''AM'', ''PM'']),
      (''days'', strs [''Sunday'', ''Monday'', ''Tuesday'', ''Wednesday'', ''Thursday'', ''Friday'', ''Saturday'']),
      (''shortDays'', strs [''Sun'', ''Mon'', ''Tue'', ''Wed'', ''Thu'', ''Fri'', ''Sat'']),
      (''months'', strs [''January'', ''February'', ''March'', ''April'', ''May'', ''June'', ''July'', ''August'',
         ''September'', ''October'', ''November'', ''December'']),
      (''shortMonths'', strs [''Jan'', ''Feb'', ''Mar'', ''Apr'', ''May'', ''Jun'', ''Jul'', ''Aug'', ''Sep'',
         ''Oct'', ''Nov'', ''Dec''])]"

definition SMART_NUMBER :: string where
  "SMART_NUMBER = ''SMART_NUMBER''"

definition SMART_NUMBER_SIGNED :: string where
  "SMART_NUMBER_SIGNED = ''SMART_NUMBER_SIGNED''"

definition LOCAL_PREFIX :: string where
  "LOCAL_PREFIX = ''local!''"

definition DATABASE_DATETIME :: string where
  "DATABASE_DATETIME = ''%Y-%m-%d %H:%M:%S''"

text \<open>\<open>createSmartNumberFormatter\<close> is the first argument, applied to the flag \<open>signed\<close>.\<close>

definition newNumberFormatterRegistry ::
  "(bool \<Rightarrow> 'v) \<Rightarrow> ('v, 'l, 'f) formatter_registry res" where
  "newNumberFormatterRegistry createSmartNumberFormatter =
     rbind (dk_registerValue SMART_NUMBER (createSmartNumberFormatter False)
             (newRegistryWithDefaultKey (Some ''NumberFormatter'') (Some Warn) None False)) (\<lambda>r1.
     rbind (dk_registerValue SMART_NUMBER_SIGNED (createSmartNumberFormatter True) r1) (\<lambda>r2.
       Inr \<lparr>dk = setDefaultKey SMART_NUMBER r2, d3Format = DEFAULT_D3_FORMAT\<rparr>))"

definition num_setD3Format ::
  "jsval obj \<Rightarrow> ('v, 'l, 'f) formatter_registry \<Rightarrow> ('v, 'l, 'f) formatter_registry" where
  "num_setD3Format d3 r = r\<lparr>d3Format := obj_assign (obj_assign [] DEFAULT_D3_FORMAT) d3\<rparr>"

text \<open>The key a request denotes: the id, or the default key, printed and trimmed.\<close>

definition targetFormat :: "('v, 'l, 'f) formatter_registry \<Rightarrow> string option \<Rightarrow> string" where
  "targetFormat r formatterId =
     str_trim (if formatterId = None \<or> formatterId = Some []
               then (case defaultKey (dk r) of None \<Rightarrow> ''undefined'' | Some k \<Rightarrow> k)
               else the formatterId)"

definition num_get ::
  "(string \<Rightarrow> jsval obj \<Rightarrow> 'v) \<Rightarrow> ('l \<Rightarrow> 'v option res) \<Rightarrow> string option \<Rightarrow>
   ('v, 'l, 'f) formatter_registry \<Rightarrow> ('v option \<times> ('v, 'l, 'f) formatter_registry) res" where
  "num_get createD3NumberFormatter run formatterId r =
     (let target = targetFormat r formatterId
      in if reg_has (base (dk r)) target
         then rbind (dk_get run (dk r) (Some target)) (\<lambda>f. Inr (f, r))
         else
           let formatter = createD3NumberFormatter target (d3Format r)
           in rbind (dk_registerValue target formatter (dk r)) (\<lambda>d. Inr (Some formatter, r\<lparr>dk := d\<rparr>)))"

definition newTimeFormatterRegistry :: "('v, 'l, 'f) formatter_registry" where
  "newTimeFormatterRegistry =
     \<lparr>dk = newRegistryWithDefaultKey (Some ''TimeFormatter'') (Some Warn) (Some DATABASE_DATETIME) False,
      d3Format = DEFAULT_D3_TIME_FORMAT\<rparr>"

definition time_setD3Format ::
  "jsval obj \<Rightarrow> ('v, 'l, 'f) formatter_registry \<Rightarrow> ('v, 'l, 'f) formatter_registry" where
  "time_setD3Format d3 r = r\<lparr>d3Format := obj_assign (obj_assign [] DEFAULT_D3_TIME_FORMAT) d3\<rparr>"

definition time_get ::
  "(string \<Rightarrow> bool \<Rightarrow> jsval obj \<Rightarrow> 'v) \<Rightarrow> ('l \<Rightarrow> 'v option res) \<Rightarrow> string option \<Rightarrow>
   ('v, 'l, 'f) formatter_registry \<Rightarrow> ('v option \<times> ('v, 'l, 'f) formatter_registry) res" where
  "time_get createD3TimeFormatter run format r =
     (let target = targetFormat r format
      in if reg_has (base (dk r)) target
         then rbind (dk_get run (dk r) (Some target)) (\<lambda>f. Inr (f, r))
         else
           let useLocalTime = prefix LOCAL_PREFIX target;
               formatString = str_replace LOCAL_PREFIX [] target;
               formatter = createD3TimeFormatter formatString useLocalTime (d3Format r)
           in rbind (dk_registerValue target formatter (dk r)) (\<lambda>d. Inr (Some formatter, r\<lparr>dk := d\<rparr>)))"

text \<open>\<open>this.get(id)(value)\<close>: calling \<open>undefined\<close> throws.\<close>

definition apply_format :: "('v option \<times> 'r) res \<Rightarrow> ('v \<Rightarrow> 'x \<Rightarrow> string) \<Rightarrow> 'x \<Rightarrow> (string \<times> 'r) res" where
  "apply_format got call v =
     rbind got (\<lambda>(f, r). case f of None \<Rightarrow> Inl TypeError | Some g \<Rightarrow> Inr (call g v, r))"

definition num_format ::
  "('v \<Rightarrow> 'x \<Rightarrow> string) \<Rightarrow> (string \<Rightarrow> jsval obj \<Rightarrow> 'v) \<Rightarrow> ('l \<Rightarrow> 'v option res) \<Rightarrow> string option \<Rightarrow> 'x \<Rightarrow>
   ('v, 'l, 'f) formatter_registry \<Rightarrow> (string \<times> ('v, 'l, 'f) formatter_registry) res" where
  "num_format call create run formatterId v r = apply_format (num_get create run formatterId r) call v"

definition time_format ::
  "('v \<Rightarrow> 'x \<Rightarrow> string) \<Rightarrow> (string \<Rightarrow> bool \<Rightarrow> jsval obj \<Rightarrow> 'v) \<Rightarrow> ('l \<Rightarrow> 'v option res) \<Rightarrow> string option \<Rightarrow> 'x \<Rightarrow>
   ('v, 'l, 'f) formatter_registry \<Rightarrow> (string \<times> ('v, 'l, 'f) formatter_registry) res" where
  "time_format call create run format v r = apply_format (time_get create run format r) call v"

section \<open>The least-recently-used cache\<close>

text \<open>\<open>a < b\<close> on numbers; a comparison with NaN is false.\<close>

fun num_less :: "jsnum \<Rightarrow> jsnum \<Rightarrow> bool" where
  "num_less NaN _ = False"
| "num_less _ NaN = False"
| "num_less (Fin a) (Fin b) = (a < b)"
| "num_less NegInf b = (b \<noteq> NegInf)"
| "num_less a PosInf = (a \<noteq> PosInf)"
| "num_less _ _ = False"

definition num_ge :: "jsnum \<Rightarrow> jsnum \<Rightarrow> bool" where
  "num_ge a b \<longleftrightarrow> a \<noteq> NaN \<and> b \<noteq> NaN \<and> \<not> num_less a b"

record 'v LRUCache =
  cache :: "(string, 'v) jmap"
  capacity :: jsnum

definition newLRUCache :: "jsnum \<Rightarrow> 'v LRUCache res" where
  "newLRUCache cap =
     (if num_less cap (num_of_int 1) then Inl BadCapacity else Inr \<lparr>cache = [], capacity = cap\<rparr>)"

definition lruCache :: "jsnum option \<Rightarrow> 'v LRUCache res" where
  "lruCache cap = newLRUCache (case cap of None \<Rightarrow> num_of_int 100 | Some c \<Rightarrow> c)"

definition lru_has :: "'v LRUCache \<Rightarrow> string \<Rightarrow> bool" where
  "lru_has c key \<longleftrightarrow> map_of (cache c) key \<noteq> None"

definition lru_get :: "jsval \<Rightarrow> 'v LRUCache \<Rightarrow> ('v option \<times> 'v LRUCache) res" where
  "lru_get key c =
     (case key of
        JStr k \<Rightarrow>
          Inr (case map_of (cache c) k of
                 Some tmp \<Rightarrow> (Some tmp, c\<lparr>cache := AList.update k tmp (AList.delete k (cache c))\<rparr>)
               | None \<Rightarrow> (None, c))
      | _ \<Rightarrow> Inl TypeError)"

definition lru_set :: "jsval \<Rightarrow> 'v \<Rightarrow> 'v LRUCache \<Rightarrow> 'v LRUCache res" where
  "lru_set key v c =
     (case key of
        JStr k \<Rightarrow>
          (let m = (if num_ge (num_of_nat (length (cache c))) (capacity c)
                    then (case cache c of [] \<Rightarrow> [] | (oldest, _) # _ \<Rightarrow> AList.delete oldest (cache c))
                    else cache c)
           in Inr (c\<lparr>cache := AList.update k v m\<rparr>))
      | _ \<Rightarrow> Inl TypeError)"

definition lru_clear :: "'v LRUCache \<Rightarrow> 'v LRUCache" where
  "lru_clear c = c\<lparr>cache := []\<rparr>"

definition lru_size :: "'v LRUCache \<Rightarrow> nat" where
  "lru_size c = length (cache c)"

definition lru_values :: "'v LRUCache \<Rightarrow> 'v list" where
  "lru_values c = map snd (cache c)"

section \<open>The store contract\<close>

text \<open>
  What the users of a registry rely on: a successful registration of an admissible key is
  seen by lookups of that key and of no other.
\<close>

locale keyed_store =
  fixes put :: "'k \<Rightarrow> 'v \<Rightarrow> 's \<Rightarrow> 's res" and look :: "'s \<Rightarrow> 'k \<Rightarrow> 'v option" and ok :: "'k \<Rightarrow> bool"
  assumes look_put: "ok k \<Longrightarrow> put k v s = Inr s' \<Longrightarrow> look s' = (look s)(k \<mapsto> v)"
begin

lemma look_puts:
  "list_all (\<lambda>p. ok (fst p)) ps \<Longrightarrow> rfold (\<lambda>p. put (fst p) (snd p)) ps s = Inr s' \<Longrightarrow>
     look s' = look s ++ map_of (rev ps)"
  by (induction ps arbitrary: s) (auto simp: rbind_Inr_iff look_put)

lemma look_put_other: "ok k \<Longrightarrow> put k v s = Inr s' \<Longrightarrow> k' \<noteq> k \<Longrightarrow> look s' k' = look s k'"
  by (simp add: look_put)

end

text \<open>Registering a value or a loader.\<close>

fun register :: "string \<Rightarrow> ('v, 'l) item \<Rightarrow> ('v, 'l, 'f) registry \<Rightarrow> ('v, 'l, 'f) registry res" where
  "register key (ItemWithValue v) r = registerValue key v r"
| "register key (ItemWithLoader l) r = registerLoader key l r"

definition admissible :: "string \<Rightarrow> bool" where
  "admissible key \<longleftrightarrow> key \<notin> set (map fst object_prototype)"

lemma slot_of_admissible [simp]:
  "admissible key \<Longrightarrow> slot_of ob key = (case map_of ob key of None \<Rightarrow> Absent | Some v \<Rightarrow> Own v)"
  by (simp add: slot_of_def admissible_def)

lemma notifyListeners_simps [simp]:
  "items (notifyListeners ks r) = items r" "promises (notifyListeners ks r) = promises r"
  "overwritePolicy (notifyListeners ks r) = overwritePolicy r" "listeners (notifyListeners ks r) = listeners r"
  by (simp_all add: notifyListeners_def)

text \<open>
  The two registrations, as one case distinction: prohibited, unchanged (the same item, or an
  inherited name), or stored with its cached promise dropped.
\<close>

lemma register_cases:
  assumes "register key it r = Inr r'"
  obtains (same) "items r' = items r" "promises r' = promises r" "overwritePolicy r' = overwritePolicy r"
      "map_of (items r) key = Some it \<or> map_of (items r) key = None \<and> \<not> admissible key"
  | (stored) "items r' = obj_put key it (items r)" "promises r' = AList.delete key (promises r)"
      "overwritePolicy r' = overwritePolicy r"
      "map_of (items r) key = None \<or> overwritePolicy r \<noteq> Prohibit"
  using assms
  by (cases it)
     (auto simp: registerValue_def registerLoader_def register_item_def slot_of_def admissible_def Let_def
       split: if_splits option.splits item.splits slot.splits)

lemma register_look:
  assumes "admissible key" and "register key it r = Inr r'"
  shows "map_of (items r') = (map_of (items r))(key \<mapsto> it)"
  using assms(2)
proof (cases rule: register_cases)
  case same
  then show ?thesis using assms(1) by (auto simp: fun_eq_iff)
qed (simp add: map_of_obj_put)

interpretation regs: keyed_store register "\<lambda>r. map_of (items r)" admissible
  by unfold_locales (rule register_look)

interpretation typed: keyed_store "\<lambda>key v r. Inr (typed_set r key v)" map_of "\<lambda>key. key \<noteq> ''__proto__''"
  by unfold_locales (auto simp: typed_set_def map_of_obj_put)

text \<open>
  Registry contract. After any sequence of successful registrations of values and loaders
  under admissible keys, the registry holds the last item registered for each key, and what
  it held before for every other key.
\<close>

lemma registry_last_registration:
  assumes "list_all (\<lambda>p. admissible (fst p)) ps"
    and "rfold (\<lambda>p. register (fst p) (snd p)) ps r = Inr r'"
  shows "map_of (items r') = map_of (items r) ++ map_of (rev ps)"
  using assms by (rule regs.look_puts)

text \<open>
  An inherited property name cannot be registered: \<open>registerValue\<close> silently does nothing,
  although \<open>has\<close> already answers true in an empty registry.
\<close>

lemma registry_inherited_key:
  assumes "\<not> admissible key" and "map_of (items r) key = None"
  shows "registerValue key v r = Inr r \<and> registerLoader key l r = Inr r \<and> reg_has r key \<and>
         reg_get run r key = Inr None"
  using assms
  by (simp add: registerValue_def registerLoader_def register_item_def reg_has_def reg_get_def
      slot_of_def admissible_def Let_def)

section \<open>Registry histories\<close>

inductive reg_step ::
  "('l \<Rightarrow> 'v option res) \<Rightarrow> ('v, 'l, 'f) registry \<Rightarrow> ('v, 'l, 'f) registry \<Rightarrow> bool"
  for run :: "'l \<Rightarrow> 'v option res" where
  reg_register: "register key it r = Inr r' \<Longrightarrow> reg_step run r r'"
| reg_promise: "getAsPromise run key r = Inr (p, r') \<Longrightarrow> reg_step run r r'"
| reg_removed: "reg_step run r (reg_remove key r)"
| reg_cleared: "reg_step run r (reg_clear r)"
| reg_listen: "reg_step run r (addListener f r)"
| reg_unlisten: "reg_step run r (removeListener f r)"

text \<open>Every cached promise is for the item currently registered.\<close>

definition coherent :: "('l \<Rightarrow> 'v option res) \<Rightarrow> ('v, 'l, 'f) registry \<Rightarrow> bool" where
  "coherent run r \<longleftrightarrow>
     (\<forall>k v. map_of (promises r) k = Some v \<longrightarrow>
        (\<exists>it. map_of (items r) k = Some it \<and> reg_get run r k = Inr (Some v)))"

lemma reg_get_items:
  "map_of (items r') k = map_of (items r) k \<Longrightarrow> reg_get run r' k = reg_get run r k"
  by (simp add: reg_get_def slot_of_def)

lemma reg_get_Some:
  "reg_get run r k = Inr (Some v) \<Longrightarrow> \<exists>it. map_of (items r) k = Some it"
  by (auto simp: reg_get_def slot_of_def split: option.splits if_splits)

lemma coherent_mono:
  assumes "coherent run r"
    and "\<And>k v. map_of (promises r') k = Some v \<Longrightarrow>
      map_of (promises r) k = Some v \<and> map_of (items r') k = map_of (items r) k"
  shows "coherent run r'"
  using assms unfolding coherent_def by (metis reg_get_items)

lemma coherent_step:
  assumes "coherent run r" and "reg_step run r r'"
  shows "coherent run r'"
  using assms(2)
proof cases
  case (reg_register key it)
  then show ?thesis
  proof (cases rule: register_cases)
    case same
    then show ?thesis by (intro coherent_mono [OF assms(1)]) simp
  next
    case stored
    then show ?thesis
      by (intro coherent_mono [OF assms(1)]) (auto simp: delete_conv' map_of_obj_put split: if_splits)
  qed
next
  case (reg_promise key p)
  show ?thesis
  proof (cases "r' = r")
    case False
    then obtain v where v: "reg_get run r key = Inr (Some v)" "r' = r\<lparr>promises := obj_put key v (promises r)\<rparr>"
      using reg_promise by (auto simp: getAsPromise_def rbind_Inr_iff split: slot.splits option.splits)
    have "reg_get run r' k = reg_get run r k" for k by (rule reg_get_items) (simp add: v(2))
    then show ?thesis
      using assms(1) v reg_get_Some by (auto simp: coherent_def map_of_obj_put split: if_splits)
  qed (use assms(1) in simp)
next
  case (reg_removed key)
  then show ?thesis
    by (intro coherent_mono [OF assms(1)])
       (auto simp: reg_remove_def Let_def delete_conv' split: if_splits)
qed (use assms(1) in \<open>auto simp: coherent_def reg_clear_def addListener_def removeListener_def reg_get_def\<close>)

interpretation prom: step_system "reg_step run" "coherent run" for run
  by unfold_locales (rule coherent_step)

text \<open>
  C6. Promise coherence. In every state a registry can reach from an empty one by registering,
  removing, clearing, listening and asking for promises, \<open>getAsPromise\<close> never resolves to a
  stale value: what it resolves to is what \<open>get\<close> returns for that key now.
\<close>

theorem registry_promises_coherent:
  assumes "(reg_step run)\<^sup>*\<^sup>* (newRegistry name policy) r"
    and "getAsPromise run key r = Inr (Resolved v, r')"
  shows "reg_get run r key = Inr (Some v)"
proof -
  have "coherent run r"
    by (rule prom.inv_steps [OF assms(1)]) (simp add: coherent_def newRegistry_def)
  then show ?thesis
    using assms(2)
    by (auto simp: getAsPromise_def coherent_def slot_of_def rbind_Inr_iff
        split: slot.splits option.splits if_splits)
qed

text \<open>
  Under the policy that prohibits overwriting, registered items are permanent: whatever
  registrations succeed afterwards, each key keeps its item.
\<close>

lemma registry_prohibit_permanent:
  assumes "overwritePolicy r = Prohibit" and "rfold (\<lambda>p. register (fst p) (snd p)) ps r = Inr r'"
  shows "map_of (items r) \<subseteq>\<^sub>m map_of (items r')"
  using assms
proof (induction ps arbitrary: r)
  case (Cons p ps)
  then obtain r1 where r1: "register (fst p) (snd p) r = Inr r1"
      "rfold (\<lambda>p. register (fst p) (snd p)) ps r1 = Inr r'" by (auto simp: rbind_Inr_iff)
  have "map_of (items r) \<subseteq>\<^sub>m map_of (items r1) \<and> overwritePolicy r1 = Prohibit"
    using r1(1) Cons.prems(1)
    by (cases rule: register_cases) (auto simp: map_le_def map_of_obj_put)
  then show ?case using Cons.IH [OF _ r1(2)] map_le_trans by blast
qed simp

section \<open>Formatter registries\<close>

lemma registerValue_new:
  assumes "\<not> reg_has r key"
  shows "\<exists>r'. registerValue key v r = Inr r' \<and> map_of (items r') key = Some (ItemWithValue v)"
proof -
  have "slot_of (items r) key = Absent" using assms by (simp add: reg_has_def)
  then show ?thesis by (simp add: registerValue_def register_item_def Let_def map_of_obj_put)
qed

lemma formatter_created:
  assumes "\<not> reg_has (base d) key" and "\<not> setFirstItemAsDefault d"
  shows "\<exists>d'. dk_registerValue key f d = Inr d' \<and> map_of (items (base d')) key = Some (ItemWithValue f) \<and>
           defaultKey d' = defaultKey d \<and> reg_has (base d') key"
proof -
  obtain b where "registerValue key f (base d) = Inr b" "map_of (items b) key = Some (ItemWithValue f)"
    using registerValue_new [OF assms(1)] by blast
  then show ?thesis
    using assms(2) by (simp add: dk_registerValue_def default_if_first_def reg_has_def slot_of_def)
qed

lemma num_get_created:
  assumes "\<not> reg_has (base (dk r)) (targetFormat r i)" and "\<not> setFirstItemAsDefault (dk r)"
  obtains r' where
    "num_get create run i r = Inr (Some (create (targetFormat r i) (d3Format r)), r')"
    "targetFormat r' i = targetFormat r i" "reg_has (base (dk r')) (targetFormat r i)"
    "map_of (items (base (dk r'))) (targetFormat r i) = Some (ItemWithValue (create (targetFormat r i) (d3Format r)))"
proof -
  obtain d' where "dk_registerValue (targetFormat r i) (create (targetFormat r i) (d3Format r)) (dk r) = Inr d'"
      "map_of (items (base d')) (targetFormat r i) = Some (ItemWithValue (create (targetFormat r i) (d3Format r)))"
      "defaultKey d' = defaultKey (dk r)" "reg_has (base d') (targetFormat r i)"
    using formatter_created [OF assms] by blast
  with assms(1) show thesis
    by (intro that [of "r\<lparr>dk := d'\<rparr>"]) (simp_all add: num_get_def targetFormat_def Let_def)
qed

text \<open>
  Formatters are made once: when a number formatter registry has returned a formatter for
  an id, asking again for the same id returns the same formatter and changes nothing,
  provided the trimmed key is not empty.
\<close>

lemma num_get_memo:
  assumes "num_get create run i r = Inr (Some f, r')" and "\<not> setFirstItemAsDefault (dk r)"
    and "targetFormat r i \<noteq> []"
  shows "num_get create run i r' = Inr (Some f, r')"
proof (cases "reg_has (base (dk r)) (targetFormat r i)")
  case True
  then have "r' = r" using assms(1) by (auto simp: num_get_def Let_def rbind_Inr_iff)
  then show ?thesis using assms(1) by simp
next
  case False
  obtain r1 where r1: "num_get create run i r = Inr (Some (create (targetFormat r i) (d3Format r)), r1)"
      "targetFormat r1 i = targetFormat r i" "reg_has (base (dk r1)) (targetFormat r i)"
      "map_of (items (base (dk r1))) (targetFormat r i) = Some (ItemWithValue (create (targetFormat r i) (d3Format r)))"
    using num_get_created [OF False assms(2)] by metis
  then show ?thesis
    using assms(1,3) by (simp add: num_get_def dk_get_def reg_get_def slot_of_def Let_def)
qed

text \<open>
  A blank format id works once: the first call creates and registers a formatter under the
  empty key, and every later call fails with a type error, because the lookup of an empty key
  returns \<open>undefined\<close>.
\<close>

lemma num_format_blank_fails:
  assumes "targetFormat r i = []" and "\<not> reg_has (base (dk r)) []" and "\<not> setFirstItemAsDefault (dk r)"
  shows "\<exists>s r'. num_format call create run i x r = Inr (s, r') \<and>
           num_format call create run i x r' = Inl TypeError"
proof -
  obtain r' where "num_get create run i r = Inr (Some (create (targetFormat r i) (d3Format r)), r')"
      "targetFormat r' i = targetFormat r i" "reg_has (base (dk r')) (targetFormat r i)"
    using num_get_created [of r i] assms by metis
  then show ?thesis
    using assms(1) by (auto simp: num_format_def apply_format_def num_get_def dk_get_def Let_def)
qed

section \<open>The least-recently-used cache\<close>

inductive lru_step :: "'v LRUCache \<Rightarrow> 'v LRUCache \<Rightarrow> bool" where
  lru_got: "lru_get key c = Inr (v, c') \<Longrightarrow> lru_step c c'"
| lru_put: "lru_set key v c = Inr c' \<Longrightarrow> lru_step c c'"
| lru_reset: "lru_step c (lru_clear c)"

definition lru_ok :: "'v LRUCache \<Rightarrow> bool" where
  "lru_ok c \<longleftrightarrow> distinct (map fst (cache c)) \<and>
     (\<forall>x. capacity c = Fin x \<longrightarrow> 1 \<le> x \<and> of_nat (lru_size c) < x + 1)"

text \<open>The entries that survive making room.\<close>

definition lru_room :: "'v LRUCache \<Rightarrow> (string, 'v) jmap" where
  "lru_room c = (if num_ge (num_of_nat (lru_size c)) (capacity c) then tl (cache c) else cache c)"

lemma delete_first: "distinct (map fst ((k, v) # al)) \<Longrightarrow> AList.delete k ((k, v) # al) = al"
  by (simp add: delete_id image_iff)

lemma lru_set_eq:
  assumes "distinct (map fst (cache c))"
  shows "lru_set (JStr k) v c = Inr (c\<lparr>cache := AList.update k v (lru_room c)\<rparr>)"
proof (cases "cache c")
  case (Cons e es)
  then show ?thesis
    using assms delete_first [of "fst e" "snd e" es]
    by (cases e) (simp add: lru_set_def lru_room_def lru_size_def Let_def)
qed (simp add: lru_set_def lru_room_def)

lemma length_update: "length (AList.update k v al) \<le> Suc (length al)"
  by (induction al) auto

lemma distinct_lru_room: "distinct (map fst (cache c)) \<Longrightarrow> distinct (map fst (lru_room c))"
  by (cases "cache c") (auto simp: lru_room_def)

lemma lru_ok_set:
  assumes "lru_ok c" and "lru_set key v c = Inr c'"
  shows "lru_ok c'"
proof -
  obtain k where k: "key = JStr k" using assms(2) by (cases key) (auto simp: lru_set_def)
  have d: "distinct (map fst (cache c))" using assms(1) by (simp add: lru_ok_def)
  have c': "c' = c\<lparr>cache := AList.update k v (lru_room c)\<rparr>"
    using assms(2) lru_set_eq [OF d] k by simp
  have "of_nat (lru_size c') < x + 1" if x: "capacity c = Fin x" for x
  proof -
    have b: "1 \<le> x" "of_nat (lru_size c) < x + 1" using assms(1) x by (auto simp: lru_ok_def)
    have "of_nat (length (lru_room c)) < x"
    proof (cases "num_ge (num_of_nat (lru_size c)) (capacity c)")
      case True
      then have "cache c \<noteq> []" using b x by (auto simp: lru_size_def num_ge_def)
      then show ?thesis using True b by (simp add: lru_room_def lru_size_def of_nat_diff)
    next
      case False
      then show ?thesis using x by (simp add: lru_room_def num_ge_def lru_size_def)
    qed
    moreover have "(of_nat (lru_size c') :: rat) \<le> of_nat (Suc (length (lru_room c)))"
      using length_update [of k v "lru_room c"] unfolding c' lru_size_def by (simp flip: of_nat_Suc)
    ultimately show ?thesis by simp
  qed
  then show ?thesis
    using assms(1) distinct_update [OF distinct_lru_room [OF d]] c' by (auto simp: lru_ok_def)
qed

lemma lru_get_eq:
  "lru_get (JStr k) c = Inr (case map_of (cache c) k of
     Some v \<Rightarrow> (Some v, c\<lparr>cache := AList.delete k (cache c) @ [(k, v)]\<rparr>) | None \<Rightarrow> (None, c))"
proof -
  have "AList.update k v (AList.delete k al) = AList.delete k al @ [(k, v)]" for v and al :: "(string \<times> 'a) list"
    by (induction al) auto
  then show ?thesis by (simp add: lru_get_def split: option.split)
qed

lemma lru_get_perm:
  assumes "distinct (map fst (cache c))" and "map_of (cache c) k = Some v"
  shows "length (AList.delete k (cache c) @ [(k, v)]) = length (cache c)"
    and "distinct (map fst (AList.delete k (cache c) @ [(k, v)]))"
proof -
  show d: "distinct (map fst (AList.delete k (cache c) @ [(k, v)]))"
    using distinct_delete [OF assms(1)] by (auto simp: delete_keys)
  have "set (map fst (AList.delete k (cache c) @ [(k, v)])) = set (map fst (cache c))"
    using map_of_SomeD [OF assms(2)] by (force simp: delete_keys)
  then show "length (AList.delete k (cache c) @ [(k, v)]) = length (cache c)"
    using assms(1) d by (metis distinct_card length_map)
qed

lemma lru_ok_replace:
  "lru_ok c \<Longrightarrow> distinct (map fst al) \<Longrightarrow> length al = length (cache c) \<Longrightarrow> lru_ok (c\<lparr>cache := al\<rparr>)"
  by (simp add: lru_ok_def lru_size_def)

lemma lru_ok_step: "lru_step c c' \<Longrightarrow> lru_ok c \<Longrightarrow> lru_ok c'"
proof (induction rule: lru_step.induct)
  case (lru_got key c v c')
  then obtain k where k: "key = JStr k" by (cases key) (auto simp: lru_get_def)
  have d: "distinct (map fst (cache c))" using lru_got by (simp add: lru_ok_def)
  show ?case
  proof (cases "map_of (cache c) k")
    case None
    then show ?thesis using lru_got k by (simp add: lru_get_eq)
  next
    case (Some w)
    then have "c' = c\<lparr>cache := AList.delete k (cache c) @ [(k, w)]\<rparr>" using lru_got k by (simp add: lru_get_eq)
    then show ?thesis
      using lru_ok_replace [OF lru_got(2) lru_get_perm(2,1) [OF d Some]] by simp
  qed
next
  case (lru_put key v c c')
  show ?case using lru_put(2,1) by (rule lru_ok_set)
next
  case (lru_reset c)
  then show ?case by (auto simp: lru_ok_def lru_clear_def lru_size_def)
qed

lemma lru_capacity: "lru_step c c' \<Longrightarrow> capacity c' = capacity c"
  by (cases rule: lru_step.cases) (auto simp: lru_get_def lru_set_def lru_clear_def Let_def split: jsval.splits option.splits)

interpretation lru: step_system lru_step "\<lambda>c. lru_ok c \<and> capacity c = x" for x
  by unfold_locales (auto simp: lru_ok_step lru_capacity)

text \<open>
  C34. Cache bound. Whatever is read, written and cleared, a cache never holds more entries than
  its (finite) capacity rounded up, and never two entries for one key.
\<close>

theorem lru_bounded:
  assumes "newLRUCache (Fin x) = Inr c0" and "lru_step\<^sup>*\<^sup>* c0 c"
  shows "of_nat (lru_size c) < x + 1 \<and> distinct (map fst (cache c))"
proof -
  have "c0 = \<lparr>cache = [], capacity = Fin x\<rparr>" "1 \<le> x"
    using assms(1) by (auto simp: newLRUCache_def split: if_splits)
  then have "lru_ok c0" by (simp add: lru_ok_def lru_size_def)
  have "lru_ok c \<and> capacity c = Fin x"
    by (rule lru.inv_steps [OF assms(2)]) (use \<open>lru_ok c0\<close> \<open>c0 = _\<close> in simp)
  then show ?thesis by (auto simp: lru_ok_def)
qed

text \<open>
  Reading moves an entry to the most recent end, so that it is the last to be evicted; and
  a write is read back, while every other entry survives it except, at capacity, the least
  recently used one.
\<close>

lemma lru_set_get:
  assumes "lru_ok c" and "lru_set (JStr k) v c = Inr c'"
  shows "(\<exists>c''. lru_get (JStr k) c' = Inr (Some v, c'') \<and> last (cache c'') = (k, v)) \<and>
         (\<forall>k'. k' \<noteq> k \<longrightarrow> map_of (cache c') k' =
            (if num_ge (num_of_nat (lru_size c)) (capacity c) \<and> cache c \<noteq> [] \<and> k' = fst (hd (cache c))
             then None else map_of (cache c) k'))"
proof -
  have d: "distinct (map fst (cache c))" using assms(1) by (simp add: lru_ok_def)
  have c': "cache c' = AList.update k v (lru_room c)" using assms(2) lru_set_eq [OF d] by auto
  have "map_of (lru_room c) k' =
      (if num_ge (num_of_nat (lru_size c)) (capacity c) \<and> cache c \<noteq> [] \<and> k' = fst (hd (cache c))
       then None else map_of (cache c) k')" for k'
  proof (cases "cache c")
    case (Cons e es)
    then have "map_of es (fst e) = None" using d by (simp add: map_of_eq_None_iff)
    then show ?thesis using Cons by (cases e) (auto simp: lru_room_def)
  qed (simp add: lru_room_def)
  then show ?thesis by (simp add: lru_get_eq c' update_conv')
qed

text \<open>
  Overwriting evicts: writing a key the cache already holds, when the cache is full, throws
  out the least recently used other entry, and the cache shrinks by one.
\<close>

lemma lru_overwrite_evicts:
  assumes "lru_ok c" and "num_ge (num_of_nat (lru_size c)) (capacity c)"
    and "cache c = (old, w) # es" and "k \<in> fst ` set es"
  shows "\<exists>c'. lru_set (JStr k) v c = Inr c' \<and> \<not> lru_has c' old \<and> lru_size c' = lru_size c - 1"
proof -
  have d: "distinct (map fst (cache c))" using assms(1) by (simp add: lru_ok_def)
  have "k \<noteq> old" "map_of es old = None" using d assms(3,4) by (auto simp: map_of_eq_None_iff)
  moreover have "length (AList.update k v es) = length es"
    using assms(4) update_keys [of k v es] by (metis length_map list.set_map)
  ultimately show ?thesis
    using lru_set_eq [OF d, of k v] assms(2,3)
    by (simp add: lru_room_def lru_has_def lru_size_def update_conv')
qed

section \<open>Witnesses\<close>

definition reg1 :: "(nat, nat, nat) registry" where
  "reg1 = newRegistry None (Some Prohibit)"

theorem registry_promises_coherent_witness:
  "\<exists>r. (reg_step (\<lambda>l. Inr (Some l)))\<^sup>*\<^sup>* reg1 r \<and> reg_get (\<lambda>l. Inr (Some l)) r ''a'' = Inr (Some 1)"
proof -
  have "\<not> isl (register ''a'' (ItemWithValue 1) reg1)" by code_simp
  then obtain r where r: "register ''a'' (ItemWithValue 1) reg1 = Inr r" using res_Inr by blast
  then have s: "(reg_step (\<lambda>l. Inr (Some l)))\<^sup>*\<^sup>* reg1 r" by (intro r_into_rtranclp reg_register)
  have "map_sum id fst (rbind (register ''a'' (ItemWithValue 1) reg1)
      (getAsPromise (\<lambda>l. Inr (Some l)) ''a'')) = Inr (Resolved 1)" by code_simp
  then obtain r' where "getAsPromise (\<lambda>l. Inr (Some l)) ''a'' r = Inr (Resolved 1, r')"
    using r by (cases "getAsPromise (\<lambda>l. Inr (Some l)) ''a'' r") auto
  from registry_promises_coherent [OF s [unfolded reg1_def] this] s show ?thesis by blast
qed

text \<open>A fresh number formatter registry whose formatters are their own format strings.\<close>

definition nums :: "(string, unit, unit) formatter_registry" where
  "nums = \<lparr>dk = newRegistryWithDefaultKey None (Some Warn) (Some SMART_NUMBER) False,
           d3Format = DEFAULT_D3_FORMAT\<rparr>"

lemma nums_first: "\<not> setFirstItemAsDefault (dk nums)" by code_simp

lemma nums_new: "\<not> reg_has (base (dk nums)) (targetFormat nums (Some '' ''))"
  "\<not> reg_has (base (dk nums)) (targetFormat nums (Some '',d''))" by code_simp+

definition lru2 :: "nat LRUCache" where
  "lru2 = \<lparr>cache = [(''a'', 1), (''b'', 2)], capacity = num_of_int 2\<rparr>"

lemma lru2_ok: "lru_ok lru2" "num_ge (num_of_nat (lru_size lru2)) (capacity lru2)"
  by (simp_all add: lru_ok_def lru2_def lru_size_def num_ge_def)

theorem lru_bounded_witness:
  "\<exists>c0 :: nat LRUCache. newLRUCache (Fin 2) = Inr c0 \<and> (of_nat (lru_size c0) :: rat) < 2 + 1"
proof -
  have "newLRUCache (Fin 2) = Inr (\<lparr>cache = [], capacity = Fin 2\<rparr> :: nat LRUCache)"
    by (simp add: newLRUCache_def)
  with lru_bounded [OF this] show ?thesis by blast
qed

end
