(* ===== verification/FilterScoping.thy ===== *)
theory FilterScoping
  imports JsVal
begin

text \<open>
  Which charts a dashboard filter reaches, after \<open>src/dashboard/util\<close>: layer keys,
  \<open>getChartIdsInFilterScope\<close>, \<open>getAllActiveFilters\<close>, \<open>getCrossFiltersConfiguration\<close>,
  \<open>getRelatedCharts\<close>, and two layout functions, \<open>findParentId\<close> (with its module-level cache
  as explicit state) and \<open>isValidChild\<close>. Layout items, scopes and charts are records with the
  fields these functions read; an optional field is an \<open>option\<close>. The chart metadata registry
  is the argument \<open>behaviors_of\<close>.
\<close>

section \<open>Layer keys\<close>

text \<open>\<open>/^chart-(\d+)-layer-(\d+)$/\<close> and \<open>/^chart-(\d+)$/\<close>.\<close>

definition LAYER_KEY_REGEX :: "string \<Rightarrow> (string \<times> string) option" where
  "LAYER_KEY_REGEX s =
     (if prefix ''chart-'' s then
        (let (a, r) = span_digits (drop 6 s)
         in if a \<noteq> [] \<and> prefix ''-layer-'' r then
              (let (b, e) = span_digits (drop 7 r)
               in if b \<noteq> [] \<and> e = [] then Some (a, b) else None)
            else None)
      else None)"

definition CHART_KEY_REGEX :: "string \<Rightarrow> string option" where
  "CHART_KEY_REGEX s =
     (if prefix ''chart-'' s then
        (let (a, e) = span_digits (drop 6 s) in if a \<noteq> [] \<and> e = [] then Some a else None)
      else None)"

text \<open>\<open>parseInt\<close> of a matched group of digits.\<close>

definition digits_int :: "string \<Rightarrow> int" where
  "digits_int ds = int (nat_of_digits ds)"

section \<open>Charts in the scope of a filter\<close>

record NativeFilterScope =
  rootPath :: "string list"
  excluded :: "int list"
  selectedLayers :: "string list option"

record LayoutItem =
  li_id :: string
  li_type :: string
  li_chartId :: "int option"
  li_parents :: "string list option"
  li_children :: "string list"

definition in_root_path :: "string list \<Rightarrow> LayoutItem list \<Rightarrow> int \<Rightarrow> bool" where
  "in_root_path rpath layoutItems chartId =
     (case find (\<lambda>item. li_type item = ''CHART'' \<and> li_chartId item = Some chartId) layoutItems of
        None \<Rightarrow> False
      | Some item \<Rightarrow>
          (case li_parents item of
             None \<Rightarrow> False
           | Some ps \<Rightarrow> list_ex (\<lambda>elementId. elementId \<in> set rpath) ps))"

definition add_layer_chart :: "int list \<Rightarrow> string \<Rightarrow> int list \<Rightarrow> int list" where
  "add_layer_chart chartIds selectionKey target =
     (case LAYER_KEY_REGEX selectionKey of
        None \<Rightarrow> target
      | Some (c, _) \<Rightarrow>
          (let chartId = digits_int c
           in if chartId \<in> set chartIds \<and> chartId \<notin> set target then target @ [chartId] else target))"

definition layer_charts :: "string list \<Rightarrow> int list" where
  "layer_charts layers = List.map_filter (\<lambda>k. map_option (\<lambda>m. digits_int (fst m)) (LAYER_KEY_REGEX k)) layers"

definition getChartIdsInFilterScope ::
  "NativeFilterScope \<Rightarrow> int list \<Rightarrow> LayoutItem list \<Rightarrow> int list" where
  "getChartIdsInFilterScope scope chartIds layoutItems =
     (let regular = (\<lambda>chartId. chartId \<notin> set (excluded scope) \<and>
            in_root_path (rootPath scope) layoutItems chartId)
      in case selectedLayers scope of
           Some (l # ls) \<Rightarrow>
             (let layers = l # ls;
                  targetChartIds = fold (add_layer_chart chartIds) layers [];
                  regularChartIds =
                    filter (\<lambda>c. c \<notin> set (layer_charts layers) \<and> regular c) chartIds
              in fold (\<lambda>c t. if c \<in> set t then t else t @ [c]) regularChartIds targetChartIds)
         | _ \<Rightarrow> filter regular chartIds)"

section \<open>Active filters\<close>

record ScopeConfig =
  sc_selectedLayers :: "string list option"
  sc_excluded :: "int list option"

record PartialFilter =
  pf_chartsInScope :: "int list option"
  pf_filterType :: "string option"
  pf_targets :: "jsval list option"
  pf_scope :: "ScopeConfig option"

record DataMaskWithId =
  dm_id :: string
  dm_extraFormData :: "jsval obj option"

record ActiveFilter =
  af_scope :: "int list"
  af_targets :: "jsval list"
  af_values :: "jsval obj"
  af_filterType :: "string option"
  af_layerScope :: "(string, int list) jmap option"

definition getRelevantDataMask :: "(string \<times> jsval) list \<Rightarrow> string \<Rightarrow> jsval obj" where
  "getRelevantDataMask dataMask prp =
     from_entries (map (\<lambda>item. (to_str (oprop item ''id''), oprop item prp))
       (filter (\<lambda>item. truthy (oprop item prp)) (map snd dataMask)))"

record LayerInfo =
  layerMap :: "(string, int list) jmap"
  layerChartIds :: "int list"

definition add_layer_key :: "string \<Rightarrow> LayerInfo \<Rightarrow> LayerInfo" where
  "add_layer_key layerKey info =
     (case LAYER_KEY_REGEX layerKey of
        None \<Rightarrow> info
      | Some (c, l) \<Rightarrow>
          (let chartId = digits_int c; key = show_int chartId;
               layers = (case map_of (layerMap info) key of None \<Rightarrow> [] | Some ls \<Rightarrow> ls)
           in info\<lparr>layerMap := obj_put key (layers @ [digits_int l]) (layerMap info),
                   layerChartIds := (if chartId \<in> set (layerChartIds info) then layerChartIds info
                                     else layerChartIds info @ [chartId])\<rparr>))"

definition extractLayerIndicesFromKeys :: "string list \<Rightarrow> LayerInfo" where
  "extractLayerIndicesFromKeys layers = fold add_layer_key layers \<lparr>layerMap = [], layerChartIds = []\<rparr>"

definition filter_layers :: "PartialFilter obj \<Rightarrow> string \<Rightarrow> string list" where
  "filter_layers nativeFilters filterId =
     (case map_of nativeFilters filterId of
        None \<Rightarrow> []
      | Some f \<Rightarrow> (case pf_scope f of
                    None \<Rightarrow> []
                  | Some s \<Rightarrow> (case sc_selectedLayers s of None \<Rightarrow> [] | Some ls \<Rightarrow> ls)))"

definition filter_excluded :: "PartialFilter obj \<Rightarrow> string \<Rightarrow> int list" where
  "filter_excluded nativeFilters filterId =
     (case map_of nativeFilters filterId of
        None \<Rightarrow> []
      | Some f \<Rightarrow> (case pf_scope f of
                    None \<Rightarrow> []
                  | Some s \<Rightarrow> (case sc_excluded s of None \<Rightarrow> [] | Some es \<Rightarrow> es)))"

definition base_scope ::
  "PartialFilter obj \<Rightarrow> int list obj \<Rightarrow> int list \<Rightarrow> string \<Rightarrow> int list" where
  "base_scope nativeFilters crossScopes allSliceIds filterId =
     (case Option.bind (map_of nativeFilters filterId) pf_chartsInScope of
        Some s \<Rightarrow> s
      | None \<Rightarrow>
          (case map_of crossScopes (num_to_string (parseInt10 filterId)) of
             Some s \<Rightarrow> s
           | None \<Rightarrow> allSliceIds))"

text \<open>The layers and exclusions of the last filter that selects layers.\<close>

definition master_layers ::
  "PartialFilter obj \<Rightarrow> DataMaskWithId list \<Rightarrow> string list \<times> int list" where
  "master_layers nativeFilters masks =
     fold (\<lambda>m acc. if filter_layers nativeFilters (dm_id m) \<noteq> []
             then (filter_layers nativeFilters (dm_id m), filter_excluded nativeFilters (dm_id m))
             else acc) masks ([], [])"

definition layered_scope :: "string list \<Rightarrow> int list \<Rightarrow> int list \<Rightarrow> int list" where
  "layered_scope layers excl scope =
     fold (\<lambda>chartId t.
         if chartId \<in> set excl then t
         else if list_ex (\<lambda>key. prefix (''chart-'' @ show_int chartId @ ''-layer-'') key) layers then t
         else if chartId \<in> set t then t else t @ [chartId])
       scope (layerChartIds (extractLayerIndicesFromKeys layers))"

definition active_filter ::
  "PartialFilter obj \<Rightarrow> int list obj \<Rightarrow> int list \<Rightarrow> DataMaskWithId list \<Rightarrow> DataMaskWithId \<Rightarrow> ActiveFilter" where
  "active_filter nativeFilters crossScopes allSliceIds masks m =
     (let filterId = dm_id m;
          scope = base_scope nativeFilters crossScopes allSliceIds filterId;
          hasLayerSelectionsInAnyFilter = list_ex (\<lambda>d. filter_layers nativeFilters (dm_id d) \<noteq> []) masks;
          own = filter_layers nativeFilters filterId;
          useMaster = hasLayerSelectionsInAnyFilter \<and> own = [];
          layers = (if useMaster then fst (master_layers nativeFilters masks) else own);
          excl = (if useMaster then snd (master_layers nativeFilters masks)
                  else filter_excluded nativeFilters filterId)
      in \<lparr>af_scope = (if layers \<noteq> [] then layered_scope layers excl scope
                      else filter (\<lambda>c. c \<notin> set excl) scope),
          af_targets = (case Option.bind (map_of nativeFilters filterId) pf_targets of
                          None \<Rightarrow> [] | Some ts \<Rightarrow> ts),
          af_values = (case dm_extraFormData m of None \<Rightarrow> [] | Some e \<Rightarrow> e),
          af_filterType = Option.bind (map_of nativeFilters filterId) pf_filterType,
          af_layerScope = (if layers \<noteq> [] then Some (layerMap (extractLayerIndicesFromKeys layers)) else None)\<rparr>)"

definition getAllActiveFilters ::
  "PartialFilter obj \<Rightarrow> int list obj \<Rightarrow> int list \<Rightarrow> DataMaskWithId obj \<Rightarrow> ActiveFilter obj" where
  "getAllActiveFilters nativeFilters crossScopes allSliceIds dataMask =
     (let masks = map snd dataMask
      in fold (\<lambda>m. obj_put (dm_id m) (active_filter nativeFilters crossScopes allSliceIds masks m)) masks [])"

section \<open>Cross filters\<close>

datatype cross_scope = GlobalScope | CustomScope NativeFilterScope

record ChartCrossFilters =
  cc_id :: int
  cc_scope :: cross_scope
  cc_chartsInScope :: "int list"

record ChartPayload =
  ch_id :: int
  ch_viz_type :: "string option"

definition isCrossFiltersEnabled :: "bool option \<Rightarrow> bool" where
  "isCrossFiltersEnabled enabled = (case enabled of None \<Rightarrow> True | Some b \<Rightarrow> b)"

definition DEFAULT_CROSS_FILTER_SCOPING :: NativeFilterScope where
  "DEFAULT_CROSS_FILTER_SCOPING = \<lparr>rootPath = [''ROOT_ID''], excluded = [], selectedLayers = None\<rparr>"

definition global_configuration ::
  "NativeFilterScope option \<Rightarrow> int list \<Rightarrow> LayoutItem list \<Rightarrow> NativeFilterScope \<times> int list" where
  "global_configuration globalScope chartIds chartLayoutItems =
     (case globalScope of
        Some scope \<Rightarrow> (scope, getChartIdsInFilterScope scope chartIds chartLayoutItems)
      | None \<Rightarrow> (DEFAULT_CROSS_FILTER_SCOPING, chartIds))"

definition chart_configuration_of ::
  "ChartCrossFilters obj \<Rightarrow> int list \<Rightarrow> int list \<Rightarrow> LayoutItem list \<Rightarrow> int \<Rightarrow> ChartCrossFilters" where
  "chart_configuration_of saved globalCharts chartIds chartLayoutItems chartId =
     (let cfg = (case map_of saved (show_int chartId) of
                   Some c \<Rightarrow> c
                 | None \<Rightarrow> \<lparr>cc_id = chartId, cc_scope = GlobalScope, cc_chartsInScope = []\<rparr>)
      in cfg\<lparr>cc_chartsInScope :=
           (case cc_scope cfg of
              GlobalScope \<Rightarrow> filter (\<lambda>i. i \<noteq> chartId) globalCharts
            | CustomScope scope \<Rightarrow> getChartIdsInFilterScope scope chartIds chartLayoutItems)\<rparr>)"

definition getCrossFiltersConfiguration ::
  "(string option \<Rightarrow> string list) \<Rightarrow> LayoutItem obj \<Rightarrow> ChartCrossFilters obj \<Rightarrow> NativeFilterScope option \<Rightarrow>
   ChartPayload obj \<Rightarrow> ChartCrossFilters obj \<times> (NativeFilterScope \<times> int list)" where
  "getCrossFiltersConfiguration behaviors_of dashboardLayout saved globalScope charts =
     (let chartLayoutItems = filter (\<lambda>item. li_type item = ''CHART'') (map snd dashboardLayout);
          chartIds = map (\<lambda>c. ch_id (snd c)) charts;
          global = global_configuration globalScope chartIds chartLayoutItems
      in (fold (\<lambda>item cfg.
             case li_chartId item of
               None \<Rightarrow> cfg
             | Some chartId \<Rightarrow>
                 (if ''INTERACTIVE_CHART'' \<in> set (behaviors_of
                       (Option.bind (map_of charts (show_int chartId)) ch_viz_type))
                  then obj_put (show_int chartId)
                    (chart_configuration_of saved (snd global) chartIds chartLayoutItems chartId) cfg
                  else cfg))
           chartLayoutItems [], global))"

section \<open>Related charts\<close>

record Slice =
  slice_id :: jsnum

record RelatedFilter =
  rf_scope :: "jsnum list option"
  rf_chartsInScope :: "jsnum list option"
  rf_filterType :: "string option"
  rf_has_values :: bool
  rf_type :: "string option"

definition isAppliedCrossFilterType :: "RelatedFilter \<Rightarrow> bool" where
  "isAppliedCrossFilterType f \<longleftrightarrow> rf_filterType f = None \<and> rf_has_values f"

definition isAppliedNativeFilterType :: "RelatedFilter \<Rightarrow> bool" where
  "isAppliedNativeFilterType f \<longleftrightarrow> rf_filterType f = Some ''filter_select'' \<and> rf_has_values f"

definition isNativeFilter :: "RelatedFilter \<Rightarrow> bool" where
  "isNativeFilter f \<longleftrightarrow> rf_type f = Some ''NATIVE_FILTER''"

definition isGlobalScope :: "jsnum list \<Rightarrow> Slice obj \<Rightarrow> bool" where
  "isGlobalScope scope slices \<longleftrightarrow> length scope = length slices"

definition getRelatedChartsForSelectFilter :: "Slice obj \<Rightarrow> jsnum list \<Rightarrow> jsnum list" where
  "getRelatedChartsForSelectFilter slices chartsInScope =
     (if isGlobalScope chartsInScope slices then map (\<lambda>s. str_number (fst s)) slices
      else filter (\<lambda>i. i \<in> set chartsInScope) (map (\<lambda>s. slice_id (snd s)) slices))"

definition num_strict_eq :: "jsnum \<Rightarrow> jsnum \<Rightarrow> bool" where
  "num_strict_eq a b \<longleftrightarrow> a = b \<and> a \<noteq> NaN"

definition getRelatedChartsForCrossFilter :: "string \<Rightarrow> Slice obj \<Rightarrow> jsnum list \<Rightarrow> jsnum list" where
  "getRelatedChartsForCrossFilter filterKey slices scope =
     (if map_of slices filterKey = None then []
      else
        let fullScope = filter (\<lambda>s. num_to_string s \<noteq> filterKey) scope @ [str_number filterKey]
        in filter (\<lambda>i. \<not> num_strict_eq i (str_number filterKey) \<and>
                       (isGlobalScope fullScope slices \<or> i \<in> set scope))
             (map (\<lambda>s. slice_id (snd s)) slices))"

definition getRelatedCharts :: "string \<Rightarrow> RelatedFilter \<Rightarrow> Slice obj \<Rightarrow> jsnum list" where
  "getRelatedCharts filterKey flt slices =
     (let isCrossFilter = filterKey \<in> set (map fst slices) \<and> isAppliedCrossFilterType flt;
          chartsInScope = (case rf_scope flt of
                             Some s \<Rightarrow> s
                           | None \<Rightarrow> (case rf_chartsInScope flt of None \<Rightarrow> [] | Some s \<Rightarrow> s));
          related = (if isCrossFilter then getRelatedChartsForCrossFilter filterKey slices chartsInScope else [])
      in if \<not> isCrossFilter \<or> isAppliedNativeFilterType flt \<or> isNativeFilter flt
         then getRelatedChartsForSelectFilter slices chartsInScope else related)"

section \<open>Layout\<close>

type_synonym layout = "LayoutItem obj"

definition findParentId :: "string \<Rightarrow> layout \<Rightarrow> string option" where
  "findParentId childId layout =
     map_option fst (find (\<lambda>(i, component). i \<noteq> childId \<and> childId \<in> set (li_children component)) layout)"

type_synonym parent_cache = "string option obj"

definition findParentIdWithCache ::
  "string \<Rightarrow> layout \<Rightarrow> parent_cache \<Rightarrow> string option \<times> parent_cache" where
  "findParentIdWithCache childId layout cache =
     (let miss = (let parentId = findParentId childId layout in (parentId, obj_put childId parentId cache))
      in case map_of cache childId of
           Some (Some cachedValue) \<Rightarrow>
             (if cachedValue = [] then miss
              else case map_of layout cachedValue of
                     Some lastParent \<Rightarrow>
                       if childId \<in> set (li_children lastParent) then (Some (li_id lastParent), cache) else miss
                   | None \<Rightarrow> miss)
         | _ \<Rightarrow> miss)"

definition parentMaxDepthLookup :: "int obj obj" where
  "parentMaxDepthLookup =
     [(''ROOT'', [(''TABS'', 0), (''GRID'', 0)]),
      (''GRID'', [(''CHART'', 1), (''DYNAMIC'', 1), (''MARKDOWN'', 1), (''COLUMN'', 1), (''DIVIDER'', 1),
         (''HEADER'', 1), (''ROW'', 1), (''TABS'', 1)]),
      (''ROW'', [(''CHART'', 4), (''DYNAMIC'', 4), (''MARKDOWN'', 4), (''COLUMN'', 4)]),
      (''TABS'', [(''TAB'', 3)]),
      (''TAB'', [(''CHART'', 5), (''DYNAMIC'', 5), (''MARKDOWN'', 5), (''COLUMN'', 3), (''DIVIDER'', 5),
         (''HEADER'', 5), (''ROW'', 3), (''TABS'', 3)]),
      (''COLUMN'', [(''CHART'', 5), (''HEADER'', 5), (''MARKDOWN'', 5), (''ROW'', 3), (''DIVIDER'', 3),
         (''TABS'', 3)]),
      (''CHART'', []), (''DYNAMIC'', []), (''DIVIDER'', []), (''HEADER'', []), (''MARKDOWN'', [])]"

definition isValidChild :: "string option \<Rightarrow> string option \<Rightarrow> jsnum option \<Rightarrow> bool" where
  "isValidChild parentType childType parentDepth =
     (case (parentType, childType, parentDepth) of
        (Some p, Some c, Some (Fin d)) \<Rightarrow>
          p \<noteq> [] \<and> c \<noteq> [] \<and>
          (case Option.bind (map_of parentMaxDepthLookup p) (\<lambda>row. map_of row c) of
             None \<Rightarrow> False | Some mx \<Rightarrow> d \<le> of_int mx)
      | (Some p, Some c, Some NegInf) \<Rightarrow>
          Option.bind (map_of parentMaxDepthLookup p) (\<lambda>row. map_of row c) \<noteq> None
      | _ \<Rightarrow> False)"

section \<open>Layer keys\<close>

lemma span_digits_app:
  "list_all is_digit a \<Longrightarrow> (r = [] \<or> \<not> is_digit (hd r)) \<Longrightarrow> span_digits (a @ r) = (a, r)"
  by (cases r) (auto simp: span_digits_def list_all_iff takeWhile_append2 dropWhile_append2)

lemma span_digitsD: "span_digits s = (a, r) \<Longrightarrow> s = a @ r \<and> list_all is_digit a"
  by (auto simp: span_digits_def list_all_iff dest: set_takeWhileD)

lemma LAYER_KEY_REGEX_iff:
  "LAYER_KEY_REGEX s = Some (a, b) \<longleftrightarrow>
     s = ''chart-'' @ a @ ''-layer-'' @ b \<and> a \<noteq> [] \<and> b \<noteq> [] \<and> list_all is_digit a \<and> list_all is_digit b"
proof
  assume m: "LAYER_KEY_REGEX s = Some (a, b)"
  then obtain r where r: "prefix ''chart-'' s" "span_digits (drop 6 s) = (a, r)" "a \<noteq> []" "prefix ''-layer-'' r"
      "span_digits (drop 7 r) = (b, [])" "b \<noteq> []"
    by (auto simp: LAYER_KEY_REGEX_def Let_def split: if_splits prod.splits)
  then have "s = ''chart-'' @ drop 6 s" "r = ''-layer-'' @ drop 7 r"
    by (auto elim!: prefixE)
  then show "s = ''chart-'' @ a @ ''-layer-'' @ b \<and> a \<noteq> [] \<and> b \<noteq> [] \<and> list_all is_digit a \<and> list_all is_digit b"
    using span_digitsD [OF r(2)] span_digitsD [OF r(5)] r(3,6) by auto
next
  assume s: "s = ''chart-'' @ a @ ''-layer-'' @ b \<and> a \<noteq> [] \<and> b \<noteq> [] \<and> list_all is_digit a \<and> list_all is_digit b"
  have "\<not> is_digit (CHR ''-'')" by code_simp
  then have "span_digits (a @ ''-layer-'' @ b) = (a, ''-layer-'' @ b)" "span_digits b = (b, [])"
    using s span_digits_app [of a "''-layer-'' @ b"] span_digits_app [of b "[]"] by auto
  then show "LAYER_KEY_REGEX s = Some (a, b)"
    using s by (simp add: LAYER_KEY_REGEX_def)
qed

lemma CHART_KEY_REGEX_show: "CHART_KEY_REGEX (''chart-'' @ show_nat n) = Some (show_nat n)"
proof -
  have "span_digits (show_nat n) = (show_nat n, [])" "show_nat n \<noteq> []"
    using span_digits_app [of "show_nat n" "[]"] show_nat_digits [of n] by (simp, subst show_nat.simps, simp)
  then show ?thesis by (simp add: CHART_KEY_REGEX_def)
qed

section \<open>Charts in scope\<close>

lemma fold_append_new:
  "set (fold (\<lambda>c t. if c \<in> set t then t else t @ [c]) xs t) = set t \<union> set xs"
  "distinct t \<Longrightarrow> distinct (fold (\<lambda>c t. if c \<in> set t then t else t @ [c]) xs t)"
  by (induction xs arbitrary: t) auto

lemma layer_charts_Cons:
  "layer_charts (k # ks) =
     (case LAYER_KEY_REGEX k of None \<Rightarrow> layer_charts ks | Some m \<Rightarrow> digits_int (fst m) # layer_charts ks)"
  by (simp add: layer_charts_def List.map_filter_simps split: option.split)

lemma layer_charts_Nil [simp]: "layer_charts [] = []"
  by (simp add: layer_charts_def List.map_filter_simps)

lemma fold_add_layer_chart:
  "set (fold (add_layer_chart ids) ks t) = set t \<union> (set (layer_charts ks) \<inter> set ids)"
  by (induction ks arbitrary: t)
     (auto simp: add_layer_chart_def layer_charts_Cons Let_def split: option.split)

lemma distinct_add_layer_chart:
  "distinct t \<Longrightarrow> distinct (fold (add_layer_chart ids) ks t)"
proof (induction ks arbitrary: t)
  case (Cons k ks)
  have "distinct (add_layer_chart ids k t)"
    using Cons.prems by (auto simp: add_layer_chart_def Let_def split: option.split)
  then show ?case using Cons.IH by simp
qed simp

definition layers_of :: "NativeFilterScope \<Rightarrow> string list" where
  "layers_of s = (case selectedLayers s of None \<Rightarrow> [] | Some ls \<Rightarrow> ls)"

text \<open>
  Filter scope. The charts in the scope of a filter are exactly the dashboard's charts of
  which some layer is selected, together with those that are not excluded and lie under the
  root path; and no chart is listed twice when the dashboard lists none twice.
\<close>

lemma getChartIdsInFilterScope_iff:
  "set (getChartIdsInFilterScope s ids items) =
     {c \<in> set ids. c \<in> set (layer_charts (layers_of s)) \<or>
        c \<notin> set (excluded s) \<and> in_root_path (rootPath s) items c} \<and>
   (distinct ids \<longrightarrow> distinct (getChartIdsInFilterScope s ids items))"
proof (cases "layers_of s")
  case Nil
  then have "getChartIdsInFilterScope s ids items =
      filter (\<lambda>c. c \<notin> set (excluded s) \<and> in_root_path (rootPath s) items c) ids"
    by (auto simp: getChartIdsInFilterScope_def layers_of_def Let_def split: option.splits list.splits)
  then show ?thesis using Nil by auto
next
  case (Cons l ls)
  then have "getChartIdsInFilterScope s ids items =
      fold (\<lambda>c t. if c \<in> set t then t else t @ [c])
        (filter (\<lambda>c. c \<notin> set (layer_charts (l # ls)) \<and> c \<notin> set (excluded s) \<and>
           in_root_path (rootPath s) items c) ids)
        (fold (add_layer_chart ids) (l # ls) [])"
    by (simp add: getChartIdsInFilterScope_def layers_of_def Let_def split: option.splits)
  then show ?thesis
    using Cons fold_append_new(2) [OF distinct_add_layer_chart [of "[]"]]
    by (auto simp: fold_append_new(1) fold_add_layer_chart simp del: fold.simps)
qed

section \<open>Parents\<close>

text \<open>A layout in which every item knows its key and has at most one parent, not itself.\<close>

definition tree_layout :: "layout \<Rightarrow> bool" where
  "tree_layout lay \<longleftrightarrow>
     distinct (map fst lay) \<and> list_all (\<lambda>(k, c). li_id c = k \<and> k \<notin> set (li_children c)) lay \<and>
     (\<forall>(i, c) \<in> set lay. \<forall>(j, d) \<in> set lay. set (li_children c) \<inter> set (li_children d) \<noteq> {} \<longrightarrow> i = j)"

lemma findParentId_unique:
  assumes "tree_layout lay" and "(p, c) \<in> set lay" and "childId \<in> set (li_children c)"
  shows "findParentId childId lay = Some p"
proof -
  have ne: "p \<noteq> childId" using assms by (auto simp: tree_layout_def list_all_iff)
  have "find (\<lambda>(i, c). i \<noteq> childId \<and> childId \<in> set (li_children c)) lay \<noteq> None"
    using assms(2,3) ne by (auto simp: find_None_iff)
  then obtain j d where f: "find (\<lambda>(i, c). i \<noteq> childId \<and> childId \<in> set (li_children c)) lay = Some (j, d)"
    by auto
  then have "(j, d) \<in> set lay" "childId \<in> set (li_children d)"
    using find_SomeD [OF f] by auto
  with assms(2,3) have "set (li_children d) \<inter> set (li_children c) \<noteq> {}" "(j, d) \<in> set lay" by auto
  then have "j = p" using assms(1,2) unfolding tree_layout_def by blast
  then show ?thesis using f by (simp add: findParentId_def)
qed

text \<open>
  The cached parent lookup is the plain one: on every layout that is a tree, whatever
  earlier calls (on whatever layouts) left in the cache, the cached function returns the
  parent the plain search finds.
\<close>

lemma findParentIdWithCache_eq:
  assumes "tree_layout lay"
  shows "fst (findParentIdWithCache childId lay cache) = findParentId childId lay"
proof -
  have "li_id c = p" if "map_of lay p = Some c" for p c
    using assms map_of_SomeD [OF that] by (auto simp: tree_layout_def list_all_iff)
  moreover have "findParentId childId lay = Some p"
    if "map_of lay p = Some c" "childId \<in> set (li_children c)" for p c
    using findParentId_unique [OF assms map_of_SomeD [OF that(1)] that(2)] .
  ultimately show ?thesis
    by (auto simp: findParentIdWithCache_def Let_def split: option.splits)
qed

text \<open>
  A child that may be put into a parent may be put into a parent of the same type at any
  smaller depth; nothing nests in charts, dividers, headers, markdown and dynamic components;
  and the deepest documented nesting is allowed.
\<close>

lemma isValidChild_depth:
  "(isValidChild (Some p) (Some c) (Some (Fin d)) \<and> d' \<le> d \<longrightarrow> isValidChild (Some p) (Some c) (Some (Fin d'))) \<and>
   (p \<in> {''CHART'', ''DYNAMIC'', ''DIVIDER'', ''HEADER'', ''MARKDOWN''} \<longrightarrow> \<not> isValidChild (Some p) (Some c) depth) \<and>
   (\<forall>(p, c, d) \<in> {(''ROOT'', ''GRID'', 0), (''GRID'', ''ROW'', 1), (''ROW'', ''COLUMN'', 2), (''COLUMN'', ''ROW'', 3),
       (''ROW'', ''CHART'', 4)}. isValidChild (Some p) (Some c) (Some (Fin d)))"
proof (intro conjI)
  show "isValidChild (Some p) (Some c) (Some (Fin d)) \<and> d' \<le> d \<longrightarrow> isValidChild (Some p) (Some c) (Some (Fin d'))"
    by (auto simp: isValidChild_def split: option.splits)
  show "p \<in> {''CHART'', ''DYNAMIC'', ''DIVIDER'', ''HEADER'', ''MARKDOWN''} \<longrightarrow> \<not> isValidChild (Some p) (Some c) depth"
    by (auto simp: isValidChild_def parentMaxDepthLookup_def split: option.splits jsnum.splits)
  show "\<forall>(p, c, d) \<in> {(''ROOT'', ''GRID'', 0), (''GRID'', ''ROW'', 1), (''ROW'', ''COLUMN'', 2), (''COLUMN'', ''ROW'', 3),
       (''ROW'', ''CHART'', 4)}. isValidChild (Some p) (Some c) (Some (Fin d))"
    by (simp add: isValidChild_def parentMaxDepthLookup_def)
qed

section \<open>Cross filters\<close>

lemma fold_put_same:
  assumes "\<And>x y. x \<in> set xs \<Longrightarrow> y \<in> set xs \<Longrightarrow> key x = key y \<Longrightarrow> val x = val y"
    and "x \<in> set xs"
  shows "map_of (fold (\<lambda>x. obj_put (key x) (val x)) xs ob) (key x) = Some (val x)"
  using assms
proof (induction xs arbitrary: ob rule: rev_induct)
  case (snoc z zs)
  show ?case
  proof (cases "key x = key z")
    case True
    then have "val x = val z" using snoc.prems(1) [of x z] snoc.prems(2) by simp
    then show ?thesis using True by (simp add: map_of_obj_put)
  next
    case False
    then have "x \<in> set zs" using snoc.prems(2) by auto
    then have "map_of (fold (\<lambda>x. obj_put (key x) (val x)) zs ob) (key x) = Some (val x)"
      using snoc.prems(1) by (intro snoc.IH) simp_all
    then show ?thesis using False by (simp add: map_of_obj_put)
  qed
qed simp

text \<open>
  Cross-filter configuration. Every interactive chart of the layout has an entry; with
  the global scope it reaches the globally scoped charts other than itself.
\<close>

lemma getCrossFiltersConfiguration_global:
  assumes "(k, item) \<in> set lay" and "li_type item = ''CHART''" and "li_chartId item = Some c"
    and "''INTERACTIVE_CHART'' \<in> set (behaviors_of (Option.bind (map_of charts (show_int c)) ch_viz_type))"
    and "map_of saved (show_int c) = None"
    and "getCrossFiltersConfiguration behaviors_of lay saved globalScope charts = (cfg, gscope, gcharts)"
  shows "map_of cfg (show_int c) =
     Some \<lparr>cc_id = c, cc_scope = GlobalScope, cc_chartsInScope = filter (\<lambda>i. i \<noteq> c) gcharts\<rparr>"
proof -
  let ?items = "filter (\<lambda>item. li_type item = ''CHART'') (map snd lay)"
  let ?ids = "map (\<lambda>c. ch_id (snd c)) charts"
  let ?sel = "\<lambda>item. case li_chartId item of None \<Rightarrow> False
     | Some c \<Rightarrow> ''INTERACTIVE_CHART'' \<in> set (behaviors_of (Option.bind (map_of charts (show_int c)) ch_viz_type))"
  let ?val = "\<lambda>item. chart_configuration_of saved gcharts ?ids ?items (the (li_chartId item))"
  have fold: "fold (\<lambda>item cfg. case li_chartId item of None \<Rightarrow> cfg
       | Some chartId \<Rightarrow> (if ''INTERACTIVE_CHART'' \<in> set (behaviors_of
            (Option.bind (map_of charts (show_int chartId)) ch_viz_type))
          then obj_put (show_int chartId) (chart_configuration_of saved gcharts ?ids ?items chartId) cfg
          else cfg)) its ob =
      fold (\<lambda>item. obj_put (show_int (the (li_chartId item))) (?val item)) (filter ?sel its) ob" for its ob
    by (induction its arbitrary: ob) (auto split: option.split)
  have cfg: "cfg = fold (\<lambda>item. obj_put (show_int (the (li_chartId item))) (?val item)) (filter ?sel ?items) []"
  proof -
    have "global_configuration globalScope ?ids ?items = (gscope, gcharts)"
      using assms(6) by (simp add: getCrossFiltersConfiguration_def Let_def)
    then show ?thesis
      using assms(6) unfolding getCrossFiltersConfiguration_def Let_def by (simp only: fold prod.inject snd_conv)
  qed
  have "item \<in> set (filter ?sel ?items)" using assms(1-4) by force
  from fold_put_same [OF _ this, where key = "\<lambda>item. show_int (the (li_chartId item))" and val = ?val]
  have "map_of cfg (show_int c) = Some (?val item)" using assms(3) cfg by fastforce
  then show ?thesis using assms(3,5) by (simp add: chart_configuration_of_def)
qed

text \<open>
  A cross filter is related to charts of the dashboard only, and never to the chart that
  emits it.
\<close>

lemma getRelatedCharts_cross:
  assumes "filterKey \<in> set (map fst slices)" and "isAppliedCrossFilterType flt" and "\<not> isNativeFilter flt"
    and "i \<in> set (getRelatedCharts filterKey flt slices)"
  shows "i \<in> slice_id ` snd ` set slices \<and> \<not> num_strict_eq i (str_number filterKey)"
  using assms
  by (auto simp: getRelatedCharts_def isAppliedCrossFilterType_def isAppliedNativeFilterType_def
      getRelatedChartsForCrossFilter_def Let_def split: if_splits)

section \<open>Active filters\<close>

text \<open>The layers and exclusions in force for a filter: its own, or those of the last filter with layers.\<close>

definition effective_layers :: "PartialFilter obj \<Rightarrow> DataMaskWithId list \<Rightarrow> string \<Rightarrow> string list \<times> int list" where
  "effective_layers nf masks i =
     (if filter_layers nf i = [] \<and> list_ex (\<lambda>d. filter_layers nf (dm_id d) \<noteq> []) masks
      then master_layers nf masks else (filter_layers nf i, filter_excluded nf i))"

lemma layerChartIds_fold:
  "set (layerChartIds (fold add_layer_key ks info)) = set (layerChartIds info) \<union> set (layer_charts ks)"
  by (induction ks arbitrary: info)
     (auto simp: add_layer_key_def layer_charts_Cons Let_def split: option.split)

lemma set_layered_scope:
  "set (layered_scope layers excl scope) = set (layer_charts layers) \<union>
     {c \<in> set scope. c \<notin> set excl \<and>
        \<not> list_ex (\<lambda>key. prefix (''chart-'' @ show_int c @ ''-layer-'') key) layers}"
proof -
  have "set (fold (\<lambda>c t. if c \<in> set excl then t else if P c then t else if c \<in> set t then t else t @ [c]) scope t) =
      set t \<union> {c \<in> set scope. c \<notin> set excl \<and> \<not> P c}" for t and P :: "int \<Rightarrow> bool"
    by (induction scope arbitrary: t) auto
  then show ?thesis
    using layerChartIds_fold [of layers "\<lparr>layerMap = [], layerChartIds = []\<rparr>"]
    by (simp add: layered_scope_def extractLayerIndicesFromKeys_def)
qed

text \<open>
  Active filters. Each filter with a data mask is active on exactly the charts its layer
  keys name and the charts of its configured scope that are not excluded and have no layer
  selected; without layer keys these are the scope's charts that are not excluded.
\<close>

lemma getAllActiveFilters_scope:
  assumes "distinct (map (\<lambda>m. dm_id (snd m)) dataMask)" and "(k, m) \<in> set dataMask"
    and "effective_layers nf (map snd dataMask) (dm_id m) = (layers, excl)"
  shows "\<exists>af. map_of (getAllActiveFilters nf cs allIds dataMask) (dm_id m) = Some af \<and>
     set (af_scope af) = (if layers = [] then {} else set (layer_charts layers)) \<union>
       {c \<in> set (base_scope nf cs allIds (dm_id m)). c \<notin> set excl \<and>
          \<not> list_ex (\<lambda>key. prefix (''chart-'' @ show_int c @ ''-layer-'') key) layers}"
proof -
  let ?masks = "map snd dataMask"
  have inj: "x = y" if "x \<in> set ?masks" "y \<in> set ?masks" "dm_id x = dm_id y" for x y
    using assms(1) that by (auto simp: distinct_map inj_on_def)
  have m: "m \<in> set ?masks" using assms(2) by force
  then have "map_of (getAllActiveFilters nf cs allIds dataMask) (dm_id m) =
      Some (active_filter nf cs allIds ?masks m)"
    unfolding getAllActiveFilters_def Let_def
    by (intro fold_put_same) (use inj in blast)+
  moreover have "af_scope (active_filter nf cs allIds ?masks m) =
      (if layers \<noteq> [] then layered_scope layers excl (base_scope nf cs allIds (dm_id m))
       else filter (\<lambda>c. c \<notin> set excl) (base_scope nf cs allIds (dm_id m)))"
    using assms(3) unfolding active_filter_def effective_layers_def Let_def
    by (auto split: if_splits)
  ultimately show ?thesis by (auto simp: set_layered_scope)
qed

section \<open>Witnesses\<close>

definition tab_scope :: NativeFilterScope where
  "tab_scope = \<lparr>rootPath = [''TAB-1''], excluded = [2], selectedLayers = Some [''chart-7-layer-0'']\<rparr>"

definition chart_item :: "int \<Rightarrow> LayoutItem" where
  "chart_item i = \<lparr>li_id = ''CHART-'' @ show_int i, li_type = ''CHART'', li_chartId = Some i,
     li_parents = Some [''TAB-1''], li_children = []\<rparr>"

definition lay1 :: layout where
  "lay1 = [(''CHART-1'', chart_item 1),
     (''ROW-1'', \<lparr>li_id = ''ROW-1'', li_type = ''ROW'', li_chartId = None, li_parents = None, li_children = [''CHART-1'']\<rparr>)]"

definition masks1 :: "DataMaskWithId obj" where
  "masks1 = [(''NATIVE_FILTER-a'', \<lparr>dm_id = ''NATIVE_FILTER-a'', dm_extraFormData = None\<rparr>)]"

definition filters1 :: "PartialFilter obj" where
  "filters1 = [(''NATIVE_FILTER-a'', \<lparr>pf_chartsInScope = Some [1, 2], pf_filterType = None, pf_targets = None,
     pf_scope = Some \<lparr>sc_selectedLayers = None, sc_excluded = Some [2]\<rparr>\<rparr>)]"

end
