(* ===== verification/NativeFilters.thy ===== *)
theory NativeFilters
  imports QueryBuild FilterScoping
begin

text \<open>
  The state of a dashboard's native filters: merging the extra form data of several filters
  (\<open>nativeFilters/utils.ts\<close>) and the helpers of the configuration modal
  (\<open>FiltersConfigModal/utils.ts\<close>). Filters, masks and form data are plain objects; \<open>nanoid\<close>,
  \<open>JSON.stringify\<close>, the translation function and the bootstrap data are arguments.
\<close>

section \<open>Merging extra form data\<close>

text \<open>\<open>isIterable\<close>: strings and arrays are, plain objects are not.\<close>

fun isIterable :: "jsval \<Rightarrow> bool" where
  "isIterable (JArr _) = True"
| "isIterable (JStr _) = True"
| "isIterable _ = False"

fun spread :: "jsval \<Rightarrow> jsval list" where
  "spread (JArr xs) = xs"
| "spread (JStr s) = map (\<lambda>c. JStr [c]) s"
| "spread _ = []"

definition merge_append :: "jsval obj \<Rightarrow> jsval obj \<Rightarrow> string \<Rightarrow> jsval obj \<Rightarrow> jsval obj" where
  "merge_append originalExtra newExtra key merged =
     (let a = oprop (JObj originalExtra) key; b = oprop (JObj newExtra) key;
          mergedValues = (if isIterable a then spread a else []) @ (if isIterable b then spread b else [])
      in if mergedValues \<noteq> [] then obj_put key (JArr mergedValues) merged else merged)"

definition merge_override :: "jsval obj \<Rightarrow> jsval obj \<Rightarrow> string \<Rightarrow> jsval obj \<Rightarrow> jsval obj" where
  "merge_override originalExtra newExtra key merged =
     (let originalValue = oprop (JObj originalExtra) key; newValue = oprop (JObj newExtra) key;
          m1 = (if originalValue \<noteq> JUndef then obj_put key originalValue merged else merged)
      in if newValue \<noteq> JUndef then obj_put key newValue m1 else m1)"

definition mergeExtraFormData :: "jsval obj \<Rightarrow> jsval obj \<Rightarrow> jsval obj" where
  "mergeExtraFormData originalExtra newExtra =
     fold (merge_override originalExtra newExtra) EXTRA_FORM_DATA_OVERRIDE_KEYS
       (fold (merge_append originalExtra newExtra) EXTRA_FORM_DATA_APPEND_KEYS [])"

text \<open>\<open>dataMask[key]?.extraFormData ?? {}\<close>\<close>

definition mask_form_data :: "jsval obj \<Rightarrow> string \<Rightarrow> jsval obj" where
  "mask_form_data dataMask key =
     own_props (js_coalesce (oprop (oprop (JObj dataMask) key) ''extraFormData'') (JObj []))"

definition getExtraFormData :: "jsval obj \<Rightarrow> string list \<Rightarrow> jsval obj" where
  "getExtraFormData dataMask filterIdsAppliedOnChart =
     fold (\<lambda>key acc. mergeExtraFormData acc (mask_form_data dataMask key)) filterIdsAppliedOnChart []"

definition aggregateFiltersForTarget :: "jsval obj \<Rightarrow> string list \<Rightarrow> jsval obj" where
  "aggregateFiltersForTarget dataMask filterIds =
     fold (\<lambda>key acc. let d = oprop (oprop (JObj dataMask) key) ''extraFormData''
             in if truthy d then mergeExtraFormData acc (own_props d) else acc) filterIds []"

definition getLayerSpecificExtraFormData :: "jsval obj \<Rightarrow> string list \<Rightarrow> int \<Rightarrow> string option \<Rightarrow> jsval obj" where
  "getLayerSpecificExtraFormData dataMask filterIds chartId layerId =
     (let e = aggregateFiltersForTarget dataMask filterIds
      in case layerId of
           None \<Rightarrow> e
         | Some l \<Rightarrow>
             if l = [] then e
             else
               let d = oprop (oprop (JObj dataMask) (show_int chartId @ ''-'' @ l)) ''extraFormData''
               in if truthy d then mergeExtraFormData e (own_props d) else e)"

definition nativeFilterGate :: "string list \<Rightarrow> bool" where
  "nativeFilterGate behaviors \<longleftrightarrow>
     ''NATIVE_FILTER'' \<notin> set behaviors \<or> ''INTERACTIVE_CHART'' \<in> set behaviors"

definition findTabsWithChartsInScope :: "LayoutItem list \<Rightarrow> int list \<Rightarrow> string list" where
  "findTabsWithChartsInScope chartLayoutItems chartsInScope =
     nub (concat (map (\<lambda>chartId.
       case find (\<lambda>item. li_chartId item = Some chartId) chartLayoutItems of
         None \<Rightarrow> []
       | Some item \<Rightarrow> (case li_parents item of
            None \<Rightarrow> []
          | Some ps \<Rightarrow> filter (prefix ''TAB-'') ps)) chartsInScope))"

definition getFilterValueForDisplay :: "(jsval \<Rightarrow> string) \<Rightarrow> (string \<Rightarrow> string) \<Rightarrow> jsval \<Rightarrow> string" where
  "getFilterValueForDisplay json_stringify t v =
     (case v of
        JUndef \<Rightarrow> []
      | JNull \<Rightarrow> []
      | JStr s \<Rightarrow> s
      | JNum n \<Rightarrow> num_to_string n
      | JArr xs \<Rightarrow> str_join '', '' (map (\<lambda>x. if nullish x then [] else to_str x) xs)
      | JObj _ \<Rightarrow> json_stringify v
      | JBool _ \<Rightarrow> t ''Unknown value'')"

section \<open>Filter targets\<close>

datatype FilterTarget = CHART string | LAYER string string

definition parseFilterTarget :: "string \<Rightarrow> FilterTarget option" where
  "parseFilterTarget scopeKey =
     (case LAYER_KEY_REGEX scopeKey of
        Some (c, l) \<Rightarrow> Some (LAYER c l)
      | None \<Rightarrow> (case CHART_KEY_REGEX scopeKey of Some c \<Rightarrow> Some (CHART c) | None \<Rightarrow> None))"

text \<open>The targets of a filter; keys that do not parse are reported on the console and dropped.\<close>

definition getFilterScope :: "string \<Rightarrow> string list obj \<Rightarrow> FilterTarget list" where
  "getFilterScope filterId filterScopes =
     List.map_filter parseFilterTarget
       (case map_of filterScopes filterId of None \<Rightarrow> [] | Some ks \<Rightarrow> ks)"

fun createTargetKey :: "FilterTarget \<Rightarrow> string" where
  "createTargetKey (LAYER c l) = c @ ''-'' @ l"
| "createTargetKey (CHART c) = c"

record grouped =
  chartFilters :: "(string, jsval obj) jmap"
  layerFilters :: "(string, jsval obj) jmap"

definition merge_at :: "string \<Rightarrow> jsval obj \<Rightarrow> (string, jsval obj) jmap \<Rightarrow> (string, jsval obj) jmap" where
  "merge_at key d m =
     AList.update key (mergeExtraFormData (case map_of m key of None \<Rightarrow> [] | Some e \<Rightarrow> e) d) m"

fun add_target :: "jsval obj \<Rightarrow> FilterTarget \<Rightarrow> grouped \<Rightarrow> grouped" where
  "add_target d (CHART c) g = g\<lparr>chartFilters := merge_at (createTargetKey (CHART c)) d (chartFilters g)\<rparr>"
| "add_target d (LAYER c l) g = g\<lparr>layerFilters := merge_at (createTargetKey (LAYER c l)) d (layerFilters g)\<rparr>"

text \<open>\<open>dataMask[filterId]?.extraFormData || {}\<close>\<close>

definition mask_form_data_or :: "jsval obj \<Rightarrow> string \<Rightarrow> jsval obj" where
  "mask_form_data_or dataMask key =
     own_props (js_or (oprop (oprop (JObj dataMask) key) ''extraFormData'') (JObj []))"

definition groupFiltersByTarget :: "jsval obj \<Rightarrow> string list obj \<Rightarrow> grouped" where
  "groupFiltersByTarget dataMask filterScopes =
     fold (\<lambda>filterId g. fold (add_target (mask_form_data_or dataMask filterId)) (getFilterScope filterId filterScopes) g)
       (map fst dataMask) \<lparr>chartFilters = [], layerFilters = []\<rparr>"

record ScopedFilter =
  sf_id :: string
  sf_chartsInScope :: "int list option"

definition buildFilterScopesFromFilters :: "ScopedFilter obj \<Rightarrow> string list obj" where
  "buildFilterScopesFromFilters filters =
     fold (\<lambda>(_, f) scopes.
         case sf_chartsInScope f of
           None \<Rightarrow> scopes
         | Some ids \<Rightarrow> obj_put (sf_id f) (map (\<lambda>chartId. ''chart-'' @ show_int chartId) ids) scopes)
       filters []"

text \<open>\<open>getFormData\<close>: the row limit of the bootstrap data and the url parameters are arguments.\<close>

definition getDefaultRowLimit :: "jsval \<Rightarrow> jsval" where
  "getDefaultRowLimit bootstrapData =
     js_or (oprop (oprop (oprop bootstrapData ''common'') ''conf'') ''NATIVE_FILTER_DEFAULT_ROW_LIMIT'') (JInt 1000)"

definition getFormData :: "jsval \<Rightarrow> jsval \<Rightarrow> jsval obj \<Rightarrow> jsval obj" where
  "getFormData bootstrapData urlParams args =
     (let p = oprop (JObj args);
          o1 = (if truthy (p ''datasetId'') then [(''datasource'', JStr (to_str (p ''datasetId'') @ ''__table''))] else []);
          o2 = (if truthy (p ''groupby'') then obj_put ''groupby'' (JArr [p ''groupby'']) o1 else o1);
          otherProps = (if truthy (p ''sortMetric'') then obj_put ''sortMetric'' (p ''sortMetric'') o2 else o2)
      in obj_assign (obj_assign (obj_assign [] (own_props (p ''controlValues''))) otherProps)
           [(''adhoc_filters'', js_coalesce (p ''adhoc_filters'') (JArr [])), (''extra_filters'', JArr []),
            (''extra_form_data'', js_default (p ''dependencies'') (JObj [])),
            (''granularity_sqla'', p ''granularity_sqla''), (''metrics'', JArr [JStr ''count'']),
            (''row_limit'', getDefaultRowLimit bootstrapData), (''showSearch'', JBool True),
            (''defaultValue'', oprop (oprop (p ''defaultDataMask'') ''filterState'') ''value''),
            (''time_range'', p ''time_range''), (''url_params'', urlParams), (''inView'', JBool True),
            (''viz_type'', p ''filterType''), (''type'', p ''type''), (''dashboardId'', p ''dashboardId''),
            (''native_filter_id'', p ''id'')])"

section \<open>Filter configuration\<close>

text \<open>
  A chain of dependencies can only be as long as the map has keys, because a repeated filter
  ends it.
\<close>

function (sequential) hasCircularDependency :: "(string, string list) jmap \<Rightarrow> string \<Rightarrow> string list \<Rightarrow> bool" where
  "hasCircularDependency dependencyMap filterId trace =
     (if filterId \<in> set trace then True
      else case map_of dependencyMap filterId of
             None \<Rightarrow> False
           | Some dependencies \<Rightarrow>
               list_ex (\<lambda>dependency. hasCircularDependency dependencyMap dependency (trace @ [filterId]))
                 dependencies)"
  by pat_completeness auto
termination
proof (relation "measure (\<lambda>(m, _, trace). card (set (map fst m) - set trace))")
  fix m :: "(string, string list) jmap" and f d :: string and trace deps :: "string list"
  assume "f \<notin> set trace" and "map_of m f = Some deps"
  then have "f \<in> set (map fst m) - set trace" by (metis DiffI map_of_eq_None_iff not_Some_eq set_map)
  then have "set (map fst m) - set (trace @ [f]) \<subset> set (map fst m) - set trace" by auto
  then have "card (set (map fst m) - set (trace @ [f])) < card (set (map fst m) - set trace)"
    by (intro psubset_card_mono) auto
  then show "((m, d, trace @ [f]), (m, f, trace)) \<in> measure (\<lambda>(m, _, trace). card (set (map fst m) - set trace))"
    by simp
qed simp

declare hasCircularDependency.simps [simp del]

definition getInitialDataMask :: "jsval \<Rightarrow> jsval obj \<Rightarrow> jsval obj" where
  "getInitialDataMask i moreProps =
     obj_assign ((if i \<noteq> JUndef then [(''id'', i)] else []) @
       [(''extraFormData'', JObj []), (''filterState'', JObj []), (''ownState'', JObj [])]) moreProps"

definition transform_target :: "jsval \<Rightarrow> jsval" where
  "transform_target formInputs =
     (let dataset = oprop formInputs ''dataset''; column = oprop formInputs ''column''
      in JObj ((if truthy dataset then [(''datasetId'', oprop dataset ''value'')] else []) @
               (if truthy dataset \<and> truthy column then [(''column'', JObj [(''name'', column)])] else [])))"

definition transformFilter :: "jsval obj \<Rightarrow> jsval obj \<Rightarrow> string \<Rightarrow> jsval res" where
  "transformFilter values filterConfigMap i =
     (let formInputs = js_or (oprop (oprop (JObj values) ''filters'') i) (oprop (JObj filterConfigMap) i);
          p = oprop formInputs
      in if \<not> truthy formInputs then Inr JUndef
         else if p ''type'' = JStr ''DIVIDER'' then
           Inr (JObj [(''id'', JStr i), (''type'', JStr ''DIVIDER''),
             (''scope'', JObj [(''rootPath'', JArr [JStr ''ROOT_ID'']), (''excluded'', JArr [])]),
             (''title'', p ''title''), (''description'', p ''description'')])
         else
           (case js_or (p ''description'') (JStr []) of
              JStr description \<Rightarrow>
                Inr (JObj [(''id'', JStr i), (''adhoc_filters'', p ''adhoc_filters''),
                  (''time_range'', p ''time_range''),
                  (''controlValues'', js_coalesce (p ''controlValues'') (JObj [])),
                  (''granularity_sqla'', p ''granularity_sqla''),
                  (''requiredFirst'',
                     (case find truthy (map snd (own_props (js_coalesce (p ''requiredFirst'') (JObj [])))) of
                        None \<Rightarrow> JUndef | Some rf \<Rightarrow> rf)),
                  (''name'', p ''name''), (''filterType'', p ''filterType''),
                  (''targets'', JArr [transform_target formInputs]),
                  (''defaultDataMask'',
                     js_coalesce (p ''defaultDataMask'') (JObj (getInitialDataMask JUndef []))),
                  (''cascadeParentIds'', js_or (p ''dependencies'') (JArr [])),
                  (''scope'', p ''scope''), (''sortMetric'', p ''sortMetric''), (''type'', p ''type''),
                  (''description'', JStr (str_trim description))])
            | _ \<Rightarrow> Inl TypeError))"

text \<open>The changes \<open>createHandleSave\<close> passes to \<open>saveForm\<close>.\<close>

definition createHandleSave :: "jsval obj \<Rightarrow> string list \<Rightarrow> jsval obj \<Rightarrow> jsval obj \<Rightarrow> jsval obj res" where
  "createHandleSave filterChanges modified values filterConfigMap =
     rbind (rmap (transformFilter values filterConfigMap) modified) (\<lambda>transformed.
       Inr (obj_assign (obj_assign [] filterChanges) [(''modified'', JArr (filter truthy transformed))]))"

text \<open>
  Removing a filter in the configuration modal: marked as pending with a timer first, removed
  for good when the timer fires.
\<close>

datatype FilterRemoval = Pending nat | Removed

record removal_state =
  removedFilters :: "FilterRemoval obj"
  orderedFilters :: "string list"
  saveAlertVisible :: bool
  removedCalls :: "string list"

definition handleRemoveItem :: "nat \<Rightarrow> string \<Rightarrow> removal_state \<Rightarrow> removal_state" where
  "handleRemoveItem timerId filterId s =
     s\<lparr>removedFilters := obj_put filterId (Pending timerId) (removedFilters s),
       removedCalls := removedCalls s @ [filterId], saveAlertVisible := False\<rparr>"

definition completeFilterRemoval :: "string \<Rightarrow> removal_state \<Rightarrow> removal_state" where
  "completeFilterRemoval filterId s =
     s\<lparr>removedFilters := obj_put filterId Removed (removedFilters s),
       orderedFilters := filter (\<lambda>f. f \<noteq> filterId) (orderedFilters s)\<rparr>"

definition NATIVE_FILTER_PREFIX :: string where
  "NATIVE_FILTER_PREFIX = ''NATIVE_FILTER-''"

definition NATIVE_FILTER_DIVIDER_PREFIX :: string where
  "NATIVE_FILTER_DIVIDER_PREFIX = ''NATIVE_FILTER_DIVIDER-''"

datatype NativeFilterType = NativeFilter | Divider

definition generateFilterId :: "string \<Rightarrow> NativeFilterType \<Rightarrow> string" where
  "generateFilterId nanoid ty =
     (if ty = NativeFilter then NATIVE_FILTER_PREFIX else NATIVE_FILTER_DIVIDER_PREFIX) @ nanoid"

definition getFilterIds :: "jsval obj list \<Rightarrow> jsval list" where
  "getFilterIds config = map (\<lambda>f. oprop (JObj f) ''id'') config"

section \<open>Circular dependencies\<close>

definition depends :: "(string, string list) jmap \<Rightarrow> (string \<times> string) set" where
  "depends m = {(a, b). \<exists>ds. map_of m a = Some ds \<and> b \<in> set ds}"

lemma hasCircularDependency_trace:
  "hasCircularDependency m f trace \<longleftrightarrow>
     (\<exists>t \<in> set trace. (f, t) \<in> (depends m)\<^sup>*) \<or> (\<exists>g. (f, g) \<in> (depends m)\<^sup>* \<and> (g, g) \<in> (depends m)\<^sup>+)"
proof (induction m f trace rule: hasCircularDependency.induct)
  case (1 m f trace)
  let ?E = "depends m"
  have succ: "(f, d) \<in> ?E \<longleftrightarrow> (\<exists>ds. map_of m f = Some ds \<and> d \<in> set ds)" for d
    by (simp add: depends_def)
  show ?case
  proof (cases "f \<in> set trace")
    case True
    then show ?thesis by (subst hasCircularDependency.simps) auto
  next
    case False
    have reach: "(f, t) \<in> ?E\<^sup>* \<longleftrightarrow> f = t \<or> (\<exists>d. (f, d) \<in> ?E \<and> (d, t) \<in> ?E\<^sup>*)" for t
      by (metis converse_rtranclE converse_rtrancl_into_rtrancl rtrancl.rtrancl_refl)
    have loop: "(f, f) \<in> ?E\<^sup>+ \<longleftrightarrow> (\<exists>d. (f, d) \<in> ?E \<and> (d, f) \<in> ?E\<^sup>*)"
      by (metis rtrancl_into_trancl2 tranclD)
    have ih: "hasCircularDependency m d (trace @ [f]) \<longleftrightarrow>
        (\<exists>t \<in> set trace. (d, t) \<in> ?E\<^sup>*) \<or> (d, f) \<in> ?E\<^sup>* \<or> (\<exists>g. (d, g) \<in> ?E\<^sup>* \<and> (g, g) \<in> ?E\<^sup>+)"
      if d: "(f, d) \<in> ?E" for d
    proof -
      obtain ds where "map_of m f = Some ds" "d \<in> set ds" using d succ by blast
      then show ?thesis using 1 [OF False, of ds d] by auto
    qed
    have "hasCircularDependency m f trace \<longleftrightarrow>
        (\<exists>d. (f, d) \<in> ?E \<and> hasCircularDependency m d (trace @ [f]))"
      using False by (subst hasCircularDependency.simps) (auto simp: succ list_ex_iff split: option.split)
    also have "\<dots> \<longleftrightarrow> (\<exists>d. (f, d) \<in> ?E \<and>
        ((\<exists>t \<in> set trace. (d, t) \<in> ?E\<^sup>*) \<or> (d, f) \<in> ?E\<^sup>* \<or> (\<exists>g. (d, g) \<in> ?E\<^sup>* \<and> (g, g) \<in> ?E\<^sup>+)))"
      by (intro ex_cong1 conj_cong refl ih)
    also have "\<dots> \<longleftrightarrow> (\<exists>t \<in> set trace. (f, t) \<in> ?E\<^sup>*) \<or> (\<exists>g. (f, g) \<in> ?E\<^sup>* \<and> (g, g) \<in> ?E\<^sup>+)"
      using False loop unfolding reach by blast
    finally show ?thesis .
  qed
qed

text \<open>
  C33. Cycle detection is exact: the check of a filter answers yes precisely when following
  dependencies from that filter can reach a filter that depends on itself, directly or
  through others.
\<close>

theorem hasCircularDependency_iff:
  "hasCircularDependency m f [] \<longleftrightarrow> (\<exists>g. (f, g) \<in> (depends m)\<^sup>* \<and> (g, g) \<in> (depends m)\<^sup>+)"
  using hasCircularDependency_trace [of m f "[]"] by simp

section \<open>Merged extra form data\<close>

definition appended :: "jsval obj \<Rightarrow> string \<Rightarrow> jsval list" where
  "appended e k = (if isIterable (oprop (JObj e) k) then spread (oprop (JObj e) k) else [])"

definition arr_or_undef :: "jsval list \<Rightarrow> jsval" where
  "arr_or_undef vs = (if vs = [] then JUndef else JArr vs)"

lemma merge_append_fold:
  "k \<in> set ks \<Longrightarrow> oprop (JObj m) k = JUndef \<Longrightarrow>
     oprop (JObj (fold (merge_append a b) ks m)) k = arr_or_undef (appended a k @ appended b k)"
  and merge_append_fold_other:
  "k \<notin> set ks \<Longrightarrow> oprop (JObj (fold (merge_append a b) ks m)) k = oprop (JObj m) k"
proof -
  have step: "oprop (JObj (merge_append a b x m)) k =
      (if x = k \<and> appended a x @ appended b x \<noteq> [] then JArr (appended a x @ appended b x) else oprop (JObj m) k)"
    for x k m by (auto simp: merge_append_def appended_def Let_def)
  show other: "k \<notin> set ks \<Longrightarrow> oprop (JObj (fold (merge_append a b) ks m)) k = oprop (JObj m) k"
    for ks m by (induction ks arbitrary: m) (auto simp: step)
  have stable: "oprop (JObj m) k = arr_or_undef (appended a k @ appended b k) \<Longrightarrow>
      oprop (JObj (fold (merge_append a b) ks m)) k = arr_or_undef (appended a k @ appended b k)" for ks m
    by (induction ks arbitrary: m) (auto simp: step arr_or_undef_def split: if_splits)
  show "k \<in> set ks \<Longrightarrow> oprop (JObj m) k = JUndef \<Longrightarrow>
     oprop (JObj (fold (merge_append a b) ks m)) k = arr_or_undef (appended a k @ appended b k)"
  proof (induction ks arbitrary: m)
    case (Cons x ks)
    show ?case
    proof (cases "x = k")
      case True
      then have "oprop (JObj (merge_append a b x m)) k = arr_or_undef (appended a k @ appended b k)"
        using Cons.prems by (simp add: step arr_or_undef_def)
      then show ?thesis using stable by simp
    next
      case False
      then have "oprop (JObj (merge_append a b x m)) k = JUndef" using Cons.prems by (simp add: step)
      then show ?thesis using False Cons.prems by (simp add: Cons.IH)
    qed
  qed simp
qed

lemma merge_override_fold:
  "oprop (JObj (fold (merge_override a b) ks m)) k =
     (if k \<in> set ks then js_default (oprop (JObj b) k) (js_default (oprop (JObj a) k) (oprop (JObj m) k))
      else oprop (JObj m) k)"
  by (induction ks arbitrary: m) (auto simp: merge_override_def js_default_def Let_def)

lemma append_override_keys:
  "set EXTRA_FORM_DATA_APPEND_KEYS \<inter> set EXTRA_FORM_DATA_OVERRIDE_KEYS = {}"
  by code_simp

lemma mergeExtraFormData_key:
  "oprop (JObj (mergeExtraFormData a b)) k =
     (if k \<in> set EXTRA_FORM_DATA_OVERRIDE_KEYS then js_default (oprop (JObj b) k) (oprop (JObj a) k)
      else if k \<in> set EXTRA_FORM_DATA_APPEND_KEYS then arr_or_undef (appended a k @ appended b k)
      else JUndef)"
proof (cases "k \<in> set EXTRA_FORM_DATA_OVERRIDE_KEYS")
  case True
  then have "k \<notin> set EXTRA_FORM_DATA_APPEND_KEYS" using append_override_keys by blast
  then show ?thesis
    using True by (simp add: mergeExtraFormData_def merge_override_fold merge_append_fold_other js_default_def)
next
  case False
  then show ?thesis
    by (simp add: mergeExtraFormData_def merge_override_fold merge_append_fold merge_append_fold_other)
qed

lemma appended_arr: "oprop (JObj e) k = arr_or_undef vs \<Longrightarrow> appended e k = vs"
  by (simp add: appended_def arr_or_undef_def split: if_splits)

lemma appended_merge:
  "k \<in> set EXTRA_FORM_DATA_APPEND_KEYS \<Longrightarrow> appended (mergeExtraFormData a b) k = appended a k @ appended b k"
  using append_override_keys by (intro appended_arr) (auto simp: mergeExtraFormData_key)

lemma appended_fold:
  "k \<in> set EXTRA_FORM_DATA_APPEND_KEYS \<Longrightarrow>
     appended (fold (\<lambda>i acc. mergeExtraFormData acc (d i)) ids e) k =
     appended e k @ concat (map (\<lambda>i. appended (d i) k) ids)"
  by (induction ids arbitrary: e) (simp_all add: appended_merge)

lemma override_fold:
  "k \<in> set EXTRA_FORM_DATA_OVERRIDE_KEYS \<Longrightarrow>
     oprop (JObj (fold (\<lambda>i acc. mergeExtraFormData acc (d i)) ids e)) k =
     fold (\<lambda>i v. js_default (oprop (JObj (d i)) k) v) ids (oprop (JObj e) k)"
  by (induction ids arbitrary: e) (simp_all add: mergeExtraFormData_key)

lemma merged_fold_nonempty:
  "ids \<noteq> [] \<Longrightarrow> k \<in> set EXTRA_FORM_DATA_APPEND_KEYS \<Longrightarrow>
     oprop (JObj (fold (\<lambda>i acc. mergeExtraFormData acc (d i)) ids e)) k =
     arr_or_undef (appended e k @ concat (map (\<lambda>i. appended (d i) k) ids))"
proof (induction ids rule: rev_induct)
  case (snoc i ids)
  then show ?case
    using append_override_keys by (auto simp: mergeExtraFormData_key appended_fold)
qed simp

text \<open>
  The filters applied on a chart. In the merged form data every list field holds the
  entries of all applied filters, in the order of the filters, none dropped and none
  repeated; every override field holds the value of the last filter that defines it.
\<close>

lemma getExtraFormData_merged:
  assumes "ids \<noteq> []"
  shows "(k \<in> set EXTRA_FORM_DATA_APPEND_KEYS \<longrightarrow>
           oprop (JObj (getExtraFormData dataMask ids)) k =
             arr_or_undef (concat (map (\<lambda>i. appended (mask_form_data dataMask i) k) ids))) \<and>
         (k \<in> set EXTRA_FORM_DATA_OVERRIDE_KEYS \<longrightarrow>
           oprop (JObj (getExtraFormData dataMask ids)) k =
             fold (\<lambda>i v. js_default (oprop (JObj (mask_form_data dataMask i)) k) v) ids JUndef)"
  using merged_fold_nonempty [OF assms, where k = k and e = "[]" and d = "mask_form_data dataMask"]
    override_fold [where k = k and e = "[]" and ids = ids and d = "mask_form_data dataMask"]
  unfolding getExtraFormData_def by (simp add: appended_def [of "[]"])

text \<open>
  Custom form data is lost: \<open>custom_form_data\<close> is merged like a list, and an object is not
  iterable, so merging drops it from both sides.
\<close>

lemma mergeExtraFormData_custom:
  "oprop (JObj (mergeExtraFormData [(''custom_form_data'', JObj a)] [(''custom_form_data'', JObj b)]))
     ''custom_form_data'' = JUndef"
  by (simp add: mergeExtraFormData_key appended_def arr_or_undef_def EXTRA_FORM_DATA_OVERRIDE_KEYS_def
      EXTRA_FORM_DATA_OVERRIDE_REGULAR_KEYS_def EXTRA_FORM_DATA_OVERRIDE_REGULAR_MAPPINGS_def
      EXTRA_FORM_DATA_OVERRIDE_EXTRA_KEYS_def)

section \<open>Filters grouped by target\<close>

lemma parseFilterTarget_chart: "parseFilterTarget (''chart-'' @ show_nat n) = Some (CHART (show_nat n))"
proof -
  have "CHR ''-'' \<notin> set (show_nat n)"
    using show_nat_digits [of n] by (auto simp: list_all_iff is_digit_def)
  then have "LAYER_KEY_REGEX (''chart-'' @ show_nat n) = None"
    by (cases "LAYER_KEY_REGEX (''chart-'' @ show_nat n)") (auto simp: LAYER_KEY_REGEX_iff)
  then show ?thesis by (simp only: parseFilterTarget_def CHART_KEY_REGEX_show option.case)
qed

text \<open>The scopes \<open>buildFilterScopesFromFilters\<close> writes for charts \<open>sc\<close> of each filter.\<close>

definition chart_scopes :: "string list obj \<Rightarrow> (string \<Rightarrow> nat list) \<Rightarrow> bool" where
  "chart_scopes scopes sc \<longleftrightarrow>
     (\<forall>i. map_of scopes i = Some (map (\<lambda>c. ''chart-'' @ show_nat c) (sc i)) \<or> map_of scopes i = None \<and> sc i = [])"

lemma getFilterScope_charts:
  assumes "chart_scopes scopes sc"
  shows "getFilterScope i scopes = map (\<lambda>c. CHART (show_nat c)) (sc i)"
proof -
  have "List.map_filter parseFilterTarget (map (\<lambda>c. ''chart-'' @ show_nat c) cs) = map (\<lambda>c. CHART (show_nat c)) cs" for cs
    by (induction cs) (simp_all only: list.map List.map_filter_simps parseFilterTarget_chart option.case)
  then show ?thesis
    using assms unfolding chart_scopes_def getFilterScope_def
    by (metis list.simps(8) option.simps(4) option.simps(5))
qed

definition merge_opt :: "jsval obj option \<Rightarrow> jsval obj \<Rightarrow> jsval obj option" where
  "merge_opt e d = Some (mergeExtraFormData (case e of None \<Rightarrow> [] | Some x \<Rightarrow> x) d)"

lemma add_targets_charts:
  assumes "distinct cs"
  shows "map_of (chartFilters (fold (add_target d) (map (\<lambda>c. CHART (show_nat c)) cs) g)) (show_nat c) =
    (if c \<in> set cs then merge_opt (map_of (chartFilters g) (show_nat c)) d else map_of (chartFilters g) (show_nat c))"
  using assms
proof (induction cs arbitrary: g)
  case (Cons x cs)
  then show ?case by (auto simp: merge_at_def merge_opt_def update_conv')
qed simp

lemma group_fold:
  assumes "chart_scopes scopes sc" and "\<And>i. distinct (sc i)"
  shows "map_of (chartFilters (fold (\<lambda>i g. fold (add_target (d i)) (getFilterScope i scopes) g) ids g)) (show_nat c) =
    fold (\<lambda>i e. merge_opt e (d i)) (filter (\<lambda>i. c \<in> set (sc i)) ids) (map_of (chartFilters g) (show_nat c))"
  by (induction ids arbitrary: g)
     (auto simp: getFilterScope_charts [OF assms(1)] add_targets_charts [OF assms(2)])

lemma fold_merge_opt:
  "ids \<noteq> [] \<Longrightarrow> fold (\<lambda>i e. merge_opt e (d i)) ids None = Some (fold (\<lambda>i acc. mergeExtraFormData acc (d i)) ids [])"
proof (induction ids rule: rev_induct)
  case (snoc i ids)
  then show ?case by (cases "ids = []") (simp_all add: merge_opt_def)
qed simp

text \<open>
  Grouping is consistent with per-chart merging: for filters whose scopes are charts, the
  form data grouped under a chart is what \<open>getExtraFormData\<close> computes for that chart from the
  filters that have it in scope, and charts in no scope have no entry.
\<close>

lemma groupFiltersByTarget_charts:
  assumes "chart_scopes scopes sc" and "\<And>i. distinct (sc i)"
    and "\<And>i. let e = oprop (oprop (JObj dataMask) i) ''extraFormData'' in truthy e \<or> nullish e"
  shows "map_of (chartFilters (groupFiltersByTarget dataMask scopes)) (show_nat c) =
    (let ids = filter (\<lambda>i. c \<in> set (sc i)) (map fst dataMask)
     in if ids = [] then None else Some (getExtraFormData dataMask ids))"
proof -
  have d: "mask_form_data_or dataMask = mask_form_data dataMask"
    using assms(3) by (fastforce simp: mask_form_data_or_def mask_form_data_def js_or_def js_coalesce_def
      fun_eq_iff Let_def nullish_def)
  show ?thesis
    unfolding groupFiltersByTarget_def d
    using group_fold [OF assms(1,2), of "mask_form_data dataMask" "map fst dataMask"
        "\<lparr>chartFilters = [], layerFilters = []\<rparr>" c]
      fold_merge_opt [of "filter (\<lambda>i. c \<in> set (sc i)) (map fst dataMask)" "mask_form_data dataMask"]
    by (simp add: getExtraFormData_def Let_def)
qed

section \<open>Witnesses\<close>

definition mask2 :: "jsval obj" where
  "mask2 = [(''f'', JObj [(''extraFormData'', JObj [(''filters'', JArr [JStr ''p'']), (''time_range'', JStr ''a'')])]),
            (''g'', JObj [(''extraFormData'', JObj [(''filters'', JArr [JStr ''q'']), (''time_range'', JStr ''b'')])])]"

end
