(* ===== verification/DashboardReducers.thy ===== *)
theory DashboardReducers
  imports NativeFilters
begin

text \<open>
  The reducers of the dashboard state: the helpers of \<open>reduxUtils.ts\<close>, the filter bar checks
  (\<open>FilterBar/utils.ts\<close>), \<open>nativeFilterReducer\<close>, \<open>dataMaskReducer\<close> and \<open>chartReducer\<close>.
  States are plain objects and actions are a datatype with one constructor per action type.
  The functions of lodash are the fields of one argument, \<open>lo\<close>; the clock, the translation
  function and \<open>nanoid\<close> are arguments. The draft of immer's \<open>produce\<close> is an ordinary value that
  is returned updated.
\<close>

section \<open>Shared helpers\<close>

record lodash =
  lo_isEqual :: "jsval \<Rightarrow> jsval \<Rightarrow> bool"
  lo_omitBy :: "jsval \<Rightarrow> (jsval \<Rightarrow> bool) \<Rightarrow> jsval"
  lo_isEqualWith :: "jsval \<Rightarrow> jsval \<Rightarrow> (jsval \<Rightarrow> jsval \<Rightarrow> bool) \<Rightarrow> bool"
  lo_omit :: "jsval \<Rightarrow> string list \<Rightarrow> jsval"

record eq_opts =
  ignoreUndefined :: bool
  ignoreNull :: bool
  ignoreFields :: "string list"

definition areObjectsEqual :: "lodash \<Rightarrow> jsval \<Rightarrow> jsval \<Rightarrow> eq_opts \<Rightarrow> bool" where
  "areObjectsEqual lo obj1 obj2 opts =
     (let u = (\<lambda>c. if ignoreUndefined opts then lo_omitBy lo c (\<lambda>i. i = JUndef) else c);
          n = (\<lambda>c. if ignoreNull opts then lo_omitBy lo c (\<lambda>i. i = JNull) else c);
          comp1 = n (u obj1); comp2 = n (u obj2)
      in if ignoreFields opts \<noteq> [] then
           lo_isEqualWith lo comp1 comp2 (\<lambda>val1 val2.
             lo_isEqual lo (JArr (map (\<lambda>v. lo_omit lo v (ignoreFields opts)) (ensureIsArray val1)))
               (JArr (map (\<lambda>v. lo_omit lo v (ignoreFields opts)) (ensureIsArray val2))))
         else lo_isEqual lo comp1 comp2)"

definition ignore_undefined :: eq_opts where
  "ignore_undefined = \<lparr>ignoreUndefined = True, ignoreNull = False, ignoreFields = []\<rparr>"

text \<open>\<open>{...state, [key]: v}\<close>\<close>

definition with_prop :: "jsval obj \<Rightarrow> string \<Rightarrow> jsval \<Rightarrow> jsval obj" where
  "with_prop state key v = obj_put key v (obj_assign [] state)"

definition with_id :: "string \<Rightarrow> jsval obj \<Rightarrow> jsval obj" where
  "with_id nanoid ob =
     (if truthy (oprop (JObj ob) ''id'') then obj_assign [] ob
      else obj_put ''id'' (JStr nanoid) (obj_assign [] ob))"

definition addToObject :: "string \<Rightarrow> jsval obj \<Rightarrow> string \<Rightarrow> jsval obj \<Rightarrow> jsval obj" where
  "addToObject nanoid state arrKey ob =
     (let newObject = obj_assign [] (own_props (oprop (JObj state) arrKey));
          copiedObject = with_id nanoid ob
      in with_prop state arrKey
           (JObj (obj_put (to_str (oprop (JObj copiedObject) ''id'')) (JObj copiedObject) newObject)))"

definition alterInObject :: "jsval obj \<Rightarrow> string \<Rightarrow> jsval obj \<Rightarrow> jsval obj \<Rightarrow> jsval obj" where
  "alterInObject state arrKey ob alterations =
     (let newObject = obj_assign [] (own_props (oprop (JObj state) arrKey));
          i = to_str (oprop (JObj ob) ''id'');
          altered = obj_assign (obj_assign [] (own_props (oprop (JObj newObject) i))) alterations
      in with_prop state arrKey (JObj (obj_put i (JObj altered) newObject)))"

definition same_id :: "string \<Rightarrow> jsval obj \<Rightarrow> jsval \<Rightarrow> bool res" where
  "same_id idKey ob arrItem =
     rbind (getprop arrItem idKey) (\<lambda>i. Inr (strict_eq (oprop (JObj ob) idKey) i))"

definition alterInArr ::
  "jsval obj \<Rightarrow> string \<Rightarrow> jsval obj \<Rightarrow> jsval obj \<Rightarrow> string \<Rightarrow> jsval obj res" where
  "alterInArr state arrKey ob alterations idKey =
     rbind (elems (oprop (JObj state) arrKey)) (\<lambda>xs.
     rbind (rmap (\<lambda>arrItem. rbind (same_id idKey ob arrItem) (\<lambda>b.
         Inr (if b then JObj (obj_assign (obj_assign [] (own_props arrItem)) alterations) else arrItem))) xs)
       (\<lambda>newArr. Inr (with_prop state arrKey (JArr newArr))))"

definition removeFromArr :: "jsval obj \<Rightarrow> string \<Rightarrow> jsval obj \<Rightarrow> string \<Rightarrow> jsval obj res" where
  "removeFromArr state arrKey ob idKey =
     rbind (elems (oprop (JObj state) arrKey)) (\<lambda>xs.
     rbind (rmap (\<lambda>arrItem. rbind (same_id idKey ob arrItem) (\<lambda>b. Inr (if b then [] else [arrItem]))) xs)
       (\<lambda>parts. Inr (with_prop state arrKey (JArr (concat parts)))))"

definition getFromArr :: "jsval list \<Rightarrow> jsval \<Rightarrow> string \<Rightarrow> jsval res" where
  "getFromArr arr i idKey =
     rfold (\<lambda>x found. rbind (getprop x idKey) (\<lambda>j. Inr (if strict_eq j i then x else found))) arr JUndef"

definition addToArr :: "string \<Rightarrow> jsval obj \<Rightarrow> string \<Rightarrow> jsval obj \<Rightarrow> bool \<Rightarrow> jsval obj res" where
  "addToArr nanoid state arrKey ob prepend =
     rbind (iterate (oprop (JObj state) arrKey)) (\<lambda>xs.
       let newObj = JObj (with_id nanoid ob)
       in Inr (with_prop state arrKey (JArr (if prepend then newObj # xs else xs @ [newObj]))))"

text \<open>\<open>extendArr\<close> gives missing ids; \<open>nanoid k\<close> is the id for the k-th element.\<close>

definition extendArr ::
  "(nat \<Rightarrow> string) \<Rightarrow> jsval obj \<Rightarrow> string \<Rightarrow> jsval obj list \<Rightarrow> bool \<Rightarrow> jsval obj res" where
  "extendArr nanoid state arrKey arr prepend =
     rbind (iterate (oprop (JObj state) arrKey)) (\<lambda>xs.
       let newArr = map (\<lambda>(k, el). JObj (if truthy (oprop (JObj el) ''id'') then el
                          else obj_put ''id'' (JStr (nanoid k)) el)) (enumerate 0 arr)
       in Inr (with_prop state arrKey (JArr (if prepend then newArr @ xs else xs @ newArr))))"

definition areArraysShallowEqual :: "jsval list option \<Rightarrow> jsval list option \<Rightarrow> bool" where
  "areArraysShallowEqual arr1 arr2 =
     (case (arr1, arr2) of
        (Some xs, Some ys) \<Rightarrow> length xs = length ys \<and> list_all (\<lambda>(x, y). strict_eq x y) (zip xs ys)
      | _ \<Rightarrow> False)"

section \<open>The filter bar\<close>

definition getOnlyExtraFormData :: "jsval obj \<Rightarrow> jsval obj" where
  "getOnlyExtraFormData data =
     fold (\<lambda>(_, next) prev. obj_put (to_str (oprop next ''id'')) (oprop next ''extraFormData'') prev) data []"

definition checkIsMissingRequiredValue :: "jsval \<Rightarrow> jsval \<Rightarrow> bool" where
  "checkIsMissingRequiredValue flt filterState \<longleftrightarrow>
     truthy (oprop (oprop flt ''controlValues'') ''enableEmptyFilter'') \<and> nullish (oprop filterState ''value'')"

definition checkIsValidateError :: "jsval obj \<Rightarrow> bool" where
  "checkIsValidateError dataMask =
     list_all (\<lambda>(_, v). oprop (oprop v ''filterState'') ''validateStatus'' \<noteq> JStr ''error'') dataMask"

definition checkIsApplyDisabled :: "lodash \<Rightarrow> jsval obj \<Rightarrow> jsval obj \<Rightarrow> jsval list \<Rightarrow> bool" where
  "checkIsApplyDisabled lo dataMaskSelected dataMaskApplied filters =
     (\<not> checkIsValidateError dataMaskSelected \<or>
      areObjectsEqual lo (JObj (getOnlyExtraFormData dataMaskSelected))
        (JObj (getOnlyExtraFormData dataMaskApplied)) ignore_undefined \<or>
      length dataMaskSelected \<noteq> length dataMaskApplied \<or>
      list_ex (\<lambda>flt. checkIsMissingRequiredValue flt
        (oprop (oprop (JObj dataMaskSelected) (to_str (oprop flt ''id''))) ''filterState'')) filters)"

section \<open>The native filter reducer\<close>

record NativeFiltersState =
  nf_filters :: "jsval obj"
  focusedFilterId :: "string option"
  hoveredFilterId :: "string option"

datatype filter_action =
    HydrateFilters "jsval obj"
  | SetInScopeStatus "jsval obj list option"
  | SetConfigComplete "jsval obj list"
  | SetFocused string
  | UnsetFocused
  | SetHovered string
  | UnsetHovered
  | UpdateCascadeParentIds string "string list"
  | OtherFilterAction

definition getInitialState :: "jsval obj list option \<Rightarrow> NativeFiltersState option \<Rightarrow> NativeFiltersState" where
  "getInitialState filterConfig prevState =
     \<lparr>nf_filters =
        (case filterConfig of
           Some fs \<Rightarrow> fold (\<lambda>f m. obj_put (to_str (oprop (JObj f) ''id'')) (JObj f) m) fs []
         | None \<Rightarrow> (case prevState of None \<Rightarrow> [] | Some s \<Rightarrow> nf_filters s)),
      focusedFilterId = None, hoveredFilterId = None\<rparr>"

definition complete_filter :: "jsval obj \<Rightarrow> jsval obj \<Rightarrow> jsval obj" where
  "complete_filter flt filters =
     (let f = JObj flt; i = to_str (oprop f ''id'')
      in if \<not> nullish (oprop f ''chartsInScope'') \<and> \<not> nullish (oprop f ''tabsInScope'')
         then obj_put i f filters
         else
           let existing = oprop (JObj filters) i
           in obj_put i (JObj (obj_assign (obj_assign [] flt)
                [(''chartsInScope'', js_coalesce (oprop f ''chartsInScope'') (oprop existing ''chartsInScope'')),
                 (''tabsInScope'', js_coalesce (oprop f ''tabsInScope'') (oprop existing ''tabsInScope''))])) filters)"

definition handleFilterChangesComplete :: "NativeFiltersState \<Rightarrow> jsval obj list \<Rightarrow> NativeFiltersState" where
  "handleFilterChangesComplete state filters =
     state\<lparr>nf_filters := fold complete_filter filters (obj_assign [] (nf_filters state))\<rparr>"

fun nativeFilterReducer :: "NativeFiltersState \<Rightarrow> filter_action \<Rightarrow> NativeFiltersState" where
  "nativeFilterReducer state (HydrateFilters fs) =
     \<lparr>nf_filters = fs, focusedFilterId = None, hoveredFilterId = None\<rparr>"
| "nativeFilterReducer state (SetInScopeStatus cfg) = getInitialState cfg (Some state)"
| "nativeFilterReducer state (SetConfigComplete fs) = handleFilterChangesComplete state fs"
| "nativeFilterReducer state (SetFocused i) = state\<lparr>focusedFilterId := Some i\<rparr>"
| "nativeFilterReducer state UnsetFocused = state\<lparr>focusedFilterId := None\<rparr>"
| "nativeFilterReducer state (SetHovered i) = state\<lparr>hoveredFilterId := Some i\<rparr>"
| "nativeFilterReducer state UnsetHovered = state\<lparr>hoveredFilterId := None\<rparr>"
| "nativeFilterReducer state (UpdateCascadeParentIds i parents) =
     state\<lparr>nf_filters := obj_put i
        (JObj (obj_put ''cascadeParentIds'' (JArr (map JStr parents))
          (obj_assign [] (own_props (oprop (JObj (nf_filters state)) i)))))
        (obj_assign [] (nf_filters state))\<rparr>"
| "nativeFilterReducer state OtherFilterAction = state"

section \<open>The data mask reducer\<close>

datatype mask_action =
    ClearDataMask
  | UpdateDataMask string "jsval obj"
  | HydrateDashboard jsval "jsval list" jsval
  | SetFilterChangesComplete "string list" "jsval list" jsval
  | OtherMaskAction

definition spread_all :: "jsval list \<Rightarrow> jsval obj" where
  "spread_all vs = fold (\<lambda>v acc. obj_assign acc (own_props v)) vs []"

definition is_native_id :: "jsval \<Rightarrow> bool" where
  "is_native_id v \<longleftrightarrow> prefix NATIVE_FILTER_PREFIX (to_str v)"

text \<open>The masks of the draft that do not belong to native filters are taken over.\<close>

definition keep_other_masks :: "jsval obj \<Rightarrow> jsval obj \<Rightarrow> jsval obj" where
  "keep_other_masks draft merged =
     fold (\<lambda>(_, m) acc. if is_native_id (oprop m ''id'') then acc
             else obj_put (to_str (oprop m ''id'')) m acc) draft merged"

definition fill_native_filter :: "lodash \<Rightarrow> jsval \<Rightarrow> jsval \<Rightarrow> jsval \<Rightarrow> jsval obj \<Rightarrow> jsval obj" where
  "fill_native_filter lo initialDataMask currentFilters flt merged =
     (let i = oprop flt ''id''; k = to_str i; dflt = oprop flt ''defaultDataMask'';
          mask = spread_all [JObj (getInitialDataMask i []), dflt, oprop initialDataMask k]
      in obj_put k
           (if truthy currentFilters \<and>
               \<not> areObjectsEqual lo dflt (oprop (oprop currentFilters k) ''defaultDataMask'') ignore_undefined
            then JObj (spread_all [JObj mask, dflt]) else JObj mask) merged)"

definition fillNativeFilters ::
  "lodash \<Rightarrow> jsval list \<Rightarrow> jsval obj \<Rightarrow> jsval obj \<Rightarrow> jsval \<Rightarrow> jsval \<Rightarrow> jsval obj" where
  "fillNativeFilters lo filterConfig merged draft initialDataMask currentFilters =
     keep_other_masks draft (fold (fill_native_filter lo initialDataMask currentFilters) filterConfig merged)"

definition modified_mask :: "lodash \<Rightarrow> jsval obj \<Rightarrow> jsval \<Rightarrow> jsval" where
  "modified_mask lo draft flt =
     (let i = oprop flt ''id''; existing = oprop (JObj draft) (to_str i);
          areTargetsEqual = lo_isEqual lo (oprop existing ''targets'') (oprop flt ''targets'');
          cv = oprop flt ''controlValues'';
          shouldPreserveState = truthy existing \<and> areTargetsEqual \<and>
            (truthy (oprop cv ''enableEmptyFilter'') \<or> truthy (oprop cv ''defaultToFirstItem''))
      in JObj (spread_all ([JObj (getInitialDataMask i []), oprop flt ''defaultDataMask'', flt] @
           (if shouldPreserveState
            then [JObj [(''extraFormData'', oprop existing ''extraFormData''),
                        (''filterState'', oprop existing ''filterState'')]] else []))))"

definition updateDataMaskForFilterChanges ::
  "lodash \<Rightarrow> string list \<Rightarrow> jsval list \<Rightarrow> jsval obj \<Rightarrow> jsval \<Rightarrow> jsval obj" where
  "updateDataMaskForFilterChanges lo deleted modified draft initialFilters =
     (let m1 = fold (\<lambda>(k, v) acc. obj_put k (JObj (spread_all [v, oprop v ''defaultDataMask''])) acc)
                 (own_props (js_or initialFilters (JObj []))) [];
          m2 = fold AList.delete deleted m1;
          m3 = fold (\<lambda>flt acc. obj_put (to_str (oprop flt ''id'')) (modified_mask lo draft flt) acc) modified m2
      in keep_other_masks draft m3)"

text \<open>
  \<open>HydrateDashboard\<close> carries the chart configuration, the native filter configuration and the
  initial data mask of the hydrate action. \<open>Object.keys\<close> of a missing configuration throws.
\<close>

fun dataMaskReducer :: "lodash \<Rightarrow> jsval obj \<Rightarrow> mask_action \<Rightarrow> jsval obj res" where
  "dataMaskReducer lo draft ClearDataMask = Inr []"
| "dataMaskReducer lo draft (UpdateDataMask filterId dataMask) =
     Inr (obj_put filterId (JObj (spread_all
       [JObj (getInitialDataMask (JStr filterId) []), oprop (JObj draft) filterId, JObj dataMask])) draft)"
| "dataMaskReducer lo draft (HydrateDashboard chartConfiguration filterConfig initialDataMask) =
     (if nullish chartConfiguration then Inl TypeError
      else
        let cleanState = fold (\<lambda>(i, _) acc. obj_put i (JObj (getInitialDataMask (JStr i) [])) acc)
                           (own_props chartConfiguration) []
        in Inr (fillNativeFilters lo filterConfig cleanState draft initialDataMask JUndef))"
| "dataMaskReducer lo draft (SetFilterChangesComplete deleted modified filters) =
     Inr (updateDataMaskForFilterChanges lo deleted modified draft filters)"
| "dataMaskReducer lo draft OtherMaskAction = Inr draft"

section \<open>The chart reducer\<close>

definition initial_chart :: "jsval obj" where
  "initial_chart =
     [(''id'', JInt 0), (''chartAlert'', JNull), (''chartStatus'', JStr ''loading''),
      (''chartStackTrace'', JNull), (''chartUpdateEndTime'', JNull), (''chartUpdateStartTime'', JInt 0),
      (''latestQueryFormData'', JObj []), (''sliceFormData'', JNull), (''queryController'', JNull),
      (''queriesResponse'', JNull), (''triggerQuery'', JBool True), (''lastRendered'', JInt 0)]"

datatype chart_update =
    AddChart "jsval obj"
  | UpdateSucceeded jsval
  | UpdateStarted jsval
  | UpdateStopped
  | RenderingSucceeded
  | RenderingFailed jsval jsval
  | UpdateFailed jsval
  | DynamicPluginControlsReady jsval
  | TriggerQuery jsval
  | RenderTriggered jsval
  | UpdateQueryFormData jsval
  | AnnotationQueryStarted string jsval
  | AnnotationQuerySuccess string jsval
  | AnnotationQueryFailed string jsval

datatype chart_action =
    RemoveChart string
  | UpdateChartId jsval string
  | HydrateCharts "jsval obj"
  | SetDatasources
  | ChartUpdate string chart_update
  | OtherChartAction

text \<open>\<open>queriesResponse?.[0]\<close>\<close>

fun first_elem :: "jsval \<Rightarrow> jsval" where
  "first_elem (JArr (x # _)) = x"
| "first_elem (JObj ps) = oprop (JObj ps) ''0''"
| "first_elem _ = JUndef"

text \<open>
  What one handler changes in the state of a chart. \<open>now\<close> is the clock, \<open>t\<close> translates a text
  with its arguments and \<open>formDataOf\<close> is \<open>getFormDataFromControls\<close>.
\<close>

fun chart_handler ::
  "jsval \<Rightarrow> (string \<Rightarrow> jsval list \<Rightarrow> jsval) \<Rightarrow> (jsval \<Rightarrow> jsval) \<Rightarrow> chart_update \<Rightarrow> jsval \<Rightarrow> jsval obj" where
  "chart_handler now t formDataOf (AddChart c) state = obj_assign (obj_assign [] initial_chart) c"
| "chart_handler now t formDataOf (UpdateSucceeded resp) state =
     obj_assign (own_props state) [(''chartStatus'', JStr ''success''), (''chartAlert'', JNull),
       (''queriesResponse'', resp), (''chartUpdateEndTime'', now)]"
| "chart_handler now t formDataOf (UpdateStarted controller) state =
     obj_assign (own_props state) [(''chartStatus'', JStr ''loading''), (''chartStackTrace'', JNull),
       (''chartAlert'', JNull), (''chartUpdateEndTime'', JNull), (''chartUpdateStartTime'', now),
       (''queryController'', controller)]"
| "chart_handler now t formDataOf UpdateStopped state =
     obj_assign (own_props state) [(''chartStatus'', JStr ''stopped''),
       (''chartAlert'', t ''Updating chart was stopped'' []), (''chartUpdateEndTime'', now)]"
| "chart_handler now t formDataOf RenderingSucceeded state =
     obj_assign (own_props state) [(''chartStatus'', JStr ''rendered''), (''chartUpdateEndTime'', now)]"
| "chart_handler now t formDataOf (RenderingFailed stack err) state =
     obj_assign (own_props state) [(''chartStatus'', JStr ''failed''), (''chartStackTrace'', stack),
       (''chartAlert'', t ''An error occurred while rendering the visualization: %s'' [err])]"
| "chart_handler now t formDataOf (UpdateFailed resp) state =
     obj_assign (own_props state) [(''chartStatus'', JStr ''failed''),
       (''chartAlert'', if truthy resp then oprop (first_elem resp) ''error'' else t ''Network error.'' []),
       (''chartUpdateEndTime'', now), (''queriesResponse'', resp),
       (''chartStackTrace'', if truthy resp then oprop (first_elem resp) ''stacktrace'' else JNull)]"
| "chart_handler now t formDataOf (DynamicPluginControlsReady controls) state =
     obj_assign (own_props state) [(''sliceFormData'', formDataOf controls)]"
| "chart_handler now t formDataOf (TriggerQuery v) state =
     obj_assign (own_props state) [(''triggerQuery'', v), (''chartStatus'', JStr ''loading'')]"
| "chart_handler now t formDataOf (RenderTriggered v) state =
     obj_assign (own_props state) [(''lastRendered'', v)]"
| "chart_handler now t formDataOf (UpdateQueryFormData v) state =
     obj_assign (own_props state) [(''latestQueryFormData'', v)]"
| "chart_handler now t formDataOf (AnnotationQueryStarted name controller) state =
     obj_assign (own_props state) [(''annotationQuery'',
       JObj (obj_put name controller (own_props (oprop state ''annotationQuery''))))]"
| "chart_handler now t formDataOf (AnnotationQuerySuccess name resp) state =
     obj_assign (own_props state)
       [(''annotationData'', JObj (obj_put name (oprop resp ''data'') (own_props (oprop state ''annotationData'')))),
        (''annotationError'', JObj (AList.delete name (own_props (oprop state ''annotationError'')))),
        (''annotationQuery'', JObj (AList.delete name (own_props (oprop state ''annotationQuery''))))]"
| "chart_handler now t formDataOf (AnnotationQueryFailed name resp) state =
     obj_assign (own_props state)
       [(''annotationData'', JObj (AList.delete name (own_props (oprop state ''annotationData'')))),
        (''annotationError'', JObj (obj_put name
           (if truthy resp then oprop resp ''error'' else t ''Network error.'' [])
           (own_props (oprop state ''annotationError'')))),
        (''annotationQuery'', JObj (AList.delete name (own_props (oprop state ''annotationQuery''))))]"

definition reset_failed :: "jsval \<Rightarrow> jsval" where
  "reset_failed c =
     (if oprop c ''chartStatus'' = JStr ''failed'' \<and> truthy (oprop c ''chartStackTrace'')
      then JObj (obj_assign (own_props c) [(''chartStatus'', JStr []), (''chartStackTrace'', JNull), (''chartAlert'', JNull)])
      else c)"

text \<open>The queries \<open>ANNOTATION_QUERY_STARTED\<close> aborts: the running one of the same annotation.\<close>

definition aborted_queries :: "jsval obj \<Rightarrow> chart_action \<Rightarrow> jsval list" where
  "aborted_queries charts a =
     (case a of
        ChartUpdate key (AnnotationQueryStarted name _) \<Rightarrow>
          (let q = oprop (oprop (oprop (JObj charts) key) ''annotationQuery'') name
           in if truthy q then [q] else [])
      | _ \<Rightarrow> [])"

text \<open>The annotation handlers read the state of the chart, which must exist.\<close>

fun reads_state :: "chart_update \<Rightarrow> bool" where
  "reads_state (AnnotationQueryStarted _ _) = True"
| "reads_state (AnnotationQuerySuccess _ _) = True"
| "reads_state (AnnotationQueryFailed _ _) = True"
| "reads_state _ = False"

fun chartReducer ::
  "jsval \<Rightarrow> (string \<Rightarrow> jsval list \<Rightarrow> jsval) \<Rightarrow> (jsval \<Rightarrow> jsval) \<Rightarrow> (jsval obj \<Rightarrow> string list \<Rightarrow> jsval obj) \<Rightarrow>
   jsval obj \<Rightarrow> chart_action \<Rightarrow> jsval obj res" where
  "chartReducer now t formDataOf lodash_omit charts (RemoveChart key) = Inr (lodash_omit charts [key])"
| "chartReducer now t formDataOf lodash_omit charts (UpdateChartId newId key) =
     Inr (AList.delete key (obj_put (to_str newId)
       (JObj (obj_put ''id'' newId (own_props (oprop (JObj charts) key)))) charts))"
| "chartReducer now t formDataOf lodash_omit charts (HydrateCharts cs) = Inr (obj_assign [] cs)"
| "chartReducer now t formDataOf lodash_omit charts SetDatasources =
     Inr (from_entries (map (\<lambda>(k, c). (k, reset_failed c)) charts))"
| "chartReducer now t formDataOf lodash_omit charts (ChartUpdate key u) =
     (if reads_state u \<and> nullish (oprop (JObj charts) key) then Inl TypeError
      else Inr (obj_put key (JObj (chart_handler now t formDataOf u (oprop (JObj charts) key)))
        (obj_assign [] charts)))"
| "chartReducer now t formDataOf lodash_omit charts OtherChartAction = Inr charts"

section \<open>Array helpers\<close>

lemma oprop_assign_Nil [simp]: "oprop (JObj (obj_assign [] s)) k = oprop (JObj s) k"
  by (cases "map_of s k") (simp_all add: oprop.simps(1) map_of_obj_assign)

lemma oprop_with_prop [simp]:
  "oprop (JObj (with_prop s key v)) k = (if k = key then v else oprop (JObj s) k)"
  by (auto simp: with_prop_def)

lemma oprop_with_id: "truthy (oprop (JObj ob) ''id'') \<Longrightarrow> oprop (JObj (with_id n ob)) k = oprop (JObj ob) k"
  by (simp add: with_id_def)

lemma removeFromArr_filter:
  assumes "\<forall>x\<in>set xs. \<not> nullish x"
  shows "rmap (\<lambda>x. rbind (same_id idKey ob x) (\<lambda>b. Inr (if b then [] else [x]))) xs =
    Inr (map (\<lambda>x. if strict_eq (oprop (JObj ob) idKey) (oprop x idKey) then [] else [x]) xs)"
  using assms by (induction xs) (auto simp: same_id_def getprop_def)

text \<open>
  Adding an object to an array of the state and removing it again gives the array back, at
  either end, when no other element has its id.
\<close>

lemma addToArr_removeFromArr:
  assumes "oprop (JObj s) key = JArr xs" and "\<forall>x\<in>set xs. \<not> nullish x \<and> \<not> strict_eq (oprop (JObj ob) ''id'') (oprop x ''id'')"
    and "oprop (JObj ob) ''id'' = JStr i" and "i \<noteq> []"
  shows "\<exists>s' s''. addToArr nanoid s key ob prepend = Inr s' \<and> removeFromArr s' key ob ''id'' = Inr s'' \<and>
     oprop (JObj s'') key = JArr xs \<and> (\<forall>k. k \<noteq> key \<longrightarrow> oprop (JObj s'') k = oprop (JObj s) k)"
proof -
  let ?ys = "if prepend then JObj (with_id nanoid ob) # xs else xs @ [JObj (with_id nanoid ob)]"
  have a: "addToArr nanoid s key ob prepend = Inr (with_prop s key (JArr ?ys))"
    using assms(1) by (simp add: addToArr_def Let_def)
  have i: "oprop (JObj (with_id nanoid ob)) ''id'' = JStr i"
    using assms(3,4) by (simp add: oprop_with_id)
  have "\<forall>x\<in>set ?ys. \<not> nullish x" using assms(2) by (auto simp: nullish_def)
  note r = removeFromArr_filter [OF this, of "''id''" ob]
  have keep: "concat (map (\<lambda>x. if strict_eq (JStr i) (oprop x ''id'') then [] else [x]) xs) = xs"
    using assms(2,3) by (induction xs) auto
  have "concat (map (\<lambda>x. if strict_eq (oprop (JObj ob) ''id'') (oprop x ''id'') then [] else [x]) ?ys) = xs"
    using keep i assms(3) by simp
  then show ?thesis
    using a r by (simp add: removeFromArr_def)
qed

section \<open>Native filters\<close>

definition scope_known :: "jsval obj \<Rightarrow> string \<Rightarrow> bool" where
  "scope_known fs i \<longleftrightarrow> \<not> nullish (oprop (oprop (JObj fs) i) ''chartsInScope'')"

lemma complete_filter_scope: "scope_known fs i \<Longrightarrow> scope_known (complete_filter f fs) i"
  by (auto simp: scope_known_def complete_filter_def Let_def oprop_assign js_coalesce_def)

lemma complete_filter_other:
  "i \<noteq> to_str (oprop (JObj f) ''id'') \<Longrightarrow> oprop (JObj (complete_filter f fs)) i = oprop (JObj fs) i"
  by (simp add: complete_filter_def Let_def)

text \<open>
  Saving filter changes never loses a computed scope: every filter whose charts in scope
  were known before still has them known, and filters that are not among the changes are
  untouched.
\<close>

lemma nativeFilterReducer_scopes:
  "(scope_known (nf_filters s) i \<longrightarrow> scope_known (nf_filters (nativeFilterReducer s (SetConfigComplete fs))) i) \<and>
   (i \<notin> (\<lambda>f. to_str (oprop (JObj f) ''id'')) ` set fs \<longrightarrow>
      oprop (JObj (nf_filters (nativeFilterReducer s (SetConfigComplete fs)))) i = oprop (JObj (nf_filters s)) i)"
proof -
  have "scope_known m i \<Longrightarrow> scope_known (fold complete_filter fs m) i" for m
    by (induction fs arbitrary: m) (simp_all add: complete_filter_scope)
  moreover have "i \<notin> (\<lambda>f. to_str (oprop (JObj f) ''id'')) ` set fs \<Longrightarrow>
      oprop (JObj (fold complete_filter fs m)) i = oprop (JObj m) i" for m
    by (induction fs arbitrary: m) (simp_all add: complete_filter_other)
  ultimately show ?thesis
    by (simp add: handleFilterChangesComplete_def scope_known_def)
qed

section \<open>Data masks\<close>

text \<open>A state in which every mask is stored under its own id.\<close>

definition masks_keyed :: "jsval obj \<Rightarrow> bool" where
  "masks_keyed d \<longleftrightarrow> distinct (map fst d) \<and> list_all (\<lambda>(k, m). to_str (oprop m ''id'') = k) d"

lemma keep_other_masks_get:
  assumes "masks_keyed d"
  shows "map_of (keep_other_masks d m) k =
    (if \<not> prefix NATIVE_FILTER_PREFIX k \<and> map_of d k \<noteq> None then map_of d k else map_of m k)"
  using assms
proof (induction d arbitrary: m)
  case (Cons e d)
  obtain i v where e: "e = (i, v)" by (cases e)
  have i: "to_str (oprop v ''id'') = i" "map_of d i = None" "masks_keyed d"
    using Cons.prems e by (auto simp: masks_keyed_def map_of_eq_None_iff)
  let ?m = "if prefix NATIVE_FILTER_PREFIX i then m else obj_put i v m"
  have "keep_other_masks (e # d) m = keep_other_masks d ?m"
    using e i(1) by (simp add: keep_other_masks_def is_native_id_def)
  then show ?case
    using Cons.IH [OF i(3), of ?m] i(2) e by (auto simp: map_of_obj_put)
qed (simp add: keep_other_masks_def)

lemma map_of_fold_delete: "map_of (fold AList.delete ks m) k = (if k \<in> set ks then None else map_of m k)"
  by (induction ks arbitrary: m) (auto simp: delete_conv')

lemma map_of_fold_put_other:
  "k \<notin> key ` set xs \<Longrightarrow> map_of (fold (\<lambda>x acc. obj_put (key x) (val x) acc) xs m) k = map_of m k"
  by (induction xs arbitrary: m) (auto simp: map_of_obj_put)

text \<open>
  Applying filter changes. The masks of charts and of everything else whose id does not
  start with the native filter prefix survive unchanged; a deleted native filter that is not
  also modified has no mask afterwards.
\<close>

lemma dataMask_filter_changes:
  assumes "masks_keyed draft"
    and "dataMaskReducer lo draft (SetFilterChangesComplete deleted modified filters) = Inr r"
  shows "(\<not> prefix NATIVE_FILTER_PREFIX k \<and> map_of draft k \<noteq> None \<longrightarrow> map_of r k = map_of draft k) \<and>
         (prefix NATIVE_FILTER_PREFIX k \<and> k \<in> set deleted \<and> k \<notin> (\<lambda>f. to_str (oprop f ''id'')) ` set modified \<longrightarrow>
            map_of r k = None)"
  using assms(2)
  by (auto simp: updateDataMaskForFilterChanges_def Let_def keep_other_masks_get [OF assms(1)]
      map_of_fold_put_other map_of_fold_delete)

text \<open>
  The mask of a deleted divider is never removed: the id of a divider does not start with
  the native filter prefix, so that the mask is taken over from the old state.
\<close>

lemma dataMask_divider_survives:
  assumes "masks_keyed draft" and "i = generateFilterId nid Divider" and "map_of draft i = Some m"
  shows "\<exists>r. dataMaskReducer lo draft (SetFilterChangesComplete [i] [] filters) = Inr r \<and> map_of r i = Some m"
proof -
  have "\<not> prefix NATIVE_FILTER_PREFIX i"
    using assms(2) by (auto simp: generateFilterId_def NATIVE_FILTER_PREFIX_def NATIVE_FILTER_DIVIDER_PREFIX_def)
  then show ?thesis
    using assms(3) by (simp add: updateDataMaskForFilterChanges_def Let_def keep_other_masks_get [OF assms(1)])
qed

section \<open>Charts\<close>

text \<open>
  An update of one chart touches no other chart, and its status tells how the update ended.
\<close>

lemma chartReducer_update:
  assumes "chartReducer now t g om charts (ChartUpdate key u) = Inr r"
  shows "(\<forall>k. k \<noteq> key \<longrightarrow> oprop (JObj r) k = oprop (JObj charts) k) \<and>
    (u = UpdateSucceeded resp \<longrightarrow> oprop (oprop (JObj r) key) ''chartStatus'' = JStr ''success'' \<and>
       oprop (oprop (JObj r) key) ''chartAlert'' = JNull) \<and>
    (u = UpdateFailed resp \<longrightarrow> oprop (oprop (JObj r) key) ''chartStatus'' = JStr ''failed'' \<and>
       oprop (oprop (JObj r) key) ''queriesResponse'' = resp) \<and>
    (u = UpdateStarted c \<longrightarrow> oprop (oprop (JObj r) key) ''chartStatus'' = JStr ''loading'' \<and>
       oprop (oprop (JObj r) key) ''chartAlert'' = JNull)"
proof -
  have r: "r = obj_put key (JObj (chart_handler now t g u (oprop (JObj charts) key))) (obj_assign [] charts)"
    using assms by (simp split: if_splits)
  have "oprop (JObj r) k = oprop (JObj charts) k" if "k \<noteq> key" for k using that by (simp add: r)
  moreover have "oprop (JObj r) key = JObj (chart_handler now t g u (oprop (JObj charts) key))" by (simp add: r)
  ultimately show ?thesis by (simp add: oprop_assign)
qed

section \<open>Witnesses\<close>

definition lo0 :: lodash where
  "lo0 = \<lparr>lo_isEqual = (=), lo_omitBy = (\<lambda>v p. v), lo_isEqualWith = (\<lambda>a b f. f a b), lo_omit = (\<lambda>v ks. v)\<rparr>"

definition chart_mask :: jsval where
  "chart_mask = JObj [(''id'', JStr ''12'')]"

end
