(* ===== verification/ChartFormData.thy ===== *)
theory ChartFormData
  imports DashboardReducers
begin

text \<open>
  The form data of a chart on a dashboard, after
  \<open>src/dashboard/util/charts/getFormDataWithExtraFilters.ts\<close>: the saved form data extended
  with the form data of the filters that are active on the chart. The two module-level caches
  are explicit state; the filters object, which the cache compares by reference, carries a
  reference number.
\<close>

record chart_caches =
  cachedFiltersByChart :: "(int, nat) jmap"
  cachedFormdataByChart :: "(int, jsval obj) jmap"

record form_args =
  fa_chart_id :: int
  fa_chart_form_data :: jsval
  fa_filters_ref :: nat
  fa_filters :: "jsval obj"
  fa_nativeFilters :: "PartialFilter obj"
  fa_crossScopes :: "int list obj"
  fa_colorScheme :: jsval
  fa_ownColorScheme :: jsval
  fa_colorNamespace :: jsval
  fa_sliceId :: int
  fa_dataMask :: "jsval obj"
  fa_extraControls :: "jsval obj"
  fa_labelsColor :: jsval
  fa_labelsColorMap :: jsval
  fa_sharedLabelsColors :: jsval
  fa_allSliceIds :: "int list"
  fa_activeFilters :: "ActiveFilter obj option"

definition getEffectiveExtraFilters :: "jsval obj \<Rightarrow> jsval list" where
  "getEffectiveExtraFilters filters =
     map (\<lambda>(column, values). JObj [(''col'', JStr column),
         (''op'', JStr (if is_arr values then ''IN'' else ''=='')), (''val'', values)])
       (filter (\<lambda>(_, values). values \<noteq> JNull) filters)"

definition createFilterDataMapping :: "jsval obj \<Rightarrow> string list \<Rightarrow> jsval obj" where
  "createFilterDataMapping dataMask filterIds =
     fold (\<lambda>filterId acc.
         case oprop (JObj (getExtraFormData dataMask [filterId])) ''filters'' of
           JArr (x # xs) \<Rightarrow> obj_put filterId (JArr (x # xs)) acc
         | _ \<Rightarrow> acc) filterIds []"

text \<open>The typed view of a data mask that \<open>getAllActiveFilters\<close> reads.\<close>

definition mask_view :: "jsval \<Rightarrow> DataMaskWithId" where
  "mask_view v =
     \<lparr>dm_id = to_str (oprop v ''id''),
      dm_extraFormData = (if oprop v ''extraFormData'' = JUndef then None
                          else Some (own_props (oprop v ''extraFormData'')))\<rparr>"

definition active_filters_of :: "form_args \<Rightarrow> ActiveFilter obj" where
  "active_filters_of a =
     (case fa_activeFilters a of
        Some fs \<Rightarrow> fs
      | None \<Rightarrow> getAllActiveFilters (fa_nativeFilters a) (fa_crossScopes a) (fa_allSliceIds a)
                  (map (\<lambda>(k, v). (k, mask_view v)) (fa_dataMask a)))"

definition filterIdsAppliedOnChart :: "form_args \<Rightarrow> string list" where
  "filterIdsAppliedOnChart a =
     map fst (filter (\<lambda>(_, f). fa_chart_id a \<in> set (af_scope f)) (active_filters_of a))"

definition uses_layers :: "form_args \<Rightarrow> bool" where
  "uses_layers a \<longleftrightarrow>
     oprop (fa_chart_form_data a) ''viz_type'' = JStr ''deck_multi'' \<or>
     (case fa_activeFilters a of
        None \<Rightarrow> False | Some fs \<Rightarrow> list_ex (\<lambda>(_, f). af_layerScope f \<noteq> None) fs)"

definition extra_data :: "form_args \<Rightarrow> jsval obj" where
  "extra_data a =
     (let ids = filterIdsAppliedOnChart a
      in if ids = [] then []
         else (''extra_form_data'', JObj (getExtraFormData (fa_dataMask a) ids)) #
              (if uses_layers a
               then [(''filter_data_mapping'', JObj (createFilterDataMapping (fa_dataMask a) ids))] else []))"

definition layer_filter_scope :: "form_args \<Rightarrow> jsval obj" where
  "layer_filter_scope a =
     (if uses_layers a then
        fold (\<lambda>(filterId, f) acc.
            case Option.bind (af_layerScope f) (\<lambda>m. map_of m (show_int (fa_chart_id a))) of
              None \<Rightarrow> acc
            | Some ls \<Rightarrow> obj_put filterId (JArr (map JInt ls)) acc) (active_filters_of a) []
      else [])"

definition chart_form_data :: "form_args \<Rightarrow> jsval obj" where
  "chart_form_data a =
     spread_all
       ([fa_chart_form_data a,
         JObj [(''chart_id'', JInt (fa_chart_id a)), (''label_colors'', fa_labelsColor a),
               (''shared_label_colors'', fa_sharedLabelsColors a),
               (''map_label_colors'', fa_labelsColorMap a)]] @
        (if truthy (fa_colorScheme a) then [JObj [(''color_scheme'', fa_colorScheme a)]] else []) @
        (if truthy (fa_ownColorScheme a) then [JObj [(''own_color_scheme'', fa_ownColorScheme a)]] else []) @
        [JObj [(''extra_filters'', JArr (getEffectiveExtraFilters (fa_filters a)))],
         JObj (extra_data a), JObj (fa_extraControls a)] @
        (if layer_filter_scope a \<noteq> []
         then [JObj [(''layer_filter_scope'', JObj (layer_filter_scope a))]] else []))"

definition default_opts :: eq_opts where
  "default_opts = \<lparr>ignoreUndefined = False, ignoreNull = False, ignoreFields = []\<rparr>"

definition cache_hit :: "lodash \<Rightarrow> form_args \<Rightarrow> chart_caches \<Rightarrow> jsval obj option" where
  "cache_hit lo a c =
     (case map_of (cachedFormdataByChart c) (fa_sliceId a) of
        None \<Rightarrow> None
      | Some cached \<Rightarrow>
          (let p = oprop (JObj cached)
           in if map_of (cachedFiltersByChart c) (fa_sliceId a) = Some (fa_filters_ref a) \<and>
                 areObjectsEqual lo (p ''own_color_scheme'') (fa_ownColorScheme a) default_opts \<and>
                 areObjectsEqual lo (p ''color_scheme'') (fa_colorScheme a) default_opts \<and>
                 areObjectsEqual lo (p ''color_namespace'') (fa_colorNamespace a) ignore_undefined \<and>
                 areObjectsEqual lo (p ''label_colors'') (fa_labelsColor a) ignore_undefined \<and>
                 areObjectsEqual lo (p ''map_label_colors'') (fa_labelsColorMap a) ignore_undefined \<and>
                 lo_isEqual lo (p ''shared_label_colors'') (fa_sharedLabelsColors a) \<and>
                 areObjectsEqual lo (p ''dataMask'') (JObj (fa_dataMask a)) ignore_undefined \<and>
                 areObjectsEqual lo (p ''extraControls'') (JObj (fa_extraControls a)) ignore_undefined
              then Some cached else None))"

definition getFormDataWithExtraFilters ::
  "lodash \<Rightarrow> form_args \<Rightarrow> chart_caches \<Rightarrow> jsval obj \<times> chart_caches" where
  "getFormDataWithExtraFilters lo a c =
     (case cache_hit lo a c of
        Some cached \<Rightarrow> (cached, c)
      | None \<Rightarrow>
          (let formData = chart_form_data a
           in (formData,
               \<lparr>cachedFiltersByChart = AList.update (fa_sliceId a) (fa_filters_ref a) (cachedFiltersByChart c),
                cachedFormdataByChart = AList.update (fa_sliceId a)
                  (obj_assign (obj_assign [] formData)
                    [(''dataMask'', JObj (fa_dataMask a)), (''extraControls'', JObj (fa_extraControls a))])
                  (cachedFormdataByChart c)\<rparr>)))"

end
