(* ===== verification/LayoutTree.thy ===== *)
theory LayoutTree
  imports Prelude
begin

text \<open>
  Forests given by the children of each node, as the dashboard layout stores them: a partial
  map from nodes to lists of children. In a forest the children of a node are distinct nodes
  of the map, no node is a child of two nodes, and no node lies below itself. Every change a
  layout operation makes is one of three: a node gets a new list of children drawn from its
  old ones and from nodes without a parent (\<open>forest_relink\<close>), a new node without children
  appears (\<open>forest_new\<close>), or a set of nodes that is closed under children and that no other
  node refers to is removed (\<open>forest_restrict\<close>).
\<close>

type_synonym 'n kids = "'n \<Rightarrow> 'n list option"

definition child_of :: "'n kids \<Rightarrow> 'n \<Rightarrow> 'n \<Rightarrow> bool" where
  "child_of k x y \<longleftrightarrow> (\<exists>ys. k x = Some ys \<and> y \<in> set ys)"

definition below :: "'n kids \<Rightarrow> 'n \<Rightarrow> 'n set" where
  "below k x = {y. (child_of k)\<^sup>*\<^sup>* x y}"

definition forest :: "'n kids \<Rightarrow> bool" where
  "forest k \<longleftrightarrow>
     (\<forall>x ys. k x = Some ys \<longrightarrow> distinct ys \<and> set ys \<subseteq> dom k) \<and>
     (\<forall>x y xs ys. k x = Some xs \<longrightarrow> k y = Some ys \<longrightarrow> x \<noteq> y \<longrightarrow> set xs \<inter> set ys = {}) \<and>
     (\<forall>x. \<not> (child_of k)\<^sup>+\<^sup>+ x x)"

definition orphan :: "'n kids \<Rightarrow> 'n \<Rightarrow> bool" where
  "orphan k y \<longleftrightarrow> (\<forall>x. \<not> child_of k x y)"

lemma below_refl [simp]: "x \<in> below k x"
  by (simp add: below_def)

lemma below_step: "y \<in> below k x \<Longrightarrow> child_of k y z \<Longrightarrow> z \<in> below k x"
  by (auto simp: below_def intro: rtranclp.rtrancl_into_rtrancl)

lemma below_trans: "y \<in> below k x \<Longrightarrow> z \<in> below k y \<Longrightarrow> z \<in> below k x"
  by (auto simp: below_def)

lemma child_below: "child_of k x y \<Longrightarrow> y \<in> below k x"
  by (auto simp: below_def)

lemma below_induct [consumes 1, case_names refl step]:
  assumes "y \<in> below k x" and "P x" and "\<And>y z. y \<in> below k x \<Longrightarrow> P y \<Longrightarrow> child_of k y z \<Longrightarrow> P z"
  shows "P y"
proof -
  from assms(1) have "(child_of k)\<^sup>*\<^sup>* x y" by (simp add: below_def)
  then show ?thesis
    by (induction rule: rtranclp_induct) (use assms(2,3) in \<open>auto simp: below_def\<close>)
qed

lemma below_leaf: "k x = None \<or> k x = Some [] \<Longrightarrow> below k x = {x}"
proof -
  assume a: "k x = None \<or> k x = Some []"
  have "y = x" if "y \<in> below k x" for y
    using that by (induction rule: below_induct) (use a in \<open>auto simp: child_of_def\<close>)
  then show ?thesis by auto
qed

lemma child_of_mono: "k' \<subseteq>\<^sub>m k \<Longrightarrow> child_of k' x y \<Longrightarrow> child_of k x y"
  by (force simp: child_of_def map_le_def dom_def)

lemma below_sub: "(\<And>a b. child_of k' a b \<Longrightarrow> child_of k a b) \<Longrightarrow> below k' x \<subseteq> below k x"
proof
  fix y assume s: "\<And>a b. child_of k' a b \<Longrightarrow> child_of k a b" and "y \<in> below k' x"
  from this(2) show "y \<in> below k x"
    by (induction rule: below_induct) (auto intro: below_step s)
qed

lemma below_mono: "k' \<subseteq>\<^sub>m k \<Longrightarrow> below k' x \<subseteq> below k x"
  using below_sub [of k' k x] child_of_mono [of k' k] by blast

lemma below_unfold:
  assumes "k x = Some ys"
  shows "below k x = insert x (\<Union>y\<in>set ys. below (k(x := None)) y)"
proof -
  let ?k = "k(x := None)"
  have le: "?k \<subseteq>\<^sub>m k" by (auto simp: map_le_def)
  have "z = x \<or> z \<in> (\<Union>y\<in>set ys. below ?k y)" if "z \<in> below k x" for z
    using that
  proof (induction rule: below_induct)
    case (step z w)
    show ?case
    proof (cases "z = x")
      case True
      then have "w \<in> set ys" using step.hyps(2) assms by (auto simp: child_of_def)
      then show ?thesis by force
    next
      case False
      then have "child_of ?k z w" using step.hyps(2) by (auto simp: child_of_def)
      then show ?thesis using step.IH False below_step [of z ?k _ w] by blast
    qed
  qed simp
  moreover have "below ?k y \<subseteq> below k x" if "y \<in> set ys" for y
    using that assms below_mono [OF le, of y] child_below [of k x y] below_trans [of y k x]
    by (auto simp: child_of_def)
  ultimately show ?thesis by auto
qed

lemma below_restrict:
  "below k x \<union> below (k |` (- below k x)) y = below k x \<union> below k y"
proof -
  let ?k = "k |` (- below k x)"
  have "?k \<subseteq>\<^sub>m k" by (auto simp: map_le_def)
  moreover have "z \<in> below k x \<or> z \<in> below ?k y" if "z \<in> below k y" for z
    using that
  proof (induction rule: below_induct)
    case (step z w)
    show ?case
    proof (cases "z \<in> below k x")
      case True
      then show ?thesis using step.hyps(2) by (auto intro: below_step)
    next
      case False
      then have "child_of ?k z w" using step.hyps(2) by (auto simp: child_of_def)
      then show ?thesis using step.IH False by (auto intro: below_step)
    qed
  qed simp
  ultimately show ?thesis using below_mono [of ?k k y] by auto
qed

lemma forestD:
  assumes "forest k"
  shows "k x = Some ys \<Longrightarrow> distinct ys" "k x = Some ys \<Longrightarrow> set ys \<subseteq> dom k"
    and "child_of k x y \<Longrightarrow> child_of k x' y \<Longrightarrow> x = x'" "\<not> (child_of k)\<^sup>+\<^sup>+ x x"
  using assms unfolding forest_def child_of_def by (blast, blast, blast, blast)

lemma forest_not_above: "forest k \<Longrightarrow> child_of k x y \<Longrightarrow> x \<notin> below k y"
  using forestD(4) [of k x] by (auto simp: below_def intro: rtranclp_into_tranclp2)

lemma below_in_dom: "forest k \<Longrightarrow> x \<in> dom k \<Longrightarrow> below k x \<subseteq> dom k"
proof
  fix y assume f: "forest k" "x \<in> dom k" "y \<in> below k x"
  from f(3) show "y \<in> dom k"
    by (induction rule: below_induct) (use f(2) forestD(2) [OF f(1)] in \<open>fastforce simp: child_of_def\<close>)+
qed

text \<open>A node strictly below another one has its parent below it too.\<close>

lemma below_parent:
  assumes "forest k" and "y \<in> below k x" and "y \<noteq> x" and "child_of k z y"
  shows "z \<in> below k x"
proof -
  from assms(2,3) have "\<exists>w\<in>below k x. child_of k w y"
    by (induction rule: below_induct) auto
  then show ?thesis using forestD(3) [OF assms(1) _ assms(4)] by blast
qed

lemma orphan_below: "orphan k y \<Longrightarrow> y \<in> below k x \<Longrightarrow> y = x"
proof -
  assume o: "orphan k y" and "y \<in> below k x"
  from this(2) have "y = x \<or> (\<exists>w. child_of k w y)" by (induction rule: below_induct) auto
  then show ?thesis using o by (auto simp: orphan_def)
qed

section \<open>The three changes\<close>

lemma relinked_path:
  assumes "(child_of (k(x \<mapsto> zs)))\<^sup>+\<^sup>+ a b" and "k x = Some ys" and "set zs \<subseteq> set ys \<union> U"
  shows "(child_of k)\<^sup>+\<^sup>+ a b \<or> ((x \<in> below k a \<or> (\<exists>u\<in>U. x \<in> below k u)) \<and> (\<exists>u\<in>U. b \<in> below k u))"
proof -
  have e: "child_of k a b \<or> a = x \<and> b \<in> U" if "child_of (k(x \<mapsto> zs)) a b" for a b
    using that assms(2,3) by (auto simp: child_of_def split: if_splits)
  from assms(1) show ?thesis
  proof (induction rule: tranclp_induct)
    case (base b)
    then show ?case using e [of a b] by (auto intro: below_refl)
  next
    case (step b c)
    from e [OF step(2)] show ?case
    proof
      assume "child_of k b c"
      then show ?thesis using step(3) by (meson below_step tranclp.trancl_into_trancl)
    next
      assume "b = x \<and> c \<in> U"
      then show ?thesis using step(3) by (auto simp: below_def intro: tranclp_into_rtranclp)
    qed
  qed
qed

lemma forestI:
  assumes "\<And>x ys. k x = Some ys \<Longrightarrow> distinct ys \<and> set ys \<subseteq> dom k"
    and "\<And>x x' y. child_of k x y \<Longrightarrow> child_of k x' y \<Longrightarrow> x = x'" and "\<And>x. \<not> (child_of k)\<^sup>+\<^sup>+ x x"
  shows "forest k"
  using assms unfolding forest_def child_of_def by blast

lemma forest_relink:
  assumes "forest k" and "k x = Some ys" and "distinct zs" and "set zs \<subseteq> set ys \<union> U"
    and "\<And>u. u \<in> U \<Longrightarrow> u \<in> dom k \<and> orphan k u \<and> x \<notin> below k u"
  shows "forest (k(x \<mapsto> zs))"
proof (rule forestI)
  have zs: "set zs \<subseteq> dom k" using assms(4,5) forestD(2) [OF assms(1,2)] by blast
  show "distinct ws \<and> set ws \<subseteq> dom (k(x \<mapsto> zs))" if "(k(x \<mapsto> zs)) w = Some ws" for w ws
    using that zs assms(3) forestD(1,2) [OF assms(1), of w ws] by (cases "w = x") auto
next
  have x: "y \<in> set zs \<Longrightarrow> child_of k w y \<Longrightarrow> w = x" for w y
  proof -
    assume y: "y \<in> set zs" "child_of k w y"
    then have "y \<in> set ys" using assms(4,5) by (auto simp: orphan_def)
    then have "child_of k x y" using assms(2) by (simp add: child_of_def)
    then show "w = x" using forestD(3) [OF assms(1)] y(2) by blast
  qed
  show "v = w" if "child_of (k(x \<mapsto> zs)) v y" "child_of (k(x \<mapsto> zs)) w y" for v w y
  proof (cases "v = x \<or> w = x")
    case True
    then show ?thesis using that x [of y v] x [of y w] by (auto simp: child_of_def split: if_splits)
  next
    case False
    then have "child_of k v y" "child_of k w y" using that by (auto simp: child_of_def)
    then show ?thesis by (rule forestD(3) [OF assms(1)])
  qed
next
  show "\<not> (child_of (k(x \<mapsto> zs)))\<^sup>+\<^sup>+ z z" for z
  proof
    assume "(child_of (k(x \<mapsto> zs)))\<^sup>+\<^sup>+ z z"
    from relinked_path [OF this assms(2,4)] forestD(4) [OF assms(1), of z]
    have "(x \<in> below k z \<or> (\<exists>u\<in>U. x \<in> below k u)) \<and> (\<exists>u\<in>U. z \<in> below k u)" by simp
    then obtain u where "u \<in> U" "x \<in> below k u" using below_trans [of z k _ x] by auto
    then show False using assms(5) by simp
  qed
qed

lemma forest_new:
  assumes "forest k" and "x \<notin> dom k"
  shows "forest (k(x \<mapsto> []))" and "orphan (k(x \<mapsto> [])) x" and "child_of (k(x \<mapsto> [])) = child_of k"
proof -
  show c: "child_of (k(x \<mapsto> [])) = child_of k"
    using assms(2) by (auto simp: child_of_def fun_eq_iff dom_def)
  show "orphan (k(x \<mapsto> [])) x"
    unfolding orphan_def c using assms(2) forestD(2) [OF assms(1)] by (fastforce simp: child_of_def)
  show "forest (k(x \<mapsto> []))"
  proof (rule forestI)
    show "distinct ys \<and> set ys \<subseteq> dom (k(x \<mapsto> []))" if "(k(x \<mapsto> [])) w = Some ys" for w ys
      using that forestD(1,2) [OF assms(1), of w ys] by (cases "w = x") auto
  qed (use forestD(3,4) [OF assms(1)] in \<open>auto simp: c\<close>)
qed

lemma child_of_restrict: "child_of (k |` A) x y \<longleftrightarrow> x \<in> A \<and> child_of k x y"
  by (auto simp: child_of_def restrict_map_def)

lemma forest_restrict:
  assumes "forest k" and "\<And>x y. child_of k x y \<Longrightarrow> y \<in> D \<Longrightarrow> x \<in> D"
  shows "forest (k |` (- D))"
proof (rule forestI)
  have sub: "child_of (k |` (- D)) x y \<Longrightarrow> child_of k x y" for x y by (simp add: child_of_restrict)
  have "(child_of k)\<^sup>+\<^sup>+ x y" if "(child_of (k |` (- D)))\<^sup>+\<^sup>+ x y" for x y
    using that by (induction rule: tranclp_induct) (auto intro: tranclp.trancl_into_trancl dest: sub)
  then show "\<not> (child_of (k |` (- D)))\<^sup>+\<^sup>+ x x" for x using forestD(4) [OF assms(1)] by blast
  show "x = x'" if "child_of (k |` (- D)) x y" "child_of (k |` (- D)) x' y" for x x' y
    using forestD(3) [OF assms(1)] sub that by blast
  show "distinct ys \<and> set ys \<subseteq> dom (k |` (- D))" if "(k |` (- D)) x = Some ys" for x ys
    using that assms(2) [of x] forestD(1,2) [OF assms(1), of x ys]
    by (fastforce simp: restrict_map_def child_of_def split: if_splits)
qed

section \<open>Moving a node\<close>

lemma child_of_upd: "child_of (k(x \<mapsto> zs)) a b \<longleftrightarrow> (if a = x then b \<in> set zs else child_of k a b)"
  by (auto simp: child_of_def)

lemma forest_permute:
  assumes "forest k" and "k x = Some ys" and "distinct zs" and "set zs = set ys"
  shows "forest (k(x \<mapsto> zs))"
  using forest_relink [OF assms(1-3), of "{}"] assms(4) by simp

lemma forest_move:
  assumes "forest k" and "k s = Some xs" and "x \<in> set xs" and "k d = Some ds" and "s \<noteq> d" and "d \<notin> below k x"
    and "distinct xs'" and "set xs' = set xs - {x}" and "distinct ds'" and "set ds' = insert x (set ds)"
  shows "forest (k(s \<mapsto> xs', d \<mapsto> ds'))"
proof (rule forest_relink [where U = "{x}"])
  let ?k = "k(s \<mapsto> xs')"
  show "forest ?k" using forest_relink [OF assms(1,2,7), of "{}"] assms(8) by auto
  have sub: "child_of ?k a b \<Longrightarrow> child_of k a b" for a b
    using assms(2,8) by (auto simp: child_of_def split: if_splits)
  have "x \<in> dom k" using forestD(2) [OF assms(1,2)] assms(3) by blast
  moreover have "orphan ?k x"
  proof -
    have c: "child_of k s x" using assms(2,3) by (simp add: child_of_def)
    have "\<not> child_of ?k a x" for a
    proof
      assume a: "child_of ?k a x"
      then have "a = s" by (rule forestD(3) [OF assms(1) sub c])
      then show False using a assms(8) by (simp add: child_of_upd)
    qed
    then show ?thesis by (simp add: orphan_def)
  qed
  moreover have "d \<notin> below ?k x" using below_sub [of ?k k x] sub assms(6) by blast
  ultimately show "u \<in> {x} \<Longrightarrow> u \<in> dom ?k \<and> orphan ?k u \<and> d \<notin> below ?k u" for u by simp
qed (use assms in auto)

lemma forest_wrap:
  assumes "forest k" and "k d = Some ds" and "x \<in> set ds" and "r \<notin> dom k"
    and "distinct ds'" and "set ds' = insert r (set ds - {x})"
  shows "forest (k(d \<mapsto> ds', r \<mapsto> [x]))"
proof -
  have rd: "r \<noteq> d" "r \<noteq> x" "x \<in> dom k" using assms(2,3,4) forestD(2) [OF assms(1,2)] by auto
  have dx: "d \<noteq> x" using forest_not_above [OF assms(1), of d x] assms(2,3) by (auto simp: child_of_def)
  let ?k = "k(r \<mapsto> [])" and ?zs = "filter (\<lambda>y. y \<noteq> x) ds"
  have k: "forest ?k" "orphan ?k r" "child_of ?k = child_of k" using forest_new [OF assms(1,4)] by auto
  have "forest (?k(d \<mapsto> ?zs, r \<mapsto> [x]))"
    by (rule forest_move [OF k(1)])
      (use assms(2,3) rd k forestD(1) [OF assms(1,2)] orphan_below [OF k(2)] in auto)
  then have m: "forest (k(r \<mapsto> [x], d \<mapsto> ?zs))" using rd(1) by (simp add: fun_upd_twist)
  let ?m = "k(r \<mapsto> [x], d \<mapsto> ?zs)"
  have "forest (?m(d \<mapsto> ds'))"
  proof (rule forest_relink [OF m, where U = "{r}"])
    have o: "orphan ?m r"
      using k(2) rd assms(2) unfolding orphan_def k(3) child_of_upd by (auto simp: child_of_def)
    have x: "d \<notin> below k x" using forest_not_above [OF assms(1), of d x] assms(2,3) by (auto simp: child_of_def)
    have bx: "y \<in> below k x" if "y \<in> below ?m x" for y
      using that
    proof (induction rule: below_induct)
      case (step y z)
      have "y \<noteq> r" using orphan_below [OF o, of x] step.hyps(1) rd(2) by blast
      then have "child_of k y z" using step.hyps(2) assms(2) by (auto simp: child_of_upd child_of_def split: if_splits)
      then show ?case using step.IH by (rule below_step [rotated])
    qed simp
    have "w = r \<or> w \<in> below ?m x" if "w \<in> below ?m r" for w
      using that
    proof (induction rule: below_induct)
      case (step y z)
      show ?case
      proof (cases "y = r")
        case True
        then have "z = x" using step.hyps(2) rd(1) by (simp add: child_of_upd)
        then show ?thesis by simp
      next
        case False
        with step.IH have "y \<in> below ?m x" by (simp only: simp_thms)
        from below_step [OF this step.hyps(2)] show ?thesis ..
      qed
    qed simp
    then have "d \<notin> below ?m r" using bx [of d] x rd(1) by blast
    with o show "u \<in> {r} \<Longrightarrow> u \<in> dom ?m \<and> orphan ?m u \<and> d \<notin> below ?m u" for u by simp
  qed (use assms rd in auto)
  then show ?thesis using rd(1) by (simp add: fun_upd_twist)
qed

end
