(* ===== verification/DashboardLayout.thy ===== *)
theory DashboardLayout
  imports FilterScoping
begin

text \<open>
  The dashboard layout, after \<open>src/dashboard/reducers/dashboardLayout.js\<close> and the utilities it
  calls: a map from ids to components, each with the ids of its children. The reducer's
  mutations of fresh copies are updates of the map; \<open>findParentId\<close> is called through its
  module-level cache, which is threaded through the operations.

  Conventions. \<open>meta.width\<close>, which the code computes with, is a field of its own (an optional
  whole number of grid columns); the other fields of \<open>meta\<close> stay together. Drop indices are
  integers. An id that is \<open>undefined\<close> is the key \<open>undefined\<close>, which is what a lookup with it
  uses. The ids of new components come from \<open>nanoid\<close>, an argument, one value per call, and so
  does the translation function \<open>t\<close>. A recursion that does not end is a \<open>StackOverflow\<close>.
\<close>

section \<open>Arrays\<close>

text \<open>\<open>splice\<close> counts a negative start from the end and clips it to the array.\<close>

definition splice_pos :: "int \<Rightarrow> nat \<Rightarrow> nat" where
  "splice_pos i n = (if i < 0 then nat (int n + i) else min (nat i) n)"

definition splice_remove :: "int \<Rightarrow> 'a list \<Rightarrow> 'a list" where
  "splice_remove i xs = (let p = splice_pos i (length xs) in take p xs @ drop (Suc p) xs)"

definition splice_insert :: "int \<Rightarrow> 'a \<Rightarrow> 'a list \<Rightarrow> 'a list" where
  "splice_insert i x xs = (let p = splice_pos i (length xs) in take p xs @ x # drop p xs)"

definition undef_id :: string where
  "undef_id = ''undefined''"

definition id_at :: "string list \<Rightarrow> int \<Rightarrow> string" where
  "id_at xs i = (if 0 \<le> i \<and> nat i < length xs then xs ! nat i else undef_id)"

text \<open>\<open>xs[i] = v\<close>: past the end the array grows, a negative index is no element.\<close>

definition id_set :: "string list \<Rightarrow> int \<Rightarrow> string \<Rightarrow> string list" where
  "id_set xs i v =
     (if i < 0 then xs
      else if nat i < length xs then xs[nat i := v]
      else xs @ replicate (nat i - length xs) undef_id @ [v])"

section \<open>Components\<close>

record component =
  co_id :: string
  co_type :: string
  co_children :: "string list"
  co_parents :: "string list option"
  co_width :: "int option"
  co_meta :: "jsval obj"

type_synonym components = "component obj"

definition blank_component :: component where
  "blank_component = \<lparr>co_id = undef_id, co_type = [], co_children = [], co_parents = None, co_width = None,
     co_meta = []\<rparr>"

text \<open>What \<open>findParentId\<close> and the filter scopes read of a layout.\<close>

definition item_of :: "component \<Rightarrow> LayoutItem" where
  "item_of c = \<lparr>li_id = co_id c, li_type = co_type c,
     li_chartId = (case map_of (co_meta c) ''chartId'' of Some (JNum (Fin q)) \<Rightarrow> Some \<lfloor>q\<rfloor> | _ \<Rightarrow> None),
     li_parents = co_parents c, li_children = co_children c\<rparr>"

definition items :: "components \<Rightarrow> layout" where
  "items lay = map (\<lambda>(i, c). (i, item_of c)) lay"

definition parent_of :: "string \<Rightarrow> components \<Rightarrow> parent_cache \<Rightarrow> string option \<times> parent_cache" where
  "parent_of childId lay cache = findParentIdWithCache childId (items lay) cache"

definition componentIsResizable :: "string \<Rightarrow> bool" where
  "componentIsResizable ty \<longleftrightarrow> ty \<in> set [''COLUMN'', ''CHART'', ''MARKDOWN'', ''DYNAMIC'']"

definition typeToWrapChildLookup :: "string list obj" where
  "typeToWrapChildLookup =
     [(''GRID'', [''CHART'', ''COLUMN'', ''MARKDOWN'']), (''TAB'', [''CHART'', ''COLUMN'', ''MARKDOWN''])]"

definition shouldWrapChildInRow :: "string \<Rightarrow> string \<Rightarrow> bool" where
  "shouldWrapChildInRow parentType childType =
     (if parentType = [] \<or> childType = [] then False
      else case map_of typeToWrapChildLookup parentType of
             None \<Rightarrow> False
           | Some wrapChildLookup \<Rightarrow> childType \<in> set wrapChildLookup)"

record meta_arg =
  ma_width :: "int option"
  ma_rest :: "jsval obj"

definition typeToDefaultMetaData :: "(string \<Rightarrow> string) \<Rightarrow> string \<Rightarrow> meta_arg" where
  "typeToDefaultMetaData t ty =
     (if ty = ''CHART'' \<or> ty = ''MARKDOWN'' then \<lparr>ma_width = Some 4, ma_rest = [(''height'', JInt 50)]\<rparr>
      else if ty = ''COLUMN'' then
        \<lparr>ma_width = Some 4, ma_rest = [(''background'', JStr ''BACKGROUND_TRANSPARENT'')]\<rparr>
      else if ty = ''HEADER'' then
        \<lparr>ma_width = None, ma_rest = [(''text'', JStr (t ''New header'')), (''headerSize'', JStr ''MEDIUM_HEADER''),
           (''background'', JStr ''BACKGROUND_TRANSPARENT'')]\<rparr>
      else if ty = ''ROW'' then
        \<lparr>ma_width = None, ma_rest = [(''background'', JStr ''BACKGROUND_TRANSPARENT'')]\<rparr>
      else if ty = ''TAB'' then
        \<lparr>ma_width = None, ma_rest = [(''text'', JStr []), (''defaultText'', JStr (t ''Tab title'')),
           (''placeholder'', JStr (t ''Tab title''))]\<rparr>
      else if ty = ''DYNAMIC'' then
        \<lparr>ma_width = Some 12, ma_rest = [(''background'', JStr ''BACKGROUND_TRANSPARENT'')]\<rparr>
      else \<lparr>ma_width = None, ma_rest = []\<rparr>)"

definition no_meta :: meta_arg where
  "no_meta = \<lparr>ma_width = None, ma_rest = []\<rparr>"

definition newComponentFactory :: "(string \<Rightarrow> string) \<Rightarrow> string \<Rightarrow> string \<Rightarrow> meta_arg \<Rightarrow> component" where
  "newComponentFactory t nanoid ty meta =
     (let d = typeToDefaultMetaData t ty
      in \<lparr>co_id = ty @ ''-'' @ nanoid, co_type = ty, co_children = [], co_parents = Some [],
          co_width = (case ma_width meta of None \<Rightarrow> ma_width d | Some w \<Rightarrow> Some w),
          co_meta = obj_assign (obj_assign [] (ma_rest d)) (ma_rest meta)\<rparr>)"

section \<open>Widths\<close>

definition getTotalChildWidth :: "string \<Rightarrow> components \<Rightarrow> int" where
  "getTotalChildWidth i lay =
     (case map_of lay i of
        None \<Rightarrow> 0
      | Some component \<Rightarrow>
          fold (\<lambda>childId w. w + (case map_of lay childId of
                                   None \<Rightarrow> 0
                                 | Some child \<Rightarrow> (case co_width child of None \<Rightarrow> 0 | Some v \<Rightarrow> v)))
            (co_children component) 0)"

record widths =
  wd_width :: "int option"
  wd_occupied :: "int option"
  wd_minimum :: "int option"

definition column_minimum :: "components \<Rightarrow> string list \<Rightarrow> int res" where
  "column_minimum lay children =
     rfold (\<lambda>childId mn. case map_of lay childId of
         None \<Rightarrow> Inl TypeError
       | Some c \<Rightarrow> Inr (if co_type c = ''ROW'' then max mn (getTotalChildWidth childId lay) else mn)) children 1"

fun getDetailedComponentWidth ::
  "nat \<Rightarrow> component option \<Rightarrow> components \<Rightarrow> parent_cache \<Rightarrow> (widths \<times> parent_cache) res" where
  "getDetailedComponentWidth 0 component lay cache = Inl StackOverflow"
| "getDetailedComponentWidth (Suc n) None lay cache =
     Inr (\<lparr>wd_width = None, wd_occupied = None, wd_minimum = None\<rparr>, cache)"
| "getDetailedComponentWidth (Suc n) (Some c) lay cache =
     (if co_type c = ''ROW'' then
        (let (pid, cache1) = parent_of (co_id c) lay cache
         in rbind (getDetailedComponentWidth n (Option.bind pid (map_of lay)) lay cache1) (\<lambda>(r, cache2).
              let occupied = getTotalChildWidth (co_id c) lay
              in Inr (\<lparr>wd_width = Some (case wd_width r of None \<Rightarrow> 12 | Some w \<Rightarrow> if w = 0 then 12 else w),
                       wd_occupied = Some occupied,
                       wd_minimum = Some (if occupied = 0 then 1 else occupied)\<rparr>, cache2)))
      else if co_type c = ''COLUMN'' then
        rbind (column_minimum lay (co_children c)) (\<lambda>mn.
          Inr (\<lparr>wd_width = co_width c, wd_occupied = Some 0, wd_minimum = Some mn\<rparr>, cache))
      else
        Inr (\<lparr>wd_width = co_width c, wd_occupied = co_width c,
              wd_minimum = (if co_type c \<in> set [''DYNAMIC'', ''MARKDOWN'', ''CHART''] then Some 1 else None)\<rparr>, cache))"

record drop_item =
  di_id :: string
  di_type :: string
  di_index :: int

record drag_item =
  dg_id :: string
  dg_type :: string
  dg_meta :: meta_arg

record drop_result =
  dr_source :: "drop_item option"
  dr_destination :: "drop_item option"
  dr_dragging :: "drag_item option"
  dr_position :: string

definition need :: "'a option \<Rightarrow> 'a res" where
  "need v = (case v of None \<Rightarrow> Inl TypeError | Some x \<Rightarrow> Inr x)"

text \<open>The number of components bounds the chain of parents.\<close>

definition depth_bound :: "components \<Rightarrow> nat" where
  "depth_bound lay = length lay + 2"

definition capacity :: "widths \<Rightarrow> int option" where
  "capacity r = (case (wd_width r, wd_occupied r) of (Some w, Some u) \<Rightarrow> Some (w - u) | _ \<Rightarrow> None)"

definition destination_capacity ::
  "drop_item \<Rightarrow> components \<Rightarrow> parent_cache \<Rightarrow> (int option \<times> parent_cache) res" where
  "destination_capacity destination lay cache =
     rbind (getDetailedComponentWidth (depth_bound lay) (map_of lay (di_id destination)) lay cache) (\<lambda>(r, cache1).
       case capacity r of
         Some v \<Rightarrow> Inr (Some v, cache1)
       | None \<Rightarrow>
           (let (pid, cache2) = parent_of (di_id destination) lay cache1
            in rbind (getDetailedComponentWidth (depth_bound lay) (Option.bind pid (map_of lay)) lay cache2)
                 (\<lambda>(g, cache3). Inr (capacity g, cache3))))"

definition getComponentWidthFromDrop ::
  "(string \<Rightarrow> string) \<Rightarrow> string \<Rightarrow> drop_result \<Rightarrow> components \<Rightarrow> parent_cache \<Rightarrow> (int option \<times> parent_cache) res" where
  "getComponentWidthFromDrop t nanoid dropResult lay cache =
     rbind (need (dr_source dropResult)) (\<lambda>source.
     rbind (need (dr_destination dropResult)) (\<lambda>destination.
     rbind (need (dr_dragging dropResult)) (\<lambda>dragging.
       let component =
             (if di_id source = ''NEW_COMPONENTS_SOURCE_ID''
              then Some (newComponentFactory t nanoid (dg_type dragging) no_meta)
              else map_of lay (dg_id dragging))
       in if di_id source = di_id destination then
            rbind (need component) (\<lambda>c. Inr (co_width c, cache))
          else
            rbind (getDetailedComponentWidth (depth_bound lay)
                (Some (case component of None \<Rightarrow> blank_component | Some c \<Rightarrow> c)) lay cache) (\<lambda>(d, cache1).
            rbind (destination_capacity destination lay cache1) (\<lambda>(cap, cache2).
              Inr ((case (cap, wd_width d) of
                      (Some v, Some w) \<Rightarrow>
                        (if v \<ge> w then Some w
                         else case wd_minimum d of
                                Some mn \<Rightarrow> if v \<ge> mn then Some v else Some (- 1)
                              | None \<Rightarrow> Some (- 1))
                    | (_, w) \<Rightarrow> w), cache2))))))"

definition doesChildOverflowParent ::
  "(string \<Rightarrow> string) \<Rightarrow> string \<Rightarrow> drop_result \<Rightarrow> components \<Rightarrow> parent_cache \<Rightarrow> (bool \<times> parent_cache) res" where
  "doesChildOverflowParent t nanoid dropResult lay cache =
     rbind (getComponentWidthFromDrop t nanoid dropResult lay cache) (\<lambda>(childWidth, cache1).
       Inr ((case childWidth of None \<Rightarrow> False | Some w \<Rightarrow> w < 0), cache1))"

section \<open>Drops\<close>

definition nonzero :: "int option \<Rightarrow> int option" where
  "nonzero w = (if w = Some 0 then None else w)"

definition or_empty :: "string list option \<Rightarrow> string list" where
  "or_empty ps = (case ps of None \<Rightarrow> [] | Some xs \<Rightarrow> xs)"

text \<open>\<open>nanoid 0\<close> names the new component, \<open>nanoid 1\<close> its row or first tab and \<open>nanoid 2\<close> the
  component that only serves to look up a default width.\<close>

definition new_drop_child ::
  "(string \<Rightarrow> string) \<Rightarrow> (nat \<Rightarrow> string) \<Rightarrow> drop_result \<Rightarrow> drag_item \<Rightarrow> component \<Rightarrow> components \<Rightarrow> parent_cache \<Rightarrow>
   (component \<times> parent_cache) res" where
  "new_drop_child t nanoid dropResult dragging dropEntity lay cache =
     (let child = (newComponentFactory t (nanoid 0) (dg_type dragging) (dg_meta dragging))
            \<lparr>co_parents := Some (or_empty (co_parents dropEntity) @ [co_id dropEntity])\<rparr>
      in if componentIsResizable (dg_type dragging)
         then rbind (getComponentWidthFromDrop t (nanoid 2) dropResult lay cache) (\<lambda>(w, cache1).
                Inr (child\<lparr>co_width := nonzero w\<rparr>, cache1))
         else Inr (child, cache))"

definition drop_entities ::
  "(string \<Rightarrow> string) \<Rightarrow> string \<Rightarrow> component \<Rightarrow> string \<Rightarrow> component \<Rightarrow> components \<times> string" where
  "drop_entities t nanoid dropEntity dragType child =
     (let path = or_empty (co_parents dropEntity) @ [co_id dropEntity]
      in if shouldWrapChildInRow (co_type dropEntity) dragType then
           (let row = (newComponentFactory t nanoid ''ROW'' no_meta)
                  \<lparr>co_children := [co_id child], co_parents := Some path\<rparr>
            in (obj_put (co_id row) row
                 (obj_put (co_id child) (child\<lparr>co_parents := Some (path @ [co_id row])\<rparr>) []), co_id row))
         else if dragType = ''TABS'' then
           (let tab = (newComponentFactory t nanoid ''TAB'' no_meta)\<lparr>co_parents := Some path\<rparr>
            in (obj_put (co_id tab) tab (obj_put (co_id child) (child\<lparr>co_children := [co_id tab]\<rparr>) []), co_id child))
         else (obj_put (co_id child) child [], co_id child))"

definition newEntitiesFromDrop ::
  "(string \<Rightarrow> string) \<Rightarrow> (nat \<Rightarrow> string) \<Rightarrow> drop_result \<Rightarrow> components \<Rightarrow> parent_cache \<Rightarrow> (components \<times> parent_cache) res" where
  "newEntitiesFromDrop t nanoid dropResult lay cache =
     rbind (need (dr_dragging dropResult)) (\<lambda>dragging.
     rbind (need (dr_destination dropResult)) (\<lambda>destination.
     rbind (need (map_of lay (di_id destination))) (\<lambda>dropEntity.
     rbind (new_drop_child t nanoid dropResult dragging dropEntity lay cache) (\<lambda>(child, cache1).
       let (newEntities, dropped) = drop_entities t (nanoid 1) dropEntity (dg_type dragging) child
       in Inr (obj_put (di_id destination)
                 (dropEntity\<lparr>co_children := splice_insert (di_index destination) dropped (co_children dropEntity)\<rparr>)
                 newEntities, cache1)))))"

definition reorder :: "string list \<Rightarrow> int \<Rightarrow> int \<Rightarrow> string list" where
  "reorder xs startIndex endIndex =
     (let p = splice_pos startIndex (length xs);
          removed = (if p < length xs then xs ! p else undef_id)
      in splice_insert endIndex removed (splice_remove startIndex xs))"

definition reorderItem ::
  "components \<Rightarrow> drop_item \<Rightarrow> drop_item \<Rightarrow> string \<Rightarrow> components res" where
  "reorderItem entitiesMap source destination position =
     rbind (need (map_of entitiesMap (di_id source))) (\<lambda>sourceEntity.
     rbind (need (map_of entitiesMap (di_id destination))) (\<lambda>destinationEntity.
       let current = co_children sourceEntity; nxt = co_children destinationEntity;
           target = id_at current (di_index source);
           isTabsType = (di_type source \<noteq> [] \<and> di_type destination = ''TABS'');
           dropIndex = di_index destination
       in if di_id source = di_id destination then
            (let dropIndex1 = (if \<not> isTabsType then dropIndex
                   else if position = ''DROP_LEFT'' then max dropIndex 0
                   else if position = ''DROP_RIGHT'' then dropIndex + 1 else dropIndex);
                 sameTabSourceIndex = (isTabsType \<and>
                   (position = ''DROP_RIGHT'' \<and> di_index source = di_index destination + 1 \<or>
                    position = ''DROP_LEFT'' \<and> di_index source = di_index destination - 1));
                 dropIndex2 = (if isTabsType \<and> dropIndex1 > di_index source then dropIndex1 - 1 else dropIndex1)
             in if sameTabSourceIndex then Inr entitiesMap
                else Inr (obj_put (di_id source)
                       (sourceEntity\<lparr>co_children := reorder current (di_index source) dropIndex2\<rparr>) entitiesMap))
          else
            (let dropIndex1 = (if \<not> isTabsType then dropIndex
                   else if position = ''DROP_LEFT'' then max dropIndex 0
                   else if position = ''DROP_RIGHT'' then min (dropIndex + 1) (int (length current) - 1)
                   else dropIndex)
             in Inr (obj_put (di_id destination)
                       (destinationEntity\<lparr>co_children := splice_insert dropIndex1 target nxt\<rparr>)
                  (obj_put (di_id source)
                       (sourceEntity\<lparr>co_children := splice_remove (di_index source) current\<rparr>) entitiesMap)))))"

section \<open>Deleting\<close>

definition unlink_child :: "string \<Rightarrow> string \<Rightarrow> components \<Rightarrow> components" where
  "unlink_child componentId componentParentId nextComponents =
     (case map_of nextComponents componentParentId of
        None \<Rightarrow> nextComponents
      | Some parent \<Rightarrow>
          (if componentId \<in> set (co_children parent)
           then obj_put componentParentId (parent\<lparr>co_children := remove1 componentId (co_children parent)\<rparr>) nextComponents
           else nextComponents))"

lemma map_of_unlink_child:
  "map_of (unlink_child c p m) =
     (case map_of m p of
        None \<Rightarrow> map_of m
      | Some d \<Rightarrow> (map_of m)(p \<mapsto> d\<lparr>co_children := remove1 c (co_children d)\<rparr>))"
  by (auto simp: unlink_child_def map_of_obj_put remove1_idem fun_eq_iff split: option.splits)

lemma dom_unlink_child [simp]: "dom (map_of (unlink_child c p m)) = dom (map_of m)"
  by (auto simp: map_of_unlink_child split: option.splits)

text \<open>
  The two functions follow the recursion of \<open>recursivelyDeleteChildren\<close> and its loop over the
  children; every call that recurses has removed a component, so it ends on every layout.
\<close>

function recursivelyDeleteChildren :: "string \<Rightarrow> string \<Rightarrow> components \<Rightarrow> components"
  and delete_each :: "string \<Rightarrow> string list \<Rightarrow> components \<Rightarrow> components" where
  "recursivelyDeleteChildren componentId componentParentId nextComponents =
     (case map_of nextComponents componentId of
        None \<Rightarrow> nextComponents
      | Some component \<Rightarrow>
          unlink_child componentId componentParentId
            (delete_each componentId (co_children component) (AList.delete componentId nextComponents)))"
| "delete_each componentId [] nextComponents = nextComponents"
| "delete_each componentId (childId # children) nextComponents =
     delete_each componentId children (recursivelyDeleteChildren childId componentId nextComponents)"
  by pat_completeness auto

lemma delete_dom:
  "recursivelyDeleteChildren_delete_each_dom (Inl (c, p, m)) \<Longrightarrow>
     dom (map_of (recursivelyDeleteChildren c p m)) \<subseteq> dom (map_of m)"
  "recursivelyDeleteChildren_delete_each_dom (Inr (p, cs, m)) \<Longrightarrow>
     dom (map_of (delete_each p cs m)) \<subseteq> dom (map_of m)"
proof (induction c p m and p cs m rule: recursivelyDeleteChildren_delete_each.pinduct)
  case (1 c p m)
  show ?case
  proof (cases "map_of m c")
    case None
    then show ?thesis using 1(1) by (simp add: recursivelyDeleteChildren.psimps)
  next
    case (Some d)
    with 1(2) have "dom (map_of (delete_each c (co_children d) (AList.delete c m))) \<subseteq> dom (map_of (AList.delete c m))"
      by blast
    also have "\<dots> \<subseteq> dom (map_of m)" by (auto simp: delete_conv' split: if_splits)
    finally show ?thesis using 1(1) Some by (simp add: recursivelyDeleteChildren.psimps)
  qed
next
  case (2 p m)
  then show ?case by (simp add: delete_each.psimps)
next
  case (3 p c cs m)
  then show ?case by (simp add: delete_each.psimps)
qed

termination recursivelyDeleteChildren
proof (relation "measures [\<lambda>a. case a of Inl (c, p, m) \<Rightarrow> card (dom (map_of m)) | Inr (p, cs, m) \<Rightarrow> card (dom (map_of m)),
    \<lambda>a. case a of Inl _ \<Rightarrow> 0 | Inr (p, cs, m) \<Rightarrow> Suc (length cs)]", goal_cases)
  case 1
  then show ?case by simp
next
  case (2 c p m d)
  then have "card (dom (map_of m) - {c}) < card (dom (map_of m))"
    by (intro psubset_card_mono) (auto simp: finite_dom_map_of)
  then show ?case by (simp add: delete_conv')
next
  case (3 p c cs m)
  then show ?case by simp
next
  case (4 p c cs m)
  then have "card (dom (map_of (recursivelyDeleteChildren c p m))) \<le> card (dom (map_of m))"
    by (intro card_mono delete_dom finite_dom_map_of)
  then show ?case by auto
qed

section \<open>The parents list\<close>

fun updateComponentParentsList :: "nat \<Rightarrow> component \<Rightarrow> components \<Rightarrow> components res" where
  "updateComponentParentsList 0 currentComponent lay = Inl StackOverflow"
| "updateComponentParentsList (Suc n) currentComponent lay =
     (if map_of lay (co_id currentComponent) = None then Inr lay
      else let parentsList = or_empty (co_parents currentComponent) @ [co_id currentComponent]
           in rfold (\<lambda>childId acc.
                case map_of acc childId of
                  None \<Rightarrow> Inr acc
                | Some child \<Rightarrow>
                    (let child' = child\<lparr>co_parents := Some parentsList\<rparr>
                     in updateComponentParentsList n child' (obj_put childId child' acc)))
              (co_children currentComponent) lay)"

section \<open>The reducer\<close>

datatype layout_action =
    HydrateDashboard components
  | UpdateComponents components
  | DeleteComponent "string option" "string option"
  | CreateComponent drop_result
  | MoveComponent drop_result
  | CreateTopLevelTabs drop_result
  | DeleteTopLevelTabs
  | UpdateComponentsParentsList
  | DashboardTitleChanged jsval
  | OtherAction

type_synonym layout_state = "components \<times> parent_cache"

definition given :: "string option \<Rightarrow> string option" where
  "given s = (if s = Some [] then None else s)"

definition delete_component :: "string option \<Rightarrow> string option \<Rightarrow> layout_state \<Rightarrow> layout_state" where
  "delete_component i parentId st =
     (let (state, cache) = st
      in case (given i, given parentId) of
           (Some cid, Some pid) \<Rightarrow>
             (if map_of state cid = None \<or> map_of state pid = None then st
              else
                let nextComponents = recursivelyDeleteChildren cid pid (obj_assign [] state)
                in case map_of nextComponents pid of
                     Some nextParent \<Rightarrow>
                       (if co_type nextParent = ''ROW'' \<and> co_children nextParent = [] then
                          (let (grandparentId, cache1) = parent_of pid nextComponents cache
                           in (recursivelyDeleteChildren pid (case grandparentId of None \<Rightarrow> ''null'' | Some g \<Rightarrow> g)
                                 nextComponents, cache1))
                        else (nextComponents, cache))
                   | None \<Rightarrow> (nextComponents, cache))
         | _ \<Rightarrow> st)"

definition create_component ::
  "(string \<Rightarrow> string) \<Rightarrow> (nat \<Rightarrow> string) \<Rightarrow> drop_result \<Rightarrow> layout_state \<Rightarrow> layout_state res" where
  "create_component t nanoid dropResult st =
     rbind (newEntitiesFromDrop t nanoid dropResult (fst st) (snd st)) (\<lambda>(newEntities, cache).
       Inr (obj_assign (obj_assign [] (fst st)) newEntities, cache))"

definition resize_moved ::
  "(string \<Rightarrow> string) \<Rightarrow> string \<Rightarrow> drop_result \<Rightarrow> string \<Rightarrow> components \<Rightarrow> layout_state \<Rightarrow> layout_state res" where
  "resize_moved t nanoid dropResult draggingId nextEntities st =
     rbind (need (map_of nextEntities draggingId)) (\<lambda>c.
       if componentIsResizable (co_type c) then
         rbind (getComponentWidthFromDrop t nanoid dropResult (fst st) (snd st)) (\<lambda>(w, cache).
           Inr (if co_width c \<noteq> nonzero w
                then obj_put draggingId (c\<lparr>co_width := nonzero w\<rparr>) nextEntities else nextEntities, cache))
       else Inr (nextEntities, snd st))"

definition wrap_in_row ::
  "(string \<Rightarrow> string) \<Rightarrow> string \<Rightarrow> drop_item \<Rightarrow> components \<Rightarrow> components res" where
  "wrap_in_row t nanoid destination nextEntities =
     rbind (need (map_of nextEntities (di_id destination))) (\<lambda>destinationEntity.
       let destinationChildren = co_children destinationEntity;
           newRow = (newComponentFactory t nanoid ''ROW'' no_meta)
             \<lparr>co_children := [id_at destinationChildren (di_index destination)],
              co_parents := Some (or_empty (co_parents destinationEntity) @ [di_id destination])\<rparr>
       in Inr (obj_put (co_id newRow) newRow
            (obj_put (di_id destination)
              (destinationEntity\<lparr>co_children := id_set destinationChildren (di_index destination) (co_id newRow)\<rparr>)
              nextEntities)))"

definition move_component ::
  "(string \<Rightarrow> string) \<Rightarrow> (nat \<Rightarrow> string) \<Rightarrow> drop_result \<Rightarrow> layout_state \<Rightarrow> layout_state res" where
  "move_component t nanoid dropResult st =
     (case (dr_source dropResult, dr_destination dropResult, dr_dragging dropResult) of
        (Some source, Some destination, Some dragging) \<Rightarrow>
          rbind (reorderItem (fst st) source destination (dr_position dropResult)) (\<lambda>nextEntities0.
          rbind (resize_moved t (nanoid 2) dropResult (dg_id dragging) nextEntities0 st) (\<lambda>(nextEntities1, cache).
          rbind (if shouldWrapChildInRow (di_type destination) (dg_type dragging)
                 then wrap_in_row t (nanoid 1) destination nextEntities1
                 else Inr nextEntities1) (\<lambda>nextEntities.
            Inr (obj_assign (obj_assign [] (fst st)) nextEntities, cache))))
      | _ \<Rightarrow> Inr st)"

definition find_type :: "string \<Rightarrow> components \<Rightarrow> (string \<times> component) res" where
  "find_type ty newEntities = need (find (\<lambda>(_, c). co_type c = ty) newEntities)"

definition create_top_level_tabs ::
  "(string \<Rightarrow> string) \<Rightarrow> (nat \<Rightarrow> string) \<Rightarrow> drop_result \<Rightarrow> layout_state \<Rightarrow> layout_state res" where
  "create_top_level_tabs t nanoid dropResult st =
     (let state = fst st
      in rbind (need (map_of state ''ROOT_ID'')) (\<lambda>rootComponent.
         let topLevelId = id_at (co_children rootComponent) 0
         in rbind (need (dr_source dropResult)) (\<lambda>source.
            if di_id source \<noteq> ''NEW_COMPONENTS_SOURCE_ID'' then
              rbind (need (dr_dragging dropResult)) (\<lambda>dragging.
              rbind (need (map_of state (dg_id dragging))) (\<lambda>draggingTabs.
              rbind (need (map_of state topLevelId)) (\<lambda>topLevelComponent.
                let draggingTabId = id_at (co_children draggingTabs) 0;
                    childrenToMove = filter (\<lambda>i. i \<noteq> dg_id dragging) (co_children topLevelComponent)
                in rbind (need (map_of state draggingTabId)) (\<lambda>draggingTab.
                     Inr (obj_put draggingTabId (draggingTab\<lparr>co_children := co_children draggingTab @ childrenToMove\<rparr>)
                          (obj_put topLevelId (topLevelComponent\<lparr>co_children := []\<rparr>)
                          (obj_put ''ROOT_ID'' (rootComponent\<lparr>co_children := [dg_id dragging]\<rparr>)
                            (obj_assign [] state))), snd st)))))
            else
              rbind (newEntitiesFromDrop t nanoid dropResult state (snd st)) (\<lambda>(newEntities, cache).
              rbind (find_type ''TAB'' newEntities) (\<lambda>(tabKey, tabComponent).
              rbind (need (map_of state topLevelId)) (\<lambda>topLevelComponent.
              rbind (find_type ''TABS'' newEntities) (\<lambda>(_, tabsComponent).
                Inr (obj_assign (obj_assign [] state)
                   (obj_put ''ROOT_ID'' (rootComponent\<lparr>co_children := [co_id tabsComponent]\<rparr>)
                   (obj_put topLevelId (topLevelComponent\<lparr>co_children := []\<rparr>)
                   (obj_put tabKey (tabComponent\<lparr>co_children := co_children topLevelComponent\<rparr>) newEntities))),
                 cache))))))))"

definition delete_top_level_tabs :: "layout_state \<Rightarrow> layout_state res" where
  "delete_top_level_tabs st =
     (let state = fst st
      in rbind (need (map_of state ''ROOT_ID'')) (\<lambda>rootComponent.
         let topLevelId = id_at (co_children rootComponent) 0
         in rbind (need (map_of state topLevelId)) (\<lambda>topLevelTabs.
            if co_type topLevelTabs \<noteq> ''TABS'' then Inr st
            else rbind (rmap (\<lambda>tabId. need (map_of state tabId)) (co_children topLevelTabs)) (\<lambda>tabs.
              let childrenToMove = concat (map co_children tabs);
                  nextEntities = AList.delete topLevelId (fold AList.delete (co_children topLevelTabs) (obj_assign [] state));
                  grid = (case map_of state ''GRID_ID'' of None \<Rightarrow> blank_component | Some g \<Rightarrow> g)
              in Inr (obj_put ''GRID_ID'' (grid\<lparr>co_children := childrenToMove\<rparr>)
                   (obj_put ''ROOT_ID'' (rootComponent\<lparr>co_children := [''GRID_ID'']\<rparr>) nextEntities), snd st)))))"

definition layoutReducer ::
  "(string \<Rightarrow> string) \<Rightarrow> (nat \<Rightarrow> string) \<Rightarrow> layout_action \<Rightarrow> layout_state \<Rightarrow> layout_state res" where
  "layoutReducer t nanoid action st =
     (case action of
        HydrateDashboard present \<Rightarrow> Inr (obj_assign [] present, snd st)
      | UpdateComponents nextComponents \<Rightarrow> Inr (obj_assign (obj_assign [] (fst st)) nextComponents, snd st)
      | DeleteComponent i parentId \<Rightarrow> Inr (delete_component i parentId st)
      | CreateComponent dropResult \<Rightarrow> create_component t nanoid dropResult st
      | MoveComponent dropResult \<Rightarrow> move_component t nanoid dropResult st
      | CreateTopLevelTabs dropResult \<Rightarrow> create_top_level_tabs t nanoid dropResult st
      | DeleteTopLevelTabs \<Rightarrow> delete_top_level_tabs st
      | UpdateComponentsParentsList \<Rightarrow>
          (case map_of (fst st) ''ROOT_ID'' of
             None \<Rightarrow> Inr (obj_assign [] (fst st), snd st)
           | Some rootComponent \<Rightarrow>
               rbind (updateComponentParentsList (depth_bound (fst st)) rootComponent (obj_assign [] (fst st)))
                 (\<lambda>lay. Inr (obj_assign [] lay, snd st)))
      | DashboardTitleChanged txt \<Rightarrow>
          rbind (need (map_of (fst st) ''HEADER_ID'')) (\<lambda>header.
            Inr (obj_put ''HEADER_ID'' (header\<lparr>co_meta := obj_put ''text'' txt (obj_assign [] (co_meta header))\<rparr>)
                  (obj_assign [] (fst st)), snd st))
      | OtherAction \<Rightarrow> Inr st)"

text \<open>The reducer of the store: \<open>layoutOnlyReducer\<close> of \<open>undoableDashboardLayout.js\<close>.\<close>

fun tracked_action :: "layout_action \<Rightarrow> bool" where
  "tracked_action UpdateComponentsParentsList = False"
| "tracked_action (DashboardTitleChanged _) = False"
| "tracked_action OtherAction = False"
| "tracked_action _ = True"

definition layoutOnlyReducer ::
  "(string \<Rightarrow> string) \<Rightarrow> (nat \<Rightarrow> string) \<Rightarrow> layout_action \<Rightarrow> layout_state \<Rightarrow> layout_state res" where
  "layoutOnlyReducer t nanoid action st =
     (if \<not> tracked_action action then Inr st else layoutReducer t nanoid action st)"

section \<open>The drop handler\<close>

datatype toast = NotEnoughSpace | TopLevelTabIntoNested | DifferentFilterScope

definition isInDifferentFilterScopes :: "string list obj obj \<Rightarrow> string list \<Rightarrow> string list \<Rightarrow> bool" where
  "isInDifferentFilterScopes dashboardFilters source destination =
     list_ex (\<lambda>tab. (tab \<in> set destination) \<noteq> (tab \<in> set source))
       (concat (map (\<lambda>(_, scopes). concat (map snd scopes)) dashboardFilters))"

definition drop_action :: "components \<Rightarrow> drop_result \<Rightarrow> drop_item \<Rightarrow> drop_item \<Rightarrow> layout_action option" where
  "drop_action lay dropResult source destination =
     (let rootChildId = (case map_of lay ''ROOT_ID'' of
            None \<Rightarrow> [] | Some rootComponent \<Rightarrow> id_at (co_children rootComponent) 0)
      in if di_id destination = ''ROOT_ID'' then Some (CreateTopLevelTabs dropResult)
         else if di_id source = ''NEW_COMPONENTS_SOURCE_ID'' then Some (CreateComponent dropResult)
         else if di_type source = ''TABS'' \<and> di_type destination = ''TABS'' \<and>
                 di_id source = rootChildId \<and> di_id destination \<noteq> rootChildId then None
         else if di_id destination = di_id source \<and> di_index destination = di_index source then Some OtherAction
         else Some (MoveComponent dropResult))"

text \<open>The parent left behind by a move is deleted when it is an empty row or tab container.\<close>

definition clean_source ::
  "(string \<Rightarrow> string) \<Rightarrow> (nat \<Rightarrow> string) \<Rightarrow> string \<Rightarrow> layout_state \<Rightarrow> layout_state res" where
  "clean_source t nanoid sourceId st =
     (case map_of (fst st) sourceId of
        None \<Rightarrow> Inr st
      | Some sourceComponent \<Rightarrow>
          (if (co_type sourceComponent = ''TABS'' \<or> co_type sourceComponent = ''ROW'') \<and> co_children sourceComponent = []
           then (let (parentId, cache) = parent_of sourceId (fst st) (snd st)
                 in layoutOnlyReducer t nanoid (DeleteComponent (Some sourceId) parentId) (fst st, cache))
           else Inr st))"

definition scope_path :: "components \<Rightarrow> string \<Rightarrow> string list" where
  "scope_path lay i = (case map_of lay i of None \<Rightarrow> [] | Some c \<Rightarrow> or_empty (co_parents c)) @ [i]"

definition handleComponentDrop ::
  "(string \<Rightarrow> string) \<Rightarrow> (nat \<Rightarrow> string) \<Rightarrow> string list obj obj \<Rightarrow> drop_result \<Rightarrow> layout_state \<Rightarrow> (layout_state \<times> toast list) res" where
  "handleComponentDrop t nanoid dashboardFilters dropResult st =
     rbind (doesChildOverflowParent t (nanoid 3) dropResult (fst st) (snd st)) (\<lambda>(overflowsParent, cache).
       if overflowsParent then Inr ((fst st, cache), [NotEnoughSpace])
       else
         rbind (need (dr_source dropResult)) (\<lambda>source.
         rbind (need (dr_destination dropResult)) (\<lambda>destination.
           case drop_action (fst st) dropResult source destination of
             None \<Rightarrow> Inr ((fst st, cache), [TopLevelTabIntoNested])
           | Some action \<Rightarrow>
               rbind (layoutOnlyReducer t nanoid action (fst st, cache)) (\<lambda>st1.
                 if di_id source = ''NEW_COMPONENTS_SOURCE_ID'' then Inr (st1, [])
                 else
                   rbind (clean_source t nanoid (di_id source) st1) (\<lambda>st2.
                     Inr (st2,
                       if isInDifferentFilterScopes dashboardFilters (scope_path (fst st1) (di_id source))
                            (scope_path (fst st1) (di_id destination))
                       then [DifferentFilterScope] else []))))))"

end
