(* ===== verification/LayoutFacts.thy ===== *)
theory LayoutFacts
  imports LayoutTree DashboardLayout
begin

text \<open>
  Correctness of the dashboard layout operations. A layout is well formed (\<open>layout_ok\<close>) when
  every component knows its key and the children form a forest.
\<close>

definition kids_of :: "components \<Rightarrow> string kids" where
  "kids_of lay = map_option co_children \<circ> map_of lay"

definition layout_ok :: "components \<Rightarrow> bool" where
  "layout_ok lay \<longleftrightarrow> obj_wf lay \<and> (\<forall>x c. map_of lay x = Some c \<longrightarrow> co_id c = x) \<and> forest (kids_of lay)"

lemma dom_kids [simp]: "dom (kids_of lay) = dom (map_of lay)"
  by (auto simp: kids_of_def dom_def)

lemma kids_of_SomeD: "kids_of lay x = Some ys \<Longrightarrow> \<exists>c. map_of lay x = Some c \<and> co_children c = ys"
  by (auto simp: kids_of_def)

lemma kids_of_put [simp]: "kids_of (obj_put k v lay) = (kids_of lay)(k \<mapsto> co_children v)"
  by (auto simp: kids_of_def map_of_obj_put)

lemma kids_of_restrict: "map_of lay' = map_of lay |` A \<Longrightarrow> kids_of lay' = kids_of lay |` A"
  by (auto simp: kids_of_def restrict_map_def fun_eq_iff)

lemma map_of_copy [simp]: "map_of (obj_assign [] lay) = map_of lay"
  by (simp add: map_of_obj_assign)

lemma kids_of_copy [simp]: "kids_of (obj_assign [] lay) = kids_of lay"
  by (simp add: kids_of_def)

section \<open>Parents\<close>

lemma map_of_items: "map_of (items lay) x = map_option item_of (map_of lay x)"
  by (induction lay) (auto simp: items_def)

lemma items_tree:
  assumes "layout_ok lay"
  shows "tree_layout (items lay)"
proof -
  have f: "forest (kids_of lay)" and d: "distinct (map fst lay)" and i: "\<And>x c. map_of lay x = Some c \<Longrightarrow> co_id c = x"
    using assms objd.wf_distinct by (auto simp: layout_ok_def)
  have mem: "\<exists>e. c = item_of e \<and> map_of lay k = Some e" if "(k, c) \<in> set (items lay)" for k c
    using that d by (auto simp: items_def)
  have "x = y" if "(x, c) \<in> set (items lay)" "(y, d) \<in> set (items lay)"
      "set (li_children c) \<inter> set (li_children d) \<noteq> {}" for x y c d
  proof -
    from mem [OF that(1)] mem [OF that(2)] that(3)
    obtain c' d' z where "map_of lay x = Some c'" "map_of lay y = Some d'" "z \<in> set (co_children c')" "z \<in> set (co_children d')"
      by (fastforce simp: item_of_def)
    then have "child_of (kids_of lay) x z" "child_of (kids_of lay) y z" by (auto simp: child_of_def kids_of_def)
    then show ?thesis by (rule forestD(3) [OF f])
  qed
  moreover have "li_id c = k \<and> k \<notin> set (li_children c)" if "(k, c) \<in> set (items lay)" for k c
  proof -
    from mem [OF that] obtain e where e: "c = item_of e" "map_of lay k = Some e" by blast
    then have "k \<notin> set (co_children e)"
      using forestD(4) [OF f, of k] by (auto simp: child_of_def kids_of_def)
    then show ?thesis using e i by (simp add: item_of_def)
  qed
  moreover have "distinct (map fst (items lay))" using d by (simp add: items_def o_def case_prod_beta)
  ultimately show ?thesis unfolding tree_layout_def list_all_iff by blast
qed

lemma parent_of_child:
  assumes "layout_ok lay" and "child_of (kids_of lay) p x"
  shows "fst (parent_of x lay cache) = Some p"
proof -
  obtain c where c: "map_of lay p = Some c" "x \<in> set (co_children c)"
    using assms(2) by (auto simp: child_of_def dest: kids_of_SomeD)
  then have "(p, item_of c) \<in> set (items lay)" by (force simp: items_def dest: map_of_SomeD)
  then show ?thesis
    using findParentId_unique [OF items_tree [OF assms(1)], of p "item_of c" x] c(2)
      findParentIdWithCache_eq [OF items_tree [OF assms(1)]]
    by (simp add: parent_of_def item_of_def)
qed

section \<open>Deleting\<close>

declare recursivelyDeleteChildren.simps [simp del]

lemma delete_children:
  assumes "map_of m c = Some d"
    and "map_of m' = map_of (AList.delete c m) |` (- (\<Union>x\<in>set (co_children d). below (kids_of (AList.delete c m)) x))"
  shows "map_of m' = map_of m |` (- below (kids_of m) c)"
proof -
  have k: "kids_of (AList.delete c m) = (kids_of m)(c := None)" by (auto simp: kids_of_def delete_conv' fun_eq_iff)
  have b: "below (kids_of m) c = insert c (\<Union>x\<in>set (co_children d). below (kids_of (AList.delete c m)) x)"
    unfolding k using assms(1) by (intro below_unfold) (simp add: kids_of_def)
  show ?thesis unfolding assms(2) b by (auto simp: delete_conv' restrict_map_def fun_eq_iff)
qed

lemma delete_nested:
  "p \<notin> dom (map_of m) \<Longrightarrow>
     map_of (recursivelyDeleteChildren c p m) = map_of m |` (- below (kids_of m) c)"
  "p \<notin> dom (map_of m) \<Longrightarrow>
     map_of (delete_each p cs m) = map_of m |` (- (\<Union>c\<in>set cs. below (kids_of m) c))"
proof (induction c p m and p cs m rule: recursivelyDeleteChildren_delete_each.induct)
  case (1 c p m)
  show ?case
  proof (cases "map_of m c")
    case None
    then have "below (kids_of m) c = {c}" by (intro below_leaf) (simp add: kids_of_def)
    then show ?thesis using None by (auto simp: recursivelyDeleteChildren.simps restrict_map_def fun_eq_iff)
  next
    case (Some d)
    have "c \<notin> dom (map_of (AList.delete c m))" by (simp add: delete_conv' dom_def)
    from delete_children [OF Some 1(1) [OF Some this]] show ?thesis
      using Some 1(2) by (simp add: recursivelyDeleteChildren.simps unlink_child_def restrict_map_def domIff)
  qed
next
  case (2 p m)
  then show ?case by simp
next
  case (3 p c cs m)
  let ?m = "recursivelyDeleteChildren c p m"
  have m: "map_of ?m = map_of m |` (- below (kids_of m) c)" using 3 by blast
  then have p: "p \<notin> dom (map_of ?m)" using 3(3) by (auto simp: restrict_map_def split: if_splits)
  have "below (kids_of m) c \<union> (\<Union>x\<in>set cs. below (kids_of ?m) x) =
      below (kids_of m) c \<union> (\<Union>x\<in>set cs. below (kids_of m) x)"
    using below_restrict [of "kids_of m" c] unfolding kids_of_restrict [OF m] by blast
  moreover have "map_of (delete_each p (c # cs) m) =
      map_of m |` (- (below (kids_of m) c \<union> (\<Union>x\<in>set cs. below (kids_of ?m) x)))"
    using 3(2) [OF p] m by (auto simp: restrict_map_def fun_eq_iff)
  ultimately show ?case by simp
qed

lemma recursivelyDeleteChildren_spec:
  assumes "map_of m c = Some d"
  shows "map_of (recursivelyDeleteChildren c p m) =
    (let m' = map_of m |` (- below (kids_of m) c)
     in case m' p of None \<Rightarrow> m' | Some e \<Rightarrow> m'(p \<mapsto> e\<lparr>co_children := remove1 c (co_children e)\<rparr>))"
proof -
  have "c \<notin> dom (map_of (AList.delete c m))" by (simp add: delete_conv' dom_def)
  from delete_children [OF assms delete_nested(2) [OF this]] show ?thesis
    using assms by (auto simp: recursivelyDeleteChildren.simps map_of_unlink_child Let_def split: option.split)
qed

text \<open>What is left of a layout when a set of components is gone.\<close>

definition without :: "string set \<Rightarrow> component \<Rightarrow> component" where
  "without gone c = c\<lparr>co_children := filter (\<lambda>i. i \<notin> gone) (co_children c)\<rparr>"

lemma without_id: "set (co_children c) \<inter> gone = {} \<Longrightarrow> without gone c = c"
  by (simp add: without_def filter_id_conv disjoint_iff)

lemma delete_subtree:
  assumes "layout_ok lay" and "map_of lay c = Some d" and "\<And>z. child_of (kids_of lay) z c \<Longrightarrow> z = p"
  shows "map_of (recursivelyDeleteChildren c p lay) x =
    (if x \<in> below (kids_of lay) c then None else map_option (without (below (kids_of lay) c)) (map_of lay x))"
proof -
  let ?B = "below (kids_of lay) c"
  have f: "forest (kids_of lay)" using assms(1) by (simp add: layout_ok_def)
  have only: "y = c \<and> z = p" if "map_of lay z = Some g" "z \<notin> ?B" "y \<in> set (co_children g)" "y \<in> ?B" for y z g
  proof -
    have ch: "child_of (kids_of lay) z y" using that(1,3) by (auto simp: child_of_def kids_of_def)
    then have "y = c" using below_parent [OF f that(4)] that(2) by blast
    then show ?thesis using assms(3) ch by blast
  qed
  show ?thesis
  proof (cases "map_of lay x")
    case None
    then show ?thesis by (auto simp: recursivelyDeleteChildren_spec [OF assms(2)] restrict_map_def Let_def split: option.split)
  next
    case (Some g)
    have dist: "distinct (co_children g)" using forestD(1) [OF f, of x] Some by (simp add: kids_of_def)
    have "remove1 c (co_children g) = filter (\<lambda>i. i \<notin> ?B) (co_children g)" if "x \<notin> ?B"
      using only [OF Some that] dist below_refl [of c "kids_of lay"]
      by (auto simp: distinct_remove1_removeAll removeAll_filter_not_eq simp del: below_refl intro!: filter_cong)
    moreover have "without ?B g = g" if "x \<notin> ?B" "x \<noteq> p"
      using only [OF Some that(1)] that(2) by (intro without_id) auto
    ultimately show ?thesis
      using Some by (cases "x = p") (auto simp: recursivelyDeleteChildren_spec [OF assms(2)] restrict_map_def Let_def
          without_def split: option.split)
  qed
qed

lemma obj_wf_delete_children: "obj_wf m \<Longrightarrow> obj_wf (recursivelyDeleteChildren c p m)"
  "obj_wf m \<Longrightarrow> obj_wf (delete_each p cs m)"
proof (induction c p m and p cs m rule: recursivelyDeleteChildren_delete_each.induct)
  case (1 c p m)
  then show ?case
    by (auto simp: recursivelyDeleteChildren.simps unlink_child_def obj_wf_delete obj_wf_put split: option.splits)
qed auto

lemma layout_ok_gone:
  assumes "layout_ok lay" and "obj_wf lay'"
    and "\<And>x. map_of lay' x = (if x \<in> gone then None else map_option (without gone) (map_of lay x))"
  shows "layout_ok lay'"
proof -
  let ?k = "kids_of lay"
  have f: "forest ?k" using assms(1) by (simp add: layout_ok_def)
  have k: "kids_of lay' x = (if x \<in> gone then None else map_option (filter (\<lambda>i. i \<notin> gone)) (?k x))" for x
    using assms(3) [of x] by (auto simp: kids_of_def without_def option.map_comp o_def)
  have sub: "child_of ?k x y \<and> x \<notin> gone \<and> y \<notin> gone" if "child_of (kids_of lay') x y" for x y
    using that k [of x] by (auto simp: child_of_def split: if_splits)
  have "forest (kids_of lay')"
  proof (rule forestI)
    show "distinct ys \<and> set ys \<subseteq> dom (kids_of lay')" if "kids_of lay' x = Some ys" for x ys
    proof -
      from that [unfolded k] obtain zs where zs: "?k x = Some zs" "ys = filter (\<lambda>i. i \<notin> gone) zs" "x \<notin> gone"
        by (auto split: if_splits)
      have "y \<in> dom (kids_of lay')" if "y \<in> set zs" "y \<notin> gone" for y
        using that forestD(2) [OF f zs(1)] by (auto simp: domIff k simp del: dom_kids)
      then show ?thesis using forestD(1) [OF f zs(1)] zs(2) by auto
    qed
    show "x = x'" if "child_of (kids_of lay') x y" "child_of (kids_of lay') x' y" for x x' y
      using sub that forestD(3) [OF f] by blast
    have "(child_of ?k)\<^sup>+\<^sup>+ x y" if "(child_of (kids_of lay'))\<^sup>+\<^sup>+ x y" for x y
      using that by (induction rule: tranclp_induct) (auto intro: tranclp.trancl_into_trancl dest: sub)
    then show "\<not> (child_of (kids_of lay'))\<^sup>+\<^sup>+ x x" for x using forestD(4) [OF f] by blast
  qed
  moreover have "co_id c = x" if "map_of lay' x = Some c" for x c
    using that assms(1,3) by (auto simp: layout_ok_def without_def split: if_splits)
  ultimately show ?thesis using assms(2) by (simp add: layout_ok_def)
qed

lemma layout_ok_copy [simp]: "layout_ok lay \<Longrightarrow> layout_ok (obj_assign [] lay)"
  by (simp add: layout_ok_def obj_wf_assign)

lemma no_parent:
  assumes "layout_ok lay" and "orphan (kids_of lay) x"
  shows "fst (parent_of x lay cache) = None"
proof -
  have "x \<notin> set (li_children i)" if "(k, i) \<in> set (items lay)" for k i
  proof -
    from that obtain c where "map_of lay k = Some c" "i = item_of c"
      using assms(1) objd.wf_distinct by (force simp: items_def layout_ok_def)
    then show ?thesis using assms(2) by (auto simp: orphan_def child_of_def kids_of_def item_of_def)
  qed
  then have "findParentId x (items lay) = None"
    by (auto simp: findParentId_def find_None_iff)
  then show ?thesis
    using findParentIdWithCache_eq [OF items_tree [OF assms(1)]] by (simp add: parent_of_def)
qed

lemma only_parent:
  assumes "layout_ok lay" and "child_of (kids_of lay) z c"
  shows "z = (case fst (parent_of c lay cache) of None \<Rightarrow> q | Some g \<Rightarrow> g)"
  using parent_of_child [OF assms] by simp

lemma delete_component_gone:
  assumes "layout_ok lay" and "child_of (kids_of lay) p c" and "c \<noteq> []" and "p \<noteq> []"
  shows "\<exists>gone. below (kids_of lay) c \<subseteq> gone \<and> gone \<subseteq> insert p (below (kids_of lay) c) \<and>
    (p \<in> gone \<longleftrightarrow> (\<exists>d. map_of lay p = Some d \<and> co_type d = ''ROW'' \<and> co_children d = [c])) \<and>
    (\<forall>x. map_of (fst (delete_component (Some c) (Some p) (lay, cache))) x =
       (if x \<in> gone then None else map_option (without gone) (map_of lay x))) \<and>
    layout_ok (fst (delete_component (Some c) (Some p) (lay, cache)))"
proof -
  let ?B = "below (kids_of lay) c" and ?r = "delete_component (Some c) (Some p) (lay, cache)"
  let ?n = "recursivelyDeleteChildren c p (obj_assign [] lay)"
  have f: "forest (kids_of lay)" using assms(1) by (simp add: layout_ok_def)
  obtain e where e: "map_of lay p = Some e" "c \<in> set (co_children e)"
    using assms(2) by (auto simp: child_of_def dest: kids_of_SomeD)
  obtain d where d: "map_of lay c = Some d"
    using forestD(2) [OF f, of p "co_children e"] e by (auto simp: kids_of_def)
  have p: "p \<notin> ?B" using forest_not_above [OF f assms(2)] .
  have n: "map_of ?n x = (if x \<in> ?B then None else map_option (without ?B) (map_of lay x))" for x
    using delete_subtree [of "obj_assign [] lay" c d p x] assms(1) d forestD(3) [OF f _ assms(2)] by simp
  have wf: "obj_wf ?n" using assms(1) by (intro obj_wf_delete_children) (simp add: layout_ok_def obj_wf_assign)
  have ok: "layout_ok ?n" by (rule layout_ok_gone [OF assms(1) wf n])
  have np: "map_of ?n p = Some (without ?B e)" using n p e by simp
  have only: "co_children (without ?B e) = [] \<longleftrightarrow> co_children e = [c]"
  proof -
    have "y = c" if "y \<in> set (co_children e)" "y \<in> ?B" for y
      using that e p below_parent [OF f that(2), of p] by (auto simp: child_of_def kids_of_def)
    then have "filter (\<lambda>i. i \<notin> ?B) (co_children e) = remove1 c (co_children e)"
      using forestD(1) [OF f, of p] e
      by (auto simp: kids_of_def distinct_remove1_removeAll removeAll_filter_not_eq intro!: filter_cong)
    then show ?thesis using e(2) by (cases "co_children e") (auto simp: without_def)
  qed
  have g: "given (Some c) = Some c" "given (Some p) = Some p" using assms(3,4) by (auto simp: given_def)
  show ?thesis
  proof (cases "co_type e = ''ROW'' \<and> co_children e = [c]")
    case False
    then have "fst ?r = ?n"
      using np only d e g by (auto simp: delete_component_def Let_def without_def)
    then show ?thesis using n ok False p e by (intro exI [of _ ?B]) auto
  next
    case True
    let ?q = "case fst (parent_of p ?n cache) of None \<Rightarrow> ''null'' | Some g \<Rightarrow> g"
    have r: "fst ?r = recursivelyDeleteChildren p ?q ?n"
      using np only True d e g by (auto simp: delete_component_def Let_def without_def split: prod.split)
    have leaf: "below (kids_of ?n) p = {p}" using np only True by (intro below_leaf) (simp add: kids_of_def)
    have q: "z = ?q" if "child_of (kids_of ?n) z p" for z using only_parent [OF ok that] .
    have m: "map_of (fst ?r) x = (if x = p then None else map_option (without {p}) (map_of ?n x))" for x
      using delete_subtree [OF ok np q, of x] unfolding r leaf by simp
    have m': "map_of (fst ?r) x = (if x \<in> insert p ?B then None else map_option (without (insert p ?B)) (map_of lay x))" for x
      unfolding m n by (cases "map_of lay x") (auto simp: without_def intro!: arg_cong [where f = "\<lambda>u. _\<lparr>co_children := u\<rparr>"] filter_cong)
    have "obj_wf (fst ?r)" unfolding r using wf by (rule obj_wf_delete_children)
    from layout_ok_gone [OF assms(1) this m'] m' True e show ?thesis
      by (intro exI [of _ "insert p ?B"]) auto
  qed
qed

text \<open>
  C9. Deleting a component removes exactly its subtree, and the row it was alone in: every other
  component stays as it was, except that the deleted ids leave the lists of children. The
  layout stays well formed.
\<close>

theorem delete_component_spec:
  assumes "layout_ok lay" and "child_of (kids_of lay) p c" and "c \<noteq> []" and "p \<noteq> []"
  shows "\<exists>gone. below (kids_of lay) c \<subseteq> gone \<and> gone \<subseteq> insert p (below (kids_of lay) c) \<and>
    (p \<in> gone \<longleftrightarrow> (\<exists>d. map_of lay p = Some d \<and> co_type d = ''ROW'' \<and> co_children d = [c])) \<and>
    (\<forall>x. map_of (fst (delete_component (Some c) (Some p) (lay, cache))) x =
       (if x \<in> gone then None else map_option (without gone) (map_of lay x))) \<and>
    layout_ok (fst (delete_component (Some c) (Some p) (lay, cache)))"
  by (rule delete_component_gone [OF assms])

section \<open>Moving\<close>

lemma splice_insert_set [simp]: "set (splice_insert i x xs) = insert x (set xs)"
proof -
  have "set (take n xs) \<union> set (drop n xs) = set xs" for n by (metis append_take_drop_id set_append)
  then show ?thesis by (auto simp: splice_insert_def Let_def)
qed

lemma splice_insert_distinct [simp]: "distinct (splice_insert i x xs) \<longleftrightarrow> x \<notin> set xs \<and> distinct xs"
proof -
  have "set (take n xs) \<union> set (drop n xs) = set xs" for n by (metis append_take_drop_id set_append)
  moreover have "distinct xs \<longleftrightarrow> distinct (take n xs) \<and> distinct (drop n xs) \<and> set (take n xs) \<inter> set (drop n xs) = {}" for n
    by (metis append_take_drop_id distinct_append)
  ultimately show ?thesis unfolding splice_insert_def Let_def by auto
qed

lemma splice_insert_at: "0 \<le> i \<Longrightarrow> nat i \<le> length xs \<Longrightarrow> id_at (splice_insert i x xs) i = x"
  by (auto simp: id_at_def splice_insert_def splice_pos_def Let_def nth_append)

lemma splice_remove_props:
  assumes "0 \<le> i" and "nat i < length xs" and "distinct xs"
  shows "set (splice_remove i xs) = set xs - {xs ! nat i}" and "distinct (splice_remove i xs)"
    and "length (splice_remove i xs) = length xs - 1"
proof -
  let ?n = "nat i"
  have p: "splice_pos i (length xs) = ?n" using assms(1,2) by (simp add: splice_pos_def)
  have xs: "xs = take ?n xs @ xs ! ?n # drop (Suc ?n) xs" using assms(2) by (simp add: id_take_nth_drop)
  have d: "distinct (take ?n xs @ xs ! ?n # drop (Suc ?n) xs)" using assms(3) xs by simp
  have "set xs = set (take ?n xs @ xs ! ?n # drop (Suc ?n) xs)" using xs by simp
  with d show "set (splice_remove i xs) = set xs - {xs ! nat i}" and "distinct (splice_remove i xs)"
    by (auto simp: splice_remove_def p Let_def)
  show "length (splice_remove i xs) = length xs - 1" using assms(2) by (simp add: splice_remove_def p Let_def)
qed

lemma reorder_props:
  assumes "0 \<le> i" and "nat i < length xs" and "distinct xs"
  shows "set (reorder xs i j) = set xs" and "distinct (reorder xs i j)" and "length (reorder xs i j) = length xs"
    and "0 \<le> j \<Longrightarrow> nat j < length xs \<Longrightarrow> id_at (reorder xs i j) j = xs ! nat i"
proof -
  have r: "reorder xs i j = splice_insert j (xs ! nat i) (splice_remove i xs)"
    using assms(1,2) by (simp add: reorder_def splice_pos_def Let_def)
  note p = splice_remove_props [OF assms]
  show "set (reorder xs i j) = set xs" using assms(2) by (auto simp: r p)
  show "distinct (reorder xs i j)" by (simp add: r p)
  have l: "length (splice_insert j y ys) = Suc (length ys)" for y ys
    by (simp add: splice_insert_def Let_def splice_pos_def min_def)
  then show "length (reorder xs i j) = length xs" using assms(2) by (simp add: r p(3) l)
  show "id_at (reorder xs i j) j = xs ! nat i" if "0 \<le> j" "nat j < length xs"
    unfolding r by (rule splice_insert_at) (use that p(3) in auto)
qed

lemma list_update_distinct_set:
  assumes "distinct ys" and "n < length ys"
  shows "set (ys[n := v]) = insert v (set ys - {ys ! n})" and "v \<notin> set ys \<Longrightarrow> distinct (ys[n := v])"
  using assms by (auto simp: set_update_distinct distinct_list_update)

text \<open>What moving the component \<open>x\<close> under \<open>d\<close> does to a layout: no component is lost or changes its
  type, every other component keeps its parent.\<close>

definition keeps_components :: "components \<Rightarrow> components \<Rightarrow> bool" where
  "keeps_components lay lay' \<longleftrightarrow>
     (\<forall>y c. map_of lay y = Some c \<longrightarrow> (\<exists>c'. map_of lay' y = Some c' \<and> co_type c' = co_type c \<and> co_meta c' = co_meta c))"

definition moved :: "components \<Rightarrow> components \<Rightarrow> string \<Rightarrow> string \<Rightarrow> bool" where
  "moved lay lay' d x \<longleftrightarrow>
     layout_ok lay' \<and> keeps_components lay lay' \<and> dom (map_of lay') = dom (map_of lay) \<and>
     (\<forall>y z. y \<noteq> x \<longrightarrow> child_of (kids_of lay') z y = child_of (kids_of lay) z y) \<and>
     child_of (kids_of lay') d x"

lemma layout_ok_put:
  assumes "layout_ok lay" and "co_id c = k" and "forest ((kids_of lay)(k \<mapsto> co_children c))"
  shows "layout_ok (obj_put k c lay)"
  using assms by (auto simp: layout_ok_def obj_wf_put map_of_obj_put)

lemma reorderItem_moved:
  assumes ok: "layout_ok lay" and r: "reorderItem lay source destination position = Inr lay'"
    and s: "map_of lay (di_id source) = Some s" and i: "0 \<le> di_index source" "nat (di_index source) < length (co_children s)"
    and x: "co_children s ! nat (di_index source) = x" and d: "di_id destination \<notin> below (kids_of lay) x"
  shows "moved lay lay' (di_id destination) x"
proof -
  let ?k = "kids_of lay" and ?s = "di_id source" and ?d = "di_id destination"
  have f: "forest ?k" and ids: "\<And>x c. map_of lay x = Some c \<Longrightarrow> co_id c = x" using ok by (auto simp: layout_ok_def)
  have ks: "?k ?s = Some (co_children s)" using s by (simp add: kids_of_def)
  have mem: "x \<in> set (co_children s)" using i x by auto
  have cs: "child_of ?k ?s x" using ks mem by (simp add: child_of_def)
  have par: "child_of ?k z x \<longleftrightarrow> z = ?s" for z using forestD(3) [OF f _ cs, of z] cs by blast
  note dist = forestD(1) [OF f ks]
  have tgt: "id_at (co_children s) (di_index source) = x" using i x by (simp add: id_at_def)
  show ?thesis
  proof (cases "?s = ?d")
    case True
    then consider "lay' = lay" | j where "lay' = obj_put ?s (s\<lparr>co_children := reorder (co_children s) (di_index source) j\<rparr>) lay"
      using r s by (auto simp: reorderItem_def need_def Let_def split: if_splits)
    then show ?thesis
    proof cases
      case 1
      then show ?thesis using ok cs True by (auto simp: moved_def keeps_components_def)
    next
      case (2 j)
      note p = reorder_props [OF i dist, of j]
      have "forest (?k(?s \<mapsto> reorder (co_children s) (di_index source) j))"
        by (rule forest_permute [OF f ks p(2,1)])
      then have "layout_ok lay'" unfolding 2 using ids [OF s] by (intro layout_ok_put [OF ok]) auto
      then show ?thesis
        using True p(1) s mem ks unfolding moved_def 2
        by (auto simp: keeps_components_def map_of_obj_put child_of_upd child_of_def)
    qed
  next
    case False
    obtain e j where e: "map_of lay ?d = Some e" and lay': "lay' = obj_put ?d (e\<lparr>co_children := splice_insert j x (co_children e)\<rparr>)
        (obj_put ?s (s\<lparr>co_children := splice_remove (di_index source) (co_children s)\<rparr>) lay)"
      using r s False tgt by (auto simp: reorderItem_def need_def Let_def split: option.splits if_splits)
    have ke: "?k ?d = Some (co_children e)" using e by (simp add: kids_of_def)
    have xe: "x \<notin> set (co_children e)" using par [of ?d] False ke by (auto simp: child_of_def)
    note p = splice_remove_props [OF i dist, unfolded x]
    have "forest (?k(?s \<mapsto> splice_remove (di_index source) (co_children s), ?d \<mapsto> splice_insert j x (co_children e)))"
      by (rule forest_move [OF f ks mem ke False d]) (use p xe forestD(1) [OF f ke] in auto)
    then have "layout_ok lay'"
      using ok ids [OF s] ids [OF e] unfolding lay' layout_ok_def by (auto simp: obj_wf_put map_of_obj_put)
    moreover have "child_of (kids_of lay') z y = child_of ?k z y" if "y \<noteq> x" for y z
      using that False p(1) ks ke unfolding lay' by (auto simp: child_of_upd child_of_def)
    ultimately show ?thesis
      using e s unfolding moved_def lay' by (auto simp: keeps_components_def map_of_obj_put child_of_upd)
  qed
qed

lemma moved_resize:
  assumes "moved lay lay' d x" and "map_of lay' y = Some c"
  shows "moved lay (obj_put y (c\<lparr>co_width := w\<rparr>) lay') d x"
proof -
  have k: "kids_of (obj_put y (c\<lparr>co_width := w\<rparr>) lay') = kids_of lay'"
    using assms(2) by (auto simp: kids_of_def map_of_obj_put fun_eq_iff)
  have "layout_ok (obj_put y (c\<lparr>co_width := w\<rparr>) lay')"
    using assms k unfolding moved_def layout_ok_def by (auto simp: obj_wf_put map_of_obj_put)
  moreover have "dom (map_of (obj_put y (c\<lparr>co_width := w\<rparr>) lay')) = dom (map_of lay')"
    using assms(2) by (auto simp: map_of_obj_put)
  moreover have "keeps_components lay (obj_put y (c\<lparr>co_width := w\<rparr>) lay')"
    using assms unfolding moved_def keeps_components_def by (force simp: map_of_obj_put)
  ultimately show ?thesis using assms(1) unfolding moved_def k by simp
qed

lemma resize_moved_ok:
  assumes "moved lay la d x" and "resize_moved t nanoid dr dragId la st = Inr (lb, cache)"
  shows "moved lay lb d x" and "kids_of lb = kids_of la"
proof -
  from assms(2) obtain c where c: "map_of la dragId = Some c"
    and r: "lb = la \<or> (\<exists>w. lb = obj_put dragId (c\<lparr>co_width := w\<rparr>) la)"
    by (auto simp: resize_moved_def need_def rbind_Inr_iff split: option.splits if_splits)
  show "moved lay lb d x" using r assms(1) moved_resize [OF assms(1) c] by auto
  show "kids_of lb = kids_of la" using r c by (auto simp: kids_of_def map_of_obj_put fun_eq_iff)
qed

text \<open>Where a moved component ends up among the children of its destination.\<close>

lemma reorderItem_index:
  assumes "layout_ok lay" and "reorderItem lay source destination position = Inr lay'"
    and "map_of lay (di_id source) = Some s" and "0 \<le> di_index source" and "nat (di_index source) < length (co_children s)"
    and "map_of lay (di_id destination) = Some e" and "di_type destination \<noteq> ''TABS''" and "0 \<le> di_index destination"
    and "nat (di_index destination) < length (co_children e) + (if di_id source = di_id destination then 0 else 1)"
  shows "\<exists>ys. kids_of lay' (di_id destination) = Some ys \<and> nat (di_index destination) < length ys \<and>
    ys ! nat (di_index destination) = co_children s ! nat (di_index source)"
proof -
  have f: "forest (kids_of lay)" using assms(1) by (simp add: layout_ok_def)
  have dist: "distinct (co_children s)" using forestD(1) [OF f, of "di_id source"] assms(3) by (simp add: kids_of_def)
  have len: "length (splice_insert j y ys) = Suc (length ys)" for j y and ys :: "string list"
    by (simp add: splice_insert_def Let_def splice_pos_def min_def)
  show ?thesis
  proof (cases "di_id source = di_id destination")
    case True
    then have "s = e" using assms(3,6) by simp
    then show ?thesis
      using True assms reorder_props [OF assms(4,5) dist, of "di_index destination"]
      by (auto simp: reorderItem_def need_def Let_def id_at_def split: if_splits)
  next
    case False
    then show ?thesis
      using assms splice_insert_at [of "di_index destination" "co_children e" "co_children s ! nat (di_index source)"]
      by (auto simp: reorderItem_def need_def Let_def id_at_def len)
  qed
qed

lemma moved_wrap:
  assumes "moved lay la (di_id d) x" and "wrap_in_row t nanoid d la = Inr lb"
    and "kids_of la (di_id d) = Some ys" and "0 \<le> di_index d" and "nat (di_index d) < length ys"
    and "ys ! nat (di_index d) = x" and "''ROW-'' @ nanoid \<notin> dom (map_of lay)"
  shows "layout_ok lb" and "keeps_components lay lb"
    and "dom (map_of lb) = insert (''ROW-'' @ nanoid) (dom (map_of lay))"
    and "child_of (kids_of lb) (di_id d) (''ROW-'' @ nanoid)" and "child_of (kids_of lb) (''ROW-'' @ nanoid) x"
    and "y \<in> dom (map_of lay) \<Longrightarrow> y \<noteq> x \<Longrightarrow> child_of (kids_of lb) z y = child_of (kids_of lay) z y"
proof -
  let ?r = "''ROW-'' @ nanoid"
  have ok1: "layout_ok la" and f: "forest (kids_of la)" and dom1: "dom (map_of la) = dom (map_of lay)"
    and keep1: "keeps_components lay la"
    and kids1: "\<And>y z. y \<noteq> x \<Longrightarrow> child_of (kids_of la) z y = child_of (kids_of lay) z y"
    using assms(1) by (auto simp: moved_def layout_ok_def)
  obtain e where e: "map_of la (di_id d) = Some e" "co_children e = ys" using assms(3) by (auto dest: kids_of_SomeD)
  have at: "id_at ys (di_index d) = x" "id_set ys (di_index d) ?r = ys[nat (di_index d) := ?r]"
    using assms(4-6) by (auto simp: id_at_def id_set_def)
  have rd: "?r \<noteq> di_id d" using assms(7) dom1 e(1) by auto
  have rys: "?r \<notin> set ys" using assms(7) dom1 forestD(2) [OF f assms(3)] by auto
  have xy: "x \<in> set ys" using assms(5,6) by auto
  note upd = list_update_distinct_set [OF forestD(1) [OF f assms(3)] assms(5), of ?r]
  obtain row where row: "lb = obj_put ?r row (obj_put (di_id d) (e\<lparr>co_children := ys[nat (di_index d) := ?r]\<rparr>) la)"
      "co_id row = ?r" "co_children row = [x]"
    using assms(2) e at by (auto simp: wrap_in_row_def need_def Let_def newComponentFactory_def)
  have k: "kids_of lb = (kids_of la)(di_id d \<mapsto> ys[nat (di_index d) := ?r], ?r \<mapsto> [x])"
    using row by simp
  have "forest (kids_of lb)"
    unfolding k by (rule forest_wrap [OF f assms(3) xy]) (use assms(6,7) dom1 upd rys in auto)
  then show "layout_ok lb"
    using ok1 row e(1) unfolding layout_ok_def by (auto simp: obj_wf_put map_of_obj_put)
  show "keeps_components lay lb"
    using keep1 e(1) assms(7) unfolding row(1) keeps_components_def by (fastforce simp: map_of_obj_put dom_def)
  show "dom (map_of lb) = insert ?r (dom (map_of lay))" using dom1 e(1) unfolding row(1) by (auto simp: map_of_obj_put)
  show "child_of (kids_of lb) (di_id d) ?r" "child_of (kids_of lb) ?r x"
    unfolding k child_of_upd using rd upd(1) by auto
  show "child_of (kids_of lb) z y = child_of (kids_of lay) z y" if "y \<in> dom (map_of lay)" "y \<noteq> x"
    using that kids1 [OF that(2), of z] assms(3,6,7) dom1 upd(1) unfolding k child_of_upd
    by (auto simp: child_of_def kids_of_def dom_def)
qed

lemma map_of_copy_over:
  assumes "dom (map_of lay) \<subseteq> dom (map_of lay')"
  shows "map_of (obj_assign (obj_assign [] lay) lay') = map_of lay'"
  using assms by (auto simp: map_of_obj_assign map_add_def fun_eq_iff split: option.splits)

lemma layout_ok_over:
  assumes "layout_ok lay" and "layout_ok lay'" and "dom (map_of lay) \<subseteq> dom (map_of lay')"
  shows "layout_ok (obj_assign (obj_assign [] lay) lay')"
    and "kids_of (obj_assign (obj_assign [] lay) lay') = kids_of lay'"
proof -
  show k: "kids_of (obj_assign (obj_assign [] lay) lay') = kids_of lay'"
    by (simp add: kids_of_def map_of_copy_over [OF assms(3)])
  show "layout_ok (obj_assign (obj_assign [] lay) lay')"
    using assms(1,2) by (simp add: layout_ok_def obj_wf_assign map_of_copy_over [OF assms(3)] k)
qed

lemma shouldWrap_dest: "shouldWrapChildInRow a b \<Longrightarrow> a \<noteq> ''TABS''"
  by (auto simp: shouldWrapChildInRow_def typeToWrapChildLookup_def split: option.splits if_splits)

lemma move_component_ok:
  assumes ok: "layout_ok lay"
    and dr: "dr_source dr = Some src" "dr_destination dr = Some dst" "dr_dragging dr = Some dg"
    and s: "map_of lay (di_id src) = Some s" "0 \<le> di_index src" "nat (di_index src) < length (co_children s)"
      "co_children s ! nat (di_index src) = dg_id dg"
    and e: "map_of lay (di_id dst) = Some e" "di_id dst \<notin> below (kids_of lay) (dg_id dg)" "0 \<le> di_index dst"
      "nat (di_index dst) < length (co_children e) + (if di_id src = di_id dst then 0 else 1)"
    and fresh: "''ROW-'' @ nanoid 1 \<notin> dom (map_of lay)"
    and m: "move_component t nanoid dr (lay, cache) = Inr (lay', cache')"
  shows "layout_ok lay' \<and> keeps_components lay lay' \<and>
    (\<forall>y\<in>dom (map_of lay) - {dg_id dg}. \<forall>z. child_of (kids_of lay') z y = child_of (kids_of lay) z y) \<and>
    (child_of (kids_of lay') (di_id dst) (dg_id dg) \<or>
      (\<exists>row. row \<notin> dom (map_of lay) \<and> child_of (kids_of lay') (di_id dst) row \<and> child_of (kids_of lay') row (dg_id dg)))"
proof -
  from m dr obtain la lb lc c1 where st: "reorderItem lay src dst (dr_position dr) = Inr la"
      "resize_moved t (nanoid 2) dr (dg_id dg) la (lay, cache) = Inr (lb, c1)"
      "(if shouldWrapChildInRow (di_type dst) (dg_type dg) then wrap_in_row t (nanoid 1) dst lb else Inr lb) = Inr lc"
      "lay' = obj_assign (obj_assign [] lay) lc"
    by (auto simp: move_component_def rbind_Inr_iff)
  have ma: "moved lay la (di_id dst) (dg_id dg)" by (rule reorderItem_moved [OF ok st(1) s e(2)])
  note mb = resize_moved_ok [OF ma st(2)]
  have "layout_ok lc \<and> keeps_components lay lc \<and> dom (map_of lay) \<subseteq> dom (map_of lc) \<and>
    (\<forall>y\<in>dom (map_of lay) - {dg_id dg}. \<forall>z. child_of (kids_of lc) z y = child_of (kids_of lay) z y) \<and>
    (child_of (kids_of lc) (di_id dst) (dg_id dg) \<or>
      (\<exists>row. row \<notin> dom (map_of lay) \<and> child_of (kids_of lc) (di_id dst) row \<and> child_of (kids_of lc) row (dg_id dg)))"
  proof (cases "shouldWrapChildInRow (di_type dst) (dg_type dg)")
    case False
    then have "lc = lb" using st(3) by simp
    then show ?thesis using mb(1) by (auto simp: moved_def)
  next
    case True
    then have w: "wrap_in_row t (nanoid 1) dst lb = Inr lc" using st(3) by simp
    obtain ys where ys: "kids_of lb (di_id dst) = Some ys" "nat (di_index dst) < length ys"
        "ys ! nat (di_index dst) = dg_id dg"
      using reorderItem_index [OF ok st(1) s(1-3) e(1) shouldWrap_dest [OF True] e(3,4)] s(4) mb(2) by auto
    from moved_wrap [OF mb(1) w ys(1) e(3) ys(2,3) fresh] fresh show ?thesis by blast
  qed
  then show ?thesis
    unfolding st(4) keeps_components_def using layout_ok_over [OF ok, of lc] map_of_copy_over [of lay lc] by auto
qed


section \<open>Widths are always computed\<close>

lemma column_minimum_total:
  "set cs \<subseteq> dom (map_of lay) \<Longrightarrow> \<exists>r. rfold (\<lambda>childId mn. case map_of lay childId of
         None \<Rightarrow> Inl TypeError
       | Some c \<Rightarrow> Inr (if co_type c = ''ROW'' then max mn (getTotalChildWidth childId lay) else mn)) cs (a :: int) = Inr r"
  by (induction cs arbitrary: a) auto

lemma below_grows:
  assumes "forest k" and "child_of k p x" and "finite (dom k)" and "p \<in> dom k"
  shows "card (below k x) < card (below k p)" and "card (below k p) \<le> card (dom k)"
proof -
  have sub: "below k p \<subseteq> dom k" by (rule below_in_dom [OF assms(1,4)])
  have "below k x \<subset> below k p"
    using below_trans [of x k p] child_below [OF assms(2)] forest_not_above [OF assms(1,2)] below_refl [of p k]
    by (auto simp del: below_refl)
  then show "card (below k x) < card (below k p)" by (intro psubset_card_mono) (use sub assms(3) finite_subset in auto)
  show "card (below k p) \<le> card (dom k)" using card_mono [OF assms(3) sub] .
qed

lemma getDetailedComponentWidth_total:
  assumes ok: "layout_ok lay"
    and "\<And>c. co = Some c \<Longrightarrow> set (co_children c) \<subseteq> dom (map_of lay)"
    and "2 \<le> n" and "\<And>c. co = Some c \<Longrightarrow> card (dom (map_of lay)) + 2 - card (below (kids_of lay) (co_id c)) \<le> n"
  shows "\<exists>r. getDetailedComponentWidth n co lay cache = Inr r"
  using assms(2-4)
proof (induction n arbitrary: co cache)
  case (Suc n)
  have f: "forest (kids_of lay)" using ok by (simp add: layout_ok_def)
  show ?case
  proof (cases co)
    case (Some c)
    note kids = Suc.prems(1) [OF Some]
    show ?thesis
    proof (cases "co_type c = ''ROW''")
      case True
      obtain pid cache1 where pp: "parent_of (co_id c) lay cache = (pid, cache1)" by (cases "parent_of (co_id c) lay cache")
      have "\<exists>r. getDetailedComponentWidth n (Option.bind pid (map_of lay)) lay cache1 = Inr r"
      proof (cases "orphan (kids_of lay) (co_id c)")
        case True
        then have "pid = None" using no_parent [OF ok True, of cache] pp by simp
        then show ?thesis using Suc.prems(2) by (cases n) auto
      next
        case False
        then obtain p where p: "child_of (kids_of lay) p (co_id c)" by (auto simp: orphan_def)
        then have pid: "pid = Some p" using parent_of_child [OF ok p, of cache] pp by simp
        obtain e where e: "map_of lay p = Some e" "co_id e = p"
          using p ok by (auto simp: child_of_def layout_ok_def dest: kids_of_SomeD)
        have g: "card (below (kids_of lay) (co_id c)) < card (below (kids_of lay) p)"
          "card (below (kids_of lay) p) \<le> card (dom (map_of lay))"
          using below_grows [OF f p] e(1) by (auto simp: finite_dom_map_of)
        have "set (co_children e) \<subseteq> dom (map_of lay)"
          using forestD(2) [OF f, of p] e(1) by (simp add: kids_of_def)
        then have "\<exists>r. getDetailedComponentWidth n (Some e) lay cache1 = Inr r"
          using g Suc.prems(3) [OF Some] e(2) by (intro Suc.IH) auto
        then show ?thesis using pid e(1) by simp
      qed
      then show ?thesis using Some True pp by (auto simp: Let_def split: prod.splits)
    next
      case False
      then show ?thesis
        using Some column_minimum_total [OF kids, of 1] by (auto simp: column_minimum_def)
    qed
  qed simp
qed simp

lemma card_dom_le: "card (dom (map_of lay)) \<le> length lay"
  by (metis card_length dom_map_of_conv_image_fst image_set length_map)

lemma widths_total:
  assumes "layout_ok lay" and "\<And>c. co = Some c \<Longrightarrow> set (co_children c) \<subseteq> dom (map_of lay)"
  shows "\<exists>r. getDetailedComponentWidth (depth_bound lay) co lay cache = Inr r"
  by (rule getDetailedComponentWidth_total [OF assms])
    (use card_dom_le [of lay] in \<open>auto simp: depth_bound_def intro: order_trans [OF diff_le_self]\<close>)

end
