(* ===== verification/LayoutDrops.thy ===== *)
theory LayoutDrops
  imports LayoutFacts
begin

text \<open>
  Drops on the dashboard: the overflow test always decides, a drop of an existing component
  loses nothing and never overfills a row, a new component is attached below its destination,
  and what becomes of the top-level tabs.
\<close>

section \<open>The drop handler\<close>

lemma new_component_children [simp]: "co_children (newComponentFactory t n ty m) = []"
  by (simp add: newComponentFactory_def Let_def)

lemma destination_capacity_total:
  assumes "layout_ok lay"
  shows "\<exists>r. destination_capacity destination lay cache = Inr r"
proof -
  have k: "\<And>i c. map_of lay i = Some c \<Longrightarrow> set (co_children c) \<subseteq> dom (map_of lay)"
    using assms forestD(2) [of "kids_of lay"] by (fastforce simp: layout_ok_def kids_of_def)
  obtain r cache1 where r: "getDetailedComponentWidth (depth_bound lay) (map_of lay (di_id destination)) lay cache = Inr (r, cache1)"
    using widths_total [OF assms k] by fastforce
  obtain pid cache2 where pp: "parent_of (di_id destination) lay cache1 = (pid, cache2)" by (metis surj_pair)
  have "\<exists>g. getDetailedComponentWidth (depth_bound lay) (Option.bind pid (map_of lay)) lay cache2 = Inr g"
    by (rule widths_total [OF assms]) (auto simp: bind_eq_Some_conv dest: k)
  then show ?thesis using r pp by (auto simp: destination_capacity_def split: option.split)
qed

text \<open>
  C37. A drop is always decided. On a well-formed layout, for a drop result with its three parts,
  the overflow test returns: the chains of parents it follows end and no lookup fails, unless
  a component that does not exist is dropped back into its own container.
\<close>

theorem doesChildOverflowParent_total:
  assumes "layout_ok lay" and "dr_source dr = Some src" and "dr_destination dr = Some dst" and "dr_dragging dr = Some dg"
    and "di_id src = di_id dst \<Longrightarrow> di_id src = ''NEW_COMPONENTS_SOURCE_ID'' \<or> dg_id dg \<in> dom (map_of lay)"
  shows "\<exists>r. doesChildOverflowParent t nanoid dr lay cache = Inr r"
proof -
  let ?co = "if di_id src = ''NEW_COMPONENTS_SOURCE_ID'' then Some (newComponentFactory t nanoid (dg_type dg) no_meta)
    else map_of lay (dg_id dg)"
  have k: "\<And>i c. map_of lay i = Some c \<Longrightarrow> set (co_children c) \<subseteq> dom (map_of lay)"
    using assms forestD(2) [of "kids_of lay"] by (fastforce simp: layout_ok_def kids_of_def)
  have kc: "set (co_children (case ?co of None \<Rightarrow> blank_component | Some c \<Rightarrow> c)) \<subseteq> dom (map_of lay)"
    using k by (auto simp: blank_component_def split: option.split)
  obtain d cache1 where d: "getDetailedComponentWidth (depth_bound lay)
      (Some (case ?co of None \<Rightarrow> blank_component | Some c \<Rightarrow> c)) lay cache = Inr (d, cache1)"
    using widths_total [OF assms(1), of "Some (case ?co of None \<Rightarrow> blank_component | Some c \<Rightarrow> c)" cache] kc by auto
  obtain cap where "destination_capacity dst lay cache1 = Inr cap"
    using destination_capacity_total [OF assms(1)] by blast
  moreover have "di_id src = di_id dst \<Longrightarrow> ?co \<noteq> None" using assms(5) by auto
  ultimately have "\<exists>w. getComponentWidthFromDrop t nanoid dr lay cache = Inr w"
    using d assms(2-4) unfolding getComponentWidthFromDrop_def Let_def
    by (cases cap; cases "di_id src = di_id dst") (auto simp: need_def)
  then show ?thesis by (auto simp: doesChildOverflowParent_def)
qed

lemma parent_of_Some:
  assumes "layout_ok lay" and "fst (parent_of x lay cache) = Some p"
  shows "child_of (kids_of lay) p x"
proof (cases "orphan (kids_of lay) x")
  case True
  then show ?thesis using no_parent [OF assms(1), of x cache] assms(2) by simp
next
  case False
  then obtain q where "child_of (kids_of lay) q x" by (auto simp: orphan_def)
  then show ?thesis using parent_of_child [OF assms(1), of q x cache] assms(2) by simp
qed

text \<open>What a drop may remove: containers only.\<close>

definition keeps_content :: "components \<Rightarrow> components \<Rightarrow> bool" where
  "keeps_content lay lay' \<longleftrightarrow>
     (\<forall>y c. map_of lay y = Some c \<longrightarrow> co_type c \<noteq> ''ROW'' \<longrightarrow> co_type c \<noteq> ''TABS'' \<longrightarrow>
        (\<exists>c'. map_of lay' y = Some c' \<and> co_type c' = co_type c \<and> co_meta c' = co_meta c))"

lemma keeps_components_content: "keeps_components lay lay' \<Longrightarrow> keeps_content lay lay'"
  by (auto simp: keeps_components_def keeps_content_def)

lemma keeps_content_trans: "keeps_components lay la \<Longrightarrow> keeps_content la lb \<Longrightarrow> keeps_content lay lb"
  unfolding keeps_content_def
proof (intro allI impI)
  fix y c
  assume k: "keeps_components lay la" and
    r: "\<forall>y c. map_of la y = Some c \<longrightarrow> co_type c \<noteq> ''ROW'' \<longrightarrow> co_type c \<noteq> ''TABS'' \<longrightarrow>
        (\<exists>c'. map_of lb y = Some c' \<and> co_type c' = co_type c \<and> co_meta c' = co_meta c)" and
    c: "map_of lay y = Some c" "co_type c \<noteq> ''ROW''" "co_type c \<noteq> ''TABS''"
  obtain a where a: "map_of la y = Some a" "co_type a = co_type c" "co_meta a = co_meta c"
    using k c(1) unfolding keeps_components_def by blast
  then obtain b where "map_of lb y = Some b" "co_type b = co_type a" "co_meta b = co_meta a"
    using r c(2,3) by fastforce
  with a show "\<exists>c'. map_of lb y = Some c' \<and> co_type c' = co_type c \<and> co_meta c' = co_meta c" by simp
qed

lemma clean_source_ok:
  assumes "layout_ok lay" and "clean_source t nanoid sid (lay, cache) = Inr (lay', cache')"
  shows "layout_ok lay' \<and> keeps_content lay lay'"
proof (cases "lay' = lay")
  case True
  then show ?thesis using assms(1) by (auto simp: keeps_content_def)
next
  case False
  obtain pid c1 where pp: "parent_of sid lay cache = (pid, c1)" by (metis surj_pair)
  from assms(2) False pp obtain c where c: "map_of lay sid = Some c" "co_type c = ''TABS'' \<or> co_type c = ''ROW''"
      "co_children c = []" and r: "fst (delete_component (Some sid) pid (lay, c1)) = lay'"
    by (auto simp: clean_source_def layoutOnlyReducer_def layoutReducer_def split: option.splits if_splits)
  obtain p where p: "pid = Some p" "p \<noteq> []" "sid \<noteq> []"
    using r False by (cases pid) (auto simp: delete_component_def given_def split: if_splits)
  have ch: "child_of (kids_of lay) p sid" using parent_of_Some [OF assms(1)] pp p by (metis fst_conv)
  have leaf: "below (kids_of lay) sid = {sid}" using c by (intro below_leaf) (simp add: kids_of_def)
  obtain gone where g: "gone \<subseteq> {p, sid}" "p \<in> gone \<longrightarrow> (\<exists>d. map_of lay p = Some d \<and> co_type d = ''ROW'')"
      "\<And>x. map_of lay' x = (if x \<in> gone then None else map_option (without gone) (map_of lay x))" and ok: "layout_ok lay'"
    using delete_component_gone [OF assms(1) ch p(3,2), of c1] unfolding leaf r [unfolded p(1)] by blast
  have "keeps_content lay lay'"
    unfolding keeps_content_def
  proof (intro allI impI)
    fix y d
    assume d: "map_of lay y = Some d" "co_type d \<noteq> ''ROW''" "co_type d \<noteq> ''TABS''"
    then have "y \<notin> gone" using g(1,2) c by auto
    then show "\<exists>c'. map_of lay' y = Some c' \<and> co_type c' = co_type d \<and> co_meta c' = co_meta d"
      using g(3) d(1) by (simp add: without_def)
  qed
  with ok show ?thesis by blast
qed

lemma handle_move_cases:
  assumes "handleComponentDrop t nanoid dfs dr (lay, cache) = Inr ((lay', cache'), toasts)"
    and "dr_source dr = Some src" and "dr_destination dr = Some dst"
    and "di_id src \<noteq> ''NEW_COMPONENTS_SOURCE_ID''" and "di_id dst \<noteq> ''ROOT_ID''"
  shows "lay' = lay \<or> (\<exists>c1 la c2. (la = lay \<or> move_component t nanoid dr (lay, c1) = Inr (la, c2)) \<and>
     clean_source t nanoid (di_id src) (la, c2) = Inr (lay', cache'))"
proof -
  from assms(1) obtain ov c1 where ov: "doesChildOverflowParent t (nanoid 3) dr lay cache = Inr (ov, c1)"
    by (cases "doesChildOverflowParent t (nanoid 3) dr lay cache") (auto simp: handleComponentDrop_def)
  show ?thesis
  proof (cases ov)
    case True
    then show ?thesis using assms(1) ov by (simp add: handleComponentDrop_def)
  next
    case False
    let ?a = "drop_action lay dr src dst"
    have "?a = None \<or> ?a = Some OtherAction \<or> ?a = Some (MoveComponent dr)"
      using assms(4,5) by (simp add: drop_action_def Let_def)
    then show ?thesis
      using assms False ov
      by (elim disjE) (auto simp: handleComponentDrop_def need_def rbind_Inr_iff layoutOnlyReducer_def layoutReducer_def)
  qed
qed


section \<open>A drop never overfills a row\<close>

lemma fold_plus_sum: "fold (\<lambda>x w. w + f x) xs (a :: int) = a + sum_list (map f xs)"
  by (induction xs arbitrary: a) auto

definition width_in :: "components \<Rightarrow> string \<Rightarrow> int" where
  "width_in lay i = (case Option.bind (map_of lay i) co_width of None \<Rightarrow> 0 | Some w \<Rightarrow> w)"

lemma getTotalChildWidth_sum:
  "map_of lay i = Some c \<Longrightarrow> getTotalChildWidth i lay = sum_list (map (width_in lay) (co_children c))"
  by (auto simp: getTotalChildWidth_def fold_plus_sum width_in_def split: option.split intro!: arg_cong [where f = sum_list])

lemma sum_splice_insert: "sum_list (map f (splice_insert j x xs)) = f x + sum_list (map f xs)" for f :: "'a \<Rightarrow> int"
proof -
  have "sum_list (map f (take n xs)) + sum_list (map f (drop n xs)) = sum_list (map f xs)" for n
    by (metis append_take_drop_id map_append sum_list_append)
  then show ?thesis by (simp add: splice_insert_def Let_def)
qed

lemma widths_cache:
  assumes "layout_ok lay" and "getDetailedComponentWidth n co lay ca = Inr (r, ca')"
    and "getDetailedComponentWidth n co lay cb = Inr (r', cb')"
  shows "r = r'"
  using assms(2,3)
proof (induction n arbitrary: co ca cb r r' ca' cb')
  case (Suc n)
  show ?case
  proof (cases co)
    case None
    then show ?thesis using Suc.prems by simp
  next
    case (Some c)
    show ?thesis
    proof (cases "co_type c = ''ROW''")
      case True
      obtain p1 c1 p2 c2 where p: "parent_of (co_id c) lay ca = (p1, c1)" "parent_of (co_id c) lay cb = (p2, c2)"
        by (metis surj_pair)
      have "p1 = p2"
        using findParentIdWithCache_eq [OF items_tree [OF assms(1)], of "co_id c" ca]
          findParentIdWithCache_eq [OF items_tree [OF assms(1)], of "co_id c" cb] p by (simp add: parent_of_def)
      then obtain a aa where a: "getDetailedComponentWidth n (Option.bind p2 (map_of lay)) lay c1 = Inr (a, ca')"
          "getDetailedComponentWidth n (Option.bind p2 (map_of lay)) lay c2 = Inr (aa, cb')"
        using Suc.prems Some True p by (auto simp: rbind_Inr_iff Let_def)
      with Suc.IH [OF a] show ?thesis using Suc.prems Some True p \<open>p1 = p2\<close> by (simp add: Let_def)
    next
      case False
      then show ?thesis using Suc.prems Some by (auto simp: rbind_Inr_iff split: if_splits)
    qed
  qed
qed simp

lemma row_widths:
  assumes "getDetailedComponentWidth n (Some e) lay cache = Inr (r, cache')" and "co_type e = ''ROW''"
  shows "\<exists>W. wd_width r = Some W \<and> wd_occupied r = Some (getTotalChildWidth (co_id e) lay)"
  using assms by (cases n) (auto simp: rbind_Inr_iff Let_def split: prod.splits)

definition fitted :: "int \<Rightarrow> int \<Rightarrow> int option \<Rightarrow> int" where
  "fitted cap v mn = (if cap \<ge> v then v else case mn of Some n \<Rightarrow> if cap \<ge> n then cap else - 1 | None \<Rightarrow> - 1)"

lemma drop_width:
  assumes ok: "layout_ok lay"
    and dr: "dr_source dr = Some src" "dr_destination dr = Some dst" "dr_dragging dr = Some dg"
    and ne: "di_id src \<noteq> di_id dst" "di_id src \<noteq> ''NEW_COMPONENTS_SOURCE_ID''"
    and e: "map_of lay (di_id dst) = Some e" "co_type e = ''ROW''"
    and c: "map_of lay (dg_id dg) = Some c" "co_type c \<noteq> ''ROW''" "co_width c = Some v"
    and r: "getDetailedComponentWidth (depth_bound lay) (Some e) lay c1 = Inr (r, c2)" "wd_width r = Some W"
    and w: "getComponentWidthFromDrop t nanoid dr lay cache = Inr (w, cache')"
  shows "\<exists>d cd. getDetailedComponentWidth (depth_bound lay) (Some c) lay cache = Inr (d, cd) \<and>
    w = Some (fitted (W - getTotalChildWidth (di_id dst) lay) v (wd_minimum d))"
proof -
  have ide: "co_id e = di_id dst" using ok e(1) by (simp add: layout_ok_def)
  from w dr ne c(1) obtain d ca cap cb where
      d: "getDetailedComponentWidth (depth_bound lay) (Some c) lay cache = Inr (d, ca)" and
      cap: "destination_capacity dst lay ca = Inr (cap, cb)" and
      res: "w = (case (cap, wd_width d) of
                      (Some v, Some w) \<Rightarrow>
                        (if v \<ge> w then Some w
                         else case wd_minimum d of
                                Some mn \<Rightarrow> if v \<ge> mn then Some v else Some (- 1)
                              | None \<Rightarrow> Some (- 1))
                    | (_, w) \<Rightarrow> w)"
    by (auto simp: getComponentWidthFromDrop_def need_def rbind_Inr_iff Let_def)
  have wd: "wd_width d = Some v" using d c(2,3) by (auto simp: depth_bound_def rbind_Inr_iff split: if_splits)
  obtain q cc where q: "getDetailedComponentWidth (depth_bound lay) (Some e) lay ca = Inr (q, cc)"
    using cap e(1) by (auto simp: destination_capacity_def rbind_Inr_iff)
  have "q = r" using widths_cache [OF ok q r(1)] .
  then have "capacity q = Some (W - getTotalChildWidth (di_id dst) lay)"
    using row_widths [OF r(1) e(2)] r(2) ide by (auto simp: capacity_def)
  then have "cap = Some (W - getTotalChildWidth (di_id dst) lay)"
    using cap q e(1) by (simp add: destination_capacity_def)
  then show ?thesis using res wd d by (auto simp: fitted_def split: option.split)
qed

text \<open>
  A drop never overfills a row. When a component with a width is moved from another container
  into a row and the overflow test lets it pass, the widths of the row's children, the
  dropped one with its new width included, add up to at most the width of the row.
\<close>

lemma drop_fits_row:
  assumes ok: "layout_ok lay"
    and dr: "dr_source dr = Some src" "dr_destination dr = Some dst" "dr_dragging dr = Some dg"
    and ne: "di_id src \<noteq> di_id dst" "di_id src \<noteq> ''NEW_COMPONENTS_SOURCE_ID''" "di_type dst = ''ROW''"
    and s: "map_of lay (di_id src) = Some s" "0 \<le> di_index src" "nat (di_index src) < length (co_children s)"
      "co_children s ! nat (di_index src) = dg_id dg"
    and e: "map_of lay (di_id dst) = Some e" "co_type e = ''ROW''" "di_id dst \<noteq> dg_id dg"
    and c: "map_of lay (dg_id dg) = Some c" "componentIsResizable (co_type c)" "co_width c = Some v" "di_id src \<noteq> dg_id dg"
    and r: "getDetailedComponentWidth (depth_bound lay) (Some e) lay c1 = Inr (r, c2)" "wd_width r = Some W"
    and pass: "doesChildOverflowParent t n dr lay cache = Inr (False, cache0)"
    and m: "move_component t nanoid dr (lay, cache0) = Inr (lay', cache')"
  shows "getTotalChildWidth (di_id dst) lay' \<le> W"
proof -
  let ?x = "dg_id dg" and ?d = "di_id dst" and ?s = "di_id src"
  have nr: "co_type c \<noteq> ''ROW''" using c(2) by (auto simp: componentIsResizable_def)
  have f: "forest (kids_of lay)" using ok by (simp add: layout_ok_def)
  have xs: "child_of (kids_of lay) ?s ?x"
    using s nth_mem [of "nat (di_index src)" "co_children s"] by (auto simp: child_of_def kids_of_def)
  have xe: "?x \<notin> set (co_children e)" using forestD(3) [OF f xs, of ?d] ne(1) e(1) by (auto simp: child_of_def kids_of_def)
  have nw: "\<not> shouldWrapChildInRow (di_type dst) (dg_type dg)"
    by (simp add: shouldWrapChildInRow_def typeToWrapChildLookup_def ne(3))
  from m dr nw obtain la lb cb where ra: "reorderItem lay src dst (dr_position dr) = Inr la"
      and rb: "resize_moved t (nanoid 2) dr ?x la (lay, cache0) = Inr (lb, cb)" and l': "lay' = obj_assign (obj_assign [] lay) lb"
    by (auto simp: move_component_def rbind_Inr_iff)
  have la: "la = obj_put ?d (e\<lparr>co_children := splice_insert (di_index dst) ?x (co_children e)\<rparr>)
      (obj_put ?s (s\<lparr>co_children := splice_remove (di_index src) (co_children s)\<rparr>) lay)"
    using ra s e(1) ne(1,3) by (simp add: reorderItem_def need_def Let_def id_at_def)
  have xa: "map_of la ?x = Some c" using c(1,4) e(3) by (simp add: la map_of_obj_put)
  from rb xa c(2) obtain w cw where w: "getComponentWidthFromDrop t (nanoid 2) dr lay cache0 = Inr (w, cw)"
      and lb: "lb = (if co_width c \<noteq> nonzero w then obj_put ?x (c\<lparr>co_width := nonzero w\<rparr>) la else la)"
    by (auto simp: resize_moved_def need_def rbind_Inr_iff)
  obtain d0 ca where d0: "getDetailedComponentWidth (depth_bound lay) (Some c) lay cache0 = Inr (d0, ca)"
      "w = Some (fitted (W - getTotalChildWidth ?d lay) v (wd_minimum d0))"
    using drop_width [OF ok dr ne(1,2) e(1,2) c(1) nr c(3) r w] by blast
  from pass obtain w0 where w0: "getComponentWidthFromDrop t n dr lay cache = Inr (w0, cache0)"
      "\<not> (case w0 of None \<Rightarrow> False | Some w \<Rightarrow> w < 0)"
    by (auto simp: doesChildOverflowParent_def rbind_Inr_iff)
  obtain d1 cb where d1: "getDetailedComponentWidth (depth_bound lay) (Some c) lay cache = Inr (d1, cb)"
      "w0 = Some (fitted (W - getTotalChildWidth ?d lay) v (wd_minimum d1))"
    using drop_width [OF ok dr ne(1,2) e(1,2) c(1) nr c(3) r w0(1)] by blast
  have "d0 = d1" using widths_cache [OF ok d0(1) d1(1)] .
  then obtain u where u: "w = Some u" "getTotalChildWidth ?d lay + u \<le> W"
    using d0(2) d1(2) w0(2) by (auto simp: fitted_def split: if_splits option.splits)
  have dom: "dom (map_of lay) \<subseteq> dom (map_of lb)" by (auto simp: lb la map_of_obj_put)
  have ml: "map_of lay' = map_of lb" unfolding l' by (rule map_of_copy_over [OF dom])
  have "map_of lay' ?d = Some (e\<lparr>co_children := splice_insert (di_index dst) ?x (co_children e)\<rparr>)"
    using e(3) by (simp add: ml lb la map_of_obj_put)
  from getTotalChildWidth_sum [OF this]
  have "getTotalChildWidth ?d lay' = width_in lay' ?x + sum_list (map (width_in lay') (co_children e))"
    by (simp add: sum_splice_insert)
  also have "width_in lay' ?x = u"
    using xa c(3) u(1) by (auto simp: ml lb width_in_def map_of_obj_put nonzero_def split: if_splits)
  also have "map (width_in lay') (co_children e) = map (width_in lay) (co_children e)"
    using xe e(1) s(1) by (auto simp: ml lb la width_in_def map_of_obj_put)
  finally show ?thesis using u(2) getTotalChildWidth_sum [OF e(1)] by simp
qed

section \<open>New components\<close>

lemma forest_attach:
  assumes "forest k" and "k d = Some ds" and "x \<notin> dom k" and "distinct zs" and "set zs = insert x (set ds)"
  shows "forest (k(x \<mapsto> [], d \<mapsto> zs))"
proof (rule forest_relink [where U = "{x}" and ys = ds])
  have dx: "d \<noteq> x" using assms(2,3) by auto
  show "forest (k(x \<mapsto> []))" by (rule forest_new [OF assms(1,3)])
  show "(k(x \<mapsto> [])) d = Some ds" using assms(2) dx by simp
  show "u \<in> {x} \<Longrightarrow> u \<in> dom (k(x \<mapsto> [])) \<and> orphan (k(x \<mapsto> [])) u \<and> d \<notin> below (k(x \<mapsto> [])) u" for u
    using forest_new(2) [OF assms(1,3)] below_leaf [of "k(x \<mapsto> [])" x] dx by simp
qed (use assms(4,5) in auto)

lemma forest_attach2:
  assumes "forest k" and "k d = Some ds" and "x \<notin> dom k" and "distinct zs" and "set zs = insert x (set ds)"
    and "y \<notin> dom k" and "y \<noteq> x"
  shows "forest (k(x \<mapsto> [y], y \<mapsto> [], d \<mapsto> zs))"
proof -
  let ?k = "k(x \<mapsto> [], d \<mapsto> zs)"
  have d: "d \<noteq> x" "d \<noteq> y" using assms(2,3,6) by auto
  have "forest (?k(y \<mapsto> [], x \<mapsto> [y]))"
    by (rule forest_attach [OF forest_attach [OF assms(1-5)]]) (use d assms(6,7) in auto)
  moreover have "?k(y \<mapsto> [], x \<mapsto> [y]) = k(x \<mapsto> [y], y \<mapsto> [], d \<mapsto> zs)"
    using d assms(7) by (auto simp: fun_eq_iff)
  ultimately show ?thesis by simp
qed

lemma new_component_id [simp]: "co_id (newComponentFactory t n ty m) = ty @ ''-'' @ n"
  by (simp add: newComponentFactory_def Let_def)

lemma new_drop_child_props:
  assumes "new_drop_child t nanoid dr dg e lay cache = Inr (child, cache')"
  shows "co_id child = dg_type dg @ ''-'' @ nanoid 0" and "co_children child = []" and "co_type child = dg_type dg"
  using assms by (auto simp: new_drop_child_def Let_def rbind_Inr_iff newComponentFactory_def split: if_splits)

lemma drop_entities_cases:
  assumes "drop_entities t nid e ty child = (ne, dropped)" and "co_id child = ch" and "co_children child = []"
  obtains (wrap) a b where "ty \<noteq> ''TABS''" "dropped = ''ROW-'' @ nid" "map_of ne = [ch \<mapsto> a, ''ROW-'' @ nid \<mapsto> b]"
      "co_id a = ch" "co_type a = co_type child" "co_children a = []" "co_id b = ''ROW-'' @ nid" "co_children b = [ch]"
  | (tabs) a b where "ty = ''TABS''" "dropped = ch" "map_of ne = [ch \<mapsto> a, ''TAB-'' @ nid \<mapsto> b]"
      "co_id a = ch" "co_type a = co_type child" "co_children a = [''TAB-'' @ nid]" "co_id b = ''TAB-'' @ nid" "co_children b = []"
  | (plain) "ty \<noteq> ''TABS''" "dropped = ch" "map_of ne = [ch \<mapsto> child]"
proof -
  let ?path = "or_empty (co_parents e) @ [co_id e]"
  show ?thesis
  proof (cases "shouldWrapChildInRow (co_type e) ty")
    case True
    have "ty \<noteq> ''TABS''" using True
      by (auto simp: shouldWrapChildInRow_def typeToWrapChildLookup_def split: if_splits)
    then show ?thesis
      using assms True wrap [of "child\<lparr>co_parents := Some (?path @ [''ROW-'' @ nid])\<rparr>"
          "(newComponentFactory t nid ''ROW'' no_meta)\<lparr>co_children := [ch], co_parents := Some ?path\<rparr>"]
      by (auto simp: drop_entities_def Let_def map_of_obj_put simp del: obj_put.simps)
  next
    case False
    then show ?thesis
      using assms tabs [of "child\<lparr>co_children := [''TAB-'' @ nid]\<rparr>"
          "(newComponentFactory t nid ''TAB'' no_meta)\<lparr>co_parents := Some ?path\<rparr>"] plain
      by (cases "ty = ''TABS''") (auto simp: drop_entities_def Let_def map_of_obj_put simp del: obj_put.simps)
  qed
qed

lemma created_ok:
  assumes ok: "layout_ok lay" and wf: "obj_wf lay'" and f: "forest (kids_of lay')" and e: "map_of lay d = Some e"
    and m: "map_of lay' = (map_of lay ++ map_of ne)(d \<mapsto> e\<lparr>co_children := splice_insert i dropped (co_children e)\<rparr>)"
    and new: "dom (map_of ne) \<inter> dom (map_of lay) = {}" "dropped \<notin> dom (map_of lay)"
      "\<And>x c. map_of ne x = Some c \<Longrightarrow> co_id c = x \<and> set (co_children c) \<inter> dom (map_of lay) = {}"
  shows "layout_ok lay'" and "keeps_components lay lay'"
    and "y \<in> dom (map_of lay) \<Longrightarrow> child_of (kids_of lay') z y = child_of (kids_of lay) z y"
proof -
  have old: "map_of lay' x = (if x = d then Some (e\<lparr>co_children := splice_insert i dropped (co_children e)\<rparr>) else Some c)"
    if "map_of lay x = Some c" for x c
  proof -
    have "map_of ne x = None" using that new(1) by (auto simp: dom_def)
    then show ?thesis using that by (simp add: m map_add_def)
  qed
  show "keeps_components lay lay'" using old e by (auto simp: keeps_components_def)
  have "co_id c = x" if "map_of lay' x = Some c" for x c
    using that new(3) ok e by (auto simp: m layout_ok_def split: if_splits)
  then show "layout_ok lay'" using wf f by (simp add: layout_ok_def)
  show "child_of (kids_of lay') z y = child_of (kids_of lay) z y" if y: "y \<in> dom (map_of lay)"
  proof (cases "map_of lay z")
    case (Some c)
    then show ?thesis using old [OF Some] e y new(2) by (auto simp: child_of_def kids_of_def)
  next
    case None
    then have "z \<noteq> d" "map_of lay' z = map_of ne z" using e by (auto simp: m map_add_def split: option.split)
    then show ?thesis using None new(3) y by (cases "map_of ne z") (auto simp: child_of_def kids_of_def)
  qed
qed

text \<open>
  Creating a component by a drop. With fresh ids the new layout is well formed; every component
  that was there stays, with its type and its parent; and the new component hangs below the
  destination, directly or through a new row, and is empty unless it is a tab container with
  its first tab.
\<close>

lemma create_component_spec:
  assumes ok: "layout_ok lay"
    and dr: "dr_destination dr = Some dst" "dr_dragging dr = Some dg" and e: "map_of lay (di_id dst) = Some e"
    and fresh: "dg_type dg @ ''-'' @ nanoid 0 \<notin> dom (map_of lay)" "''ROW-'' @ nanoid 1 \<notin> dom (map_of lay)"
      "''TAB-'' @ nanoid 1 \<notin> dom (map_of lay)" "dg_type dg @ ''-'' @ nanoid 0 \<notin> {''ROW-'' @ nanoid 1, ''TAB-'' @ nanoid 1}"
    and c: "create_component t nanoid dr (lay, cache) = Inr (lay', cache')"
  shows "layout_ok lay' \<and> keeps_components lay lay' \<and>
    (\<forall>y\<in>dom (map_of lay). \<forall>z. child_of (kids_of lay') z y = child_of (kids_of lay) z y) \<and>
    dg_type dg @ ''-'' @ nanoid 0 \<in> below (kids_of lay') (di_id dst) \<and>
    (\<exists>n. map_of lay' (dg_type dg @ ''-'' @ nanoid 0) = Some n \<and> co_type n = dg_type dg \<and>
       co_children n = (if dg_type dg = ''TABS'' then [''TAB-'' @ nanoid 1] else []))"
proof -
  let ?ch = "dg_type dg @ ''-'' @ nanoid 0" and ?d = "di_id dst" and ?k = "kids_of lay"
  have f: "forest ?k" using ok by (simp add: layout_ok_def)
  have ke: "?k ?d = Some (co_children e)" using e by (simp add: kids_of_def)
  have ids: "\<And>x c. map_of lay x = Some c \<Longrightarrow> co_id c = x" using ok by (simp add: layout_ok_def)
  have dom: "set (co_children e) \<subseteq> dom (map_of lay)" using forestD(2) [OF f ke] by simp
  have dist: "distinct (co_children e)" by (rule forestD(1) [OF f ke])
  from c dr e obtain child c1 where child: "new_drop_child t nanoid dr dg e lay cache = Inr (child, c1)"
    by (auto simp: create_component_def newEntitiesFromDrop_def need_def rbind_Inr_iff)
  obtain ne dropped where ne: "drop_entities t (nanoid 1) e (dg_type dg) child = (ne, dropped)" by (metis surj_pair)
  have lay': "lay' = obj_assign (obj_assign [] lay) (obj_put ?d (e\<lparr>co_children := splice_insert (di_index dst) dropped (co_children e)\<rparr>) ne)"
    using c dr e child ne by (simp add: create_component_def newEntitiesFromDrop_def need_def)
  note cp = new_drop_child_props [OF child]
  have m: "map_of lay' = (map_of lay ++ map_of ne)(?d \<mapsto> e\<lparr>co_children := splice_insert (di_index dst) dropped (co_children e)\<rparr>)"
    by (auto simp: lay' map_of_obj_assign map_of_obj_put)
  have wf: "obj_wf lay'" unfolding lay' using ok by (simp add: layout_ok_def obj_wf_assign)
  have d: "?d \<in> dom (map_of lay)" using e by auto
  have fin: ?thesis
    if "forest (kids_of lay')" "?ch \<in> below (kids_of lay') ?d" "dom (map_of ne) \<inter> dom (map_of lay) = {}" "dropped \<notin> dom (map_of lay)"
      "\<And>x c. map_of ne x = Some c \<Longrightarrow> co_id c = x \<and> set (co_children c) \<inter> dom (map_of lay) = {}"
      and n: "map_of ne ?ch = Some n" "co_type n = dg_type dg"
        "co_children n = (if dg_type dg = ''TABS'' then [''TAB-'' @ nanoid 1] else [])" for n
  proof -
    have "?ch \<noteq> ?d" using fresh(1) d by auto
    then have "map_of lay' ?ch = Some n" using n(1) by (simp add: m)
    then show ?thesis using created_ok [OF ok wf that(1) e m that(3-5)] n(2,3) that(2) by blast
  qed
  have kids: "kids_of lay' = (?k ++ (map_option co_children \<circ> map_of ne))(?d \<mapsto> splice_insert (di_index dst) dropped (co_children e))"
    by (auto simp: kids_of_def m map_add_def fun_eq_iff split: option.split)
  have below2: "?ch \<in> below (kids_of lay') ?d" if "child_of (kids_of lay') ?d x" "x = ?ch \<or> child_of (kids_of lay') x ?ch" for x
    using that child_below [of "kids_of lay'" ?d x] below_step [of x "kids_of lay'" ?d ?ch] by auto
  have dd: "?d \<noteq> ?ch" "?d \<noteq> ''ROW-'' @ nanoid 1" "?d \<noteq> ''TAB-'' @ nanoid 1" using fresh d by auto
  from ne cp(1,2) show ?thesis
  proof (cases rule: drop_entities_cases)
    case (wrap a b)
    let ?r = "''ROW-'' @ nanoid 1"
    have k: "kids_of lay' = ?k(?r \<mapsto> [?ch], ?ch \<mapsto> [], ?d \<mapsto> splice_insert (di_index dst) ?r (co_children e))"
      unfolding kids wrap(2,3) using wrap(6,8) fresh(4) by (auto simp: fun_eq_iff map_add_def)
    have "forest (kids_of lay')" unfolding k
      by (rule forest_attach2 [OF f ke]) (use fresh dist dom in auto)
    moreover have "?ch \<in> below (kids_of lay') ?d"
      by (rule below2 [of ?r]) (use dd fresh(4) in \<open>auto simp: k child_of_upd\<close>)
    ultimately show ?thesis
      by (rule fin) (use fresh wrap cp(3) in \<open>auto split: if_splits\<close>)
  next
    case (tabs a b)
    let ?r = "''TAB-'' @ nanoid 1"
    have k: "kids_of lay' = ?k(?ch \<mapsto> [?r], ?r \<mapsto> [], ?d \<mapsto> splice_insert (di_index dst) ?ch (co_children e))"
      unfolding kids tabs(2,3) using tabs(6,8) by (auto simp: fun_eq_iff map_add_def)
    have "forest (kids_of lay')" unfolding k
      by (rule forest_attach2 [OF f ke]) (use fresh dist dom in auto)
    moreover have "?ch \<in> below (kids_of lay') ?d"
      by (rule below2 [of ?ch]) (use dd in \<open>auto simp: k child_of_upd\<close>)
    ultimately show ?thesis
      by (rule fin) (use fresh tabs cp(3) in \<open>auto split: if_splits\<close>)
  next
    case plain
    have k: "kids_of lay' = ?k(?ch \<mapsto> [], ?d \<mapsto> splice_insert (di_index dst) ?ch (co_children e))"
      unfolding kids plain(2,3) using cp(2) by (auto simp: fun_eq_iff map_add_def)
    have "forest (kids_of lay')" unfolding k
      by (rule forest_attach [OF f ke]) (use fresh dist dom in auto)
    moreover have "?ch \<in> below (kids_of lay') ?d"
      by (rule below2 [of ?ch]) (use dd in \<open>auto simp: k child_of_upd\<close>)
    ultimately show ?thesis
      by (rule fin) (use fresh plain cp in \<open>auto split: if_splits\<close>)
  qed
qed

end
