(* ===== verification/LayoutParents.thy ===== *)
theory LayoutParents
  imports LayoutDrops
begin

text \<open>
  The parents lists of the components and the top-level tabs: updating the parents list makes
  the list of every component below the root its path from the root, which is what filter
  scoping reads; replacing the top-level tabs by the grid keeps their content; and dropping
  nested tabs on the root closes a cycle.
\<close>

section \<open>Subtrees\<close>

lemma below_chain:
  assumes "forest k" and "z \<in> below k a" and "z \<in> below k b"
  shows "a \<in> below k b \<or> b \<in> below k a"
  using assms(2,3)
proof (induction rule: below_induct)
  case (step y z)
  show ?case
  proof (cases "z = b")
    case True
    then show ?thesis using below_step [OF step.hyps] by simp
  next
    case False
    then have "y \<in> below k b" by (rule below_parent [OF assms(1) step.prems _ step.hyps(2)])
    then show ?thesis by (rule step.IH)
  qed
qed simp

lemma siblings_disjoint:
  assumes "forest k" and "child_of k x a" and "child_of k x b" and "a \<noteq> b"
  shows "below k a \<inter> below k b = {}"
proof (rule ccontr)
  assume "below k a \<inter> below k b \<noteq> {}"
  then have "a \<in> below k b \<or> b \<in> below k a" using below_chain [OF assms(1)] by blast
  then have "x \<in> below k b \<or> x \<in> below k a"
    using below_parent [OF assms(1) _ _ assms(2), of b] below_parent [OF assms(1) _ _ assms(3), of a] assms(4) by auto
  then show False using forest_not_above [OF assms(1,2)] forest_not_above [OF assms(1,3)] by blast
qed

lemma below_cases: "y \<in> below k x \<Longrightarrow> y = x \<or> (\<exists>c. child_of k x c \<and> y \<in> below k c)"
  by (induction rule: below_induct) (auto intro: below_step)

section \<open>Updating the parents list\<close>

definition strip :: "component \<Rightarrow> component" where
  "strip c = c\<lparr>co_parents := None\<rparr>"

definition same_shape :: "components \<Rightarrow> components \<Rightarrow> bool" where
  "same_shape lay lay' \<longleftrightarrow> map_option strip \<circ> map_of lay' = map_option strip \<circ> map_of lay"

definition pars :: "components \<Rightarrow> string \<Rightarrow> string list option" where
  "pars lay y = Option.bind (map_of lay y) co_parents"

definition paths_below :: "components \<Rightarrow> string \<Rightarrow> bool" where
  "paths_below lay x \<longleftrightarrow>
     (\<forall>p\<in>below (kids_of lay) x. \<forall>y. child_of (kids_of lay) p y \<longrightarrow> pars lay y = Some (or_empty (pars lay p) @ [p]))"

lemma same_shape_kids: "same_shape lay lay' \<Longrightarrow> kids_of lay' = kids_of lay"
proof -
  assume "same_shape lay lay'"
  then have "map_option co_children \<circ> (map_option strip \<circ> map_of lay') = map_option co_children \<circ> (map_option strip \<circ> map_of lay)"
    by (simp add: same_shape_def)
  moreover have "map_option co_children \<circ> (map_option strip \<circ> f) = map_option co_children \<circ> f" for f :: "string \<Rightarrow> component option"
    by (auto simp: fun_eq_iff option.map_comp o_def strip_def)
  ultimately show ?thesis by (simp add: kids_of_def)
qed

lemma same_shape_ok:
  assumes "same_shape lay lay'" and "layout_ok lay" and "obj_wf lay'"
  shows "layout_ok lay'"
proof -
  have "co_id c = x" if "map_of lay' x = Some c" for x c
  proof -
    from assms(1) have "map_option strip (map_of lay' x) = map_option strip (map_of lay x)"
      by (auto simp: same_shape_def dest: fun_cong)
    with that have "map_option strip (map_of lay x) = Some (strip c)" by simp
    then obtain d where "map_of lay x = Some d" "strip d = strip c" by blast
    then show ?thesis using assms(2) by (auto simp: layout_ok_def strip_def dest: arg_cong [where f = co_id])
  qed
  then show ?thesis using assms same_shape_kids [OF assms(1)] by (simp add: layout_ok_def)
qed

lemma same_shape_trans: "same_shape a b \<Longrightarrow> same_shape b c \<Longrightarrow> same_shape a c"
  by (simp add: same_shape_def)

lemma same_shape_put:
  "map_of lay x = Some d \<Longrightarrow> same_shape lay (obj_put x (d\<lparr>co_parents := v\<rparr>) lay)"
  by (auto simp: same_shape_def map_of_obj_put strip_def fun_eq_iff)

lemma paths_below_cong:
  assumes "kids_of lay' = kids_of lay" and "\<And>y. y \<in> below (kids_of lay) x \<Longrightarrow> map_of lay' y = map_of lay y" and "paths_below lay x"
  shows "paths_below lay' x"
  using assms below_step [of _ "kids_of lay" x] unfolding paths_below_def pars_def by fastforce

abbreviation parents_loop :: "nat \<Rightarrow> string list \<Rightarrow> string list \<Rightarrow> components \<Rightarrow> components res" where
  "parents_loop n parentsList \<equiv> rfold (\<lambda>childId acc.
       case map_of acc childId of
         None \<Rightarrow> Inr acc
       | Some child \<Rightarrow>
           (let child' = child\<lparr>co_parents := Some parentsList\<rparr>
            in updateComponentParentsList n child' (obj_put childId child' acc)))"

lemma parents_loop_ok:
  assumes f: "forest k" and x: "x \<in> dom k" and d: "distinct cs" "\<forall>c\<in>set cs. child_of k x c" and ok: "layout_ok lay" "kids_of lay = k"
    and step: "\<And>lay c d. layout_ok lay \<Longrightarrow> kids_of lay = k \<Longrightarrow> child_of k x c \<Longrightarrow> map_of lay c = Some d \<Longrightarrow>
      \<exists>lay'. updateComponentParentsList n d lay = Inr lay' \<and> same_shape lay lay' \<and> obj_wf lay' \<and>
        (\<forall>y. y \<notin> below k c - {c} \<longrightarrow> map_of lay' y = map_of lay y) \<and> paths_below lay' c"
  shows "\<exists>lay'. parents_loop n pl cs lay = Inr lay' \<and> same_shape lay lay' \<and> obj_wf lay' \<and>
    (\<forall>y. y \<notin> (\<Union>c\<in>set cs. below k c) \<longrightarrow> map_of lay' y = map_of lay y) \<and>
    (\<forall>c\<in>set cs. pars lay' c = Some pl \<and> paths_below lay' c)"
  using d ok
proof (induction cs arbitrary: lay)
  case Nil
  then show ?case by (auto simp: same_shape_def layout_ok_def)
next
  case (Cons c cs)
  have c: "child_of k x c" using Cons.prems(2) by simp
  have "c \<in> dom k" using f c forestD(2) [OF f] by (fastforce simp: child_of_def)
  then obtain d where d: "map_of lay c = Some d" using Cons.prems(4) by (auto simp: kids_of_def)
  let ?d = "d\<lparr>co_parents := Some pl\<rparr>" and ?l = "obj_put c (d\<lparr>co_parents := Some pl\<rparr>) lay"
  have s1: "same_shape lay ?l" by (rule same_shape_put [OF d])
  have ok1: "layout_ok ?l" using same_shape_ok [OF s1 Cons.prems(3)] Cons.prems(3) by (simp add: layout_ok_def obj_wf_put)
  have k1: "kids_of ?l = k" using same_shape_kids [OF s1] Cons.prems(4) by (simp del: kids_of_put)
  have "map_of ?l c = Some ?d" by (simp add: map_of_obj_put)
  from step [OF ok1 k1 c this] obtain lb where lb: "updateComponentParentsList n ?d ?l = Inr lb" "same_shape ?l lb" "obj_wf lb"
      "\<And>y. y \<notin> below k c - {c} \<Longrightarrow> map_of lb y = map_of ?l y" "paths_below lb c" by blast
  have ok2: "layout_ok lb" by (rule same_shape_ok [OF lb(2) ok1 lb(3)])
  have k2: "kids_of lb = k" using same_shape_kids [OF lb(2)] k1 by simp
  obtain lc where lc: "parents_loop n pl cs lb = Inr lc" "same_shape lb lc" "obj_wf lc"
      "\<And>y. y \<notin> (\<Union>c\<in>set cs. below k c) \<Longrightarrow> map_of lc y = map_of lb y"
      "\<And>c. c \<in> set cs \<Longrightarrow> pars lc c = Some pl \<and> paths_below lc c"
    using Cons.IH [OF _ _ ok2 k2] Cons.prems(1,2) by auto
  have disj: "below k c \<inter> (\<Union>c\<in>set cs. below k c) = {}"
    using siblings_disjoint [OF f c] Cons.prems(1,2) by auto
  then have same: "map_of lc y = map_of lb y" if "y \<in> below k c" for y using lc(4) that by blast
  have "pars lc c = Some pl" using same [of c] lb(4) [of c] by (simp add: pars_def map_of_obj_put)
  moreover have "paths_below lc c"
    by (rule paths_below_cong [OF _ _ lb(5)]) (use same_shape_kids [OF lc(2)] same k2 in auto)
  moreover have "map_of lc y = map_of lay y" if "y \<notin> below k c" "y \<notin> (\<Union>c\<in>set cs. below k c)" for y
    using lc(4) [OF that(2)] lb(4) [of y] that(1) by (auto simp: map_of_obj_put)
  moreover have "parents_loop n pl (c # cs) lay = Inr lc" using d lb(1) lc(1) by (simp add: Let_def)
  moreover have "same_shape lay lc" using same_shape_trans s1 lb(2) lc(2) by blast
  ultimately show ?case using lc(3,5) by (intro exI [of _ lc]) auto
qed

lemma updateComponentParentsList_ok:
  assumes "layout_ok lay" and "map_of lay x = Some c" and "card (below (kids_of lay) x) \<le> n"
  shows "\<exists>lay'. updateComponentParentsList n c lay = Inr lay' \<and> same_shape lay lay' \<and> obj_wf lay' \<and>
    (\<forall>y. y \<notin> below (kids_of lay) x - {x} \<longrightarrow> map_of lay' y = map_of lay y) \<and> paths_below lay' x"
  using assms
proof (induction n arbitrary: lay x c)
  case 0
  have "finite (below (kids_of lay) x)"
    using below_in_dom [of "kids_of lay" x] 0(1,2) finite_dom_map_of [of lay] by (auto simp: layout_ok_def intro: finite_subset)
  then have "below (kids_of lay) x = {}" using 0(3) by simp
  with below_refl [of x "kids_of lay"] have False by (simp only: empty_iff)
  then show ?case ..
next
  case (Suc n)
  let ?k = "kids_of lay"
  have f: "forest ?k" and idc: "co_id c = x" using Suc.prems by (auto simp: layout_ok_def)
  have kx: "?k x = Some (co_children c)" using Suc.prems(2) by (simp add: kids_of_def)
  have xd: "x \<in> dom ?k" using Suc.prems(2) by auto
  let ?pl = "or_empty (co_parents c) @ [x]"
  have step: "\<exists>lay'. updateComponentParentsList n d la = Inr lay' \<and> same_shape la lay' \<and> obj_wf lay' \<and>
        (\<forall>y. y \<notin> below ?k ch - {ch} \<longrightarrow> map_of lay' y = map_of la y) \<and> paths_below lay' ch"
    if "layout_ok la" "kids_of la = ?k" "child_of ?k x ch" "map_of la ch = Some d" for la ch d
  proof -
    have "card (below ?k ch) < card (below ?k x)"
      using below_grows(1) [OF f that(3)] xd by (simp add: finite_dom_map_of)
    then show ?thesis using Suc.IH [OF that(1,4)] that(2) Suc.prems(3) by simp
  qed
  have cc: "\<forall>ch\<in>set (co_children c). child_of ?k x ch" using kx by (simp add: child_of_def)
  obtain lay' where l: "parents_loop n ?pl (co_children c) lay = Inr lay'" "same_shape lay lay'" "obj_wf lay'"
      "\<And>y. y \<notin> (\<Union>c\<in>set (co_children c). below ?k c) \<Longrightarrow> map_of lay' y = map_of lay y"
      "\<And>ch. ch \<in> set (co_children c) \<Longrightarrow> pars lay' ch = Some ?pl \<and> paths_below lay' ch"
    using parents_loop_ok [OF f xd forestD(1) [OF f kx] cc Suc.prems(1) refl step, of ?pl] by blast
  have k': "kids_of lay' = ?k" by (rule same_shape_kids [OF l(2)])
  have sub: "(\<Union>c\<in>set (co_children c). below ?k c) \<subseteq> below ?k x - {x}"
  proof (rule UN_least)
    fix ch assume "ch \<in> set (co_children c)"
    then have ch: "child_of ?k x ch" using kx by (simp add: child_of_def)
    show "below ?k ch \<subseteq> below ?k x - {x}"
      using below_trans [OF child_below [OF ch]] forest_not_above [OF f ch] by blast
  qed
  then have "x \<notin> (\<Union>c\<in>set (co_children c). below ?k c)" by blast
  from l(4) [OF this] have px: "pars lay' x = co_parents c" using Suc.prems(2) by (simp add: pars_def)
  have "paths_below lay' x"
    unfolding paths_below_def k'
  proof (intro ballI allI impI)
    fix p y assume p: "p \<in> below ?k x" and y: "child_of ?k p y"
    from below_cases [OF p] show "pars lay' y = Some (or_empty (pars lay' p) @ [p])"
    proof
      assume "p = x"
      then have "y \<in> set (co_children c)" using y kx by (auto simp: child_of_def)
      then show ?thesis using l(5) \<open>p = x\<close> px by simp
    next
      assume "\<exists>ch. child_of ?k x ch \<and> p \<in> below ?k ch"
      then obtain ch where "ch \<in> set (co_children c)" "p \<in> below ?k ch" using kx by (auto simp: child_of_def)
      then show ?thesis using l(5) [of ch] y unfolding paths_below_def k' by blast
    qed
  qed
  moreover have "updateComponentParentsList (Suc n) c lay = Inr lay'"
    using l(1) idc Suc.prems(2) by (simp add: Let_def)
  moreover have "map_of lay' y = map_of lay y" if "y \<notin> below ?k x - {x}" for y
    using l(4) [of y] that sub by blast
  ultimately show ?case using l(2,3) by blast
qed

text \<open>Updating the parents list of a well-formed layout ends, changes nothing but the parents lists,
  and gives every component below the root its path.\<close>

lemma update_parents_list_spec:
  assumes "layout_ok lay" and "map_of lay ''ROOT_ID'' = Some r"
  shows "\<exists>lay'. layoutReducer t nanoid UpdateComponentsParentsList (lay, cache) = Inr (lay', cache) \<and>
    layout_ok lay' \<and> same_shape lay lay' \<and> paths_below lay' ''ROOT_ID'' \<and> map_of lay' ''ROOT_ID'' = Some r"
proof -
  let ?l = "obj_assign [] lay"
  have ok: "layout_ok ?l" and r: "map_of ?l ''ROOT_ID'' = Some r" using assms by simp_all
  have "card (below (kids_of ?l) ''ROOT_ID'') \<le> card (dom (map_of lay))"
    using below_in_dom [of "kids_of lay" "''ROOT_ID''"] assms by (intro card_mono) (auto simp: layout_ok_def finite_dom_map_of)
  also have "\<dots> \<le> depth_bound lay" using card_dom_le [of lay] by (simp add: depth_bound_def)
  finally obtain lb where lb: "updateComponentParentsList (depth_bound lay) r ?l = Inr lb" "same_shape ?l lb" "obj_wf lb"
      "\<forall>y. y \<notin> below (kids_of ?l) ''ROOT_ID'' - {''ROOT_ID''} \<longrightarrow> map_of lb y = map_of ?l y" "paths_below lb ''ROOT_ID''"
    using updateComponentParentsList_ok [OF ok r] by blast
  have rb: "map_of lb ''ROOT_ID'' = Some r" using lb(4) r by simp
  have "paths_below (obj_assign [] lb) ''ROOT_ID''" using lb(5) by (simp add: paths_below_def pars_def)
  moreover have "same_shape lay (obj_assign [] lb)" using lb(2) by (simp add: same_shape_def)
  moreover have "layout_ok (obj_assign [] lb)" using same_shape_ok [OF lb(2) ok lb(3)] by simp
  ultimately show ?thesis using lb(1) rb assms(2) by (simp add: layoutReducer_def)
qed

text \<open>The path of a component: the components it lies below.\<close>

lemma paths_below_set:
  assumes "layout_ok lay" and "paths_below lay x" and "or_empty (pars lay x) = []" and "y \<in> below (kids_of lay) x"
  shows "set (or_empty (pars lay y)) = {a. a \<in> below (kids_of lay) x \<and> y \<in> below (kids_of lay) a \<and> a \<noteq> y}"
  using assms(4)
proof (induction rule: below_induct)
  case refl
  have "a = x" if "a \<in> below (kids_of lay) x" "x \<in> below (kids_of lay) a" for a
  proof (rule ccontr)
    assume "a \<noteq> x"
    with below_cases [OF that(1)] obtain c where "child_of (kids_of lay) x c" "a \<in> below (kids_of lay) c" by blast
    moreover have "forest (kids_of lay)" using assms(1) by (simp add: layout_ok_def)
    ultimately show False using forest_not_above [of "kids_of lay" x c] below_trans [OF _ that(2)] by blast
  qed
  then show ?case using assms(3) by auto
next
  case (step p y)
  let ?k = "kids_of lay"
  have f: "forest ?k" using assms(1) by (simp add: layout_ok_def)
  have "or_empty (pars lay y) = or_empty (pars lay p) @ [p]"
    using assms(2) step.hyps unfolding paths_below_def by (simp add: or_empty_def)
  moreover have "a \<in> below ?k x \<and> y \<in> below ?k a \<and> a \<noteq> y \<longleftrightarrow> a = p \<or> a \<in> below ?k x \<and> p \<in> below ?k a \<and> a \<noteq> p" for a
  proof
    assume "a \<in> below ?k x \<and> y \<in> below ?k a \<and> a \<noteq> y"
    then show "a = p \<or> a \<in> below ?k x \<and> p \<in> below ?k a \<and> a \<noteq> p"
      using below_parent [OF f _ _ step.hyps(2), of a] by auto
  next
    have py: "p \<notin> below ?k y" by (rule forest_not_above [OF f step.hyps(2)])
    assume "a = p \<or> a \<in> below ?k x \<and> p \<in> below ?k a \<and> a \<noteq> p"
    then show "a \<in> below ?k x \<and> y \<in> below ?k a \<and> a \<noteq> y"
      using step.hyps py below_step [of p ?k _ y] child_below [of ?k p y] by auto
  qed
  ultimately show ?case using step.IH by auto
qed

text \<open>
  C36. Filter scopes follow the layout. After the parents lists have been updated, a filter that is
  scoped to some components below the root reaches a chart of the dashboard exactly when the
  chart lies below one of them and is not excluded.
\<close>

theorem filter_scope_of_tabs:
  assumes ok: "layout_ok lay" and r: "map_of lay ''ROOT_ID'' = Some r" "or_empty (co_parents r) = []"
    and u: "layoutReducer t nanoid UpdateComponentsParentsList (lay, cache) = Inr (lay', cache')"
    and c: "map_of lay x = Some c" "co_type c = ''CHART''" "li_chartId (item_of c) = Some n" "x \<in> below (kids_of lay) ''ROOT_ID''"
    and un: "\<And>y d. map_of lay y = Some d \<Longrightarrow> co_type d = ''CHART'' \<Longrightarrow> li_chartId (item_of d) = Some n \<Longrightarrow> y = x"
    and tabs: "set tabs \<subseteq> below (kids_of lay) ''ROOT_ID''"
  shows "n \<in> set (getChartIdsInFilterScope \<lparr>rootPath = tabs, excluded = ex, selectedLayers = None\<rparr> chartIds (map snd (items lay'))) \<longleftrightarrow>
    n \<in> set chartIds \<and> n \<notin> set ex \<and> (\<exists>tab\<in>set tabs. tab \<noteq> x \<and> x \<in> below (kids_of lay) tab)"
proof -
  obtain lay'' where "layoutReducer t nanoid UpdateComponentsParentsList (lay, cache) = Inr (lay'', cache)" "layout_ok lay''"
      "same_shape lay lay''" "paths_below lay'' ''ROOT_ID''" "map_of lay'' ''ROOT_ID'' = Some r"
    using update_parents_list_spec [OF ok r(1), of t nanoid cache] by blast
  then have l: "layout_ok lay'" "same_shape lay lay'" "paths_below lay' ''ROOT_ID''" "map_of lay' ''ROOT_ID'' = Some r" using u by auto
  have k: "kids_of lay' = kids_of lay" by (rule same_shape_kids [OF l(2)])
  have st: "map_option strip (map_of lay' y) = map_option strip (map_of lay y)" for y
    using l(2) by (auto simp: same_shape_def dest: fun_cong)
  have it: "li_type (item_of a) = li_type (item_of b) \<and> li_chartId (item_of a) = li_chartId (item_of b)" if "strip a = strip b" for a b
    using arg_cong [OF that, of co_type] arg_cong [OF that, of co_meta] by (simp add: strip_def item_of_def)
  obtain c' where c': "map_of lay' x = Some c'" "strip c' = strip c" using st [of x] c(1) by (cases "map_of lay' x") auto
  let ?P = "\<lambda>i. li_type i = ''CHART'' \<and> li_chartId i = Some n"
  have key: "i = item_of c'" if "i \<in> set (map snd (items lay'))" "?P i" for i
  proof -
    from that(1) obtain y d where d: "(y, d) \<in> set lay'" "i = item_of d" by (auto simp: items_def)
    then have my: "map_of lay' y = Some d" using l(1) by (simp add: layout_ok_def obj_wf_def)
    with st [of y] obtain e where e: "map_of lay y = Some e" "strip e = strip d" by (cases "map_of lay y") auto
    then have "y = x" using un [OF e(1)] it [OF e(2)] that(2) d(2) by (simp add: item_of_def)
    then show ?thesis using my c'(1) d(2) by simp
  qed
  have "item_of c' \<in> set (map snd (items lay'))" using map_of_SomeD [OF c'(1)] by (force simp: items_def)
  moreover have pc: "?P (item_of c')" using it [OF c'(2)] c(2,3) by (simp add: item_of_def)
  ultimately have "find ?P (map snd (items lay')) = Some (item_of c')"
    using key find_SomeD [of ?P "map snd (items lay')"] find_None_iff [of ?P "map snd (items lay')"]
    by (cases "find ?P (map snd (items lay'))") blast+
  moreover have "set (or_empty (pars lay' x)) = {a. a \<in> below (kids_of lay) ''ROOT_ID'' \<and> x \<in> below (kids_of lay) a \<and> a \<noteq> x}"
    using paths_below_set [OF l(1,3), of x] c(4) l(4) r(2) unfolding k by (simp add: pars_def)
  moreover have "li_parents (item_of c') = pars lay' x" using c'(1) by (simp add: item_of_def pars_def)
  ultimately have "in_root_path tabs (map snd (items lay')) n \<longleftrightarrow> (\<exists>tab\<in>set tabs. tab \<noteq> x \<and> x \<in> below (kids_of lay) tab)"
    using tabs by (cases "pars lay' x") (auto simp: in_root_path_def or_empty_def list_ex_iff)
  then show ?thesis by (auto simp: getChartIdsInFilterScope_def Let_def)
qed

section \<open>Top-level tabs\<close>

text \<open>
  Nested tabs on the root. When tabs that already are on the dashboard, but not directly in the
  top-level container, are dropped on the root, the container's other children move into the
  first of these tabs, the one that holds the dropped tabs among them: the layout has a cycle.
\<close>

lemma create_top_level_tabs_cycle:
  assumes ok: "layout_ok lay" and rt: "map_of lay ''ROOT_ID'' = Some rt" "co_children rt = tpid # rest"
    and tp: "map_of lay tpid = Some tp" "r \<in> set (co_children tp)" "r \<noteq> dg_id dg" "dg_id dg \<in> below (kids_of lay) r"
    and tabs: "map_of lay (dg_id dg) = Some tabs" "co_children tabs = tab # ts"
    and dr: "dr_source dr = Some src" "di_id src \<noteq> ''NEW_COMPONENTS_SOURCE_ID''" "dr_dragging dr = Some dg"
  shows "\<exists>lay'. create_top_level_tabs t nanoid dr (lay, cache) = Inr (lay', cache) \<and> r \<in> below (kids_of lay') tab \<and>
    tab \<in> below (kids_of lay') r \<and> \<not> layout_ok lay'"
proof -
  let ?k = "kids_of lay" and ?x = "dg_id dg"
  have f: "forest ?k" using ok by (simp add: layout_ok_def)
  have e1: "child_of ?k ''ROOT_ID'' tpid" "child_of ?k tpid r" "child_of ?k ?x tab"
    using rt tp tabs by (auto simp: child_of_def kids_of_def)
  obtain tb where tb: "map_of lay tab = Some tb"
    using forestD(2) [OF f, of ?x] tabs by (auto simp: kids_of_def)
  let ?cm = "filter (\<lambda>i. i \<noteq> ?x) (co_children tp)"
  let ?l = "obj_put tab (tb\<lparr>co_children := co_children tb @ ?cm\<rparr>) (obj_put tpid (tp\<lparr>co_children := []\<rparr>)
      (obj_put ''ROOT_ID'' (rt\<lparr>co_children := [?x]\<rparr>) (obj_assign [] lay)))"
  have res: "create_top_level_tabs t nanoid dr (lay, cache) = Inr (?l, cache)"
    using rt tp(1) tabs dr tb by (simp add: create_top_level_tabs_def need_def Let_def id_at_def del: obj_put.simps)
  have kl: "kids_of ?l = ?k(''ROOT_ID'' \<mapsto> [?x], tpid \<mapsto> [], tab \<mapsto> co_children tb @ ?cm)" by simp
  have nb: "''ROOT_ID'' \<notin> below ?k r" "tpid \<notin> below ?k r"
    using forest_not_above [OF f e1(2)] forest_not_above [OF f e1(1)] below_trans [OF child_below [OF e1(2)]] by blast+
  have path: "?x \<in> below (kids_of ?l) y" if "?x \<in> below ?k y" "y \<in> below ?k r" for y
  proof -
    have "(child_of ?k)\<^sup>*\<^sup>* y ?x" using that(1) by (simp add: below_def)
    then show ?thesis using that(2)
    proof (induction rule: converse_rtranclp_induct)
      case (step y z)
      have "?x \<in> below ?k z" using step.hyps(2) by (simp add: below_def)
      then have "?x \<in> below ?k y" by (rule below_trans [OF child_below [OF step.hyps(1)]])
      then have "y \<noteq> tab" using forest_not_above [OF f e1(3)] by auto
      then have "child_of (kids_of ?l) y z" using step.hyps(1) step.prems nb unfolding kl child_of_upd by auto
      then show ?case by (rule below_trans [OF child_below]) (rule step.IH [OF below_step [OF step.prems step.hyps(1)]])
    qed simp
  qed
  have xt: "?x \<noteq> tab" using forest_not_above [OF f e1(3)] by auto
  have "?x \<noteq> ''ROOT_ID''" "?x \<noteq> tpid" using tp(4) nb by auto
  then have "child_of (kids_of ?l) ?x tab" using e1(3) xt unfolding kl child_of_upd by simp
  then have t1: "tab \<in> below (kids_of ?l) r" using path [OF tp(4) below_refl] by (rule below_step [rotated])
  have c: "child_of (kids_of ?l) tab r" using tp(2,3) unfolding kl child_of_upd by simp
  then have "\<not> forest (kids_of ?l)" using forest_not_above [of "kids_of ?l" tab r] t1 by blast
  then show ?thesis using res c t1 child_below [OF c] by (auto simp: layout_ok_def)
qed

lemma delete_top_level_tabs_result:
  assumes "delete_top_level_tabs (lay, cache) = Inr (lay', cache')" and "map_of lay ''ROOT_ID'' = Some rt"
    and "co_children rt = tabsId # rest" and "map_of lay tabsId = Some tp" and "co_type tp = ''TABS''" and "map_of lay ''GRID_ID'' = Some g"
  obtains tabs where "list_all2 (\<lambda>i c. map_of lay i = Some c) (co_children tp) tabs"
    and "map_of lay' = (map_of lay |` (- insert tabsId (set (co_children tp))))
      (''ROOT_ID'' \<mapsto> rt\<lparr>co_children := [''GRID_ID'']\<rparr>, ''GRID_ID'' \<mapsto> g\<lparr>co_children := concat (map co_children tabs)\<rparr>)"
    and "obj_wf lay \<Longrightarrow> obj_wf lay'"
proof -
  from assms obtain tabs where t: "rmap (\<lambda>tabId. need (map_of lay tabId)) (co_children tp) = Inr tabs"
    and l: "lay' = obj_put ''GRID_ID'' (g\<lparr>co_children := concat (map co_children tabs)\<rparr>)
        (obj_put ''ROOT_ID'' (rt\<lparr>co_children := [''GRID_ID'']\<rparr>)
          (AList.delete tabsId (fold AList.delete (co_children tp) (obj_assign [] lay))))"
    by (auto simp: delete_top_level_tabs_def need_def Let_def id_at_def rbind_Inr_iff simp del: obj_put.simps)
  have "list_all2 (\<lambda>i c. map_of lay i = Some c) (co_children tp) tabs"
    using t by (auto simp: rmap_Inr_iff need_def elim!: list_all2_mono split: option.splits)
  moreover have "map_of (AList.delete tabsId (fold AList.delete (co_children tp) (obj_assign [] lay))) =
      map_of lay |` (- insert tabsId (set (co_children tp)))"
    by (auto simp: delete_conv' objd.get_del_all restrict_map_def fun_eq_iff)
  moreover have "obj_wf lay \<Longrightarrow> obj_wf lay'"
    unfolding l by (intro obj_wf_put obj_wf_delete objd.wf_del_all obj_wf_assign) simp
  ultimately show ?thesis using that by (simp add: l map_of_obj_put)
qed

lemma forest_concat_distinct:
  assumes "forest k" and "distinct xs" and "set xs \<subseteq> dom k"
  shows "distinct (concat (map (\<lambda>i. the (k i)) xs))"
  using assms(2,3)
proof (induction xs)
  case (Cons x xs)
  obtain ys where ys: "k x = Some ys" using Cons.prems(2) by auto
  have "set ys \<inter> set (the (k z)) = {}" if z: "z \<in> set xs" for z
  proof -
    obtain zs where "k z = Some zs" using z Cons.prems(2) by auto
    then show ?thesis using ys z Cons.prems(1) assms(1) unfolding forest_def by (metis distinct.simps(2) option.sel)
  qed
  then show ?case using Cons ys forestD(1) [OF assms(1) ys] by auto
qed simp

text \<open>The change of the forest when the children of the tabs \<open>ts\<close> of \<open>t\<close> move from there to \<open>g\<close>.\<close>

lemma forest_untab:
  assumes f: "forest k" and r: "child_of k r t" and t: "k t = Some ts" and g: "k g = Some gs" "orphan k g" "g \<noteq> r"
    and M: "distinct M" "\<And>u. u \<in> set M \<Longrightarrow> \<exists>i\<in>set ts. child_of k i u"
  shows "forest ((k |` (- insert t (set ts)))(r \<mapsto> [g], g \<mapsto> M))"
proof -
  let ?D = "insert t (set ts)" and ?k1 = "k(r \<mapsto> [])"
  have ct: "child_of k t i" if "i \<in> set ts" for i using that t by (simp add: child_of_def)
  have RD: "r \<notin> ?D" using forest_not_above [OF f r] child_below [OF ct] by auto
  have GD: "g \<notin> ?D" using g(2) r ct by (auto simp: orphan_def)
  obtain rs where rs: "k r = Some rs" using r by (auto simp: child_of_def)
  have f1: "forest ?k1" by (rule forest_relink [OF f rs, of _ "{}"]) auto
  let ?k2 = "?k1 |` (- ?D)"
  have f2: "forest ?k2"
  proof (rule forest_restrict [OF f1])
    fix x y assume c: "child_of ?k1 x y" and y: "y \<in> ?D"
    then have x: "x \<noteq> r" "child_of k x y" by (auto simp: child_of_upd split: if_splits)
    then have "y \<noteq> t" using forestD(3) [OF f r, of x] by auto
    then have "y \<in> set ts" using y by simp
    then have "x = t" using forestD(3) [OF f x(2) ct] by blast
    then show "x \<in> ?D" by simp
  qed
  have sub: "child_of k a b" if "child_of ?k2 a b" for a b
    using that by (auto simp: child_of_restrict child_of_upd split: if_splits)
  have f3: "forest (?k2(g \<mapsto> M))"
  proof (rule forest_relink [OF f2 _ M(1), where U = "set M"])
    show "?k2 g = Some gs" using g GD by simp
    fix u assume "u \<in> set M"
    then obtain i where i: "i \<in> set ts" "child_of k i u" using M(2) by blast
    have "u \<noteq> t" using forestD(3) [OF f r, of i] i RD by auto
    moreover have "u \<notin> set ts" using forestD(3) [OF f i(2) ct, of ] forest_not_above [OF f ct [OF i(1)]] by fastforce
    moreover have "u \<in> dom k" using i(2) forestD(2) [OF f] by (fastforce simp: child_of_def)
    ultimately have 1: "u \<in> dom ?k2" by (auto simp: restrict_map_def)
    have "\<not> child_of ?k2 z u" for z
    proof
      assume z: "child_of ?k2 z u"
      then have "z = i" by (rule forestD(3) [OF f sub i(2)])
      then show False using z [unfolded child_of_restrict] i(1) by simp
    qed
    then have 2: "orphan ?k2 u" by (simp add: orphan_def)
    have "g \<notin> below k u" using orphan_below [OF g(2), of u] i(2) g(2) by (auto simp: orphan_def)
    then show "u \<in> dom ?k2 \<and> orphan ?k2 u \<and> g \<notin> below ?k2 u" using 1 2 below_sub [of ?k2 k u] sub by blast
  qed simp
  have "forest (?k2(g \<mapsto> M, r \<mapsto> [g]))"
  proof (rule forest_relink [OF f3, where U = "{g}"])
    show "(?k2(g \<mapsto> M)) r = Some []" using g(3) RD by simp
    have gM: "g \<notin> set M" using M(2) g(2) by (auto simp: orphan_def)
    have "\<not> child_of (?k2(g \<mapsto> M)) z g" for z using gM g(2) sub [of z g] by (auto simp: child_of_upd orphan_def)
    moreover have bg: "y = g \<or> (\<exists>u\<in>set M. y \<in> below k u)" if "y \<in> below (?k2(g \<mapsto> M)) g" for y
      using that
    proof (induction rule: below_induct)
      case (step y z)
      show ?case
      proof (cases "y = g")
        case True
        then have "z \<in> set M" using step.hyps(2) by (simp add: child_of_upd)
        then show ?thesis using below_refl [of z k] by (auto simp del: below_refl)
      next
        case False
        then have yz: "child_of k y z" using sub [of y z] step.hyps(2) by (simp only: child_of_upd if_False)
        from step.IH False obtain u where u: "u \<in> set M" "y \<in> below k u" by auto
        from u(1) below_step [OF u(2) yz] show ?thesis by blast
      qed
    qed simp
    have "r \<notin> below (?k2(g \<mapsto> M)) g"
    proof
      assume "r \<in> below (?k2(g \<mapsto> M)) g"
      with bg [of r] g(3) obtain v where v: "v \<in> set M" "r \<in> below k v" by blast
      with M(2) [OF v(1)] obtain u i where u: "r \<in> below k u" "i \<in> set ts" "child_of k i u" by blast
      then have "i \<in> below k u" using below_step [OF below_step [OF u(1) r] ct [OF u(2)]] by simp
      then show False using forest_not_above [OF f u(3)] by simp
    qed
    ultimately show "u \<in> {g} \<Longrightarrow> u \<in> dom (?k2(g \<mapsto> M)) \<and> orphan (?k2(g \<mapsto> M)) u \<and> r \<notin> below (?k2(g \<mapsto> M)) u" for u
      by (auto simp: orphan_def)
  qed auto
  moreover have "?k2(g \<mapsto> M, r \<mapsto> [g]) = (k |` (- ?D))(r \<mapsto> [g], g \<mapsto> M)"
    using g(3) by (auto simp: restrict_map_def fun_eq_iff)
  ultimately show ?thesis by simp
qed

text \<open>
  Deleting the top-level tabs keeps their content. Exactly the tab container and its tabs
  disappear; every other component stays, with its type; the children of the tabs become, in
  their order, the children of the grid, which is again the only child of the root; and the
  layout stays well formed.
\<close>

lemma delete_top_level_tabs_spec:
  assumes ok: "layout_ok lay" and rt: "map_of lay ''ROOT_ID'' = Some rt" "co_children rt = tabsId # rest"
    and tp: "map_of lay tabsId = Some tp" "co_type tp = ''TABS''"
    and g: "map_of lay ''GRID_ID'' = Some g" "orphan (kids_of lay) ''GRID_ID''"
    and d: "delete_top_level_tabs (lay, cache) = Inr (lay', cache')"
  shows "layout_ok lay' \<and> dom (map_of lay') = dom (map_of lay) - insert tabsId (set (co_children tp)) \<and>
    (\<forall>y\<in>dom (map_of lay'). \<exists>c c'. map_of lay y = Some c \<and> map_of lay' y = Some c' \<and> co_type c' = co_type c \<and> co_meta c' = co_meta c) \<and>
    kids_of lay' ''ROOT_ID'' = Some [''GRID_ID''] \<and>
    kids_of lay' ''GRID_ID'' = Some (concat (map (\<lambda>i. the (kids_of lay i)) (co_children tp)))"
proof -
  let ?k = "kids_of lay" and ?R = "''ROOT_ID''" and ?G = "''GRID_ID''" and ?D = "insert tabsId (set (co_children tp))"
  have f: "forest ?k" and ids: "\<And>x c. map_of lay x = Some c \<Longrightarrow> co_id c = x" and wf: "obj_wf lay"
    using ok by (auto simp: layout_ok_def)
  from d rt tp g(1) obtain tabs where tabs: "list_all2 (\<lambda>i c. map_of lay i = Some c) (co_children tp) tabs"
    and m: "map_of lay' = (map_of lay |` (- ?D))(?R \<mapsto> rt\<lparr>co_children := [?G]\<rparr>, ?G \<mapsto> g\<lparr>co_children := concat (map co_children tabs)\<rparr>)"
    and wf': "obj_wf lay'"
    by (rule delete_top_level_tabs_result) (use wf in blast)
  have moved: "concat (map co_children tabs) = concat (map (\<lambda>i. the (?k i)) (co_children tp))" (is "?M = _")
    using tabs by (induction rule: list_all2_induct) (auto simp: kids_of_def)
  have cR: "child_of ?k ?R tabsId" using rt by (simp add: child_of_def kids_of_def)
  have kt: "?k tabsId = Some (co_children tp)" using tp(1) by (simp add: kids_of_def)
  have ct: "child_of ?k tabsId i" if "i \<in> set (co_children tp)" for i using that kt by (simp add: child_of_def)
  have RD: "?R \<notin> ?D" using forest_not_above [OF f cR] child_below [OF ct] by auto
  have GD: "?G \<notin> ?D" using g(2) cR ct by (auto simp: orphan_def)
  have k': "kids_of lay' = (?k |` (- ?D))(?R \<mapsto> [?G], ?G \<mapsto> ?M)"
    by (auto simp: kids_of_def m restrict_map_def fun_eq_iff)
  have M: "\<exists>i\<in>set (co_children tp). child_of ?k i u" if "u \<in> set ?M" for u
  proof -
    from that obtain i where i: "i \<in> set (co_children tp)" "u \<in> set (the (?k i))" unfolding moved by auto
    have "i \<in> dom ?k" using forestD(2) [OF f kt] i(1) by blast
    then have "child_of ?k i u" using i(2) by (auto simp: child_of_def kids_of_def)
    with i(1) show ?thesis by blast
  qed
  have "distinct ?M" unfolding moved
    by (rule forest_concat_distinct [OF f forestD(1) [OF f kt] forestD(2) [OF f kt]])
  moreover have "?k ?G = Some (co_children g)" using g(1) by (simp add: kids_of_def)
  ultimately have "forest ((?k |` (- ?D))(?R \<mapsto> [?G], ?G \<mapsto> ?M))"
    by (intro forest_untab [OF f cR kt _ g(2) _ _ M]) auto
  then have "layout_ok lay'" using wf' ids rt(1) g(1) unfolding layout_ok_def k' by (auto simp: m restrict_map_def split: if_splits)
  moreover have "dom (map_of lay') = dom (map_of lay) - ?D" using RD GD rt(1) g(1) by (auto simp: m restrict_map_def split: if_splits)
  moreover have "\<exists>c c'. map_of lay y = Some c \<and> map_of lay' y = Some c' \<and> co_type c' = co_type c \<and> co_meta c' = co_meta c"
    if "y \<in> dom (map_of lay')" for y
    using that rt(1) g(1) by (auto simp: m restrict_map_def split: if_splits)
  moreover have "kids_of lay' ?R = Some [?G]" "kids_of lay' ?G = Some ?M" by (simp_all add: k')
  ultimately show ?thesis unfolding moved by blast
qed

end
