(* ===== verification/LayoutWitnesses.thy ===== *)
theory LayoutWitnesses
  imports LayoutParents
begin

text \<open>
  Concrete layouts on which the layout theorems apply: a grid with two rows, two top-level
  tabs, and tabs nested in a column.
\<close>

section \<open>Layouts in topological order\<close>

text \<open>An executable criterion for well-formedness: every component comes before its children.\<close>

fun topo :: "components \<Rightarrow> bool" where
  "topo [] = True"
| "topo ((i, c) # ps) = (co_id c = i \<and> i \<notin> set (map fst ps) \<and> list_all (\<lambda>x. x \<in> set (map fst ps)) (co_children c) \<and> topo ps)"

lemma topo_forest:
  "topo lay \<Longrightarrow> distinct (concat (map (co_children \<circ> snd) lay)) \<Longrightarrow>
     forest (kids_of lay) \<and> (\<forall>x c. map_of lay x = Some c \<longrightarrow> co_id c = x)"
proof (induction lay)
  case Nil
  then show ?case by (auto simp: forest_def kids_of_def child_of_def elim: tranclp.cases)
next
  case (Cons p ps)
  obtain i c where p: "p = (i, c)" by (cases p)
  let ?k = "kids_of ps"
  have IH: "forest ?k" "\<And>x c. map_of ps x = Some c \<Longrightarrow> co_id c = x" using Cons p by auto
  have new: "i \<notin> dom ?k" using Cons.prems(1) p by (simp add: dom_map_of_conv_image_fst)
  have sub: "set (co_children c) \<subseteq> dom ?k" using Cons.prems(1) p by (auto simp: dom_map_of_conv_image_fst list_all_iff)
  note fn = forest_new [OF IH(1) new]
  have "forest (?k(i \<mapsto> [], i \<mapsto> co_children c))"
  proof (rule forest_relink [OF fn(1), where U = "set (co_children c)"])
    show "distinct (co_children c)" using Cons.prems(2) p by simp
    fix u assume u: "u \<in> set (co_children c)"
    have "\<not> child_of ?k z u" for z
    proof
      assume "child_of ?k z u"
      then obtain d where "map_of ps z = Some d" "u \<in> set (co_children d)" by (auto simp: child_of_def dest: kids_of_SomeD)
      then have "u \<in> set (concat (map (co_children \<circ> snd) ps))" by (force dest: map_of_SomeD)
      then show False using u Cons.prems(2) p by auto
    qed
    then have o: "orphan (?k(i \<mapsto> [])) u" by (simp add: orphan_def fn(3))
    have "below (?k(i \<mapsto> [])) u \<subseteq> below ?k u" by (rule below_sub) (simp add: fn(3))
    also have "\<dots> \<subseteq> dom ?k" using below_in_dom [OF IH(1)] u sub by blast
    finally show "u \<in> dom (?k(i \<mapsto> [])) \<and> orphan (?k(i \<mapsto> [])) u \<and> i \<notin> below (?k(i \<mapsto> [])) u" using o u sub new by auto
  qed auto
  moreover have "kids_of (p # ps) = ?k(i \<mapsto> co_children c)" by (auto simp: kids_of_def p fun_eq_iff)
  ultimately have "forest (kids_of (p # ps))" by (simp only: fun_upd_upd)
  moreover have "\<forall>x d. map_of (p # ps) x = Some d \<longrightarrow> co_id d = x" using IH(2) Cons.prems(1) p by auto
  ultimately show ?case ..
qed

lemma layout_ok_topo:
  "topo lay \<Longrightarrow> obj_wf lay \<Longrightarrow> distinct (concat (map (co_children \<circ> snd) lay)) \<Longrightarrow> layout_ok lay"
  using topo_forest [of lay] by (auto simp: layout_ok_def)

definition box :: "string \<Rightarrow> string \<Rightarrow> string list \<Rightarrow> string \<times> component" where
  "box i ty cs = (i, \<lparr>co_id = i, co_type = ty, co_children = cs, co_parents = None, co_width = None, co_meta = []\<rparr>)"

definition chart_box :: "string \<Rightarrow> int \<Rightarrow> string \<times> component" where
  "chart_box i n = (i, \<lparr>co_id = i, co_type = ''CHART'', co_children = [], co_parents = None, co_width = Some 4,
     co_meta = [(''chartId'', JInt n)]\<rparr>)"

definition grid1 :: components where
  "grid1 = [box ''ROOT_ID'' ''ROOT'' [''GRID_ID''], box ''GRID_ID'' ''GRID'' [''r'', ''s''], box ''r'' ''ROW'' [''x''],
     box ''s'' ''ROW'' [''y''], chart_box ''x'' 7, chart_box ''y'' 8]"

definition tabs1 :: components where
  "tabs1 = [box ''ROOT_ID'' ''ROOT'' [''T''], box ''T'' ''TABS'' [''a'', ''b''], box ''a'' ''TAB'' [''r''], box ''b'' ''TAB'' [''s''],
     box ''GRID_ID'' ''GRID'' [], box ''r'' ''ROW'' [''x''], box ''s'' ''ROW'' [''y''], chart_box ''x'' 7, chart_box ''y'' 8]"

lemma grid1_ok: "layout_ok grid1"
  by (rule layout_ok_topo) code_simp+

lemma tabs1_ok: "layout_ok tabs1"
  by (rule layout_ok_topo) code_simp+

theorem delete_component_spec_witness:
  "map_of (fst (delete_component (Some ''x'') (Some ''r'') (grid1, []))) ''r'' = None \<and>
   layout_ok (fst (delete_component (Some ''x'') (Some ''r'') (grid1, [])))"
proof -
  have c: "child_of (kids_of grid1) ''r'' ''x''" by (simp add: child_of_def kids_of_def grid1_def box_def chart_box_def)
  have r: "\<exists>d. map_of grid1 ''r'' = Some d \<and> co_type d = ''ROW'' \<and> co_children d = [''x'']"
    by (simp add: grid1_def box_def chart_box_def)
  from delete_component_spec [OF grid1_ok c, of "[]"] r show ?thesis by auto
qed

definition drop1 :: drop_result where
  "drop1 = \<lparr>dr_source = Some \<lparr>di_id = ''r'', di_type = ''ROW'', di_index = 0\<rparr>,
     dr_destination = Some \<lparr>di_id = ''s'', di_type = ''ROW'', di_index = 1\<rparr>,
     dr_dragging = Some \<lparr>dg_id = ''x'', dg_type = ''CHART'', dg_meta = no_meta\<rparr>, dr_position = ''DROP_RIGHT''\<rparr>"

definition row_dst :: drop_item where
  "row_dst = \<lparr>di_id = ''s'', di_type = ''ROW'', di_index = 1\<rparr>"

definition row_src :: drop_item where
  "row_src = \<lparr>di_id = ''r'', di_type = ''ROW'', di_index = 0\<rparr>"

definition drag_x :: drag_item where
  "drag_x = \<lparr>dg_id = ''x'', dg_type = ''CHART'', dg_meta = no_meta\<rparr>"

lemma grid1_lookup:
  "map_of grid1 ''r'' = Some (snd (box ''r'' ''ROW'' [''x'']))" "map_of grid1 ''s'' = Some (snd (box ''s'' ''ROW'' [''y'']))"
  "map_of grid1 ''x'' = Some (snd (chart_box ''x'' 7))" "''ROW-'' @ show_nat 1 \<notin> dom (map_of grid1)"
proof -
  have "map_of grid1 (''ROW-'' @ show_nat 1) = None" by code_simp
  then show "''ROW-'' @ show_nat 1 \<notin> dom (map_of grid1)" by (simp add: domIff)
qed (simp_all add: grid1_def box_def chart_box_def)

lemma leaf_x: "below (kids_of grid1) ''x'' = {''x''}"
  by (rule below_leaf) (simp add: kids_of_def grid1_def box_def chart_box_def)

lemma drop1_parts:
  "dr_source drop1 = Some row_src" "dr_destination drop1 = Some row_dst" "dr_dragging drop1 = Some drag_x"
  by (simp_all add: drop1_def row_src_def row_dst_def drag_x_def)

lemma drop1_hyps:
  "map_of grid1 (di_id row_src) = Some (snd (box ''r'' ''ROW'' [''x'']))" "0 \<le> di_index row_src"
  "nat (di_index row_src) < length (co_children (snd (box ''r'' ''ROW'' [''x''])))"
  "co_children (snd (box ''r'' ''ROW'' [''x''])) ! nat (di_index row_src) = dg_id drag_x"
  "map_of grid1 (di_id row_dst) = Some (snd (box ''s'' ''ROW'' [''y'']))" "di_id row_dst \<notin> below (kids_of grid1) (dg_id drag_x)"
  "0 \<le> di_index row_dst"
  "nat (di_index row_dst) < length (co_children (snd (box ''s'' ''ROW'' [''y'']))) + (if di_id row_src = di_id row_dst then 0 else 1)"
  by (simp_all add: row_src_def row_dst_def drag_x_def grid1_lookup leaf_x box_def)


theorem doesChildOverflowParent_total_witness:
  "\<exists>r. doesChildOverflowParent (\<lambda>s. s) ''n'' drop1 grid1 [] = Inr r"
  by (rule doesChildOverflowParent_total [OF grid1_ok drop1_parts]) (simp add: row_src_def row_dst_def)


definition new_drop :: drop_result where
  "new_drop = drop1\<lparr>dr_source := Some \<lparr>di_id = ''NEW_COMPONENTS_SOURCE_ID'', di_type = ''NEW'', di_index = 0\<rparr>\<rparr>"

definition root_drop :: drop_result where
  "root_drop = \<lparr>dr_source = Some \<lparr>di_id = ''c'', di_type = ''COLUMN'', di_index = 0\<rparr>,
     dr_destination = Some \<lparr>di_id = ''ROOT_ID'', di_type = ''ROOT'', di_index = 0\<rparr>,
     dr_dragging = Some \<lparr>dg_id = ''T'', dg_type = ''TABS'', dg_meta = no_meta\<rparr>, dr_position = ''DROP_TOP''\<rparr>"

definition grid1_updated :: components where
  "grid1_updated = fst (projr (layoutReducer (\<lambda>s. s) show_nat UpdateComponentsParentsList (grid1, [])))"

theorem filter_scope_of_tabs_witness:
  "7 \<in> set (getChartIdsInFilterScope \<lparr>rootPath = [''r''], excluded = [], selectedLayers = None\<rparr> [7, 8] (map snd (items grid1_updated)))"
proof -
  have "\<not> isl (layoutReducer (\<lambda>s. s) show_nat UpdateComponentsParentsList (grid1, []))" by code_simp
  then obtain cache' where u: "layoutReducer (\<lambda>s. s) show_nat UpdateComponentsParentsList (grid1, []) = Inr (grid1_updated, cache')"
    unfolding grid1_updated_def by (metis fst_conv old.prod.exhaust res_Inr sum.sel(2))
  have r: "map_of grid1 ''ROOT_ID'' = Some (snd (box ''ROOT_ID'' ''ROOT'' [''GRID_ID'']))"
      "or_empty (co_parents (snd (box ''ROOT_ID'' ''ROOT'' [''GRID_ID'']))) = []"
    by (simp_all add: grid1_def box_def chart_box_def or_empty_def)
  have ch: "child_of (kids_of grid1) ''ROOT_ID'' ''GRID_ID''" "child_of (kids_of grid1) ''GRID_ID'' ''r''" "child_of (kids_of grid1) ''r'' ''x''"
    by (simp_all add: child_of_def kids_of_def grid1_def box_def chart_box_def)
  have b: "''r'' \<in> below (kids_of grid1) ''ROOT_ID''" using below_step [OF child_below [OF ch(1)] ch(2)] .
  then have bx: "''x'' \<in> below (kids_of grid1) ''ROOT_ID''" using below_step [OF _ ch(3)] by blast
  have c: "co_type (snd (chart_box ''x'' 7)) = ''CHART''" "li_chartId (item_of (snd (chart_box ''x'' 7))) = Some 7"
    by (simp_all add: chart_box_def item_of_def)
  have un: "y = ''x''" if "map_of grid1 y = Some d" "co_type d = ''CHART''" "li_chartId (item_of d) = Some 7" for y d
    using that by (auto simp: grid1_def box_def chart_box_def item_of_def split: if_splits)
  have "set [''r''] \<subseteq> below (kids_of grid1) ''ROOT_ID''" using b by simp
  from filter_scope_of_tabs [where ex = "[]" and chartIds = "[7, 8]", OF grid1_ok r u grid1_lookup(3) c bx un this] child_below [OF ch(3)]
  show ?thesis by simp
qed

end
