(* ===== verification/JsArith.thy ===== *)
theory JsArith
  imports Registry "HOL-Library.Multiset" "HOL-Library.Char_ord" "HOL-Library.List_Lexorder"
begin

text \<open>
  Arithmetic and comparison of the language: the operators on numbers with the infinities
  and NaN, the conversions the binary operators \<open>+\<close>, \<open>/\<close> and \<open><\<close> apply to their operands, the
  order of strings by code units, and the stable \<open>Array.prototype.sort\<close>.

  Modelling bound. A sort is an insertion sort. When the comparator is consistent on the sorted
  elements, every stable sort has the same result, which is what the language promises; for an
  inconsistent one the language leaves the result open, and the model picks one.
\<close>

section \<open>Numbers\<close>

fun num_neg :: "jsnum \<Rightarrow> jsnum" where
  "num_neg (Fin a) = Fin (- a)"
| "num_neg PosInf = NegInf"
| "num_neg NegInf = PosInf"
| "num_neg NaN = NaN"

fun num_add :: "jsnum \<Rightarrow> jsnum \<Rightarrow> jsnum" where
  "num_add (Fin a) (Fin b) = Fin (a + b)"
| "num_add (Fin _) PosInf = PosInf"
| "num_add (Fin _) NegInf = NegInf"
| "num_add PosInf (Fin _) = PosInf"
| "num_add NegInf (Fin _) = NegInf"
| "num_add PosInf PosInf = PosInf"
| "num_add NegInf NegInf = NegInf"
| "num_add _ _ = NaN"

fun num_sub :: "jsnum \<Rightarrow> jsnum \<Rightarrow> jsnum" where
  "num_sub (Fin a) (Fin b) = Fin (a - b)"
| "num_sub (Fin _) PosInf = NegInf"
| "num_sub (Fin _) NegInf = PosInf"
| "num_sub PosInf (Fin _) = PosInf"
| "num_sub NegInf (Fin _) = NegInf"
| "num_sub PosInf NegInf = PosInf"
| "num_sub NegInf PosInf = NegInf"
| "num_sub _ _ = NaN"

text \<open>An infinity of the sign of a rational: \<open>a * Infinity\<close> and \<open>a / 0\<close>, NaN for zero.\<close>

definition signed_inf :: "rat \<Rightarrow> jsnum" where
  "signed_inf a = (if 0 < a then PosInf else if a < 0 then NegInf else NaN)"

fun num_mul :: "jsnum \<Rightarrow> jsnum \<Rightarrow> jsnum" where
  "num_mul (Fin a) (Fin b) = Fin (a * b)"
| "num_mul (Fin a) PosInf = signed_inf a"
| "num_mul (Fin a) NegInf = signed_inf (- a)"
| "num_mul PosInf (Fin b) = signed_inf b"
| "num_mul NegInf (Fin b) = signed_inf (- b)"
| "num_mul PosInf PosInf = PosInf"
| "num_mul NegInf NegInf = PosInf"
| "num_mul PosInf NegInf = NegInf"
| "num_mul NegInf PosInf = NegInf"
| "num_mul _ _ = NaN"

fun num_div :: "jsnum \<Rightarrow> jsnum \<Rightarrow> jsnum" where
  "num_div (Fin a) (Fin b) = (if b = 0 then signed_inf a else Fin (a / b))"
| "num_div (Fin _) PosInf = Fin 0"
| "num_div (Fin _) NegInf = Fin 0"
| "num_div PosInf (Fin b) = (if b < 0 then NegInf else PosInf)"
| "num_div NegInf (Fin b) = (if b < 0 then PosInf else NegInf)"
| "num_div _ _ = NaN"

definition num_le :: "jsnum \<Rightarrow> jsnum \<Rightarrow> bool" where
  "num_le a b \<longleftrightarrow> a \<noteq> NaN \<and> b \<noteq> NaN \<and> \<not> num_less b a"

text \<open>\<open>Math.min\<close> and \<open>Math.max\<close> of two numbers.\<close>

definition math_min :: "jsnum \<Rightarrow> jsnum \<Rightarrow> jsnum" where
  "math_min a b = (if a = NaN \<or> b = NaN then NaN else if num_less b a then b else a)"

definition math_max :: "jsnum \<Rightarrow> jsnum \<Rightarrow> jsnum" where
  "math_max a b = (if a = NaN \<or> b = NaN then NaN else if num_less a b then b else a)"

lemma num_less_irrefl [simp]: "\<not> num_less a a"
  by (cases a) auto

lemma num_less_trans: "num_less a b \<Longrightarrow> num_less b c \<Longrightarrow> num_less a c"
  by (cases a; cases b; cases c) auto

lemma num_less_asym: "num_less a b \<Longrightarrow> \<not> num_less b a"
  using num_less_trans num_less_irrefl by blast

lemma num_less_linear: "a \<noteq> NaN \<Longrightarrow> b \<noteq> NaN \<Longrightarrow> num_less a b \<or> a = b \<or> num_less b a"
  by (cases a; cases b) auto

lemma num_neg_less [simp]:
  "num_less (num_neg a) (Fin 0) \<longleftrightarrow> num_less (Fin 0) a"
  "num_less (Fin 0) (num_neg a) \<longleftrightarrow> num_less a (Fin 0)"
  by (cases a; simp)+

text \<open>
  The numbers as a linear order, NaN last. On the other numbers it is the comparison of the
  language.
\<close>

instantiation jsnum :: linorder
begin

definition less_jsnum :: "jsnum \<Rightarrow> jsnum \<Rightarrow> bool" where
  "a < b \<longleftrightarrow> a \<noteq> NaN \<and> (b = NaN \<or> num_less a b)"

definition less_eq_jsnum :: "jsnum \<Rightarrow> jsnum \<Rightarrow> bool" where
  "a \<le> b \<longleftrightarrow> a = b \<or> a < (b :: jsnum)"

instance
proof
  fix a b c :: jsnum
  show "a < b \<longleftrightarrow> a \<le> b \<and> \<not> b \<le> a"
    by (auto simp: less_jsnum_def less_eq_jsnum_def dest: num_less_asym)
  show "a \<le> a" by (simp add: less_eq_jsnum_def)
  show "a \<le> b \<Longrightarrow> b \<le> c \<Longrightarrow> a \<le> c"
    by (auto simp: less_jsnum_def less_eq_jsnum_def dest: num_less_trans)
  show "a \<le> b \<Longrightarrow> b \<le> a \<Longrightarrow> a = b"
    by (auto simp: less_jsnum_def less_eq_jsnum_def dest: num_less_asym)
  show "a \<le> b \<or> b \<le> a"
    using num_less_linear [of a b] by (auto simp: less_jsnum_def less_eq_jsnum_def)
qed

end

lemma less_NaN [simp]: "\<not> NaN < a" "a < NaN \<longleftrightarrow> a \<noteq> NaN" "NaN \<le> a \<longleftrightarrow> a = NaN"
  by (auto simp: less_jsnum_def less_eq_jsnum_def)

lemma num_less_iff: "num_less a b \<longleftrightarrow> a < b \<and> b \<noteq> NaN"
  by (cases a; cases b) (auto simp: less_jsnum_def)

section \<open>Strings in order\<close>

fun str_less :: "string \<Rightarrow> string \<Rightarrow> bool" where
  "str_less _ [] = False"
| "str_less [] (_ # _) = True"
| "str_less (a # s) (b # t) \<longleftrightarrow>
     (of_char a :: nat) < of_char b \<or> (a = b \<and> str_less s t)"

lemma str_less_iff: "str_less s t \<longleftrightarrow> s < t"
  by (induction s t rule: str_less.induct) (auto simp: less_char_def)

section \<open>Operators on values\<close>

text \<open>An array or an object becomes a string first.\<close>

fun js_prim :: "jsval \<Rightarrow> jsval" where
  "js_prim (JArr xs) = JStr (to_str (JArr xs))"
| "js_prim (JObj ps) = JStr (to_str (JObj ps))"
| "js_prim v = v"

definition js_add :: "jsval \<Rightarrow> jsval \<Rightarrow> jsval" where
  "js_add a b =
     (let p = js_prim a; q = js_prim b
      in if is_str p \<or> is_str q then JStr (to_str p @ to_str q)
         else JNum (num_add (to_number p) (to_number q)))"

definition js_div :: "jsval \<Rightarrow> jsval \<Rightarrow> jsval" where
  "js_div a b = JNum (num_div (to_number a) (to_number b))"

definition js_less :: "jsval \<Rightarrow> jsval \<Rightarrow> bool" where
  "js_less a b =
     (case (js_prim a, js_prim b) of
        (JStr s, JStr t) \<Rightarrow> str_less s t
      | (p, q) \<Rightarrow> num_less (to_number p) (to_number q))"

fun is_number :: "jsval \<Rightarrow> bool" where
  "is_number (JNum _) = True"
| "is_number _ = False"

lemma js_add_num [simp]: "js_add (JNum a) (JNum b) = JNum (num_add a b)"
  by (simp add: js_add_def)

section \<open>Sorting\<close>

text \<open>The comparator may throw; a result that is not positive keeps the order.\<close>

fun sort_insert :: "('a \<Rightarrow> 'a \<Rightarrow> jsnum res) \<Rightarrow> 'a \<Rightarrow> 'a list \<Rightarrow> 'a list res" where
  "sort_insert cmp x [] = Inr [x]"
| "sort_insert cmp x (y # ys) =
     rbind (cmp x y) (\<lambda>c. if num_less (Fin 0) c
       then rbind (sort_insert cmp x ys) (\<lambda>zs. Inr (y # zs)) else Inr (x # y # ys))"

fun js_sort :: "('a \<Rightarrow> 'a \<Rightarrow> jsnum res) \<Rightarrow> 'a list \<Rightarrow> 'a list res" where
  "js_sort cmp [] = Inr []"
| "js_sort cmp (x # xs) = rbind (js_sort cmp xs) (sort_insert cmp x)"

definition in_order :: "('a \<Rightarrow> 'a \<Rightarrow> jsnum) \<Rightarrow> 'a \<Rightarrow> 'a \<Rightarrow> bool" where
  "in_order cmp x y \<longleftrightarrow> \<not> num_less (Fin 0) (cmp x y)"

text \<open>
  A comparator that is consistent on a set of elements: it never throws there, comparing both ways
  round gives opposite signs, and the elements that do not come later are transitive.
\<close>

locale sort_order =
  fixes cmp :: "'a \<Rightarrow> 'a \<Rightarrow> jsnum"
    and A :: "'a set"
  assumes cmp_num: "x \<in> A \<Longrightarrow> y \<in> A \<Longrightarrow> cmp x y \<noteq> NaN"
    and cmp_swap: "x \<in> A \<Longrightarrow> y \<in> A \<Longrightarrow> num_less (Fin 0) (cmp x y) \<longleftrightarrow> num_less (cmp y x) (Fin 0)"
    and cmp_trans: "x \<in> A \<Longrightarrow> y \<in> A \<Longrightarrow> z \<in> A \<Longrightarrow>
      in_order cmp x y \<Longrightarrow> in_order cmp y z \<Longrightarrow> in_order cmp x z"
begin

lemma cmp_less_iff:
  "x \<in> A \<Longrightarrow> y \<in> A \<Longrightarrow> num_less (cmp x y) (Fin 0) \<longleftrightarrow> \<not> in_order cmp y x"
  by (simp add: in_order_def cmp_swap)

lemma cmp_zero_iff:
  "x \<in> A \<Longrightarrow> y \<in> A \<Longrightarrow> cmp x y = Fin 0 \<longleftrightarrow> in_order cmp x y \<and> in_order cmp y x"
  using num_less_linear [of "cmp x y" "Fin 0"] cmp_num [of x y] cmp_swap [of y x]
  by (auto simp: in_order_def)

lemma in_order_linear: "x \<in> A \<Longrightarrow> y \<in> A \<Longrightarrow> \<not> in_order cmp x y \<Longrightarrow> in_order cmp y x"
  by (metis in_order_def cmp_swap num_less_asym)

lemma sort_insert_sorted:
  assumes "x \<in> A" and "set ys \<subseteq> A" and "sorted_wrt (in_order cmp) ys"
    and ok: "\<And>y. y \<in> set ys \<Longrightarrow> rcmp x y = Inr (cmp x y)"
  shows "\<exists>zs. sort_insert rcmp x ys = Inr zs \<and> mset zs = add_mset x (mset ys) \<and> sorted_wrt (in_order cmp) zs"
  using assms
proof (induction ys)
  case (Cons y ys)
  then obtain zs where zs: "sort_insert rcmp x ys = Inr zs" "mset zs = add_mset x (mset ys)"
    "sorted_wrt (in_order cmp) zs" by auto
  have set: "set zs = insert x (set ys)" using arg_cong [OF zs(2), of set_mset] by simp
  show ?case
  proof (cases "in_order cmp x y")
    case True
    then have "in_order cmp x z" if "z \<in> set ys" for z
      using Cons.prems that cmp_trans [of x y z] by (auto simp: in_order_def)
    with True Cons.prems show ?thesis by (auto simp: in_order_def)
  next
    case False
    then have "sort_insert rcmp x (y # ys) = Inr (y # zs)"
      using Cons.prems(4) zs(1) by (simp add: in_order_def)
    moreover have "in_order cmp y x" using False Cons.prems in_order_linear [of x y] by simp
    ultimately show ?thesis using Cons.prems zs set by auto
  qed
qed simp

lemma js_sort_sorted:
  assumes "set xs \<subseteq> A" and "\<And>x y. x \<in> set xs \<Longrightarrow> y \<in> set xs \<Longrightarrow> rcmp x y = Inr (cmp x y)"
  shows "\<exists>zs. js_sort rcmp xs = Inr zs \<and> mset zs = mset xs \<and> sorted_wrt (in_order cmp) zs"
  using assms
proof (induction xs)
  case (Cons x xs)
  then obtain ys where ys: "js_sort rcmp xs = Inr ys" "mset ys = mset xs" "sorted_wrt (in_order cmp) ys"
    by auto
  have "set ys = set xs" using ys(2) by (metis set_mset_mset)
  with sort_insert_sorted [of x ys rcmp] Cons.prems ys show ?case by auto
qed simp

end

text \<open>The usual way to such a comparator: it compares a key in a linear order.\<close>

locale keyed_order =
  fixes cmp :: "'a \<Rightarrow> 'a \<Rightarrow> jsnum"
    and A :: "'a set"
    and key :: "'a \<Rightarrow> 'k :: linorder"
  assumes key_num: "x \<in> A \<Longrightarrow> y \<in> A \<Longrightarrow> cmp x y \<noteq> NaN"
    and key_neg: "x \<in> A \<Longrightarrow> y \<in> A \<Longrightarrow> num_less (cmp x y) (Fin 0) \<longleftrightarrow> key x < key y"
    and key_pos: "x \<in> A \<Longrightarrow> y \<in> A \<Longrightarrow> num_less (Fin 0) (cmp x y) \<longleftrightarrow> key y < key x"

sublocale keyed_order \<subseteq> sort_order
  by unfold_locales (auto simp: key_num key_neg key_pos in_order_def)

context keyed_order
begin

lemma sort_order_cmp: "sort_order cmp A"
  by (rule sort_order_axioms)

end

lemma sort_order_reverse:
  assumes "sort_order cmp A"
  shows "sort_order (\<lambda>x y. cmp y x) A"
  unfolding sort_order_def in_order_def
  using sort_order.cmp_num [OF assms] sort_order.cmp_swap [OF assms]
    sort_order.cmp_trans [OF assms, unfolded in_order_def] by blast

end
