(* ===== verification/SqlLab.thy ===== *)
theory SqlLab
  imports DashboardReducers JsJson JsArith
begin

text \<open>
  The store of SQL Lab: the reducer of \<open>SqlLab/reducers/sqlLab.js\<close> with one definition per
  handler, the action creators of \<open>SqlLab/actions/sqlLab.js\<close> that compute an action from the
  state, and \<open>newQueryTabName.ts\<close>. The state is a plain object, an action a datatype with
  one constructor per action type. The clock, \<open>nanoid\<close>, the translation, \<open>Date.parse\<close>, lodash
  and the \<open>shallowEqual\<close> of react-redux are the fields of one argument, \<open>env\<close>.
\<close>

section \<open>Primitives\<close>

record sql_env =
  sq_now :: jsnum
  sq_nanoid :: "nat \<Rightarrow> string"
  sq_t :: "string \<Rightarrow> jsval list \<Rightarrow> string"
  sq_date_parse :: "string \<Rightarrow> jsnum"
  sq_lodash :: lodash
  sq_shallowEqual :: "jsval \<Rightarrow> jsval \<Rightarrow> bool"

fun num_gt :: "jsnum \<Rightarrow> jsnum \<Rightarrow> bool" where
  "num_gt (Fin a) (Fin b) = (b < a)"
| "num_gt (Fin _) NegInf = True"
| "num_gt PosInf (Fin _) = True"
| "num_gt PosInf NegInf = True"
| "num_gt _ _ = False"

abbreviation fld :: "jsval obj \<Rightarrow> string \<Rightarrow> jsval" where
  "fld state k \<equiv> oprop (JObj state) k"

text \<open>\<open>...(b && v)\<close> and \<open>{...a, ...b}\<close>\<close>

definition spread_if :: "bool \<Rightarrow> jsval \<Rightarrow> jsval obj" where
  "spread_if b v = (if b then own_props v else [])"

definition merged :: "jsval obj \<Rightarrow> jsval obj \<Rightarrow> jsval obj" where
  "merged a b = obj_assign (obj_assign [] a) b"

text \<open>\<open>arr.find(x => x[key] === v)\<close>\<close>

fun find_by :: "string \<Rightarrow> jsval \<Rightarrow> jsval list \<Rightarrow> jsval res" where
  "find_by key v [] = Inr JUndef"
| "find_by key v (x # xs) = rbind (getprop x key) (\<lambda>j. if strict_eq j v then Inr x else find_by key v xs)"

fun rfind_index :: "('a \<Rightarrow> bool res) \<Rightarrow> 'a list \<Rightarrow> nat option res" where
  "rfind_index P [] = Inr None"
| "rfind_index P (x # xs) =
     rbind (P x) (\<lambda>b. if b then Inr (Some 0) else rbind (rfind_index P xs) (\<lambda>i. Inr (map_option Suc i)))"

definition rfilter :: "('a \<Rightarrow> bool res) \<Rightarrow> 'a list \<Rightarrow> 'a list res" where
  "rfilter P xs = rbind (rmap P xs) (\<lambda>bs. Inr (map fst (filter snd (zip xs bs))))"

text \<open>\<open>alterInArr\<close> for an object that may be \<open>undefined\<close>.\<close>

definition alter_item :: "jsval obj \<Rightarrow> string \<Rightarrow> jsval \<Rightarrow> jsval obj \<Rightarrow> string \<Rightarrow> jsval obj res" where
  "alter_item state arrKey v alterations idKey =
     (if nullish v then
        rbind (elems (fld state arrKey)) (\<lambda>xs.
          if xs = [] then Inr (with_prop state arrKey (JArr [])) else Inl TypeError)
      else alterInArr state arrKey (own_props v) alterations idKey)"

section \<open>Tabs and query editors\<close>

definition last_tab :: "jsval obj \<Rightarrow> jsval res" where
  "last_tab state =
     rbind (elems (fld state ''tabHistory'')) (\<lambda>h. Inr (if h = [] then JUndef else last h))"

definition alterUnsavedQueryEditorState ::
  "sql_env \<Rightarrow> jsval obj \<Rightarrow> jsval obj \<Rightarrow> jsval \<Rightarrow> bool \<Rightarrow> jsval obj res" where
  "alterUnsavedQueryEditorState env state updatedState i silent =
     rbind (last_tab state) (\<lambda>active.
       if \<not> strict_eq active i then
         rbind (alterInArr state ''queryEditors'' [(''id'', i)] updatedState ''id'') (\<lambda>s.
           Inr [(''queryEditors'', fld s ''queryEditors'')])
       else
         rbind (getprop (fld state ''unsavedQueryEditor'') ''id'') (\<lambda>unsavedId.
           let kept = obj_assign [] (spread_if (strict_eq unsavedId i) (fld state ''unsavedQueryEditor''));
               edited = obj_assign kept
                 (if truthy i then obj_assign [(''id'', i)] updatedState
                  else own_props (fld state ''unsavedQueryEditor''))
           in Inr [(''unsavedQueryEditor'',
                    JObj (obj_assign edited (if silent then [] else [(''updatedAt'', JNum (sq_now env))])))]))"

text \<open>\<open>{...state, ...alterUnsavedQueryEditorState(state, updatedState, queryEditor.id, silent)}\<close>\<close>

definition edit_query_editor ::
  "sql_env \<Rightarrow> jsval obj \<Rightarrow> jsval obj \<Rightarrow> jsval \<Rightarrow> bool \<Rightarrow> jsval obj res" where
  "edit_query_editor env state updatedState queryEditor silent =
     rbind (getprop queryEditor ''id'') (\<lambda>i.
     rbind (alterUnsavedQueryEditorState env state updatedState i silent) (\<lambda>ps. Inr (merged state ps)))"

text \<open>The unsaved edits are written to the editor they belong to.\<close>

definition merge_unsaved :: "jsval obj \<Rightarrow> jsval obj res" where
  "merge_unsaved state =
     alter_item state ''queryEditors'' (fld state ''unsavedQueryEditor'')
       (obj_assign [] (own_props (fld state ''unsavedQueryEditor''))) ''id''"

definition add_query_editor :: "sql_env \<Rightarrow> jsval obj \<Rightarrow> jsval \<Rightarrow> jsval obj res" where
  "add_query_editor env state queryEditor =
     rbind (merge_unsaved state) (\<lambda>mergeUnsavedState.
     rbind (iterate (fld state ''tabHistory'')) (\<lambda>h.
     rbind (getprop queryEditor ''id'') (\<lambda>i.
       addToArr (sq_nanoid env 0) (with_prop mergeUnsavedState ''tabHistory'' (JArr (h @ [i]))) ''queryEditors''
         (obj_put ''updatedAt'' (JNum (sq_now env)) (obj_assign [] (own_props queryEditor))) False)))"

definition query_editor_saved :: "jsval obj \<Rightarrow> jsval \<Rightarrow> jsval \<Rightarrow> jsval \<Rightarrow> jsval obj res" where
  "query_editor_saved state query result clientId =
     rbind (elems (fld state ''queryEditors'')) (\<lambda>editors.
     rbind (find_by ''id'' clientId editors) (\<lambda>existing.
     rbind (getprop result ''remoteId'') (\<lambda>remoteId.
     rbind (getprop query ''name'') (\<lambda>name.
       alter_item state ''queryEditors'' existing [(''remoteId'', remoteId), (''name'', name)] ''id''))))"

definition update_query_editor :: "jsval obj \<Rightarrow> jsval \<Rightarrow> jsval obj res" where
  "update_query_editor state alterations =
     rbind (getprop alterations ''remoteId'') (\<lambda>i.
     rbind (elems (fld state ''queryEditors'')) (\<lambda>editors.
     rbind (find_by ''remoteId'' i editors) (\<lambda>existing.
       if nullish existing then Inr state
       else alter_item state ''queryEditors'' existing (own_props alterations) ''remoteId'')))"

text \<open>The action creator \<open>addQueryEditor\<close>.\<close>

definition addQueryEditor :: "sql_env \<Rightarrow> jsval obj \<Rightarrow> jsval" where
  "addQueryEditor env queryEditor =
     JObj (merged queryEditor
       [(''id'', JStr (sq_nanoid env 1)), (''immutableId'', JStr (sq_nanoid env 2)), (''loaded'', JBool True),
        (''inLocalStorage'', JBool True)])"

definition or_null :: "jsval \<Rightarrow> jsval" where
  "or_null v = (if truthy v then v else JNull)"

definition clone_query_to_new_tab :: "sql_env \<Rightarrow> jsval obj \<Rightarrow> jsval \<Rightarrow> jsval obj res" where
  "clone_query_to_new_tab env state query =
     rbind (elems (fld state ''queryEditors'')) (\<lambda>editors.
     rbind (last_tab state) (\<lambda>active.
     rbind (find_by ''id'' active editors) (\<lambda>queryEditor.
     rbind (getprop (fld state ''unsavedQueryEditor'') ''id'') (\<lambda>unsavedId.
     rbind (getprop queryEditor ''id'') (\<lambda>i.
     rbind (getprop query ''dbId'') (\<lambda>dbId.
       let progenitor = merged (own_props queryEditor)
             (spread_if (strict_eq unsavedId i) (fld state ''unsavedQueryEditor''));
           qe = [(''remoteId'', fld progenitor ''remoteId''),
                 (''name'', JStr (sq_t env ''Copy of %s'' [fld progenitor ''name''])),
                 (''dbId'', or_null dbId), (''catalog'', or_null (oprop query ''catalog'')),
                 (''schema'', or_null (oprop query ''schema'')), (''autorun'', JBool True),
                 (''sql'', oprop query ''sql''), (''queryLimit'', oprop query ''queryLimit''),
                 (''maxRow'', oprop query ''maxRow'')]
       in add_query_editor env (with_prop state ''unsavedQueryEditor'' (JObj [])) (addQueryEditor env qe)))))))"

text \<open>\<open>qe.tabViewId ?? qe.id\<close>\<close>

definition editor_key :: "jsval \<Rightarrow> jsval res" where
  "editor_key qe = rbind (getprop qe ''tabViewId'') (\<lambda>v. Inr (js_coalesce v (oprop qe ''id'')))"

definition member_id :: "jsval list \<Rightarrow> jsval \<Rightarrow> bool" where
  "member_id ids i = list_ex (\<lambda>j. strict_eq j i) ids"

definition last_editor_ids :: "jsval list \<Rightarrow> jsval list res" where
  "last_editor_ids editors = rmap (\<lambda>qe. getprop qe ''id'') (drop (length editors - 1) editors)"

definition remove_query_editor :: "sql_env \<Rightarrow> jsval obj \<Rightarrow> jsval \<Rightarrow> jsval obj res" where
  "remove_query_editor env state actionEditor =
     rbind (getprop actionEditor ''id'') (\<lambda>actionId.
     rbind (getprop (fld state ''unsavedQueryEditor'') ''id'') (\<lambda>unsavedId.
       let queryEditor = merged (own_props actionEditor)
             (spread_if (strict_eq actionId unsavedId) (fld state ''unsavedQueryEditor''))
       in
       rbind (removeFromArr state ''queryEditors'' queryEditor ''id'') (\<lambda>newState.
       rbind (elems (fld newState ''queryEditors'')) (\<lambda>editors.
       rbind (rmap editor_key editors) (\<lambda>qeIds.
       rbind (if nullish (fld state ''queries'') then Inl TypeError else Inr (own_props (fld state ''queries''))) (\<lambda>qs.
       rbind (rfilter (\<lambda>(k, query). rbind (getprop query ''sqlEditorId'') (\<lambda>i. Inr (member_id qeIds i))) qs) (\<lambda>queries.
       rbind (elems (fld state ''tabHistory'')) (\<lambda>h.
       rbind (editor_key (JObj queryEditor)) (\<lambda>key.
       rbind (elems (fld state ''tables'')) (\<lambda>ts.
       rbind (rfilter (\<lambda>table. rbind (getprop table ''queryEditorId'') (\<lambda>i. Inr (\<not> strict_eq i key))) ts) (\<lambda>tables.
         let tabHistory = filter (member_id qeIds) h
         in
         rbind (if tabHistory = [] \<and> editors \<noteq> [] then last_editor_ids editors else Inr tabHistory) (\<lambda>nextHistory.
           Inr (merged newState
             [(''tabHistory'', JArr nextHistory), (''tables'', JArr tables),
              (''queries'', JObj (from_entries queries)),
              (''unsavedQueryEditor'',
                 JObj (obj_assign [] (spread_if (\<not> strict_eq actionId unsavedId) (fld state ''unsavedQueryEditor'')))),
              (''destroyedQueryEditors'',
                 JObj (merged (own_props (fld newState ''destroyedQueryEditors''))
                   (if truthy (fld queryEditor ''inLocalStorage'') then []
                    else [(to_str key, JNum (sq_now env))])))])))))))))))))"

definition set_active_query_editor :: "jsval obj \<Rightarrow> jsval \<Rightarrow> jsval obj res" where
  "set_active_query_editor state queryEditor =
     rbind (elems (fld state ''queryEditors'')) (\<lambda>editors.
     rbind (rmap (\<lambda>qe. getprop qe ''id'') editors) (\<lambda>qeIds.
     rbind (last_tab state) (\<lambda>active.
       let i = oprop queryEditor ''id''
       in if member_id qeIds i \<and> \<not> strict_eq active i then
            rbind (merge_unsaved state) (\<lambda>m.
            rbind (getprop queryEditor ''id'') (\<lambda>_.
            rbind (getprop (fld state ''unsavedQueryEditor'') ''id'') (\<lambda>unsavedId.
              let mergeUnsavedState = with_prop m ''unsavedQueryEditor'' (JObj [])
              in rbind (if strict_eq i unsavedId then
                          alter_item mergeUnsavedState ''queryEditors'' queryEditor
                            (merged (own_props queryEditor) (own_props (fld state ''unsavedQueryEditor''))) ''id''
                        else Inr mergeUnsavedState) (\<lambda>s.
                 rbind (iterate (fld state ''tabHistory'')) (\<lambda>h.
                   Inr (with_prop s ''tabHistory'' (JArr (h @ [i]))))))))
          else Inr state)))"

definition load_query_editor :: "jsval obj \<Rightarrow> jsval \<Rightarrow> jsval obj res" where
  "load_query_editor state queryEditor =
     rbind (merge_unsaved state) (\<lambda>mergeUnsavedState.
       alter_item mergeUnsavedState ''queryEditors'' queryEditor (obj_assign [] (own_props queryEditor)) ''id'')"

definition query_editor_set_sql :: "sql_env \<Rightarrow> jsval obj \<Rightarrow> jsval \<Rightarrow> jsval \<Rightarrow> jsval \<Rightarrow> jsval obj res" where
  "query_editor_set_sql env state queryEditor sql queryId =
     rbind (getprop queryEditor ''id'') (\<lambda>i.
       let unsaved = fld state ''unsavedQueryEditor''
       in if strict_eq (oprop unsaved ''id'') i \<and> \<not> nullish unsaved \<and> strict_eq (oprop unsaved ''sql'') sql
          then Inr state
          else edit_query_editor env state
                 (obj_assign [(''sql'', sql)] (if truthy queryId then [(''latestQueryId'', queryId)] else []))
                 queryEditor False)"

section \<open>Tables\<close>

definition same_table :: "jsval obj \<Rightarrow> jsval \<Rightarrow> bool res" where
  "same_table atab xt =
     rbind (getprop xt ''dbId'') (\<lambda>_.
       Inr (list_all (\<lambda>k. strict_eq (oprop xt k) (fld atab k))
              [''dbId'', ''queryEditorId'', ''catalog'', ''schema'', ''name'']))"

definition merge_table :: "sql_env \<Rightarrow> jsval obj \<Rightarrow> jsval \<Rightarrow> jsval \<Rightarrow> jsval \<Rightarrow> jsval obj res" where
  "merge_table env state table query prepend =
     (let atab = obj_assign [] (own_props table);
          opened = (if truthy (fld atab ''expanded'') then [(''activeSouthPaneTab'', fld atab ''id'')] else [])
      in
      rbind (elems (fld state ''tables'')) (\<lambda>tables.
      rbind (rfind_index (same_table atab) tables) (\<lambda>existing.
        case existing of
          Some k \<Rightarrow>
            (let at1 = (if truthy query then obj_put ''dataPreviewQueryId'' (oprop query ''id'') atab else atab);
                 old = tables ! k
             in Inr (merged (with_prop state ''tables''
                  (JArr (take k tables @
                         [JObj (obj_assign (merged (own_props old) at1)
                            (if truthy (oprop old ''initialized'') then [(''id'', oprop old ''id'')] else []))] @
                         drop (Suc k) tables))) opened))
        | None \<Rightarrow>
            (let at1 = obj_put ''dataPreviewQueryId'' JNull atab
             in rbind (addToArr (sq_nanoid env 0) state ''tables'' at1 (truthy prepend)) (\<lambda>added.
                  let newState = merged added opened
                  in if truthy query
                     then alterInArr newState ''tables'' at1 [(''dataPreviewQueryId'', oprop query ''id'')] ''id''
                     else Inr newState)))))"

definition remove_data_preview :: "jsval obj \<Rightarrow> jsval \<Rightarrow> jsval obj res" where
  "remove_data_preview state table =
     rbind (getprop table ''dataPreviewQueryId'') (\<lambda>i.
       let queries = AList.delete (to_str i) (obj_assign [] (own_props (fld state ''queries'')))
       in rbind (alter_item state ''tables'' table [(''dataPreviewQueryId'', JNull)] ''id'') (\<lambda>newState.
            Inr (with_prop newState ''queries'' (JObj queries))))"

definition change_data_preview_id :: "jsval obj \<Rightarrow> jsval \<Rightarrow> jsval \<Rightarrow> jsval obj res" where
  "change_data_preview_id state oldQueryId newQuery =
     (let queries = AList.delete (to_str oldQueryId) (obj_assign [] (own_props (fld state ''queries'')))
      in
      rbind (elems (fld state ''tables'')) (\<lambda>tables.
      rbind (rmap (\<lambda>xt. rbind (getprop xt ''dataPreviewQueryId'') (\<lambda>i.
          if strict_eq i oldQueryId
          then rbind (getprop newQuery ''id'') (\<lambda>j. Inr (JObj (merged (own_props xt) [(''dataPreviewQueryId'', j)])))
          else Inr xt)) tables) (\<lambda>newTables.
        Inr (merged state [(''queries'', JObj queries), (''tables'', JArr newTables)]))))"

definition remove_tables :: "jsval obj \<Rightarrow> jsval list \<Rightarrow> jsval obj res" where
  "remove_tables state removed =
     rbind (rmap (\<lambda>table. getprop table ''id'') removed) (\<lambda>tableIds.
     rbind (elems (fld state ''tables'')) (\<lambda>ts.
     rbind (rfilter (\<lambda>table. rbind (getprop table ''id'') (\<lambda>i.
         Inr (\<not> list_ex (\<lambda>j. same_value_zero j i) tableIds))) ts) (\<lambda>tables.
       if list_ex (\<lambda>j. same_value_zero j (fld state ''activeSouthPaneTab'')) tableIds then
         rbind (find_by ''queryEditorId'' (oprop (hd removed) ''queryEditorId'') tables) (\<lambda>next.
           Inr (merged state [(''tables'', JArr tables),
             (''activeSouthPaneTab'', js_coalesce (oprop next ''id'') (JStr ''Results''))]))
       else Inr (merged state [(''tables'', JArr tables)]))))"

section \<open>Queries\<close>

definition cost_estimate :: "jsval obj \<Rightarrow> jsval \<Rightarrow> bool \<Rightarrow> jsval \<Rightarrow> jsval \<Rightarrow> jsval obj res" where
  "cost_estimate state query completed cost err =
     rbind (getprop query ''id'') (\<lambda>i.
       Inr (with_prop state ''queryCostEstimates''
         (JObj (obj_put (to_str i) (JObj [(''completed'', JBool completed), (''cost'', cost), (''error'', err)])
            (obj_assign [] (own_props (fld state ''queryCostEstimates'')))))))"

text \<open>The results of the previous query of the editor are dropped when a new one starts.\<close>

definition drop_latest_results :: "jsval obj \<Rightarrow> jsval \<Rightarrow> jsval obj res" where
  "drop_latest_results state sqlEditorId =
     rbind (elems (fld state ''queryEditors'')) (\<lambda>editors.
     rbind (getFromArr editors sqlEditorId ''id'') (\<lambda>editor.
     rbind (getprop (fld state ''unsavedQueryEditor'') ''id'') (\<lambda>unsavedId.
       let qe = merged (own_props editor) (spread_if (strict_eq sqlEditorId unsavedId) (fld state ''unsavedQueryEditor''));
           latest = fld qe ''latestQueryId''
       in if \<not> truthy latest then Inr state
          else rbind (getprop (fld state ''queries'') (to_str latest)) (\<lambda>previous.
            if \<not> truthy previous then Inr state
            else
              let newResults = merged (own_props (oprop previous ''results'')) [(''data'', JArr []), (''query'', JNull)];
                  q = merged (own_props previous) [(''results'', JObj newResults)]
              in Inr (with_prop state ''queries''
                   (JObj (obj_put (to_str (fld q ''id'')) (JObj q) (obj_assign [] (own_props (fld state ''queries''))))))))))"

definition start_query :: "sql_env \<Rightarrow> jsval obj \<Rightarrow> jsval \<Rightarrow> jsval obj res" where
  "start_query env state query =
     rbind (getprop query ''sqlEditorId'') (\<lambda>queryEditorId.
     rbind (if truthy queryEditorId then
              rbind (elems (fld state ''queryEditors'')) (\<lambda>editors.
              rbind (getFromArr editors queryEditorId ''tabViewId'') (\<lambda>byTab.
                let sqlEditorId = js_coalesce (oprop byTab ''id'') queryEditorId
                in rbind (drop_latest_results state sqlEditorId) (\<lambda>s. Inr (sqlEditorId, s))))
            else Inr (JUndef, obj_assign [] state)) (\<lambda>(sqlEditorId, dropped).
       let newState = addToObject (sq_nanoid env 0) dropped ''queries'' (own_props query)
       in rbind (alterUnsavedQueryEditorState env state [(''latestQueryId'', oprop query ''id'')] sqlEditorId
                   (truthy (oprop query ''isDataPreview''))) (\<lambda>ps.
            Inr (merged newState ps))))"

definition stop_query :: "jsval obj \<Rightarrow> jsval obj \<Rightarrow> jsval obj" where
  "stop_query state query =
     alterInObject state ''queries'' query [(''state'', JStr ''stopped''), (''results'', JArr [])]"

definition clear_query_results :: "jsval obj \<Rightarrow> jsval obj \<Rightarrow> jsval obj" where
  "clear_query_results state query =
     alterInObject state ''queries'' query
       [(''results'', JObj (obj_put ''data'' (JArr []) (obj_assign [] (own_props (fld query ''results''))))),
        (''cached'', JBool True)]"

definition request_query_results :: "jsval obj \<Rightarrow> jsval obj \<Rightarrow> jsval obj" where
  "request_query_results state query = alterInObject state ''queries'' query [(''state'', JStr ''fetching'')]"

text \<open>\<open>QueryState.STOPPED\<close> is not a member of the enumeration, so it reads as \<open>undefined\<close>.\<close>

definition query_success :: "sql_env \<Rightarrow> jsval obj \<Rightarrow> jsval obj \<Rightarrow> jsval \<Rightarrow> jsval obj res" where
  "query_success env state query results =
     (if strict_eq (fld query ''state'') JUndef then Inr state
      else rbind (getprop results ''status'') (\<lambda>status.
        if status \<noteq> JStr ''success'' then Inr state
        else
          let answer = oprop results ''query'';
              alts = [(''endDttm'', JNum (sq_now env)), (''progress'', JInt 100), (''results'', results),
                      (''rows'', js_or (oprop answer ''rows'') (JInt 0)), (''state'', JStr ''success''),
                      (''executedSql'', oprop answer ''executedSql''),
                      (''limitingFactor'', oprop answer ''limitingFactor''),
                      (''tempSchema'', oprop answer ''tempSchema''), (''tempTable'', oprop answer ''tempTable''),
                      (''errorMessage'', JNull), (''cached'', JBool False)];
              resultsKey = oprop answer ''resultsKey''
          in Inr (alterInObject state ''queries'' query
                    (if truthy resultsKey then obj_put ''resultsKey'' resultsKey alts else alts))))"

definition query_failed ::
  "sql_env \<Rightarrow> jsval obj \<Rightarrow> jsval obj \<Rightarrow> jsval \<Rightarrow> jsval \<Rightarrow> jsval \<Rightarrow> jsval obj" where
  "query_failed env state query msg link errors =
     (if fld query ''state'' = JStr ''stopped'' then state
      else alterInObject state ''queries'' query
             [(''state'', JStr ''failed''), (''errors'', errors), (''errorMessage'', msg),
              (''endDttm'', JNum (sq_now env)), (''link'', link)])"

text \<open>
  \<open>normalizeTimestamp\<close>: the first match of the date and the time in the text, joined as an ISO
  time in UTC. In a pattern the letter d stands for a digit.
\<close>

fun match_pat :: "string \<Rightarrow> string \<Rightarrow> string option" where
  "match_pat [] s = Some s"
| "match_pat (p # ps) [] = None"
| "match_pat (p # ps) (c # cs) =
     (if (if p = CHR ''d'' then is_digit c else c = p) then match_pat ps cs else None)"

definition timestamp_at :: "string \<Rightarrow> string option" where
  "timestamp_at s =
     (case match_pat ''dddd-dd-dd'' s of
        Some (c # r) \<Rightarrow>
          (if is_ws c \<or> c = CHR ''T'' then
             (case match_pat ''dd:dd:dd'' r of
                None \<Rightarrow> None
              | Some r1 \<Rightarrow>
                  (let (dot, r2) = (case r1 of CHR ''.'' # r2 \<Rightarrow> (''.'', r2) | _ \<Rightarrow> ([], r1))
                   in Some (take 10 s @ ''T'' @ take 8 r @ dot @ takeWhile is_digit r2 @ ''Z'')))
           else None)
      | _ \<Rightarrow> None)"

fun first_timestamp :: "string \<Rightarrow> string option" where
  "first_timestamp [] = None"
| "first_timestamp (c # s) =
     (case timestamp_at (c # s) of Some r \<Rightarrow> Some r | None \<Rightarrow> first_timestamp s)"

definition normalizeTimestamp :: "string \<Rightarrow> string" where
  "normalizeTimestamp s = (case first_timestamp s of Some r \<Rightarrow> r | None \<Rightarrow> s)"

definition refreshed_state :: "jsval \<Rightarrow> jsval \<Rightarrow> jsval" where
  "refreshed_state prevState currentState =
     (if currentState = JStr ''success'' \<and> prevState \<in> set [JStr ''fetching'', JStr ''success'', JStr ''running'']
      then prevState else currentState)"

definition refreshed_query :: "jsval \<Rightarrow> jsval \<Rightarrow> jsval obj" where
  "refreshed_query old changedQuery =
     (let number = (\<lambda>k. if truthy (oprop changedQuery k)
                        then [(k, JNum (to_number (oprop changedQuery k)))] else [])
      in merged (obj_assign (obj_assign (merged (own_props old) (own_props changedQuery)) (number ''startDttm''))
                   (number ''endDttm''))
           [(''state'', refreshed_state (oprop old ''state'') (oprop changedQuery ''state''))])"

definition settled :: "jsval \<Rightarrow> bool" where
  "settled query \<longleftrightarrow> oprop query ''state'' \<in> {JStr ''stopped'', JStr ''failed''}"

definition refresh_query ::
  "sql_env \<Rightarrow> jsval \<Rightarrow> string \<times> jsval \<Rightarrow> jsval obj \<times> bool \<times> jsval \<Rightarrow> (jsval obj \<times> bool \<times> jsval) res" where
  "refresh_query env queries entry acc =
     (let (i, changedQuery) = entry; (newQueries, change, lastUpdate) = acc; old = oprop queries i
      in if has_own queries i \<and> nullish old then Inl TypeError
         else if has_own queries i \<and> settled old then Inr acc
         else
           rbind (getprop changedQuery ''changed_on'') (\<lambda>changedOn.
           rbind (case changedOn of JStr s \<Rightarrow> Inr (sq_date_parse env (normalizeTimestamp s)) | _ \<Rightarrow> Inl TypeError) (\<lambda>timestamp.
             let lastUpdate1 = (if num_gt timestamp (to_number lastUpdate) then JNum timestamp else lastUpdate);
                 q = JObj (refreshed_query old changedQuery);
                 lo = sq_lodash env
             in if sq_shallowEqual env (lo_omit lo q [''extra'']) (lo_omit lo old [''extra'']) then
                  rbind (getprop old ''extra'') (\<lambda>extra.
                    if lo_isEqual lo (oprop q ''extra'') extra
                    then Inr (obj_put i old newQueries, change, lastUpdate1)
                    else Inr (obj_put i q newQueries, True, lastUpdate1))
                else Inr (obj_put i q newQueries, True, lastUpdate1))))"

definition refresh_queries :: "sql_env \<Rightarrow> jsval obj \<Rightarrow> jsval obj \<Rightarrow> jsval obj res" where
  "refresh_queries env state alteredQueries =
     (let queries = fld state ''queries''
      in if nullish queries \<and> alteredQueries \<noteq> [] then Inl TypeError
         else
           rbind (rfold (refresh_query env queries) alteredQueries
                    (obj_assign [] (own_props queries), False, fld state ''queriesLastUpdate'')) (\<lambda>(newQueries, change, lastUpdate).
             Inr (merged state [(''queries'', if change then JObj newQueries else queries),
               (''queriesLastUpdate'', lastUpdate)])))"

definition inactive_query :: "sql_env \<Rightarrow> jsval \<Rightarrow> jsval \<Rightarrow> bool res" where
  "inactive_query env interval query =
     rbind (getprop query ''state'') (\<lambda>s.
       Inr (s \<in> set [JStr ''running'', JStr ''pending''] \<and>
            num_gt (num_sub (sq_now env) (to_number (oprop query ''startDttm''))) (to_number interval) \<and>
            strict_eq (oprop query ''progress'') (JInt 0)))"

definition cleaned_query :: "jsval \<Rightarrow> jsval" where
  "cleaned_query query =
     (let status = oprop (oprop query ''results'') ''status''
      in JObj (merged (own_props query)
           [(''state'', if truthy (oprop query ''resultsKey'') \<and> truthy status then status else oprop query ''state'')]))"

definition clear_inactive_queries :: "sql_env \<Rightarrow> jsval obj \<Rightarrow> jsval \<Rightarrow> jsval obj res" where
  "clear_inactive_queries env state interval =
     (if nullish (fld state ''queries'') then Inl TypeError
      else
        rbind (rfilter (\<lambda>(_, query). rbind (inactive_query env interval query) (\<lambda>b. Inr (\<not> b)))
                 (own_props (fld state ''queries''))) (\<lambda>kept.
          Inr (with_prop state ''queries'' (JObj (from_entries (map (\<lambda>(i, query). (i, cleaned_query query)) kept))))))"

section \<open>Databases, migration and the rest\<close>

definition set_databases :: "jsval obj \<Rightarrow> jsval list \<Rightarrow> jsval obj res" where
  "set_databases state dbs =
     rbind (rfold (\<lambda>db databases.
         rbind (getprop db ''extra'') (\<lambda>extra.
           case json_parse (to_str (js_or extra (JStr []))) of
             None \<Rightarrow> Inl SyntaxError
           | Some extraJson \<Rightarrow>
               Inr (obj_put (to_str (oprop db ''id'')) (JObj (merged (own_props db) [(''extra_json'', extraJson)]))
                      databases))) dbs []) (\<lambda>databases.
       Inr (with_prop state ''databases'' (JObj databases)))"

definition migrate_table :: "sql_env \<Rightarrow> jsval obj \<Rightarrow> jsval obj \<Rightarrow> jsval obj \<Rightarrow> jsval obj res" where
  "migrate_table env state oldTable newTable =
     rbind (removeFromArr state ''tables'' oldTable ''id'') (\<lambda>s.
       addToArr (sq_nanoid env 0) s ''tables'' newTable False)"

definition migrate_query :: "jsval obj \<Rightarrow> jsval \<Rightarrow> jsval \<Rightarrow> jsval obj res" where
  "migrate_query state queryId queryEditorId =
     rbind (getprop (fld state ''queries'') (to_str queryId)) (\<lambda>old.
       let query = merged (own_props old) [(''sqlEditorId'', queryEditorId)]
       in Inr (with_prop state ''queries''
            (JObj (obj_put (to_str (fld query ''id'')) (JObj query) (obj_assign [] (own_props (fld state ''queries'')))))))"

datatype field_action =
    QueryEditorSetDb jsval jsval
  | QueryEditorSetCatalog jsval jsval
  | QueryEditorSetSchema jsval jsval
  | QueryEditorSetTitle jsval jsval
  | QueryEditorSetCursorPosition jsval jsval
  | QueryEditorSetQueryLimit jsval jsval
  | QueryEditorSetTemplateParams jsval jsval
  | QueryEditorSetSelectedText jsval jsval
  | QueryEditorSetAutorun jsval jsval
  | QueryEditorPersistHeight jsval jsval jsval
  | QueryEditorToggleLeftBar jsval jsval

datatype tab_action =
    AddQueryEditor jsval
  | QueryEditorSaved jsval jsval jsval
  | UpdateQueryEditor jsval
  | CloneQueryToNewTab jsval
  | RemoveQueryEditor jsval
  | ClearDestroyedQueryEditor jsval
  | SetActiveQueryEditor jsval
  | LoadQueryEditor jsval
  | MigrateQueryEditor jsval jsval
  | QueryEditorSetSql jsval jsval jsval
  | SetEditorTabLastUpdate jsval
  | SetLastUpdatedActiveTab jsval

datatype table_action =
    MergeTable jsval jsval jsval
  | ExpandTable jsval
  | RemoveDataPreview jsval
  | ChangeDataPreviewId jsval jsval
  | CollapseTable jsval
  | RemoveTables "jsval list"
  | SetTables "jsval obj list"
  | SetActiveSouthpaneTab jsval
  | MigrateTable "jsval obj" "jsval obj"

datatype query_action =
    RemoveQuery "jsval obj"
  | CostEstimateStarted jsval
  | CostEstimateReturned jsval jsval
  | CostEstimateFailed jsval jsval
  | StartQuery jsval
  | StopQuery "jsval obj"
  | ClearQueryResults "jsval obj"
  | RequestQueryResults "jsval obj"
  | QuerySuccess "jsval obj" jsval
  | QueryFailed "jsval obj" jsval jsval jsval
  | MigrateQuery jsval jsval
  | RefreshQueries "jsval obj"
  | ClearInactiveQueries jsval

datatype sql_action =
    FieldAction field_action
  | TabAction tab_action
  | TableAction table_action
  | QueryAction query_action
  | ResetState jsval
  | SetDatabases "jsval list"
  | SetUserOffline jsval
  | CreateDatasourceStarted
  | CreateDatasourceSuccess jsval
  | CreateDatasourceFailed jsval
  | OtherSqlAction

text \<open>The editor and the fields that an action changes, and whether the change is silent.\<close>

fun editor_update :: "field_action \<Rightarrow> jsval \<times> jsval obj \<times> bool" where
  "editor_update (QueryEditorSetDb qe v) = (qe, [(''dbId'', v)], False)"
| "editor_update (QueryEditorSetCatalog qe v) = (qe, [(''catalog'', v)], False)"
| "editor_update (QueryEditorSetSchema qe v) = (qe, [(''schema'', v)], False)"
| "editor_update (QueryEditorSetTitle qe v) = (qe, [(''name'', v)], False)"
| "editor_update (QueryEditorSetCursorPosition qe v) = (qe, [(''cursorPosition'', v)], False)"
| "editor_update (QueryEditorSetQueryLimit qe v) = (qe, [(''queryLimit'', v)], False)"
| "editor_update (QueryEditorSetTemplateParams qe v) = (qe, [(''templateParams'', v)], False)"
| "editor_update (QueryEditorSetSelectedText qe v) = (qe, [(''selectedText'', v)], True)"
| "editor_update (QueryEditorSetAutorun qe v) = (qe, [(''autorun'', v)], False)"
| "editor_update (QueryEditorPersistHeight qe v w) = (qe, [(''northPercent'', v), (''southPercent'', w)], False)"
| "editor_update (QueryEditorToggleLeftBar qe v) = (qe, [(''hideLeftBar'', v)], False)"

fun tab_reducer :: "sql_env \<Rightarrow> jsval obj \<Rightarrow> tab_action \<Rightarrow> jsval obj res" where
  "tab_reducer env state (AddQueryEditor queryEditor) = add_query_editor env state queryEditor"
| "tab_reducer env state (QueryEditorSaved query result clientId) = query_editor_saved state query result clientId"
| "tab_reducer env state (UpdateQueryEditor alterations) = update_query_editor state alterations"
| "tab_reducer env state (CloneQueryToNewTab query) = clone_query_to_new_tab env state query"
| "tab_reducer env state (RemoveQueryEditor queryEditor) = remove_query_editor env state queryEditor"
| "tab_reducer env state (ClearDestroyedQueryEditor i) =
     Inr (with_prop state ''destroyedQueryEditors''
       (JObj (AList.delete (to_str i) (obj_assign [] (own_props (fld state ''destroyedQueryEditors''))))))"
| "tab_reducer env state (SetActiveQueryEditor queryEditor) = set_active_query_editor state queryEditor"
| "tab_reducer env state (LoadQueryEditor queryEditor) = load_query_editor state queryEditor"
| "tab_reducer env state (MigrateQueryEditor oldQueryEditor newQueryEditor) =
     alter_item state ''queryEditors'' oldQueryEditor (own_props newQueryEditor) ''id''"
| "tab_reducer env state (QueryEditorSetSql queryEditor sql queryId) =
     query_editor_set_sql env state queryEditor sql queryId"
| "tab_reducer env state (SetEditorTabLastUpdate timestamp) =
     Inr (with_prop state ''editorTabLastUpdatedAt'' timestamp)"
| "tab_reducer env state (SetLastUpdatedActiveTab i) = Inr (with_prop state ''lastUpdatedActiveTab'' i)"

fun table_reducer :: "sql_env \<Rightarrow> jsval obj \<Rightarrow> table_action \<Rightarrow> jsval obj res" where
  "table_reducer env state (MergeTable table query prepend) = merge_table env state table query prepend"
| "table_reducer env state (ExpandTable table) =
     alter_item state ''tables'' table [(''expanded'', JBool True)] ''id''"
| "table_reducer env state (RemoveDataPreview table) = remove_data_preview state table"
| "table_reducer env state (ChangeDataPreviewId oldQueryId newQuery) =
     change_data_preview_id state oldQueryId newQuery"
| "table_reducer env state (CollapseTable table) =
     alter_item state ''tables'' table [(''expanded'', JBool False)] ''id''"
| "table_reducer env state (RemoveTables tables) = remove_tables state tables"
| "table_reducer env state (SetTables tables) = extendArr (sq_nanoid env) state ''tables'' tables False"
| "table_reducer env state (SetActiveSouthpaneTab tabId) = Inr (with_prop state ''activeSouthPaneTab'' tabId)"
| "table_reducer env state (MigrateTable oldTable newTable) = migrate_table env state oldTable newTable"

fun query_reducer :: "sql_env \<Rightarrow> jsval obj \<Rightarrow> query_action \<Rightarrow> jsval obj res" where
  "query_reducer env state (RemoveQuery query) =
     Inr (with_prop state ''queries''
       (JObj (AList.delete (to_str (fld query ''id'')) (obj_assign [] (own_props (fld state ''queries''))))))"
| "query_reducer env state (CostEstimateStarted query) = cost_estimate state query False JNull JNull"
| "query_reducer env state (CostEstimateReturned query json) =
     rbind (getprop json ''result'') (\<lambda>r. cost_estimate state query True r JNull)"
| "query_reducer env state (CostEstimateFailed query err) = cost_estimate state query False JNull err"
| "query_reducer env state (StartQuery query) = start_query env state query"
| "query_reducer env state (StopQuery query) = Inr (stop_query state query)"
| "query_reducer env state (ClearQueryResults query) = Inr (clear_query_results state query)"
| "query_reducer env state (RequestQueryResults query) = Inr (request_query_results state query)"
| "query_reducer env state (QuerySuccess query results) = query_success env state query results"
| "query_reducer env state (QueryFailed query msg link errors) =
     Inr (query_failed env state query msg link errors)"
| "query_reducer env state (MigrateQuery queryId queryEditorId) = migrate_query state queryId queryEditorId"
| "query_reducer env state (RefreshQueries alteredQueries) = refresh_queries env state alteredQueries"
| "query_reducer env state (ClearInactiveQueries interval) = clear_inactive_queries env state interval"

fun sqlLabReducer :: "sql_env \<Rightarrow> jsval obj \<Rightarrow> sql_action \<Rightarrow> jsval obj res" where
  "sqlLabReducer env state (FieldAction action) =
     (let (queryEditor, updatedState, silent) = editor_update action
      in edit_query_editor env state updatedState queryEditor silent)"
| "sqlLabReducer env state (TabAction action) = tab_reducer env state action"
| "sqlLabReducer env state (TableAction action) = table_reducer env state action"
| "sqlLabReducer env state (QueryAction action) = query_reducer env state action"
| "sqlLabReducer env state (ResetState sqlLabInitialState) = Inr (obj_assign [] (own_props sqlLabInitialState))"
| "sqlLabReducer env state (SetDatabases databases) = set_databases state databases"
| "sqlLabReducer env state (SetUserOffline offline) = Inr (with_prop state ''offline'' offline)"
| "sqlLabReducer env state CreateDatasourceStarted =
     Inr (merged state [(''isDatasourceLoading'', JBool True), (''errorMessage'', JNull)])"
| "sqlLabReducer env state (CreateDatasourceSuccess datasource) =
     Inr (merged state [(''isDatasourceLoading'', JBool False), (''errorMessage'', JNull), (''datasource'', datasource)])"
| "sqlLabReducer env state (CreateDatasourceFailed err) =
     Inr (merged state [(''isDatasourceLoading'', JBool False), (''errorMessage'', err)])"
| "sqlLabReducer env state OtherSqlAction = Inr state"

text \<open>
  What a migration does to the copy of the state in the local storage: \<open>None\<close> is an item that is
  absent or not JSON. A failure on the way leaves the storage as it is.
\<close>

definition without_migrated :: "string \<Rightarrow> jsval \<Rightarrow> jsval option \<Rightarrow> jsval option" where
  "without_migrated key old storage =
     (case storage of
        None \<Rightarrow> None
      | Some stored \<Rightarrow>
          (case rbind (getprop stored ''sqlLab'') (\<lambda>sqlLab.
                rbind (getprop sqlLab key) (\<lambda>arr.
                rbind (elems arr) (\<lambda>xs.
                rbind (rfilter (\<lambda>x. rbind (getprop x ''id'') (\<lambda>i.
                    rbind (getprop old ''id'') (\<lambda>j. Inr (\<not> strict_eq i j)))) xs) (\<lambda>kept.
                  Inr (JObj [(''sqlLab'', JObj (obj_put key (JArr kept) (own_props sqlLab)))]))))) of
             Inl _ \<Rightarrow> storage
           | Inr v \<Rightarrow> Some v))"

definition storage_after :: "sql_action \<Rightarrow> jsval option \<Rightarrow> jsval option" where
  "storage_after action storage =
     (case action of
        TabAction (MigrateQueryEditor old _) \<Rightarrow> without_migrated ''queryEditors'' old storage
      | TableAction (MigrateTable old _) \<Rightarrow> without_migrated ''tables'' (JObj old) storage
      | _ \<Rightarrow> storage)"

section \<open>Action creators\<close>

definition getUpToDateQuery :: "jsval obj \<Rightarrow> jsval \<Rightarrow> jsval \<Rightarrow> jsval obj res" where
  "getUpToDateQuery state queryEditor key =
     rbind (if nullish key then getprop queryEditor ''id'' else Inr key) (\<lambda>i.
     rbind (elems (fld state ''queryEditors'')) (\<lambda>editors.
     rbind (find_by ''id'' i editors) (\<lambda>editor.
     rbind (getprop (fld state ''unsavedQueryEditor'') ''id'') (\<lambda>unsavedId.
       Inr (obj_assign (obj_assign [(''id'', i)] (own_props editor))
              (spread_if (strict_eq i unsavedId) (fld state ''unsavedQueryEditor'')))))))"

definition startQuery :: "sql_env \<Rightarrow> jsval obj \<Rightarrow> sql_action" where
  "startQuery env query =
     QueryAction (StartQuery (JObj (obj_assign query
       [(''id'', if truthy (fld query ''id'') then fld query ''id'' else JStr (sq_nanoid env 1)),
        (''progress'', JInt 0), (''startDttm'', JNum (sq_now env)),
        (''state'', JStr (if truthy (fld query ''runAsync'') then ''pending'' else ''running'')),
        (''cached'', JBool False)])))"

definition switchQueryEditor :: "jsval obj \<Rightarrow> bool \<Rightarrow> sql_action res" where
  "switchQueryEditor state goBackward =
     rbind (elems (fld state ''queryEditors'')) (\<lambda>editors.
     rbind (last_tab state) (\<lambda>qeid.
     rbind (rfind_index (\<lambda>qe. rbind (getprop qe ''id'') (\<lambda>i. Inr (strict_eq i qeid))) editors) (\<lambda>found.
       let n = int (length editors);
           currentIndex = (case found of None \<Rightarrow> -1 | Some k \<Rightarrow> int k);
           nextIndex = (if goBackward then currentIndex - 1 + n else currentIndex + 1)
       in Inr (TabAction (SetActiveQueryEditor
            (if editors = [] then JUndef else editors ! nat (nextIndex mod n)))))))"

definition removeAllOtherQueryEditors :: "sql_env \<Rightarrow> jsval obj \<Rightarrow> jsval \<Rightarrow> jsval obj res" where
  "removeAllOtherQueryEditors env state queryEditor =
     (if nullish (fld state ''queryEditors'') then Inr state
      else rbind (elems (fld state ''queryEditors'')) (\<lambda>editors.
        rfold (\<lambda>other s.
          rbind (getprop other ''id'') (\<lambda>i.
          rbind (getprop queryEditor ''id'') (\<lambda>j.
            if strict_eq i j then Inr s else sqlLabReducer env s (TabAction (RemoveQueryEditor other))))) editors state))"

text \<open>
  \<open>newQueryTabName\<close>, given the names of the tabs (\<open>None\<close> for a tab without one): one more than
  the largest number of an untitled tab.
\<close>

definition untitledQuery :: string where
  "untitledQuery = ''Untitled Query ''"

definition untitled_number :: "string option \<Rightarrow> nat option" where
  "untitled_number name =
     (case name of
        None \<Rightarrow> None
      | Some s \<Rightarrow>
          (let r = drop (length untitledQuery) s
           in if take (length untitledQuery) s = untitledQuery \<and> r \<noteq> [] \<and> list_all is_digit r
              then Some (nat_of_digits r) else None))"

definition newQueryTabName :: "(string \<Rightarrow> jsval list \<Rightarrow> string) \<Rightarrow> string option list \<Rightarrow> string" where
  "newQueryTabName t names =
     (case List.map_filter untitled_number names of
        [] \<Rightarrow> t (untitledQuery @ ''1'') []
      | n # ns \<Rightarrow> t ''%s%s'' [JStr untitledQuery, JInt (int (fold max ns n) + 1)])"

definition cloneQueryToNewTab :: "sql_env \<Rightarrow> jsval obj \<Rightarrow> jsval \<Rightarrow> jsval \<Rightarrow> sql_action res" where
  "cloneQueryToNewTab env state query autorun =
     rbind (elems (fld state ''queryEditors'')) (\<lambda>editors.
     rbind (last_tab state) (\<lambda>active.
     rbind (find_by ''id'' active editors) (\<lambda>editor.
     rbind (getprop (fld state ''unsavedQueryEditor'') ''id'') (\<lambda>unsavedId.
     rbind (getprop query ''dbId'') (\<lambda>dbId.
       let source = merged (own_props editor)
             (spread_if (strict_eq active unsavedId) (fld state ''unsavedQueryEditor''))
       in Inr (TabAction (AddQueryEditor (addQueryEditor env
            [(''name'', JStr (sq_t env ''Copy of %s'' [fld source ''name''])),
             (''dbId'', or_null dbId), (''catalog'', or_null (oprop query ''catalog'')),
             (''schema'', or_null (oprop query ''schema'')), (''autorun'', autorun), (''sql'', oprop query ''sql''),
             (''queryLimit'', fld source ''queryLimit''), (''maxRow'', fld source ''maxRow''),
             (''templateParams'', fld source ''templateParams'')]))))))))"

end
