(* ===== verification/SqlLabFacts.thy ===== *)
theory SqlLabFacts
  imports SqlLab
begin

text \<open>
  What SQL Lab shows. The content of a tab is what \<open>getUpToDateQuery\<close> returns: the editor of the
  store overlaid with the unsaved edits. The lemmas follow that view through the actions on tabs.
\<close>

section \<open>Objects\<close>

lemma fld_absent: "k \<notin> fst ` set ps \<Longrightarrow> fld ps k = JUndef"
proof -
  assume "k \<notin> fst ` set ps"
  then have "map_of ps k = None" by (simp add: map_of_eq_None_iff)
  then show ?thesis by (simp add: oprop.simps(1))
qed

lemma oprop_merged [simp]:
  "fld (merged a b) k = (if k \<in> fst ` set b then fld b k else fld a k)"
  by (simp add: merged_def oprop_assign fld_absent)

lemma getprop_JObj [simp]: "getprop (JObj ps) k = Inr (fld ps k)"
  by (simp add: getprop_def nullish_def)

lemma fld_present: "fld ps k = JStr s \<Longrightarrow> k \<in> fst ` set ps"
  using fld_absent [of k ps] by auto

lemma keys_assign: "fst ` set (obj_assign a b) = fst ` set a \<union> fst ` set b"
  by (metis dom_map_of_conv_image_fst dom_map_add map_of_obj_assign sup_commute)

lemma keys_merged [simp]: "fst ` set (merged a b) = fst ` set a \<union> fst ` set b"
  by (simp add: merged_def keys_assign)

section \<open>The tabs of a state\<close>

definition tab_ids :: "jsval list \<Rightarrow> jsval list" where
  "tab_ids es = map (\<lambda>x. oprop x ''id'') es"

definition editors_ok :: "jsval list \<Rightarrow> bool" where
  "editors_ok es \<longleftrightarrow>
     (\<forall>x\<in>set es. \<exists>ps s. x = JObj ps \<and> fld ps ''id'' = JStr s \<and> s \<noteq> []) \<and> distinct (tab_ids es)"

definition tabs :: "jsval obj \<Rightarrow> jsval list \<Rightarrow> jsval list \<Rightarrow> jsval obj \<Rightarrow> bool" where
  "tabs state es h u \<longleftrightarrow>
     fld state ''queryEditors'' = JArr es \<and> fld state ''tabHistory'' = JArr h \<and>
     fld state ''unsavedQueryEditor'' = JObj u \<and> editors_ok es"

definition editor_of :: "jsval list \<Rightarrow> string \<Rightarrow> jsval obj" where
  "editor_of es i = (case find (\<lambda>x. oprop x ''id'' = JStr i) es of None \<Rightarrow> [] | Some x \<Rightarrow> own_props x)"

lemma editors_ok_Cons:
  "editors_ok (x # es) \<longleftrightarrow>
     (\<exists>ps s. x = JObj ps \<and> fld ps ''id'' = JStr s \<and> s \<noteq> [] \<and> JStr s \<notin> set (tab_ids es)) \<and> editors_ok es"
  by (fastforce simp: editors_ok_def tab_ids_def)

lemma editors_ok_obj: "editors_ok es \<Longrightarrow> x \<in> set es \<Longrightarrow> \<exists>ps s. x = JObj ps \<and> fld ps ''id'' = JStr s \<and> s \<noteq> []"
  by (simp add: editors_ok_def)

lemma find_by_editor:
  "editors_ok es \<Longrightarrow>
     find_by ''id'' (JStr i) es = Inr (case find (\<lambda>x. oprop x ''id'' = JStr i) es of None \<Rightarrow> JUndef | Some x \<Rightarrow> x)"
  by (induction es) (auto simp: editors_ok_Cons getprop_def nullish_def)

lemma editor_of_id:
  "editors_ok es \<Longrightarrow> JStr i \<in> set (tab_ids es) \<Longrightarrow> fld (editor_of es i) ''id'' = JStr i"
proof (induction es)
  case (Cons x es)
  then show ?case by (cases "oprop x ''id'' = JStr i") (auto simp: editors_ok_Cons editor_of_def tab_ids_def)
qed (simp add: tab_ids_def)

lemma editor_of_mem:
  "editors_ok es \<Longrightarrow> JObj ps \<in> set es \<Longrightarrow> fld ps ''id'' = JStr i \<Longrightarrow> editor_of es i = ps"
proof (induction es)
  case (Cons x es)
  then show ?case
  proof (cases "x = JObj ps")
    case False
    then have m: "JObj ps \<in> set es" using Cons.prems by simp
    then have "JStr i \<in> set (tab_ids es)" using Cons.prems(3) by (force simp: tab_ids_def)
    then have "oprop x ''id'' \<noteq> JStr i" using Cons.prems(1) by (auto simp: editors_ok_Cons)
    moreover have "editor_of es i = ps" using Cons m by (simp add: editors_ok_Cons)
    ultimately show ?thesis by (simp add: editor_of_def)
  qed (simp add: editor_of_def)
qed simp

text \<open>The field \<open>k\<close> of the tab \<open>i\<close>, as the program shows it.\<close>

definition shown :: "jsval obj \<Rightarrow> string \<Rightarrow> string \<Rightarrow> jsval" where
  "shown state i k = (case getUpToDateQuery state JUndef (JStr i) of Inl _ \<Rightarrow> JUndef | Inr q \<Rightarrow> fld q k)"

lemma shown_eq:
  assumes "tabs state es h u" and "JStr i \<in> set (tab_ids es)"
  shows "shown state i k =
     (if fld u ''id'' = JStr i \<and> k \<in> fst ` set u then fld u k else fld (editor_of es i) k)"
proof -
  have f: "find_by ''id'' (JStr i) es =
      Inr (case find (\<lambda>x. oprop x ''id'' = JStr i) es of None \<Rightarrow> JUndef | Some x \<Rightarrow> x)"
    using assms(1) find_by_editor by (simp add: tabs_def)
  have e: "own_props (case find (\<lambda>x. oprop x ''id'' = JStr i) es of None \<Rightarrow> JUndef | Some x \<Rightarrow> x) = editor_of es i"
    by (simp add: editor_of_def split: option.splits)
  have id: "fld (editor_of es i) ''id'' = JStr i"
    using assms editor_of_id by (simp add: tabs_def)
  have "getUpToDateQuery state JUndef (JStr i) =
      Inr (obj_assign (obj_assign [(''id'', JStr i)] (editor_of es i)) (if fld u ''id'' = JStr i then u else []))"
    using assms(1) f e by (simp add: getUpToDateQuery_def tabs_def nullish_def getprop_def spread_if_def)
  then show ?thesis
    using id fld_present [OF id] by (auto simp: shown_def oprop_assign fld_absent)
qed

section \<open>Altering editors\<close>

definition altered :: "jsval \<Rightarrow> jsval obj \<Rightarrow> jsval list \<Rightarrow> jsval list" where
  "altered v alts es = map (\<lambda>x. if oprop x ''id'' = v then JObj (merged (own_props x) alts) else x) es"

lemma alterInArr_editors:
  assumes "fld state ''queryEditors'' = JArr es" and "editors_ok es"
  shows "alterInArr state ''queryEditors'' ob alts ''id'' =
     Inr (with_prop state ''queryEditors'' (JArr (altered (fld ob ''id'') alts es)))"
proof -
  have "rmap (\<lambda>x. rbind (same_id ''id'' ob x) (\<lambda>b.
        Inr (if b then JObj (obj_assign (obj_assign [] (own_props x)) alts) else x))) es =
      Inr (altered (fld ob ''id'') alts es)"
    unfolding altered_def
  proof (rule rmap_total)
    fix x
    assume "x \<in> set es"
    then obtain ps s where "x = JObj ps" "fld ps ''id'' = JStr s" using assms(2) editors_ok_obj by blast
    then show "rbind (same_id ''id'' ob x) (\<lambda>b.
        Inr (if b then JObj (obj_assign (obj_assign [] (own_props x)) alts) else x)) =
        Inr (if oprop x ''id'' = fld ob ''id'' then JObj (merged (own_props x) alts) else x)"
      by (auto simp: same_id_def getprop_def nullish_def merged_def)
  qed
  then show ?thesis using assms(1) by (simp add: alterInArr_def)
qed

lemma alter_item_editors:
  assumes "fld state ''queryEditors'' = JArr es" and "editors_ok es"
  shows "alter_item state ''queryEditors'' (JObj ob) alts ''id'' =
     Inr (with_prop state ''queryEditors'' (JArr (altered (fld ob ''id'') alts es)))"
  using alterInArr_editors [OF assms] by (simp add: alter_item_def nullish_def)

lemma altered_props:
  assumes "editors_ok es" and "''id'' \<notin> fst ` set alts \<or> fld alts ''id'' = v"
  shows "editors_ok (altered v alts es)" "tab_ids (altered v alts es) = tab_ids es"
    "JStr i \<in> set (tab_ids es) \<Longrightarrow>
     editor_of (altered v alts es) i = (if v = JStr i then merged (editor_of es i) alts else editor_of es i)"
proof -
  have step: "oprop (if oprop x ''id'' = v then JObj (merged (own_props x) alts) else x) ''id'' = oprop x ''id''"
    if "x \<in> set es" for x
  proof -
    obtain ps s where "x = JObj ps" using editors_ok_obj [OF assms(1) \<open>x \<in> set es\<close>] by blast
    then show ?thesis using assms(2) by auto
  qed
  show ids: "tab_ids (altered v alts es) = tab_ids es"
    using step by (simp add: tab_ids_def altered_def)
  show "editors_ok (altered v alts es)"
    unfolding editors_ok_def ids
  proof
    show "\<forall>x\<in>set (altered v alts es). \<exists>ps s. x = JObj ps \<and> fld ps ''id'' = JStr s \<and> s \<noteq> []"
    proof
      fix x
      assume "x \<in> set (altered v alts es)"
      then obtain y where y: "y \<in> set es" "x = (if oprop y ''id'' = v then JObj (merged (own_props y) alts) else y)"
        by (auto simp: altered_def)
      then show "\<exists>ps s. x = JObj ps \<and> fld ps ''id'' = JStr s \<and> s \<noteq> []"
        using editors_ok_obj [OF assms(1) y(1)] step [OF y(1)] y(2) by (auto split: if_splits)
    qed
    show "distinct (tab_ids es)" using assms(1) by (simp add: editors_ok_def)
  qed
  show "JStr i \<in> set (tab_ids es) \<Longrightarrow>
      editor_of (altered v alts es) i = (if v = JStr i then merged (editor_of es i) alts else editor_of es i)"
    using step
  proof (induction es)
    case Nil
    then show ?case by (simp add: tab_ids_def)
  next
    case (Cons x es)
    let ?f = "\<lambda>x. if oprop x ''id'' = v then JObj (merged (own_props x) alts) else x"
    have x: "oprop (?f x) ''id'' = oprop x ''id''" by (rule Cons.prems(2)) simp
    show ?case
    proof (cases "oprop x ''id'' = JStr i")
      case True
      have "find (\<lambda>x. oprop x ''id'' = JStr i) (altered v alts (x # es)) = Some (?f x)"
        unfolding altered_def by (simp only: list.map find.simps trans [OF x True] if_True simp_thms)
      then show ?thesis using True by (auto simp: editor_of_def)
    next
      case False
      then have "editor_of (altered v alts (x # es)) i = editor_of (altered v alts es) i"
        unfolding altered_def editor_of_def by (simp only: list.map find.simps x if_False)
      moreover have "editor_of (altered v alts es) i =
          (if v = JStr i then merged (editor_of es i) alts else editor_of es i)"
        by (rule Cons.IH, use Cons.prems(1) False in \<open>simp add: tab_ids_def\<close>, rule Cons.prems(2), simp)
      ultimately show ?thesis using False by (simp add: editor_of_def)
    qed
  qed
qed

text \<open>Writing the unsaved edits to their editor changes nothing that is shown.\<close>

lemma merge_unsaved_shown:
  assumes "tabs state es h u"
  defines "es' \<equiv> altered (fld u ''id'') (obj_assign [] u) es"
  shows "merge_unsaved state = Inr (with_prop state ''queryEditors'' (JArr es'))"
    and "editors_ok es'" and "tab_ids es' = tab_ids es"
    and "JStr i \<in> set (tab_ids es) \<Longrightarrow> fld (editor_of es' i) k = shown state i k"
proof -
  have es: "fld state ''queryEditors'' = JArr es" "fld state ''unsavedQueryEditor'' = JObj u" "editors_ok es"
    using assms(1) by (simp_all add: tabs_def)
  show "merge_unsaved state = Inr (with_prop state ''queryEditors'' (JArr es'))"
    using alter_item_editors [OF es(1,3)] es(2) by (simp add: merge_unsaved_def es'_def)
  have id: "''id'' \<notin> fst ` set (obj_assign [] u) \<or> fld (obj_assign [] u) ''id'' = fld u ''id''" by simp
  note p = altered_props [OF es(3) id]
  show "editors_ok es'" "tab_ids es' = tab_ids es" using p by (simp_all add: es'_def)
  show "fld (editor_of es' i) k = shown state i k" if "JStr i \<in> set (tab_ids es)"
    using p(3) [OF that] shown_eq [OF assms(1) that, of k] by (auto simp: es'_def keys_assign)
qed

section \<open>Switching and editing tabs\<close>

lemma rmap_ids: "editors_ok es \<Longrightarrow> rmap (\<lambda>qe. getprop qe ''id'') es = Inr (tab_ids es)"
  unfolding tab_ids_def
  by (rule rmap_total) (auto simp: getprop_def nullish_def dest: editors_ok_obj)

lemma member_id_JStr: "member_id ids (JStr i) \<longleftrightarrow> JStr i \<in> set ids"
  by (auto simp: member_id_def list_ex_iff)

lemma last_tab_eq: "tabs state es h u \<Longrightarrow> last_tab state = Inr (if h = [] then JUndef else last h)"
  by (simp add: last_tab_def tabs_def)

lemma set_active_tabs:
  assumes "tabs state es h u" and "JObj qe \<in> set es" and "fld qe ''id'' = JStr i"
    and "h = [] \<or> last h \<noteq> JStr i"
  shows "\<exists>state' es'. sqlLabReducer env state (TabAction (SetActiveQueryEditor (JObj qe))) = Inr state' \<and>
     tabs state' es' (h @ [JStr i]) [] \<and> tab_ids es' = tab_ids es \<and>
     (\<forall>j k. JStr j \<in> set (tab_ids es) \<longrightarrow> shown state' j k = shown state j k)"
proof -
  define es1 where "es1 = altered (fld u ''id'') (obj_assign [] u) es"
  define s1 where "s1 = with_prop (with_prop state ''queryEditors'' (JArr es1)) ''unsavedQueryEditor'' (JObj [])"
  define alts where "alts = merged qe u"
  define es2 where "es2 = (if fld u ''id'' = JStr i then altered (JStr i) alts es1 else es1)"
  note m = merge_unsaved_shown [OF assms(1), folded es1_def]
  have st: "fld state ''queryEditors'' = JArr es" "fld state ''tabHistory'' = JArr h"
    "fld state ''unsavedQueryEditor'' = JObj u" "editors_ok es"
    using assms(1) by (simp_all add: tabs_def)
  have mem: "JStr i \<in> set (tab_ids es)" using assms(2,3) by (force simp: tab_ids_def)
  have e: "editor_of es i = qe" by (rule editor_of_mem [OF st(4) assms(2,3)])
  have s1: "fld s1 ''queryEditors'' = JArr es1" "fld s1 ''tabHistory'' = JArr h" by (simp_all add: s1_def st)
  have alts: "''id'' \<notin> fst ` set alts \<or> fld alts ''id'' = JStr i" if "fld u ''id'' = JStr i"
    using that assms(3) by (simp add: alts_def)
  note p = altered_props [OF m(2) alts]
  have es2: "editors_ok es2" "tab_ids es2 = tab_ids es"
    using p(1,2) m(2,3) by (simp_all add: es2_def)
  have "fld (editor_of es2 j) k = shown state j k" if j: "JStr j \<in> set (tab_ids es)" for j k
  proof (cases "fld u ''id'' = JStr i \<and> j = i")
    case True
    then have "editor_of es2 j = merged (editor_of es1 i) alts"
      using p(3) [of i] m(3) j by (simp add: es2_def)
    then show ?thesis
      using True e shown_eq [OF assms(1) mem, of k] m(4) [OF mem, of k] by (auto simp: alts_def fld_absent)
  next
    case False
    then have "editor_of es2 j = editor_of es1 j"
      using p(3) [of j] m(3) j by (auto simp: es2_def)
    then show ?thesis using m(4) [OF j] by simp
  qed
  moreover define s2 where
    "s2 = with_prop (if fld u ''id'' = JStr i then with_prop s1 ''queryEditors'' (JArr es2) else s1) ''tabHistory'' (JArr (h @ [JStr i]))"
  moreover have t2: "tabs s2 es2 (h @ [JStr i]) []"
    using es2 by (auto simp: tabs_def s2_def s1_def es2_def)
  moreover have "sqlLabReducer env state (TabAction (SetActiveQueryEditor (JObj qe))) = Inr s2"
    using alter_item_editors [OF s1(1) m(2), of qe alts] assms(3,4) mem
    by (auto simp: set_active_query_editor_def st rmap_ids last_tab_eq [OF assms(1)] member_id_JStr m(1)
        Let_def s2_def es2_def alts_def s1_def [symmetric])
  ultimately show ?thesis
    using es2(2) shown_eq [OF t2] by (intro exI [of _ s2] exI [of _ es2]) auto
qed

text \<open>
  C10. Switching tabs keeps every edit. When an open tab that is not the active one is made
  active, the action succeeds, the tab becomes the last of the history, no unsaved edits are left
  over, and every field of every tab is shown as before.
\<close>

theorem set_active_query_editor_keeps_edits:
  assumes "tabs state es h u" and "JObj qe \<in> set es" and "fld qe ''id'' = JStr i"
    and "h = [] \<or> last h \<noteq> JStr i"
  shows "\<exists>state' es'. sqlLabReducer env state (TabAction (SetActiveQueryEditor (JObj qe))) = Inr state' \<and>
     tabs state' es' (h @ [JStr i]) [] \<and> tab_ids es' = tab_ids es \<and>
     (\<forall>j k. JStr j \<in> set (tab_ids es) \<longrightarrow> shown state' j k = shown state j k)"
  by (rule set_active_tabs [OF assms])

text \<open>Unsaved edits belong to the active tab.\<close>

definition unsaved_active :: "jsval list \<Rightarrow> jsval obj \<Rightarrow> bool" where
  "unsaved_active h u \<longleftrightarrow> fld u ''id'' = JUndef \<or> h \<noteq> [] \<and> fld u ''id'' = last h"

text \<open>The unsaved edits after an edit of the active tab.\<close>

definition edited_unsaved :: "sql_env \<Rightarrow> jsval obj \<Rightarrow> string \<Rightarrow> jsval obj \<Rightarrow> bool \<Rightarrow> jsval obj" where
  "edited_unsaved env u i updated silent =
     obj_assign (obj_assign (obj_assign [] (if fld u ''id'' = JStr i then u else [])) (obj_assign [(''id'', JStr i)] updated))
       (if silent then [] else [(''updatedAt'', JNum (sq_now env))])"

lemma edit_query_editor_eq:
  assumes "tabs state es h u" and "fld qe ''id'' = JStr i" and "i \<noteq> []"
  shows "edit_query_editor env state updated (JObj qe) silent =
     Inr (merged state
       (if h \<noteq> [] \<and> last h = JStr i
        then [(''unsavedQueryEditor'', JObj (edited_unsaved env u i updated silent))]
        else [(''queryEditors'', JArr (altered (JStr i) updated es))]))"
proof -
  have st: "fld state ''queryEditors'' = JArr es" "fld state ''unsavedQueryEditor'' = JObj u" "editors_ok es"
    using assms(1) by (simp_all add: tabs_def)
  show ?thesis
    using assms(2,3) alterInArr_editors [OF st(1,3), of "[(''id'', JStr i)]" updated]
    by (simp add: edit_query_editor_def alterUnsavedQueryEditorState_def last_tab_eq [OF assms(1)] st spread_if_def
        edited_unsaved_def)
qed

lemma edited_unsaved_id:
  "''id'' \<notin> fst ` set updated \<Longrightarrow> fld (edited_unsaved env u i updated silent) ''id'' = JStr i"
  by (auto simp: edited_unsaved_def oprop_assign keys_assign)

lemma tabs_edit_active:
  "tabs state es h u \<Longrightarrow> tabs (merged state [(''unsavedQueryEditor'', JObj u')]) es h u'"
  by (simp add: tabs_def)

lemma tabs_edit_other:
  "tabs state es h u \<Longrightarrow> editors_ok es' \<Longrightarrow> tabs (merged state [(''queryEditors'', JArr es')]) es' h u"
  by (simp add: tabs_def)

lemma edited_shown:
  assumes "tabs state es h u" and "JStr j \<in> set (tab_ids es)" and "''id'' \<notin> fst ` set updated"
    and "fld u ''id'' = JStr i \<or> fld u ''id'' \<noteq> JStr j"
  shows "shown (merged state [(''unsavedQueryEditor'', JObj (edited_unsaved env u i updated silent))]) j k =
     (if j = i \<and> \<not> silent \<and> k = ''updatedAt'' then JNum (sq_now env)
      else if j = i \<and> k \<in> fst ` set updated then fld updated k
      else shown state j k)"
proof -
  have "fld (editor_of es j) ''id'' = JStr j"
    using assms(1,2) editor_of_id by (simp add: tabs_def)
  then show ?thesis
    using assms(4) edited_unsaved_id [OF assms(3), of env u i silent]
    unfolding shown_eq [OF tabs_edit_active [OF assms(1)] assms(2)] shown_eq [OF assms(1,2)]
    by (auto simp: edited_unsaved_def oprop_assign keys_assign fld_absent)
qed

lemma editor_update_fields: "editor_update a = (qe, updated, silent) \<Longrightarrow> ''id'' \<notin> fst ` set updated \<and> ''updatedAt'' \<notin> fst ` set updated"
  by (cases a) auto


end
