(* ===== verification/SqlLabTabs.thy ===== *)
theory SqlLabTabs
  imports SqlLabFacts
begin

text \<open>
  Closing tabs in SQL Lab: which tab becomes active, what happens to unsaved edits, and the two
  ways in which edits are lost.
\<close>

definition objects :: "jsval list \<Rightarrow> bool" where
  "objects xs \<longleftrightarrow> (\<forall>x\<in>set xs. \<exists>ps. x = JObj ps)"

definition stored :: "jsval obj \<Rightarrow> bool" where
  "stored state \<longleftrightarrow>
     (\<exists>qs. fld state ''queries'' = JObj qs \<and> objects (map snd qs)) \<and> (\<exists>ts. fld state ''tables'' = JArr ts \<and> objects ts)"

lemma rfilter_total: "(\<And>x. x \<in> set xs \<Longrightarrow> P x = Inr (p x)) \<Longrightarrow> rfilter P xs = Inr (filter p xs)"
proof -
  assume "\<And>x. x \<in> set xs \<Longrightarrow> P x = Inr (p x)"
  then have "rmap P xs = Inr (map p xs)" by (rule rmap_total)
  moreover have "map fst (filter snd (zip xs (map p xs))) = filter p xs"
    by (induction xs) auto
  ultimately show ?thesis by (simp add: rfilter_def)
qed

lemma filter_last: "xs \<noteq> [] \<Longrightarrow> P (last xs) \<Longrightarrow> filter P xs \<noteq> [] \<and> last (filter P xs) = last xs"
  by (cases xs rule: rev_cases) auto

lemma editors_ok_filter: "editors_ok es \<Longrightarrow> editors_ok (filter P es)"
  by (auto simp: editors_ok_def tab_ids_def distinct_map_filter)

text \<open>The key under which the server knows an editor.\<close>

definition server_key :: "jsval \<Rightarrow> jsval" where
  "server_key x = js_coalesce (oprop x ''tabViewId'') (oprop x ''id'')"

lemma editor_key_JObj [simp]: "editor_key (JObj ps) = Inr (server_key (JObj ps))"
  by (simp add: editor_key_def server_key_def)

definition remaining :: "string \<Rightarrow> jsval list \<Rightarrow> jsval list" where
  "remaining b es = filter (\<lambda>x. oprop x ''id'' \<noteq> JStr b) es"

definition remaining_history :: "jsval list \<Rightarrow> jsval list \<Rightarrow> jsval list" where
  "remaining_history es h =
     (let f = filter (member_id (map server_key es)) h
      in if f = [] \<and> es \<noteq> [] then [oprop (last es) ''id''] else f)"

definition remaining_unsaved :: "string \<Rightarrow> jsval obj \<Rightarrow> jsval obj" where
  "remaining_unsaved b u = (if fld u ''id'' = JStr b then [] else obj_assign [] u)"

lemma removeFromArr_editors:
  assumes "fld state ''queryEditors'' = JArr es" and "editors_ok es" and "fld ob ''id'' = JStr b"
  shows "removeFromArr state ''queryEditors'' ob ''id'' =
     Inr (with_prop state ''queryEditors'' (JArr (remaining b es)))"
proof -
  have "\<forall>x\<in>set es. \<not> nullish x" using assms(2) by (auto simp: nullish_def dest: editors_ok_obj)
  note r = removeFromArr_filter [OF this, of "''id''" ob]
  have "concat (map (\<lambda>x. if strict_eq (JStr b) (oprop x ''id'') then [] else [x]) es) = remaining b es"
    by (induction es) (auto simp: remaining_def)
  then show ?thesis using r assms(1,3) by (simp add: removeFromArr_def)
qed

lemma last_editor_ids_eq:
  assumes "editors_ok es" and "es \<noteq> []"
  shows "last_editor_ids es = Inr [oprop (last es) ''id'']"
proof -
  have "drop (length es - 1) es = [last es]"
    using assms(2) by (metis append_butlast_last_id append_eq_conv_conj length_butlast)
  moreover obtain ps s where "last es = JObj ps"
    using assms editors_ok_obj last_in_set by blast
  ultimately show ?thesis by (simp add: last_editor_ids_def)
qed

lemma remove_query_editor_tabs:
  assumes "tabs state es h u" and "stored state" and "fld qb ''id'' = JStr b"
  obtains state' where "sqlLabReducer env state (TabAction (RemoveQueryEditor (JObj qb))) = Inr state'"
    "tabs state' (remaining b es) (remaining_history (remaining b es) h) (remaining_unsaved b u)"
proof -
  have st: "fld state ''queryEditors'' = JArr es" "fld state ''tabHistory'' = JArr h"
    "fld state ''unsavedQueryEditor'' = JObj u" "editors_ok es"
    using assms(1) by (simp_all add: tabs_def)
  obtain qs ts where q: "fld state ''queries'' = JObj qs" "objects (map snd qs)" "fld state ''tables'' = JArr ts" "objects ts"
    using assms(2) by (auto simp: stored_def)
  define qe where "qe = merged qb (spread_if (fld u ''id'' = JStr b) (JObj u))"
  define es' where "es' = remaining b es"
  have ok: "editors_ok es'" using st(4) by (simp add: es'_def remaining_def editors_ok_filter)
  have id: "fld qe ''id'' = JStr b" using assms(3) by (auto simp: qe_def spread_if_def)
  note rem = removeFromArr_editors [OF st(1,4) id, folded es'_def]
  have keys: "rmap editor_key es' = Inr (map server_key es')"
    by (rule rmap_total) (use ok in \<open>auto dest: editors_ok_obj\<close>)
  have queries: "\<exists>r. rfilter (\<lambda>(k, query). rbind (getprop query ''sqlEditorId'') (\<lambda>i. Inr (member_id (map server_key es') i))) qs = Inr r"
  proof -
    have "rfilter (\<lambda>(k, query). rbind (getprop query ''sqlEditorId'') (\<lambda>i. Inr (member_id (map server_key es') i))) qs
        = Inr (filter (\<lambda>(k, query). member_id (map server_key es') (oprop query ''sqlEditorId'')) qs)"
      by (rule rfilter_total) (use q(2) in \<open>auto simp: objects_def\<close>)
    then show ?thesis by blast
  qed
  have tables: "\<exists>r. rfilter (\<lambda>table. rbind (getprop table ''queryEditorId'') (\<lambda>i. Inr (\<not> strict_eq i key))) ts = Inr r" for key
  proof -
    have "rfilter (\<lambda>table. rbind (getprop table ''queryEditorId'') (\<lambda>i. Inr (\<not> strict_eq i key))) ts
        = Inr (filter (\<lambda>table. \<not> strict_eq (oprop table ''queryEditorId'') key) ts)"
      by (rule rfilter_total) (use q(4) in \<open>auto simp: objects_def\<close>)
    then show ?thesis by blast
  qed
  obtain r1 where r1: "rfilter (\<lambda>(k, query). rbind (getprop query ''sqlEditorId'') (\<lambda>i. Inr (member_id (map server_key es') i))) qs = Inr r1"
    using queries by blast
  obtain r2 where r2: "rfilter (\<lambda>table. rbind (getprop table ''queryEditorId'') (\<lambda>i. Inr (\<not> strict_eq i (server_key (JObj qe))))) ts = Inr r2"
    using tables by blast
  have hist: "(if filter (member_id (map server_key es')) h = [] \<and> es' \<noteq> [] then last_editor_ids es'
      else Inr (filter (member_id (map server_key es')) h)) = Inr (remaining_history es' h)"
    using last_editor_ids_eq [OF ok] by (simp add: remaining_history_def Let_def)
  have unsaved: "obj_assign [] (spread_if (\<not> strict_eq (JStr b) (fld u ''id'')) (JObj u)) = remaining_unsaved b u"
    by (simp add: spread_if_def remaining_unsaved_def obj_assign_def)
  show ?thesis
    using that rem keys r1 r2 hist unsaved ok strict_eq_JStr(2) [of b "fld u ''id''"]
    by (simp add: remove_query_editor_def st q assms(3) Let_def nullish_def tabs_def qe_def [symmetric] es'_def [symmetric])
qed

lemma editor_of_remaining: "j \<noteq> b \<Longrightarrow> editor_of (remaining b es) j = editor_of es j"
proof -
  assume "j \<noteq> b"
  then have "find (\<lambda>x. oprop x ''id'' = JStr j) (remaining b es) = find (\<lambda>x. oprop x ''id'' = JStr j) es"
    by (induction es) (auto simp: remaining_def)
  then show ?thesis by (simp add: editor_of_def)
qed

lemma shown_remaining:
  assumes "tabs state es h u" and "tabs state' (remaining b es) h' (remaining_unsaved b u)"
    and "JStr j \<in> set (tab_ids es)" and "j \<noteq> b"
  shows "shown state' j k = shown state j k"
proof -
  have "editor_of (remaining b es) j = editor_of es j" using assms(4) by (rule editor_of_remaining)
  moreover have "JStr j \<in> set (tab_ids (remaining b es))"
    using assms(3,4) by (force simp: tab_ids_def remaining_def)
  ultimately show ?thesis
    using shown_eq [OF assms(2)] shown_eq [OF assms(1,3)] assms(4)
    by (auto simp: remaining_unsaved_def keys_assign)
qed

lemma server_keys_ids:
  assumes "\<forall>x\<in>set es. nullish (oprop x ''tabViewId'')"
  shows "map server_key es = tab_ids es"
  using assms by (induction es) (auto simp: server_key_def js_coalesce_def tab_ids_def)


section \<open>Lost edits\<close>

text \<open>
  Closing another tab can lose the edits of the active one. The history holds editor ids, but
  is filtered by the ids of the server: when the editors are known to the server under other ids,
  closing tab \<open>b\<close> makes the last tab \<open>c\<close> active while the unsaved edits still belong to \<open>a\<close>, and
  the next edit of \<open>c\<close> discards them: \<open>a\<close> shows the stored editor again.
\<close>

lemma remove_query_editor_loses_edits:
  assumes "tabs state es h u" and "stored state" and "JObj qb \<in> set es" and "fld qb ''id'' = JStr b"
    and "\<forall>x\<in>set es. server_key x \<notin> set h" and "oprop (last es) ''id'' = JStr c"
    and "JStr a \<in> set (tab_ids es)" and "fld u ''id'' = JStr a" and "distinct [a, b, c]"
    and "editor_update act = (JObj qc, updated, silent)" and "fld qc ''id'' = JStr c"
  shows "\<exists>state1 state2. sqlLabReducer env state (TabAction (RemoveQueryEditor (JObj qb))) = Inr state1 \<and>
     last_tab state1 = Inr (JStr c) \<and> sqlLabReducer env state1 (FieldAction act) = Inr state2 \<and>
     (\<forall>k. shown state1 a k = shown state a k) \<and> (\<forall>k. shown state2 a k = fld (editor_of es a) k)"
proof -
  let ?es = "remaining b es"
  obtain state1 where s: "sqlLabReducer env state (TabAction (RemoveQueryEditor (JObj qb))) = Inr state1"
    "tabs state1 ?es (remaining_history ?es h) (remaining_unsaved b u)"
    using remove_query_editor_tabs [OF assms(1,2,4)] by blast
  have ne: "es \<noteq> []" using assms(3) by auto
  have last: "?es \<noteq> []" "last ?es = last es"
    using filter_last [OF ne, of "\<lambda>x. oprop x ''id'' \<noteq> JStr b"] assms(6,9) by (auto simp: remaining_def)
  have "filter (member_id (map server_key ?es)) h = []"
    using assms(5) by (auto simp: filter_empty_conv member_id_def list_ex_iff remaining_def dest: strict_eq_imp_eq)
  then have h1: "remaining_history ?es h = [JStr c]"
    using last assms(6) by (simp add: remaining_history_def)
  have u1: "remaining_unsaved b u = obj_assign [] u" using assms(8,9) by (simp add: remaining_unsaved_def)
  have t1: "tabs state1 ?es [JStr c] (obj_assign [] u)" using s(2) h1 u1 by simp
  have "c \<noteq> []" using assms(1,6) ne editors_ok_obj [of es "last es"] by (auto simp: tabs_def)
  note e = edit_query_editor_eq [OF t1 assms(11) this, of env updated silent]
  let ?u = "edited_unsaved env (obj_assign [] u) c updated silent"
  let ?s = "merged state1 [(''unsavedQueryEditor'', JObj ?u)]"
  have a: "JStr a \<in> set (tab_ids ?es)" using assms(7,9) by (force simp: tab_ids_def remaining_def)
  have "fld ?u ''id'' = JStr c" using edited_unsaved_id editor_update_fields [OF assms(10)] by blast
  then have "shown ?s a k = fld (editor_of ?es a) k" for k
    using shown_eq [OF tabs_edit_active [OF t1] a] assms(9) by auto
  moreover have "editor_of ?es a = editor_of es a" using assms(9) by (simp add: editor_of_remaining)
  ultimately show ?thesis
    using s(1) e assms(9,10) last_tab_eq [OF t1] shown_remaining [OF assms(1) s(2) assms(7)]
    by (intro exI [of _ state1] exI [of _ ?s]) simp
qed

lemma add_query_editor_tabs:
  assumes "tabs state es h u" and "fld n ''id'' = JStr m" and "m \<noteq> []" and "JStr m \<notin> set (tab_ids es)"
  obtains state' es' where "sqlLabReducer env state (TabAction (AddQueryEditor (JObj n))) = Inr state'"
    "tabs state' es' (h @ [JStr m]) u" "tab_ids es' = tab_ids es @ [JStr m]"
    "\<And>j k. JStr j \<in> set (tab_ids es) \<Longrightarrow> fld (editor_of es' j) k = shown state j k"
proof -
  define es1 where "es1 = altered (fld u ''id'') (obj_assign [] u) es"
  note p = merge_unsaved_shown [OF assms(1), folded es1_def]
  define new where "new = obj_put ''updatedAt'' (JNum (sq_now env)) (obj_assign [] n)"
  have id: "fld (with_id (sq_nanoid env 0) new) ''id'' = JStr m"
    using assms(2,3) by (simp add: with_id_def new_def)
  let ?es = "es1 @ [JObj (with_id (sq_nanoid env 0) new)]"
  have ids: "tab_ids ?es = tab_ids es @ [JStr m]" using id p(3) by (simp add: tab_ids_def)
  have ok: "editors_ok ?es"
    using p(2) id assms(3,4) ids p(3) by (auto simp: editors_ok_def)
  let ?s = "with_prop (with_prop (with_prop state ''queryEditors'' (JArr es1)) ''tabHistory'' (JArr (h @ [JStr m])))
      ''queryEditors'' (JArr ?es)"
  have "sqlLabReducer env state (TabAction (AddQueryEditor (JObj n))) = Inr ?s"
    using assms(1,2) p(1) by (simp add: add_query_editor_def addToArr_def tabs_def new_def Let_def)
  moreover have "tabs ?s ?es (h @ [JStr m]) u" using ok assms(1) by (simp add: tabs_def)
  moreover have "fld (editor_of ?es j) k = shown state j k" if "JStr j \<in> set (tab_ids es)" for j k
  proof -
    have "find (\<lambda>x. oprop x ''id'' = JStr j) (es1 @ ys) = find (\<lambda>x. oprop x ''id'' = JStr j) es1" for ys
      using that unfolding p(3) [symmetric] by (induction es1) (auto simp: tab_ids_def)
    then have "editor_of ?es j = editor_of es1 j" by (simp add: editor_of_def)
    then show ?thesis using p(4) [OF that] by simp
  qed
  ultimately show ?thesis using that ids by blast
qed

text \<open>
  Opening a tab keeps the unsaved edits of the tab that was active, and they hide later edits
  of it: an edit of that tab is stored, but every field that the old unsaved edits name is still
  shown with its old value.
\<close>

lemma add_query_editor_shadows_edits:
  assumes "tabs state es h u" and "fld n ''id'' = JStr m" and "m \<noteq> []" and "JStr m \<notin> set (tab_ids es)"
    and "fld u ''id'' = JStr i" and "JStr i \<in> set (tab_ids es)" and "k \<in> fst ` set u"
    and "editor_update act = (JObj qe, updated, silent)" and "fld qe ''id'' = JStr i"
  shows "\<exists>state1 state2. sqlLabReducer env state (TabAction (AddQueryEditor (JObj n))) = Inr state1 \<and>
     sqlLabReducer env state1 (FieldAction act) = Inr state2 \<and> shown state2 i k = shown state i k"
proof -
  obtain state1 es1 where s: "sqlLabReducer env state (TabAction (AddQueryEditor (JObj n))) = Inr state1"
    "tabs state1 es1 (h @ [JStr m]) u" "tab_ids es1 = tab_ids es @ [JStr m]"
    using add_query_editor_tabs [OF assms(1-4)] by metis
  have im: "i \<noteq> m" using assms(4,6) by auto
  have ok: "editors_ok es1" using s(2) by (simp add: tabs_def)
  have "i \<noteq> []" using assms(1,6) by (auto simp: tab_ids_def tabs_def dest: editors_ok_obj)
  note e = edit_query_editor_eq [OF s(2) assms(9) this, of env updated silent]
  let ?es = "altered (JStr i) updated es1"
  let ?s = "merged state1 [(''queryEditors'', JArr ?es)]"
  have "''id'' \<notin> fst ` set updated \<or> fld updated ''id'' = JStr i" using editor_update_fields [OF assms(8)] by simp
  note p = altered_props [OF ok this]
  have "shown ?s i k = fld u k"
    using shown_eq [OF tabs_edit_other [OF s(2) p(1)], of i k] s(3) p(2) assms(5,6,7) by simp
  moreover have "shown state i k = fld u k" using shown_eq [OF assms(1,6), of k] assms(5,7) by simp
  ultimately show ?thesis
    using s(1) e im assms(8) by (intro exI [of _ state1] exI [of _ ?s]) simp
qed

end
