(* ===== verification/SqlLabQueries.thy ===== *)
theory SqlLabQueries
  imports SqlLabTabs
begin

text \<open>
  The queries, tables and tab names of SQL Lab: polling never touches a query that is settled,
  what a late success does to a stopped query, tables are merged by key, a new tab gets a fresh
  name, and stepping through the tabs reaches each of them.
\<close>

section \<open>Polling\<close>

text \<open>
  What the reducer relies on: an object with a state is not shallowly equal to what \<open>omit\<close> makes
  of \<open>undefined\<close>.
\<close>

definition shallow_ok :: "sql_env \<Rightarrow> bool" where
  "shallow_ok env \<longleftrightarrow>
     (\<forall>ps. ''state'' \<in> fst ` set ps \<longrightarrow>
        \<not> sq_shallowEqual env (lo_omit (sq_lodash env) (JObj ps) [''extra'']) (lo_omit (sq_lodash env) JUndef [''extra'']))"

definition pollable :: "jsval obj \<Rightarrow> bool" where
  "pollable alt \<longleftrightarrow> (\<forall>(i, q)\<in>set alt. \<exists>ps s. q = JObj ps \<and> fld ps ''changed_on'' = JStr s)"

text \<open>The polled query is the old one or the old one overlaid with the answer of the server.\<close>

definition polled_from :: "jsval \<Rightarrow> jsval obj \<Rightarrow> jsval obj \<Rightarrow> bool" where
  "polled_from queries alt nq \<longleftrightarrow>
     (\<forall>j. fld nq j = oprop queries j \<or>
        (\<exists>ch. (j, ch) \<in> set alt \<and> \<not> settled (oprop queries j) \<and> fld nq j = JObj (refreshed_query (oprop queries j) ch)))"

lemma state_of_refreshed:
  "fld (refreshed_query old ch) ''state'' = refreshed_state (oprop old ''state'') (oprop ch ''state'')"
  by (simp add: refreshed_query_def Let_def)

lemma refreshed_has_state: "''state'' \<in> fst ` set (refreshed_query old ch)"
  by (simp add: refreshed_query_def Let_def)

lemma present: "fld qs j \<noteq> JUndef \<Longrightarrow> has_own (JObj qs) j"
  using fld_absent [of j qs] by auto

lemma settled_present: "settled (fld qs j) \<Longrightarrow> has_own (JObj qs) j"
  by (rule present) (auto simp: settled_def)

lemma present_object:
  assumes "has_own (JObj qs) i" and "objects (map snd qs)"
  shows "\<exists>os. fld qs i = JObj os"
proof -
  obtain v where "map_of qs i = Some v"
    using assms(1) by (cases "map_of qs i") (simp_all add: map_of_eq_None_iff)
  then have "fld qs i = v" "v \<in> set (map snd qs)" by (force simp: oprop.simps(1) dest: map_of_SomeD)+
  then show ?thesis using assms(2) by (auto simp: objects_def)
qed

lemma num_gt_mono: "\<not> num_gt a b \<Longrightarrow> num_gt c b \<Longrightarrow> \<not> num_gt a c"
  by (cases a; cases b; cases c) auto

lemma refresh_query_step:
  assumes "shallow_ok env" and "objects (map snd qs)" and "q = JObj ps" and "fld ps ''changed_on'' = JStr s"
    and "polled_from (JObj qs) alt nq" and "(i, q) \<in> set alt" and "\<not> num_gt t0 (to_number lu)"
  shows "\<exists>nq' change' lu'. refresh_query env (JObj qs) (i, q) (nq, change, lu) = Inr (nq', change', lu') \<and>
     polled_from (JObj qs) alt nq' \<and> \<not> num_gt t0 (to_number lu')"
proof -
  let ?old = "oprop (JObj qs) i" and ?lo = "sq_lodash env"
  let ?r = "JObj (refreshed_query ?old q)"
  have own: "has_own (JObj qs) i \<Longrightarrow> \<exists>os. ?old = JObj os" using assms(2) present_object by blast
  show ?thesis
  proof (cases "has_own (JObj qs) i \<and> settled ?old")
    case True
    then show ?thesis
      using own assms(5,7) by (auto simp: refresh_query_def Let_def nullish_def)
  next
    case False
    then have ns: "\<not> settled ?old" using settled_present by blast
    have keep: "polled_from (JObj qs) alt (obj_put i ?old nq)"
      using assms(5) by (auto simp: polled_from_def)
    have new: "polled_from (JObj qs) alt (obj_put i ?r nq)"
      using assms(5,6) ns by (auto simp: polled_from_def)
    let ?ts = "sq_date_parse env (normalizeTimestamp s)"
    let ?lu = "if num_gt ?ts (to_number lu) then JNum ?ts else lu"
    have lu: "\<not> num_gt t0 (to_number ?lu)" using num_gt_mono [OF assms(7), of ?ts] assms(7) by simp
    have extra: "\<exists>e. getprop ?old ''extra'' = Inr e"
      if "sq_shallowEqual env (lo_omit ?lo ?r [''extra'']) (lo_omit ?lo ?old [''extra''])"
    proof -
      have "\<not> sq_shallowEqual env (lo_omit ?lo ?r [''extra'']) (lo_omit ?lo JUndef [''extra''])"
        using assms(1) refreshed_has_state unfolding shallow_ok_def by blast
      then have "?old \<noteq> JUndef" using that by metis
      then obtain os where "?old = JObj os" using own present by blast
      then show ?thesis by simp
    qed
    have "nullish ?old \<Longrightarrow> \<not> has_own (JObj qs) i" using own by (auto simp: nullish_def simp del: has_own.simps)
    then show ?thesis
      using False keep new lu extra assms(3,4)
      by (cases "sq_shallowEqual env (lo_omit ?lo ?r [''extra'']) (lo_omit ?lo ?old [''extra''])")
         (auto simp: refresh_query_def Let_def)
  qed
qed

lemma refresh_fold:
  assumes "shallow_ok env" and "objects (map snd qs)" and "pollable alt" and "set rest \<subseteq> set alt"
    and "polled_from (JObj qs) alt nq" and "\<not> num_gt t0 (to_number lu)"
  shows "\<exists>nq' change' lu'. rfold (refresh_query env (JObj qs)) rest (nq, change, lu) = Inr (nq', change', lu') \<and>
     polled_from (JObj qs) alt nq' \<and> \<not> num_gt t0 (to_number lu')"
  using assms(4,5,6)
proof (induction rest arbitrary: nq change lu)
  case (Cons e rest)
  obtain i q where e: "e = (i, q)" by (cases e)
  then obtain ps s where q: "q = JObj ps" "fld ps ''changed_on'' = JStr s"
    using Cons.prems(1) assms(3) by (force simp: pollable_def)
  obtain nq1 change1 lu1 where "refresh_query env (JObj qs) e (nq, change, lu) = Inr (nq1, change1, lu1)"
    "polled_from (JObj qs) alt nq1" "\<not> num_gt t0 (to_number lu1)"
    using refresh_query_step [OF assms(1,2) q Cons.prems(2) _ Cons.prems(3), of i change] Cons.prems(1) e by auto
  then show ?case using Cons.IH [of nq1 lu1 change1] Cons.prems(1) by auto
qed auto

text \<open>
  C12. Polling never revives a settled query. Refreshing the queries with an answer of the server
  succeeds; a query that is stopped or failed is left exactly as it is, and so is one that the
  answer does not mention; any other query is the old one or the old one overlaid with the answer,
  with the state of the answer unless it is a success that the client already is fetching,
  running or showing; and the time of the last update never goes back.
\<close>

theorem refresh_queries_spec:
  assumes "shallow_ok env" and "fld state ''queries'' = JObj qs" and "objects (map snd qs)" and "pollable alt"
  shows "\<exists>state' qs'. sqlLabReducer env state (QueryAction (RefreshQueries alt)) = Inr state' \<and>
     fld state' ''queries'' = JObj qs' \<and>
     (\<forall>i. oprop (fld qs i) ''state'' \<in> {JStr ''stopped'', JStr ''failed''} \<or> i \<notin> fst ` set alt \<longrightarrow> fld qs' i = fld qs i) \<and>
     (\<forall>i. fld qs' i \<noteq> fld qs i \<longrightarrow>
        (\<exists>ch. (i, ch) \<in> set alt \<and> fld qs' i = JObj (refreshed_query (fld qs i) ch) \<and>
           oprop (fld qs' i) ''state'' = refreshed_state (oprop (fld qs i) ''state'') (oprop ch ''state''))) \<and>
     \<not> num_gt (to_number (fld state ''queriesLastUpdate'')) (to_number (fld state' ''queriesLastUpdate'')) \<and>
     (\<forall>k. k \<noteq> ''queries'' \<and> k \<noteq> ''queriesLastUpdate'' \<longrightarrow> fld state' k = fld state k)"
proof -
  let ?lu = "fld state ''queriesLastUpdate''"
  have "polled_from (JObj qs) alt (obj_assign [] qs)" by (simp add: polled_from_def)
  moreover have "\<not> num_gt (to_number ?lu) (to_number ?lu)" by (cases "to_number ?lu") auto
  ultimately obtain nq change lu where
    f: "rfold (refresh_query env (JObj qs)) alt (obj_assign [] qs, False, ?lu) = Inr (nq, change, lu)"
    and p: "polled_from (JObj qs) alt nq" and l: "\<not> num_gt (to_number ?lu) (to_number lu)"
    using refresh_fold [OF assms(1,3,4) subset_refl] by blast
  define qs' where "qs' = (if change then nq else qs)"
  have p': "polled_from (JObj qs) alt qs'" using p by (simp add: qs'_def polled_from_def)
  let ?s = "merged state [(''queries'', JObj qs'), (''queriesLastUpdate'', lu)]"
  have r: "sqlLabReducer env state (QueryAction (RefreshQueries alt)) = Inr ?s"
    using f by (simp add: refresh_queries_def assms(2) nullish_def Let_def qs'_def)
  have "\<forall>i. settled (fld qs i) \<or> i \<notin> fst ` set alt \<longrightarrow> fld qs' i = fld qs i"
    using p' by (force simp: polled_from_def)
  then have same: "\<forall>i. oprop (fld qs i) ''state'' \<in> {JStr ''stopped'', JStr ''failed''} \<or> i \<notin> fst ` set alt \<longrightarrow>
      fld qs' i = fld qs i" unfolding settled_def .
  have changed: "\<forall>i. fld qs' i \<noteq> fld qs i \<longrightarrow>
      (\<exists>ch. (i, ch) \<in> set alt \<and> fld qs' i = JObj (refreshed_query (fld qs i) ch) \<and>
         oprop (fld qs' i) ''state'' = refreshed_state (oprop (fld qs i) ''state'') (oprop ch ''state''))"
    using p' state_of_refreshed by (fastforce simp: polled_from_def)
  show ?thesis
    by (rule exI [of _ ?s], rule exI [of _ qs'], intro conjI) (use r l same changed in simp_all)
qed

section \<open>Stopped queries\<close>

lemma fld_alterInObject:
  assumes "fld query ''id'' = JStr i"
  shows "oprop (fld (alterInObject state key query alts) key) i =
     JObj (obj_assign (obj_assign [] (own_props (fld (own_props (fld state key)) i))) alts)"
  using assms by (simp add: alterInObject_def Let_def)

text \<open>
  A stopped query comes back to life. After a query has been stopped, a late success of that
  query, taken from the store, overwrites its state, because the guard compares with a
  \<open>QueryState.STOPPED\<close> that does not exist; a late failure is ignored as intended.
\<close>

lemma query_success_revives_stopped:
  assumes "fld query ''id'' = JStr i" and "fld rs ''status'' = JStr ''success''"
    and "oprop (fld (stop_query state query) ''queries'') i = JObj late" and "fld late ''id'' = JStr i"
  shows "sqlLabReducer env state (QueryAction (StopQuery query)) = Inr (stop_query state query) \<and>
     fld late ''state'' = JStr ''stopped'' \<and>
     (\<exists>state'. sqlLabReducer env (stop_query state query) (QueryAction (QuerySuccess late (JObj rs))) = Inr state' \<and>
        oprop (oprop (fld state' ''queries'') i) ''state'' = JStr ''success'') \<and>
     sqlLabReducer env (stop_query state query) (QueryAction (QueryFailed late msg link errors)) =
       Inr (stop_query state query)"
proof -
  have "late = obj_assign (obj_assign [] (own_props (fld (own_props (fld state ''queries'')) i)))
      [(''state'', JStr ''stopped''), (''results'', JArr [])]"
    using fld_alterInObject [OF assms(1)] assms(3) by (simp add: stop_query_def)
  then have s: "fld late ''state'' = JStr ''stopped''" by (simp add: oprop_assign)
  let ?stopped = "stop_query state query"
  define alts where "alts = [(''endDttm'', JNum (sq_now env)), (''progress'', JInt 100), (''results'', JObj rs),
      (''rows'', js_or (oprop (fld rs ''query'') ''rows'') (JInt 0)), (''state'', JStr ''success''),
      (''executedSql'', oprop (fld rs ''query'') ''executedSql''),
      (''limitingFactor'', oprop (fld rs ''query'') ''limitingFactor''),
      (''tempSchema'', oprop (fld rs ''query'') ''tempSchema''), (''tempTable'', oprop (fld rs ''query'') ''tempTable''),
      (''errorMessage'', JNull), (''cached'', JBool False)]"
  have st: "fld (if truthy r then obj_put ''resultsKey'' r alts else alts) ''state'' = JStr ''success''" for r
    by (simp add: alts_def)
  then have key: "''state'' \<in> fst ` set (if truthy r then obj_put ''resultsKey'' r alts else alts)" for r
    using fld_present by blast
  have "sqlLabReducer env ?stopped (QueryAction (QuerySuccess late (JObj rs))) =
      Inr (alterInObject ?stopped ''queries'' late
        (if truthy (oprop (fld rs ''query'') ''resultsKey'')
         then obj_put ''resultsKey'' (oprop (fld rs ''query'') ''resultsKey'') alts else alts))"
    using s assms(2) by (simp add: query_success_def Let_def alts_def)
  moreover have "oprop (oprop (fld (alterInObject ?stopped ''queries'' late
      (if truthy r then obj_put ''resultsKey'' r alts else alts)) ''queries'') i) ''state'' = JStr ''success''" for r
    using fld_alterInObject [OF assms(4)] st [of r] key [of r] by (simp add: oprop_assign)
  ultimately show ?thesis using s by (simp add: query_failed_def)
qed

section \<open>Tab names\<close>

lemma untitled_number_show: "untitled_number (Some (untitledQuery @ show_nat n)) = Some n"
  by (simp add: untitled_number_def show_nat_digits)

lemma fold_max_ge: "x \<in> set (n # ns) \<Longrightarrow> x \<le> fold max ns (n :: nat)"
  by (simp add: Max.set_eq_fold [symmetric])

text \<open>
  A new tab gets a name of its own: with the formatting of untranslated texts, the name of a new
  tab is \<open>Untitled Query\<close> with a number, and no open tab has that name.
\<close>

lemma newQueryTabName_fresh:
  assumes "\<And>s. t s [] = s" and "\<And>s n. t ''%s%s'' [JStr s, JInt n] = s @ show_int n"
  shows "(\<exists>n. newQueryTabName t names = untitledQuery @ show_nat n) \<and> Some (newQueryTabName t names) \<notin> set names"
proof (cases "List.map_filter untitled_number names")
  case Nil
  then have none: "x \<in> set names \<Longrightarrow> untitled_number x = None" for x
    by (auto simp: map_filter_def filter_empty_conv)
  have "show_nat 1 = ''1''" by code_simp
  then have "newQueryTabName t names = untitledQuery @ show_nat 1"
    using Nil assms(1) by (simp add: newQueryTabName_def del: One_nat_def)
  moreover have "Some (untitledQuery @ show_nat 1) \<notin> set names"
    using none untitled_number_show by fastforce
  ultimately show ?thesis by metis
next
  case (Cons n ns)
  let ?m = "Suc (fold max ns n)"
  have "show_int (int (fold max ns n) + 1) = show_nat ?m" by (simp add: show_int_def nat_add_distrib)
  then have name: "newQueryTabName t names = untitledQuery @ show_nat ?m"
    using assms(2) [of untitledQuery "int (fold max ns n) + 1"] unfolding newQueryTabName_def Cons list.case by metis
  have "Some (untitledQuery @ show_nat ?m) \<notin> set names"
  proof
    assume "Some (untitledQuery @ show_nat ?m) \<in> set names"
    then have "?m \<in> set (List.map_filter untitled_number names)"
      using untitled_number_show by (force simp: map_filter_def)
    then show False using fold_max_ge [of ?m n ns] Cons by simp
  qed
  then show ?thesis using name by metis
qed

section \<open>Tables\<close>

definition table_key :: "jsval \<Rightarrow> jsval list" where
  "table_key x = map (oprop x) [''dbId'', ''queryEditorId'', ''catalog'', ''schema'', ''name'']"

definition key_ok :: "jsval \<Rightarrow> bool" where
  "key_ok x \<longleftrightarrow> (\<forall>v\<in>set (table_key x). strict_eq v v)"

lemma same_table_key:
  assumes "key_ok (JObj t)" and "x = JObj ps"
  shows "same_table t x = Inr (table_key x = table_key (JObj t))"
proof -
  have "strict_eq (fld ps k) (fld t k) \<longleftrightarrow> fld ps k = fld t k"
    if "k \<in> set [''dbId'', ''queryEditorId'', ''catalog'', ''schema'', ''name'']" for k
    using assms(1) that by (auto simp: key_ok_def table_key_def dest: strict_eq_imp_eq)
  then show ?thesis using assms(2) by (simp add: same_table_def table_key_def)
qed

lemma rfind_index_total:
  "(\<And>x. x \<in> set xs \<Longrightarrow> P x = Inr (p x)) \<Longrightarrow> rfind_index P xs = Inr (find_index p xs)"
  by (induction xs) auto

lemma find_same_table:
  assumes "key_ok (JObj t)" and "objects ts"
  shows "rfind_index (same_table (obj_assign [] t)) ts = Inr (find_index (\<lambda>x. table_key x = table_key (JObj t)) ts)"
proof (rule rfind_index_total)
  fix x
  assume "x \<in> set ts"
  then obtain ps where "x = JObj ps" using assms(2) by (auto simp: objects_def)
  moreover have "table_key (JObj (obj_assign [] t)) = table_key (JObj t)" by (simp add: table_key_def)
  ultimately show "same_table (obj_assign [] t) x = Inr (table_key x = table_key (JObj t))"
    using same_table_key [of "obj_assign [] t" x] assms(1) by (simp add: key_ok_def)
qed

lemma table_key_assign:
  assumes "''dbId'' \<notin> fst ` set alts" "''queryEditorId'' \<notin> fst ` set alts" "''catalog'' \<notin> fst ` set alts"
    "''schema'' \<notin> fst ` set alts" "''name'' \<notin> fst ` set alts"
  shows "table_key (JObj (obj_assign ps alts)) = table_key (JObj ps)"
  using assms by (simp add: table_key_def oprop_assign)

lemma table_key_copy [simp]: "table_key (JObj (obj_assign [] ps)) = table_key (JObj ps)"
  by (simp add: table_key_def)

lemma table_key_preview [simp]: "table_key (JObj (obj_put ''dataPreviewQueryId'' v ps)) = table_key (JObj ps)"
  by (simp add: table_key_def)

lemma table_key_with_id [simp]: "table_key (JObj (with_id n ps)) = table_key (JObj ps)"
  by (simp add: with_id_def table_key_def)

lemma table_key_merged:
  "table_key (JObj ps) = table_key (JObj os) \<Longrightarrow> table_key (JObj (merged os ps)) = table_key (JObj ps)"
  by (simp add: table_key_def)

lemma altered_tables:
  assumes "fld s ''tables'' = JArr ts" and "objects ts"
  shows "\<exists>ts'. alterInArr s ''tables'' ob [(''dataPreviewQueryId'', v)] ''id'' = Inr (with_prop s ''tables'' (JArr ts')) \<and>
     map table_key ts' = map table_key ts \<and> objects ts'"
proof -
  define f where "f = (\<lambda>x. if strict_eq (fld ob ''id'') (oprop x ''id'')
      then JObj (obj_assign (obj_assign [] (own_props x)) [(''dataPreviewQueryId'', v)]) else x)"
  have obj: "\<exists>ps. x = JObj ps" if "x \<in> set ts" for x using assms(2) that by (simp add: objects_def)
  have "rmap (\<lambda>x. rbind (same_id ''id'' ob x) (\<lambda>b.
      Inr (if b then JObj (obj_assign (obj_assign [] (own_props x)) [(''dataPreviewQueryId'', v)]) else x))) ts = Inr (map f ts)"
  proof (rule rmap_total)
    fix x
    assume "x \<in> set ts"
    then obtain ps where "x = JObj ps" using obj by blast
    then show "rbind (same_id ''id'' ob x) (\<lambda>b. Inr (if b
        then JObj (obj_assign (obj_assign [] (own_props x)) [(''dataPreviewQueryId'', v)]) else x)) = Inr (f x)"
      by (simp add: f_def same_id_def)
  qed
  then have r: "alterInArr s ''tables'' ob [(''dataPreviewQueryId'', v)] ''id'' = Inr (with_prop s ''tables'' (JArr (map f ts)))"
    using assms(1) by (simp add: alterInArr_def)
  have fx: "table_key (f x) = table_key x \<and> (\<exists>ps. f x = JObj ps)" if "x \<in> set ts" for x
    using obj [OF that] by (auto simp: f_def table_key_assign)
  then have "map table_key (map f ts) = map table_key ts" "objects (map f ts)" by (simp_all add: objects_def)
  then show ?thesis using r by blast
qed

lemma merge_table_existing:
  assumes "fld state ''tables'' = JArr ts" and "objects ts" and "key_ok (JObj t)"
    and "table_key (JObj t) \<in> set (map table_key ts)"
  shows "\<exists>state' ts'. merge_table env state (JObj t) query prepend = Inr state' \<and> fld state' ''tables'' = JArr ts' \<and>
     objects ts' \<and> map table_key ts' = map table_key ts"
proof -
  let ?at = "obj_assign [] t"
  let ?opened = "if truthy (fld t ''expanded'') then [(''activeSouthPaneTab'', fld t ''id'')] else []"
  obtain k where i: "find_index (\<lambda>x. table_key x = table_key (JObj t)) ts = Some k"
    using assms(4) by (cases "find_index (\<lambda>x. table_key x = table_key (JObj t)) ts") (auto simp: find_index_None_iff)
  then have k: "k < length ts" "table_key (ts ! k) = table_key (JObj t)" using find_index_SomeD [OF i] by auto
  obtain os where old: "ts ! k = JObj os" using assms(2) k(1) unfolding objects_def by (meson nth_mem)
  define at1 where "at1 = (if truthy query then obj_put ''dataPreviewQueryId'' (oprop query ''id'') ?at else ?at)"
  define new where "new = JObj (obj_assign (merged os at1)
      (if truthy (fld os ''initialized'') then [(''id'', fld os ''id'')] else []))"
  have a: "table_key (JObj at1) = table_key (JObj os)" using k(2) old by (simp add: at1_def)
  have new: "table_key new = table_key (ts ! k)"
    unfolding new_def old by (subst table_key_assign) (auto simp: table_key_merged a)
  define ts' where "ts' = take k ts @ [new] @ drop (Suc k) ts"
  have "ts' = ts[k := new]" using k(1) by (simp add: ts'_def upd_conv_take_nth_drop)
  then have "map table_key ts' = map table_key ts" "objects ts'"
    using new k(1) assms(2) by (auto simp: map_update objects_def new_def list_update_same_conv dest!: subsetD [OF set_update_subset_insert])
  moreover have "merge_table env state (JObj t) query prepend = Inr (merged (with_prop state ''tables'' (JArr ts')) ?opened)"
    using find_same_table [OF assms(3,2)] i old assms(1) by (simp add: merge_table_def Let_def new_def at1_def ts'_def)
  moreover have "fld (merged (with_prop state ''tables'' (JArr ts')) ?opened) ''tables'' = JArr ts'" by simp
  ultimately show ?thesis by blast
qed

lemma merge_table_new:
  assumes "fld state ''tables'' = JArr ts" and "objects ts" and "key_ok (JObj t)"
    and "table_key (JObj t) \<notin> set (map table_key ts)"
  shows "\<exists>state' ts'. merge_table env state (JObj t) query prepend = Inr state' \<and> fld state' ''tables'' = JArr ts' \<and>
     objects ts' \<and> map table_key ts' = (if truthy prepend then table_key (JObj t) # map table_key ts
        else map table_key ts @ [table_key (JObj t)])"
proof -
  let ?at = "obj_put ''dataPreviewQueryId'' JNull (obj_assign [] t)"
  let ?opened = "if truthy (fld t ''expanded'') then [(''activeSouthPaneTab'', fld t ''id'')] else []"
  have i: "find_index (\<lambda>x. table_key x = table_key (JObj t)) ts = None"
    using assms(4) unfolding find_index_None_iff by (metis image_eqI list.set_map)
  define new where "new = JObj (with_id (sq_nanoid env 0) ?at)"
  define ts1 where "ts1 = (if truthy prepend then new # ts else ts @ [new])"
  define s1 where "s1 = merged (with_prop state ''tables'' (JArr ts1)) ?opened"
  have o1: "objects ts1" using assms(2) by (simp add: objects_def ts1_def new_def)
  have s1: "fld s1 ''tables'' = JArr ts1" by (simp add: s1_def)
  have k1: "map table_key ts1 = (if truthy prepend then table_key (JObj t) # map table_key ts
      else map table_key ts @ [table_key (JObj t)])" by (simp add: ts1_def new_def)
  have r: "merge_table env state (JObj t) query prepend =
      (if truthy query then alterInArr s1 ''tables'' ?at [(''dataPreviewQueryId'', oprop query ''id'')] ''id'' else Inr s1)"
    using find_same_table [OF assms(3,2)] i assms(1)
    by (simp add: merge_table_def Let_def addToArr_def s1_def ts1_def new_def)
  obtain ts2 where a: "alterInArr s1 ''tables'' ?at [(''dataPreviewQueryId'', oprop query ''id'')] ''id'' =
      Inr (with_prop s1 ''tables'' (JArr ts2))" "map table_key ts2 = map table_key ts1" "objects ts2"
    using altered_tables [OF s1 o1] by blast
  show ?thesis
  proof (cases "truthy query")
    case True
    then show ?thesis
      by (intro exI [of _ "with_prop s1 ''tables'' (JArr ts2)"] exI [of _ ts2]) (simp add: r a k1)
  next
    case False
    then show ?thesis by (intro exI [of _ s1] exI [of _ ts1]) (simp add: r s1 o1 k1)
  qed
qed

text \<open>
  Tables are kept by key. When a table is merged into tables that have different keys (database,
  tab, catalog, schema and name), the action succeeds and the keys stay different: a table
  whose key is there is updated in place, any other is added at the end, or in front when asked.
\<close>

lemma merge_table_keys:
  assumes "fld state ''tables'' = JArr ts" and "objects ts" and "distinct (map table_key ts)" and "key_ok (JObj t)"
  shows "\<exists>state' ts'. sqlLabReducer env state (TableAction (MergeTable (JObj t) query prepend)) = Inr state' \<and>
     fld state' ''tables'' = JArr ts' \<and> objects ts' \<and> distinct (map table_key ts') \<and>
     map table_key ts' =
       (if table_key (JObj t) \<in> set (map table_key ts) then map table_key ts
        else if truthy prepend then table_key (JObj t) # map table_key ts
        else map table_key ts @ [table_key (JObj t)])"
proof (cases "table_key (JObj t) \<in> set (map table_key ts)")
  case True
  then show ?thesis using merge_table_existing [OF assms(1,2,4)] assms(3) by fastforce
next
  case False
  then show ?thesis using merge_table_new [OF assms(1,2,4) False, of env query prepend] assms(3) by fastforce
qed

section \<open>Stepping through the tabs\<close>

text \<open>The keyboard shortcut: compute the action and apply it, \<open>m\<close> times.\<close>

fun switch_forward :: "sql_env \<Rightarrow> nat \<Rightarrow> jsval obj \<Rightarrow> jsval obj res" where
  "switch_forward env 0 state = Inr state"
| "switch_forward env (Suc m) state =
     rbind (rbind (switchQueryEditor state False) (sqlLabReducer env state)) (switch_forward env m)"

lemma switch_step:
  assumes "tabs state es h u" and "k < length es" and "h \<noteq> []" and "last h = oprop (es ! k) ''id''"
  shows "switchQueryEditor state False = Inr (TabAction (SetActiveQueryEditor (es ! (Suc k mod length es))))"
proof -
  have ok: "editors_ok es" and d: "distinct (tab_ids es)" using assms(1) by (simp_all add: tabs_def editors_ok_def)
  obtain s where s: "oprop (es ! k) ''id'' = JStr s" using editors_ok_obj [OF ok, of "es ! k"] assms(2) by auto
  have "rfind_index (\<lambda>qe. rbind (getprop qe ''id'') (\<lambda>i. Inr (strict_eq i (JStr s)))) es =
      Inr (find_index (\<lambda>x. oprop x ''id'' = JStr s) es)"
    by (rule rfind_index_total) (use ok in \<open>auto dest: editors_ok_obj\<close>)
  moreover have "find_index (\<lambda>x. oprop x ''id'' = JStr s) es = Some k"
  proof (rule find_index_SomeI)
    show "oprop (es ! j) ''id'' \<noteq> JStr s" if "j < k" for j
    proof -
      have "tab_ids es ! j \<noteq> tab_ids es ! k"
        using nth_eq_iff_index_eq [OF d, of j k] that assms(2) by (simp add: tab_ids_def)
      then show ?thesis using that assms(2) s by (simp add: tab_ids_def)
    qed
  qed (use assms(2) s in simp_all)
  moreover have "last_tab state = Inr (JStr s)" using last_tab_eq [OF assms(1)] assms(3,4) s by simp
  moreover have "nat ((int k + 1) mod int (length es)) = Suc k mod length es"
    by (simp add: nat_mod_as_int add.commute)
  ultimately show ?thesis
    using assms(1,2) by (auto simp: switchQueryEditor_def tabs_def Let_def add.commute)
qed

lemma switch_active:
  assumes "tabs state es h u" and "k < length es" and "h \<noteq> []" and "last h = oprop (es ! k) ''id''"
  shows "\<exists>state' es' h' u'. rbind (switchQueryEditor state False) (sqlLabReducer env state) = Inr state' \<and>
     tabs state' es' h' u' \<and> tab_ids es' = tab_ids es \<and> h' \<noteq> [] \<and> last h' = tab_ids es ! (Suc k mod length es) \<and>
     (\<forall>j f. JStr j \<in> set (tab_ids es) \<longrightarrow> shown state' j f = shown state j f)"
proof -
  let ?n = "Suc k mod length es"
  have ok: "editors_ok es" using assms(1) by (simp add: tabs_def)
  have n: "?n < length es" using assms(2) by (intro mod_less_divisor) auto
  then obtain qe i where q: "es ! ?n = JObj qe" "fld qe ''id'' = JStr i" "i \<noteq> []"
    using editors_ok_obj [OF ok nth_mem] by blast
  have act: "rbind (switchQueryEditor state False) (sqlLabReducer env state) =
      sqlLabReducer env state (TabAction (SetActiveQueryEditor (JObj qe)))"
    using switch_step [OF assms] q(1) by simp
  have id: "tab_ids es ! ?n = JStr i" using n q by (simp add: tab_ids_def)
  show ?thesis
  proof (cases "last h = JStr i")
    case True
    have "rmap (\<lambda>qe. getprop qe ''id'') es = Inr (tab_ids es)" by (rule rmap_ids [OF ok])
    then have "sqlLabReducer env state (TabAction (SetActiveQueryEditor (JObj qe))) = Inr state"
      using assms(1,3) True q(2) last_tab_eq [OF assms(1)] by (simp add: set_active_query_editor_def tabs_def)
    then show ?thesis using act assms(1,3) True id by metis
  next
    case False
    have "JObj qe \<in> set es" using n q(1) by (metis nth_mem)
    with set_active_tabs [OF assms(1) this q(2), of env] False
    obtain state' es' where "sqlLabReducer env state (TabAction (SetActiveQueryEditor (JObj qe))) = Inr state'"
      "tabs state' es' (h @ [JStr i]) []" "tab_ids es' = tab_ids es"
      "\<forall>j f. JStr j \<in> set (tab_ids es) \<longrightarrow> shown state' j f = shown state j f" by blast
    then show ?thesis using act id by (metis last_snoc snoc_eq_iff_butlast)
  qed
qed

text \<open>
  C39. Every tab can be reached by stepping. Starting at the \<open>k\<close>-th of the open tabs, stepping forward
  \<open>m\<close> times always succeeds and makes tab \<open>(k + m) mod n\<close> active, so each of the \<open>n\<close> tabs becomes
  active within \<open>n\<close> steps; the open tabs and everything they show stay the same.
\<close>

theorem switchQueryEditor_reaches:
  assumes "tabs state es h u" and "k < length es" and "h \<noteq> []" and "last h = oprop (es ! k) ''id''"
  shows "\<exists>state' es' h' u'. switch_forward env m state = Inr state' \<and> tabs state' es' h' u' \<and>
     tab_ids es' = tab_ids es \<and> h' \<noteq> [] \<and> last h' = tab_ids es ! ((k + m) mod length es) \<and>
     (\<forall>j f. JStr j \<in> set (tab_ids es) \<longrightarrow> shown state' j f = shown state j f)"
  using assms
proof (induction m arbitrary: state es h u k)
  case 0
  then show ?case by (intro exI [of _ state] exI [of _ es] exI [of _ h] exI [of _ u]) (simp add: tab_ids_def)
next
  case (Suc m)
  let ?n = "Suc k mod length es"
  obtain state1 es1 h1 u1 where s: "rbind (switchQueryEditor state False) (sqlLabReducer env state) = Inr state1"
    "tabs state1 es1 h1 u1" "tab_ids es1 = tab_ids es" "h1 \<noteq> []" "last h1 = tab_ids es ! ?n"
    "\<forall>j f. JStr j \<in> set (tab_ids es) \<longrightarrow> shown state1 j f = shown state j f"
    using switch_active [OF Suc.prems, of env] by blast
  have len: "length es1 = length es" using s(3) by (metis length_map tab_ids_def)
  have n: "?n < length es1" unfolding len using Suc.prems(2) by (intro mod_less_divisor) auto
  have "last h1 = oprop (es1 ! ?n) ''id''" using s(3,5) n by (metis nth_map tab_ids_def)
  from Suc.IH [OF s(2) n s(4) this] obtain state2 es2 h2 u2 where t: "switch_forward env m state1 = Inr state2"
    "tabs state2 es2 h2 u2" "tab_ids es2 = tab_ids es1" "h2 \<noteq> []" "last h2 = tab_ids es1 ! ((?n + m) mod length es1)"
    "\<forall>j f. JStr j \<in> set (tab_ids es1) \<longrightarrow> shown state2 j f = shown state1 j f"
    by blast
  have "(?n + m) mod length es1 = (k + Suc m) mod length es" using len by (simp add: mod_add_left_eq)
  then show ?case using s t by auto
qed

end
