(* ===== verification/SqlLabWitnesses.thy ===== *)
theory SqlLabWitnesses
  imports SqlLabQueries
begin

text \<open>Three tabs with unsaved edits in the first, and what the theorems on SQL Lab say of them.\<close>

definition omit1 :: "jsval \<Rightarrow> string list \<Rightarrow> jsval" where
  "omit1 v ks = JObj (filter (\<lambda>(k, _). k \<notin> set ks) (own_props v))"

definition t1 :: "string \<Rightarrow> jsval list \<Rightarrow> string" where
  "t1 s args = (case args of [a, b] \<Rightarrow> to_str a @ to_str b | _ \<Rightarrow> s)"

definition env1 :: sql_env where
  "env1 = \<lparr>sq_now = Fin 7, sq_nanoid = show_nat, sq_t = t1, sq_date_parse = (\<lambda>s. Fin 1),
     sq_lodash = \<lparr>lo_isEqual = (=), lo_omitBy = (\<lambda>v p. v), lo_isEqualWith = (\<lambda>a b p. a = b), lo_omit = omit1\<rparr>,
     sq_shallowEqual = (=)\<rparr>"

definition editor1 :: "jsval \<Rightarrow> string \<Rightarrow> jsval obj" where
  "editor1 v i = [(''id'', JStr i), (''tabViewId'', v), (''sql'', JStr ''old'')]"

definition editors1 :: "jsval \<Rightarrow> jsval list" where
  "editors1 v = map (\<lambda>i. JObj (editor1 v i)) [''a'', ''b'', ''c'']"

definition unsaved1 :: "jsval obj" where
  "unsaved1 = [(''id'', JStr ''a''), (''sql'', JStr ''new'')]"

definition queries1 :: "jsval obj" where
  "queries1 = [(''p'', JObj [(''id'', JStr ''p''), (''state'', JStr ''running'')]),
     (''q'', JObj [(''id'', JStr ''q''), (''state'', JStr ''stopped'')])]"

definition table1 :: "jsval obj" where
  "table1 = [(''id'', JStr ''t''), (''dbId'', JInt 1), (''name'', JStr ''t'')]"

definition sql1 :: "jsval \<Rightarrow> jsval obj" where
  "sql1 v = [(''queryEditors'', JArr (editors1 v)), (''tabHistory'', JArr [JStr ''a'']),
     (''unsavedQueryEditor'', JObj unsaved1), (''queries'', JObj queries1), (''tables'', JArr [JObj table1]),
     (''queriesLastUpdate'', JInt 0)]"

lemma ids1 [simp]: "tab_ids (editors1 v) = [JStr ''a'', JStr ''b'', JStr ''c'']"
  by (simp add: tab_ids_def editors1_def editor1_def)

lemma sql_tabs1: "tabs (sql1 v) (editors1 v) [JStr ''a''] unsaved1"
  by (simp add: tabs_def sql1_def editors_ok_def) (simp add: editors1_def editor1_def)

lemma stored1: "stored (sql1 v)"
  by (simp add: stored_def sql1_def objects_def queries1_def)

lemma unsaved_active1: "unsaved_active [JStr ''a''] unsaved1"
  by (simp add: unsaved_active_def unsaved1_def)

lemma editor_of1 [simp]: "editor_of (editors1 v) ''a'' = editor1 v ''a''" "editor_of (editors1 v) ''b'' = editor1 v ''b''"
  by (simp_all add: editor_of_def editors1_def editor1_def)

lemma shown1: "shown (sql1 v) ''a'' ''sql'' = JStr ''new''" "shown (sql1 v) ''b'' ''sql'' = JStr ''old''"
  using shown_eq [OF sql_tabs1, of "''a''" v "''sql''"] shown_eq [OF sql_tabs1, of "''b''" v "''sql''"]
  by (simp_all add: unsaved1_def editor1_def)

lemma member1: "i \<in> {''a'', ''b'', ''c''} \<Longrightarrow> JObj (editor1 v i) \<in> set (editors1 v)" "fld (editor1 v i) ''id'' = JStr i"
  by (auto simp: editors1_def editor1_def)

theorem set_active_query_editor_keeps_edits_witness:
  "\<exists>s. sqlLabReducer env1 (sql1 JNull) (TabAction (SetActiveQueryEditor (JObj (editor1 JNull ''b'')))) = Inr s \<and>
     shown s ''a'' ''sql'' = JStr ''new''"
proof -
  obtain s where s: "sqlLabReducer env1 (sql1 JNull) (TabAction (SetActiveQueryEditor (JObj (editor1 JNull ''b'')))) = Inr s"
    "\<forall>j k. JStr j \<in> set (tab_ids (editors1 JNull)) \<longrightarrow> shown s j k = shown (sql1 JNull) j k"
    using set_active_query_editor_keeps_edits [OF sql_tabs1 [of JNull] member1(1) [of "''b''"] member1(2), where env = env1] by auto
  then show ?thesis by (simp add: shown1)
qed



lemma shallow_ok1: "shallow_ok env1"
proof -
  have "filter (\<lambda>(k, _). k \<notin> set [''extra'']) ps \<noteq> []" if s: "''state'' \<in> fst ` set ps" for ps :: "jsval obj"
  proof -
    obtain x where "x \<in> set ps" "fst x = ''state''" using s by auto
    then have "x \<in> set (filter (\<lambda>(k, _). k \<notin> set [''extra'']) ps)" by (simp add: case_prod_beta)
    then show ?thesis by (metis empty_iff empty_set)
  qed
  then show ?thesis by (simp add: shallow_ok_def env1_def omit1_def)
qed

theorem refresh_queries_spec_witness:
  "\<exists>s qs. sqlLabReducer env1 (sql1 JNull) (QueryAction (RefreshQueries
       [(''q'', JObj [(''changed_on'', JStr ''2024-01-01 10:00:00''), (''state'', JStr ''success'')])])) = Inr s \<and>
     fld s ''queries'' = JObj qs \<and> oprop (fld qs ''q'') ''state'' = JStr ''stopped''"
proof -
  let ?alt = "[(''q'', JObj [(''changed_on'', JStr ''2024-01-01 10:00:00''), (''state'', JStr ''success'')])]"
  have "fld (sql1 JNull) ''queries'' = JObj queries1" "objects (map snd queries1)" "pollable ?alt"
    by (simp_all add: sql1_def queries1_def objects_def pollable_def)
  note r = refresh_queries_spec [OF shallow_ok1 this]
  obtain s qs where
    s: "sqlLabReducer env1 (sql1 JNull) (QueryAction (RefreshQueries ?alt)) = Inr s" "fld s ''queries'' = JObj qs"
    "\<forall>i. oprop (fld queries1 i) ''state'' \<in> {JStr ''stopped'', JStr ''failed''} \<or> i \<notin> fst ` set ?alt \<longrightarrow> fld qs i = fld queries1 i"
    using r by (elim exE conjE) (rule that)
  have "oprop (fld queries1 ''q'') ''state'' \<in> {JStr ''stopped'', JStr ''failed''}" by (simp add: queries1_def)
  then have "fld qs ''q'' = fld queries1 ''q''" using s(3) by blast
  then show ?thesis using s(1,2) by (intro exI [of _ s] exI [of _ qs]) (simp add: queries1_def)
qed

theorem switchQueryEditor_reaches_witness:
  "\<exists>s es h u. switch_forward env1 5 (sql1 JNull) = Inr s \<and> tabs s es h u \<and> last h = JStr ''c'' \<and>
     shown s ''a'' ''sql'' = JStr ''new''"
proof -
  have "length (editors1 JNull) = 3" "oprop (editors1 JNull ! 0) ''id'' = JStr ''a''"
    by (simp_all add: editors1_def editor1_def)
  then obtain s es h u where s: "switch_forward env1 5 (sql1 JNull) = Inr s" "tabs s es h u" "last h = JStr ''c''"
    "\<forall>j f. JStr j \<in> set (tab_ids (editors1 JNull)) \<longrightarrow> shown s j f = shown (sql1 JNull) j f"
    using switchQueryEditor_reaches [OF sql_tabs1, of 0 JNull env1 5] by auto
  have "shown s ''a'' ''sql'' = JStr ''new''" using s(4) shown1 by simp
  then show ?thesis using s(1-3) by blast
qed

end
