(* ===== verification/Switchboard.thy ===== *)
theory Switchboard
  imports JsVal "HOL-Library.Multiset"
begin

text \<open>
  The message protocol of an embedded dashboard: the class \<open>Switchboard\<close> of
  \<open>superset-ui-switchboard/src/switchboard.ts\<close>, and two switchboards joined by a message channel.
  A method is a function from its argument to what it returns or throws, directly or through a
  promise; a pending answer stays among the tasks of the switchboard until it is posted. The
  promises a switchboard has handed out are part of its state.
\<close>

section \<open>One switchboard\<close>

datatype message =
    GetMessage string string jsval
  | ReplyMessage string jsval
  | EmitMessage string jsval
  | ErrorMessage string string

fun messageId :: "message \<Rightarrow> string option" where
  "messageId (GetMessage method i args) = Some i"
| "messageId (ReplyMessage i result) = Some i"
| "messageId (EmitMessage method args) = None"
| "messageId (ErrorMessage i err) = Some i"

fun isGet :: "message \<Rightarrow> bool" where
  "isGet (GetMessage method i args) = True"
| "isGet _ = False"

fun is_response :: "message \<Rightarrow> bool" where
  "is_response (ReplyMessage i result) = True"
| "is_response (ErrorMessage i err) = True"
| "is_response _ = False"

datatype promise_state = Pending | Resolved jsval | Rejected string

record sb_promise =
  p_id :: string
  p_method :: string
  p_args :: jsval
  p_state :: promise_state

datatype log_entry = LogText string | LogThrown js_error

type_synonym sb_method = "jsval \<Rightarrow> jsval res"

record switchboard =
  sb_name :: string
  sb_methods :: "sb_method obj"
  incrementor :: nat
  debugMode :: bool
  isInitialised :: bool
  sb_started :: bool
  sb_promises :: "sb_promise list"
  sb_calls :: "(string \<times> jsval) list"
  sb_errors :: "(string \<times> log_entry) list"

record sb_params =
  pa_name :: "string option"
  pa_debug :: "bool option"

definition logError :: "log_entry \<Rightarrow> switchboard \<Rightarrow> switchboard" where
  "logError entry sb = sb\<lparr>sb_errors := sb_errors sb @ [(''['' @ sb_name sb @ '']'', entry)]\<rparr>"

definition sb_init :: "sb_params \<Rightarrow> switchboard \<Rightarrow> switchboard" where
  "sb_init params sb =
     (if isInitialised sb then logError (LogText ''already initialized'') sb
      else sb\<lparr>sb_name := (case pa_name params of None \<Rightarrow> ''switchboard'' | Some n \<Rightarrow> n),
              debugMode := (case pa_debug params of None \<Rightarrow> False | Some b \<Rightarrow> b),
              isInitialised := True\<rparr>)"

definition newSwitchboard :: "sb_params option \<Rightarrow> switchboard" where
  "newSwitchboard params =
     (let sb = \<lparr>sb_name = [], sb_methods = [], incrementor = 1, debugMode = False, isInitialised = False,
                sb_started = False, sb_promises = [], sb_calls = [], sb_errors = []\<rparr>
      in case params of None \<Rightarrow> sb | Some ps \<Rightarrow> sb_init ps sb)"

definition defineMethod :: "string \<Rightarrow> sb_method \<Rightarrow> switchboard \<Rightarrow> switchboard" where
  "defineMethod methodName executor sb = sb\<lparr>sb_methods := obj_put methodName executor (sb_methods sb)\<rparr>"

text \<open>
  \<open>this.methods[method]\<close>; \<open>proto\<close> gives the functions that every plain object inherits.
\<close>

definition sb_executor :: "(string \<Rightarrow> sb_method option) \<Rightarrow> switchboard \<Rightarrow> string \<Rightarrow> sb_method option" where
  "sb_executor proto sb method =
     (case map_of (sb_methods sb) method of Some f \<Rightarrow> Some f | None \<Rightarrow> proto method)"

definition getMethodResult ::
  "(string \<Rightarrow> sb_method option) \<Rightarrow> switchboard \<Rightarrow> string \<Rightarrow> string \<Rightarrow> jsval \<Rightarrow> message" where
  "getMethodResult proto sb i method args =
     (case sb_executor proto sb method of
        None \<Rightarrow> ErrorMessage i (''['' @ sb_name sb @ ''] Method '' @ [CHR 0x22] @ method @ [CHR 0x22] @ '' is not defined'')
      | Some executor \<Rightarrow>
          (case executor args of
             Inr result \<Rightarrow> ReplyMessage i result
           | Inl err \<Rightarrow> ErrorMessage i (''['' @ sb_name sb @ ''] Method '' @ [CHR 0x22] @ method @ [CHR 0x22] @ '' threw an error'')))"

definition getNewMessageId :: "switchboard \<Rightarrow> string" where
  "getNewMessageId sb = ''m_'' @ sb_name sb @ ''_'' @ show_nat (incrementor sb)"

text \<open>\<open>get\<close>: the new promise, and the message that is posted.\<close>

definition sb_get :: "string \<Rightarrow> jsval \<Rightarrow> switchboard \<Rightarrow> switchboard \<times> message list" where
  "sb_get method args sb =
     (if \<not> isInitialised sb then
        (sb\<lparr>sb_promises := sb_promises sb @
           [\<lparr>p_id = [], p_method = method, p_args = args, p_state = Rejected ''Switchboard not initialised''\<rparr>]\<rparr>, [])
      else
        let i = getNewMessageId sb
        in (sb\<lparr>incrementor := Suc (incrementor sb), sb_started := True,
               sb_promises := sb_promises sb @ [\<lparr>p_id = i, p_method = method, p_args = args, p_state = Pending\<rparr>]\<rparr>,
            [GetMessage method i args]))"

definition sb_emit :: "string \<Rightarrow> jsval \<Rightarrow> switchboard \<Rightarrow> switchboard \<times> message list" where
  "sb_emit method args sb =
     (if \<not> isInitialised sb then (logError (LogText ''Switchboard not initialised'') sb, [])
      else (sb, [EmitMessage method args]))"

definition sb_start :: "switchboard \<Rightarrow> switchboard" where
  "sb_start sb =
     (if \<not> isInitialised sb then logError (LogText ''Switchboard not initialised'') sb else sb\<lparr>sb_started := True\<rparr>)"

text \<open>The listener that \<open>get\<close> attaches: any message with its id settles the promise.\<close>

definition settle :: "message \<Rightarrow> sb_promise \<Rightarrow> sb_promise" where
  "settle msg p =
     (if p_state p = Pending \<and> messageId msg = Some (p_id p)
      then p\<lparr>p_state := (case msg of
               ReplyMessage _ result \<Rightarrow> Resolved result
             | ErrorMessage _ err \<Rightarrow> Rejected err
             | _ \<Rightarrow> Rejected ''Unexpected response message'')\<rparr>
      else p)"

text \<open>The call of a method, if there is one; a throwing method that is asked for a result is logged.\<close>

definition run_method ::
  "(string \<Rightarrow> sb_method option) \<Rightarrow> bool \<Rightarrow> string \<Rightarrow> jsval \<Rightarrow> switchboard \<Rightarrow> switchboard" where
  "run_method proto answered method args sb =
     (case sb_executor proto sb method of
        None \<Rightarrow> sb
      | Some executor \<Rightarrow>
          (let sb1 = sb\<lparr>sb_calls := sb_calls sb @ [(method, args)]\<rparr>
           in case executor args of
                Inl err \<Rightarrow> if answered then logError (LogThrown err) sb1 else sb1
              | Inr result \<Rightarrow> sb1))"

text \<open>A message arrives: the listener of \<open>init\<close>, then the listeners of the pending calls.\<close>

definition on_message ::
  "(string \<Rightarrow> sb_method option) \<Rightarrow> message \<Rightarrow> switchboard \<Rightarrow> switchboard \<times> message list" where
  "on_message proto msg sb =
     (let (sb1, answers) =
        (case msg of
           GetMessage method i args \<Rightarrow>
             (run_method proto True method args sb, [getMethodResult proto sb i method args])
         | EmitMessage method args \<Rightarrow> (run_method proto False method args sb, [])
         | _ \<Rightarrow> (sb, []))
      in (sb1\<lparr>sb_promises := map (settle msg) (sb_promises sb1)\<rparr>, answers))"

section \<open>Two switchboards and a channel\<close>

datatype side = Host | Guest

fun peer :: "side \<Rightarrow> side" where
  "peer Host = Guest"
| "peer Guest = Host"

text \<open>
  \<open>ep_inbox\<close> holds the messages posted by the other side and not yet delivered, \<open>ep_tasks\<close> the
  answers whose method is still running.
\<close>

record endpoint =
  ep_board :: switchboard
  ep_inbox :: "message list"
  ep_tasks :: "message list"

type_synonym channel = "side \<Rightarrow> endpoint"

definition post :: "side \<Rightarrow> message list \<Rightarrow> channel \<Rightarrow> channel" where
  "post s ms S = S(peer s := (S (peer s))\<lparr>ep_inbox := ep_inbox (S (peer s)) @ ms\<rparr>)"

definition with_board :: "side \<Rightarrow> switchboard \<Rightarrow> channel \<Rightarrow> channel" where
  "with_board s sb S = S(s := (S s)\<lparr>ep_board := sb\<rparr>)"

definition call_get :: "side \<Rightarrow> string \<Rightarrow> jsval \<Rightarrow> channel \<Rightarrow> channel" where
  "call_get s method args S =
     (let (sb, ms) = sb_get method args (ep_board (S s)) in post s ms (with_board s sb S))"

definition call_emit :: "side \<Rightarrow> string \<Rightarrow> jsval \<Rightarrow> channel \<Rightarrow> channel" where
  "call_emit s method args S =
     (let (sb, ms) = sb_emit method args (ep_board (S s)) in post s ms (with_board s sb S))"

definition deliver :: "(string \<Rightarrow> sb_method option) \<Rightarrow> side \<Rightarrow> channel \<Rightarrow> channel" where
  "deliver proto s S =
     (case ep_inbox (S s) of
        [] \<Rightarrow> S
      | m # ms \<Rightarrow>
          (let (sb, answers) = on_message proto m (ep_board (S s))
           in S(s := \<lparr>ep_board = sb, ep_inbox = ms, ep_tasks = ep_tasks (S s) @ answers\<rparr>)))"

definition complete_task :: "side \<Rightarrow> nat \<Rightarrow> channel \<Rightarrow> channel" where
  "complete_task s k S =
     (if k < length (ep_tasks (S s))
      then post s [ep_tasks (S s) ! k]
             (S(s := (S s)\<lparr>ep_tasks := take k (ep_tasks (S s)) @ drop (Suc k) (ep_tasks (S s))\<rparr>))
      else S)"

text \<open>
  The steps: the internal ones deliver the oldest message of a started port, or let a running
  method finish; the others are calls of the programs on both sides.
\<close>

inductive internal :: "(string \<Rightarrow> sb_method option) \<Rightarrow> channel \<Rightarrow> channel \<Rightarrow> bool" for proto where
  Deliver: "ep_inbox (S s) \<noteq> [] \<Longrightarrow> isInitialised (ep_board (S s)) \<Longrightarrow> sb_started (ep_board (S s)) \<Longrightarrow>
     internal proto S (deliver proto s S)"
| Complete: "k < length (ep_tasks (S s)) \<Longrightarrow> internal proto S (complete_task s k S)"

inductive sb_step :: "(string \<Rightarrow> sb_method option) \<Rightarrow> channel \<Rightarrow> channel \<Rightarrow> bool" for proto where
  Internal: "internal proto S T \<Longrightarrow> sb_step proto S T"
| Get: "sb_step proto S (call_get s method args S)"
| Emit: "sb_step proto S (call_emit s method args S)"
| Start: "sb_step proto S (with_board s (sb_start (ep_board (S s))) S)"

end
