(* ===== verification/SwitchboardFacts.thy ===== *)
theory SwitchboardFacts
  imports Switchboard
begin

text \<open>
  Two switchboards with different names answer each other's calls: an invariant ties every pending
  promise to exactly one message or task that carries its answer, so a promise is settled only
  with the answer to its own call, and all promises are settled when nothing is in flight.
\<close>

section \<open>Message ids\<close>

definition sb_id :: "string \<Rightarrow> nat \<Rightarrow> string" where
  "sb_id name n = ''m_'' @ name @ ''_'' @ show_nat n"

lemma underscore_not_digit: "\<not> is_digit (CHR ''_'')"
  by (simp add: is_digit_def)

lemma takeWhile_rev_id: "takeWhile is_digit (rev (sb_id name n)) = rev (show_nat n)"
proof -
  have "list_all is_digit (rev (show_nat n))" using show_nat_digits by simp
  then have "takeWhile is_digit (rev (show_nat n) @ CHR ''_'' # r) = rev (show_nat n)" for r
    using underscore_not_digit by (subst takeWhile_append2) (auto simp: list_all_iff)
  then show ?thesis by (simp add: sb_id_def)
qed

lemma sb_id_inject [simp]: "sb_id a m = sb_id b n \<longleftrightarrow> a = b \<and> m = n"
proof
  assume eq: "sb_id a m = sb_id b n"
  then have "rev (show_nat m) = rev (show_nat n)" using takeWhile_rev_id by metis
  then have "m = n" by simp
  then show "a = b \<and> m = n" using eq by (simp add: sb_id_def)
qed simp

section \<open>What is in flight\<close>

text \<open>The answer that side \<open>p\<close> gives to a call.\<close>

definition answer :: "(string \<Rightarrow> sb_method option) \<Rightarrow> channel \<Rightarrow> side \<Rightarrow> string \<Rightarrow> string \<Rightarrow> jsval \<Rightarrow> message" where
  "answer proto S p i method args = getMethodResult proto (ep_board (S p)) i method args"

fun get_token :: "(string \<Rightarrow> string \<Rightarrow> jsval \<Rightarrow> message) \<Rightarrow> message \<Rightarrow> message list" where
  "get_token ans (GetMessage method i args) = [ans i method args]"
| "get_token ans _ = []"

definition responses :: "message list \<Rightarrow> message list" where
  "responses ms = filter is_response ms"

text \<open>The answers on their way to side \<open>s\<close>: asked for, being computed, or posted.\<close>

definition flight :: "(string \<Rightarrow> sb_method option) \<Rightarrow> channel \<Rightarrow> side \<Rightarrow> message list" where
  "flight proto S s =
     concat (map (get_token (answer proto S (peer s))) (ep_inbox (S (peer s)))) @
     ep_tasks (S (peer s)) @ responses (ep_inbox (S s))"

definition awaited :: "(string \<Rightarrow> sb_method option) \<Rightarrow> channel \<Rightarrow> side \<Rightarrow> message list" where
  "awaited proto S s =
     map (\<lambda>p. answer proto S (peer s) (p_id p) (p_method p) (p_args p))
       (filter (\<lambda>p. p_state p = Pending) (sb_promises (ep_board (S s))))"

fun outcome :: "message \<Rightarrow> promise_state" where
  "outcome (ReplyMessage i result) = Resolved result"
| "outcome (ErrorMessage i err) = Rejected err"
| "outcome _ = Rejected ''Unexpected response message''"

definition answered :: "(string \<Rightarrow> sb_method option) \<Rightarrow> channel \<Rightarrow> side \<Rightarrow> sb_promise \<Rightarrow> bool" where
  "answered proto S s p \<longleftrightarrow>
     p_state p = outcome (answer proto S (peer s) (p_id p) (p_method p) (p_args p))"

definition ids_ok :: "switchboard \<Rightarrow> bool" where
  "ids_ok sb \<longleftrightarrow>
     distinct (map p_id (sb_promises sb)) \<and>
     (\<forall>p\<in>set (sb_promises sb). \<exists>n<incrementor sb. p_id p = sb_id (sb_name sb) n)"

definition side_ok :: "(string \<Rightarrow> sb_method option) \<Rightarrow> channel \<Rightarrow> side \<Rightarrow> bool" where
  "side_ok proto S s \<longleftrightarrow>
     isInitialised (ep_board (S s)) \<and> ids_ok (ep_board (S s)) \<and>
     (\<forall>m\<in>set (ep_tasks (S s)). is_response m) \<and>
     mset (flight proto S s) = mset (awaited proto S s) \<and>
     (\<forall>p\<in>set (sb_promises (ep_board (S s))). p_state p = Pending \<or> answered proto S s p)"

definition channel_ok :: "(string \<Rightarrow> sb_method option) \<Rightarrow> channel \<Rightarrow> bool" where
  "channel_ok proto S \<longleftrightarrow>
     sb_name (ep_board (S Host)) \<noteq> sb_name (ep_board (S Guest)) \<and> (\<forall>s. side_ok proto S s)"

lemma peer_peer [simp]: "peer (peer s) = s" and peer_neq [simp]: "peer s \<noteq> s" "s \<noteq> peer s"
  by (cases s; simp)+

lemma channel_ok_names: "channel_ok proto S \<Longrightarrow> sb_name (ep_board (S s)) \<noteq> sb_name (ep_board (S (peer s)))"
  by (cases s) (auto simp: channel_ok_def)

lemma answer_response [simp]:
  "is_response (getMethodResult proto sb i m a)" "messageId (getMethodResult proto sb i m a) = Some i"
  by (auto simp: getMethodResult_def split: option.splits sum.splits)

lemma get_token_None [simp]: "is_response m \<Longrightarrow> get_token ans m = []"
  by (cases m) auto

lemma outcome_settled [simp]: "outcome m \<noteq> Pending"
  by (cases m) auto

text \<open>A change that keeps name and methods of the boards keeps all answers.\<close>

lemma answer_cong:
  "sb_name (ep_board (T p)) = sb_name (ep_board (S p)) \<Longrightarrow> sb_methods (ep_board (T p)) = sb_methods (ep_board (S p)) \<Longrightarrow>
     answer proto T p = answer proto S p"
  by (auto simp: answer_def fun_eq_iff getMethodResult_def sb_executor_def split: option.splits sum.splits)

lemma run_method_simps [simp]:
  "sb_name (run_method proto b m a sb) = sb_name sb" "sb_methods (run_method proto b m a sb) = sb_methods sb"
  "sb_promises (run_method proto b m a sb) = sb_promises sb" "incrementor (run_method proto b m a sb) = incrementor sb"
  "isInitialised (run_method proto b m a sb) = isInitialised sb" "sb_started (run_method proto b m a sb) = sb_started sb"
  by (auto simp: run_method_def logError_def Let_def split: option.splits sum.splits)

section \<open>Every step keeps the invariant\<close>

lemma both_sides: "P s \<Longrightarrow> P (peer s) \<Longrightarrow> P t"
  by (cases s; cases t) auto

definition same_services :: "channel \<Rightarrow> channel \<Rightarrow> side \<Rightarrow> bool" where
  "same_services T S p \<longleftrightarrow>
     sb_name (ep_board (T p)) = sb_name (ep_board (S p)) \<and> sb_methods (ep_board (T p)) = sb_methods (ep_board (S p))"

lemma answers_kept:
  assumes "same_services T S s" and "same_services T S (peer s)"
  shows "answer proto T = answer proto S"
proof
  fix p
  have "same_services T S p" using assms by (rule both_sides)
  then show "answer proto T p = answer proto S p" unfolding same_services_def by (metis answer_cong)
qed

lemma channel_okI:
  assumes "channel_ok proto S" and "same_services T S s" and "same_services T S (peer s)"
    and "side_ok proto T s" and "side_ok proto T (peer s)"
  shows "channel_ok proto T"
proof -
  have "same_services T S p" for p using assms(2,3) by (rule both_sides)
  moreover have "side_ok proto T p" for p using assms(4,5) by (rule both_sides)
  ultimately show ?thesis using assms(1) by (simp add: channel_ok_def same_services_def)
qed

lemma call_get_ok:
  assumes "channel_ok proto S"
  shows "channel_ok proto (call_get s method args S)"
proof -
  let ?sb = "ep_board (S s)" and ?p = "peer s"
  let ?i = "getNewMessageId ?sb"
  let ?new = "\<lparr>p_id = ?i, p_method = method, p_args = args, p_state = Pending\<rparr>"
  let ?sb' = "?sb\<lparr>incrementor := Suc (incrementor ?sb), sb_started := True, sb_promises := sb_promises ?sb @ [?new]\<rparr>"
  define T where "T = call_get s method args S"
  have ok: "side_ok proto S s" "side_ok proto S ?p" using assms by (simp_all add: channel_ok_def)
  then have init: "isInitialised ?sb" by (simp add: side_ok_def)
  have Ts: "T s = (S s)\<lparr>ep_board := ?sb'\<rparr>"
    and Tp: "T ?p = (S ?p)\<lparr>ep_inbox := ep_inbox (S ?p) @ [GetMessage method ?i args]\<rparr>"
    using init by (simp_all add: T_def call_get_def sb_get_def post_def with_board_def Let_def)
  have same: "same_services T S s" "same_services T S ?p" by (simp_all add: same_services_def Ts Tp)
  note ans = answers_kept [OF this]
  have id: "?i = sb_id (sb_name ?sb) (incrementor ?sb)" by (simp add: getNewMessageId_def sb_id_def)
  have "ids_ok ?sb'"
    using ok(1) id by (auto simp: side_ok_def ids_ok_def dest: less_SucI)
  moreover have "mset (flight proto T s) = mset (awaited proto T s)"
    using ok(1) by (simp add: side_ok_def flight_def awaited_def ans Ts Tp)
  ultimately have "side_ok proto T s"
    using ok(1) init by (auto simp: side_ok_def Ts answered_def ans)
  moreover have "side_ok proto T ?p"
    using ok(2) by (simp add: side_ok_def flight_def awaited_def answered_def responses_def ans Ts Tp)
  ultimately show ?thesis using channel_okI [OF assms same] by (simp add: T_def)
qed

lemma call_emit_ok:
  assumes "channel_ok proto S"
  shows "channel_ok proto (call_emit s method args S)"
proof -
  let ?p = "peer s"
  define T where "T = call_emit s method args S"
  have ok: "side_ok proto S s" "side_ok proto S ?p" using assms by (simp_all add: channel_ok_def)
  then have Ts: "T s = S s" and Tp: "T ?p = (S ?p)\<lparr>ep_inbox := ep_inbox (S ?p) @ [EmitMessage method args]\<rparr>"
    by (simp_all add: T_def call_emit_def sb_emit_def post_def with_board_def side_ok_def)
  have same: "same_services T S s" "same_services T S ?p" by (simp_all add: same_services_def Ts Tp)
  note ans = answers_kept [OF this]
  have "side_ok proto T s" "side_ok proto T ?p"
    using ok by (simp_all add: side_ok_def flight_def awaited_def answered_def responses_def ans Ts Tp)
  then show ?thesis using channel_okI [OF assms same] by (simp add: T_def)
qed

lemma call_start_ok:
  assumes "channel_ok proto S"
  shows "channel_ok proto (with_board s (sb_start (ep_board (S s))) S)"
proof -
  let ?p = "peer s"
  define T where "T = with_board s (sb_start (ep_board (S s))) S"
  have ok: "side_ok proto S s" "side_ok proto S ?p" using assms by (simp_all add: channel_ok_def)
  then have Ts: "T s = (S s)\<lparr>ep_board := (ep_board (S s))\<lparr>sb_started := True\<rparr>\<rparr>" and Tp: "T ?p = S ?p"
    by (simp_all add: T_def with_board_def sb_start_def side_ok_def)
  have same: "same_services T S s" "same_services T S ?p" by (simp_all add: same_services_def Ts Tp)
  note ans = answers_kept [OF this]
  have "side_ok proto T s" "side_ok proto T ?p"
    using ok by (simp_all add: side_ok_def ids_ok_def flight_def awaited_def answered_def ans Ts Tp)
  then show ?thesis using channel_okI [OF assms same] by (simp add: T_def)
qed

lemma mset_remove_nth: "k < length xs \<Longrightarrow> mset (take k xs @ drop (Suc k) xs) + {#xs ! k#} = mset xs"
  by (metis Cons_nth_drop_Suc add.commute add_mset_add_single append_take_drop_id mset.simps(2) mset_append union_mset_add_mset_right)

lemma complete_ok:
  assumes "channel_ok proto S" and "k < length (ep_tasks (S s))"
  shows "channel_ok proto (complete_task s k S)"
proof -
  let ?p = "peer s" and ?m = "ep_tasks (S s) ! k"
  let ?rest = "take k (ep_tasks (S s)) @ drop (Suc k) (ep_tasks (S s))"
  define T where "T = complete_task s k S"
  have ok: "side_ok proto S s" "side_ok proto S ?p" using assms by (simp_all add: channel_ok_def)
  have Ts: "T s = (S s)\<lparr>ep_tasks := ?rest\<rparr>" and Tp: "T ?p = (S ?p)\<lparr>ep_inbox := ep_inbox (S ?p) @ [?m]\<rparr>"
    using assms(2) by (simp_all add: T_def complete_task_def post_def)
  have same: "same_services T S s" "same_services T S ?p" by (simp_all add: same_services_def Ts Tp)
  note ans = answers_kept [OF this]
  have m: "is_response ?m" using ok(1) assms(2) by (simp add: side_ok_def)
  have sub: "set ?rest \<subseteq> set (ep_tasks (S s))" by (auto dest: in_set_takeD in_set_dropD)
  have "side_ok proto T s"
    using ok(1) m sub by (auto simp: side_ok_def flight_def awaited_def answered_def ans Ts Tp)
  moreover have "mset (flight proto T ?p) = mset (flight proto S ?p)"
    using m mset_remove_nth [OF assms(2)] by (simp add: flight_def responses_def ans Ts Tp ac_simps)
  then have "side_ok proto T ?p"
    using ok(2) by (simp add: side_ok_def awaited_def answered_def ans Ts Tp)
  ultimately show ?thesis using channel_okI [OF assms(1) same] by (simp add: T_def)
qed

lemma settle_other: "messageId m \<noteq> Some (p_id p) \<Longrightarrow> settle m p = p"
  by (simp add: settle_def)

lemma flight_awaited:
  "side_ok proto S s \<Longrightarrow> m \<in> set (flight proto S s) \<Longrightarrow>
     \<exists>q\<in>set (sb_promises (ep_board (S s))). p_state q = Pending \<and>
        m = answer proto S (peer s) (p_id q) (p_method q) (p_args q)"
proof -
  assume ok: "side_ok proto S s" and m: "m \<in> set (flight proto S s)"
  have "set (flight proto S s) = set (awaited proto S s)"
    using ok unfolding side_ok_def by (metis mset_eq_setD)
  then show ?thesis using m by (auto simp: awaited_def)
qed

lemma foreign_id:
  assumes "channel_ok proto S" and "q \<in> set (sb_promises (ep_board (S (peer s))))" and "p \<in> set (sb_promises (ep_board (S s)))"
  shows "p_id q \<noteq> p_id p"
proof -
  have "ids_ok (ep_board (S s))" "ids_ok (ep_board (S (peer s)))"
    using assms(1) by (simp_all add: channel_ok_def side_ok_def)
  then obtain m n where "p_id q = sb_id (sb_name (ep_board (S (peer s)))) m" "p_id p = sb_id (sb_name (ep_board (S s))) n"
    using assms(2,3) unfolding ids_ok_def by blast
  then show ?thesis using channel_ok_names [OF assms(1), of s] by auto
qed

text \<open>A message with an id that is not one of ours settles nothing.\<close>

lemma deliver_foreign:
  assumes "channel_ok proto S" and "ep_inbox (S s) = m # ms" and "\<not> is_response m"
  shows "map (settle m) (sb_promises (ep_board (S s))) = sb_promises (ep_board (S s))"
proof (rule map_idI)
  fix p
  assume p: "p \<in> set (sb_promises (ep_board (S s)))"
  show "settle m p = p"
  proof (cases m)
    case (GetMessage meth i args)
    have ok: "side_ok proto S (peer s)" using assms(1) by (simp add: channel_ok_def)
    have "answer proto S s i meth args \<in> set (flight proto S (peer s))"
      using assms(2) GetMessage by (simp add: flight_def)
    from flight_awaited [OF ok this] obtain q where q: "q \<in> set (sb_promises (ep_board (S (peer s))))"
      "answer proto S s i meth args = answer proto S s (p_id q) (p_method q) (p_args q)" by auto
    then have "Some i = Some (p_id q)" using answer_response(2) unfolding answer_def by metis
    then show ?thesis using foreign_id [OF assms(1) q(1) p] GetMessage by (simp add: settle_other)
  qed (use assms(3) in \<open>simp_all add: settle_other\<close>)
qed

lemma deliver_request_ok:
  assumes "channel_ok proto S" and "ep_inbox (S s) = m # ms" and "\<not> is_response m"
  shows "channel_ok proto (deliver proto s S)"
proof -
  let ?p = "peer s" and ?sb = "ep_board (S s)"
  define T where "T = deliver proto s S"
  define sb' where "sb' = fst (on_message proto m ?sb)"
  have ok: "side_ok proto S s" "side_ok proto S ?p" using assms by (simp_all add: channel_ok_def)
  have Ts: "T s = \<lparr>ep_board = sb', ep_inbox = ms, ep_tasks = ep_tasks (S s) @ get_token (answer proto S s) m\<rparr>"
    using assms(2,3) by (cases m) (simp_all add: T_def deliver_def sb'_def on_message_def answer_def)
  have Tp: "T ?p = S ?p" using assms(2) by (simp add: T_def deliver_def case_prod_beta)
  have sb': "sb_name sb' = sb_name ?sb" "sb_methods sb' = sb_methods ?sb" "sb_promises sb' = sb_promises ?sb"
    "incrementor sb' = incrementor ?sb" "isInitialised sb' = isInitialised ?sb"
    using deliver_foreign [OF assms] assms(3) by (cases m; simp add: sb'_def on_message_def)+
  have same: "same_services T S s" "same_services T S ?p" by (simp_all add: same_services_def Ts Tp sb')
  note ans = answers_kept [OF this]
  have "\<forall>r\<in>set (get_token (answer proto S s) m). is_response r"
    using assms(3) by (cases m) (simp_all add: answer_def)
  then have "side_ok proto T s"
    using ok(1) assms(2,3)
    by (auto simp: side_ok_def ids_ok_def flight_def awaited_def answered_def responses_def ans Ts Tp sb')
  moreover have "mset (flight proto T ?p) = mset (flight proto S ?p)"
    using assms(2) by (simp add: flight_def ans Ts Tp ac_simps)
  then have "side_ok proto T ?p"
    using ok(2) by (simp add: side_ok_def awaited_def answered_def ans Tp)
  ultimately show ?thesis using channel_okI [OF assms(1) same] by (simp add: T_def)
qed

lemma settle_one:
  assumes "distinct (map p_id (xs @ q # ys))" and "messageId m = Some (p_id q)"
  shows "map (settle m) (xs @ q # ys) = xs @ settle m q # ys"
proof -
  have "settle m p = p" if "p \<in> set xs \<union> set ys" for p
    using assms that by (intro settle_other) auto
  then show ?thesis by (simp add: map_idI)
qed

lemma deliver_response_ok:
  assumes "channel_ok proto S" and "ep_inbox (S s) = m # ms" and "is_response m"
  shows "channel_ok proto (deliver proto s S)"
proof -
  let ?p = "peer s" and ?sb = "ep_board (S s)"
  let ?ans = "\<lambda>q. answer proto S ?p (p_id q) (p_method q) (p_args q)"
  define T where "T = deliver proto s S"
  have ok: "side_ok proto S s" "side_ok proto S ?p" using assms by (simp_all add: channel_ok_def)
  have "m \<in> set (flight proto S s)" using assms(2,3) by (simp add: flight_def responses_def)
  from flight_awaited [OF ok(1) this] obtain q where q: "q \<in> set (sb_promises ?sb)" "p_state q = Pending" "m = ?ans q"
    by blast
  then have mid: "messageId m = Some (p_id q)" by (simp add: answer_def)
  obtain xs ys where split: "sb_promises ?sb = xs @ q # ys" using q(1) by (meson split_list)
  have dist: "distinct (map p_id (xs @ q # ys))" using ok(1) split by (simp add: side_ok_def ids_ok_def)
  let ?q = "q\<lparr>p_state := outcome m\<rparr>"
  have "settle m q = ?q" using q(2) mid assms(3) by (cases m) (simp_all add: settle_def)
  then have settled: "map (settle m) (sb_promises ?sb) = xs @ ?q # ys" using settle_one [OF dist mid] split by simp
  let ?sb' = "?sb\<lparr>sb_promises := xs @ ?q # ys\<rparr>"
  have Ts: "T s = (S s)\<lparr>ep_board := ?sb', ep_inbox := ms\<rparr>"
    using assms(2,3) settled by (cases m) (simp_all add: T_def deliver_def on_message_def)
  have Tp: "T ?p = S ?p" using assms(2) by (simp add: T_def deliver_def case_prod_beta)
  have same: "same_services T S s" "same_services T S ?p" by (simp_all add: same_services_def Ts Tp)
  note ans = answers_kept [OF this]
  have "mset (flight proto S s) = mset (flight proto T s) + {#m#}"
    using assms(2,3) by (simp add: flight_def responses_def ans Ts Tp)
  moreover have "mset (awaited proto S s) = mset (awaited proto T s) + {#m#}"
    using q(2,3) split by (simp add: awaited_def ans Ts)
  ultimately have "mset (flight proto T s) = mset (awaited proto T s)"
    using ok(1) by (simp add: side_ok_def)
  moreover have "ids_ok ?sb'" using ok(1) split dist by (auto simp: side_ok_def ids_ok_def)
  ultimately have "side_ok proto T s"
    using ok(1) split q(3) by (auto simp: side_ok_def answered_def ans Ts)
  moreover have "flight proto T ?p = flight proto S ?p"
    using assms(2,3) by (simp add: flight_def ans Ts Tp)
  then have "side_ok proto T ?p"
    using ok(2) by (simp add: side_ok_def awaited_def answered_def ans Tp)
  ultimately show ?thesis using channel_okI [OF assms(1) same] by (simp add: T_def)
qed

lemma internal_ok: "internal proto S T \<Longrightarrow> channel_ok proto S \<Longrightarrow> channel_ok proto T"
proof (induction rule: internal.induct)
  case (Deliver S s)
  then obtain m ms where "ep_inbox (S s) = m # ms" by (meson list.exhaust)
  then show ?case using Deliver deliver_request_ok deliver_response_ok by (cases "is_response m") blast+
qed (rule complete_ok)

lemma sb_step_ok: "sb_step proto S T \<Longrightarrow> channel_ok proto S \<Longrightarrow> channel_ok proto T"
  by (induction rule: sb_step.induct) (simp_all add: internal_ok call_get_ok call_emit_ok call_start_ok)

section \<open>Runs\<close>

lemma on_message_services [simp]:
  "sb_name (fst (on_message proto m sb)) = sb_name sb" "sb_methods (fst (on_message proto m sb)) = sb_methods sb"
  "isInitialised (fst (on_message proto m sb)) = isInitialised sb" "sb_started (fst (on_message proto m sb)) = sb_started sb"
  by (cases m; simp add: on_message_def)+

lemma internal_boards:
  "internal proto S T \<Longrightarrow> same_services T S p \<and> (sb_started (ep_board (T p)) = sb_started (ep_board (S p)))"
proof (induction rule: internal.induct)
  case (Deliver S s)
  then obtain m ms where "ep_inbox (S s) = m # ms" by (meson list.exhaust)
  then show ?case by (simp add: deliver_def same_services_def case_prod_beta)
qed (simp add: complete_task_def post_def same_services_def)

lemma sb_step_services: "sb_step proto S T \<Longrightarrow> same_services T S p"
proof (induction rule: sb_step.induct)
  case (Internal S T)
  then show ?case using internal_boards by blast
qed (auto simp: same_services_def call_get_def sb_get_def call_emit_def sb_emit_def sb_start_def post_def with_board_def
    logError_def Let_def)

lemma same_services_trans: "same_services U T p \<Longrightarrow> same_services T S p \<Longrightarrow> same_services U S p"
  by (simp add: same_services_def)

interpretation chan: step_system "sb_step proto" "\<lambda>T. channel_ok proto T \<and> (\<forall>p. same_services T S p)" for proto S
  by unfold_locales (blast intro: sb_step_ok same_services_trans sb_step_services)

lemma sb_steps_ok:
  "(sb_step proto)\<^sup>*\<^sup>* S T \<Longrightarrow> channel_ok proto S \<Longrightarrow> channel_ok proto T \<and> (\<forall>p. same_services T S p)"
proof -
  assume "(sb_step proto)\<^sup>*\<^sup>* S T" and ok: "channel_ok proto S"
  from this(1) show ?thesis by (rule chan.inv_steps) (simp add: ok same_services_def)
qed

text \<open>Two initialised switchboards with nothing in flight.\<close>

definition connected :: "channel \<Rightarrow> bool" where
  "connected S \<longleftrightarrow>
     (\<forall>s. isInitialised (ep_board (S s)) \<and> sb_promises (ep_board (S s)) = [] \<and> ep_inbox (S s) = [] \<and> ep_tasks (S s) = [])"

lemma connected_ok:
  "connected S \<Longrightarrow> sb_name (ep_board (S Host)) \<noteq> sb_name (ep_board (S Guest)) \<Longrightarrow> channel_ok proto S"
  by (simp add: connected_def channel_ok_def side_ok_def ids_ok_def flight_def awaited_def responses_def)

text \<open>
  C13. Wires do not get crossed. Whatever two connected switchboards with different names do, and in
  whatever order messages arrive and methods finish, a promise that is settled is settled
  with the answer of the other side to its own call: the result of the method on the arguments, or
  the error that the method is not defined or threw; and the ids of a side are never repeated.
\<close>

theorem switchboard_answers:
  assumes "connected S" and "sb_name (ep_board (S Host)) \<noteq> sb_name (ep_board (S Guest))"
    and "(sb_step proto)\<^sup>*\<^sup>* S T" and "p \<in> set (sb_promises (ep_board (T s)))" and "p_state p \<noteq> Pending"
  shows "p_state p = outcome (getMethodResult proto (ep_board (S (peer s))) (p_id p) (p_method p) (p_args p)) \<and>
     distinct (map p_id (sb_promises (ep_board (T s))))"
proof -
  have T: "channel_ok proto T" "same_services T S (peer s)"
    using sb_steps_ok [OF assms(3) connected_ok [OF assms(1,2)]] by auto
  then have "answered proto T s p" "ids_ok (ep_board (T s))" using assms(4,5) by (auto simp: channel_ok_def side_ok_def)
  moreover have "answer proto T (peer s) = answer proto S (peer s)"
    using T(2) unfolding same_services_def by (metis answer_cong)
  ultimately show ?thesis by (simp add: answered_def answer_def ids_ok_def)
qed

section \<open>Progress\<close>

fun message_weight :: "message \<Rightarrow> nat" where
  "message_weight (GetMessage method i args) = 3"
| "message_weight _ = 1"

definition side_weight :: "endpoint \<Rightarrow> nat" where
  "side_weight e = sum_list (map message_weight (ep_inbox e)) + 2 * length (ep_tasks e)"

definition weight :: "channel \<Rightarrow> nat" where
  "weight S = side_weight (S Host) + side_weight (S Guest)"

lemma weight_sides: "weight S = side_weight (S s) + side_weight (S (peer s))"
  by (cases s) (simp_all add: weight_def)

lemma on_message_weight: "2 * length (snd (on_message proto m sb)) < message_weight m"
  by (cases m) (simp_all add: on_message_def)

lemma response_weight: "is_response m \<Longrightarrow> message_weight m = 1"
  by (cases m) auto

lemma internal_weight:
  assumes "internal proto S T" and "channel_ok proto S"
  shows "weight T < weight S"
  using assms
proof (induction rule: internal.induct)
  case (Deliver S s)
  then obtain m ms where m: "ep_inbox (S s) = m # ms" by (meson list.exhaust)
  let ?T = "deliver proto s S"
  have "side_weight (?T s) < side_weight (S s)" "?T (peer s) = S (peer s)"
    using m on_message_weight [of proto m "ep_board (S s)"] by (simp_all add: deliver_def side_weight_def case_prod_beta)
  then show ?case using weight_sides [of S s] weight_sides [of ?T s] by simp
next
  case (Complete k S s)
  let ?T = "complete_task s k S"
  have "is_response (ep_tasks (S s) ! k)"
    using Complete nth_mem [OF Complete(1)] by (simp add: channel_ok_def side_ok_def del: nth_mem)
  then have "side_weight (?T s) + 2 = side_weight (S s)" "side_weight (?T (peer s)) = side_weight (S (peer s)) + 1"
    using Complete(1) by (simp_all add: complete_task_def post_def side_weight_def response_weight)
  then show ?case using weight_sides [of S s] weight_sides [of ?T s] by simp
qed

lemma final_settled:
  assumes "channel_ok proto T" and "\<And>s. sb_started (ep_board (T s))" and "\<not> (\<exists>U. internal proto T U)"
    and "p \<in> set (sb_promises (ep_board (T s)))"
  shows "p_state p \<noteq> Pending"
proof -
  have "isInitialised (ep_board (T t))" for t using assms(1) by (simp add: channel_ok_def side_ok_def)
  then have "ep_inbox (T t) = []" for t using assms(2,3) internal.Deliver [of T t proto] by blast
  moreover have "ep_tasks (T t) = []" for t using assms(3) internal.Complete [of 0 T t proto] by blast
  ultimately have "flight proto T s = []" by (simp add: flight_def responses_def)
  moreover have "mset (flight proto T s) = mset (awaited proto T s)"
    using assms(1) by (simp add: channel_ok_def side_ok_def)
  ultimately have "awaited proto T s = []" by simp
  then show ?thesis using assms(4) by (auto simp: awaited_def filter_empty_conv)
qed

interpretation rest: settling_system "internal proto" "channel_ok proto" weight for proto
  by unfold_locales (auto intro: internal_ok internal_weight)

lemma internals_started:
  "(internal proto)\<^sup>*\<^sup>* S T \<Longrightarrow> sb_started (ep_board (T p)) = sb_started (ep_board (S p))"
  by (induction rule: rtranclp_induct) (simp_all add: internal_boards)

text \<open>
  C14. Every call is answered. From every state that two connected switchboards with different names
  can reach, once both ports are started, the channel comes to rest: a run of deliveries and
  finishing methods has at most \<open>weight S\<close> steps, one that cannot go on exists, and whenever
  none is possible any more every promise on both sides is settled.
\<close>

theorem switchboard_settles:
  assumes "connected S0" and "sb_name (ep_board (S0 Host)) \<noteq> sb_name (ep_board (S0 Guest))"
    and "(sb_step proto)\<^sup>*\<^sup>* S0 S" and "sb_started (ep_board (S Host))" and "sb_started (ep_board (S Guest))"
  shows "(\<forall>n T. (internal proto ^^ n) S T \<longrightarrow> n \<le> weight S) \<and>
     (\<exists>T. (internal proto)\<^sup>*\<^sup>* S T \<and> \<not> (\<exists>U. internal proto T U)) \<and>
     (\<forall>T s p. (internal proto)\<^sup>*\<^sup>* S T \<and> \<not> (\<exists>U. internal proto T U) \<and> p \<in> set (sb_promises (ep_board (T s))) \<longrightarrow>
        p_state p \<noteq> Pending)"
proof -
  have ok: "channel_ok proto S" using sb_steps_ok [OF assms(3) connected_ok [OF assms(1,2)]] by simp
  have started: "sb_started (ep_board (S s))" for s using assms(4,5) by (cases s) auto
  have "n \<le> weight S" if "(internal proto ^^ n) S T" for n T
    using rest.run_bound [OF that ok] by simp
  moreover have "p_state p \<noteq> Pending"
    if "(internal proto)\<^sup>*\<^sup>* S T" "\<not> (\<exists>U. internal proto T U)" "p \<in> set (sb_promises (ep_board (T s)))" for T s p
    using final_settled [OF rest.inv_steps [OF that(1) ok] _ that(2,3)] internals_started [OF that(1)] started by simp
  ultimately show ?thesis using rest.comes_to_rest [OF ok] by blast
qed

section \<open>Equal names\<close>

text \<open>
  With equal names the wires get crossed. When both sides have the same name and have made the
  same number of calls, and each calls the other, the request that arrives from the other
  side carries the id of our own call: our promise is rejected as an unexpected response, whatever
  the method would have answered.
\<close>

lemma switchboard_equal_names:
  assumes "connected S" and "sb_name (ep_board (S Host)) = sb_name (ep_board (S Guest))"
    and "incrementor (ep_board (S Host)) = incrementor (ep_board (S Guest))"
  shows "\<exists>T p. (sb_step proto)\<^sup>*\<^sup>* S T \<and> sb_promises (ep_board (T Host)) = [p] \<and>
     p_method p = method \<and> p_args p = args \<and> p_state p = Rejected ''Unexpected response message''"
proof -
  let ?S1 = "call_get Host method args S"
  let ?S2 = "call_get Guest method args ?S1"
  let ?T = "deliver proto Host ?S2"
  let ?i = "getNewMessageId (ep_board (S Host))"
  have init: "isInitialised (ep_board (S s))" "sb_promises (ep_board (S s)) = []" "ep_inbox (S s) = []" for s
    using assms(1) by (simp_all add: connected_def)
  have same: "getNewMessageId (ep_board (S Guest)) = ?i" using assms(2,3) by (simp add: getNewMessageId_def)
  have b1: "ep_board (?S1 Host) = fst (sb_get method args (ep_board (S Host)))" "ep_board (?S1 Guest) = ep_board (S Guest)"
    "ep_inbox (?S1 Host) = []"
    by (simp_all add: call_get_def post_def with_board_def case_prod_beta init)
  have h2: "ep_inbox (?S2 Host) = [GetMessage method ?i args]" "ep_board (?S2 Host) = ep_board (?S1 Host)"
    using init same b1 by (simp_all add: call_get_def [of Guest] sb_get_def post_def with_board_def Let_def)
  have started: "isInitialised (ep_board (?S2 Host))" "sb_started (ep_board (?S2 Host))"
    using h2 b1 init by (simp_all add: sb_get_def Let_def)
  have "sb_step proto S ?S1" "sb_step proto ?S1 ?S2" by (rule sb_step.Get)+
  moreover have "sb_step proto ?S2 ?T"
    by (rule sb_step.Internal, rule internal.Deliver) (use h2 started in simp_all)
  ultimately have "(sb_step proto)\<^sup>*\<^sup>* S ?T"
    by (blast intro: rtranclp.rtrancl_into_rtrancl)
  moreover have "sb_promises (ep_board (?T Host)) =
      [\<lparr>p_id = ?i, p_method = method, p_args = args, p_state = Rejected ''Unexpected response message''\<rparr>]"
    using h2 b1 init by (simp add: deliver_def on_message_def sb_get_def settle_def Let_def)
  ultimately show ?thesis by (intro exI [of _ ?T]) simp
qed

end
