(* ===== verification/SwitchboardWitnesses.thy ===== *)
theory SwitchboardWitnesses
  imports SwitchboardFacts
begin

text \<open>Two connected switchboards of which each has a method that returns its argument.\<close>

definition board1 :: "string \<Rightarrow> switchboard" where
  "board1 name =
     sb_start (defineMethod ''echo'' Inr (newSwitchboard (Some \<lparr>pa_name = Some name, pa_debug = None\<rparr>)))"

definition channel1 :: "string \<Rightarrow> string \<Rightarrow> channel" where
  "channel1 a b = (\<lambda>s. \<lparr>ep_board = board1 (case s of Host \<Rightarrow> a | Guest \<Rightarrow> b), ep_inbox = [], ep_tasks = []\<rparr>)"

definition no_proto :: "string \<Rightarrow> sb_method option" where
  "no_proto name = None"

lemma board1_eq:
  "board1 name = \<lparr>sb_name = name, sb_methods = [(''echo'', Inr)], incrementor = 1, debugMode = False, isInitialised = True,
     sb_started = True, sb_promises = [], sb_calls = [], sb_errors = []\<rparr>"
  by (simp add: board1_def newSwitchboard_def sb_init_def defineMethod_def sb_start_def)

lemma channel1_connected: "connected (channel1 a b)"
  by (simp add: connected_def channel1_def board1_eq)

lemma channel1_names:
  "sb_name (ep_board (channel1 a b Host)) = a" "sb_name (ep_board (channel1 a b Guest)) = b"
  "incrementor (ep_board (channel1 a b s)) = 1"
  by (simp_all add: channel1_def board1_eq)

definition called1 :: channel where
  "called1 = call_get Host ''echo'' (JInt 5) (channel1 ''host'' ''guest'')"

definition answered1 :: channel where
  "answered1 = deliver no_proto Host (complete_task Guest 0 (deliver no_proto Guest called1))"

lemma called1_Host:
  "called1 Host = \<lparr>ep_board = (board1 ''host'')\<lparr>incrementor := 2, sb_promises :=
       [\<lparr>p_id = ''m_host_1'', p_method = ''echo'', p_args = JInt 5, p_state = Pending\<rparr>]\<rparr>, ep_inbox = [], ep_tasks = []\<rparr>"
  and called1_Guest:
  "called1 Guest = \<lparr>ep_board = board1 ''guest'', ep_inbox = [GetMessage ''echo'' ''m_host_1'' (JInt 5)], ep_tasks = []\<rparr>"
proof -
  have "show_nat 1 = ''1''" by code_simp
  then show "called1 Host = \<lparr>ep_board = (board1 ''host'')\<lparr>incrementor := 2, sb_promises :=
       [\<lparr>p_id = ''m_host_1'', p_method = ''echo'', p_args = JInt 5, p_state = Pending\<rparr>]\<rparr>, ep_inbox = [], ep_tasks = []\<rparr>"
    "called1 Guest = \<lparr>ep_board = board1 ''guest'', ep_inbox = [GetMessage ''echo'' ''m_host_1'' (JInt 5)], ep_tasks = []\<rparr>"
    by (simp_all add: called1_def call_get_def sb_get_def channel1_def board1_eq post_def with_board_def getNewMessageId_def Let_def)
qed

lemma deliver1: "deliver no_proto Guest called1 = called1(Guest := \<lparr>ep_board = (board1 ''guest'')\<lparr>sb_calls := [(''echo'', JInt 5)]\<rparr>,
    ep_inbox = [], ep_tasks = [ReplyMessage ''m_host_1'' (JInt 5)]\<rparr>)"
  by (simp add: deliver_def called1_Guest on_message_def run_method_def getMethodResult_def sb_executor_def board1_eq)

lemma run1: "(sb_step no_proto)\<^sup>*\<^sup>* (channel1 ''host'' ''guest'') called1" "(sb_step no_proto)\<^sup>*\<^sup>* called1 answered1"
proof -
  show "(sb_step no_proto)\<^sup>*\<^sup>* (channel1 ''host'' ''guest'') called1"
    unfolding called1_def by (rule r_into_rtranclp, rule sb_step.Get)
  let ?S1 = "deliver no_proto Guest called1"
  have 1: "sb_step no_proto called1 ?S1"
    by (rule sb_step.Internal, rule internal.Deliver) (simp_all add: called1_Guest board1_eq)
  have 2: "sb_step no_proto ?S1 (complete_task Guest 0 ?S1)"
    by (rule sb_step.Internal, rule internal.Complete) (simp add: deliver1)
  have 3: "sb_step no_proto (complete_task Guest 0 ?S1) answered1"
    unfolding answered1_def
    by (rule sb_step.Internal, rule internal.Deliver)
       (simp_all add: complete_task_def deliver1 post_def called1_Host board1_eq)
  show "(sb_step no_proto)\<^sup>*\<^sup>* called1 answered1"
    using 1 2 3 by (meson converse_rtranclp_into_rtranclp rtranclp.rtrancl_refl)
qed

lemma answered1_promises:
  "sb_promises (ep_board (answered1 Host)) =
     [\<lparr>p_id = ''m_host_1'', p_method = ''echo'', p_args = JInt 5, p_state = Resolved (JInt 5)\<rparr>]"
  by (simp add: answered1_def complete_task_def deliver1 post_def called1_Host deliver_def [of _ Host] on_message_def settle_def)

theorem switchboard_answers_witness:
  "\<exists>p\<in>set (sb_promises (ep_board (answered1 Host))). p_state p = Resolved (JInt 5) \<and>
     p_state p = outcome (getMethodResult no_proto (board1 ''guest'') (p_id p) (p_method p) (p_args p))"
proof -
  let ?p = "\<lparr>p_id = ''m_host_1'', p_method = ''echo'', p_args = JInt 5, p_state = Resolved (JInt 5)\<rparr>"
  have run: "(sb_step no_proto)\<^sup>*\<^sup>* (channel1 ''host'' ''guest'') answered1" using run1 by (rule rtranclp_trans)
  have "ep_board (channel1 ''host'' ''guest'' Guest) = board1 ''guest''" by (simp add: channel1_def)
  then show ?thesis
    using switchboard_answers [OF channel1_connected _ run, of ?p Host] by (simp add: channel1_names answered1_promises board1_eq)
qed

theorem switchboard_settles_witness:
  "\<exists>T. (internal no_proto)\<^sup>*\<^sup>* called1 T \<and> (\<forall>p\<in>set (sb_promises (ep_board (T Host))). p_state p \<noteq> Pending)"
proof -
  have "sb_started (ep_board (called1 Host))" "sb_started (ep_board (called1 Guest))"
    by (simp_all add: called1_Host called1_Guest board1_eq)
  from switchboard_settles [OF channel1_connected _ run1(1) this] show ?thesis
    by (simp add: channel1_names) blast
qed

end
