(* ===== verification/ColorUtils.thy ===== *)
theory ColorUtils
  imports QueryTypes "HOL-Library.Extended_Nat"
begin

text \<open>
  The colour helpers of \<open>color/utils.ts\<close>: contrast, analogous colours, alpha channel and the
  conversions between the two notations, with \<open>stringifyAndTrim\<close>. The analogous colours of one
  colour come from the colour library and are an argument, as hexadecimal strings.
\<close>

section \<open>Numerals of base 16\<close>

definition hex_digit :: "nat \<Rightarrow> char" where
  "hex_digit n = (if n < 10 then char_of (48 + n) else char_of (87 + n))"

text \<open>\<open>n.toString(16)\<close> of an integer.\<close>

fun show_hex :: "nat \<Rightarrow> string" where
  "show_hex n = (if n < 16 then [hex_digit n] else show_hex (n div 16) @ [hex_digit (n mod 16)])"

declare show_hex.simps [simp del]

definition int_to_hex :: "int \<Rightarrow> string" where
  "int_to_hex i = (if i < 0 then CHR ''-'' # show_hex (nat (- i)) else show_hex (nat i))"

definition to_upper :: "char \<Rightarrow> char" where
  "to_upper c = (let n = of_char c :: nat in if 97 \<le> n \<and> n \<le> 122 then char_of (n - 32) else c)"

text \<open>\<open>parseInt(s, 16)\<close>: the longest run of hexadecimal digits, after a sign and \<open>0x\<close>.\<close>

definition parseInt16 :: "string \<Rightarrow> jsnum" where
  "parseInt16 s =
     (let (neg, r) = split_sign (str_trim_start s);
          ds = takeWhile (\<lambda>c. hex_val c \<noteq> None) (if prefix ''0x'' r \<or> prefix ''0X'' r then drop 2 r else r)
      in case radix_number 16 ds of
           Fin q \<Rightarrow> Fin (if neg then - q else q)
         | n \<Rightarrow> n)"

section \<open>Labels\<close>

definition stringifyAndTrim :: "jsval \<Rightarrow> string" where
  "stringifyAndTrim value = str_trim (to_str value)"

section \<open>Contrast\<close>

text \<open>The three numerals of \<open>rgb(r, g, b)\<close>; the character classes of the pattern are disjoint.\<close>

definition rgb_numeral :: "string \<Rightarrow> (string \<times> string) option" where
  "rgb_numeral s =
     (let (ds, r) = span_digits (dropWhile is_ws s)
      in if ds = [] then None else Some (ds, dropWhile is_ws r))"

definition skip_char :: "char \<Rightarrow> string \<Rightarrow> string option" where
  "skip_char c s = (case s of [] \<Rightarrow> None | d # r \<Rightarrow> if d = c then Some r else None)"

definition rgbRegex :: "string \<Rightarrow> (string \<times> string \<times> string) option" where
  "rgbRegex s =
     (if \<not> prefix ''rgb('' s then None
      else Option.bind (rgb_numeral (drop 4 s)) (\<lambda>(r, s1).
           Option.bind (skip_char (CHR '','') s1) (\<lambda>s2.
           Option.bind (rgb_numeral s2) (\<lambda>(g, s3).
           Option.bind (skip_char (CHR '','') s3) (\<lambda>s4.
           Option.bind (rgb_numeral s4) (\<lambda>(b, s5).
             if s5 = '')'' then Some (r, g, b) else None))))))"

text \<open>\<open>r * 0.299 + g * 0.587 + b * 0.114 > thresholds\<close>, false when a channel is not a number.\<close>

fun luminance_above :: "jsnum \<Rightarrow> jsnum \<Rightarrow> jsnum \<Rightarrow> rat \<Rightarrow> bool" where
  "luminance_above (Fin r) (Fin g) (Fin b) thresholds =
     (r * (299 / 1000) + g * (587 / 1000) + b * (114 / 1000) > thresholds)"
| "luminance_above _ _ _ _ = False"

definition color_channels :: "string \<Rightarrow> (jsnum \<times> jsnum \<times> jsnum) res" where
  "color_channels color =
     (if 7 < length color then
        (case rgbRegex color of
           None \<Rightarrow> Inl (InvalidColor color)
         | Some (r, g, b) \<Rightarrow> Inr (parseInt10 r, parseInt10 g, parseInt10 b))
      else
        let hex0 = (if prefix ''#'' color then drop 1 color else color);
            hex = (if length hex0 = 3
                   then [hex0 ! 0, hex0 ! 0, hex0 ! 1, hex0 ! 1, hex0 ! 2, hex0 ! 2] else hex0)
        in if length hex \<noteq> 6 then Inl (InvalidColor color)
           else Inr (parseInt16 (take 2 hex), parseInt16 (take 2 (drop 2 hex)), parseInt16 (take 2 (drop 4 hex))))"

definition getContrastingColor :: "string \<Rightarrow> rat \<Rightarrow> string res" where
  "getContrastingColor color thresholds =
     rbind (color_channels color) (\<lambda>(r, g, b).
       Inr (if luminance_above r g b thresholds then ''#000'' else ''#FFF''))"

section \<open>Analogous colours\<close>

text \<open>One round of the loop: \<open>colors.shift()\<close> of every list, whose \<open>toHexString\<close> needs an element.\<close>

definition shift_color :: "string list \<Rightarrow> (string \<times> string list) res" where
  "shift_color colors = (case colors of [] \<Rightarrow> Inl TypeError | c # cs \<Rightarrow> Inr (c, cs))"

lemma shift_round_last:
  "rmap shift_color xs = Inr ps \<Longrightarrow> xs \<noteq> [] \<Longrightarrow> last xs = fst (last ps) # snd (last ps)"
proof (induction xs arbitrary: ps)
  case (Cons x xs)
  then show ?case
    by (cases xs) (auto simp: rbind_Inr_iff shift_color_def split: list.splits)
qed simp

function analogous_loop :: "string list list \<Rightarrow> string list \<Rightarrow> string list res" where
  "analogous_loop analogousColors generatedColors =
     (if analogousColors \<noteq> [] \<and> last analogousColors \<noteq> [] then
        rbind (rmap shift_color analogousColors) (\<lambda>round.
          analogous_loop (map snd round) (generatedColors @ map fst round))
      else Inr generatedColors)"
  by auto

termination analogous_loop
proof (relation "measure (\<lambda>(xs, _). length (last xs))")
  fix xs gen ps
  assume "xs \<noteq> [] \<and> last xs \<noteq> []" and "rmap shift_color xs = Inr ps"
  then show "((map snd ps, gen @ map fst ps), (xs, gen)) \<in> measure (\<lambda>(xs, _). length (last xs))"
    using shift_round_last [of xs ps] rmap_length [of shift_color xs ps]
    by (cases ps) (auto simp: last_map)
qed simp

declare analogous_loop.simps [simp del]

definition getAnalogousColors ::
    "(string \<Rightarrow> enat \<Rightarrow> string list) \<Rightarrow> string list \<Rightarrow> enat \<Rightarrow> string list res" where
  "getAnalogousColors analogous colors results =
     analogous_loop (map (\<lambda>color. drop 3 (analogous color (results + 3))) colors) []"

section \<open>Alpha\<close>

definition slice_last2 :: "string \<Rightarrow> string" where
  "slice_last2 s = drop (length s - 2) s"

definition round_half_up :: "rat \<Rightarrow> int" where
  "round_half_up q = floor (q + 1 / 2)"

definition addAlpha :: "string \<Rightarrow> jsnum \<Rightarrow> string res" where
  "addAlpha color opacity =
     (let alpha = (\<lambda>digits. color @ slice_last2 (CHR ''0'' # map to_upper digits))
      in case opacity of
           PosInf \<Rightarrow> Inl InvalidOpacity
         | NegInf \<Rightarrow> Inl InvalidOpacity
         | NaN \<Rightarrow> Inr (alpha ''NaN'')
         | Fin q \<Rightarrow> if q > 1 \<or> q < 0 then Inl InvalidOpacity
                   else Inr (alpha (int_to_hex (round_half_up (q * 255)))))"

section \<open>Notations\<close>

definition hexToRgb :: "string \<Rightarrow> string" where
  "hexToRgb h =
     (let hex = (\<lambda>i j. ''0x'' @ [h ! i, h ! j]);
          (r, g, b) =
            (if length h = 4 then (hex 1 1, hex 2 2, hex 3 3)
             else if length h = 7 then (hex 1 2, hex 3 4, hex 5 6)
             else (''0'', ''0'', ''0''))
      in ''rgb('' @ num_to_string (str_number r) @ '', '' @ num_to_string (str_number g) @ '', '' @
         num_to_string (str_number b) @ '')'')"

definition pad2 :: "string \<Rightarrow> string" where
  "pad2 s = (if length s = 1 then CHR ''0'' # s else s)"

definition rgbToHex :: "int \<Rightarrow> int \<Rightarrow> int \<Rightarrow> string" where
  "rgbToHex red green blue =
     ''#'' @ pad2 (int_to_hex red) @ pad2 (int_to_hex green) @ pad2 (int_to_hex blue)"

section \<open>Facts on numerals\<close>

lemma char_of_zero: "char_of (48::nat) = CHR ''0''"
  by code_simp

lemma hex_val_digit: "n < 16 \<Longrightarrow> hex_val (hex_digit n) = Some n"
  by (simp add: hex_val_def hex_digit_def Let_def)

lemma hex_digit_not_ws: "n < 16 \<Longrightarrow> \<not> is_ws (hex_digit n)"
  by (auto simp: is_ws_def hex_digit_def)

definition byte_hex :: "nat \<Rightarrow> string" where
  "byte_hex n = [hex_digit (n div 16), hex_digit (n mod 16)]"

lemma byte_digits: "n < 256 \<Longrightarrow> n div 16 < 16 \<and> n mod 16 < (16::nat)"
  by auto

lemma pad2_byte:
  assumes "n < 256"
  shows "pad2 (int_to_hex (int n)) = byte_hex n"
proof (cases "n < 16")
  case True
  then show ?thesis
    by (simp add: pad2_def int_to_hex_def byte_hex_def show_hex.simps [of n])
      (simp add: hex_digit_def char_of_zero)
next
  case False
  then have "show_hex n = byte_hex n"
    using assms by (simp add: byte_hex_def show_hex.simps [of n] show_hex.simps [of "n div 16"])
  then show ?thesis by (simp add: pad2_def int_to_hex_def byte_hex_def)
qed

lemma radix_byte: "n < 256 \<Longrightarrow> radix_number 16 (byte_hex n) = num_of_nat n"
  using byte_digits [of n] by (simp add: radix_number_def byte_hex_def hex_val_digit)

lemma str_number_byte:
  assumes "n < 256"
  shows "str_number (''0x'' @ byte_hex n) = num_of_nat n"
proof -
  have "str_trim (''0x'' @ byte_hex n) = ''0x'' @ byte_hex n"
    using byte_digits [OF assms] hex_digit_not_ws
    by (intro str_trim_id) (simp_all add: byte_hex_def is_ws_def)
  then show ?thesis using radix_byte [OF assms] by (simp add: str_number_def Let_def)
qed

lemma hex_digit_val: "n < 16 \<Longrightarrow> of_char (hex_digit n) = (if n < 10 then 48 + n else 87 + n)"
  by (auto simp: hex_digit_def)

lemma hex_digit_neq:
  assumes "n < 16"
  shows "hex_digit n \<noteq> CHR ''-''" "hex_digit n \<noteq> CHR ''+''" "hex_digit n \<noteq> CHR ''x''" "hex_digit n \<noteq> CHR ''X''"
proof -
  have c: "hex_val (hex_digit n) = Some n" by (rule hex_val_digit [OF assms])
  have "hex_val (CHR ''-'') = None" "hex_val (CHR ''+'') = None" "hex_val (CHR ''x'') = None"
    "hex_val (CHR ''X'') = None" by (simp_all add: hex_val_def)
  with c show "hex_digit n \<noteq> CHR ''-''" "hex_digit n \<noteq> CHR ''+''" "hex_digit n \<noteq> CHR ''x''"
    "hex_digit n \<noteq> CHR ''X''" by (metis option.distinct(1))+
qed

lemma parseInt16_byte:
  assumes "n < 256"
  shows "parseInt16 (byte_hex n) = num_of_nat n"
proof -
  have d: "n div 16 < 16" "n mod 16 < 16" using assms by auto
  have "str_trim_start (byte_hex n) = byte_hex n"
    using hex_digit_not_ws [OF d(1)] by (simp add: str_trim_start_def byte_hex_def)
  moreover have "split_sign (byte_hex n) = (False, byte_hex n)"
    using hex_digit_neq [OF d(1)] by (simp add: byte_hex_def)
  moreover have "\<not> prefix ''0x'' (byte_hex n)" "\<not> prefix ''0X'' (byte_hex n)"
    using hex_digit_neq [OF d(2)] by (auto simp: byte_hex_def)
  moreover have "takeWhile (\<lambda>c. hex_val c \<noteq> None) (byte_hex n) = byte_hex n"
    using d by (simp add: byte_hex_def hex_val_digit)
  ultimately show ?thesis
    using radix_byte [OF assms] unfolding parseInt16_def Let_def by (simp only: case_prod_conv if_False simp_thms jsnum.case)
qed

section \<open>Conversions of a colour\<close>

text \<open>The decimal notation of a colour, as the pattern reads it.\<close>

definition rgb_text :: "nat \<Rightarrow> nat \<Rightarrow> nat \<Rightarrow> string" where
  "rgb_text r g b = ''rgb('' @ show_nat r @ '', '' @ show_nat g @ '', '' @ show_nat b @ '')''"

lemma num_to_string_nat: "num_to_string (num_of_nat n) = show_nat n"
  using num_to_string_int [of "int n"] by (simp add: show_int_def)

lemma rgbToHex_bytes:
  "r < 256 \<Longrightarrow> g < 256 \<Longrightarrow> b < 256 \<Longrightarrow>
   rgbToHex (int r) (int g) (int b) = ''#'' @ byte_hex r @ byte_hex g @ byte_hex b"
  by (simp add: rgbToHex_def pad2_byte)

lemma hexToRgb_bytes:
  assumes "r < 256" "g < 256" "b < 256"
  shows "hexToRgb (''#'' @ byte_hex r @ byte_hex g @ byte_hex b) = rgb_text r g b"
  using str_number_byte [OF assms(1)] str_number_byte [OF assms(2)] str_number_byte [OF assms(3)]
  by (simp add: hexToRgb_def byte_hex_def rgb_text_def num_to_string_nat
    del: num_to_string.simps)

lemma show_nat_span:
  "\<not> is_digit c \<Longrightarrow> span_digits (show_nat n @ c # s) = (show_nat n, c # s)"
  using show_nat_digits [of n] by (simp add: span_digits_def list_all_iff)

lemma digit_not_ws: "is_digit c \<Longrightarrow> \<not> is_ws c"
  by (auto simp: is_digit_def is_ws_def)

lemma rgb_numeral_show:
  assumes "\<not> is_digit c" and "\<not> is_ws c"
  shows "rgb_numeral (show_nat n @ c # s) = Some (show_nat n, c # s)"
    and "rgb_numeral (CHR '' '' # show_nat n @ c # s) = Some (show_nat n, c # s)"
proof -
  obtain d t where d: "show_nat n = d # t" by (metis neq_Nil_conv show_nat_nonempty)
  then have "\<not> is_ws d" using show_nat_digits [of n] digit_not_ws by simp
  then have "dropWhile is_ws (show_nat n @ c # s) = show_nat n @ c # s" by (simp add: d)
  then show "rgb_numeral (show_nat n @ c # s) = Some (show_nat n, c # s)"
    and "rgb_numeral (CHR '' '' # show_nat n @ c # s) = Some (show_nat n, c # s)"
    using show_nat_span [OF assms(1)] assms(2) by (simp_all add: rgb_numeral_def is_ws_def)
qed

lemma rgbRegex_text: "rgbRegex (rgb_text r g b) = Some (show_nat r, show_nat g, show_nat b)"
proof -
  have c: "\<not> is_digit (CHR '','')" "\<not> is_ws (CHR '','')" "\<not> is_digit (CHR '')'')" "\<not> is_ws (CHR '')'')"
    by (simp_all add: is_digit_def is_ws_def)
  show ?thesis
    using rgb_numeral_show [OF c(1,2)] rgb_numeral_show [OF c(3,4)]
    by (simp add: rgbRegex_def rgb_text_def skip_char_def)
qed

lemma color_channels_notations:
  assumes "r < 256" "g < 256" "b < 256"
  shows "color_channels (rgb_text r g b) = Inr (num_of_nat r, num_of_nat g, num_of_nat b)"
    and "color_channels (''#'' @ byte_hex r @ byte_hex g @ byte_hex b) = Inr (num_of_nat r, num_of_nat g, num_of_nat b)"
proof -
  have "0 < length (show_nat r)" "0 < length (show_nat g)" "0 < length (show_nat b)" by simp_all
  then have "7 < length (rgb_text r g b)" unfolding rgb_text_def by (simp del: length_greater_0_conv)
  moreover have "parseInt10 (show_nat n) = num_of_nat n" for n
    using parseInt10_show_int [of "int n"] by (simp add: show_int_def)
  ultimately show "color_channels (rgb_text r g b) = Inr (num_of_nat r, num_of_nat g, num_of_nat b)"
    by (simp add: color_channels_def rgbRegex_text)
  show "color_channels (''#'' @ byte_hex r @ byte_hex g @ byte_hex b) = Inr (num_of_nat r, num_of_nat g, num_of_nat b)"
    using parseInt16_byte [OF assms(1)] parseInt16_byte [OF assms(2)] parseInt16_byte [OF assms(3)]
    by (simp add: color_channels_def byte_hex_def)
qed



section \<open>Alpha channel\<close>

lemma byte_bounds:
  assumes "0 \<le> q" and "q \<le> (1::rat)"
  shows "0 \<le> round_half_up (q * 255) \<and> round_half_up (q * 255) < 256"
  using assms unfolding round_half_up_def by (simp add: floor_less_iff le_floor_iff)

lemma slice_byte:
  assumes "n < 256"
  shows "slice_last2 (CHR ''0'' # map to_upper (int_to_hex (int n))) = map to_upper (byte_hex n)"
proof -
  have "to_upper (CHR ''0'') = CHR ''0''" by code_simp
  then have "slice_last2 (CHR ''0'' # map to_upper s) = map to_upper (pad2 s)"
    if "length s = 1 \<or> length s = 2" for s
    using that by (auto simp: slice_last2_def pad2_def)
  moreover have "length (int_to_hex (int n)) = 1 \<or> length (int_to_hex (int n)) = 2"
    using assms by (auto simp: int_to_hex_def show_hex.simps [of n] show_hex.simps [of "n div 16"])
  ultimately show ?thesis by (simp add: pad2_byte [OF assms])
qed

text \<open>
  Alpha channel. An opacity outside 0 to 1 is refused; any other opacity appends exactly two
  upper-case hexadecimal digits, those of the opacity scaled to 255 and rounded, which is at most
  255.
\<close>

lemma addAlpha_spec:
  defines "level \<equiv> \<lambda>q. nat (round_half_up (q * 255))"
  shows "addAlpha color (Fin q) =
     (if 0 \<le> q \<and> q \<le> 1
      then Inr (color @ [to_upper (hex_digit (level q div 16)), to_upper (hex_digit (level q mod 16))])
      else Inl InvalidOpacity)
    \<and> (0 \<le> q \<and> q \<le> 1 \<longrightarrow> level q \<le> 255)"
proof (cases "0 \<le> q \<and> q \<le> 1")
  case True
  with byte_bounds [of q] have b: "0 \<le> round_half_up (q * 255)" "round_half_up (q * 255) < 256" by auto
  then have "level q < 256" by (simp add: level_def)
  moreover from this b have "slice_last2 (CHR ''0'' # map to_upper (int_to_hex (round_half_up (q * 255))))
      = map to_upper (byte_hex (level q))"
    using slice_byte [of "level q"] by (simp add: level_def)
  ultimately show ?thesis using True by (auto simp: addAlpha_def byte_hex_def Let_def)
qed (auto simp: addAlpha_def Let_def)

text \<open>Half opacity.\<close>

text \<open>An opacity that is not a number passes the check and appends letters that are no alpha value.\<close>

lemma addAlpha_NaN: "addAlpha color NaN = Inr (color @ ''AN'')"
proof -
  have "map to_upper ''NaN'' = ''NAN''" by code_simp
  then show ?thesis by (simp add: addAlpha_def slice_last2_def Let_def)
qed

section \<open>Analogous colours\<close>

lemma shift_round:
  assumes "\<And>xs. xs \<in> set xss \<Longrightarrow> xs \<noteq> []"
  shows "rmap shift_color xss = Inr (map (\<lambda>xs. (hd xs, tl xs)) xss)"
  using assms by (intro rmap_total) (auto simp: shift_color_def split: list.splits)

lemma analogous_loop_rounds:
  assumes "\<forall>xs\<in>set xss. length xs = n"
  shows "analogous_loop xss gen = Inr (gen @ concat (map (\<lambda>k. map (\<lambda>xs. xs ! k) xss) [0..<n]))"
  using assms
proof (induction n arbitrary: xss gen)
  case 0
  then have "xss = [] \<or> last xss = []" using last_in_set by fastforce
  then show ?case by (subst analogous_loop.simps) auto
next
  case (Suc n)
  show ?case
  proof (cases "xss = []")
    case True
    have "concat (map (\<lambda>k. []) ks) = []" for ks :: "nat list" by (induction ks) simp_all
    with True show ?thesis by (subst analogous_loop.simps) simp
  next
    case False
    then have "last xss \<noteq> []" using Suc.prems last_in_set [OF False] by (metis length_0_conv nat.distinct(1))
    moreover have "rmap shift_color xss = Inr (map (\<lambda>xs. (hd xs, tl xs)) xss)"
      using Suc.prems by (intro shift_round) auto
    ultimately have "analogous_loop xss gen = analogous_loop (map tl xss) (gen @ map hd xss)"
      using False by (subst analogous_loop.simps) (simp add: comp_def)
    also have "\<dots> = Inr ((gen @ map hd xss) @ concat (map (\<lambda>k. map (\<lambda>xs. xs ! k) (map tl xss)) [0..<n]))"
      using Suc.prems by (intro Suc.IH) auto
    also have "map hd xss = map (\<lambda>xs. xs ! 0) xss"
      using Suc.prems by (intro map_cong) (auto simp: hd_conv_nth length_Suc_conv)
    also have "map (\<lambda>k. map (\<lambda>xs. xs ! k) (map tl xss)) [0..<n] = map (\<lambda>k. map (\<lambda>xs. xs ! Suc k) xss) [0..<n]"
      using Suc.prems by (auto intro!: map_cong simp: nth_tl)
    also have "Inr ((gen @ map (\<lambda>xs. xs ! 0) xss) @ concat (map (\<lambda>k. map (\<lambda>xs. xs ! Suc k) xss) [0..<n])) =
        Inr (gen @ concat (map (\<lambda>k. map (\<lambda>xs. xs ! k) xss) (0 # map Suc [0..<n])))"
      by (simp add: comp_def)
    also have "0 # map Suc [0..<n] = [0..<Suc n]" by (simp only: map_Suc_upt upt_conv_Cons zero_less_Suc)
    finally show ?thesis .
  qed
qed

lemma getAnalogousColors_interleaves:
  assumes "\<forall>c\<in>set colors. length (analogous c (enat (n + 3))) = n + 3"
  shows "getAnalogousColors analogous colors (enat n) =
     Inr (concat (map (\<lambda>k. map (\<lambda>c. analogous c (enat (n + 3)) ! (3 + k)) colors) [0..<n]))"
proof -
  have e: "enat n + 3 = enat (n + 3)" by (metis numeral_eq_enat plus_enat_simps(1))
  have "analogous_loop (map (\<lambda>color. drop 3 (analogous color (enat (n + 3)))) colors) [] =
      Inr ([] @ concat (map (\<lambda>k. map (\<lambda>xs. xs ! k) (map (\<lambda>color. drop 3 (analogous color (enat (n + 3)))) colors)) [0..<n]))"
    using assms by (intro analogous_loop_rounds) simp
  also have "\<dots> = Inr (concat (map (\<lambda>k. map (\<lambda>c. analogous c (enat (n + 3)) ! (3 + k)) colors) [0..<n]))"
    using assms by (auto simp: comp_def intro!: arg_cong [of _ _ concat])
  finally show ?thesis unfolding getAnalogousColors_def e .
qed

lemma getAnalogousColors_none: "getAnalogousColors analogous [] n = Inr []"
  by (simp add: getAnalogousColors_def analogous_loop.simps)

end
