(* ===== verification/ColorScale.thy ===== *)
theory ColorScale
  imports ColorUtils Registry
begin

text \<open>
  Categorical colours: the scale of a chart (\<open>CategoricalColorScale.ts\<close>), the map that the
  charts of a dashboard share (\<open>LabelsColorMapSingleton.ts\<close>), the namespaces with the custom
  colours (\<open>CategoricalColorNamespace.ts\<close>), the scheme registry (\<open>ColorSchemeRegistry.ts\<close>) and
  the operations of the dashboard on them (\<open>src/utils/colorScheme.ts\<close>).

  A namespace and the scales it creates share one object of custom colours, so these objects live
  in a store and are passed by address. The ordinal scale of the charting library, the analogous
  colours of the colour library and the two feature flags are fields of the environment.
\<close>

section \<open>Colours\<close>

text \<open>
  What the code holds where a colour is expected: a string, the index of a colour in a scheme,
  \<open>undefined\<close>, or the property of that name that every object inherits.
\<close>

datatype color = Color string | ColorIndex int | NoColor | Builtin string

fun color_truthy :: "color \<Rightarrow> bool" where
  "color_truthy (Color s) = (s \<noteq> [])"
| "color_truthy (ColorIndex i) = (i \<noteq> 0)"
| "color_truthy NoColor = False"
| "color_truthy (Builtin _) = True"

text \<open>The ordinal scale: \<open>scaleOrdinal()\<close>, its call, and its accessors (\<open>None\<close> is \<open>implicit\<close>).\<close>

record 'd d3_ordinal =
  d3_new :: 'd
  d3_call :: "string \<Rightarrow> 'd \<Rightarrow> color \<times> 'd"
  d3_domain :: "'d \<Rightarrow> string list"
  d3_set_domain :: "string list \<Rightarrow> 'd \<Rightarrow> 'd"
  d3_range :: "'d \<Rightarrow> string list"
  d3_set_range :: "string list \<Rightarrow> 'd \<Rightarrow> 'd"
  d3_unknown :: "'d \<Rightarrow> color option"
  d3_set_unknown :: "color option \<Rightarrow> 'd \<Rightarrow> 'd"

section \<open>Schemes\<close>

record ColorScheme =
  cs_id :: string
  cs_label :: string
  cs_colors :: "string list"
  cs_description :: string
  cs_isDefault :: "bool option"
  cs_group :: "string option"

definition newColorScheme ::
    "string list \<Rightarrow> string option \<Rightarrow> string \<Rightarrow> string option \<Rightarrow> bool option \<Rightarrow> string option \<Rightarrow> ColorScheme" where
  "newColorScheme colors description i label isDefault grp =
     \<lparr>cs_id = i, cs_label = (case label of None \<Rightarrow> i | Some l \<Rightarrow> l), cs_colors = colors,
      cs_description = (case description of None \<Rightarrow> [] | Some d \<Rightarrow> d), cs_isDefault = isDefault, cs_group = grp\<rparr>"

text \<open>A loader of a scheme is what it returns.\<close>

type_synonym scheme_registry = "(ColorScheme, ColorScheme option res, unit) registry_dk"

definition newColorSchemeRegistry :: scheme_registry where
  "newColorSchemeRegistry = newRegistryWithDefaultKey (Some ''ColorScheme'') (Some Warn) None True"

definition scheme_get :: "scheme_registry \<Rightarrow> string option \<Rightarrow> bool \<Rightarrow> ColorScheme option res" where
  "scheme_get r key strict =
     rbind (dk_get id r key) (\<lambda>target.
       if \<not> strict \<and> target = None then
         (case getDefaultKey r of
            None \<Rightarrow> Inr target
          | Some d \<Rightarrow> if d = [] then Inr target else dk_get id r (Some d))
       else Inr target)"

record 'd color_env =
  ce_d3 :: "'d d3_ordinal"
  ce_analogous :: "string \<Rightarrow> enat \<Rightarrow> string list"
  UseAnalogousColors :: bool
  AvoidColorsCollision :: bool
  ce_schemes :: scheme_registry

section \<open>The shared map\<close>

datatype LabelsColorMapSource = Dashboard | Explore

record chart_config =
  cc_labels :: "string list"
  cc_scheme :: "string option"
  cc_ownScheme :: "string option"

record LabelsColorMap =
  chartsLabelsMap :: "(int, chart_config) jmap"
  colorMap :: "(string, color) jmap"
  lm_source :: LabelsColorMapSource

definition newLabelsColorMap :: LabelsColorMap where
  "newLabelsColorMap = \<lparr>chartsLabelsMap = [], colorMap = [], lm_source = Dashboard\<rparr>"

definition labels_addSlice ::
    "string \<Rightarrow> color \<Rightarrow> int \<Rightarrow> string option \<Rightarrow> LabelsColorMap \<Rightarrow> LabelsColorMap" where
  "labels_addSlice label color sliceId colorScheme m =
     (let chartConfig = (case map_of (chartsLabelsMap m) sliceId of
             Some c \<Rightarrow> c
           | None \<Rightarrow> \<lparr>cc_labels = [], cc_scheme = None, cc_ownScheme = None\<rparr>);
          labels = cc_labels chartConfig;
          m1 = (if label \<notin> set labels
                then m\<lparr>chartsLabelsMap := AList.update sliceId
                        \<lparr>cc_labels = labels @ [label], cc_scheme = colorScheme,
                         cc_ownScheme = cc_ownScheme chartConfig\<rparr> (chartsLabelsMap m)\<rparr>
                else m)
      in if lm_source m = Dashboard then m1\<lparr>colorMap := AList.update label color (colorMap m1)\<rparr> else m1)"

definition labels_setOwnColorScheme :: "int \<Rightarrow> string \<Rightarrow> LabelsColorMap \<Rightarrow> LabelsColorMap" where
  "labels_setOwnColorScheme sliceId ownScheme m =
     (case map_of (chartsLabelsMap m) sliceId of
        None \<Rightarrow> m
      | Some chartConfig \<Rightarrow> m\<lparr>chartsLabelsMap :=
          AList.update sliceId (chartConfig\<lparr>cc_ownScheme := Some ownScheme\<rparr>) (chartsLabelsMap m)\<rparr>)"

definition map_get :: "(string, color) jmap \<Rightarrow> string \<Rightarrow> color" where
  "map_get m k = (case map_of m k of None \<Rightarrow> NoColor | Some c \<Rightarrow> c)"

definition labels_removeSlice :: "int \<Rightarrow> LabelsColorMap \<Rightarrow> LabelsColorMap" where
  "labels_removeSlice sliceId m =
     (if lm_source m \<noteq> Dashboard then m
      else
        let charts = AList.delete sliceId (chartsLabelsMap m);
            newColorMap = fold (\<lambda>(_, chartConfig) acc.
              fold (\<lambda>label acc. AList.update label (map_get (colorMap m) label) acc) (cc_labels chartConfig) acc)
              charts []
        in m\<lparr>chartsLabelsMap := charts, colorMap := newColorMap\<rparr>)"

definition labels_clear :: "LabelsColorMap \<Rightarrow> LabelsColorMap" where
  "labels_clear m = m\<lparr>colorMap := []\<rparr>"

definition labels_reset :: "LabelsColorMap \<Rightarrow> LabelsColorMap" where
  "labels_reset m = (labels_clear m)\<lparr>chartsLabelsMap := []\<rparr>"

section \<open>The state\<close>

text \<open>
  The objects of custom colours by address, the shared map, and for each namespace the address of
  its custom colours (\<open>forcedItems\<close>).
\<close>

record color_world =
  cw_lookups :: "color obj list"
  cw_labels :: LabelsColorMap
  cw_namespaces :: "nat obj"

definition forced_color :: "color_world \<Rightarrow> nat \<Rightarrow> string \<Rightarrow> color" where
  "forced_color w a key =
     (case slot_of (cw_lookups w ! a) key of Own c \<Rightarrow> c | Inherited \<Rightarrow> Builtin key | Absent \<Rightarrow> NoColor)"

definition set_forced :: "nat \<Rightarrow> string \<Rightarrow> color \<Rightarrow> color_world \<Rightarrow> color_world" where
  "set_forced a key c w = w\<lparr>cw_lookups := (cw_lookups w)[a := typed_set (cw_lookups w ! a) key c]\<rparr>"

definition new_lookup :: "color obj \<Rightarrow> color_world \<Rightarrow> nat \<times> color_world" where
  "new_lookup ob w = (length (cw_lookups w), w\<lparr>cw_lookups := cw_lookups w @ [ob]\<rparr>)"

section \<open>The scale of a chart\<close>

record 'd CategoricalColorScale =
  originColors :: "string list"
  sc_colors :: "string list"
  sc_scale :: 'd
  forcedColors :: nat
  chartLabelsColorMap :: "(string, color) jmap"
  sc_multiple :: enat
  appliedColorScheme :: "string option"

text \<open>\<open>colors[value % colors.length]\<close>, with the remainder of the sign of the dividend.\<close>

definition color_at :: "string list \<Rightarrow> int \<Rightarrow> color" where
  "color_at colors i =
     (let r = nat (abs i) mod length colors
      in if colors = [] \<or> i < 0 \<and> r \<noteq> 0 then NoColor else Color (colors ! r))"

definition reserve_color :: "string list \<Rightarrow> nat \<Rightarrow> string \<times> color \<Rightarrow> color_world \<Rightarrow> color_world" where
  "reserve_color colors a entry w =
     (case entry of (key, ColorIndex i) \<Rightarrow> set_forced a key (color_at colors i) w | _ \<Rightarrow> w)"

definition newCategoricalColorScale ::
    "'d color_env \<Rightarrow> string list \<Rightarrow> nat \<Rightarrow> string option \<Rightarrow> color_world \<Rightarrow> 'd CategoricalColorScale \<times> color_world" where
  "newCategoricalColorScale env colors a applied w =
     (\<lparr>originColors = colors, sc_colors = colors,
       sc_scale = d3_set_range (ce_d3 env) colors (d3_new (ce_d3 env)),
       forcedColors = a, chartLabelsColorMap = [], sc_multiple = 0, appliedColorScheme = applied\<rparr>,
      fold (reserve_color colors a) (cw_lookups w ! a) w)"

definition scale_domain :: "'d color_env \<Rightarrow> 'd CategoricalColorScale \<Rightarrow> string list" where
  "scale_domain env sc = d3_domain (ce_d3 env) (sc_scale sc)"

definition scale_set_domain :: "'d color_env \<Rightarrow> string list \<Rightarrow> 'd CategoricalColorScale \<Rightarrow> 'd CategoricalColorScale" where
  "scale_set_domain env newDomain sc = sc\<lparr>sc_scale := d3_set_domain (ce_d3 env) newDomain (sc_scale sc)\<rparr>"

definition scale_set_range :: "'d color_env \<Rightarrow> string list \<Rightarrow> 'd CategoricalColorScale \<Rightarrow> 'd CategoricalColorScale" where
  "scale_set_range env newRange sc =
     sc\<lparr>sc_colors := newRange, sc_scale := d3_set_range (ce_d3 env) newRange (sc_scale sc)\<rparr>"

definition scale_set_unknown :: "'d color_env \<Rightarrow> color option \<Rightarrow> 'd CategoricalColorScale \<Rightarrow> 'd CategoricalColorScale" where
  "scale_set_unknown env v sc = sc\<lparr>sc_scale := d3_set_unknown (ce_d3 env) v (sc_scale sc)\<rparr>"

text \<open>
  The quotient of the lengths, rounded down: infinite for a scheme without colours. Without
  labels and colours it is no number, which no number is below.
\<close>

definition range_multiple :: "nat \<Rightarrow> nat \<Rightarrow> enat" where
  "range_multiple labels colors =
     (if colors = 0 then (if labels = 0 then 0 else \<infinity>) else enat (labels div colors))"

definition incrementColorRange :: "'d color_env \<Rightarrow> 'd CategoricalColorScale \<Rightarrow> 'd CategoricalColorScale res" where
  "incrementColorRange env sc =
     (let multiple = range_multiple (length (scale_domain env sc)) (length (originColors sc))
      in if multiple > sc_multiple sc then
           rbind (getAnalogousColors (ce_analogous env) (originColors sc) multiple) (\<lambda>newRange.
             Inr (scale_set_range env (originColors sc @ newRange) (sc\<lparr>sc_multiple := multiple\<rparr>)))
         else Inr sc)"

definition getColorUsageCount :: "'d CategoricalColorScale \<Rightarrow> color \<Rightarrow> nat" where
  "getColorUsageCount sc color = length (filter (\<lambda>v. v = color) (map snd (chartLabelsColorMap sc)))"

definition isColorUsed :: "'d CategoricalColorScale \<Rightarrow> color \<Rightarrow> bool" where
  "isColorUsed sc color \<longleftrightarrow> getColorUsageCount sc color > 0"

text \<open>The colours next to a label; \<open>indexOf\<close> is -1 for a label that is not in the map.\<close>

definition adjacentColors :: "'d CategoricalColorScale \<Rightarrow> string \<Rightarrow> color list" where
  "adjacentColors sc currentLabel =
     (let orderedLabels = map fst (chartLabelsColorMap sc);
          i = (case find_index (\<lambda>l. l = currentLabel) orderedLabels of None \<Rightarrow> -1 | Some n \<Rightarrow> int n);
          previousLabel = (if i > 0 then Some (orderedLabels ! nat (i - 1)) else None);
          nextLabel = (if i < int (length orderedLabels) - 1 then Some (orderedLabels ! nat (i + 1)) else None);
          color_of = (\<lambda>label. case label of None \<Rightarrow> NoColor
             | Some l \<Rightarrow> if l = [] then NoColor else map_get (chartLabelsColorMap sc) l)
      in filter color_truthy [color_of previousLabel, color_of nextLabel])"

definition colorUsageCounts :: "'d CategoricalColorScale \<Rightarrow> (color, nat) jmap" where
  "colorUsageCounts sc =
     fold (\<lambda>c. AList.update c (getColorUsageCount sc c)) (map Color (sc_colors sc)) []"

definition usage_count :: "'d CategoricalColorScale \<Rightarrow> color \<Rightarrow> nat" where
  "usage_count sc color = (case map_of (colorUsageCounts sc) color of None \<Rightarrow> 0 | Some n \<Rightarrow> n)"

definition calculateScore :: "'d CategoricalColorScale \<Rightarrow> string \<Rightarrow> color \<Rightarrow> nat" where
  "calculateScore sc currentLabel color =
     usage_count sc color + (if color \<in> set (adjacentColors sc currentLabel) then 100 else 0)"

definition getNextAvailableColor :: "'d CategoricalColorScale \<Rightarrow> string \<Rightarrow> color \<Rightarrow> color" where
  "getNextAvailableColor sc currentLabel currentColor =
     (let best = foldl (\<lambda>bestColor color.
            if calculateScore sc currentLabel color < calculateScore sc currentLabel bestColor
            then color else bestColor) currentColor (filter (\<lambda>c. c \<noteq> currentColor) (map Color (sc_colors sc)))
      in case find (\<lambda>c. usage_count sc c = 0) (map Color (sc_colors sc)) of
           Some unused \<Rightarrow> if color_truthy unused then unused else best
         | None \<Rightarrow> best)"

text \<open>\<open>if (sliceId) labelsColorMapInstance.addSlice(...)\<close>.\<close>

definition note_slice :: "string \<Rightarrow> color \<Rightarrow> int option \<Rightarrow> string option \<Rightarrow> color_world \<Rightarrow> color_world" where
  "note_slice label color sliceId applied w =
     (case sliceId of
        None \<Rightarrow> w
      | Some n \<Rightarrow> if n = 0 then w
                else w\<lparr>cw_labels := labels_addSlice label color n applied (cw_labels w)\<rparr>)"

definition getColor ::
    "'d color_env \<Rightarrow> jsval \<Rightarrow> int option \<Rightarrow> string option \<Rightarrow> 'd CategoricalColorScale \<Rightarrow> color_world \<Rightarrow>
     (color \<times> 'd CategoricalColorScale \<times> color_world) res" where
  "getColor env value sliceId applied sc w =
     (let cleanedValue = stringifyAndTrim value;
          forcedColor = forced_color w (forcedColors sc) cleanedValue;
          currentColorMap = (if lm_source (cw_labels w) = Dashboard then colorMap (cw_labels w)
                             else chartLabelsColorMap sc);
          isExistingLabel = map_of currentColorMap cleanedValue \<noteq> None;
          (color0, sc1) =
            (if color_truthy forcedColor then (forcedColor, sc)
             else if isExistingLabel then (map_get currentColorMap cleanedValue, sc)
             else let (c, d) = d3_call (ce_d3 env) cleanedValue (sc_scale sc) in (c, sc\<lparr>sc_scale := d\<rparr>))
      in rbind
           (if \<not> color_truthy forcedColor \<and> \<not> isExistingLabel then
              rbind (if UseAnalogousColors env then incrementColorRange env sc1 else Inr sc1) (\<lambda>sc2.
                Inr (if AvoidColorsCollision env \<and> isColorUsed sc2 color0
                     then getNextAvailableColor sc2 cleanedValue color0 else color0, sc2))
            else Inr (color0, sc1))
           (\<lambda>(color, sc2).
              Inr (color,
                   sc2\<lparr>chartLabelsColorMap := AList.update cleanedValue color (chartLabelsColorMap sc2)\<rparr>,
                   note_slice cleanedValue color sliceId applied w)))"

text \<open>A scale is a function itself: the call of the scale.\<close>

definition call_scale ::
    "'d color_env \<Rightarrow> jsval \<Rightarrow> int option \<Rightarrow> 'd CategoricalColorScale \<Rightarrow> color_world \<Rightarrow>
     (color \<times> 'd CategoricalColorScale \<times> color_world) res" where
  "call_scale env value sliceId sc w = getColor env value sliceId (appliedColorScheme sc) sc w"

definition scale_setColor :: "jsval \<Rightarrow> string \<Rightarrow> 'd CategoricalColorScale \<Rightarrow> color_world \<Rightarrow> color_world" where
  "scale_setColor value forcedColor sc w = set_forced (forcedColors sc) (stringifyAndTrim value) (Color forcedColor) w"

definition scale_getColorMap ::
    "'d color_env \<Rightarrow> 'd CategoricalColorScale \<Rightarrow> color_world \<Rightarrow> color obj \<times> 'd CategoricalColorScale" where
  "scale_getColorMap env sc w =
     (let (colors, d) = fold (\<lambda>value (colors, d).
            let (c, d1) = d3_call (ce_d3 env) value d in (typed_set colors value c, d1))
            (scale_domain env sc) ([], sc_scale sc)
      in (obj_assign (obj_assign [] colors) (cw_lookups w ! forcedColors sc), sc\<lparr>sc_scale := d\<rparr>))"

definition scale_copy :: "'d color_env \<Rightarrow> 'd CategoricalColorScale \<Rightarrow> color_world \<Rightarrow> 'd CategoricalColorScale \<times> color_world" where
  "scale_copy env sc w =
     (let (copy, w1) = newCategoricalColorScale env (d3_range (ce_d3 env) (sc_scale sc)) (forcedColors sc) None w;
          (a, w2) = new_lookup (obj_assign [] (cw_lookups w1 ! forcedColors sc)) w1
      in (scale_set_unknown env (d3_unknown (ce_d3 env) (sc_scale sc))
            (scale_set_domain env (scale_domain env sc) (copy\<lparr>forcedColors := a\<rparr>)), w2))"

section \<open>Namespaces\<close>

definition DEFAULT_NAMESPACE :: string where
  "DEFAULT_NAMESPACE = ''GLOBAL''"

text \<open>
  The namespace of a name, as the address of its custom colours, and whether it had to be created.
  An inherited property of the object of namespaces is returned as it is; the method that the
  caller then calls on it does not exist.
\<close>

definition getNamespace :: "string option \<Rightarrow> color_world \<Rightarrow> (string \<times> color_world) res" where
  "getNamespace name w =
     (let n = (case name of None \<Rightarrow> DEFAULT_NAMESPACE | Some n \<Rightarrow> n)
      in case slot_of (cw_namespaces w) n of
           Own _ \<Rightarrow> Inr (n, w)
         | Inherited \<Rightarrow> Inl TypeError
         | Absent \<Rightarrow>
             let (a, w1) = new_lookup [] w
             in Inr (n, w1\<lparr>cw_namespaces := obj_put n a (cw_namespaces w1)\<rparr>))"

definition forcedItems :: "color_world \<Rightarrow> string \<Rightarrow> nat" where
  "forcedItems w n = the (map_of (cw_namespaces w) n)"

definition set_forcedItems :: "string \<Rightarrow> color obj \<Rightarrow> color_world \<Rightarrow> color_world" where
  "set_forcedItems n ob w =
     (let (a, w1) = new_lookup ob w in w1\<lparr>cw_namespaces := obj_put n a (cw_namespaces w1)\<rparr>)"

definition ns_getScale ::
    "'d color_env \<Rightarrow> string option \<Rightarrow> string \<Rightarrow> color_world \<Rightarrow> ('d CategoricalColorScale \<times> color_world) res" where
  "ns_getScale env colorScheme n w =
     (let i = (case colorScheme of Some s \<Rightarrow> s
               | None \<Rightarrow> (case getDefaultKey (ce_schemes env) of Some k \<Rightarrow> k | None \<Rightarrow> []))
      in rbind (scheme_get (ce_schemes env) (Some i) False) (\<lambda>scheme.
           Inr (newCategoricalColorScale env (case scheme of None \<Rightarrow> [] | Some s \<Rightarrow> cs_colors s)
                  (forcedItems w n) colorScheme w)))"

definition ns_setColor :: "jsval \<Rightarrow> color \<Rightarrow> string \<Rightarrow> color_world \<Rightarrow> color_world" where
  "ns_setColor value forcedColor n w = set_forced (forcedItems w n) (stringifyAndTrim value) forcedColor w"

definition ns_resetColors :: "string \<Rightarrow> color_world \<Rightarrow> color_world" where
  "ns_resetColors n w = set_forcedItems n [] w"

text \<open>A custom colour of the label \<open>hasOwnProperty\<close> hides the method of that name.\<close>

definition reset_label :: "string \<Rightarrow> color obj \<Rightarrow> color obj res" where
  "reset_label label ob =
     (if ''hasOwnProperty'' \<in> fst ` set ob then Inl TypeError
      else Inr (if label \<in> fst ` set ob then AList.delete label ob else ob))"

definition ns_resetColorsForLabels :: "string list \<Rightarrow> string \<Rightarrow> color_world \<Rightarrow> color_world res" where
  "ns_resetColorsForLabels labels n w =
     rbind (rfold reset_label labels (cw_lookups w ! forcedItems w n)) (\<lambda>updatedForcedItems.
       Inr (set_forcedItems n (obj_assign [] updatedForcedItems) w))"

definition getScale ::
    "'d color_env \<Rightarrow> string option \<Rightarrow> string option \<Rightarrow> color_world \<Rightarrow> ('d CategoricalColorScale \<times> color_world) res" where
  "getScale env colorScheme namespace w =
     rbind (getNamespace namespace w) (\<lambda>(n, w1). ns_getScale env colorScheme n w1)"

definition namespace_getColor ::
    "'d color_env \<Rightarrow> jsval \<Rightarrow> string option \<Rightarrow> string option \<Rightarrow> color_world \<Rightarrow> (color \<times> color_world) res" where
  "namespace_getColor env value colorScheme namespace w =
     rbind (getScale env colorScheme namespace w) (\<lambda>(sc, w1).
       rbind (getColor env value None None sc w1) (\<lambda>(c, _, w2). Inr (c, w2)))"

section \<open>Updating the shared map\<close>

definition map_has :: "color_world \<Rightarrow> string \<Rightarrow> bool" where
  "map_has w label \<longleftrightarrow> map_of (colorMap (cw_labels w)) label \<noteq> None"

definition update_label ::
    "'d color_env \<Rightarrow> bool \<Rightarrow> int \<Rightarrow> string option \<Rightarrow> string \<Rightarrow> 'd CategoricalColorScale \<times> color_world \<Rightarrow>
     ('d CategoricalColorScale \<times> color_world) res" where
  "update_label env merge sliceId applied label acc =
     (let (sc, w) = acc
      in if \<not> merge \<or> \<not> map_has w label then
           rbind (getColor env (JStr label) (Some sliceId) applied sc w) (\<lambda>(newColor, sc1, w1).
             Inr (sc1, w1\<lparr>cw_labels := (cw_labels w1)\<lparr>colorMap :=
                         AList.update label newColor (colorMap (cw_labels w1))\<rparr>\<rparr>))
         else Inr (sc, w))"

text \<open>\<open>a || b\<close> of two optional strings.\<close>

definition str_or :: "string option \<Rightarrow> string option \<Rightarrow> string option" where
  "str_or a b = (if a = None \<or> a = Some [] then b else a)"

definition update_chart ::
    "'d color_env \<Rightarrow> string \<Rightarrow> string option \<Rightarrow> bool \<Rightarrow> int \<times> chart_config \<Rightarrow> color_world \<Rightarrow> color_world res" where
  "update_chart env n colorScheme merge chart w =
     (let (sliceId, chartConfig) = chart; applied = str_or colorScheme (cc_ownScheme chartConfig)
      in rbind (ns_getScale env applied n w) (\<lambda>(colorScale, w1).
           rbind (rfold (update_label env merge sliceId applied) (cc_labels chartConfig) (colorScale, w1))
             (\<lambda>(_, w2). Inr w2)))"

text \<open>
  The charts are visited as they were at the start: every label that is coloured on the way is
  already a label of its chart, so the loops add none.
\<close>

definition updateColorMap ::
    "'d color_env \<Rightarrow> string \<Rightarrow> string option \<Rightarrow> bool \<Rightarrow> color_world \<Rightarrow> color_world res" where
  "updateColorMap env n colorScheme merge w =
     (let w1 = (if merge then w else w\<lparr>cw_labels := (cw_labels w)\<lparr>colorMap := []\<rparr>\<rparr>)
      in rfold (update_chart env n colorScheme merge) (chartsLabelsMap (cw_labels w1)) w1)"

section \<open>Colours of a dashboard\<close>

text \<open>The colour fields of the metadata; the shared labels used to be a dictionary.\<close>

datatype shared_labels = SharedList "string list" | SharedDict "string obj"

record color_metadata =
  color_namespace :: "string option"
  color_scheme :: "string option"
  map_label_colors :: "color obj option"
  shared_label_colors :: "shared_labels option"
  label_colors :: "color obj option"

definition getColorNamespace :: "string option \<Rightarrow> string option" where
  "getColorNamespace namespace = str_or namespace None"

definition enforceSharedLabelsColorsArray :: "shared_labels option \<Rightarrow> string list" where
  "enforceSharedLabelsColorsArray shared = (case shared of Some (SharedList ls) \<Rightarrow> ls | _ \<Rightarrow> [])"

definition label_counts :: "string list \<Rightarrow> (string, nat) jmap" where
  "label_counts labels =
     fold (\<lambda>label counts. AList.update label
       ((case map_of counts label of None \<Rightarrow> 0 | Some n \<Rightarrow> n) + 1) counts) labels []"

definition getFreshSharedLabels :: "string list \<Rightarrow> LabelsColorMap \<Rightarrow> string list" where
  "getFreshSharedLabels currentSharedLabels m =
     (let allLabels = concat (map (cc_labels \<circ> snd) (chartsLabelsMap m));
          duplicates = map fst (filter (\<lambda>(_, count). count > 1) (label_counts allLabels))
      in nub (currentSharedLabels @ duplicates))"

definition getSharedLabelsColorMapEntries :: "color obj \<Rightarrow> string list \<Rightarrow> color obj" where
  "getSharedLabelsColorMapEntries currentColorMap sharedLabels =
     from_entries (filter (\<lambda>(label, _). label \<in> set sharedLabels) currentColorMap)"

definition getFreshLabelsColorMapEntries :: "color obj \<Rightarrow> LabelsColorMap \<Rightarrow> color obj" where
  "getFreshLabelsColorMapEntries customLabelsColor m =
     fold AList.delete (map fst customLabelsColor) (from_entries (colorMap m))"

text \<open>\<open>omit\<close> comes from a library.\<close>

definition getDynamicLabelsColors ::
    "(color obj \<Rightarrow> string list \<Rightarrow> color obj) \<Rightarrow> color obj \<Rightarrow> color obj \<Rightarrow> color obj" where
  "getDynamicLabelsColors omit fullLabelsColors customLabelsColor =
     omit fullLabelsColors (map fst customLabelsColor)"

definition getColorSchemeDomain :: "scheme_registry \<Rightarrow> string \<Rightarrow> string list res" where
  "getColorSchemeDomain r colorScheme =
     rbind (scheme_get r (Some colorScheme) False) (\<lambda>s. Inr (case s of None \<Rightarrow> [] | Some s \<Rightarrow> cs_colors s))"

definition resetColors :: "string option \<Rightarrow> color_world \<Rightarrow> color_world res" where
  "resetColors namespace w =
     rbind (getNamespace (getColorNamespace namespace) w) (\<lambda>(n, w1).
       Inr ((ns_resetColors n w1)\<lparr>cw_labels := labels_reset (cw_labels w1)\<rparr>))"

definition refreshLabelsColorMap ::
    "'d color_env \<Rightarrow> string option \<Rightarrow> string option \<Rightarrow> bool \<Rightarrow> color_world \<Rightarrow> color_world res" where
  "refreshLabelsColorMap env namespace colorScheme merge w =
     rbind (getNamespace (getColorNamespace namespace) w) (\<lambda>(n, w1). updateColorMap env n colorScheme merge w1)"

text \<open>\<open>fresh\<close> is false, true, or the labels to reset.\<close>

datatype fresh = NotFresh | AllFresh | FreshLabels "string list"

definition obj_or :: "color obj option \<Rightarrow> color obj" where
  "obj_or x = (case x of None \<Rightarrow> [] | Some ob \<Rightarrow> ob)"

definition reset_custom :: "fresh \<Rightarrow> string \<Rightarrow> color_world \<Rightarrow> color_world res" where
  "reset_custom fresh n w =
     (case fresh of
        NotFresh \<Rightarrow> Inr w
      | AllFresh \<Rightarrow> Inr (ns_resetColors n w)
      | FreshLabels labels \<Rightarrow> ns_resetColorsForLabels labels n w)"

definition applicable_entries :: "fresh \<Rightarrow> bool \<Rightarrow> bool \<Rightarrow> color_metadata \<Rightarrow> color_world \<Rightarrow> color obj" where
  "applicable_entries fresh merge shared metadata w =
     (let full = obj_or (map_label_colors metadata);
          custom = obj_or (label_colors metadata);
          sharedLabels = enforceSharedLabelsColorsArray (shared_label_colors metadata);
          e1 = (if fresh \<noteq> NotFresh then obj_assign [] (getFreshLabelsColorMapEntries custom (cw_labels w)) else full);
          e2 = (if merge then obj_assign (obj_assign [] full) (getFreshLabelsColorMapEntries custom (cw_labels w)) else e1);
          e3 = (if shared then getSharedLabelsColorMapEntries full sharedLabels else e2)
      in obj_assign (obj_assign [] e3) custom)"

definition applyColors ::
    "'d color_env \<Rightarrow> color_metadata \<Rightarrow> fresh \<Rightarrow> bool \<Rightarrow> bool \<Rightarrow> color_world \<Rightarrow> color_world res" where
  "applyColors env metadata fresh merge shared w =
     rbind (getNamespace (getColorNamespace (color_namespace metadata)) w) (\<lambda>(n, w1).
     rbind (reset_custom fresh n w1) (\<lambda>w2.
     rbind (if fresh \<noteq> NotFresh \<or> merge
            then refreshLabelsColorMap env (color_namespace metadata) (color_scheme metadata) merge w2
            else Inr w2) (\<lambda>w3.
       Inr (fold (\<lambda>(label, color). ns_setColor (JStr label) color n)
              (applicable_entries fresh merge shared metadata w3) w3))))"

end
