(* ===== verification/ColorFacts.thy ===== *)
theory ColorFacts
  imports ColorScale
begin

text \<open>
  Correctness of the categorical colours. The first part states what the code relies on of the two
  libraries and the invariant of a scale; then the colour of a label is followed through its three
  cases (custom, known, new), the labels of one chart get different colours while the scheme has
  enough, and the fallback is a colour of the least score.
\<close>

section \<open>The libraries\<close>

definition grown :: "string \<Rightarrow> string list \<Rightarrow> string list" where
  "grown v seen = (if v \<in> set seen then seen else seen @ [v])"

text \<open>
  The documented behaviour of an ordinal scale: a value is appended to the domain the first time it
  is seen, and the n-th value of the domain gets the n-th colour of the range, starting over when
  the range is exhausted.
\<close>

definition ordinal_ok :: "'d d3_ordinal \<Rightarrow> bool" where
  "ordinal_ok d \<longleftrightarrow>
     d3_domain d (d3_new d) = [] \<and> d3_unknown d (d3_new d) = None \<and>
     (\<forall>r s. d3_range d (d3_set_range d r s) = r \<and> d3_domain d (d3_set_range d r s) = d3_domain d s \<and>
        d3_unknown d (d3_set_range d r s) = d3_unknown d s) \<and>
     (\<forall>v s. d3_unknown d s = None \<longrightarrow>
        d3_domain d (snd (d3_call d v s)) = grown v (d3_domain d s) \<and>
        d3_range d (snd (d3_call d v s)) = d3_range d s \<and> d3_unknown d (snd (d3_call d v s)) = None \<and>
        (d3_range d s \<noteq> [] \<longrightarrow> fst (d3_call d v s) =
           Color (d3_range d s ! (the (find_index (\<lambda>x. x = v) (grown v (d3_domain d s))) mod length (d3_range d s)))))"

text \<open>As many analogous colours as asked for, each a colour.\<close>

definition analogous_ok :: "(string \<Rightarrow> enat \<Rightarrow> string list) \<Rightarrow> bool" where
  "analogous_ok f \<longleftrightarrow> (\<forall>c n. length (f c (enat (n + 3))) = n + 3 \<and> [] \<notin> set (f c (enat (n + 3))))"

definition palette :: "string list \<Rightarrow> bool" where
  "palette colors \<longleftrightarrow> colors \<noteq> [] \<and> [] \<notin> set colors"

definition schemes_ok :: "scheme_registry \<Rightarrow> bool" where
  "schemes_ok r \<longleftrightarrow> (\<forall>key. \<exists>s. scheme_get r (Some key) False = Inr (Some s) \<and> palette (cs_colors s))"

definition env_ok :: "'d color_env \<Rightarrow> bool" where
  "env_ok env \<longleftrightarrow> ordinal_ok (ce_d3 env) \<and> analogous_ok (ce_analogous env) \<and> schemes_ok (ce_schemes env)"

section \<open>Invariants\<close>

definition colored :: "color \<Rightarrow> bool" where
  "colored c \<longleftrightarrow> (\<exists>s. c = Color s \<and> s \<noteq> [])"

definition scale_ok :: "'d color_env \<Rightarrow> 'd CategoricalColorScale \<Rightarrow> bool" where
  "scale_ok env sc \<longleftrightarrow>
     palette (originColors sc) \<and> palette (sc_colors sc) \<and> set (originColors sc) \<subseteq> set (sc_colors sc) \<and>
     d3_range (ce_d3 env) (sc_scale sc) = sc_colors sc \<and> d3_unknown (ce_d3 env) (sc_scale sc) = None \<and>
     distinct (map fst (chartLabelsColorMap sc)) \<and> (\<forall>c\<in>set (map snd (chartLabelsColorMap sc)). colored c)"

lemma colored_truthy [simp]: "colored c \<Longrightarrow> color_truthy c"
  by (auto simp: colored_def)

lemma colored_Color [simp]: "colored (Color s) \<longleftrightarrow> s \<noteq> []"
  by (simp add: colored_def)

lemma not_colored_NoColor [simp]: "\<not> colored NoColor"
  by (simp add: colored_def)

lemma palette_nth: "palette colors \<Longrightarrow> colored (Color (colors ! (n mod length colors)))"
  by (metis colored_Color length_greater_0_conv mod_less_divisor nth_mem palette_def)

section \<open>The range\<close>

lemma incrementColorRange_ok:
  assumes "env_ok env" and "scale_ok env sc"
  obtains sc' where "incrementColorRange env sc = Inr sc'" "scale_ok env sc'"
    "originColors sc' = originColors sc" "chartLabelsColorMap sc' = chartLabelsColorMap sc"
    "forcedColors sc' = forcedColors sc" "appliedColorScheme sc' = appliedColorScheme sc"
proof -
  define n where "n = length (scale_domain env sc) div length (originColors sc)"
  have ne: "originColors sc \<noteq> []" using assms(2) by (simp add: scale_ok_def palette_def)
  have m: "range_multiple (length (scale_domain env sc)) (length (originColors sc)) = enat n"
    using ne by (simp add: range_multiple_def n_def)
  have an: "length (ce_analogous env c (enat (n + 3))) = n + 3" "[] \<notin> set (ce_analogous env c (enat (n + 3)))" for c
    using assms(1) by (auto simp: env_ok_def analogous_ok_def)
  define ext where "ext = concat (map (\<lambda>k. map (\<lambda>c. ce_analogous env c (enat (n + 3)) ! (3 + k)) (originColors sc)) [0..<n])"
  have g: "getAnalogousColors (ce_analogous env) (originColors sc) (enat n) = Inr ext"
    unfolding ext_def by (rule getAnalogousColors_interleaves) (simp add: an)
  have "ce_analogous env c (enat (n + 3)) ! (3 + k) \<noteq> []" if "k < n" for c k
    using an [of c] that by (metis add.commute nat_add_left_cancel_less nth_mem)
  then have "\<forall>x\<in>set ext. x \<noteq> []" unfolding ext_def by auto
  then have "[] \<notin> set ext" by blast
  then have ok: "scale_ok env (scale_set_range env (originColors sc @ ext) (sc\<lparr>sc_multiple := enat n\<rparr>))"
    using assms by (auto simp: scale_ok_def palette_def scale_set_range_def env_ok_def ordinal_ok_def)
  show ?thesis
  proof (cases "sc_multiple sc < enat n")
    case True
    then show ?thesis
      by (intro that [OF _ ok]) (simp_all add: incrementColorRange_def m g scale_set_range_def)
  next
    case False
    then show ?thesis using assms(2) by (intro that [of sc]) (simp_all add: incrementColorRange_def m)
  qed
qed

section \<open>The next colour\<close>

lemma usage_count_eq: "s \<in> set (sc_colors sc) \<Longrightarrow> usage_count sc (Color s) = getColorUsageCount sc (Color s)"
  unfolding usage_count_def colorUsageCounts_def
  by (subst mapd.get_put_same) simp

lemma getColorUsageCount_0: "getColorUsageCount sc c = 0 \<longleftrightarrow> c \<notin> set (map snd (chartLabelsColorMap sc))"
  by (auto simp: getColorUsageCount_def filter_empty_conv)

lemma isColorUsed_iff: "isColorUsed sc c \<longleftrightarrow> c \<in> set (map snd (chartLabelsColorMap sc))"
  using getColorUsageCount_0 [of sc c] by (auto simp: isColorUsed_def)

text \<open>The reduction of the last step finds a colour of the least score, the first of those.\<close>

lemma least_score:
  fixes f :: "'a \<Rightarrow> nat"
  shows "foldl (\<lambda>b c. if f c < f b then c else b) x xs \<in> insert x (set xs) \<and>
     (\<forall>y\<in>insert x (set xs). f (foldl (\<lambda>b c. if f c < f b then c else b) x xs) \<le> f y)"
proof (induction xs arbitrary: x)
  case (Cons a xs)
  define b where "b = (if f a < f x then a else x)"
  have "b \<in> {a, x}" "f b \<le> f a" "f b \<le> f x" by (auto simp: b_def)
  moreover have "foldl (\<lambda>b c. if f c < f b then c else b) x (a # xs) = foldl (\<lambda>b c. if f c < f b then c else b) b xs"
    by (simp add: b_def)
  moreover have "foldl (\<lambda>b c. if f c < f b then c else b) b xs \<in> insert b (set xs)"
    "\<forall>y\<in>insert b (set xs). f (foldl (\<lambda>b c. if f c < f b then c else b) b xs) \<le> f y"
    using Cons.IH [of b] by blast+
  ultimately show ?case by (auto intro: le_trans)
qed simp

lemma next_unused:
  assumes "s \<in> set (sc_colors sc)" and "Color s \<notin> set (map snd (chartLabelsColorMap sc))" and "[] \<notin> set (sc_colors sc)"
  shows "\<exists>s'\<in>set (sc_colors sc). getNextAvailableColor sc l c = Color s' \<and>
     Color s' \<notin> set (map snd (chartLabelsColorMap sc))"
proof -
  have "usage_count sc (Color s) = 0"
    using assms(1,2) by (simp add: usage_count_eq getColorUsageCount_0)
  then have "find (\<lambda>c. usage_count sc c = 0) (map Color (sc_colors sc)) \<noteq> None"
    using assms(1) by (auto simp: find_None_iff)
  then obtain c' where f: "find (\<lambda>c. usage_count sc c = 0) (map Color (sc_colors sc)) = Some c'" by blast
  then obtain s' where s': "s' \<in> set (sc_colors sc)" "c' = Color s'" "usage_count sc c' = 0"
    using find_SomeD [OF f] by auto
  then have "getNextAvailableColor sc l c = Color s'"
    using assms(3) f by (auto simp: getNextAvailableColor_def Let_def)
  moreover have "Color s' \<notin> set (map snd (chartLabelsColorMap sc))"
    using s' by (simp add: usage_count_eq getColorUsageCount_0)
  ultimately show ?thesis using s'(1) by blast
qed

lemma next_used:
  assumes "\<And>s. s \<in> set (sc_colors sc) \<Longrightarrow> Color s \<in> set (map snd (chartLabelsColorMap sc))"
  shows "getNextAvailableColor sc l c \<in> insert c (Color ` set (sc_colors sc)) \<and>
     (\<forall>d\<in>insert c (Color ` set (sc_colors sc)). calculateScore sc l (getNextAvailableColor sc l c) \<le> calculateScore sc l d)"
proof -
  have "usage_count sc (Color s) \<noteq> 0" if "s \<in> set (sc_colors sc)" for s
    using assms [OF that] that getColorUsageCount_0 [of sc "Color s"] by (simp add: usage_count_eq)
  then have "find (\<lambda>c. usage_count sc c = 0) (map Color (sc_colors sc)) = None"
    by (auto simp: find_None_iff)
  then have "getNextAvailableColor sc l c = foldl (\<lambda>b d. if calculateScore sc l d < calculateScore sc l b then d else b)
      c (filter (\<lambda>d. d \<noteq> c) (map Color (sc_colors sc)))"
    by (simp add: getNextAvailableColor_def)
  then show ?thesis
    using least_score [of "calculateScore sc l" c "filter (\<lambda>d. d \<noteq> c) (map Color (sc_colors sc))"] by auto
qed

lemma next_colored:
  assumes "scale_ok env sc" and "colored c"
  shows "colored (getNextAvailableColor sc l c)"
proof (cases "\<exists>s\<in>set (sc_colors sc). Color s \<notin> set (map snd (chartLabelsColorMap sc))")
  case True
  then show ?thesis using next_unused [of _ sc l c] assms(1) by (force simp: scale_ok_def palette_def)
next
  case False
  then show ?thesis using next_used [of sc l c] assms by (auto simp: scale_ok_def palette_def)
qed

section \<open>The colour of a label\<close>

definition current_map :: "'d CategoricalColorScale \<Rightarrow> color_world \<Rightarrow> (string, color) jmap" where
  "current_map sc w =
     (if lm_source (cw_labels w) = Dashboard then colorMap (cw_labels w) else chartLabelsColorMap sc)"

definition with_label :: "string \<Rightarrow> color \<Rightarrow> 'd CategoricalColorScale \<Rightarrow> 'd CategoricalColorScale" where
  "with_label l c sc = sc\<lparr>chartLabelsColorMap := AList.update l c (chartLabelsColorMap sc)\<rparr>"

lemma with_label_simps [simp]:
  "originColors (with_label l c sc) = originColors sc" "forcedColors (with_label l c sc) = forcedColors sc"
  "appliedColorScheme (with_label l c sc) = appliedColorScheme sc"
  "chartLabelsColorMap (with_label l c sc) = AList.update l c (chartLabelsColorMap sc)"
  by (simp_all add: with_label_def)

lemma set_snd_update: "snd ` set (AList.update k v m) \<subseteq> insert v (snd ` set m)"
  by (induction m) auto

lemma scale_ok_with_label:
  assumes "scale_ok env sc" and "colored c"
  shows "scale_ok env (with_label l c sc)"
proof -
  have "\<forall>d\<in>snd ` set (AList.update l c (chartLabelsColorMap sc)). colored d"
    using assms(2) set_snd_update [of l c "chartLabelsColorMap sc"] assms(1)
    unfolding scale_ok_def set_map by blast
  then show ?thesis using assms(1) by (simp add: scale_ok_def with_label_def distinct_update)
qed

lemma getColor_forced:
  "color_truthy (forced_color w (forcedColors sc) (stringifyAndTrim v)) \<Longrightarrow>
   getColor env v s ap sc w =
     (let l = stringifyAndTrim v; c = forced_color w (forcedColors sc) l
      in Inr (c, with_label l c sc, note_slice l c s ap w))"
  by (simp add: getColor_def with_label_def Let_def)

lemma getColor_existing:
  assumes "\<not> color_truthy (forced_color w (forcedColors sc) (stringifyAndTrim v))"
    and "map_of (current_map sc w) (stringifyAndTrim v) = Some c"
  shows "getColor env v s ap sc w =
     Inr (c, with_label (stringifyAndTrim v) c sc, note_slice (stringifyAndTrim v) c s ap w)"
  using assms by (simp add: getColor_def with_label_def Let_def map_get_def current_map_def split: if_splits)

lemma getColor_new:
  assumes "env_ok env" and "scale_ok env sc"
    and "\<not> color_truthy (forced_color w (forcedColors sc) (stringifyAndTrim v))"
    and "map_of (current_map sc w) (stringifyAndTrim v) = None"
  obtains c sc' where
    "getColor env v s ap sc w =
       Inr (c, with_label (stringifyAndTrim v) c sc', note_slice (stringifyAndTrim v) c s ap w)"
    "scale_ok env sc'" "originColors sc' = originColors sc" "forcedColors sc' = forcedColors sc"
    "appliedColorScheme sc' = appliedColorScheme sc" "chartLabelsColorMap sc' = chartLabelsColorMap sc"
    "colored c"
    "AvoidColorsCollision env \<Longrightarrow> \<exists>s\<in>set (originColors sc). Color s \<notin> snd ` set (chartLabelsColorMap sc) \<Longrightarrow>
       c \<notin> snd ` set (chartLabelsColorMap sc)"
proof -
  let ?l = "stringifyAndTrim v"
  define c0 where "c0 = fst (d3_call (ce_d3 env) ?l (sc_scale sc))"
  define sc1 where "sc1 = sc\<lparr>sc_scale := snd (d3_call (ce_d3 env) ?l (sc_scale sc))\<rparr>"
  have c0: "colored c0"
    using assms(1,2) palette_nth
    by (auto simp: c0_def env_ok_def ordinal_ok_def scale_ok_def palette_def)
  have ok1: "scale_ok env sc1"
    using assms(1,2) by (auto simp: sc1_def env_ok_def ordinal_ok_def scale_ok_def)
  obtain sc2 where sc2: "(if UseAnalogousColors env then incrementColorRange env sc1 else Inr sc1) = Inr sc2"
    "scale_ok env sc2" "originColors sc2 = originColors sc" "chartLabelsColorMap sc2 = chartLabelsColorMap sc"
    "forcedColors sc2 = forcedColors sc" "appliedColorScheme sc2 = appliedColorScheme sc"
  proof (cases "UseAnalogousColors env")
    case True
    then show thesis
      using incrementColorRange_ok [OF assms(1) ok1] that by (auto simp: sc1_def)
  next
    case False
    then show thesis using ok1 that [of sc1] by (simp add: sc1_def)
  qed
  define c where "c = (if AvoidColorsCollision env \<and> isColorUsed sc2 c0 then getNextAvailableColor sc2 ?l c0 else c0)"
  have none: "map_of (if lm_source (cw_labels w) = Dashboard then colorMap (cw_labels w) else chartLabelsColorMap sc) ?l = None"
    using assms(4) by (simp add: current_map_def)
  have g: "getColor env v s ap sc w = Inr (c, with_label ?l c sc2, note_slice ?l c s ap w)"
    unfolding getColor_def Let_def using assms(3) none sc2(1)
    by (simp add: case_prod_beta c_def c0_def [symmetric] sc1_def [symmetric] with_label_def)
  have "c \<notin> snd ` set (chartLabelsColorMap sc)"
    if avoid: "AvoidColorsCollision env" "\<exists>s\<in>set (originColors sc). Color s \<notin> snd ` set (chartLabelsColorMap sc)"
  proof (cases "isColorUsed sc2 c0")
    case True
    obtain s where s: "s \<in> set (sc_colors sc2)" "Color s \<notin> set (map snd (chartLabelsColorMap sc2))"
      using avoid(2) sc2(2-4) by (auto simp: scale_ok_def)
    have "[] \<notin> set (sc_colors sc2)" using sc2(2) by (simp add: scale_ok_def palette_def)
    from next_unused [OF s this, of ?l c0] have "getNextAvailableColor sc2 ?l c0 \<notin> snd ` set (chartLabelsColorMap sc)"
      unfolding sc2(4) set_map by metis
    then show ?thesis using True avoid(1) by (simp add: c_def)
  next
    case False
    then show ?thesis using sc2(4) by (auto simp: c_def isColorUsed_iff)
  qed
  moreover have "colored c" using c0 next_colored [OF sc2(2) c0] by (simp add: c_def)
  ultimately show ?thesis using that [OF g sc2(2,3,5,6,4)] by blast
qed

section \<open>The labels of one chart\<close>

text \<open>A chart asks its scale for the colours of its labels, one after the other.\<close>

fun color_values ::
    "'d color_env \<Rightarrow> int option \<Rightarrow> jsval list \<Rightarrow> 'd CategoricalColorScale \<Rightarrow> color_world \<Rightarrow>
     (color list \<times> 'd CategoricalColorScale \<times> color_world) res" where
  "color_values env s [] sc w = Inr ([], sc, w)"
| "color_values env s (v # vs) sc w =
     rbind (call_scale env v s sc w) (\<lambda>(c, sc1, w1).
     rbind (color_values env s vs sc1 w1) (\<lambda>(cs, sc2, w2). Inr (c # cs, sc2, w2)))"

lemma addSlice_source [simp]: "lm_source (labels_addSlice l c n ap m) = lm_source m"
  by (simp add: labels_addSlice_def Let_def)

lemma note_slice_simps [simp]:
  "cw_lookups (note_slice l c s ap w) = cw_lookups w" "cw_namespaces (note_slice l c s ap w) = cw_namespaces w"
  "lm_source (cw_labels (note_slice l c s ap w)) = lm_source (cw_labels w)"
  by (simp_all add: note_slice_def split: option.splits)

lemma forced_color_note [simp]: "forced_color (note_slice l c s ap w) a k = forced_color w a k"
  by (simp add: forced_color_def)

lemma update_new: "map_of m k = None \<Longrightarrow> AList.update k v m = m @ [(k, v)]"
  by (induction m) (auto split: if_splits)

lemma distinct_snd_update:
  "map_of m k = None \<Longrightarrow> v \<notin> snd ` set m \<Longrightarrow> distinct (map snd m) \<Longrightarrow> distinct (map snd (AList.update k v m))"
  by (simp add: update_new)

text \<open>
  One call in the context of a single chart: the map of the chart grows by the label, different
  labels keep different colours, and a label that is known keeps its colour.
\<close>

definition chart_inv :: "'d color_env \<Rightarrow> string set \<Rightarrow> 'd CategoricalColorScale \<Rightarrow> color_world \<Rightarrow> bool" where
  "chart_inv env L sc w \<longleftrightarrow>
     scale_ok env sc \<and> lm_source (cw_labels w) = Explore \<and> distinct (map snd (chartLabelsColorMap sc)) \<and>
     fst ` set (chartLabelsColorMap sc) \<subseteq> L \<and> (\<forall>l\<in>L. \<not> color_truthy (forced_color w (forcedColors sc) l)) \<and>
     finite L \<and> card L \<le> card (set (originColors sc))"

lemma unused_color:
  assumes "chart_inv env L sc w" and "l \<in> L" and "map_of (chartLabelsColorMap sc) l = None"
  shows "\<exists>s\<in>set (originColors sc). Color s \<notin> snd ` set (chartLabelsColorMap sc)"
proof (rule ccontr)
  assume "\<not> ?thesis"
  then have "Color ` set (originColors sc) \<subseteq> snd ` set (chartLabelsColorMap sc)" by auto
  then have "card (set (originColors sc)) \<le> card (snd ` set (chartLabelsColorMap sc))"
    by (metis card_image card_mono color.inject(1) finite_imageI inj_onI List.finite_set)
  also have "\<dots> \<le> length (chartLabelsColorMap sc)" by (metis card_length length_map set_map)
  also have "\<dots> = card (fst ` set (chartLabelsColorMap sc))"
    using assms(1) by (metis chart_inv_def distinct_card length_map list.set_map scale_ok_def)
  also have "\<dots> < card L"
    using assms by (intro psubset_card_mono) (auto simp: chart_inv_def map_of_eq_None_iff)
  finally show False using assms(1) by (simp add: chart_inv_def)
qed

lemma call_in_chart:
  assumes "env_ok env" and "AvoidColorsCollision env" and "chart_inv env L sc w" and "stringifyAndTrim v \<in> L"
  obtains c sc' w' where "call_scale env v s sc w = Inr (c, sc', w')" "chart_inv env L sc' w'"
    "map_of (chartLabelsColorMap sc') = (map_of (chartLabelsColorMap sc))(stringifyAndTrim v \<mapsto> c)"
    "map_of (chartLabelsColorMap sc) (stringifyAndTrim v) \<in> {None, Some c}"
proof -
  let ?l = "stringifyAndTrim v" and ?m = "chartLabelsColorMap sc"
  have unforced: "\<not> color_truthy (forced_color w (forcedColors sc) ?l)"
    and cur: "current_map sc w = ?m" and ok: "scale_ok env sc"
    using assms(3,4) by (auto simp: chart_inv_def current_map_def)
  show thesis
  proof (cases "map_of ?m ?l")
    case None
    obtain c sc' where n: "getColor env v s (appliedColorScheme sc) sc w =
        Inr (c, with_label ?l c sc', note_slice ?l c s (appliedColorScheme sc) w)" "scale_ok env sc'"
      "originColors sc' = originColors sc" "forcedColors sc' = forcedColors sc" "chartLabelsColorMap sc' = ?m"
      "colored c" "c \<notin> snd ` set ?m"
      using getColor_new [OF assms(1) ok unforced] None cur unused_color [OF assms(3,4) None] assms(2) by metis
    show thesis
    proof (rule that)
      show "call_scale env v s sc w = Inr (c, with_label ?l c sc', note_slice ?l c s (appliedColorScheme sc) w)"
        by (simp add: call_scale_def n(1))
      have "distinct (map snd (AList.update ?l c ?m))"
        using distinct_snd_update [OF None n(7)] assms(3) by (simp add: chart_inv_def)
      moreover have "fst ` set (AList.update ?l c ?m) \<subseteq> L"
        using assms(3,4) by (simp add: dom_update chart_inv_def)
      ultimately show "chart_inv env L (with_label ?l c sc') (note_slice ?l c s (appliedColorScheme sc) w)"
        using assms(3) n(3-5) scale_ok_with_label [OF n(2,6)] by (simp add: chart_inv_def)
    qed (use n(5) None in \<open>simp_all add: update_conv'\<close>)
  next
    case (Some c)
    have "with_label ?l c sc = sc"
      using Some ok by (simp add: with_label_def scale_ok_def update_triv)
    then have "call_scale env v s sc w = Inr (c, sc, note_slice ?l c s (appliedColorScheme sc) w)"
      using getColor_existing [OF unforced, of c] Some cur by (simp add: call_scale_def)
    then show thesis
      using that [of c sc "note_slice ?l c s (appliedColorScheme sc) w"] assms(3) Some
      by (simp add: chart_inv_def fun_upd_idem)
  qed
qed

lemma color_values_in_chart:
  assumes "env_ok env" and "AvoidColorsCollision env"
  shows "chart_inv env L sc w \<Longrightarrow> stringifyAndTrim ` set vs \<subseteq> L \<Longrightarrow>
    \<exists>cs sc' w'. color_values env s vs sc w = Inr (cs, sc', w') \<and> chart_inv env L sc' w' \<and>
      map_of (chartLabelsColorMap sc) \<subseteq>\<^sub>m map_of (chartLabelsColorMap sc') \<and>
      list_all2 (\<lambda>v c. map_of (chartLabelsColorMap sc') (stringifyAndTrim v) = Some c) vs cs"
proof (induction vs arbitrary: sc w)
  case Nil
  then show ?case by simp
next
  case (Cons v vs)
  then have "stringifyAndTrim v \<in> L" by simp
  from call_in_chart [OF assms Cons.prems(1) this] obtain c sc1 w1 where
    c: "call_scale env v s sc w = Inr (c, sc1, w1)" "chart_inv env L sc1 w1"
    "map_of (chartLabelsColorMap sc1) = (map_of (chartLabelsColorMap sc))(stringifyAndTrim v \<mapsto> c)"
    "map_of (chartLabelsColorMap sc) (stringifyAndTrim v) \<in> {None, Some c}" .
  obtain cs sc2 w2 where cs: "color_values env s vs sc1 w1 = Inr (cs, sc2, w2)" "chart_inv env L sc2 w2"
    "map_of (chartLabelsColorMap sc1) \<subseteq>\<^sub>m map_of (chartLabelsColorMap sc2)"
    "list_all2 (\<lambda>v c. map_of (chartLabelsColorMap sc2) (stringifyAndTrim v) = Some c) vs cs"
    using Cons.IH [OF c(2)] Cons.prems(2) by auto
  have "map_of (chartLabelsColorMap sc) \<subseteq>\<^sub>m map_of (chartLabelsColorMap sc1)"
    using c(3,4) by (auto simp: map_le_def)
  moreover have "map_of (chartLabelsColorMap sc2) (stringifyAndTrim v) = Some c"
    using cs(3) c(3) by (auto simp: map_le_def)
  ultimately show ?case
    using c(1) cs map_le_trans [OF _ cs(3)] by (intro exI [of _ "c # cs"] exI [of _ sc2] exI [of _ w2]) simp
qed

lemma values_inj:
  assumes "distinct (map snd m)" and "map_of m a = Some c" and "map_of m b = Some c"
  shows "a = b"
proof -
  have "(a, c) \<in> set m" "(b, c) \<in> set m" using assms(2,3) by (auto dest: map_of_SomeD)
  then show ?thesis using assms(1) by (metis distinct_map fst_conv inj_on_def snd_conv)
qed

text \<open>
  The labels of a chart can be told apart. When colour collisions are to be avoided, a chart
  that is viewed on its own and whose labels have no custom colours gets a colour for each of its
  values, and two values get the same colour exactly when they are the same label (after trimming),
  as long as there are no more labels than colours in the scheme. This holds whether or not the
  scheme is extended with analogous colours.
\<close>

lemma chart_colors_distinct:
  assumes "env_ok env" and "AvoidColorsCollision env"
    and "scale_ok env sc" and "chartLabelsColorMap sc = []" and "lm_source (cw_labels w) = Explore"
    and "\<forall>v\<in>set vs. \<not> color_truthy (forced_color w (forcedColors sc) (stringifyAndTrim v))"
    and "card (stringifyAndTrim ` set vs) \<le> card (set (originColors sc))"
  shows "\<exists>cs sc' w'. color_values env s vs sc w = Inr (cs, sc', w') \<and> length cs = length vs \<and>
     (\<forall>i<length vs. colored (cs ! i)) \<and>
     (\<forall>i<length vs. \<forall>j<length vs. cs ! i = cs ! j \<longleftrightarrow> stringifyAndTrim (vs ! i) = stringifyAndTrim (vs ! j))"
proof -
  have "chart_inv env (stringifyAndTrim ` set vs) sc w" using assms(3-7) by (auto simp: chart_inv_def)
  from color_values_in_chart [OF assms(1,2) this subset_refl, of s] obtain cs sc' w' where
    r: "color_values env s vs sc w = Inr (cs, sc', w')" "chart_inv env (stringifyAndTrim ` set vs) sc' w'"
    "list_all2 (\<lambda>v c. map_of (chartLabelsColorMap sc') (stringifyAndTrim v) = Some c) vs cs" by blast
  then have l: "length cs = length vs"
    "\<forall>i<length vs. map_of (chartLabelsColorMap sc') (stringifyAndTrim (vs ! i)) = Some (cs ! i)"
    by (auto simp: list_all2_conv_all_nth)
  have d: "distinct (map snd (chartLabelsColorMap sc'))" "\<forall>c\<in>snd ` set (chartLabelsColorMap sc'). colored c"
    using r(2) by (auto simp: chart_inv_def scale_ok_def)
  have "colored (cs ! i)" if "i < length vs" for i
    using l(2) that d(2) by (metis image_eqI map_of_SomeD snd_conv)
  moreover have "cs ! i = cs ! j \<longleftrightarrow> stringifyAndTrim (vs ! i) = stringifyAndTrim (vs ! j)"
    if "i < length vs" "j < length vs" for i j
    using l(2) that values_inj [OF d(1)] by (metis option.inject)
  ultimately show ?thesis using r(1) l(1) by blast
qed

section \<open>Choosing among used colours\<close>

lemma adjacent_new:
  assumes "map_of (chartLabelsColorMap sc) l = None" and "scale_ok env sc"
  shows "set (adjacentColors sc l) =
     (case chartLabelsColorMap sc of [] \<Rightarrow> {} | (l0, c0) # _ \<Rightarrow> if l0 = [] then {} else {c0})"
proof -
  have "find_index (\<lambda>x. x = l) (map fst (chartLabelsColorMap sc)) = None"
    using assms(1) by (auto simp: find_index_None_iff map_of_eq_None_iff)
  moreover have "\<forall>c\<in>snd ` set (chartLabelsColorMap sc). color_truthy c"
    using assms(2) by (auto simp: scale_ok_def)
  ultimately show ?thesis
    by (auto simp: adjacentColors_def Let_def map_get_def split: list.splits)
qed

text \<open>
  The fallback when every colour is in use. For a new label of a chart all of whose colours are
  already used, the chosen colour is one of the scheme's (or the one the scale proposed) with the
  least score, where the score is the number of labels with that colour, plus 100 for the colour of
  the first label of the chart: a new label is not in the map yet, so the neighbour that the code
  looks at is the first label and never the previous one. The proposed colour itself may be chosen.
\<close>

lemma next_color_least_used:
  assumes "scale_ok env sc" and "chartLabelsColorMap sc = (l0, c0) # rest" and "l0 \<noteq> []"
    and "map_of (chartLabelsColorMap sc) l = None" and "s \<in> set (sc_colors sc)"
    and "\<forall>s\<in>set (sc_colors sc). isColorUsed sc (Color s)"
  defines "r \<equiv> getNextAvailableColor sc l (Color s)"
    and "score \<equiv> \<lambda>c. getColorUsageCount sc c + (if c = c0 then 100 else 0)"
  shows "r \<in> Color ` set (sc_colors sc) \<and> (\<forall>s'\<in>set (sc_colors sc). score r \<le> score (Color s'))"
proof -
  have sc: "calculateScore sc l (Color s') = score (Color s')" if "s' \<in> set (sc_colors sc)" for s'
    using adjacent_new [OF assms(4,1)] assms(2,3) usage_count_eq [OF that]
    by (simp add: calculateScore_def score_def)
  have "\<And>s. s \<in> set (sc_colors sc) \<Longrightarrow> Color s \<in> set (map snd (chartLabelsColorMap sc))"
    using assms(6) by (simp add: isColorUsed_iff)
  from next_used [of sc l "Color s", OF this]
  have "r \<in> Color ` set (sc_colors sc)" "\<forall>d\<in>Color ` set (sc_colors sc). calculateScore sc l r \<le> calculateScore sc l d"
    using assms(5) unfolding r_def by auto
  then show ?thesis using sc by (metis (no_types, lifting) image_iff)
qed

end
