(* ===== verification/ColorDashboard.thy ===== *)
theory ColorDashboard
  imports ColorFacts
begin

text \<open>
  The colours of a whole dashboard: any number of scales over the shared state, driven by a
  sequence of operations. Every operation is total and keeps the state well typed, and a label
  keeps its colour on all charts until its chart is removed or the colours are made fresh.
\<close>

section \<open>Well-typed state\<close>

definition label_ok :: "string \<Rightarrow> bool" where
  "label_ok l \<longleftrightarrow> str_trim l = l \<and> admissible l"

definition lookup_ok :: "color obj \<Rightarrow> bool" where
  "lookup_ok ob \<longleftrightarrow> (\<forall>(k, c)\<in>set ob. admissible k \<and> colored c)"

definition typed_world :: "color_world \<Rightarrow> bool" where
  "typed_world w \<longleftrightarrow>
     (\<forall>ob\<in>set (cw_lookups w). lookup_ok ob) \<and>
     (\<forall>(l, c)\<in>set (colorMap (cw_labels w)). label_ok l \<and> colored c) \<and>
     (\<forall>(s, cc)\<in>set (chartsLabelsMap (cw_labels w)). \<forall>l\<in>set (cc_labels cc). label_ok l) \<and>
     distinct (map fst (chartsLabelsMap (cw_labels w))) \<and> distinct (map fst (colorMap (cw_labels w))) \<and>
     (\<forall>(n, a)\<in>set (cw_namespaces w). a < length (cw_lookups w))"

text \<open>On a dashboard every label of every chart has a colour.\<close>

definition covered :: "color_world \<Rightarrow> bool" where
  "covered w \<longleftrightarrow> lm_source (cw_labels w) = Dashboard \<longrightarrow>
     (\<forall>(s, cc)\<in>set (chartsLabelsMap (cw_labels w)). \<forall>l\<in>set (cc_labels cc). map_has w l)"

definition scale_in :: "'d color_env \<Rightarrow> color_world \<Rightarrow> 'd CategoricalColorScale \<Rightarrow> bool" where
  "scale_in env w sc \<longleftrightarrow> scale_ok env sc \<and> forcedColors sc < length (cw_lookups w)"

lemma set_update_cases: "p \<in> set (AList.update k v m) \<Longrightarrow> p = (k, v) \<or> p \<in> set m \<and> fst p \<noteq> k \<or> p \<in> set m"
  by (induction m) (auto split: if_splits)

lemma forced_typed:
  assumes "typed_world w" and "a < length (cw_lookups w)" and "admissible l"
  shows "forced_color w a l = NoColor \<or> colored (forced_color w a l)"
proof (cases "map_of (cw_lookups w ! a) l")
  case None
  then show ?thesis using assms(3) by (simp add: forced_color_def)
next
  case (Some c)
  have "lookup_ok (cw_lookups w ! a)" using assms(1,2) by (simp add: typed_world_def)
  then show ?thesis
    using map_of_SomeD [OF Some] assms(3) Some by (auto simp: forced_color_def lookup_ok_def)
qed

text \<open>The effect of noting a label of a chart, on the parts of the shared map.\<close>

lemma addSlice_colorMap:
  "colorMap (labels_addSlice l c n ap m) =
     (if lm_source m = Dashboard then AList.update l c (colorMap m) else colorMap m)"
  by (simp add: labels_addSlice_def Let_def)

lemma addSlice_charts_same:
  "map_of (chartsLabelsMap m) n = Some cc \<Longrightarrow> l \<in> set (cc_labels cc) \<Longrightarrow>
   chartsLabelsMap (labels_addSlice l c n ap m) = chartsLabelsMap m"
  by (simp add: labels_addSlice_def Let_def)

lemma addSlice_charts:
  obtains "chartsLabelsMap (labels_addSlice l c n ap m) = chartsLabelsMap m"
    "\<exists>cc. map_of (chartsLabelsMap m) n = Some cc \<and> l \<in> set (cc_labels cc)"
  | cc where "chartsLabelsMap (labels_addSlice l c n ap m) = AList.update n cc (chartsLabelsMap m)"
    "set (cc_labels cc) = insert l (case map_of (chartsLabelsMap m) n of None \<Rightarrow> {} | Some cc \<Rightarrow> set (cc_labels cc))"
proof (cases "map_of (chartsLabelsMap m) n")
  case None
  then show thesis
    by (intro that(2) [of "\<lparr>cc_labels = [l], cc_scheme = ap, cc_ownScheme = None\<rparr>"])
      (simp_all add: labels_addSlice_def Let_def)
next
  case (Some cc)
  then show thesis
    by (cases "l \<in> set (cc_labels cc)") (auto simp: labels_addSlice_def Let_def intro: that)
qed

lemma addSlice_labels:
  assumes "(s, cc) \<in> set (chartsLabelsMap (labels_addSlice l c n ap m))" and "l' \<in> set (cc_labels cc)"
  shows "l' = l \<or> (\<exists>s cc. (s, cc) \<in> set (chartsLabelsMap m) \<and> l' \<in> set (cc_labels cc))"
proof (cases rule: addSlice_charts [of l c n ap m])
  case 1
  then show ?thesis using assms by auto
next
  case (2 cc1)
  then consider "(s, cc) \<in> set (chartsLabelsMap m)" | "cc = cc1"
    using set_update_cases [of "(s, cc)" n cc1] assms(1) by auto
  then show ?thesis
    using 2(2) assms(2) by cases (auto split: option.splits dest: map_of_SomeD)
qed

lemma typed_addSlice:
  assumes "typed_world w" and "label_ok l" and "colored c"
  shows "typed_world (w\<lparr>cw_labels := labels_addSlice l c n ap (cw_labels w)\<rparr>)"
proof -
  let ?m = "labels_addSlice l c n ap (cw_labels w)"
  have "label_ok (fst p) \<and> colored (snd p)" if p: "p \<in> set (colorMap ?m)" for p
  proof -
    have "p = (l, c) \<or> p \<in> set (colorMap (cw_labels w))"
      using p set_update_cases [of p l c] by (auto simp: addSlice_colorMap split: if_splits)
    then show ?thesis using assms by (auto simp: typed_world_def)
  qed
  moreover have "\<forall>(s, cc)\<in>set (chartsLabelsMap ?m). \<forall>l\<in>set (cc_labels cc). label_ok l"
    using addSlice_labels [of _ _ l c n ap "cw_labels w"] assms(1,2) unfolding typed_world_def by fast
  moreover have "distinct (map fst (chartsLabelsMap ?m))"
    using assms(1) by (cases rule: addSlice_charts [of l c n ap "cw_labels w"]) (auto simp: typed_world_def distinct_update)
  ultimately show ?thesis
    using assms(1) by (simp add: typed_world_def case_prod_beta addSlice_colorMap distinct_update)
qed

lemma typed_note: "typed_world w \<Longrightarrow> label_ok l \<Longrightarrow> colored c \<Longrightarrow> typed_world (note_slice l c s ap w)"
  by (auto simp: note_slice_def typed_addSlice split: option.splits)

lemma map_has_note:
  "map_has w l' \<Longrightarrow> map_has (note_slice l c s ap w) l'"
  by (auto simp: map_has_def note_slice_def addSlice_colorMap update_conv' split: option.splits)

lemma covered_note:
  assumes "covered w"
  shows "covered (note_slice l c s ap w)"
proof -
  have "covered (w\<lparr>cw_labels := labels_addSlice l c n ap (cw_labels w)\<rparr>)" for n
    using assms addSlice_labels [of _ _ l c n ap "cw_labels w"] unfolding covered_def map_has_def
    by (fastforce simp: addSlice_colorMap update_conv')
  then show ?thesis using assms by (auto simp: note_slice_def split: option.splits)
qed

lemma getColor_typed:
  assumes "env_ok env" and "typed_world w" and "scale_in env w sc" and "admissible (stringifyAndTrim v)"
  obtains c sc' where
    "getColor env v s ap sc w = Inr (c, sc', note_slice (stringifyAndTrim v) c s ap w)"
    "colored c" "scale_in env w sc'" "typed_world (note_slice (stringifyAndTrim v) c s ap w)"
    "\<lbrakk>forced_color w (forcedColors sc) (stringifyAndTrim v) \<in> {NoColor, c0};
      map_of (current_map sc w) (stringifyAndTrim v) = Some c0\<rbrakk> \<Longrightarrow> c = c0"
proof -
  let ?l = "stringifyAndTrim v" and ?f = "forced_color w (forcedColors sc) (stringifyAndTrim v)"
  have sc: "scale_ok env sc" "forcedColors sc < length (cw_lookups w)" using assms(3) by (auto simp: scale_in_def)
  have l: "label_ok ?l" using assms(4) by (simp add: label_ok_def stringifyAndTrim_def)
  consider (forced) "colored ?f" | (other) "?f = NoColor"
    using forced_typed [OF assms(2) sc(2) assms(4)] by blast
  then show thesis
  proof cases
    case forced
    then have ne: "?f \<noteq> NoColor" by auto
    show thesis
      by (rule that [of ?f "with_label ?l ?f sc"])
        (use forced ne getColor_forced [of w sc v env s ap] sc scale_ok_with_label [OF sc(1) forced]
          typed_note [OF assms(2) l forced] in \<open>auto simp: scale_in_def Let_def\<close>)
  next
    case other
    then have nf: "\<not> color_truthy ?f" by simp
    show thesis
    proof (cases "map_of (current_map sc w) ?l")
      case None
      from getColor_new [OF assms(1) sc(1) nf None] obtain c sc' where
        n: "getColor env v s ap sc w = Inr (c, with_label ?l c sc', note_slice ?l c s ap w)"
        "scale_ok env sc'" "forcedColors sc' = forcedColors sc" "colored c" by metis
      then show thesis
        using that [of c "with_label ?l c sc'"] sc(2) None scale_ok_with_label [OF n(2,4)] typed_note [OF assms(2) l n(4)]
        by (simp add: scale_in_def)
    next
      case (Some c)
      then have "colored c"
        using assms(2) sc(1) map_of_SomeD [OF Some]
        by (force simp: current_map_def typed_world_def scale_ok_def split: if_splits)
      then show thesis
        using that [of c "with_label ?l c sc"] getColor_existing [OF nf Some] sc Some
          scale_ok_with_label [OF sc(1)] typed_note [OF assms(2) l] by (simp add: scale_in_def)
    qed
  qed
qed

section \<open>A label that keeps its colour\<close>

text \<open>
  \<open>keeps (Some (l, c, s)) w\<close>: on the dashboard, chart \<open>s\<close> shows label \<open>l\<close> and the label has colour
  \<open>c\<close>, with no other custom colour. \<open>None\<close> stands for no such promise, so that the typing of an
  operation and what it keeps are proved together.
\<close>

type_synonym kept = "(string \<times> color \<times> int) option"

definition keeps :: "kept \<Rightarrow> color_world \<Rightarrow> bool" where
  "keeps K w \<longleftrightarrow> (\<forall>l c s. K = Some (l, c, s) \<longrightarrow>
     lm_source (cw_labels w) = Dashboard \<and> map_of (colorMap (cw_labels w)) l = Some c \<and>
     (\<exists>cc. map_of (chartsLabelsMap (cw_labels w)) s = Some cc \<and> l \<in> set (cc_labels cc)) \<and>
     (\<forall>ob\<in>set (cw_lookups w). map_of ob l \<in> {None, Some c}))"

definition agrees :: "kept \<Rightarrow> string \<Rightarrow> color \<Rightarrow> bool" where
  "agrees K l c \<longleftrightarrow> colored c \<and> (\<forall>l0 c0 s. K = Some (l0, c0, s) \<longrightarrow> l = l0 \<longrightarrow> c = c0)"

lemma keeps_None [simp]: "keeps None w"
  by (simp add: keeps_def)

lemma keeps_forced:
  assumes "typed_world w" and "keeps (Some (l, c, s)) w" and "a < length (cw_lookups w)"
  shows "forced_color w a l \<in> {NoColor, c}"
proof -
  have "(l, c) \<in> set (colorMap (cw_labels w))" using assms(2) by (auto simp: keeps_def dest: map_of_SomeD)
  then have "admissible l" using assms(1) by (auto simp: typed_world_def label_ok_def)
  moreover have "map_of (cw_lookups w ! a) l \<in> {None, Some c}" using assms(2,3) by (simp add: keeps_def)
  ultimately show ?thesis by (auto simp: forced_color_def)
qed

lemma addSlice_keeps_labels:
  assumes "map_of (chartsLabelsMap m) s = Some cc" and "l0 \<in> set (cc_labels cc)"
  shows "\<exists>cc. map_of (chartsLabelsMap (labels_addSlice l c n ap m)) s = Some cc \<and> l0 \<in> set (cc_labels cc)"
proof (cases rule: addSlice_charts [of l c n ap m])
  case 1
  then show ?thesis using assms by simp
next
  case (2 cc')
  then show ?thesis using assms by (cases "n = s") (auto simp: update_conv')
qed

lemma keeps_note:
  assumes "keeps K w" and "agrees K l c"
  shows "keeps K (note_slice l c s ap w)"
proof -
  have "keeps K (w\<lparr>cw_labels := labels_addSlice l c n ap (cw_labels w)\<rparr>)" for n
    using assms addSlice_keeps_labels [of "cw_labels w" _ _ _ l c n ap]
    by (auto simp: keeps_def agrees_def addSlice_colorMap update_conv')
  then show ?thesis using assms(1) by (auto simp: note_slice_def split: option.splits)
qed

lemma getColor_keeps:
  assumes "env_ok env" and "typed_world w" and "keeps K w" and "scale_in env w sc" and "admissible (stringifyAndTrim v)"
  obtains c sc' where
    "getColor env v s ap sc w = Inr (c, sc', note_slice (stringifyAndTrim v) c s ap w)"
    "agrees K (stringifyAndTrim v) c" "scale_in env w sc'"
    "typed_world (note_slice (stringifyAndTrim v) c s ap w)" "keeps K (note_slice (stringifyAndTrim v) c s ap w)"
proof -
  define c0 where "c0 = (case K of None \<Rightarrow> NoColor | Some (l, c, s) \<Rightarrow> c)"
  from getColor_typed [OF assms(1,2,4,5), of s ap c0] obtain c sc' where
    g: "getColor env v s ap sc w = Inr (c, sc', note_slice (stringifyAndTrim v) c s ap w)"
    "colored c" "scale_in env w sc'" "typed_world (note_slice (stringifyAndTrim v) c s ap w)"
    and same: "\<lbrakk>forced_color w (forcedColors sc) (stringifyAndTrim v) \<in> {NoColor, c0};
      map_of (current_map sc w) (stringifyAndTrim v) = Some c0\<rbrakk> \<Longrightarrow> c = c0" by metis
  have "c = c1" if "K = Some (l1, c1, s1)" "stringifyAndTrim v = l1" for l1 c1 s1
    using same keeps_forced [of w l1 c1 s1 "forcedColors sc"] assms(2-4) that
    by (auto simp: c0_def keeps_def current_map_def scale_in_def)
  then have a: "agrees K (stringifyAndTrim v) c" using g(2) by (simp add: agrees_def)
  show thesis by (rule that [OF g(1) a g(3,4) keeps_note [OF assms(3) a]])
qed

section \<open>Scales and namespaces\<close>

lemma reserve_typed:
  "lookup_ok ob \<Longrightarrow> fold (reserve_color colors a) ob w = w"
  by (induction ob) (auto simp: reserve_color_def lookup_ok_def colored_def)

lemma newScale_ok:
  assumes "env_ok env" and "typed_world w" and "a < length (cw_lookups w)" and "palette colors"
  shows "\<exists>sc. newCategoricalColorScale env colors a ap w = (sc, w) \<and> scale_in env w sc"
proof -
  have "lookup_ok (cw_lookups w ! a)" using assms(2,3) by (simp add: typed_world_def)
  then show ?thesis
    using assms by (auto simp: newCategoricalColorScale_def reserve_typed scale_in_def scale_ok_def env_ok_def ordinal_ok_def)
qed

definition namespace_in :: "color_world \<Rightarrow> string \<Rightarrow> bool" where
  "namespace_in w n \<longleftrightarrow> map_of (cw_namespaces w) n \<noteq> None"

lemma forcedItems_in: "typed_world w \<Longrightarrow> namespace_in w n \<Longrightarrow> forcedItems w n < length (cw_lookups w)"
  by (force simp: namespace_in_def forcedItems_def typed_world_def dest: map_of_SomeD)

lemma ns_getScale_ok:
  assumes "env_ok env" and "typed_world w" and "namespace_in w n"
  shows "\<exists>sc. ns_getScale env scheme n w = Inr (sc, w) \<and> scale_in env w sc"
proof -
  define i where "i = (case scheme of Some s \<Rightarrow> s | None \<Rightarrow> (case getDefaultKey (ce_schemes env) of Some k \<Rightarrow> k | None \<Rightarrow> []))"
  obtain s where "scheme_get (ce_schemes env) (Some i) False = Inr (Some s)" "palette (cs_colors s)"
    using assms(1) unfolding env_ok_def schemes_ok_def by blast
  then show ?thesis
    using newScale_ok [OF assms(1,2) forcedItems_in [OF assms(2,3)]] by (simp add: ns_getScale_def i_def [symmetric])
qed

text \<open>
  What a change of the custom colours leaves alone: the shared map, the namespaces and the scales
  that exist.
\<close>

definition extends :: "color_world \<Rightarrow> color_world \<Rightarrow> bool" where
  "extends w w' \<longleftrightarrow> cw_labels w' = cw_labels w \<and> length (cw_lookups w) \<le> length (cw_lookups w') \<and>
     (\<forall>n. namespace_in w n \<longrightarrow> namespace_in w' n)"

lemma extends_refl [simp]: "extends w w"
  by (simp add: extends_def)

lemma extends_trans: "extends w w1 \<Longrightarrow> extends w1 w2 \<Longrightarrow> extends w w2"
  by (auto simp: extends_def)

lemma extends_covered: "extends w w' \<Longrightarrow> covered w \<Longrightarrow> covered w'"
  by (simp add: extends_def covered_def map_has_def)

lemma extends_scale: "extends w w' \<Longrightarrow> scale_in env w sc \<Longrightarrow> scale_in env w' sc"
  by (auto simp: extends_def scale_in_def)

lemma new_lookup_ok:
  fixes n :: string
  assumes "typed_world w" and "keeps K w" and "lookup_ok ob" and "\<And>l c s. K = Some (l, c, s) \<Longrightarrow> map_of ob l \<in> {None, Some c}"
  defines "w' \<equiv> w\<lparr>cw_lookups := cw_lookups w @ [ob], cw_namespaces := obj_put n (length (cw_lookups w)) (cw_namespaces w)\<rparr>"
  shows "typed_world w' \<and> keeps K w' \<and> extends w w' \<and> namespace_in w' n"
proof -
  have "a < Suc (length (cw_lookups w))" if "(m, a) \<in> set (obj_put n (length (cw_lookups w)) (cw_namespaces w))" for m a
    using obj_put_mem_iff [OF that] assms(1) by (auto simp: typed_world_def)
  then have "typed_world w'" using assms(1,3) by (auto simp: w'_def typed_world_def)
  moreover have "keeps K w'" using assms(2,4) by (auto simp: w'_def keeps_def)
  ultimately show ?thesis by (auto simp: w'_def extends_def namespace_in_def map_of_obj_put)
qed

lemma getNamespace_ok:
  assumes "typed_world w" and "keeps K w" and "admissible (case name of None \<Rightarrow> DEFAULT_NAMESPACE | Some n \<Rightarrow> n)"
  obtains n w' where "getNamespace name w = Inr (n, w')" "typed_world w'" "keeps K w'" "extends w w'" "namespace_in w' n"
proof -
  let ?n = "case name of None \<Rightarrow> DEFAULT_NAMESPACE | Some n \<Rightarrow> n"
  show thesis
  proof (cases "map_of (cw_namespaces w) ?n")
    case None
    then show thesis
      using that [OF _ _ _ _, of ?n] new_lookup_ok [where n = ?n and ob = "[]", OF assms(1,2)] assms(3)
      by (simp add: getNamespace_def new_lookup_def Let_def lookup_ok_def)
  next
    case (Some a)
    then show thesis
      using that [of ?n w] assms by (simp add: getNamespace_def Let_def namespace_in_def)
  qed
qed

lemma set_forcedItems_ok:
  assumes "typed_world w" and "keeps K w" and "lookup_ok ob" and "\<And>l c s. K = Some (l, c, s) \<Longrightarrow> map_of ob l \<in> {None, Some c}"
  shows "typed_world (set_forcedItems n ob w) \<and> keeps K (set_forcedItems n ob w) \<and>
    extends w (set_forcedItems n ob w) \<and> namespace_in (set_forcedItems n ob w) n"
  using new_lookup_ok [where n = n, OF assms] by (simp add: set_forcedItems_def new_lookup_def Let_def)

lemma set_forced_ok:
  assumes "typed_world w" and "keeps K w" and "a < length (cw_lookups w)" and "admissible k" and "agrees K k c"
  shows "typed_world (set_forced a k c w) \<and> keeps K (set_forced a k c w) \<and> extends w (set_forced a k c w)"
proof -
  let ?ob = "typed_set (cw_lookups w ! a) k c"
  have in_a: "cw_lookups w ! a \<in> set (cw_lookups w)" using assms(3) by simp
  have all: "\<forall>ob\<in>set ((cw_lookups w)[a := ?ob]). P ob" if "P ?ob" "\<forall>ob\<in>set (cw_lookups w). P ob" for P
    using that set_update_subset_insert [of "cw_lookups w" a ?ob] by blast
  have "lookup_ok ?ob"
    using assms(1,4,5) in_a obj_put_mem_iff [of _ k c "cw_lookups w ! a"]
    by (fastforce simp: lookup_ok_def typed_set_def typed_world_def agrees_def)
  then have "\<forall>ob\<in>set ((cw_lookups w)[a := ?ob]). lookup_ok ob"
    by (rule all) (use assms(1) in \<open>simp add: typed_world_def\<close>)
  moreover have "\<forall>ob\<in>set ((cw_lookups w)[a := ?ob]). map_of ob l \<in> {None, Some c0}" if K: "K = Some (l, c0, s)" for l c0 s
  proof (rule all)
    show old: "\<forall>ob\<in>set (cw_lookups w). map_of ob l \<in> {None, Some c0}" using assms(2) K by (simp add: keeps_def)
    show "map_of ?ob l \<in> {None, Some c0}"
      using old in_a assms(5) K by (auto simp: typed_set_def map_of_obj_put agrees_def)
  qed
  ultimately show ?thesis
    using assms(1,2) by (simp add: set_forced_def typed_world_def keeps_def extends_def namespace_in_def)
qed

section \<open>Refreshing the shared map\<close>

text \<open>A loop whose steps succeed, keep an invariant and establish a fact for each element that lasts.\<close>

lemma rfold_covers:
  assumes "P s"
    and "\<And>x s. x \<in> set xs \<Longrightarrow> P s \<Longrightarrow> \<exists>s'. f x s = Inr s' \<and> P s' \<and> Q x s' \<and> (\<forall>y. Q y s \<longrightarrow> Q y s')"
  shows "\<exists>t. rfold f xs s = Inr t \<and> P t \<and> (\<forall>x\<in>set xs. Q x t) \<and> (\<forall>y. Q y s \<longrightarrow> Q y t)"
  using assms
proof (induction xs arbitrary: s)
  case (Cons x xs)
  from Cons.prems(2) [of x s] Cons.prems(1) obtain s1 where
    s1: "f x s = Inr s1" "P s1" "Q x s1" "\<forall>y. Q y s \<longrightarrow> Q y s1" by auto
  obtain t where "rfold f xs s1 = Inr t" "P t" "\<forall>x\<in>set xs. Q x t" "\<forall>y. Q y s1 \<longrightarrow> Q y t"
    using Cons.IH [OF s1(2)] Cons.prems(2) by auto
  then show ?case using s1 by auto
qed simp

definition same_charts :: "color_world \<Rightarrow> color_world \<Rightarrow> bool" where
  "same_charts w w' \<longleftrightarrow>
     cw_lookups w' = cw_lookups w \<and> cw_namespaces w' = cw_namespaces w \<and>
     chartsLabelsMap (cw_labels w') = chartsLabelsMap (cw_labels w) \<and> lm_source (cw_labels w') = lm_source (cw_labels w)"

definition put_color :: "string \<Rightarrow> color \<Rightarrow> color_world \<Rightarrow> color_world" where
  "put_color l c w = w\<lparr>cw_labels := (cw_labels w)\<lparr>colorMap := AList.update l c (colorMap (cw_labels w))\<rparr>\<rparr>"

lemma map_has_put [simp]: "map_has (put_color l c w) l' \<longleftrightarrow> l = l' \<or> map_has w l'"
  by (simp add: map_has_def put_color_def update_conv')

lemma put_color_ok:
  assumes "typed_world w" and "keeps K w" and "label_ok l" and "agrees K l c"
  shows "typed_world (put_color l c w) \<and> keeps K (put_color l c w) \<and> same_charts w (put_color l c w)"
proof -
  have "label_ok (fst p) \<and> colored (snd p)" if p: "p \<in> set (AList.update l c (colorMap (cw_labels w)))" for p
  proof -
    have "p = (l, c) \<or> p \<in> set (colorMap (cw_labels w))" using p set_update_cases [of p l c] by auto
    then show ?thesis using assms(1,3,4) by (auto simp: typed_world_def agrees_def)
  qed
  then have "typed_world (put_color l c w)"
    using assms(1) by (simp add: typed_world_def put_color_def case_prod_beta distinct_update)
  then show ?thesis
    using assms(2,4) by (auto simp: keeps_def put_color_def same_charts_def update_conv' agrees_def)
qed

lemma same_charts_note:
  "map_of (chartsLabelsMap (cw_labels w)) n = Some cc \<Longrightarrow> l \<in> set (cc_labels cc) \<Longrightarrow>
   same_charts w (note_slice l c (Some n) ap w)"
  by (auto simp: note_slice_def same_charts_def addSlice_charts_same)

lemma update_label_ok:
  assumes "env_ok env" and "typed_world w" and "keeps K w" and "scale_in env w sc"
    and "map_of (chartsLabelsMap (cw_labels w)) n = Some cc" and "l \<in> set (cc_labels cc)"
  shows "\<exists>sc' w'. update_label env merge n ap l (sc, w) = Inr (sc', w') \<and> typed_world w' \<and> keeps K w' \<and>
     scale_in env w' sc' \<and> same_charts w w' \<and> map_has w' l \<and> (\<forall>l'. map_has w l' \<longrightarrow> map_has w' l')"
proof (cases "\<not> merge \<or> \<not> map_has w l")
  case True
  have l: "label_ok l" using assms(2,5,6) by (auto simp: typed_world_def dest!: map_of_SomeD)
  then have sl: "stringifyAndTrim (JStr l) = l" "admissible l" by (simp_all add: label_ok_def stringifyAndTrim_def)
  from getColor_keeps [OF assms(1-4), of "JStr l" "Some n" ap] sl obtain c sc' where
    g: "getColor env (JStr l) (Some n) ap sc w = Inr (c, sc', note_slice l c (Some n) ap w)" "agrees K l c"
    "scale_in env w sc'" "typed_world (note_slice l c (Some n) ap w)" "keeps K (note_slice l c (Some n) ap w)" by auto
  let ?w = "put_color l c (note_slice l c (Some n) ap w)"
  have p: "typed_world ?w" "keeps K ?w" "same_charts (note_slice l c (Some n) ap w) ?w"
    using put_color_ok [OF g(4,5) l g(2)] by auto
  have "update_label env merge n ap l (sc, w) = Inr (sc', ?w)"
    using True g(1) by (simp add: update_label_def put_color_def)
  moreover have "same_charts w ?w"
    using p(3) same_charts_note [OF assms(5,6)] by (simp add: same_charts_def)
  ultimately show ?thesis
    using p(1,2) g(3) map_has_note by (auto simp: scale_in_def same_charts_def)
next
  case False
  then show ?thesis using assms(2-4) by (auto simp: update_label_def same_charts_def)
qed

lemma update_chart_ok:
  assumes "env_ok env" and "typed_world w" and "keeps K w" and "namespace_in w n" and "(s, cc) \<in> set (chartsLabelsMap (cw_labels w))"
  shows "\<exists>w'. update_chart env n scheme merge (s, cc) w = Inr w' \<and> typed_world w' \<and> keeps K w' \<and> same_charts w w' \<and>
     (\<forall>l\<in>set (cc_labels cc). map_has w' l) \<and> (\<forall>l. map_has w l \<longrightarrow> map_has w' l)"
proof -
  let ?ap = "str_or scheme (cc_ownScheme cc)"
  obtain sc where sc: "ns_getScale env ?ap n w = Inr (sc, w)" "scale_in env w sc"
    using ns_getScale_ok [OF assms(1,2,4)] by blast
  have cc: "map_of (chartsLabelsMap (cw_labels w)) s = Some cc"
    using assms(2,5) by (simp add: typed_world_def)
  have "\<exists>t. rfold (update_label env merge s ?ap) (cc_labels cc) (sc, w) = Inr t \<and>
      (\<lambda>(sc', w'). typed_world w' \<and> keeps K w' \<and> scale_in env w' sc' \<and> same_charts w w') t \<and>
      (\<forall>l\<in>set (cc_labels cc). map_has (snd t) l) \<and> (\<forall>l. map_has (snd (sc, w)) l \<longrightarrow> map_has (snd t) l)"
  proof (rule rfold_covers)
    show "(\<lambda>(sc', w'). typed_world w' \<and> keeps K w' \<and> scale_in env w' sc' \<and> same_charts w w') (sc, w)"
      using assms(2,3) sc(2) by (simp add: same_charts_def)
  next
    fix l x
    assume l: "l \<in> set (cc_labels cc)"
      and x: "(\<lambda>(sc', w'). typed_world w' \<and> keeps K w' \<and> scale_in env w' sc' \<and> same_charts w w') x"
    obtain sc1 w1 where x1: "x = (sc1, w1)" by (cases x)
    then have cc1: "map_of (chartsLabelsMap (cw_labels w1)) s = Some cc" using x cc by (simp add: same_charts_def)
    have "typed_world w1" "keeps K w1" "scale_in env w1 sc1" using x x1 by simp_all
    from update_label_ok [OF assms(1) this cc1 l, of merge ?ap] x x1
    show "\<exists>s'. update_label env merge s ?ap l x = Inr s' \<and>
        (\<lambda>(sc', w'). typed_world w' \<and> keeps K w' \<and> scale_in env w' sc' \<and> same_charts w w') s' \<and>
        map_has (snd s') l \<and> (\<forall>y. map_has (snd x) y \<longrightarrow> map_has (snd s') y)"
      by (auto simp: same_charts_def)
  qed
  then show ?thesis using sc(1) by (auto simp: update_chart_def Let_def)
qed

lemma updateColorMap_ok:
  assumes "env_ok env" and "typed_world w" and "keeps K w" and "namespace_in w n" and "merge \<or> K = None"
  shows "\<exists>w'. updateColorMap env n scheme merge w = Inr w' \<and> typed_world w' \<and> keeps K w' \<and> same_charts w w' \<and> covered w'"
proof -
  define w1 where "w1 = (if merge then w else w\<lparr>cw_labels := (cw_labels w)\<lparr>colorMap := []\<rparr>\<rparr>)"
  have w1: "typed_world w1" "keeps K w1" "namespace_in w1 n" "same_charts w w1"
    using assms by (auto simp: w1_def typed_world_def same_charts_def namespace_in_def)
  have "\<exists>t. rfold (update_chart env n scheme merge) (chartsLabelsMap (cw_labels w1)) w1 = Inr t \<and>
      (typed_world t \<and> keeps K t \<and> same_charts w1 t) \<and>
      (\<forall>x\<in>set (chartsLabelsMap (cw_labels w1)). \<forall>l\<in>set (cc_labels (snd x)). map_has t l) \<and>
      (\<forall>x :: int \<times> chart_config. (\<forall>l\<in>set (cc_labels (snd x)). map_has w1 l) \<longrightarrow> (\<forall>l\<in>set (cc_labels (snd x)). map_has t l))"
  proof (rule rfold_covers)
    show "typed_world w1 \<and> keeps K w1 \<and> same_charts w1 w1" using w1 by (simp add: same_charts_def)
  next
    fix x v
    assume x: "x \<in> set (chartsLabelsMap (cw_labels w1))" and v: "typed_world v \<and> keeps K v \<and> same_charts w1 v"
    then have "(fst x, snd x) \<in> set (chartsLabelsMap (cw_labels v))" "namespace_in v n"
      using w1(3) by (simp_all add: same_charts_def namespace_in_def)
    from update_chart_ok [OF assms(1) _ _ this(2,1), of K scheme merge] v
    show "\<exists>s'. update_chart env n scheme merge x v = Inr s' \<and> (typed_world s' \<and> keeps K s' \<and> same_charts w1 s') \<and>
        (\<forall>l\<in>set (cc_labels (snd x)). map_has s' l) \<and>
        (\<forall>y :: int \<times> chart_config. (\<forall>l\<in>set (cc_labels (snd y)). map_has v l) \<longrightarrow> (\<forall>l\<in>set (cc_labels (snd y)). map_has s' l))"
      by (auto simp: same_charts_def)
  qed
  then obtain t where t: "updateColorMap env n scheme merge w = Inr t" "typed_world t" "keeps K t" "same_charts w1 t"
    "\<forall>x\<in>set (chartsLabelsMap (cw_labels w1)). \<forall>l\<in>set (cc_labels (snd x)). map_has t l"
    by (auto simp: updateColorMap_def w1_def [symmetric] Let_def)
  moreover have "covered t" using t(4,5) by (auto simp: covered_def same_charts_def)
  moreover have "same_charts w t" using w1(4) t(4) by (simp add: same_charts_def)
  ultimately show ?thesis by blast
qed

section \<open>Removing a chart\<close>

definition chart_labels :: "(int, chart_config) jmap \<Rightarrow> string list" where
  "chart_labels charts = concat (map (cc_labels \<circ> snd) charts)"

lemma fold_charts:
  "fold (\<lambda>(_, cc) acc. fold f (cc_labels cc) acc) charts acc = fold f (chart_labels charts) acc"
  by (induction charts arbitrary: acc) (auto simp: chart_labels_def)

lemma mem_chart_labels: "l \<in> set (chart_labels charts) \<longleftrightarrow> (\<exists>(s, cc)\<in>set charts. l \<in> set (cc_labels cc))"
  by (force simp: chart_labels_def)

lemma removeSlice_colors:
  assumes "lm_source m = Dashboard"
  shows "map_of (colorMap (labels_removeSlice n m)) l =
     (if l \<in> set (chart_labels (AList.delete n (chartsLabelsMap m))) then Some (map_get (colorMap m) l) else None)"
  using assms by (simp add: labels_removeSlice_def Let_def fold_charts mapd.get_put_same)

lemma set_delete_mem: "p \<in> set (AList.delete n m) \<Longrightarrow> p \<in> set m"
  by (auto simp: AList.delete_eq)

lemma removeSlice_ok:
  assumes "typed_world w" and "covered w" and "keeps K w" and "\<And>l c s. K = Some (l, c, s) \<Longrightarrow> s \<noteq> n"
  defines "w' \<equiv> w\<lparr>cw_labels := labels_removeSlice n (cw_labels w)\<rparr>"
  shows "typed_world w' \<and> covered w' \<and> keeps K w'"
proof (cases "lm_source (cw_labels w) = Dashboard")
  case True
  let ?m = "cw_labels w"
  have ch: "chartsLabelsMap (cw_labels w') = AList.delete n (chartsLabelsMap ?m)"
    and src: "lm_source (cw_labels w') = Dashboard"
    using True by (simp_all add: w'_def labels_removeSlice_def Let_def)
  have col: "map_of (colorMap (cw_labels w')) l =
     (if l \<in> set (chart_labels (AList.delete n (chartsLabelsMap ?m))) then Some (map_get (colorMap ?m) l) else None)" for l
    using removeSlice_colors [OF True] by (simp add: w'_def)
  have old: "\<exists>c. map_of (colorMap ?m) l = Some c \<and> label_ok l \<and> colored c"
    if l: "l \<in> set (chart_labels (AList.delete n (chartsLabelsMap ?m)))" for l
  proof -
    obtain s cc where "(s, cc) \<in> set (chartsLabelsMap ?m)" "l \<in> set (cc_labels cc)"
      using l set_delete_mem by (fastforce simp: mem_chart_labels)
    then have "map_has w l" using assms(2) True by (auto simp: covered_def)
    then obtain c where c: "map_of (colorMap ?m) l = Some c" by (auto simp: map_has_def)
    then show ?thesis using assms(1) map_of_SomeD [OF c] by (auto simp: typed_world_def)
  qed
  have dist: "distinct (map fst (colorMap (cw_labels w')))"
    using True by (simp add: w'_def labels_removeSlice_def Let_def fold_charts mapd.wf_put_fun)
  have "label_ok l \<and> colored c" if "(l, c) \<in> set (colorMap (cw_labels w'))" for l c
  proof -
    have "map_of (colorMap (cw_labels w')) l = Some c" using that dist by simp
    then show ?thesis using col [of l] old [of l] by (auto simp: map_get_def split: if_splits)
  qed
  moreover have "\<forall>(s, cc)\<in>set (AList.delete n (chartsLabelsMap ?m)). \<forall>l\<in>set (cc_labels cc). label_ok l"
    using assms(1) by (auto simp: typed_world_def dest!: set_delete_mem)
  ultimately have "typed_world w'"
    using assms(1) ch dist by (auto simp: typed_world_def w'_def distinct_delete)
  moreover have "covered w'"
    using ch col by (auto simp: covered_def map_has_def mem_chart_labels)
  moreover have "keeps K w'"
    unfolding keeps_def
  proof (intro allI impI)
    fix l c s
    assume K: "K = Some (l, c, s)"
    then obtain cc where cc: "map_of (chartsLabelsMap ?m) s = Some cc" "l \<in> set (cc_labels cc)"
      and c: "map_of (colorMap ?m) l = Some c" using assms(3) by (auto simp: keeps_def)
    have k: "map_of (chartsLabelsMap (cw_labels w')) s = Some cc"
      using cc(1) assms(4) [OF K] ch by (simp add: delete_conv')
    then have "l \<in> set (chart_labels (AList.delete n (chartsLabelsMap ?m)))"
      using cc(2) ch by (auto simp: mem_chart_labels dest!: map_of_SomeD)
    then have "map_of (colorMap (cw_labels w')) l = Some c" using col [of l] c by (simp add: map_get_def)
    then show "lm_source (cw_labels w') = Dashboard \<and> map_of (colorMap (cw_labels w')) l = Some c \<and>
        (\<exists>cc. map_of (chartsLabelsMap (cw_labels w')) s = Some cc \<and> l \<in> set (cc_labels cc)) \<and>
        (\<forall>ob\<in>set (cw_lookups w'). map_of ob l \<in> {None, Some c})"
      using src k cc(2) assms(3) K by (simp add: keeps_def w'_def)
  qed
  ultimately show ?thesis by blast
next
  case False
  then show ?thesis using assms by (simp add: labels_removeSlice_def)
qed

lemma setOwn_ok:
  fixes n :: int and scheme :: string
  assumes "typed_world w" and "covered w" and "keeps K w"
  defines "w' \<equiv> w\<lparr>cw_labels := labels_setOwnColorScheme n scheme (cw_labels w)\<rparr>"
  shows "typed_world w' \<and> covered w' \<and> keeps K w'"
proof (cases "map_of (chartsLabelsMap (cw_labels w)) n")
  case None
  then show ?thesis using assms by (simp add: labels_setOwnColorScheme_def)
next
  case (Some cc)
  let ?cc = "cc\<lparr>cc_ownScheme := Some scheme\<rparr>"
  have w': "w' = w\<lparr>cw_labels := (cw_labels w)\<lparr>chartsLabelsMap := AList.update n ?cc (chartsLabelsMap (cw_labels w))\<rparr>\<rparr>"
    using Some by (simp add: w'_def labels_setOwnColorScheme_def)
  have "\<exists>d. (n, d) \<in> set (chartsLabelsMap (cw_labels w)) \<and> cc_labels d = cc_labels ?cc"
    using map_of_SomeD [OF Some] by auto
  then have mem: "\<exists>t d. (t, d) \<in> set (chartsLabelsMap (cw_labels w)) \<and> cc_labels d = cc_labels c"
    if "(s, c) \<in> set (AList.update n ?cc (chartsLabelsMap (cw_labels w)))" for s c
    using that set_update_cases [of "(s, c)" n ?cc] by blast
  have "typed_world w'"
    using assms(1) mem unfolding typed_world_def w' by (fastforce simp: distinct_update)
  moreover have "covered w'"
    using assms(2) mem unfolding covered_def w' map_has_def by fastforce
  moreover have "keeps K w'"
    using assms(3) Some unfolding keeps_def w' by (auto simp: update_conv')
  ultimately show ?thesis by blast
qed

end
