(* ===== verification/ColorRuns.thy ===== *)
theory ColorRuns
  imports ColorDashboard
begin

text \<open>
  Runs of colour operations on a dashboard: the custom colours of the metadata are applied, scales
  are created and asked, charts are removed, in any order. The first theorem is that every run is
  total and well typed, the second that a label keeps its colour.
\<close>

section \<open>Applying the colours of the metadata\<close>

definition entries_ok :: "kept \<Rightarrow> color obj \<Rightarrow> bool" where
  "entries_ok K ob \<longleftrightarrow> (\<forall>(k, c)\<in>set ob. label_ok k \<and> agrees K k c)"

definition metadata_ok :: "kept \<Rightarrow> bool \<Rightarrow> bool \<Rightarrow> color_metadata \<Rightarrow> bool" where
  "metadata_ok K merge shared md \<longleftrightarrow>
     entries_ok K (obj_or (label_colors md)) \<and>
     (\<forall>(k, c)\<in>set (obj_or (map_label_colors md)). label_ok k \<and> colored c \<and> (merge \<and> \<not> shared \<or> agrees K k c))"

lemma ns_setColor_fold:
  assumes "typed_world w" and "keeps K w" and "namespace_in w n" and "entries_ok K es"
  shows "typed_world (fold (\<lambda>(label, color). ns_setColor (JStr label) color n) es w) \<and>
    keeps K (fold (\<lambda>(label, color). ns_setColor (JStr label) color n) es w) \<and>
    extends w (fold (\<lambda>(label, color). ns_setColor (JStr label) color n) es w)"
  using assms
proof (induction es arbitrary: w)
  case (Cons e es)
  obtain k c where e: "e = (k, c)" by (cases e)
  then have k: "label_ok k" "agrees K k c" using Cons.prems(4) by (auto simp: entries_ok_def)
  let ?w = "ns_setColor (JStr k) c n w"
  have "stringifyAndTrim (JStr k) = k" "admissible k" using k(1) by (simp_all add: stringifyAndTrim_def label_ok_def)
  then have w: "typed_world ?w" "keeps K ?w" "extends w ?w"
    using set_forced_ok [OF Cons.prems(1,2) forcedItems_in [OF Cons.prems(1,3)] _ k(2)] by (simp_all add: ns_setColor_def)
  moreover have "namespace_in ?w n" using w(3) Cons.prems(3) by (simp add: extends_def)
  moreover have "entries_ok K es" using Cons.prems(4) by (simp add: entries_ok_def)
  ultimately show ?case
    using Cons.IH [of ?w] extends_trans [OF w(3)] e by simp
qed simp

lemma entries_of_map: "obj_wf ob \<Longrightarrow> (\<And>k c. map_of ob k = Some c \<Longrightarrow> label_ok k \<and> agrees K k c) \<Longrightarrow> entries_ok K ob"
  by (auto simp: entries_ok_def obj_wf_def)

lemma map_of_fresh_entries:
  assumes "distinct (map fst (colorMap m))"
  shows "map_of (getFreshLabelsColorMapEntries custom m) k = (if k \<in> fst ` set custom then None else map_of (colorMap m) k)"
proof -
  have "map_of (rev (colorMap m)) = map_of (colorMap m)"
    using assms by (subst map_of_inject_set) (simp_all add: rev_map [symmetric])
  then show ?thesis
    by (simp add: getFreshLabelsColorMapEntries_def objd.get_del_all map_of_from_entries restrict_map_def)
qed

lemma applicable_entries_ok:
  assumes "typed_world w" and "keeps K w" and "metadata_ok K merge shared md"
  shows "entries_ok K (applicable_entries fresh merge shared md w)"
proof -
  let ?full = "obj_or (map_label_colors md)" and ?custom = "obj_or (label_colors md)"
  let ?fresh = "getFreshLabelsColorMapEntries ?custom (cw_labels w)"
  have custom: "label_ok k \<and> agrees K k c" if "map_of ?custom k = Some c" for k c
    using assms(3) map_of_SomeD [OF that] by (auto simp: metadata_ok_def entries_ok_def)
  have full: "label_ok k \<and> colored c \<and> (merge \<and> \<not> shared \<or> agrees K k c)" if "map_of ?full k = Some c" for k c
    using assms(3) map_of_SomeD [OF that] by (auto simp: metadata_ok_def)
  have mf: "map_of ?fresh k = (if k \<in> fst ` set ?custom then None else map_of (colorMap (cw_labels w)) k)" for k
    using assms(1) by (intro map_of_fresh_entries) (simp add: typed_world_def)
  have typed: "label_ok k \<and> colored c" if "map_of (colorMap (cw_labels w)) k = Some c" for k c
    using assms(1) map_of_SomeD [OF that] by (auto simp: typed_world_def)
  have fr: "label_ok k \<and> agrees K k c" if "map_of ?fresh k = Some c" for k c
    using that typed [of k c] assms(2) by (auto simp: mf agrees_def keeps_def split: if_splits)
  have merged: "label_ok k \<and> agrees K k c" if m: "merge" "\<not> shared" "map_of ?full k = Some c" "map_of ?fresh k = None" "map_of ?custom k = None" for k c
  proof -
    have "map_of (colorMap (cw_labels w)) k = None"
      using m(4,5) by (auto simp: mf map_of_eq_None_iff split: if_splits)
    then have "agrees K k c" using assms(2) full [OF m(3)] by (auto simp: agrees_def keeps_def)
    then show ?thesis using full [OF m(3)] by simp
  qed
  define e3 where "e3 =
     (if shared then getSharedLabelsColorMapEntries ?full (enforceSharedLabelsColorsArray (shared_label_colors md))
      else if merge then obj_assign (obj_assign [] ?full) ?fresh
      else if fresh \<noteq> NotFresh then obj_assign [] ?fresh else ?full)"
  have sh: "label_ok k \<and> agrees K k c" if "shared" "map_of (getSharedLabelsColorMapEntries ?full ls) k = Some c" for ls k c
  proof -
    have "(k, c) \<in> set ?full"
      using that(2) by (auto simp: getSharedLabelsColorMapEntries_def map_of_from_entries dest!: map_of_SomeD)
    then show ?thesis using assms(3) that(1) by (auto simp: metadata_ok_def)
  qed
  have e3: "label_ok k \<and> agrees K k c" if e: "map_of e3 k = Some c" "map_of ?custom k = None" for k c
    using e fr [of k c] full [of k c] merged [of k c] sh [of _ k c]
    by (auto simp: e3_def map_of_obj_assign map_add_Some_iff split: if_splits)
  have "applicable_entries fresh merge shared md w = obj_assign (obj_assign [] e3) ?custom"
    by (simp add: applicable_entries_def e3_def Let_def)
  then show ?thesis
    using e3 custom by (auto intro!: entries_of_map obj_wf_assign simp: map_of_obj_assign map_add_Some_iff)
qed

lemma reset_labels_ok:
  assumes "lookup_ok ob" and "\<forall>l c s. K = Some (l, c, s) \<longrightarrow> map_of ob l \<in> {None, Some c}"
  shows "\<exists>ob'. rfold reset_label labels ob = Inr ob' \<and> lookup_ok ob' \<and>
    (\<forall>l c s. K = Some (l, c, s) \<longrightarrow> map_of ob' l \<in> {None, Some c})"
  using assms
proof (induction labels arbitrary: ob)
  case (Cons k ks)
  have "\<not> admissible ''hasOwnProperty''" by (simp add: admissible_def object_prototype_def)
  then have "''hasOwnProperty'' \<notin> fst ` set ob" using Cons.prems(1) by (auto simp: lookup_ok_def)
  moreover let ?ob = "if k \<in> fst ` set ob then AList.delete k ob else ob"
  have "lookup_ok ?ob" using Cons.prems(1) by (auto simp: lookup_ok_def dest!: set_delete_mem)
  moreover have "map_of ?ob l \<in> {None, Some c}" if "K = Some (l, c, s)" for l c s
    using Cons.prems(2) that by (auto simp: delete_conv')
  ultimately show ?case using Cons.IH [of ?ob] by (simp add: reset_label_def)
qed simp

lemma lookup_of_map: "obj_wf ob \<Longrightarrow> (\<And>k c. map_of ob k = Some c \<Longrightarrow> admissible k \<and> colored c) \<Longrightarrow> lookup_ok ob"
  by (auto simp: lookup_ok_def obj_wf_def)

lemma reset_custom_ok:
  assumes "typed_world w" and "keeps K w" and "namespace_in w n"
  shows "\<exists>w'. reset_custom fresh n w = Inr w' \<and> typed_world w' \<and> keeps K w' \<and> extends w w'"
proof (cases fresh)
  case NotFresh
  then show ?thesis using assms by (simp add: reset_custom_def)
next
  case AllFresh
  then show ?thesis
    using set_forcedItems_ok [OF assms(1,2), of "[]" n] by (simp add: reset_custom_def ns_resetColors_def lookup_ok_def)
next
  case (FreshLabels labels)
  let ?ob = "cw_lookups w ! forcedItems w n"
  have in_w: "?ob \<in> set (cw_lookups w)" using forcedItems_in [OF assms(1,3)] by simp
  then have "lookup_ok ?ob" "\<forall>l c s. K = Some (l, c, s) \<longrightarrow> map_of ?ob l \<in> {None, Some c}"
    using assms(1,2) by (auto simp: typed_world_def keeps_def)
  from reset_labels_ok [where labels = labels, OF this] obtain ob where
    ob: "rfold reset_label labels ?ob = Inr ob" "lookup_ok ob"
    "\<forall>l c s. K = Some (l, c, s) \<longrightarrow> map_of ob l \<in> {None, Some c}" by blast
  have "obj_wf (obj_assign [] ob)" by (simp add: obj_wf_assign)
  then have "lookup_ok (obj_assign [] ob)"
    using ob(2) lookup_of_map [of "obj_assign [] ob"] by (fastforce simp: lookup_ok_def map_of_obj_assign dest: map_of_SomeD)
  then show ?thesis
    using set_forcedItems_ok [OF assms(1,2), of "obj_assign [] ob" n] ob(1,3) FreshLabels
    by (simp add: reset_custom_def ns_resetColorsForLabels_def map_of_obj_assign)
qed

lemma getColorNamespace_idem: "getColorNamespace (getColorNamespace n) = getColorNamespace n"
  by (simp add: getColorNamespace_def str_or_def)

definition namespace_name :: "string option \<Rightarrow> string" where
  "namespace_name name = (case name of None \<Rightarrow> DEFAULT_NAMESPACE | Some n \<Rightarrow> n)"

lemma refresh_ok:
  assumes "env_ok env" and "typed_world w" and "keeps K w" and "merge \<or> K = None"
    and "admissible (namespace_name (getColorNamespace name))"
  shows "\<exists>w'. refreshLabelsColorMap env name scheme merge w = Inr w' \<and> typed_world w' \<and> keeps K w' \<and> covered w' \<and>
    (\<forall>sc. scale_in env w sc \<longrightarrow> scale_in env w' sc) \<and> (\<forall>m. namespace_in w m \<longrightarrow> namespace_in w' m)"
proof -
  obtain n w1 where n: "getNamespace (getColorNamespace name) w = Inr (n, w1)" "typed_world w1" "keeps K w1"
    "extends w w1" "namespace_in w1 n"
    using getNamespace_ok [OF assms(2,3)] assms(5) by (metis namespace_name_def)
  obtain w2 where u: "updateColorMap env n scheme merge w1 = Inr w2" "typed_world w2" "keeps K w2" "same_charts w1 w2" "covered w2"
    using updateColorMap_ok [OF assms(1) n(2,3,5) assms(4)] by blast
  have "scale_in env w2 sc" if "scale_in env w sc" for sc
    using extends_scale [OF n(4) that] u(4) by (simp add: scale_in_def same_charts_def)
  moreover have "namespace_in w2 m" if "namespace_in w m" for m
    using n(4) u(4) that by (simp add: extends_def same_charts_def namespace_in_def)
  ultimately show ?thesis using n(1) u by (simp add: refreshLabelsColorMap_def)
qed

lemma applyColors_ok:
  assumes "env_ok env" and "typed_world w" and "covered w" and "keeps K w"
    and "admissible (namespace_name (getColorNamespace (color_namespace md)))"
    and "metadata_ok K merge shared md" and "fresh = NotFresh \<or> merge \<or> K = None"
  shows "\<exists>w'. applyColors env md fresh merge shared w = Inr w' \<and> typed_world w' \<and> covered w' \<and> keeps K w' \<and>
    (\<forall>sc. scale_in env w sc \<longrightarrow> scale_in env w' sc)"
proof -
  obtain n w1 where n: "getNamespace (getColorNamespace (color_namespace md)) w = Inr (n, w1)" "typed_world w1" "keeps K w1"
    "extends w w1" "namespace_in w1 n"
    using getNamespace_ok [OF assms(2,4)] assms(5) by (metis namespace_name_def)
  obtain w2 where r: "reset_custom fresh n w1 = Inr w2" "typed_world w2" "keeps K w2" "extends w1 w2"
    using reset_custom_ok [OF n(2,3,5)] by blast
  have e: "extends w w2" by (rule extends_trans [OF n(4) r(4)])
  obtain w3 where u: "(if fresh \<noteq> NotFresh \<or> merge
      then refreshLabelsColorMap env (color_namespace md) (color_scheme md) merge w2 else Inr w2) = Inr w3"
    "typed_world w3" "keeps K w3" "covered w3" "\<forall>sc. scale_in env w2 sc \<longrightarrow> scale_in env w3 sc" "namespace_in w3 n"
  proof (cases "fresh \<noteq> NotFresh \<or> merge")
    case True
    then have "merge \<or> K = None" using assms(7) by blast
    from refresh_ok [OF assms(1) r(2,3) this assms(5), of "color_scheme md"] obtain w3 where
      "refreshLabelsColorMap env (color_namespace md) (color_scheme md) merge w2 = Inr w3" "typed_world w3" "keeps K w3"
      "covered w3" "\<forall>sc. scale_in env w2 sc \<longrightarrow> scale_in env w3 sc" "\<forall>m. namespace_in w2 m \<longrightarrow> namespace_in w3 m" by blast
    then show thesis using that [of w3] True n(5) r(4) by (simp add: extends_def)
  next
    case False
    then show thesis
      using that [of w2] r n(5) extends_covered [OF e assms(3)] by (simp add: extends_def)
  qed
  let ?es = "applicable_entries fresh merge shared md w3"
  let ?w = "fold (\<lambda>(label, color). ns_setColor (JStr label) color n) ?es w3"
  have f: "typed_world ?w" "keeps K ?w" "extends w3 ?w"
    using ns_setColor_fold [OF u(2,3,6) applicable_entries_ok [OF u(2,3) assms(6)]] by auto
  have "applyColors env md fresh merge shared w = Inr ?w" using n(1) r(1) u(1) by (simp add: applyColors_def)
  moreover have "scale_in env ?w sc" if "scale_in env w sc" for sc
    using extends_scale [OF f(3)] u(5) extends_scale [OF e that] by blast
  ultimately show ?thesis using f(1,2) extends_covered [OF f(3) u(4)] by blast
qed

section \<open>Runs\<close>

record 'd color_sys =
  cy_scales :: "'d CategoricalColorScale list"
  cy_world :: color_world

text \<open>
  The operations of the page: a chart gets a scale, asks it for the colour of a value, sets a custom
  colour on it; the original scheme of a chart is noted; a chart is removed; the metadata is applied.
\<close>

datatype color_op =
    NewScale "string option" "string option"
  | ScaleColor nat jsval "int option"
  | ScaleCustom nat jsval string
  | ChartScheme int string
  | RemoveChart int
  | ApplyColors color_metadata fresh bool bool

fun color_step :: "'d color_env \<Rightarrow> color_op \<Rightarrow> 'd color_sys \<Rightarrow> ((string \<times> color) list \<times> 'd color_sys) res" where
  "color_step env (NewScale scheme name) y =
     rbind (getScale env scheme name (cy_world y)) (\<lambda>(sc, w). Inr ([], \<lparr>cy_scales = cy_scales y @ [sc], cy_world = w\<rparr>))"
| "color_step env (ScaleColor i v s) y =
     (if i < length (cy_scales y) then
        rbind (call_scale env v s (cy_scales y ! i) (cy_world y)) (\<lambda>(c, sc, w).
          Inr ([(stringifyAndTrim v, c)], \<lparr>cy_scales = (cy_scales y)[i := sc], cy_world = w\<rparr>))
      else Inr ([], y))"
| "color_step env (ScaleCustom i v color) y =
     Inr ([], if i < length (cy_scales y) then y\<lparr>cy_world := scale_setColor v color (cy_scales y ! i) (cy_world y)\<rparr> else y)"
| "color_step env (ChartScheme s scheme) y =
     Inr ([], y\<lparr>cy_world := (cy_world y)\<lparr>cw_labels := labels_setOwnColorScheme s scheme (cw_labels (cy_world y))\<rparr>\<rparr>)"
| "color_step env (RemoveChart s) y =
     Inr ([], y\<lparr>cy_world := (cy_world y)\<lparr>cw_labels := labels_removeSlice s (cw_labels (cy_world y))\<rparr>\<rparr>)"
| "color_step env (ApplyColors md fresh merge shared) y =
     rbind (applyColors env md fresh merge shared (cy_world y)) (\<lambda>w. Inr ([], y\<lparr>cy_world := w\<rparr>))"

fun color_run :: "'d color_env \<Rightarrow> color_op list \<Rightarrow> 'd color_sys \<Rightarrow> ((string \<times> color) list \<times> 'd color_sys) res" where
  "color_run env [] y = Inr ([], y)"
| "color_run env (x # xs) y =
     rbind (color_step env x y) (\<lambda>(out, y1).
     rbind (color_run env xs y1) (\<lambda>(outs, y2). Inr (out @ outs, y2)))"

definition sys_ok :: "'d color_env \<Rightarrow> 'd color_sys \<Rightarrow> bool" where
  "sys_ok env y \<longleftrightarrow> typed_world (cy_world y) \<and> covered (cy_world y) \<and> (\<forall>sc\<in>set (cy_scales y). scale_in env (cy_world y) sc)"

text \<open>
  The operations considered: labels and namespaces whose names are not properties of every object,
  and, when a label is to keep its colour, no other custom colour for it, its chart is not removed
  and the colours are not made fresh.
\<close>

fun op_ok :: "kept \<Rightarrow> color_op \<Rightarrow> bool" where
  "op_ok K (NewScale scheme name) = admissible (namespace_name name)"
| "op_ok K (ScaleColor i v s) = admissible (stringifyAndTrim v)"
| "op_ok K (ScaleCustom i v color) = (admissible (stringifyAndTrim v) \<and> agrees K (stringifyAndTrim v) (Color color))"
| "op_ok K (ChartScheme s scheme) = True"
| "op_ok K (RemoveChart s) = (\<forall>l c s'. K = Some (l, c, s') \<longrightarrow> s' \<noteq> s)"
| "op_ok K (ApplyColors md fresh merge shared) =
     (admissible (namespace_name (getColorNamespace (color_namespace md))) \<and> metadata_ok K merge shared md \<and>
      (fresh = NotFresh \<or> merge \<or> K = None))"

lemma scale_in_mono: "scale_in env w sc \<Longrightarrow> length (cw_lookups w) \<le> length (cw_lookups w') \<Longrightarrow> scale_in env w' sc"
  by (simp add: scale_in_def)

lemma color_step_ok:
  assumes "env_ok env" and "sys_ok env y" and "keeps K (cy_world y)" and "op_ok K x"
  shows "\<exists>out y'. color_step env x y = Inr (out, y') \<and> sys_ok env y' \<and> keeps K (cy_world y') \<and>
    (\<forall>(l, c)\<in>set out. agrees K l c)"
proof (cases x)
  case (NewScale scheme name)
  have y: "typed_world (cy_world y)" "covered (cy_world y)" "\<forall>sc\<in>set (cy_scales y). scale_in env (cy_world y) sc"
    using assms(2) by (auto simp: sys_ok_def)
  obtain n w where n: "getNamespace name (cy_world y) = Inr (n, w)" "typed_world w" "keeps K w"
    "extends (cy_world y) w" "namespace_in w n"
    using getNamespace_ok [OF y(1) assms(3)] assms(4) NewScale by (metis namespace_name_def op_ok.simps(1))
  obtain sc where sc: "ns_getScale env scheme n w = Inr (sc, w)" "scale_in env w sc"
    using ns_getScale_ok [OF assms(1) n(2,5)] by blast
  show ?thesis
    using NewScale n sc y(3) extends_covered [OF n(4) y(2)] extends_scale [OF n(4)]
    by (auto simp: getScale_def sys_ok_def)
next
  case (ScaleColor i v s)
  show ?thesis
  proof (cases "i < length (cy_scales y)")
    case True
    let ?sc = "cy_scales y ! i" and ?l = "stringifyAndTrim v"
    have y: "typed_world (cy_world y)" "covered (cy_world y)" "scale_in env (cy_world y) ?sc"
      "\<forall>sc\<in>set (cy_scales y). scale_in env (cy_world y) sc"
      using assms(2) True by (auto simp: sys_ok_def)
    have "admissible ?l" using assms(4) ScaleColor by simp
    from getColor_keeps [OF assms(1) y(1) assms(3) y(3) this, of s "appliedColorScheme ?sc"] obtain c sc' where
      g: "getColor env v s (appliedColorScheme ?sc) ?sc (cy_world y) =
          Inr (c, sc', note_slice ?l c s (appliedColorScheme ?sc) (cy_world y))"
      "agrees K ?l c" "scale_in env (cy_world y) sc'" "typed_world (note_slice ?l c s (appliedColorScheme ?sc) (cy_world y))"
      "keeps K (note_slice ?l c s (appliedColorScheme ?sc) (cy_world y))" by blast
    have "\<forall>sc\<in>set ((cy_scales y)[i := sc']). scale_in env (cy_world y) sc"
      using set_update_subset_insert [of "cy_scales y" i sc'] g(3) y(4) by blast
    then show ?thesis
      using ScaleColor True g covered_note [OF y(2)] by (auto simp: call_scale_def sys_ok_def scale_in_def)
  qed (use ScaleColor assms in auto)
next
  case (ScaleCustom i v color)
  show ?thesis
  proof (cases "i < length (cy_scales y)")
    case True
    let ?a = "forcedColors (cy_scales y ! i)"
    have y: "typed_world (cy_world y)" "?a < length (cw_lookups (cy_world y))"
      using assms(2) True by (auto simp: sys_ok_def scale_in_def)
    have k: "admissible (stringifyAndTrim v)" "agrees K (stringifyAndTrim v) (Color color)"
      using assms(4) ScaleCustom by simp_all
    show ?thesis
      using set_forced_ok [OF y(1) assms(3) y(2) k] ScaleCustom True assms(2)
      by (auto simp: scale_setColor_def sys_ok_def intro: extends_covered extends_scale)
  qed (use ScaleCustom assms in auto)
next
  case (ChartScheme s scheme)
  then show ?thesis
    using setOwn_ok [of "cy_world y" K s scheme] assms(2,3) by (auto simp: sys_ok_def intro: scale_in_mono)
next
  case (RemoveChart s)
  then show ?thesis
    using removeSlice_ok [of "cy_world y" K s] assms(2-4) by (auto simp: sys_ok_def intro: scale_in_mono)
next
  case (ApplyColors md fresh merge shared)
  then show ?thesis
    using applyColors_ok [OF assms(1), of "cy_world y" K md merge shared fresh] assms(2-4) by (auto simp: sys_ok_def)
qed

lemma color_run_ok:
  assumes "env_ok env"
  shows "sys_ok env y \<Longrightarrow> keeps K (cy_world y) \<Longrightarrow> \<forall>x\<in>set xs. op_ok K x \<Longrightarrow>
    \<exists>out y'. color_run env xs y = Inr (out, y') \<and> sys_ok env y' \<and> keeps K (cy_world y') \<and> (\<forall>(l, c)\<in>set out. agrees K l c)"
proof (induction xs arbitrary: y)
  case (Cons x xs)
  then obtain out y1 where s: "color_step env x y = Inr (out, y1)" "sys_ok env y1" "keeps K (cy_world y1)"
    "\<forall>(l, c)\<in>set out. agrees K l c" using color_step_ok [OF assms] by (metis list.set_intros(1))
  obtain outs y2 where "color_run env xs y1 = Inr (outs, y2)" "sys_ok env y2" "keeps K (cy_world y2)"
    "\<forall>(l, c)\<in>set outs. agrees K l c" using Cons.IH [OF s(2,3)] Cons.prems(3) by auto
  then show ?case using s by auto
qed simp


text \<open>
  C21. A label keeps its colour on the whole dashboard. Once a label of a chart has a colour in the
  shared map, and no other custom colour is given to it, every chart that asks for the colour of
  that label gets this colour, whatever its own scheme, and the shared map keeps it, as long as the
  chart that shows the label stays and the colours are not made fresh: new charts, custom colours of
  other labels, removed charts and applied or merged metadata do not change it.
\<close>

theorem label_keeps_color:
  assumes "env_ok env" and "sys_ok env y" and "keeps (Some (l, c, s)) (cy_world y)"
    and "\<forall>x\<in>set xs. op_ok (Some (l, c, s)) x"
  shows "\<exists>out y'. color_run env xs y = Inr (out, y') \<and> (\<forall>c'. (l, c') \<in> set out \<longrightarrow> c' = c) \<and>
     map_of (colorMap (cw_labels (cy_world y'))) l = Some c"
proof -
  obtain out y' where r: "color_run env xs y = Inr (out, y')" "keeps (Some (l, c, s)) (cy_world y')"
    "\<forall>(l', c')\<in>set out. agrees (Some (l, c, s)) l' c'"
    using color_run_ok [OF assms] by blast
  have "c' = c" if "(l, c') \<in> set out" for c'
    using r(3) that by (auto simp: agrees_def)
  then show ?thesis using r(1,2) by (auto simp: keeps_def)
qed

section \<open>Two surprises\<close>

text \<open>
  A colour that is set on one scale is the colour of that label on every scale of the namespace:
  they all hold the same object of custom colours.
\<close>

lemma scale_setColor_shared:
  assumes "forcedColors sc = forcedColors sc'" and "forcedColors sc < length (cw_lookups w)"
    and "stringifyAndTrim v \<noteq> ''__proto__''" and "color \<noteq> []"
  shows "\<exists>sc2 w2. getColor env v s ap sc' (scale_setColor v color sc w) = Inr (Color color, sc2, w2)"
proof -
  have "forced_color (scale_setColor v color sc w) (forcedColors sc') (stringifyAndTrim v) = Color color"
    using assms by (simp add: forced_color_def scale_setColor_def set_forced_def typed_set_def slot_of_def map_of_obj_put)
  then show ?thesis using getColor_forced [of "scale_setColor v color sc w" sc' v env s ap] assms(4) by (simp add: Let_def)
qed

text \<open>A label that every object inherits gets that property for a colour.\<close>

lemma getColor_inherited:
  assumes "\<not> admissible (stringifyAndTrim v)" and "map_of (cw_lookups w ! forcedColors sc) (stringifyAndTrim v) = None"
  shows "\<exists>sc2 w2. getColor env v s ap sc w = Inr (Builtin (stringifyAndTrim v), sc2, w2)"
proof -
  have "forced_color w (forcedColors sc) (stringifyAndTrim v) = Builtin (stringifyAndTrim v)"
    using assms by (simp add: forced_color_def slot_of_def admissible_def)
  then show ?thesis using getColor_forced [of w sc v env s ap] by (simp add: Let_def)
qed

section \<open>Concrete runs\<close>

text \<open>An ordinal scale as domain, range and value for unknown inputs, and one registered scheme.\<close>

type_synonym ordinal1 = "string list \<times> string list \<times> color option"

definition call1 :: "string \<Rightarrow> ordinal1 \<Rightarrow> color \<times> ordinal1" where
  "call1 v d =
     (let (ds, r, u) = d
      in case u of
           Some c \<Rightarrow> (if v \<in> set ds \<and> r \<noteq> [] then Color (r ! (the (find_index (\<lambda>x. x = v) ds) mod length r)) else c, d)
         | None \<Rightarrow> (if r = [] then NoColor else Color (r ! (the (find_index (\<lambda>x. x = v) (grown v ds)) mod length r)),
                   (grown v ds, r, u)))"

definition ordinal1 :: "ordinal1 d3_ordinal" where
  "ordinal1 = \<lparr>d3_new = ([], [], None), d3_call = call1, d3_domain = fst,
     d3_set_domain = (\<lambda>ds d. (ds, snd d)), d3_range = (\<lambda>d. fst (snd d)),
     d3_set_range = (\<lambda>r d. (fst d, r, snd (snd d))), d3_unknown = (\<lambda>d. snd (snd d)),
     d3_set_unknown = (\<lambda>u d. (fst d, fst (snd d), u))\<rparr>"

definition scheme1 :: ColorScheme where
  "scheme1 = newColorScheme [''#1FA8C9'', ''#454E7C'', ''#5AC189''] None ''supersetColors'' None (Some True) None"

definition schemes1 :: scheme_registry where
  "schemes1 = newColorSchemeRegistry\<lparr>base := (base newColorSchemeRegistry)\<lparr>items := [(''supersetColors'', ItemWithValue scheme1)]\<rparr>,
     defaultKey := Some ''supersetColors''\<rparr>"

definition color_env1 :: "ordinal1 color_env" where
  "color_env1 = \<lparr>ce_d3 = ordinal1, ce_analogous = (\<lambda>c n. replicate (the_enat n) (CHR ''#'' # c)),
     UseAnalogousColors = True, AvoidColorsCollision = True, ce_schemes = schemes1\<rparr>"

lemma color_env1_ok: "env_ok color_env1"
proof -
  have "ordinal_ok ordinal1"
    by (auto simp: ordinal_ok_def ordinal1_def call1_def Let_def split: prod.splits)
  moreover have "schemes_ok schemes1"
  proof -
    have "reg_get id (base schemes1) key = Inr (if key = ''supersetColors'' then Some scheme1 else None)" for key
      by (auto simp: reg_get_def slot_of_def schemes1_def newColorSchemeRegistry_def newRegistryWithDefaultKey_def)
    moreover have "defaultKey schemes1 = Some ''supersetColors''" by (simp add: schemes1_def)
    ultimately have "scheme_get schemes1 (Some key) False = Inr (Some scheme1)" for key
      by (simp add: scheme_get_def dk_get_def getDefaultKey_def)
    then show ?thesis by (simp add: schemes_ok_def scheme1_def newColorScheme_def palette_def)
  qed
  ultimately show ?thesis by (simp add: env_ok_def color_env1_def analogous_ok_def)
qed

text \<open>A chart with id 7 has shown the label \<open>Boston\<close>; another chart follows.\<close>

definition world1 :: color_world where
  "world1 = \<lparr>cw_lookups = [[]],
     cw_labels = \<lparr>chartsLabelsMap = [(7, \<lparr>cc_labels = [''Boston''], cc_scheme = None, cc_ownScheme = None\<rparr>)],
       colorMap = [(''Boston'', Color ''#454E7C'')], lm_source = Dashboard\<rparr>,
     cw_namespaces = [(''GLOBAL'', 0)]\<rparr>"

definition metadata1 :: color_metadata where
  "metadata1 = \<lparr>color_namespace = None, color_scheme = Some ''supersetColors'',
     map_label_colors = Some [(''Boston'', Color ''#FF0000'')], shared_label_colors = None,
     label_colors = Some [(''Oslo'', Color ''#00FF00'')]\<rparr>"

definition ops1 :: "color_op list" where
  "ops1 = [NewScale None None, ScaleColor 0 (JStr ''Oslo'') (Some 8), ScaleColor 0 (JStr '' Boston '') (Some 8),
     ApplyColors metadata1 NotFresh True False, RemoveChart 8, NewScale None None, ScaleColor 1 (JStr ''Boston'') (Some 9)]"

lemma admissible1: "admissible ''Boston''" "admissible ''Oslo''" "admissible ''GLOBAL''"
  by (simp_all add: admissible_def object_prototype_def)

lemma trim1: "str_trim ''Boston'' = ''Boston''" "str_trim ''Oslo'' = ''Oslo''" "str_trim '' Boston '' = ''Boston''"
  by (simp_all add: str_trim_def is_ws_def)

lemma sys1_ok: "sys_ok color_env1 \<lparr>cy_scales = [], cy_world = world1\<rparr>"
  using admissible1 trim1
  by (simp add: sys_ok_def typed_world_def covered_def world1_def lookup_ok_def label_ok_def map_has_def)

lemma ops1_ok: "x \<in> set ops1 \<Longrightarrow> op_ok (Some (''Boston'', Color ''#454E7C'', 7)) x"
  using admissible1 trim1
  by (auto simp: ops1_def namespace_name_def DEFAULT_NAMESPACE_def stringifyAndTrim_def metadata1_def getColorNamespace_def
    str_or_def metadata_ok_def entries_ok_def obj_or_def label_ok_def agrees_def)

lemma ops1_typed: "x \<in> set ops1 \<Longrightarrow> op_ok None x"
  using admissible1 trim1
  by (auto simp: ops1_def namespace_name_def DEFAULT_NAMESPACE_def stringifyAndTrim_def metadata1_def getColorNamespace_def
    str_or_def metadata_ok_def entries_ok_def obj_or_def label_ok_def agrees_def)


theorem label_keeps_color_witness:
  "\<exists>out y. color_run color_env1 ops1 \<lparr>cy_scales = [], cy_world = world1\<rparr> = Inr (out, y) \<and>
     (\<forall>c. (''Boston'', c) \<in> set out \<longrightarrow> c = Color ''#454E7C'') \<and>
     map_of (colorMap (cw_labels (cy_world y))) ''Boston'' = Some (Color ''#454E7C'')"
proof -
  have "keeps (Some (''Boston'', Color ''#454E7C'', 7)) (cy_world \<lparr>cy_scales = [] :: ordinal1 CategoricalColorScale list, cy_world = world1\<rparr>)"
    by (simp add: keeps_def world1_def)
  then show ?thesis
    using label_keeps_color [OF color_env1_ok sys1_ok] ops1_ok by blast
qed

definition scale1 :: "ordinal1 CategoricalColorScale" where
  "scale1 = fst (newCategoricalColorScale color_env1 (cs_colors scheme1) 0 None world1)"

lemma scale1_ok: "scale_ok color_env1 scale1" "chartLabelsColorMap scale1 = []" "originColors scale1 = cs_colors scheme1"
  "forcedColors scale1 = 0"
  by (simp_all add: scale_ok_def scale1_def newCategoricalColorScale_def color_env1_def ordinal1_def palette_def
    scheme1_def newColorScheme_def)

text \<open>A chart whose three colours are used, the first label twice as often.\<close>

definition scale2 :: "ordinal1 CategoricalColorScale" where
  "scale2 = scale1\<lparr>chartLabelsColorMap := [(''Boston'', Color ''#1FA8C9''), (''Oslo'', Color ''#454E7C''),
     (''Rome'', Color ''#5AC189''), (''Lima'', Color ''#454E7C'')]\<rparr>"

end
