(* ===== verification/Connection.thy ===== *)
theory Connection
  imports JsJson
begin

text \<open>
  The HTTP client, after \<open>superset-ui-core/src/connection\<close>: a call of the API with its response
  cache (\<open>callApi/callApi.ts\<close>), the parsing of responses (\<open>callApi/parseResponse.ts\<close>), the race with
  a timeout, the client with its CSRF token (\<open>SupersetClientClass.ts\<close>) and the singleton
  (\<open>SupersetClient.ts\<close>).

  The client is asynchronous: a request waits for the token promise it found when it was made and
  then reads the state of the client. Promises of tokens are numbered, requests and forms are
  tasks, and everything that can happen to them is an event, so that a run is any interleaving.

  The network with its retries, \<open>JSON.stringify\<close>, the URL functions and the caches of the browser are
  fields of the environment.
\<close>

section \<open>Requests and responses\<close>

type_synonym headers = "string obj"

text \<open>A response: status, the header \<open>Etag\<close>, the body.\<close>

record response =
  rs_status :: nat
  rs_etag :: "string option"
  rs_text :: string

definition rs_ok :: "response \<Rightarrow> bool" where
  "rs_ok r \<longleftrightarrow> 200 \<le> rs_status r \<and> rs_status r \<le> 299"

datatype http_body = BodyValue jsval | BodyForm "(string \<times> string) list" | BodyText "string option"

record http_request =
  hr_body :: http_body
  hr_cache :: string
  hr_credentials :: string
  hr_headers :: headers
  hr_method :: string
  hr_mode :: string
  hr_redirect :: string
  hr_signal :: jsval

text \<open>Why a promise of the client is rejected.\<close>

datatype api_error =
    InvalidPayload string
  | BothPayloads
  | NotCached
  | NetworkFailure
  | NotJson
  | BadParseMethod string
  | HttpError response
  | RequestTimedOut jsnum
  | NoCsrfToken string
  | CsrfFetchFailed
  | Thrown

type_synonym 'a api = "api_error + 'a"

datatype post_payload = FormPayload "(string \<times> string) list" | ValuePayload jsval

record call_api =
  ca_body :: jsval
  ca_cache :: "string option"
  ca_credentials :: "string option"
  ca_fetchRetryOptions :: "jsval obj"
  ca_headers :: headers
  ca_method :: "string option"
  ca_mode :: "string option"
  ca_postPayload :: post_payload
  ca_jsonPayload :: jsval
  ca_redirect :: "string option"
  ca_signal :: jsval
  ca_stringify :: "bool option"
  ca_url :: string
  ca_searchParams :: jsval

record api_env =
  ae_fetch :: "jsval obj \<Rightarrow> string \<Rightarrow> http_request \<Rightarrow> response api"
  ae_stringify :: "jsval \<Rightarrow> string option res"
  ae_with_search :: "string \<Rightarrow> jsval \<Rightarrow> string"
  ae_json_bigint :: "string \<Rightarrow> jsval option"
  CACHE_AVAILABLE :: bool
  ae_https :: bool
  ae_cache_opens :: bool

text \<open>The cached responses, by URL.\<close>

type_synonym api_cache = "(string, response) jmap"

section \<open>Calling the API\<close>

definition tryParsePayload :: "jsval \<Rightarrow> jsval api" where
  "tryParsePayload payload =
     (case payload of
        JStr s \<Rightarrow> (case json_parse s of None \<Rightarrow> Inl (InvalidPayload s) | Some v \<Rightarrow> Inr v)
      | _ \<Rightarrow> Inr payload)"

definition getFullUrl :: "api_env \<Rightarrow> string \<Rightarrow> jsval \<Rightarrow> string" where
  "getFullUrl env partialUrl params = (if truthy params then ae_with_search env partialUrl params else partialUrl)"

definition or_default :: "'a option \<Rightarrow> 'a \<Rightarrow> 'a" where
  "or_default x d = (case x of None \<Rightarrow> d | Some y \<Rightarrow> y)"

text \<open>\<open>typeof v === 'object'\<close> for a value that is not null.\<close>

fun is_object :: "jsval \<Rightarrow> bool" where
  "is_object (JArr _) = True"
| "is_object (JObj _) = True"
| "is_object _ = False"

text \<open>One field of a form; a value that cannot be converted is logged and left out.\<close>

definition form_field :: "api_env \<Rightarrow> bool \<Rightarrow> string \<times> jsval \<Rightarrow> (string \<times> string) list" where
  "form_field env stringify entry =
     (let (key, v) = entry
      in if v = JUndef then []
         else if stringify then
           (case ae_stringify env v of Inr (Some s) \<Rightarrow> [(key, s)] | _ \<Rightarrow> [])
         else [(key, to_str v)])"

definition form_data :: "api_env \<Rightarrow> bool \<Rightarrow> jsval \<Rightarrow> (string \<times> string) list" where
  "form_data env stringify payload = concat (map (form_field env stringify) (own_props payload))"

definition payload_truthy :: "post_payload \<Rightarrow> bool" where
  "payload_truthy p = (case p of FormPayload _ \<Rightarrow> True | ValuePayload v \<Rightarrow> truthy v)"

definition with_post_payload :: "api_env \<Rightarrow> bool \<Rightarrow> post_payload \<Rightarrow> http_request \<Rightarrow> http_request api" where
  "with_post_payload env stringify p req =
     (case p of
        FormPayload fs \<Rightarrow> Inr (req\<lparr>hr_body := BodyForm fs\<rparr>)
      | ValuePayload v \<Rightarrow>
          if truthy v then
            (case tryParsePayload v of
               Inl e \<Rightarrow> Inl e
             | Inr payload \<Rightarrow>
                 Inr (if is_object payload then req\<lparr>hr_body := BodyForm (form_data env stringify payload)\<rparr> else req))
          else Inr req)"

definition with_json_payload :: "api_env \<Rightarrow> jsval \<Rightarrow> http_request \<Rightarrow> http_request api" where
  "with_json_payload env v req =
     (if v = JUndef then Inr req
      else case ae_stringify env v of
             Inl _ \<Rightarrow> Inl Thrown
           | Inr s \<Rightarrow> Inr (req\<lparr>hr_body := BodyText s,
                hr_headers := obj_put ''Content-Type'' ''application/json'' (obj_assign [] (hr_headers req))\<rparr>))"

definition with_payload :: "api_env \<Rightarrow> call_api \<Rightarrow> http_request \<Rightarrow> http_request api" where
  "with_payload env c req =
     (if hr_method req \<in> {''POST'', ''PATCH'', ''PUT''} then
        if payload_truthy (ca_postPayload c) \<and> truthy (ca_jsonPayload c) then Inl BothPayloads
        else case with_post_payload env (or_default (ca_stringify c) True) (ca_postPayload c) req of
               Inl e \<Rightarrow> Inl e
             | Inr req1 \<Rightarrow> with_json_payload env (ca_jsonPayload c) req1
      else Inr req)"

text \<open>The conditional request with the \<open>Etag\<close> of the cached response.\<close>

definition if_none_match :: "response option \<Rightarrow> http_request \<Rightarrow> http_request" where
  "if_none_match cached req =
     (case cached of
        None \<Rightarrow> req
      | Some r \<Rightarrow> req\<lparr>hr_headers := obj_put ''If-None-Match'' (or_default (rs_etag r) ''null'') (obj_assign [] (hr_headers req))\<rparr>)"

definition cached_get ::
    "api_env \<Rightarrow> jsval obj \<Rightarrow> string \<Rightarrow> http_request \<Rightarrow> api_cache \<Rightarrow> response api \<times> api_cache" where
  "cached_get env retry url req cache =
     (let opened = ae_cache_opens env;
          req1 = if_none_match (if opened then map_of cache url else None) req
      in case ae_fetch env retry url req1 of
           Inl e \<Rightarrow> (Inl e, cache)
         | Inr response \<Rightarrow>
             if opened \<and> rs_status response = 304 then
               (case map_of cache url of
                  Some full \<Rightarrow> (Inr full, cache)
                | None \<Rightarrow> (Inl NotCached, cache))
             else if opened \<and> rs_status response = 200 \<and> or_default (rs_etag response) [] \<noteq> [] then
               (Inr response, AList.update url response (AList.delete url cache))
             else (Inr response, cache))"

definition api_request :: "call_api \<Rightarrow> http_request" where
  "api_request c =
     \<lparr>hr_body = BodyValue (ca_body c), hr_cache = or_default (ca_cache c) ''default'',
      hr_credentials = or_default (ca_credentials c) ''same-origin'', hr_headers = ca_headers c,
      hr_method = or_default (ca_method c) ''GET'', hr_mode = or_default (ca_mode c) ''same-origin'',
      hr_redirect = or_default (ca_redirect c) ''follow'', hr_signal = ca_signal c\<rparr>"

definition uses_cache :: "api_env \<Rightarrow> call_api \<Rightarrow> bool" where
  "uses_cache env c \<longleftrightarrow>
     or_default (ca_method c) ''GET'' = ''GET'' \<and> or_default (ca_cache c) ''default'' \<notin> {''no-store'', ''reload''} \<and>
     CACHE_AVAILABLE env \<and> ae_https env"

definition callApi :: "api_env \<Rightarrow> call_api \<Rightarrow> api_cache \<Rightarrow> response api \<times> api_cache" where
  "callApi env c cache =
     (let url = getFullUrl env (ca_url c) (ca_searchParams c);
          request = api_request c
      in if uses_cache env c then cached_get env (ca_fetchRetryOptions c) url request cache
         else case with_payload env c request of
                Inl e \<Rightarrow> (Inl e, cache)
              | Inr request1 \<Rightarrow> (ae_fetch env (ca_fetchRetryOptions c) url request1, cache))"

section \<open>Parsing a response\<close>

datatype parsed = RawResponse response | TextResponse response string | JsonResponse response jsval

text \<open>\<open>parseMethod\<close>: \<open>undefined\<close> is \<open>JUndef\<close>, \<open>null\<close> is \<open>JNull\<close>.\<close>

definition parseResponse :: "api_env \<Rightarrow> jsval \<Rightarrow> response api \<Rightarrow> parsed api" where
  "parseResponse env parseMethod apiPromise =
     (case apiPromise of
        Inl e \<Rightarrow> Inl e
      | Inr response \<Rightarrow>
          if \<not> rs_ok response then Inl (HttpError response)
          else if parseMethod = JNull \<or> parseMethod = JStr ''raw'' then Inr (RawResponse response)
          else if parseMethod = JStr ''text'' then Inr (TextResponse response (rs_text response))
          else if parseMethod = JStr ''json-bigint'' then
            (case ae_json_bigint env (rs_text response) of
               None \<Rightarrow> Inl NotJson | Some json \<Rightarrow> Inr (JsonResponse response json))
          else if parseMethod = JUndef \<or> parseMethod = JStr ''json'' then
            (case json_parse (rs_text response) of
               None \<Rightarrow> Inl NotJson | Some json \<Rightarrow> Inr (JsonResponse response json))
          else Inl (BadParseMethod (to_str parseMethod)))"

text \<open>
  The race with the timeout: \<open>arrival\<close> is when the response is there, in milliseconds. The delay of
  \<open>setTimeout\<close> is a signed 32-bit integer, and a negative one counts as zero. A response and a timer
  at the same time: the timer is taken to come first.
\<close>

definition timer_delay :: "jsnum \<Rightarrow> int" where
  "timer_delay n =
     (case n of
        Fin q \<Rightarrow> let i = floor q mod 2 ^ 32 in if i < 2 ^ 31 then i else 0
      | _ \<Rightarrow> 0)"

definition timed_out :: "jsval \<Rightarrow> rat \<Rightarrow> bool" where
  "timed_out timeout arrival =
     (case timeout of
        JNum (Fin q) \<Rightarrow> q > 0 \<and> of_int (timer_delay (Fin q)) \<le> arrival
      | JNum PosInf \<Rightarrow> of_int (timer_delay PosInf) \<le> arrival
      | _ \<Rightarrow> False)"

definition callApiAndParseWithTimeout ::
    "api_env \<Rightarrow> jsval \<Rightarrow> jsval \<Rightarrow> rat \<Rightarrow> call_api \<Rightarrow> api_cache \<Rightarrow> parsed api \<times> api_cache" where
  "callApiAndParseWithTimeout env timeout parseMethod arrival c cache =
     (let (apiPromise, cache1) = callApi env c cache;
          raced = (case timeout of
             JNum n \<Rightarrow> if timed_out timeout arrival then Inl (RequestTimedOut n) else apiPromise
           | _ \<Rightarrow> apiPromise)
      in (parseResponse env parseMethod raced, cache1))"

section \<open>The client\<close>

record client_config =
  cf_host :: "string option"
  cf_protocol :: "string option"
  cf_appRoot :: "string option"
  cf_credentials :: "string option"
  cf_csrfToken :: jsval
  cf_guestToken :: "string option"
  cf_guestTokenHeaderName :: "string option"
  cf_fetchRetryOptions :: "jsval obj"
  cf_headers :: headers
  cf_mode :: "string option"
  cf_timeout :: jsval

record SupersetClientClass =
  credentials :: "string option"
  csrfToken :: jsval
  csrfPromise :: "nat option"
  guestToken :: "string option"
  guestTokenHeaderName :: string
  fetchRetryOptions :: "jsval obj"
  appRoot :: string
  protocol :: string
  cl_host :: string
  cl_headers :: headers
  cl_mode :: string
  cl_timeout :: jsval

definition DEFAULT_FETCH_RETRY_OPTIONS :: "jsval obj" where
  "DEFAULT_FETCH_RETRY_OPTIONS =
     [(''retries'', JInt 3), (''retryDelay'', JInt 1000), (''retryOn'', JArr [JInt 502, JInt 503, JInt 504])]"

text \<open>Assignment to a property of a plain object.\<close>

definition set_prop :: "string \<Rightarrow> 'v \<Rightarrow> 'v obj \<Rightarrow> 'v obj" where
  "set_prop k v ob = (if k = ''__proto__'' then ob else obj_put k v ob)"

text \<open>
  A promise of a token: not answered yet, resolved, rejected. The system holds the client, the
  promises by number, the requests and forms in the order they were made, the number of calls of
  the handler for unauthorised requests, and the forms that were submitted.
\<close>

datatype csrf_promise = CsrfPending | CsrfResolved jsval | CsrfRejected api_error

record request_config =
  rc_credentials :: "string option"
  rc_mode :: "string option"
  rc_endpoint :: "string option"
  rc_host :: "string option"
  rc_url :: "string option"
  rc_headers :: headers
  rc_timeout :: jsval
  rc_fetchRetryOptions :: "jsval obj option"
  rc_ignoreUnauthorized :: bool
  rc_parseMethod :: jsval
  rc_rest :: call_api

datatype task =
    RequestWaiting request_config nat
  | RequestSent request_config call_api jsval
  | RequestDone request_config "parsed api"
  | RequestRejected request_config api_error
  | FormWaiting string "jsval obj" string nat
  | FormDone "unit api"

record form =
  fm_action :: string
  fm_target :: string
  fm_inputs :: "(string \<times> string) list"

record client_sys =
  sy_client :: SupersetClientClass
  sy_csrf :: "csrf_promise list"
  sy_tasks :: "task list"
  sy_unauthorized :: nat
  sy_forms :: "form list"

text \<open>\<open>new URL(...)\<close> gives the host and the protocol, or throws.\<close>

definition newSupersetClient ::
    "(string \<Rightarrow> (string \<times> string) option) \<Rightarrow> client_config \<Rightarrow> client_sys option" where
  "newSupersetClient parse_url c =
     (case parse_url ((if cf_protocol c = None \<or> cf_protocol c = Some [] then ''https:'' else the (cf_protocol c)) @ ''//'' @
             (if cf_host c = None \<or> cf_host c = Some [] then ''localhost'' else the (cf_host c))) of
        None \<Rightarrow> None
      | Some (host, proto) \<Rightarrow>
          let headers = obj_assign [(''Accept'', ''application/json'')] (cf_headers c);
              guestName = or_default (cf_guestTokenHeaderName c) ''X-GuestToken'';
              headers1 = (case cf_csrfToken c of JStr tok \<Rightarrow> obj_put ''X-CSRFToken'' tok (obj_assign [] headers) | _ \<Rightarrow> headers);
              headers2 = (case cf_guestToken c of
                 Some g \<Rightarrow> if g = [] then headers1 else set_prop guestName g headers1 | None \<Rightarrow> headers1)
          in Some \<lparr>sy_client = \<lparr>credentials = cf_credentials c, csrfToken = cf_csrfToken c,
                 csrfPromise = (if is_str (cf_csrfToken c) then Some 0 else None),
                 guestToken = cf_guestToken c, guestTokenHeaderName = guestName,
                 fetchRetryOptions = obj_assign (obj_assign [] DEFAULT_FETCH_RETRY_OPTIONS) (cf_fetchRetryOptions c),
                 appRoot = or_default (cf_appRoot c) [], protocol = proto, cl_host = host, cl_headers = headers2,
                 cl_mode = or_default (cf_mode c) ''same-origin'', cl_timeout = cf_timeout c\<rparr>,
               sy_csrf = (if is_str (cf_csrfToken c) then [CsrfResolved (cf_csrfToken c)] else []),
               sy_tasks = [], sy_unauthorized = 0, sy_forms = []\<rparr>)"

definition isAuthenticated :: "SupersetClientClass \<Rightarrow> bool" where
  "isAuthenticated c \<longleftrightarrow> csrfToken c \<noteq> JNull \<and> csrfToken c \<noteq> JUndef"

definition getGuestToken :: "SupersetClientClass \<Rightarrow> string option" where
  "getGuestToken c = guestToken c"

definition getUrl :: "SupersetClientClass \<Rightarrow> string option \<Rightarrow> string option \<Rightarrow> string option \<Rightarrow> string" where
  "getUrl c inputHost endpoint url =
     (case url of
        Some u \<Rightarrow> u
      | None \<Rightarrow>
          let host = or_default inputHost (cl_host c);
              cleanHost = (if host \<noteq> [] \<and> last host = CHR ''/'' then butlast host else host);
              ep = or_default endpoint []
          in protocol c @ ''//'' @ cleanHost @ appRoot c @ ''/'' @
             (if ep \<noteq> [] \<and> hd ep = CHR ''/'' then tl ep else ep))"

text \<open>\<open>ensureAuth\<close>: the number of the promise to wait for, or the error.\<close>

definition no_csrf_error :: "SupersetClientClass \<Rightarrow> api_error" where
  "no_csrf_error c =
     NoCsrfToken (''SupersetClient has not been provided a CSRF token, ensure it is'' @ [CHR 0x0A] @
       ''        initialized with `client.getCSRFToken()` or try logging in at'' @ [CHR 0x0A] @
       ''        '' @ getUrl c None (Some ''/login'') None)"

definition ensureAuth :: "SupersetClientClass \<Rightarrow> nat api" where
  "ensureAuth c = (case csrfPromise c of Some k \<Rightarrow> Inr k | None \<Rightarrow> Inl (no_csrf_error c))"

text \<open>\<open>getCSRFToken\<close> forgets the token and starts a new promise; its call of the API is \<open>csrf_call\<close>.\<close>

definition csrf_call :: "SupersetClientClass \<Rightarrow> call_api" where
  "csrf_call c =
     \<lparr>ca_body = JUndef, ca_cache = None, ca_credentials = credentials c, ca_fetchRetryOptions = [],
      ca_headers = obj_assign [] (cl_headers c), ca_method = Some ''GET'', ca_mode = Some (cl_mode c),
      ca_postPayload = ValuePayload JUndef, ca_jsonPayload = JUndef, ca_redirect = None, ca_signal = JUndef,
      ca_stringify = None, ca_url = getUrl c None (Some ''/api/v1/security/csrf_token/'') None, ca_searchParams = JUndef\<rparr>"

definition getCSRFToken :: "client_sys \<Rightarrow> client_sys" where
  "getCSRFToken S =
     S\<lparr>sy_client := (sy_client S)\<lparr>csrfToken := JUndef, csrfPromise := Some (length (sy_csrf S))\<rparr>,
       sy_csrf := sy_csrf S @ [CsrfPending]\<rparr>"

definition client_init :: "bool \<Rightarrow> client_sys \<Rightarrow> client_sys" where
  "client_init force S = (if isAuthenticated (sy_client S) \<and> \<not> force then S else getCSRFToken S)"

definition reAuthenticate :: "client_sys \<Rightarrow> client_sys" where
  "reAuthenticate S = client_init True S"

text \<open>The answer to \<open>csrf_call\<close>: the handler of \<open>getCSRFToken\<close>.\<close>

definition store_token :: "jsval \<Rightarrow> SupersetClientClass \<Rightarrow> SupersetClientClass" where
  "store_token tok c =
     (case tok of
        JStr s \<Rightarrow> c\<lparr>csrfToken := tok, cl_headers := obj_put ''X-CSRFToken'' s (obj_assign [] (cl_headers c))\<rparr>
      | _ \<Rightarrow> c\<lparr>csrfToken := tok\<rparr>)"

definition csrf_settled :: "SupersetClientClass \<Rightarrow> csrf_promise" where
  "csrf_settled c = (if isAuthenticated c then CsrfResolved (csrfToken c) else CsrfRejected CsrfFetchFailed)"

definition on_csrf_answer :: "parsed api \<Rightarrow> SupersetClientClass \<Rightarrow> csrf_promise \<times> SupersetClientClass" where
  "on_csrf_answer answer c =
     (case answer of
        Inl e \<Rightarrow> (CsrfRejected e, c)
      | Inr (JsonResponse _ json) \<Rightarrow>
          if json = JNull then (CsrfRejected Thrown, c)
          else let c1 = (if is_object json then store_token (oprop json ''result'') c else c)
               in (csrf_settled c1, c1)
      | Inr _ \<Rightarrow> (csrf_settled c, c))"

definition csrf_answer :: "nat \<Rightarrow> parsed api \<Rightarrow> client_sys \<Rightarrow> client_sys option" where
  "csrf_answer k answer S =
     (if k < length (sy_csrf S) \<and> sy_csrf S ! k = CsrfPending then
        let (p, c) = on_csrf_answer answer (sy_client S)
        in Some (S\<lparr>sy_client := c, sy_csrf := (sy_csrf S)[k := p]\<rparr>)
      else None)"

text \<open>
  A request: it first waits for the promise of the token. When there is none, or it is rejected, the
  request is rejected before it is sent, outside the \<open>catch\<close> of the call.
\<close>

definition client_request :: "request_config \<Rightarrow> client_sys \<Rightarrow> client_sys" where
  "client_request rc S =
     S\<lparr>sy_tasks := sy_tasks S @
        [case ensureAuth (sy_client S) of Inr k \<Rightarrow> RequestWaiting rc k | Inl e \<Rightarrow> RequestRejected rc e]\<rparr>"

definition with_method :: "string \<Rightarrow> request_config \<Rightarrow> request_config" where
  "with_method meth rc = rc\<lparr>rc_rest := (rc_rest rc)\<lparr>ca_method := Some meth\<rparr>\<rparr>"

definition client_get :: "request_config \<Rightarrow> client_sys \<Rightarrow> client_sys" where
  "client_get rc = client_request (with_method ''GET'' rc)"

definition client_delete :: "request_config \<Rightarrow> client_sys \<Rightarrow> client_sys" where
  "client_delete rc = client_request (with_method ''DELETE'' rc)"

definition client_put :: "request_config \<Rightarrow> client_sys \<Rightarrow> client_sys" where
  "client_put rc = client_request (with_method ''PUT'' rc)"

definition client_post :: "request_config \<Rightarrow> client_sys \<Rightarrow> client_sys" where
  "client_post rc = client_request (with_method ''POST'' rc)"

text \<open>The call that a request makes when its promise is resolved, and its timeout.\<close>

definition request_call :: "SupersetClientClass \<Rightarrow> request_config \<Rightarrow> call_api" where
  "request_call c rc =
     (rc_rest rc)\<lparr>
       ca_credentials := (case rc_credentials rc of Some x \<Rightarrow> Some x | None \<Rightarrow> credentials c),
       ca_mode := Some (or_default (rc_mode rc) (cl_mode c)),
       ca_url := getUrl c (rc_host rc) (rc_endpoint rc) (rc_url rc),
       ca_headers := obj_assign (obj_assign [] (cl_headers c)) (rc_headers rc),
       ca_fetchRetryOptions := or_default (rc_fetchRetryOptions rc) (fetchRetryOptions c)\<rparr>"

definition request_timeout :: "SupersetClientClass \<Rightarrow> request_config \<Rightarrow> jsval" where
  "request_timeout c rc = js_coalesce (rc_timeout rc) (cl_timeout c)"

text \<open>A form: it is submitted with the token the client has at that time.\<close>

definition client_postForm :: "string \<Rightarrow> jsval obj \<Rightarrow> string option \<Rightarrow> client_sys \<Rightarrow> client_sys" where
  "client_postForm endpoint payload target S =
     (if endpoint = [] then S
      else S\<lparr>sy_tasks := sy_tasks S @
        [case ensureAuth (sy_client S) of
           Inr k \<Rightarrow> FormWaiting endpoint payload (or_default target ''_blank'') k
         | Inl e \<Rightarrow> FormDone (Inl e)]\<rparr>)"

definition submitted_form :: "SupersetClientClass \<Rightarrow> string \<Rightarrow> jsval obj \<Rightarrow> string \<Rightarrow> form" where
  "submitted_form c endpoint payload target =
     (let payloadWithToken = obj_put ''csrf_token'' (csrfToken c) (obj_assign [] payload);
          payload1 = (case guestToken c of
             Some g \<Rightarrow> if g = [] then payloadWithToken else obj_put ''guest_token'' (JStr g) payloadWithToken
           | None \<Rightarrow> payloadWithToken)
      in \<lparr>fm_action = getUrl c None (Some endpoint) None, fm_target = target,
          fm_inputs = map (\<lambda>(k, v). (k, to_str v)) payload1\<rparr>)"

text \<open>A waiting task goes on when its promise is settled.\<close>

definition csrf_state :: "client_sys \<Rightarrow> nat \<Rightarrow> csrf_promise" where
  "csrf_state S k = (if k < length (sy_csrf S) then sy_csrf S ! k else CsrfPending)"

definition client_resume :: "nat \<Rightarrow> client_sys \<Rightarrow> client_sys option" where
  "client_resume j S =
     (if j < length (sy_tasks S) then
        (case sy_tasks S ! j of
           RequestWaiting rc k \<Rightarrow>
             (case csrf_state S k of
                CsrfPending \<Rightarrow> None
              | CsrfRejected e \<Rightarrow> Some (S\<lparr>sy_tasks := (sy_tasks S)[j := RequestRejected rc e]\<rparr>)
              | CsrfResolved _ \<Rightarrow> Some (S\<lparr>sy_tasks := (sy_tasks S)[j :=
                    RequestSent rc (request_call (sy_client S) rc) (request_timeout (sy_client S) rc)]\<rparr>))
         | FormWaiting endpoint payload target k \<Rightarrow>
             (case csrf_state S k of
                CsrfPending \<Rightarrow> None
              | CsrfRejected e \<Rightarrow> Some (S\<lparr>sy_tasks := (sy_tasks S)[j := FormDone (Inl e)]\<rparr>)
              | CsrfResolved _ \<Rightarrow> Some (S\<lparr>sy_tasks := (sy_tasks S)[j := FormDone (Inr ())],
                    sy_forms := sy_forms S @ [submitted_form (sy_client S) endpoint payload target]\<rparr>))
         | _ \<Rightarrow> None)
      else None)"

text \<open>The \<open>catch\<close> of a request: a response with status 401 calls the handler, unless it is ignored.\<close>

definition is_unauthorized :: "request_config \<Rightarrow> parsed api \<Rightarrow> bool" where
  "is_unauthorized rc outcome =
     (case outcome of Inl (HttpError r) \<Rightarrow> rs_status r = 401 \<and> \<not> rc_ignoreUnauthorized rc | _ \<Rightarrow> False)"

definition client_answer :: "nat \<Rightarrow> parsed api \<Rightarrow> client_sys \<Rightarrow> client_sys option" where
  "client_answer j outcome S =
     (if j < length (sy_tasks S) then
        (case sy_tasks S ! j of
           RequestSent rc _ _ \<Rightarrow> Some (S\<lparr>sy_tasks := (sy_tasks S)[j := RequestDone rc outcome],
             sy_unauthorized := sy_unauthorized S + (if is_unauthorized rc outcome then 1 else 0)\<rparr>)
         | _ \<Rightarrow> None)
      else None)"

text \<open>The default handler: where the page goes, if it is not on the login page.\<close>

definition defaultUnauthorizedHandler :: "string \<Rightarrow> string \<Rightarrow> string \<Rightarrow> string option" where
  "defaultUnauthorizedHandler root_path pathname href =
     (if prefix (root_path @ ''/login'') pathname then None else Some (root_path @ ''/login?next='' @ href))"

section \<open>Runs\<close>

datatype client_event =
    Init bool
  | Request request_config
  | PostForm string "jsval obj" "string option"
  | CsrfAnswer nat "parsed api"
  | Resume nat
  | Answer nat "parsed api"

fun client_step :: "client_event \<Rightarrow> client_sys \<Rightarrow> client_sys option" where
  "client_step (Init force) S = Some (client_init force S)"
| "client_step (Request rc) S = Some (client_request rc S)"
| "client_step (PostForm endpoint payload target) S = Some (client_postForm endpoint payload target S)"
| "client_step (CsrfAnswer k answer) S = csrf_answer k answer S"
| "client_step (Resume j) S = client_resume j S"
| "client_step (Answer j outcome) S = client_answer j outcome S"

inductive client_runs :: "client_sys \<Rightarrow> client_event list \<Rightarrow> client_sys \<Rightarrow> bool" where
  start: "client_runs S [] S"
| event: "client_runs S evs S1 \<Longrightarrow> client_step ev S1 = Some S2 \<Longrightarrow> client_runs S (evs @ [ev]) S2"

section \<open>The singleton\<close>

text \<open>\<open>getInstance\<close> throws before \<open>configure\<close> was called.\<close>

definition getInstance :: "client_sys option \<Rightarrow> client_sys api" where
  "getInstance singleton = (case singleton of None \<Rightarrow> Inl Thrown | Some S \<Rightarrow> Inr S)"

definition configure ::
    "(string \<Rightarrow> (string \<times> string) option) \<Rightarrow> client_config \<Rightarrow> client_sys option \<Rightarrow> client_sys option api" where
  "configure parse_url c singleton =
     (case newSupersetClient parse_url c of None \<Rightarrow> Inl Thrown | Some S \<Rightarrow> Inr (Some S))"

definition client_reset :: "client_sys option \<Rightarrow> client_sys option" where
  "client_reset singleton = None"

definition on_instance :: "client_event \<Rightarrow> client_sys option \<Rightarrow> client_sys option api" where
  "on_instance ev singleton =
     (case getInstance singleton of Inl e \<Rightarrow> Inl e | Inr S \<Rightarrow> Inr (client_step ev S))"

end
