(* ===== verification/ConnectionFacts.thy ===== *)
theory ConnectionFacts
  imports Connection
begin

text \<open>
  Correctness of the HTTP client. The response cache is transparent: with a server that answers
  conditional requests by \<open>Etag\<close>, the responses are those of a client without cache. A request
  reaches the network only with a token that a promise was resolved with; every unauthorised
  response calls the handler once; every request is settled; and two races of the token.
\<close>

section \<open>The response cache\<close>

text \<open>
  A server with the given content: it answers a conditional request for what it still has with
  status 304, and any other with the content. It never sends a 304 of its own.
\<close>

definition not_modified :: "string \<Rightarrow> response" where
  "not_modified e = \<lparr>rs_status = 304, rs_etag = Some e, rs_text = []\<rparr>"

definition serves :: "api_env \<Rightarrow> (string \<Rightarrow> response) \<Rightarrow> bool" where
  "serves env content \<longleftrightarrow>
     (\<forall>url. rs_status (content url) \<noteq> 304) \<and>
     (\<forall>retry url req. hr_method req = ''GET'' \<longrightarrow>
        ae_fetch env retry url req =
          Inr (case map_of (hr_headers req) ''If-None-Match'' of
                 Some e \<Rightarrow> if rs_etag (content url) = Some e then not_modified e else content url
               | None \<Rightarrow> content url))"

text \<open>An \<open>Etag\<close> identifies the content of a URL, over all versions of the server.\<close>

definition etags_identify :: "(string \<Rightarrow> response) set \<Rightarrow> bool" where
  "etags_identify C \<longleftrightarrow>
     (\<forall>w\<in>C. \<forall>w'\<in>C. \<forall>url e. rs_etag (w url) = Some e \<longrightarrow> rs_etag (w' url) = Some e \<longrightarrow> w url = w' url)"

definition cache_ok :: "(string \<Rightarrow> response) set \<Rightarrow> api_cache \<Rightarrow> bool" where
  "cache_ok C store \<longleftrightarrow> (\<forall>url r. map_of store url = Some r \<longrightarrow> (\<exists>w\<in>C. r = w url) \<and> rs_etag r \<noteq> None)"

definition plain_call :: "call_api \<Rightarrow> bool" where
  "plain_call c \<longleftrightarrow> or_default (ca_method c) ''GET'' = ''GET'' \<and> map_of (ca_headers c) ''If-None-Match'' = None"

lemma serves_plain:
  assumes "serves env w" and "plain_call c"
  shows "ae_fetch env retry url (api_request c) = Inr (w url)"
  using assms by (simp add: serves_def plain_call_def api_request_def)

lemma callApi_uncached:
  assumes "plain_call c" and "serves env w"
  shows "\<not> uses_cache env c \<Longrightarrow> callApi env c store = (Inr (w (getFullUrl env (ca_url c) (ca_searchParams c))), store)"
  using serves_plain [OF assms(2,1)] assms(1)
  by (simp add: callApi_def with_payload_def api_request_def plain_call_def Let_def)

lemma if_none_match_fetch:
  assumes "serves env w" and "plain_call c" and "rs_etag r = Some e"
  shows "ae_fetch env retry url (if_none_match (Some r) (api_request c)) =
    Inr (if rs_etag (w url) = Some e then not_modified e else w url)"
  using assms
  by (simp add: serves_def if_none_match_def plain_call_def api_request_def or_default_def map_of_obj_put)

lemma cache_ok_put:
  "cache_ok C store \<Longrightarrow> w \<in> C \<Longrightarrow> or_default (rs_etag (w url)) [] \<noteq> [] \<Longrightarrow>
   cache_ok C (AList.update url (w url) (AList.delete url store))"
  by (auto simp: cache_ok_def update_conv' delete_conv' or_default_def split: option.splits)

lemma cached_get_ok:
  assumes "serves env w" and "w \<in> C" and "etags_identify C" and "cache_ok C store" and "plain_call c"
  shows "\<exists>store'. cached_get env retry url (api_request c) store = (Inr (w url), store') \<and> cache_ok C store'"
proof (cases "ae_cache_opens env \<and> map_of store url \<noteq> None")
  case True
  then obtain r where r: "map_of store url = Some r" by blast
  then obtain e w' where e: "rs_etag r = Some e" "w' \<in> C" "r = w' url" using assms(4) unfolding cache_ok_def by blast
  note f = if_none_match_fetch [OF assms(1,5) e(1)]
  have st: "rs_status (w url) \<noteq> 304" using assms(1) by (simp add: serves_def)
  show ?thesis
  proof (cases "rs_etag (w url) = Some e")
    case True
    then have "w url = r" using assms(2,3) e unfolding etags_identify_def by metis
    then show ?thesis
      using \<open>ae_cache_opens env \<and> map_of store url \<noteq> None\<close> f r True assms(4)
      by (auto simp: cached_get_def Let_def not_modified_def)
  next
    case False
    then show ?thesis
      using \<open>ae_cache_opens env \<and> map_of store url \<noteq> None\<close> f r st assms(4) cache_ok_put [OF assms(4,2)]
      by (auto simp: cached_get_def Let_def)
  qed
next
  case False
  then have f: "ae_fetch env retry url (if_none_match (if ae_cache_opens env then map_of store url else None) (api_request c)) = Inr (w url)"
    using serves_plain [OF assms(1,5)] by (auto simp: if_none_match_def)
  have st: "rs_status (w url) \<noteq> 304" using assms(1) by (simp add: serves_def)
  then show ?thesis using f assms(4) cache_ok_put [OF assms(4,2)] by (auto simp: cached_get_def Let_def)
qed

text \<open>A sequence of calls, each with the state of the world at that time.\<close>

fun api_calls :: "(api_env \<times> call_api) list \<Rightarrow> api_cache \<Rightarrow> response api list \<times> api_cache" where
  "api_calls [] store = ([], store)"
| "api_calls ((env, c) # calls) store =
     (let (r, store1) = callApi env c store; (rs, store2) = api_calls calls store1 in (r # rs, store2))"

lemma callApi_ok:
  assumes "serves env w" and "w \<in> C" and "etags_identify C" and "cache_ok C store" and "plain_call c"
  shows "\<exists>store'. callApi env c store = (Inr (w (getFullUrl env (ca_url c) (ca_searchParams c))), store') \<and> cache_ok C store'"
proof (cases "uses_cache env c")
  case True
  then show ?thesis using cached_get_ok [OF assms] by (simp add: callApi_def)
next
  case False
  then show ?thesis using callApi_uncached [OF assms(5,1) False] assms(4) by simp
qed

text \<open>
  C16. The response cache is transparent. However the content of the server changes between the
  calls, as long as an \<open>Etag\<close> identifies the content of its URL, the responses to a sequence of GET
  requests with the cache are exactly the responses without it.
\<close>

theorem callApi_cache_transparent:
  assumes "etags_identify C"
    and "\<forall>(env, c)\<in>set calls. plain_call c \<and> (\<exists>w\<in>C. serves env w)"
  shows "fst (api_calls calls []) = map (\<lambda>(env, c). fst (callApi (env\<lparr>CACHE_AVAILABLE := False\<rparr>) c [])) calls"
proof -
  have "fst (api_calls calls store) = map (\<lambda>(env, c). fst (callApi (env\<lparr>CACHE_AVAILABLE := False\<rparr>) c [])) calls"
    if "cache_ok C store" for store
    using assms(2) that
  proof (induction calls arbitrary: store)
    case (Cons x calls)
    obtain env c where x: "x = (env, c)" by (cases x)
    then obtain w where w: "serves env w" "w \<in> C" "plain_call c" using Cons.prems(1) by auto
    obtain store1 where s: "callApi env c store = (Inr (w (getFullUrl env (ca_url c) (ca_searchParams c))), store1)"
      "cache_ok C store1" using callApi_ok [OF w(1,2) assms(1) Cons.prems(2) w(3)] by blast
    have "serves (env\<lparr>CACHE_AVAILABLE := False\<rparr>) w" using w(1) by (simp add: serves_def)
    from callApi_uncached [OF w(3) this, of "[]"]
    have "fst (callApi (env\<lparr>CACHE_AVAILABLE := False\<rparr>) c []) = Inr (w (getFullUrl env (ca_url c) (ca_searchParams c)))"
      by (simp add: uses_cache_def getFullUrl_def)
    then show ?case using Cons.IH [OF _ s(2)] Cons.prems(1) s(1) x by (simp add: case_prod_beta)
  qed simp
  then show ?thesis by (simp add: cache_ok_def)
qed

section \<open>The token\<close>

definition has_token :: "headers \<Rightarrow> csrf_promise list \<Rightarrow> bool" where
  "has_token hs ps \<longleftrightarrow> (\<exists>tok. map_of hs ''X-CSRFToken'' = Some tok \<and> CsrfResolved (JStr tok) \<in> set ps)"

definition string_tokens :: "csrf_promise list \<Rightarrow> bool" where
  "string_tokens ps \<longleftrightarrow> (\<forall>v. CsrfResolved v \<in> set ps \<longrightarrow> is_str v)"

definition task_ok :: "csrf_promise list \<Rightarrow> task \<Rightarrow> bool" where
  "task_ok ps tk =
     (case tk of
        RequestWaiting rc k \<Rightarrow> k < length ps
      | FormWaiting _ _ _ k \<Rightarrow> k < length ps
      | RequestSent rc call _ \<Rightarrow>
          (\<exists>v. CsrfResolved v \<in> set ps) \<and>
          (string_tokens ps \<longrightarrow> map_of (rc_headers rc) ''X-CSRFToken'' = None \<longrightarrow> has_token (ca_headers call) ps)
      | _ \<Rightarrow> True)"

text \<open>
  The invariant: the promise of the client and of every waiting task exists; a stored token string
  is the token of the headers and of a resolved promise; once a promise was resolved with a string,
  the headers have such a token; and the handler was called once for each unauthorised response.
\<close>

definition unauthorized_task :: "task \<Rightarrow> bool" where
  "unauthorized_task tk = (case tk of RequestDone rc outcome \<Rightarrow> is_unauthorized rc outcome | _ \<Rightarrow> False)"

definition client_inv :: "client_sys \<Rightarrow> bool" where
  "client_inv S \<longleftrightarrow>
     (\<forall>k. csrfPromise (sy_client S) = Some k \<longrightarrow> k < length (sy_csrf S)) \<and>
     (\<forall>tok. csrfToken (sy_client S) = JStr tok \<longrightarrow>
        map_of (cl_headers (sy_client S)) ''X-CSRFToken'' = Some tok \<and> CsrfResolved (JStr tok) \<in> set (sy_csrf S)) \<and>
     ((\<exists>tok. CsrfResolved (JStr tok) \<in> set (sy_csrf S)) \<longrightarrow> has_token (cl_headers (sy_client S)) (sy_csrf S)) \<and>
     (\<forall>tk\<in>set (sy_tasks S). task_ok (sy_csrf S) tk) \<and>
     sy_unauthorized S = length (filter unauthorized_task (sy_tasks S))"

text \<open>Promises that are settled stay, and new ones are added at the end.\<close>

definition promises_grow :: "csrf_promise list \<Rightarrow> csrf_promise list \<Rightarrow> bool" where
  "promises_grow ps ps' \<longleftrightarrow> length ps \<le> length ps' \<and> (\<forall>v. CsrfResolved v \<in> set ps \<longrightarrow> CsrfResolved v \<in> set ps')"

lemma task_ok_grows: "promises_grow ps ps' \<Longrightarrow> task_ok ps tk \<Longrightarrow> task_ok ps' tk"
  by (auto simp: task_ok_def promises_grow_def string_tokens_def has_token_def split: task.splits)

lemma set_update_settled:
  assumes "k < length ps" and "ps ! k = CsrfPending"
  shows "p \<in> set (ps[k := p]) \<and> promises_grow ps (ps[k := p]) \<and> (\<forall>v. CsrfResolved v \<in> set (ps[k := p]) \<longrightarrow> p = CsrfResolved v \<or> CsrfResolved v \<in> set ps)"
proof -
  have "CsrfResolved v \<in> set (ps[k := p])" if "CsrfResolved v \<in> set ps" for v
    using assms that by (metis csrf_promise.distinct(1) in_set_conv_nth length_list_update nth_list_update_neq)
  moreover have "p = CsrfResolved v \<or> CsrfResolved v \<in> set ps" if "CsrfResolved v \<in> set (ps[k := p])" for v
    using that set_update_subset_insert [of ps k p] by auto
  ultimately show ?thesis using assms(1) by (auto simp: promises_grow_def set_update_memI)
qed

lemma filter_update:
  assumes "j < length xs"
  shows "length (filter P (xs[j := x])) + (if P (xs ! j) then 1 else 0) = length (filter P xs) + (if P x then 1 else 0)"
proof -
  have "length (filter P xs) = length (filter P (take j xs)) + (if P (xs ! j) then 1 else 0) + length (filter P (drop (Suc j) xs))"
    using arg_cong [OF id_take_nth_drop [OF assms], of "\<lambda>ys. length (filter P ys)"] by simp
  moreover have "length (filter P (xs[j := x])) = length (filter P (take j xs)) + (if P x then 1 else 0) + length (filter P (drop (Suc j) xs))"
    using assms by (simp add: upd_conv_take_nth_drop)
  ultimately show ?thesis by simp
qed

lemma init_inv:
  assumes "client_inv S"
  shows "client_inv (client_init force S)"
proof -
  have "promises_grow (sy_csrf S) (sy_csrf S @ [CsrfPending])" by (simp add: promises_grow_def)
  then show ?thesis
    using assms task_ok_grows by (auto simp: client_inv_def client_init_def getCSRFToken_def has_token_def)
qed

lemma task_added_inv:
  assumes "client_inv S" and "task_ok (sy_csrf S) tk" and "\<not> unauthorized_task tk"
  shows "client_inv (S\<lparr>sy_tasks := sy_tasks S @ [tk]\<rparr>)"
  using assms by (auto simp: client_inv_def)

lemma ensureAuth_bound: "client_inv S \<Longrightarrow> ensureAuth (sy_client S) = Inr k \<Longrightarrow> k < length (sy_csrf S)"
  by (auto simp: client_inv_def ensureAuth_def split: option.splits)

lemma request_inv: "client_inv S \<Longrightarrow> client_inv (client_request rc S)"
  unfolding client_request_def
  by (rule task_added_inv)
    (auto simp: task_ok_def unauthorized_task_def is_unauthorized_def ensureAuth_bound ensureAuth_def no_csrf_error_def
      split: sum.splits option.splits dest: ensureAuth_bound)

lemma postForm_inv: "client_inv S \<Longrightarrow> client_inv (client_postForm endpoint payload target S)"
  unfolding client_postForm_def
  by (auto intro!: task_added_inv simp: task_ok_def unauthorized_task_def split: sum.splits dest: ensureAuth_bound)

text \<open>
  What the handler of the token request does: either it keeps the client, or it stores the token; a
  token string ends up in the headers and in the promise.
\<close>

lemma on_csrf_answer_cases:
  obtains (same) "snd (on_csrf_answer answer c) = c"
      "\<And>v. fst (on_csrf_answer answer c) = CsrfResolved v \<Longrightarrow> v = csrfToken c"
  | (stored) tok where "snd (on_csrf_answer answer c) = store_token tok c"
      "fst (on_csrf_answer answer c) = csrf_settled (store_token tok c)"
proof -
  have settled: "\<And>v. csrf_settled c = CsrfResolved v \<Longrightarrow> v = csrfToken c"
    by (simp add: csrf_settled_def split: if_splits)
  show thesis
  proof (cases answer)
    case (Inl e)
    then show thesis by (intro same) (simp_all add: on_csrf_answer_def)
  next
    case (Inr r)
    show thesis
    proof (cases r)
      case (JsonResponse x json)
      show thesis
      proof (cases "json \<noteq> JNull \<and> is_object json")
        case True
        then show thesis
          using Inr JsonResponse by (intro stored [of "oprop json ''result''"]) (simp_all add: on_csrf_answer_def Let_def)
      next
        case False
        then show thesis
          using Inr JsonResponse settled by (intro same) (auto simp: on_csrf_answer_def Let_def split: if_splits)
      qed
    qed (use Inr settled in \<open>auto simp: on_csrf_answer_def intro: same\<close>)
  qed
qed

lemma store_token_simps [simp]:
  "csrfToken (store_token tok c) = tok" "csrfPromise (store_token tok c) = csrfPromise c"
  by (simp_all add: store_token_def split: jsval.splits)

lemma store_token_header:
  "map_of (cl_headers (store_token tok c)) ''X-CSRFToken'' =
     (case tok of JStr s \<Rightarrow> Some s | _ \<Rightarrow> map_of (cl_headers c) ''X-CSRFToken'')"
  by (simp add: store_token_def map_of_obj_put split: jsval.splits)

lemma csrf_settled_str: "csrfToken c = JStr tok \<Longrightarrow> csrf_settled c = CsrfResolved (JStr tok)"
  by (simp add: csrf_settled_def isAuthenticated_def)

lemma csrf_settled_value: "csrf_settled c = CsrfResolved v \<Longrightarrow> v = csrfToken c"
  by (simp add: csrf_settled_def split: if_splits)

lemma csrf_answer_inv:
  assumes "client_inv S" and "csrf_answer k answer S = Some S'"
  shows "client_inv S'"
proof -
  obtain p c where pc: "on_csrf_answer answer (sy_client S) = (p, c)" by (cases "on_csrf_answer answer (sy_client S)")
  have k: "k < length (sy_csrf S)" "sy_csrf S ! k = CsrfPending"
    and S': "S' = S\<lparr>sy_client := c, sy_csrf := (sy_csrf S)[k := p]\<rparr>"
    using assms(2) pc by (auto simp: csrf_answer_def split: if_splits)
  let ?ps = "(sy_csrf S)[k := p]"
  have up: "p \<in> set ?ps" "promises_grow (sy_csrf S) ?ps"
    "\<And>v. CsrfResolved v \<in> set ?ps \<Longrightarrow> p = CsrfResolved v \<or> CsrfResolved v \<in> set (sy_csrf S)"
    using set_update_settled [OF k, of p] by auto
  note inv = assms(1) [unfolded client_inv_def]
  have grow: "has_token hs (sy_csrf S) \<Longrightarrow> has_token hs ?ps" for hs
    using up(2) by (auto simp: has_token_def promises_grow_def)
  have "(\<forall>tok. csrfToken c = JStr tok \<longrightarrow> map_of (cl_headers c) ''X-CSRFToken'' = Some tok \<and> CsrfResolved (JStr tok) \<in> set ?ps) \<and>
     ((\<exists>tok. CsrfResolved (JStr tok) \<in> set ?ps) \<longrightarrow> has_token (cl_headers c) ?ps) \<and> csrfPromise c = csrfPromise (sy_client S)"
  proof (cases rule: on_csrf_answer_cases [of answer "sy_client S"])
    case same
    then have c: "c = sy_client S" and p: "\<And>v. p = CsrfResolved v \<Longrightarrow> v = csrfToken c" using pc by auto
    have t: "map_of (cl_headers c) ''X-CSRFToken'' = Some tok \<and> CsrfResolved (JStr tok) \<in> set ?ps" if "csrfToken c = JStr tok" for tok
      using inv that c up(2) by (auto simp: promises_grow_def)
    have "has_token (cl_headers c) ?ps" if r: "CsrfResolved (JStr tok) \<in> set ?ps" for tok
      using up(3) [OF r]
    proof
      assume "p = CsrfResolved (JStr tok)"
      then have "csrfToken c = JStr tok" using p by simp
      then show ?thesis using t by (auto simp: has_token_def)
    next
      assume "CsrfResolved (JStr tok) \<in> set (sy_csrf S)"
      then show ?thesis using inv c grow by auto
    qed
    then show ?thesis using t c by blast
  next
    case (stored tok)
    then have c: "c = store_token tok (sy_client S)" and p: "p = csrf_settled c" using pc by auto
    have t: "map_of (cl_headers c) ''X-CSRFToken'' = Some s \<and> CsrfResolved (JStr s) \<in> set ?ps" if "tok = JStr s" for s
      using up(1) p c that csrf_settled_str [of c s] by (simp add: store_token_header)
    have "has_token (cl_headers c) ?ps" if r: "CsrfResolved (JStr s) \<in> set ?ps" for s
    proof (cases "is_str tok")
      case True
      then obtain u where "tok = JStr u" by (cases tok) auto
      then show ?thesis using t by (auto simp: has_token_def)
    next
      case False
      then have "p \<noteq> CsrfResolved (JStr s)" using p c csrf_settled_value [of c "JStr s"] by auto
      then have "CsrfResolved (JStr s) \<in> set (sy_csrf S)" using up(3) [OF r] by blast
      then have "has_token (cl_headers (sy_client S)) ?ps" using inv grow by blast
      then show ?thesis using False by (cases tok) (auto simp: has_token_def c store_token_header)
    qed
    then show ?thesis using t c by auto
  qed
  then show ?thesis
    using inv up(2) task_ok_grows [OF up(2)] by (simp add: client_inv_def S' promises_grow_def)
qed

lemma task_replaced_inv:
  assumes "client_inv S" and "j < length (sy_tasks S)" and "task_ok (sy_csrf S) tk"
    and "\<not> unauthorized_task (sy_tasks S ! j)"
  shows "client_inv (S\<lparr>sy_tasks := (sy_tasks S)[j := tk], sy_unauthorized := sy_unauthorized S + (if unauthorized_task tk then 1 else 0), sy_forms := fs\<rparr>)"
proof -
  have "\<forall>t\<in>set ((sy_tasks S)[j := tk]). task_ok (sy_csrf S) t"
    using assms(1,3) set_update_subset_insert [of "sy_tasks S" j tk] by (auto simp: client_inv_def)
  moreover have "length (filter unauthorized_task ((sy_tasks S)[j := tk])) =
      length (filter unauthorized_task (sy_tasks S)) + (if unauthorized_task tk then 1 else 0)"
    using filter_update [OF assms(2), of unauthorized_task tk] assms(4) by simp
  ultimately show ?thesis using assms(1) by (simp add: client_inv_def)
qed

lemma answer_inv:
  assumes "client_inv S" and "client_answer j outcome S = Some S'"
  shows "client_inv S'"
proof -
  obtain rc call tmo where j: "j < length (sy_tasks S)" "sy_tasks S ! j = RequestSent rc call tmo"
    and S': "S' = S\<lparr>sy_tasks := (sy_tasks S)[j := RequestDone rc outcome],
      sy_unauthorized := sy_unauthorized S + (if is_unauthorized rc outcome then 1 else 0)\<rparr>"
    using assms(2) by (auto simp: client_answer_def split: if_splits task.splits)
  have "client_inv (S\<lparr>sy_tasks := (sy_tasks S)[j := RequestDone rc outcome],
      sy_unauthorized := sy_unauthorized S + (if unauthorized_task (RequestDone rc outcome) then 1 else 0), sy_forms := sy_forms S\<rparr>)"
    by (rule task_replaced_inv [OF assms(1) j(1)]) (simp_all add: task_ok_def unauthorized_task_def j(2))
  then show ?thesis by (simp add: S' unauthorized_task_def)
qed

lemma request_call_token:
  assumes "client_inv S" and "CsrfResolved v \<in> set (sy_csrf S)"
  shows "task_ok (sy_csrf S) (RequestSent rc (request_call (sy_client S) rc) tmo)"
proof -
  have "has_token (ca_headers (request_call (sy_client S) rc)) (sy_csrf S)"
    if s: "string_tokens (sy_csrf S)" "map_of (rc_headers rc) ''X-CSRFToken'' = None"
  proof -
    obtain tok where "v = JStr tok" using s(1) assms(2) by (cases v) (auto simp: string_tokens_def)
    then have "has_token (cl_headers (sy_client S)) (sy_csrf S)" using assms by (auto simp: client_inv_def)
    then show ?thesis using s(2) by (auto simp: has_token_def request_call_def map_of_obj_assign map_add_def)
  qed
  then show ?thesis using assms(2) by (auto simp: task_ok_def)
qed

lemma resume_inv:
  assumes "client_inv S" and "client_resume j S = Some S'"
  shows "client_inv S'"
proof -
  have j: "j < length (sy_tasks S)" using assms(2) by (auto simp: client_resume_def split: if_splits)
  have mem: "CsrfResolved v \<in> set (sy_csrf S)" if "csrf_state S k = CsrfResolved v" for k v
    using that by (auto simp: csrf_state_def in_set_conv_nth split: if_splits)
  have upd: "client_inv (S\<lparr>sy_tasks := (sy_tasks S)[j := tk], sy_forms := fs\<rparr>)"
    if "task_ok (sy_csrf S) tk" "\<not> unauthorized_task tk" "\<not> unauthorized_task (sy_tasks S ! j)" for tk fs
    using task_replaced_inv [OF assms(1) j that(1,3), of fs] that(2) by simp
  have upd': "client_inv (S\<lparr>sy_tasks := (sy_tasks S)[j := tk]\<rparr>)"
    if "task_ok (sy_csrf S) tk" "\<not> unauthorized_task tk" "\<not> unauthorized_task (sy_tasks S ! j)" for tk
    using upd [OF that, of "sy_forms S"] by simp
  show ?thesis
  proof (cases "sy_tasks S ! j")
    case (RequestWaiting rc k)
    then have w: "\<not> unauthorized_task (sy_tasks S ! j)" by (simp add: unauthorized_task_def)
    show ?thesis
    proof (cases "csrf_state S k")
      case CsrfPending
      then show ?thesis using assms(2) j RequestWaiting by (simp add: client_resume_def)
    next
      case (CsrfResolved v)
      then show ?thesis
        using assms(2) j RequestWaiting upd' [OF request_call_token [OF assms(1) mem [OF CsrfResolved]] _ w]
        by (auto simp: client_resume_def unauthorized_task_def)
    next
      case (CsrfRejected e)
      then show ?thesis
        using assms(2) j RequestWaiting upd' [of "RequestRejected rc e", OF _ _ w]
        by (auto simp: client_resume_def unauthorized_task_def task_ok_def)
    qed
  next
    case (FormWaiting endpoint payload target k)
    then have w: "\<not> unauthorized_task (sy_tasks S ! j)" by (simp add: unauthorized_task_def)
    show ?thesis
      using assms(2) j FormWaiting upd' [of "FormDone (Inl _)", OF _ _ w] upd [of "FormDone (Inr ())", OF _ _ w]
      by (auto simp: client_resume_def unauthorized_task_def task_ok_def split: csrf_promise.splits)
  qed (use assms(2) j in \<open>auto simp: client_resume_def\<close>)
qed

lemma client_step_inv:
  assumes "client_inv S" and "client_step ev S = Some S'"
  shows "client_inv S'"
proof (cases ev)
  case (Init force)
  then show ?thesis using assms init_inv [OF assms(1)] by auto
next
  case (Request rc)
  then show ?thesis using assms request_inv [OF assms(1)] by auto
next
  case (PostForm e p t)
  then show ?thesis using assms postForm_inv [OF assms(1)] by auto
qed (use assms in \<open>auto intro: csrf_answer_inv resume_inv answer_inv\<close>)

definition client_moves :: "(client_event \<Rightarrow> bool) \<Rightarrow> client_sys \<Rightarrow> client_sys \<Rightarrow> bool" where
  "client_moves P S T \<longleftrightarrow> (\<exists>ev. P ev \<and> client_step ev S = Some T)"

lemma client_runs_moves: "client_runs S evs S' \<Longrightarrow> \<forall>ev\<in>set evs. P ev \<Longrightarrow> (client_moves P ^^ length evs) S S'"
proof (induction rule: client_runs.induct)
  case (event S evs S1 ev S2)
  have "client_moves P S1 S2" using event.hyps(2) event.prems unfolding client_moves_def by (intro exI [of _ ev]) simp
  moreover have "(client_moves P ^^ length evs) S S1" using event.IH event.prems by simp
  ultimately show ?case by auto
qed simp

interpretation client: step_system "client_moves P" client_inv for P
  by unfold_locales (auto simp: client_moves_def intro: client_step_inv)

lemma client_runs_inv: "client_runs S evs S' \<Longrightarrow> client_inv S \<Longrightarrow> client_inv S'"
  by (rule client.inv_run [OF client_runs_moves [where P = "\<lambda>_. True"]]) simp_all

lemma new_client_inv:
  assumes "newSupersetClient parse_url c = Some S" and "cf_guestTokenHeaderName c \<noteq> Some ''X-CSRFToken''"
  shows "client_inv S"
proof -
  have g: "or_default (cf_guestTokenHeaderName c) ''X-GuestToken'' \<noteq> ''X-CSRFToken''"
    using assms(2) by (cases "cf_guestTokenHeaderName c") (auto simp: or_default_def)
  have h: "map_of (case cf_guestToken c of Some g \<Rightarrow> if g = [] then hs else set_prop (or_default (cf_guestTokenHeaderName c) ''X-GuestToken'') g hs
      | None \<Rightarrow> hs) ''X-CSRFToken'' = map_of hs ''X-CSRFToken''" for hs
    using g by (simp add: set_prop_def map_of_obj_put split: option.split)
  show ?thesis
  proof (cases "cf_csrfToken c")
    case (JStr tok)
    then show ?thesis
      using assms(1) h unfolding newSupersetClient_def client_inv_def
      by (auto simp: Let_def has_token_def map_of_obj_put split: option.splits)
  qed (use assms(1) in \<open>auto simp: newSupersetClient_def client_inv_def Let_def split: option.splits\<close>)
qed

text \<open>
  C15. A request never leaves without a token. In every run of a client, however token requests,
  requests and their answers interleave, a request has been sent only if a token promise was
  resolved before; and if tokens are strings and the request does not set the header itself, its
  header \<open>X-CSRFToken\<close> is a token that a promise of this client was resolved with.
\<close>

theorem request_carries_token:
  assumes "newSupersetClient parse_url cfg = Some S0" and "cf_guestTokenHeaderName cfg \<noteq> Some ''X-CSRFToken''"
    and "client_runs S0 evs S" and "RequestSent rc call tmo \<in> set (sy_tasks S)"
  shows "(\<exists>v. CsrfResolved v \<in> set (sy_csrf S)) \<and>
     ((\<forall>v. CsrfResolved v \<in> set (sy_csrf S) \<longrightarrow> is_str v) \<and> map_of (rc_headers rc) ''X-CSRFToken'' = None \<longrightarrow>
        (\<exists>tok. map_of (ca_headers call) ''X-CSRFToken'' = Some tok \<and> CsrfResolved (JStr tok) \<in> set (sy_csrf S)))"
proof -
  have "client_inv S" by (rule client_runs_inv [OF assms(3) new_client_inv [OF assms(1,2)]])
  then have "task_ok (sy_csrf S) (RequestSent rc call tmo)" using assms(4) by (simp add: client_inv_def)
  then show ?thesis by (auto simp: task_ok_def string_tokens_def has_token_def)
qed

text \<open>
  C35. Unauthorised responses. In every run the handler for unauthorised requests has been called
  exactly once for every request that was sent and answered with status 401 and does not ignore it:
  not for other errors, timeouts or parse failures, and not for a request that failed before it was
  sent, even when the token request itself was refused with 401.
\<close>

theorem unauthorized_handled_once:
  assumes "newSupersetClient parse_url cfg = Some S0" and "cf_guestTokenHeaderName cfg \<noteq> Some ''X-CSRFToken''"
    and "client_runs S0 evs S"
  shows "sy_unauthorized S = length (filter
     (\<lambda>tk. case tk of RequestDone rc (Inl (HttpError r)) \<Rightarrow> rs_status r = 401 \<and> \<not> rc_ignoreUnauthorized rc | _ \<Rightarrow> False)
     (sy_tasks S))"
proof -
  have "client_inv S" by (rule client_runs_inv [OF assms(3) new_client_inv [OF assms(1,2)]])
  moreover have "unauthorized_task = (\<lambda>tk. case tk of
      RequestDone rc (Inl (HttpError r)) \<Rightarrow> rs_status r = 401 \<and> \<not> rc_ignoreUnauthorized rc | _ \<Rightarrow> False)"
    by (auto simp: fun_eq_iff unauthorized_task_def is_unauthorized_def split: task.splits sum.splits api_error.splits)
  ultimately show ?thesis by (simp add: client_inv_def)
qed

section \<open>Every request is settled\<close>

fun internal_event :: "client_event \<Rightarrow> bool" where
  "internal_event (CsrfAnswer k a) = True"
| "internal_event (Resume j) = True"
| "internal_event (Answer j a) = True"
| "internal_event _ = False"

fun task_settled :: "task \<Rightarrow> bool" where
  "task_settled (RequestDone rc r) = True"
| "task_settled (RequestRejected rc e) = True"
| "task_settled (FormDone r) = True"
| "task_settled _ = False"

fun task_weight :: "task \<Rightarrow> nat" where
  "task_weight (RequestWaiting rc k) = 2"
| "task_weight (FormWaiting e p t k) = 1"
| "task_weight (RequestSent rc c t) = 1"
| "task_weight _ = 0"

definition client_weight :: "client_sys \<Rightarrow> nat" where
  "client_weight S = sum_list (map task_weight (sy_tasks S)) + length (filter (\<lambda>p. p = CsrfPending) (sy_csrf S))"

lemma sum_list_update_less:
  assumes "j < length xs" and "f x < f (xs ! j)"
  shows "sum_list (map f (xs[j := x])) < (sum_list (map f xs) :: nat)"
proof -
  have "sum_list (map f xs) = sum_list (map f (take j xs)) + f (xs ! j) + sum_list (map f (drop (Suc j) xs))"
    using arg_cong [OF id_take_nth_drop [OF assms(1)], of "\<lambda>ys. sum_list (map f ys)"] by simp
  moreover have "sum_list (map f (xs[j := x])) = sum_list (map f (take j xs)) + f x + sum_list (map f (drop (Suc j) xs))"
    using assms(1) by (simp add: upd_conv_take_nth_drop)
  ultimately show ?thesis using assms(2) by simp
qed

lemma internal_decreases:
  assumes "internal_event ev" and "client_step ev S = Some S'"
  shows "client_weight S' < client_weight S"
proof (cases ev)
  case (CsrfAnswer k a)
  obtain p c where pc: "on_csrf_answer a (sy_client S) = (p, c)" by (cases "on_csrf_answer a (sy_client S)")
  have k: "k < length (sy_csrf S)" "sy_csrf S ! k = CsrfPending" and S': "S' = S\<lparr>sy_client := c, sy_csrf := (sy_csrf S)[k := p]\<rparr>"
    using assms(2) CsrfAnswer pc by (auto simp: csrf_answer_def split: if_splits)
  have "p = fst (on_csrf_answer a (sy_client S))" using pc by simp
  also have "\<dots> \<noteq> CsrfPending"
    by (auto simp: on_csrf_answer_def csrf_settled_def Let_def split: sum.splits parsed.splits)
  finally show ?thesis
    using filter_update [OF k(1), of "\<lambda>p. p = CsrfPending" p] k(2) by (simp add: client_weight_def S')
next
  case (Resume j)
  then have j: "j < length (sy_tasks S)" using assms(2) by (auto simp: client_resume_def split: if_splits)
  obtain tk where "sy_tasks S' = (sy_tasks S)[j := tk]" "sy_csrf S' = sy_csrf S" "task_weight tk < task_weight (sy_tasks S ! j)"
    using assms(2) Resume by (auto simp: client_resume_def split: if_splits task.splits csrf_promise.splits)
  then show ?thesis using sum_list_update_less [OF j, of task_weight tk] by (simp add: client_weight_def)
next
  case (Answer j a)
  then have j: "j < length (sy_tasks S)" using assms(2) by (auto simp: client_answer_def split: if_splits)
  obtain tk where "sy_tasks S' = (sy_tasks S)[j := tk]" "sy_csrf S' = sy_csrf S" "task_weight tk < task_weight (sy_tasks S ! j)"
    using assms(2) Answer by (auto simp: client_answer_def split: if_splits task.splits)
  then show ?thesis using sum_list_update_less [OF j, of task_weight tk] by (simp add: client_weight_def)
qed (use assms(1) in auto)

lemma unsettled_enabled:
  assumes "client_inv S" and "tk \<in> set (sy_tasks S)" and "\<not> task_settled tk"
  shows "\<exists>ev S'. internal_event ev \<and> client_step ev S = Some S'"
proof -
  obtain j where j: "j < length (sy_tasks S)" "sy_tasks S ! j = tk" using assms(2) by (metis in_set_conv_nth)
  have ok: "task_ok (sy_csrf S) tk" using assms(1,2) by (simp add: client_inv_def)
  have wait: ?thesis if k: "k < length (sy_csrf S)" "sy_csrf S ! k \<noteq> CsrfPending \<Longrightarrow> \<exists>S'. client_resume j S = Some S'" for k
  proof (cases "sy_csrf S ! k = CsrfPending")
    case True
    then have "\<exists>S'. client_step (CsrfAnswer k (Inl NetworkFailure)) S = Some S'"
      using k(1) by (simp add: csrf_answer_def case_prod_beta)
    then show ?thesis by (metis internal_event.simps(1))
  next
    case False
    then show ?thesis using k(2) by (metis client_step.simps(5) internal_event.simps(2))
  qed
  show ?thesis
  proof (cases tk)
    case (RequestWaiting rc k)
    then show ?thesis
      using ok j by (intro wait [of k]) (auto simp: task_ok_def client_resume_def csrf_state_def split: csrf_promise.splits)
  next
    case (FormWaiting e p t k)
    then show ?thesis
      using ok j by (intro wait [of k]) (auto simp: task_ok_def client_resume_def csrf_state_def split: csrf_promise.splits)
  next
    case (RequestSent rc call tmo)
    then have "\<exists>S'. client_step (Answer j (Inl NetworkFailure)) S = Some S'" using j by (simp add: client_answer_def)
    then show ?thesis by (metis internal_event.simps(3))
  qed (use assms(3) in auto)
qed

interpretation client_rest: settling_system "client_moves internal_event" client_inv client_weight
  by unfold_locales (auto simp: client_moves_def intro: internal_decreases)

text \<open>
  C17. Every request is settled. From every state of a client, a run in which nothing new is asked for
  (the network answers and waiting tasks go on) is at most as long as the weight of the state, and
  when such a run cannot go on, every request and every form is settled.
\<close>

theorem client_settles:
  assumes "newSupersetClient parse_url cfg = Some S0" and "cf_guestTokenHeaderName cfg \<noteq> Some ''X-CSRFToken''"
    and "client_runs S0 evs S" and "client_runs S evs' S'" and "\<forall>ev\<in>set evs'. internal_event ev"
  shows "length evs' + client_weight S' \<le> client_weight S \<and>
     ((\<forall>ev S''. internal_event ev \<longrightarrow> client_step ev S' \<noteq> Some S'') \<longrightarrow> (\<forall>tk\<in>set (sy_tasks S'). task_settled tk))"
proof -
  have inv: "client_inv S" by (rule client_runs_inv [OF assms(3) new_client_inv [OF assms(1,2)]])
  then have inv': "client_inv S'" by (rule client_runs_inv [OF assms(4)])
  have "length evs' + client_weight S' \<le> client_weight S"
    by (rule client_rest.run_bound [OF client_runs_moves [OF assms(4,5)] inv])
  then show ?thesis using unsettled_enabled [OF inv'] by blast
qed

end
