(* ===== verification/ConnectionWitnesses.thy ===== *)
theory ConnectionWitnesses
  imports ConnectionFacts
begin

text \<open>
  Two races of the token, and a client with a run, a server with a cached resource, on which the
  theorems of the HTTP client apply.
\<close>

section \<open>Races\<close>

definition token_answer :: "string \<Rightarrow> parsed api" where
  "token_answer tok = Inr (JsonResponse \<lparr>rs_status = 200, rs_etag = None, rs_text = []\<rparr> (JObj [(''result'', JStr tok)]))"

lemma csrf_answer_token:
  assumes "k < length (sy_csrf S)" and "sy_csrf S ! k = CsrfPending"
  shows "csrf_answer k (token_answer tok) S =
    Some (S\<lparr>sy_client := store_token (JStr tok) (sy_client S), sy_csrf := (sy_csrf S)[k := CsrfResolved (JStr tok)]\<rparr>)"
  using assms by (simp add: csrf_answer_def on_csrf_answer_def token_answer_def Let_def csrf_settled_def isAuthenticated_def)

text \<open>
  The answer that comes last wins. When two token requests are under way and the newer one is
  answered first, the answer to the older one replaces the token and the header: all later requests
  wait for the newer promise, which is resolved with the newer token, but carry the older token.
\<close>

lemma stale_token_wins:
  assumes "i < length (sy_csrf S)" and "j < length (sy_csrf S)" and "i \<noteq> j"
    and "sy_csrf S ! i = CsrfPending" and "sy_csrf S ! j = CsrfPending"
    and "csrfPromise (sy_client S) = Some j" and "map_of (rc_headers rc) ''X-CSRFToken'' = None"
  shows "\<exists>S'. client_runs S [CsrfAnswer j (token_answer newer), CsrfAnswer i (token_answer older)] S' \<and>
     csrf_state S' j = CsrfResolved (JStr newer) \<and> csrfToken (sy_client S') = JStr older \<and>
     map_of (ca_headers (request_call (sy_client S') rc)) ''X-CSRFToken'' = Some older"
proof -
  define S1 where "S1 = S\<lparr>sy_client := store_token (JStr newer) (sy_client S), sy_csrf := (sy_csrf S)[j := CsrfResolved (JStr newer)]\<rparr>"
  define S2 where "S2 = S1\<lparr>sy_client := store_token (JStr older) (sy_client S1), sy_csrf := (sy_csrf S1)[i := CsrfResolved (JStr older)]\<rparr>"
  have "client_step (CsrfAnswer j (token_answer newer)) S = Some S1"
    using csrf_answer_token [OF assms(2,5)] by (simp add: S1_def)
  moreover have "client_step (CsrfAnswer i (token_answer older)) S1 = Some S2"
    using csrf_answer_token [of i S1] assms(1,3,4) by (simp add: S1_def S2_def)
  ultimately have "client_runs S [CsrfAnswer j (token_answer newer), CsrfAnswer i (token_answer older)] S2"
    using client_runs.event [OF client_runs.event [OF client_runs.start]] by (metis append_Cons append_Nil)
  moreover have "csrf_state S2 j = CsrfResolved (JStr newer)"
    using assms(2,3) by (simp add: S2_def S1_def csrf_state_def)
  moreover have "map_of (ca_headers (request_call (sy_client S2) rc)) ''X-CSRFToken'' = Some older"
    using assms(7) by (simp add: S2_def request_call_def map_of_obj_assign map_add_def store_token_header)
  moreover have "csrfToken (sy_client S2) = JStr older" by (simp add: S2_def)
  ultimately show ?thesis by blast
qed

text \<open>
  A form that is posted just before the client authenticates anew is submitted with the text
  \<open>undefined\<close> for a token: it waits for the old promise, which is resolved, but reads the token that
  the new authentication has cleared.
\<close>

lemma postForm_undefined_token:
  assumes "csrfPromise (sy_client S) = Some k" and "csrf_state S k = CsrfResolved v" and "endpoint \<noteq> []"
  shows "\<exists>S' fm. client_runs S [PostForm endpoint payload target, Init True, Resume (length (sy_tasks S))] S' \<and>
     sy_forms S' = sy_forms S @ [fm] \<and> (''csrf_token'', ''undefined'') \<in> set (fm_inputs fm)"
proof -
  define S1 where "S1 = client_postForm endpoint payload target S"
  define S2 where "S2 = getCSRFToken S1"
  have k: "csrf_state S2 k = CsrfResolved v"
    using assms(2,3) by (auto simp: S2_def S1_def getCSRFToken_def client_postForm_def csrf_state_def nth_append split: if_splits)
  have t: "sy_tasks S2 ! length (sy_tasks S) = FormWaiting endpoint payload (or_default target ''_blank'') k"
    "length (sy_tasks S) < length (sy_tasks S2)" "sy_forms S2 = sy_forms S"
    using assms(1,3) by (simp_all add: S2_def S1_def getCSRFToken_def client_postForm_def ensureAuth_def nth_append)
  define fm where "fm = submitted_form (sy_client S2) endpoint payload (or_default target ''_blank'')"
  obtain S3 where S3: "client_resume (length (sy_tasks S)) S2 = Some S3" "sy_forms S3 = sy_forms S @ [fm]"
    using k t by (simp add: client_resume_def fm_def)
  have "map_of (obj_put ''csrf_token'' JUndef (obj_assign [] payload)) ''csrf_token'' = Some JUndef" by (simp add: map_of_obj_put)
  moreover have "csrfToken (sy_client S2) = JUndef" by (simp add: S2_def getCSRFToken_def)
  ultimately have "map_of (case guestToken (sy_client S2) of
      Some g \<Rightarrow> if g = [] then obj_put ''csrf_token'' JUndef (obj_assign [] payload)
                else obj_put ''guest_token'' (JStr g) (obj_put ''csrf_token'' JUndef (obj_assign [] payload))
      | None \<Rightarrow> obj_put ''csrf_token'' JUndef (obj_assign [] payload)) ''csrf_token'' = Some JUndef"
    by (auto simp: map_of_obj_put split: option.splits)
  from map_of_SomeD [OF this] have "(''csrf_token'', ''undefined'') \<in> set (fm_inputs fm)"
    unfolding fm_def submitted_form_def Let_def \<open>csrfToken (sy_client S2) = JUndef\<close>
    by (force simp: image_iff)
  moreover have "client_runs S [PostForm endpoint payload target, Init True, Resume (length (sy_tasks S))] S3"
    using client_runs.event [OF client_runs.event [OF client_runs.event [OF client_runs.start]],
        of "PostForm endpoint payload target" S S1 "Init True" S2 "Resume (length (sy_tasks S))" S3] S3(1)
    by (simp add: S1_def S2_def client_init_def)
  ultimately show ?thesis using S3(2) by blast
qed

section \<open>A client\<close>

definition config1 :: client_config where
  "config1 = \<lparr>cf_host = Some ''example.com'', cf_protocol = None, cf_appRoot = None, cf_credentials = None,
     cf_csrfToken = JUndef, cf_guestToken = None, cf_guestTokenHeaderName = None, cf_fetchRetryOptions = [],
     cf_headers = [], cf_mode = None, cf_timeout = JUndef\<rparr>"

definition parse_url1 :: "string \<Rightarrow> (string \<times> string) option" where
  "parse_url1 u = (if prefix ''https://'' u then Some (drop 8 u, ''https:'') else None)"

definition api_call1 :: call_api where
  "api_call1 = \<lparr>ca_body = JUndef, ca_cache = None, ca_credentials = None, ca_fetchRetryOptions = [], ca_headers = [],
     ca_method = None, ca_mode = None, ca_postPayload = ValuePayload JUndef, ca_jsonPayload = JUndef, ca_redirect = None,
     ca_signal = JUndef, ca_stringify = None, ca_url = ''https://example.com/api'', ca_searchParams = JUndef\<rparr>"

definition request1 :: request_config where
  "request1 = \<lparr>rc_credentials = None, rc_mode = None, rc_endpoint = Some ''/api/v1/chart/'', rc_host = None, rc_url = None,
     rc_headers = [], rc_timeout = JUndef, rc_fetchRetryOptions = None, rc_ignoreUnauthorized = False,
     rc_parseMethod = JUndef, rc_rest = api_call1\<rparr>"

definition client1 :: client_sys where
  "client1 = the (newSupersetClient parse_url1 config1)"

lemma client1_new: "newSupersetClient parse_url1 config1 = Some client1"
  by (simp add: client1_def newSupersetClient_def config1_def parse_url1_def)

lemma client1_fields:
  "sy_csrf client1 = []" "sy_tasks client1 = []" "sy_unauthorized client1 = 0" "csrfToken (sy_client client1) = JUndef"
  "csrfPromise (sy_client client1) = None"
  by (simp_all add: client1_def newSupersetClient_def config1_def parse_url1_def)

fun run_events :: "client_event list \<Rightarrow> client_sys \<Rightarrow> client_sys option" where
  "run_events [] S = Some S"
| "run_events (ev # evs) S = Option.bind (client_step ev S) (run_events evs)"

lemma client_runs_append: "client_runs S1 evs' S2 \<Longrightarrow> client_runs S evs S1 \<Longrightarrow> client_runs S (evs @ evs') S2"
proof (induction rule: client_runs.induct)
  case (event S1 evs' S2 ev S3)
  then show ?case using client_runs.event [of S "evs @ evs'" S2 ev S3] by simp
qed simp

lemma run_events_runs: "run_events evs S = Some S' \<Longrightarrow> client_runs S evs S'"
proof (induction evs arbitrary: S)
  case Nil
  then show ?case by (simp add: client_runs.start)
next
  case (Cons ev evs)
  then obtain S1 where "client_step ev S = Some S1" "client_runs S1 evs S'" by (auto split: Option.bind_splits)
  then show ?case using client_runs_append [OF _ client_runs.event [OF client_runs.start]] by fastforce
qed

text \<open>The client gets a token and sends a request.\<close>

definition events1 :: "client_event list" where
  "events1 = [Init False, Request request1, CsrfAnswer 0 (token_answer ''abc''), Resume 0]"

definition sent1 :: client_sys where
  "sent1 = the (run_events events1 client1)"

definition stored1 :: SupersetClientClass where
  "stored1 = store_token (JStr ''abc'') ((sy_client client1)\<lparr>csrfToken := JUndef, csrfPromise := Some 0\<rparr>)"

lemma client_run1: "run_events events1 client1 = Some (client1\<lparr>sy_client := stored1, sy_csrf := [CsrfResolved (JStr ''abc'')],
    sy_tasks := [RequestSent request1 (request_call stored1 request1) (request_timeout stored1 request1)]\<rparr>)"
  using client1_fields
  by (simp add: events1_def client_init_def isAuthenticated_def getCSRFToken_def client_request_def ensureAuth_def
    csrf_answer_def on_csrf_answer_def token_answer_def Let_def csrf_settled_def client_resume_def csrf_state_def stored1_def)

lemma sent1_eq:
  "sy_csrf sent1 = [CsrfResolved (JStr ''abc'')]"
  "sy_tasks sent1 = [RequestSent request1 (request_call stored1 request1) (request_timeout stored1 request1)]"
  by (simp_all add: sent1_def client_run1)

lemma sent1_runs: "client_runs client1 events1 sent1"
  by (rule run_events_runs) (simp add: sent1_def client_run1)

theorem request_carries_token_witness:
  "map_of (ca_headers (request_call stored1 request1)) ''X-CSRFToken'' = Some ''abc''"
proof -
  have "cf_guestTokenHeaderName config1 \<noteq> Some ''X-CSRFToken''" by (simp add: config1_def)
  from request_carries_token [OF client1_new this sent1_runs, of request1 "request_call stored1 request1" "request_timeout stored1 request1"]
  show ?thesis by (auto simp: sent1_eq request1_def)
qed

theorem unauthorized_handled_once_witness:
  "\<exists>S. client_runs client1 (events1 @ [Answer 0 (Inl (HttpError \<lparr>rs_status = 401, rs_etag = None, rs_text = []\<rparr>))]) S \<and>
     sy_unauthorized S = 1"
proof -
  let ?r = "\<lparr>rs_status = 401, rs_etag = None, rs_text = []\<rparr> :: response"
  obtain S where S: "client_step (Answer 0 (Inl (HttpError ?r))) sent1 = Some S"
    and tasks: "sy_tasks S = [RequestDone request1 (Inl (HttpError ?r))]"
    by (simp add: client_answer_def sent1_eq)
  have runs: "client_runs client1 (events1 @ [Answer 0 (Inl (HttpError ?r))]) S"
    by (rule client_runs.event [OF sent1_runs S])
  have "cf_guestTokenHeaderName config1 \<noteq> Some ''X-CSRFToken''" by (simp add: config1_def)
  from unauthorized_handled_once [OF client1_new this runs] have "sy_unauthorized S = 1"
    by (simp add: tasks request1_def)
  then show ?thesis using runs by blast
qed

theorem client_settles_witness:
  "\<exists>S. client_runs sent1 [Answer 0 (Inl NetworkFailure)] S \<and> (\<forall>tk\<in>set (sy_tasks S). task_settled tk)"
proof -
  obtain S where S: "client_step (Answer 0 (Inl NetworkFailure)) sent1 = Some S"
    and S_eq: "sy_tasks S = [RequestDone request1 (Inl NetworkFailure)]" "sy_csrf S = [CsrfResolved (JStr ''abc'')]"
    by (simp add: client_answer_def sent1_eq)
  have runs: "client_runs sent1 [Answer 0 (Inl NetworkFailure)] S"
    using client_runs.event [OF client_runs.start S] by simp
  have "client_step ev S \<noteq> Some S'" if "internal_event ev" for ev S'
    using that by (cases ev) (auto simp: csrf_answer_def client_resume_def client_answer_def S_eq nth_Cons' split: if_splits)
  moreover have "cf_guestTokenHeaderName config1 \<noteq> Some ''X-CSRFToken''" by (simp add: config1_def)
  ultimately show ?thesis
    using client_settles [OF client1_new _ sent1_runs runs] runs by auto
qed

section \<open>A server\<close>

definition resource :: "string \<Rightarrow> string \<Rightarrow> response" where
  "resource version url = \<lparr>rs_status = 200, rs_etag = Some version, rs_text = version @ url\<rparr>"

definition server1 :: "string \<Rightarrow> api_env" where
  "server1 version =
     \<lparr>ae_fetch = (\<lambda>_ url req. Inr (case map_of (hr_headers req) ''If-None-Match'' of
        Some e \<Rightarrow> if e = version then not_modified e else resource version url | None \<Rightarrow> resource version url)),
      ae_stringify = (\<lambda>_. Inr None), ae_with_search = (\<lambda>u _. u), ae_json_bigint = (\<lambda>_. None),
      CACHE_AVAILABLE = True, ae_https = True, ae_cache_opens = True\<rparr>"

theorem callApi_cache_transparent_witness:
  "fst (api_calls [(server1 ''v1'', api_call1), (server1 ''v1'', api_call1), (server1 ''v2'', api_call1)] []) =
     [Inr (resource ''v1'' ''https://example.com/api''), Inr (resource ''v1'' ''https://example.com/api''),
      Inr (resource ''v2'' ''https://example.com/api'')]"
proof -
  have s: "serves (server1 v) (resource v)" for v
    by (auto simp: serves_def server1_def resource_def split: option.splits)
  have e: "etags_identify (range resource)" by (auto simp: etags_identify_def resource_def)
  have p: "plain_call api_call1" by (simp add: plain_call_def api_call1_def or_default_def)
  have "\<forall>(env, c)\<in>set [(server1 ''v1'', api_call1), (server1 ''v1'', api_call1), (server1 ''v2'', api_call1)].
      plain_call c \<and> (\<exists>w\<in>range resource. serves env w)"
    using s p by auto
  from callApi_cache_transparent [OF e this] show ?thesis
    by (simp add: callApi_def uses_cache_def with_payload_def api_request_def api_call1_def or_default_def getFullUrl_def server1_def)
qed

end
