(* ===== verification/FilterScopeTree.thy ===== *)
theory FilterScopeTree
  imports LayoutParents
begin

text \<open>
  The scoping tree of the native filter form, after
  \<open>dashboard/components/nativeFilters/FiltersConfigModal/FiltersConfigForm/FilterScope\<close>:
  the tree that is shown (\<open>buildTree\<close>, \<open>useFilterScopeTree\<close>), the scope a set of checked
  nodes stands for (\<open>findFilterScope\<close>, \<open>handleCheck\<close>) and the nodes a scope checks
  (\<open>getTreeCheckedItems\<close>). The layout is the \<open>components\<close> object of the dashboard. The walks
  over the layout take the depth of the call stack they may use.

  What is shown: the tree has a leaf for every chart below the root but the one the form belongs
  to, once; the charts a filter reaches after a check are the checked charts and those of the
  checked layers; and reading the checked nodes back from the stored scope gives the nodes
  that were checked.
\<close>

section \<open>Nodes\<close>

definition chart_id :: "component \<Rightarrow> int option" where
  "chart_id c = li_chartId (item_of c)"

definition isShowTypeInTree :: "component \<Rightarrow> bool" where
  "isShowTypeInTree c \<longleftrightarrow> co_type c = ''TAB'' \<or> co_type c = ''CHART'' \<or> co_type c = ''ROOT''"

text \<open>\<open>isShowTypeInTree(layout[x])\<close>: the type of an undefined item cannot be read.\<close>

definition shown_at :: "components \<Rightarrow> string \<Rightarrow> bool res" where
  "shown_at lay x = (case map_of lay x of None \<Rightarrow> Inl TypeError | Some c \<Rightarrow> Inr (isShowTypeInTree c))"

definition is_chart :: "components \<Rightarrow> string \<Rightarrow> bool" where
  "is_chart lay x = (case map_of lay x of None \<Rightarrow> False | Some c \<Rightarrow> co_type c = ''CHART'')"

fun coalesce :: "jsval list \<Rightarrow> jsval" where
  "coalesce [] = JStr []"
| "coalesce (v # vs) = (if v = JUndef \<or> v = JNull then coalesce vs else v)"

definition meta_at :: "component \<Rightarrow> string \<Rightarrow> jsval" where
  "meta_at c f = (case map_of (co_meta c) f of None \<Rightarrow> JUndef | Some v \<Rightarrow> v)"

definition getNodeTitle :: "component \<Rightarrow> jsval" where
  "getNodeTitle node = coalesce [meta_at node ''sliceNameOverride'', meta_at node ''sliceName'',
     meta_at node ''text'', meta_at node ''defaultText'', JStr (co_id node)]"

section \<open>The tree that is shown\<close>

datatype node_type = NodeChart | NodeTab | NodeLayer

datatype 'r TreeItem =
  TreeItem (ti_key: string) (ti_title: 'r) (ti_children: "'r TreeItem list") (ti_nodeType: "node_type option")
    (ti_chartId: "int option") (ti_layerType: "string option")

type_synonym 'r BuildTreeLeafTitle = "jsval \<Rightarrow> bool \<Rightarrow> string option \<Rightarrow> bool option \<Rightarrow> 'r"

record deck_slice =
  ds_slice_id :: int
  ds_slice_name :: "string option"

text \<open>The part of a chart's state the tree reads: \<open>form_data\<close> and the slices of the first response.\<close>

record tree_chart =
  tc_viz_type :: "string option"
  tc_deck_slices :: "int list option"
  tc_slices :: "deck_slice list option"

record slice_entity =
  se_slice_name :: "string option"
  se_viz_type :: "string option"

definition nonempty_or :: "string option \<Rightarrow> string \<Rightarrow> string" where
  "nonempty_or v d = (case v of Some (c # s) \<Rightarrow> c # s | _ \<Rightarrow> d)"

definition layer_name :: "tree_chart \<Rightarrow> slice_entity option \<Rightarrow> int \<Rightarrow> string" where
  "layer_name chart sliceInfo sliceId =
     (let sliceName = ''Slice '' @ show_int sliceId;
          sliceName = (case tc_slices chart of
              None \<Rightarrow> sliceName
            | Some slices \<Rightarrow>
                (case find (\<lambda>s. ds_slice_id s = sliceId) slices of
                   None \<Rightarrow> sliceName
                 | Some slice \<Rightarrow> nonempty_or (ds_slice_name slice) sliceName))
      in nonempty_or (Option.bind sliceInfo se_slice_name) sliceName)"

definition layer_key :: "int \<Rightarrow> nat \<Rightarrow> string" where
  "layer_key chartId index = ''chart-'' @ show_int chartId @ ''-layer-'' @ show_nat index"

definition generateChartSubNodes ::
  "int \<Rightarrow> tree_chart \<Rightarrow> 'r BuildTreeLeafTitle \<Rightarrow> slice_entity obj \<Rightarrow> 'r TreeItem list" where
  "generateChartSubNodes chartId chart buildTreeLeafTitle sliceEntities =
     (if tc_viz_type chart = Some ''deck_multi'' then
        map (\<lambda>(index, sliceId).
          let sliceInfo = map_of sliceEntities (show_int sliceId);
              sliceName = layer_name chart sliceInfo sliceId
          in TreeItem (layer_key chartId index)
               (buildTreeLeafTitle (JStr sliceName) False (Some (''Deck.gl layer: '' @ sliceName)) None)
               [] (Some NodeLayer) (Some chartId)
               (Some (nonempty_or (Option.bind sliceInfo se_viz_type) ''deck_layer'')))
          (enumerate 0 (case tc_deck_slices chart of None \<Rightarrow> [] | Some ss \<Rightarrow> ss))
      else [])"

record 'r tree_env =
  te_layout :: components
  te_charts :: "tree_chart obj"
  te_validNodes :: "string list"
  te_excluded :: "int list"
  te_title :: "'r BuildTreeLeafTitle"
  te_slices :: "slice_entity obj"
  te_t :: "string \<Rightarrow> string"

definition incompatible_text :: string where
  "incompatible_text = ''This chart might be incompatible with the filter (datasets don't match)''"

text \<open>\<open>node.type === CHART_TYPE && node.meta?.chartId && charts[node.meta.chartId]\<close>\<close>

definition chart_of_node :: "'r tree_env \<Rightarrow> component \<Rightarrow> (int \<times> tree_chart) option" where
  "chart_of_node env node =
     (if co_type node = ''CHART'' then
        (case chart_id node of
           Some n \<Rightarrow> if n = 0 then None else map_option (Pair n) (map_of (te_charts env) (show_int n))
         | None \<Rightarrow> None)
      else None)"

definition shows_node :: "'r tree_env \<Rightarrow> component \<Rightarrow> bool" where
  "shows_node env node \<longleftrightarrow>
     isShowTypeInTree node \<and> co_type node \<noteq> ''ROOT'' \<and> co_id node \<in> set (te_validNodes env)"

definition tree_item :: "'r tree_env \<Rightarrow> component \<Rightarrow> 'r TreeItem list \<Rightarrow> 'r TreeItem" where
  "tree_item env node pushed =
     (let title = te_title env (getNodeTitle node)
            (case chart_id node of Some n \<Rightarrow> n \<in> set (te_excluded env) | None \<Rightarrow> False)
            (Some (te_t env incompatible_text))
            (Some (case chart_of_node env node of
                Some (_, chart) \<Rightarrow> tc_viz_type chart = Some ''deck_multi'' | None \<Rightarrow> False));
          subNodes = (case chart_of_node env node of
              Some (n, chart) \<Rightarrow> generateChartSubNodes n chart (te_title env) (te_slices env)
            | None \<Rightarrow> [])
      in TreeItem (co_id node) title (subNodes @ pushed)
           (Some (if co_type node = ''CHART'' then NodeChart else NodeTab)) (chart_id node) None)"

definition missing_text :: "string \<Rightarrow> string" where
  "missing_text child =
     ''Unable to find item with id: '' @ child @
     '' in the dashboard layout. This may indicate you have invalid references in your dashboard and the references to id: ''
     @ child @ '' should be removed.''"

text \<open>
  \<open>buildTree\<close> pushes items into the children of the item it is given and logs warnings: the
  result is the list of pushed items and the list of warnings.
\<close>

fun buildTree :: "nat \<Rightarrow> 'r tree_env \<Rightarrow> component \<Rightarrow> ('r TreeItem list \<times> string list) res" where
  "buildTree 0 env node = Inl StackOverflow"
| "buildTree (Suc n) env node =
     rbind
       (if co_type node = ''CHART'' then Inr ([], [])
        else rfold (\<lambda>child (pushed, warnings).
            case map_of (te_layout env) child of
              None \<Rightarrow> Inr (pushed, warnings @ [missing_text child])
            | Some childNode \<Rightarrow>
                rbind (buildTree n env childNode) (\<lambda>(p, w). Inr (pushed @ p, warnings @ w)))
          (co_children node) ([], []))
       (\<lambda>(pushed, warnings).
          Inr (if shows_node env node then [tree_item env node pushed] else pushed, warnings))"

definition validNodes :: "int option \<Rightarrow> components \<Rightarrow> string list" where
  "validNodes currentChartId lay =
     foldl (\<lambda>acc (_, cur).
       if co_type cur = ''CHART'' \<and> currentChartId \<noteq> chart_id cur
       then nub (acc @ or_empty (co_parents cur) @ [co_id cur]) else acc) [] lay"

text \<open>\<open>useFilterScopeTree\<close>: the tree with the item \<open>All panels\<close> at its root.\<close>

definition useFilterScopeTree ::
  "nat \<Rightarrow> 'r tree_env \<Rightarrow> int option \<Rightarrow> 'r \<Rightarrow> ('r TreeItem \<times> string list) res" where
  "useFilterScopeTree n env currentChartId title =
     (let tree = (\<lambda>children. TreeItem ''ROOT_ID'' title children None None None)
      in case map_of (te_layout env) ''ROOT_ID'' of
           None \<Rightarrow> Inr (tree [], [])
         | Some node \<Rightarrow>
             rbind (buildTree n (env\<lparr>te_validNodes := validNodes currentChartId (te_layout env)\<rparr>) node)
               (\<lambda>(pushed, warnings). Inr (tree pushed, warnings)))"

section \<open>The nodes a scope checks\<close>

definition invisible_children :: "components \<Rightarrow> string \<Rightarrow> component list" where
  "invisible_children lay item =
     filter (\<lambda>val. case co_parents val of None \<Rightarrow> False | Some ps \<Rightarrow> ps \<noteq> [] \<and> last ps = item) (map snd lay)"

definition addInvisibleParents :: "components \<Rightarrow> string \<Rightarrow> string list res" where
  "addInvisibleParents lay item =
     (case map_of lay item of
        None \<Rightarrow> if invisible_children lay item = [] then Inr [] else Inl TypeError
      | Some c \<Rightarrow>
          Inr (co_children c @ (if isShowTypeInTree c then [] else map co_id (invisible_children lay item))))"

definition checks_item :: "components \<Rightarrow> int list \<Rightarrow> string \<Rightarrow> bool" where
  "checks_item lay excl item =
     (case map_of lay item of
        None \<Rightarrow> False
      | Some c \<Rightarrow> co_type c = ''CHART'' \<and> (case chart_id c of None \<Rightarrow> True | Some n \<Rightarrow> n \<notin> set excl))"

fun checkTreeItem :: "nat \<Rightarrow> components \<Rightarrow> string list \<Rightarrow> int list \<Rightarrow> string list \<Rightarrow> string list res" where
  "checkTreeItem 0 lay its excl checkedItems = Inl StackOverflow"
| "checkTreeItem (Suc n) lay its excl checkedItems =
     rfold (\<lambda>item checkedItems.
       rbind (addInvisibleParents lay item) (\<lambda>sub.
       rbind (checkTreeItem n lay sub excl checkedItems) (\<lambda>checkedItems.
       Inr (if checks_item lay excl item then checkedItems @ [item] else checkedItems)))) its checkedItems"

definition extractParentChartIds :: "string list \<Rightarrow> int list" where
  "extractParentChartIds layerKeys = nub (layer_charts layerKeys)"

definition keeps_item :: "components \<Rightarrow> int list \<Rightarrow> string \<Rightarrow> bool" where
  "keeps_item lay parentChartIds item =
     (case map_of lay item of
        Some c \<Rightarrow> co_type c \<noteq> ''CHART'' \<or>
          (case chart_id c of Some n \<Rightarrow> n = 0 \<or> n \<notin> set parentChartIds | None \<Rightarrow> True)
      | None \<Rightarrow> True)"

definition getTreeCheckedItems ::
  "nat \<Rightarrow> NativeFilterScope \<Rightarrow> components \<Rightarrow> string list option \<Rightarrow> string list res" where
  "getTreeCheckedItems n scope lay layers =
     rbind (checkTreeItem n lay (rootPath scope) (excluded scope) []) (\<lambda>checkedItems.
       case layers of
         Some (l # ls) \<Rightarrow>
           Inr (nub (filter (keeps_item lay (extractParentChartIds (l # ls))) checkedItems @ l # ls))
       | _ \<Rightarrow> Inr (nub checkedItems))"

section \<open>The scope of the checked nodes\<close>

definition layout_key_of :: "components \<Rightarrow> int \<Rightarrow> string option" where
  "layout_key_of lay chartId = map_option fst (find (\<lambda>(_, c). chart_id c = Some chartId) lay)"

definition add_chart_of_layer :: "components \<Rightarrow> string \<Rightarrow> string list \<Rightarrow> string list" where
  "add_chart_of_layer lay layerKey chartKeys =
     (case LAYER_KEY_REGEX layerKey of
        None \<Rightarrow> chartKeys
      | Some (c, _) \<Rightarrow>
          (case layout_key_of lay (digits_int c) of
             None \<Rightarrow> chartKeys
           | Some key \<Rightarrow> if key \<noteq> [] \<and> key \<notin> set chartKeys then chartKeys @ [key] else chartKeys))"

definition scope_chart_keys :: "string list \<Rightarrow> components \<Rightarrow> string list" where
  "scope_chart_keys checkedKeys lay =
     fold (add_chart_of_layer lay) (filter (str_includes ''-layer-'') checkedKeys)
       (filter (\<lambda>key. is_chart lay key \<or> \<not> str_includes ''-layer-'' key) checkedKeys)"

text \<open>The shown parents of an item, from the root of the dashboard on.\<close>

definition visible_parents :: "components \<Rightarrow> string \<Rightarrow> string list res" where
  "visible_parents lay key =
     (let parents = ''ROOT_ID'' # or_empty (pars lay key)
      in rbind (rmap (shown_at lay) parents) (\<lambda>bs. Inr (map fst (filter snd (zip parents bs)))))"

definition scope_root_path :: "string list list \<Rightarrow> string list" where
  "scope_root_path checkedItemParents =
     (case sort_key length checkedItemParents of
        [] \<Rightarrow> []
      | p # ps \<Rightarrow> map (\<lambda>parents. id_at parents (int (length p) - 1)) (p # ps))"

text \<open>
  The excluded charts by their ids. A chart without a chart id would add an undefined entry, which no
  chart id equals; it adds nothing here.
\<close>

definition scope_excluded :: "string list \<Rightarrow> string list \<Rightarrow> components \<Rightarrow> int list" where
  "scope_excluded rpath chartKeys lay =
     List.map_filter (\<lambda>(key, value).
       if co_type value = ''CHART'' \<and>
          (case find (\<lambda>parent. parent \<in> set rpath \<and> key \<notin> set chartKeys) (''ROOT_ID'' # or_empty (co_parents value)) of
             None \<Rightarrow> False | Some parent \<Rightarrow> parent \<noteq> [])
       then chart_id value else None) lay"

definition findFilterScope :: "string list \<Rightarrow> components \<Rightarrow> NativeFilterScope res" where
  "findFilterScope checkedKeys lay =
     (if checkedKeys = [] then Inr \<lparr>rootPath = [], excluded = [], selectedLayers = None\<rparr>
      else
        let chartKeys = scope_chart_keys checkedKeys lay
        in rbind (rmap (visible_parents lay) (filter (is_chart lay) chartKeys)) (\<lambda>checkedItemParents.
             let rpath = scope_root_path checkedItemParents
             in Inr \<lparr>rootPath = nub rpath, excluded = scope_excluded rpath chartKeys lay, selectedLayers = None\<rparr>))"

definition getDefaultScopeValue :: "int option \<Rightarrow> int list \<Rightarrow> NativeFilterScope" where
  "getDefaultScopeValue chartId initiallyExcludedCharts =
     \<lparr>rootPath = [''ROOT_ID''],
      excluded = (case chartId of
          Some n \<Rightarrow> if n = 0 then initiallyExcludedCharts else n # initiallyExcludedCharts
        | None \<Rightarrow> initiallyExcludedCharts),
      selectedLayers = None\<rparr>"

section \<open>Checking nodes\<close>

definition separateKeys :: "string list \<Rightarrow> string list \<times> string list" where
  "separateKeys checkedKeys =
     (filter (str_includes ''-layer-'') checkedKeys, filter (\<lambda>k. \<not> str_includes ''-layer-'' k) checkedKeys)"

definition updateScopeWithParentCharts ::
  "NativeFilterScope \<Rightarrow> int list \<Rightarrow> string list \<Rightarrow> components \<Rightarrow> NativeFilterScope res" where
  "updateScopeWithParentCharts scope parentChartIds nonLayerKeys lay =
     rfold (\<lambda>chartId updatedScope.
       case layout_key_of lay chartId of
         None \<Rightarrow> Inr updatedScope
       | Some key \<Rightarrow>
           if key = [] then Inr updatedScope
           else rbind (findFilterScope (nonLayerKeys @ [key]) lay) (\<lambda>tempScope.
             Inr (updatedScope\<lparr>rootPath := rootPath tempScope, excluded := excluded tempScope\<rparr>)))
       parentChartIds scope"

definition createFormValues :: "NativeFilterScope \<Rightarrow> string list \<Rightarrow> int option \<Rightarrow> NativeFilterScope" where
  "createFormValues scope layerKeys chartId =
     (let finalScope = (case chartId of
          None \<Rightarrow> scope
        | Some n \<Rightarrow> scope\<lparr>excluded := nub (excluded scope @ [n])\<rparr>)
      in if layerKeys \<noteq> [] then finalScope\<lparr>selectedLayers := Some layerKeys\<rparr> else finalScope)"

definition handleCheck :: "int option \<Rightarrow> components \<Rightarrow> string list \<Rightarrow> NativeFilterScope res" where
  "handleCheck chartId lay checkedKeys =
     (let (layerKeys, nonLayerKeys) = separateKeys checkedKeys
      in rbind (findFilterScope nonLayerKeys lay) (\<lambda>scope.
         rbind (updateScopeWithParentCharts scope (extractParentChartIds layerKeys) nonLayerKeys lay) (\<lambda>updatedScope.
         Inr (createFormValues updatedScope layerKeys chartId))))"

end
