(* ===== verification/LegacyScopes.thy ===== *)
theory LegacyScopes
  imports FilterScopeTree
begin

text \<open>
  The filter scopes of the dashboard filters that precede native filters:
  \<open>dashboard/util/activeDashboardFilters.js\<close> with its module-level caches, the reducer
  \<open>dashboard/reducers/dashboardFilters.js\<close>, the scope trees of \<open>dashboard/util\<close> and the
  state of \<open>dashboard/components/filterscope/FilterScopeSelector.jsx\<close>. The conversion to lower case
  and \<open>safeStringify\<close> of a list of strings are fields of the environment. A node without the fields of a
  node, the result of spreading a layout without a root, is \<open>None\<close>.
\<close>

section \<open>Filter keys\<close>

definition getDashboardFilterKey :: "int \<Rightarrow> string \<Rightarrow> string" where
  "getDashboardFilterKey chartId column = show_int chartId @ ''_'' @ column"

definition line_end :: "char \<Rightarrow> bool" where
  "line_end c \<longleftrightarrow> (of_char c :: nat) \<in> {10, 13}"

text \<open>\<open>/^([0-9]+)_(.*)$/\<close>, whose second group does not cross a line.\<close>

definition getChartIdAndColumnFromFilterKey :: "string \<Rightarrow> (int \<times> string) res" where
  "getChartIdAndColumnFromFilterKey key =
     (let (ds, r) = span_digits key
      in if ds \<noteq> [] \<and> prefix ''_'' r \<and> \<not> list_ex line_end (tl r) then Inr (digits_int ds, tl r)
         else Inl InvalidFilterKey)"

section \<open>Scopes and active filters\<close>

record filter_scope =
  fs_scope :: "string list"
  fs_immune :: "int list"

definition DASHBOARD_FILTER_SCOPE_GLOBAL :: filter_scope where
  "DASHBOARD_FILTER_SCOPE_GLOBAL = \<lparr>fs_scope = [''ROOT_ID''], fs_immune = []\<rparr>"

text \<open>
  A dashboard filter; the fields that no function reads or changes are one object. A path that is
  set for a filter that does not exist makes an entry with the path only, \<open>blank_filter\<close>.
\<close>

record dashboard_filter =
  df_chartId :: "int option"
  df_filterName :: jsval
  df_directPathToFilter :: "string list"
  df_columns :: "jsval obj option"
  df_labels :: "string obj"
  df_scopes :: "filter_scope obj option"
  df_other :: "jsval obj"

definition blank_filter :: dashboard_filter where
  "blank_filter = \<lparr>df_chartId = None, df_filterName = JUndef, df_directPathToFilter = [], df_columns = None,
     df_labels = [], df_scopes = None, df_other = []\<rparr>"

record legacy_filter =
  lf_values :: jsval
  lf_scope :: "int list"

record active_module =
  am_activeFilters :: "legacy_filter obj"
  am_applied :: "(jsval obj) obj"
  am_allComponents :: components

text \<open>\<open>traverse\<close> of the deprecated \<open>getChartIdsInFilterScope\<close>.\<close>

fun scope_charts :: "nat \<Rightarrow> components \<Rightarrow> int list \<Rightarrow> string \<Rightarrow> int list \<Rightarrow> int list res" where
  "scope_charts 0 comps immune child chartIds = Inl StackOverflow"
| "scope_charts (Suc n) comps immune child chartIds =
     (case map_of comps child of
        None \<Rightarrow> Inr chartIds
      | Some c \<Rightarrow>
          (case chart_id c of
             Some m \<Rightarrow>
               if co_type c = ''CHART'' \<and> m \<noteq> 0 \<and> m \<notin> set immune then Inr (chartIds @ [m])
               else rfold (scope_charts n comps immune) (co_children c) chartIds
           | None \<Rightarrow> rfold (scope_charts n comps immune) (co_children c) chartIds))"

definition chartIdsInFilterScope :: "nat \<Rightarrow> components \<Rightarrow> filter_scope option \<Rightarrow> int list res" where
  "chartIdsInFilterScope n comps filterScope =
     (let sc = (case filterScope of Some s \<Rightarrow> s | None \<Rightarrow> DASHBOARD_FILTER_SCOPE_GLOBAL)
      in rfold (scope_charts n comps (fs_immune sc)) (fs_scope sc) [])"

definition has_values :: "jsval \<Rightarrow> bool" where
  "has_values v = (case v of JArr vs \<Rightarrow> vs \<noteq> [] | _ \<Rightarrow> v \<noteq> JUndef)"

definition filter_key_of :: "dashboard_filter \<Rightarrow> string \<Rightarrow> string" where
  "filter_key_of filt column = (case df_chartId filt of
       Some n \<Rightarrow> getDashboardFilterKey n column | None \<Rightarrow> ''undefined_'' @ column)"

definition nonEmptyFilters :: "nat \<Rightarrow> components \<Rightarrow> dashboard_filter \<Rightarrow> legacy_filter obj res" where
  "nonEmptyFilters n comps filt =
     (case df_columns filt of
        None \<Rightarrow> Inl TypeError
      | Some columns \<Rightarrow>
          rfold (\<lambda>(column, v) acc.
            if has_values v then
              (case df_scopes filt of
                 None \<Rightarrow> Inl TypeError
               | Some scopes \<Rightarrow>
                   rbind (chartIdsInFilterScope n comps (map_of scopes column)) (\<lambda>ids.
                     Inr (obj_put (filter_key_of filt column)
                            \<lparr>lf_values = v, lf_scope = filter (\<lambda>i. df_chartId filt \<noteq> Some i) ids\<rparr> acc)))
            else Inr acc) columns [])"

definition buildActiveFilters :: "nat \<Rightarrow> dashboard_filter obj \<Rightarrow> components \<Rightarrow> active_module \<Rightarrow> active_module res" where
  "buildActiveFilters n dashboardFilters comps md =
     (let all = (if comps \<noteq> [] then comps else am_allComponents md)
      in rbind (rfold (\<lambda>(_, filt) result. rbind (nonEmptyFilters n all filt) (\<lambda>ne. Inr (obj_assign result ne))) dashboardFilters [])
           (\<lambda>active. Inr \<lparr>am_activeFilters = active, am_applied = [], am_allComponents = all\<rparr>))"

definition applied_values :: "int \<Rightarrow> legacy_filter obj \<Rightarrow> jsval obj res" where
  "applied_values chartId filters =
     rfold (\<lambda>(filterKey, f) acc.
       rbind (getChartIdAndColumnFromFilterKey filterKey) (\<lambda>(_, column). Inr (obj_put column (lf_values f) acc)))
       (filter (\<lambda>(_, f). chartId \<in> set (lf_scope f)) filters) []"

text \<open>\<open>getAppliedFilterValues\<close>: the values are cached by chart, whatever filters are passed.\<close>

definition getAppliedFilterValues ::
  "int \<Rightarrow> legacy_filter obj option \<Rightarrow> active_module \<Rightarrow> (jsval obj \<times> active_module) res" where
  "getAppliedFilterValues chartId filters md =
     (case map_of (am_applied md) (show_int chartId) of
        Some vs \<Rightarrow> Inr (vs, md)
      | None \<Rightarrow>
          rbind (applied_values chartId (case filters of Some fs \<Rightarrow> fs | None \<Rightarrow> am_activeFilters md)) (\<lambda>vs.
            Inr (vs, md\<lparr>am_applied := obj_put (show_int chartId) vs (am_applied md)\<rparr>)))"

section \<open>The reducer\<close>

datatype filters_action =
    ChangeFilter int "jsval obj" bool
  | UpdateDirectPathToFilter int "string list"
  | UpdateLayoutComponents components
  | UpdateDashboardFiltersScope "filter_scope obj"
  | HydrateDashboardFilters "dashboard_filter obj"
  | OtherFiltersAction

text \<open>\<open>[...a, ...b]\<close>: an array, or a string, can be spread.\<close>

definition spreads :: "jsval \<Rightarrow> jsval list res" where
  "spreads v = (case v of
       JArr xs \<Rightarrow> Inr xs
     | JStr s \<Rightarrow> Inr (map (\<lambda>c. JStr [c]) s)
     | _ \<Rightarrow> Inl TypeError)"

definition change_columns :: "jsval obj \<Rightarrow> bool \<Rightarrow> jsval obj \<Rightarrow> jsval obj res" where
  "change_columns newSelectedValues merge columns =
     rfold (\<lambda>(name, v) cols.
       case map_of cols name of
         Some old \<Rightarrow>
           if \<not> merge then Inr (obj_put name v cols)
           else rbind (spreads old) (\<lambda>xs. rbind (spreads v) (\<lambda>ys. Inr (obj_put name (JArr (xs @ ys)) cols)))
       | None \<Rightarrow> Inr (obj_put name v cols)) newSelectedValues columns"

definition set_scope :: "string \<Rightarrow> filter_scope \<Rightarrow> dashboard_filter obj \<Rightarrow> dashboard_filter obj res" where
  "set_scope filterKey sc fmap =
     rbind (getChartIdAndColumnFromFilterKey filterKey) (\<lambda>(chartId, column).
       case map_of fmap (show_int chartId) of
         None \<Rightarrow> Inl TypeError
       | Some f \<Rightarrow> Inr (obj_put (show_int chartId)
           (f\<lparr>df_scopes := Some (obj_put column sc (case df_scopes f of Some ss \<Rightarrow> ss | None \<Rightarrow> []))\<rparr>) fmap))"

definition dashboardFiltersReducer ::
  "nat \<Rightarrow> dashboard_filter obj \<times> active_module \<Rightarrow> filters_action \<Rightarrow> (dashboard_filter obj \<times> active_module) res" where
  "dashboardFiltersReducer n st action = (case st of (dashboardFilters, md) \<Rightarrow>
     (case action of
        UpdateLayoutComponents comps \<Rightarrow>
          rbind (buildActiveFilters n dashboardFilters comps md) (\<lambda>md. Inr (dashboardFilters, md))
      | UpdateDashboardFiltersScope scopes \<Rightarrow>
          rbind (rfold (\<lambda>(key, sc). set_scope key sc) scopes dashboardFilters) (\<lambda>updated.
          rbind (buildActiveFilters n updated [] md) (\<lambda>md. Inr (updated, md)))
      | HydrateDashboardFilters fs \<Rightarrow> Inr (fs, md)
      | ChangeFilter chartId newSelectedValues merge \<Rightarrow>
          (case map_of dashboardFilters (show_int chartId) of
             None \<Rightarrow> Inl TypeError
           | Some f \<Rightarrow>
               rbind (change_columns newSelectedValues merge (case df_columns f of Some cs \<Rightarrow> cs | None \<Rightarrow> [])) (\<lambda>cols.
               let updated = obj_put (show_int chartId) (f\<lparr>df_columns := Some cols\<rparr>) dashboardFilters
               in rbind (buildActiveFilters n updated [] md) (\<lambda>md. Inr (updated, md))))
      | UpdateDirectPathToFilter chartId path \<Rightarrow>
          (let f = (case map_of dashboardFilters (show_int chartId) of Some f \<Rightarrow> f | None \<Rightarrow> blank_filter)
           in Inr (obj_put (show_int chartId) (f\<lparr>df_directPathToFilter := path\<rparr>) dashboardFilters, md))
      | OtherFiltersAction \<Rightarrow> Inr (dashboardFilters, md)))"

section \<open>The tree of a layout\<close>

datatype scope_node =
    ChartNode int string bool
  | TabNode string string string "scope_node list"

definition label_or :: "jsval \<Rightarrow> string \<Rightarrow> string" where
  "label_or v d = (case v of JStr s \<Rightarrow> if s = [] then d else s | _ \<Rightarrow> d)"

definition is_container :: "string \<Rightarrow> bool" where
  "is_container ty \<longleftrightarrow> ty = ''TAB'' \<or> ty = ''ROOT''"

text \<open>
  \<open>traverse\<close> of \<open>getFilterScopeNodesTree\<close>: a node for a chart, a tab or the root, the list of the
  nodes below for any other component. The type of a child that is not in the layout cannot be
  read.
\<close>

definition node_chart_id :: "component \<Rightarrow> int option" where
  "node_chart_id node =
     (case chart_id node of
        Some m \<Rightarrow> if co_type node = ''CHART'' \<and> m \<noteq> 0 then Some m else None
      | None \<Rightarrow> None)"

definition chart_node :: "component \<Rightarrow> int \<Rightarrow> int option \<Rightarrow> scope_node" where
  "chart_node node m selectedChartId =
     ChartNode m (label_or (meta_at node ''sliceName'') (co_type node @ '' '' @ show_int m)) (selectedChartId \<noteq> Some m)"

definition container_node :: "(string \<Rightarrow> string) \<Rightarrow> component \<Rightarrow> scope_node list \<Rightarrow> scope_node + scope_node list" where
  "container_node t node children =
     (if is_container (co_type node) then
        Inl (TabNode (co_id node)
          (if co_type node = ''ROOT'' then t ''All charts''
           else label_or (meta_at node ''text'') (co_type node @ '' '' @ co_id node))
          (co_type node) children)
      else Inr children)"

definition as_nodes :: "scope_node + scope_node list \<Rightarrow> scope_node list" where
  "as_nodes r = (case r of Inl x \<Rightarrow> [x] | Inr xs \<Rightarrow> xs)"

fun nodes_below :: "nat \<Rightarrow> (string \<Rightarrow> string) \<Rightarrow> components \<Rightarrow> int option \<Rightarrow> component \<Rightarrow> (scope_node + scope_node list) res" where
  "nodes_below 0 t comps selectedChartId node = Inl StackOverflow"
| "nodes_below (Suc n) t comps selectedChartId node =
     (case node_chart_id node of
        Some m \<Rightarrow> Inr (Inl (chart_node node m selectedChartId))
      | None \<Rightarrow>
          rbind (rfold (\<lambda>child children.
              case map_of comps child of
                None \<Rightarrow> Inl TypeError
              | Some c \<Rightarrow> rbind (nodes_below n t comps selectedChartId c) (\<lambda>r. Inr (children @ as_nodes r)))
            (co_children node) [])
          (\<lambda>children. Inr (container_node t node children)))"

definition getFilterScopeNodesTree ::
  "nat \<Rightarrow> (string \<Rightarrow> string) \<Rightarrow> components \<Rightarrow> int option \<Rightarrow> scope_node option list res" where
  "getFilterScopeNodesTree n t comps selectedChartId =
     (if comps = [] then Inr []
      else case map_of comps ''ROOT_ID'' of
             None \<Rightarrow> Inr [None]
           | Some r \<Rightarrow>
               rbind (nodes_below n t comps selectedChartId r) (\<lambda>res.
                 Inr [case res of Inl x \<Rightarrow> Some x | Inr _ \<Rightarrow> None]))"

fun node_value :: "scope_node \<Rightarrow> jsval" where
  "node_value (ChartNode m _ _) = JNum (num_of_int m)"
| "node_value (TabNode v _ _ _) = JStr v"

text \<open>\<open>getFilterScopeParentNodes\<close>; \<open>None\<close> is the depth limit -1.\<close>

fun parent_nodes :: "nat option \<Rightarrow> nat \<Rightarrow> scope_node \<Rightarrow> jsval list" where
  "parent_nodes limit depth (ChartNode m l b) =
     (case limit of Some k \<Rightarrow> if depth < k then [JNum (num_of_int m)] else [] | None \<Rightarrow> [JNum (num_of_int m)])"
| "parent_nodes limit depth (TabNode v l ty children) =
     (if (case limit of Some k \<Rightarrow> depth < k | None \<Rightarrow> True)
      then JStr v # concat (map (parent_nodes limit (Suc depth)) children) else [])"

definition getFilterScopeParentNodes :: "scope_node option list \<Rightarrow> nat option \<Rightarrow> jsval list" where
  "getFilterScopeParentNodes nodes limit =
     concat (map (\<lambda>x. case x of Some nd \<Rightarrow> parent_nodes limit 0 nd | None \<Rightarrow> []) nodes)"

section \<open>The scope of the checked charts\<close>

definition chart_children :: "scope_node list \<Rightarrow> int list" where
  "chart_children nodes = List.map_filter (\<lambda>x. case x of ChartNode m _ _ \<Rightarrow> Some m | TabNode _ _ _ _ \<Rightarrow> None) nodes"

fun is_tab :: "scope_node \<Rightarrow> bool" where
  "is_tab (ChartNode _ _ _) = False"
| "is_tab (TabNode _ _ ty _) = (ty = ''TAB'')"

fun tab_value :: "scope_node \<Rightarrow> string" where
  "tab_value (ChartNode m _ _) = show_int m"
| "tab_value (TabNode v _ _ _) = v"

fun immune_below :: "string list \<Rightarrow> scope_node \<Rightarrow> int list" where
  "immune_below tabsInScope (ChartNode _ _ _) = []"
| "immune_below tabsInScope (TabNode v _ _ children) =
     (if v \<notin> set tabsInScope then
        concat (map (\<lambda>x. case x of
          TabNode w _ _ subTabChildren \<Rightarrow> if w \<notin> set tabsInScope then chart_children subTabChildren else []
        | ChartNode _ _ _ \<Rightarrow> []) children)
      else [])"

definition getImmuneChartIdsFromTabsNotInScope :: "scope_node list \<Rightarrow> string list \<Rightarrow> int list" where
  "getImmuneChartIdsFromTabsNotInScope tabs tabsInScope = concat (map (immune_below tabsInScope) tabs)"

definition getTabChildrenScope ::
  "filter_scope obj \<Rightarrow> string \<Rightarrow> bool \<Rightarrow> bool \<Rightarrow> scope_node list \<Rightarrow> int list \<Rightarrow> filter_scope" where
  "getTabChildrenScope tabScopes parentNodeValue forceAggregate hasChartSiblings tabChildren immuneChartSiblings =
     (if forceAggregate \<or>
         (\<not> hasChartSiblings \<and> list_all (\<lambda>(key, s). fs_scope s \<noteq> [] \<and> key = hd (fs_scope s)) tabScopes) then
        \<lparr>fs_scope = [parentNodeValue],
         fs_immune = nub (getImmuneChartIdsFromTabsNotInScope tabChildren (concat (map (fs_scope \<circ> snd) tabScopes)) @
           concat (map (fs_immune \<circ> snd) tabScopes))\<rparr>
      else
        let componentsInScope = filter (\<lambda>s. fs_scope s \<noteq> []) (map snd tabScopes)
        in \<lparr>fs_scope = concat (map fs_scope componentsInScope),
            fs_immune =
              (if componentsInScope \<noteq> [] then concat (map fs_immune componentsInScope)
               else concat (map (fs_immune \<circ> snd) tabScopes) @ immuneChartSiblings)\<rparr>)"

definition is_checked :: "jsval list \<Rightarrow> int \<Rightarrow> bool" where
  "is_checked checkedChartIds m \<longleftrightarrow> JNum (num_of_int m) \<in> set checkedChartIds"

text \<open>The scope of one node from the scopes of its tabs: the body of \<open>traverse\<close>.\<close>

definition node_scope :: "int \<Rightarrow> jsval list \<Rightarrow> string \<Rightarrow> scope_node list \<Rightarrow> filter_scope obj \<Rightarrow> filter_scope" where
  "node_scope filterId checkedChartIds currentValue children tabScopes =
     (let chartChildren = chart_children children;
          tabChildren = filter is_tab children;
          chartsImmune = filter (\<lambda>m. filterId \<noteq> m \<and> \<not> is_checked checkedChartIds m) chartChildren
      in if list_ex (is_checked checkedChartIds) chartChildren then
           if tabChildren = [] then \<lparr>fs_scope = [currentValue], fs_immune = chartsImmune\<rparr>
           else let s = getTabChildrenScope tabScopes currentValue True False tabChildren []
                in s\<lparr>fs_immune := chartsImmune @ fs_immune s\<rparr>
         else if tabChildren \<noteq> [] then
           getTabChildrenScope tabScopes currentValue False (chartChildren \<noteq> []) tabChildren chartsImmune
         else \<lparr>fs_scope = [], fs_immune = chartsImmune\<rparr>)"

fun scope_of_node :: "int \<Rightarrow> jsval list \<Rightarrow> scope_node \<Rightarrow> filter_scope" where
  "scope_of_node filterId checkedChartIds (ChartNode m l b) = \<lparr>fs_scope = [], fs_immune = []\<rparr>"
| "scope_of_node filterId checkedChartIds (TabNode v l ty children) =
     node_scope filterId checkedChartIds v children
       (fold (\<lambda>(key, s). obj_put key s)
          (map (\<lambda>child. (tab_value child, scope_of_node filterId checkedChartIds child)) (filter is_tab children)) [])"

definition getFilterScopeFromNodesTree ::
  "string \<Rightarrow> scope_node option list \<Rightarrow> jsval list \<Rightarrow> filter_scope option res" where
  "getFilterScopeFromNodesTree filterKey nodes checkedChartIds =
     (case nodes of
        [] \<Rightarrow> Inr None
      | x # _ \<Rightarrow>
          rbind (getChartIdAndColumnFromFilterKey filterKey) (\<lambda>(chartId, _).
            case x of
              None \<Rightarrow> Inl TypeError
            | Some nd \<Rightarrow> Inr (Some (scope_of_node chartId checkedChartIds nd))))"

section \<open>The scope selector\<close>

text \<open>
  An entry of \<open>filterScopeMap\<close>. A missing entry spreads to nothing: its nodes are then undefined
  and its checked and expanded values count as none.
\<close>

record scope_entry =
  sm_nodes :: "scope_node option list option"
  sm_nodesFiltered :: "scope_node option list option"
  sm_checked :: "jsval list"
  sm_expanded :: "jsval list"

definition spread_entry :: "string \<Rightarrow> scope_entry obj \<Rightarrow> scope_entry" where
  "spread_entry key filterScopeMap =
     (case map_of filterScopeMap key of
        Some e \<Rightarrow> e
      | None \<Rightarrow> \<lparr>sm_nodes = None, sm_nodesFiltered = None, sm_checked = [], sm_expanded = []\<rparr>)"

record filter_field_node =
  ff_value :: "int option"
  ff_label :: jsval
  ff_children :: "(string \<times> string) list"

record selector_env =
  sv_t :: "string \<Rightarrow> string"
  sv_lower :: "string \<Rightarrow> string"
  sv_stringify :: "string list \<Rightarrow> string"
  sv_depth :: nat
  sv_layout :: components
  sv_allComponents :: components
  sv_dashboardFilters :: "dashboard_filter obj"

record selector =
  ss_allfilterFields :: "string list"
  ss_activeFilterField :: "string option"
  ss_searchText :: string
  ss_filterScopeMap :: "scope_entry obj"
  ss_filterFieldNodes :: "filter_field_node list"
  ss_checkedFilterFields :: "string list"
  ss_expandedFilterIds :: "jsval list"

definition field_node :: "dashboard_filter \<Rightarrow> filter_field_node res" where
  "field_node filt =
     (case df_columns filt of
        None \<Rightarrow> Inl TypeError
      | Some columns \<Rightarrow>
          Inr \<lparr>ff_value = df_chartId filt, ff_label = df_filterName filt,
               ff_children = map (\<lambda>(column, _). (filter_key_of filt column, nonempty_or (map_of (df_labels filt) column) column)) columns\<rparr>)"

text \<open>The children of the node \<open>All filters\<close>.\<close>

definition getFilterFieldNodesTree :: "dashboard_filter obj \<Rightarrow> filter_field_node list res" where
  "getFilterFieldNodesTree dashboardFilters = rmap (field_node \<circ> snd) dashboardFilters"

definition editing_list :: "string option \<Rightarrow> string list \<Rightarrow> string list" where
  "editing_list activeFilterField checkedFilterFields =
     (case activeFilterField of
        Some f \<Rightarrow> if f = [] then checkedFilterFields else [f]
      | None \<Rightarrow> checkedFilterFields)"

definition getKeyForFilterScopeTree :: "selector_env \<Rightarrow> string option \<Rightarrow> string list \<Rightarrow> string" where
  "getKeyForFilterScopeTree env activeFilterField checkedFilterFields =
     sv_stringify env (editing_list activeFilterField checkedFilterFields)"

fun some_other_chart :: "int \<Rightarrow> string list \<Rightarrow> bool res" where
  "some_other_chart chartId [] = Inr False"
| "some_other_chart chartId (f # fs) =
     rbind (getChartIdAndColumnFromFilterKey f) (\<lambda>(n, _). if n \<noteq> chartId then Inr True else some_other_chart chartId fs)"

definition getSelectedChartIdForFilterScopeTree :: "string option \<Rightarrow> string list \<Rightarrow> int option res" where
  "getSelectedChartIdForFilterScopeTree activeFilterField checkedFilterFields =
     (case activeFilterField of
        Some (c # s) \<Rightarrow> rbind (getChartIdAndColumnFromFilterKey (c # s)) (\<lambda>(n, _). Inr (Some n))
      | _ \<Rightarrow>
          (case checkedFilterFields of
             [] \<Rightarrow> Inr None
           | f # fs \<Rightarrow>
               rbind (getChartIdAndColumnFromFilterKey f) (\<lambda>(n, _).
               rbind (some_other_chart n (f # fs)) (\<lambda>other. Inr (if other then None else Some n)))))"

definition field_checks :: "scope_entry obj \<Rightarrow> string \<Rightarrow> string list res" where
  "field_checks filterScopeMap filterField =
     (case map_of filterScopeMap filterField of
        None \<Rightarrow> Inl TypeError
      | Some e \<Rightarrow> Inr (map (\<lambda>c. to_str c @ '':'' @ filterField) (sm_checked e)))"

definition buildFilterScopeTreeEntry ::
  "selector_env \<Rightarrow> string list \<Rightarrow> string option \<Rightarrow> scope_entry obj \<Rightarrow> (string \<times> scope_entry) res" where
  "buildFilterScopeTreeEntry env checkedFilterFields activeFilterField filterScopeMap =
     (let key = getKeyForFilterScopeTree env activeFilterField checkedFilterFields
      in rbind (getSelectedChartIdForFilterScopeTree activeFilterField checkedFilterFields) (\<lambda>selectedChartId.
         rbind (getFilterScopeNodesTree (sv_depth env) (sv_t env) (sv_layout env) selectedChartId) (\<lambda>nodes.
         rbind (rmap (field_checks filterScopeMap) (editing_list activeFilterField checkedFilterFields)) (\<lambda>checks.
           Inr (key, \<lparr>sm_nodes = Some nodes, sm_nodesFiltered = Some nodes,
             sm_checked = map JStr (nub (concat checks)),
             sm_expanded = (case map_of filterScopeMap key of
                 Some e \<Rightarrow> sm_expanded e | None \<Rightarrow> getFilterScopeParentNodes nodes (Some 1))\<rparr>)))))"

text \<open>\<open>const [chartId, filterField] = value.split(':')\<close>; a value without a colon gives an undefined field.\<close>

definition split_check :: "jsval \<Rightarrow> (string \<times> string) res" where
  "split_check v =
     (case v of
        JStr s \<Rightarrow>
          Inr (case str_split '':'' s of
              a # b # _ \<Rightarrow> (a, b)
            | [a] \<Rightarrow> (a, ''undefined'')
            | [] \<Rightarrow> ([], ''undefined''))
      | _ \<Rightarrow> Inl TypeError)"

definition checks_by_field :: "jsval list \<Rightarrow> (jsval list) obj res" where
  "checks_by_field checked =
     rfold (\<lambda>v acc. rbind (split_check v) (\<lambda>(chartId, filterField).
       Inr (obj_put filterField
         ((case map_of acc filterField of Some xs \<Rightarrow> xs | None \<Rightarrow> []) @ [JNum (parseInt10 chartId)]) acc))) checked []"

definition getRevertedFilterScope :: "jsval list \<Rightarrow> string list \<Rightarrow> scope_entry obj \<Rightarrow> scope_entry obj res" where
  "getRevertedFilterScope checked filterFields filterScopeMap =
     rbind (checks_by_field checked) (\<lambda>by_field.
       Inr (fold (\<lambda>f. obj_put f ((spread_entry f filterScopeMap)
         \<lparr>sm_checked := (case map_of by_field f of Some xs \<Rightarrow> xs | None \<Rightarrow> [])\<rparr>)) filterFields []))"

definition initial_entry :: "selector_env \<Rightarrow> dashboard_filter \<Rightarrow> string \<Rightarrow> scope_entry res" where
  "initial_entry env filt columnName =
     rbind (getFilterScopeNodesTree (sv_depth env) (sv_t env) (sv_layout env) (df_chartId filt)) (\<lambda>nodes.
       case df_scopes filt of
         None \<Rightarrow> Inl TypeError
       | Some scopes \<Rightarrow>
           rbind (chartIdsInFilterScope (sv_depth env) (sv_allComponents env) (map_of scopes columnName)) (\<lambda>ids.
             Inr \<lparr>sm_nodes = Some nodes, sm_nodesFiltered = Some nodes,
                  sm_checked = map (\<lambda>n. JNum (num_of_int n)) (filter (\<lambda>n. df_chartId filt \<noteq> Some n) ids),
                  sm_expanded = getFilterScopeParentNodes nodes (Some 1)\<rparr>))"

definition filter_entries :: "selector_env \<Rightarrow> dashboard_filter \<Rightarrow> scope_entry obj res" where
  "filter_entries env filt =
     (case df_columns filt of
        None \<Rightarrow> Inl TypeError
      | Some columns \<Rightarrow>
          rfold (\<lambda>(columnName, _) acc. rbind (initial_entry env filt columnName) (\<lambda>e.
            Inr (obj_put (filter_key_of filt columnName) e acc))) columns [])"

text \<open>The constructor; \<open>None\<close> when there is no filter and the selector is not shown.\<close>

definition newFilterScopeSelector :: "selector_env \<Rightarrow> selector option res" where
  "newFilterScopeSelector env =
     (if sv_dashboardFilters env = [] then Inr None
      else
        rbind (getFilterFieldNodesTree (sv_dashboardFilters env)) (\<lambda>filtersNodes.
        case ff_children (hd filtersNodes) of
          [] \<Rightarrow> Inl TypeError
        | (defaultFilterKey, _) # _ \<Rightarrow>
            rbind (rfold (\<lambda>(_, filt) acc. rbind (filter_entries env filt) (\<lambda>es. Inr (obj_assign acc es)))
                     (sv_dashboardFilters env) []) (\<lambda>filterScopeMap.
            rbind (getChartIdAndColumnFromFilterKey defaultFilterKey) (\<lambda>(chartId, _).
            rbind (buildFilterScopeTreeEntry env [] (Some defaultFilterKey) filterScopeMap) (\<lambda>(key, entry).
              Inr (Some \<lparr>ss_allfilterFields = map fst (concat (map ff_children filtersNodes)),
                ss_activeFilterField = Some defaultFilterKey, ss_searchText = [],
                ss_filterScopeMap = obj_put key entry filterScopeMap, ss_filterFieldNodes = filtersNodes,
                ss_checkedFilterFields = [],
                ss_expandedFilterIds = [JStr ''ALL_FILTERS_ROOT'', JNum (num_of_int chartId)]\<rparr>))))))"

definition onCheckFilterScope :: "selector_env \<Rightarrow> jsval list \<Rightarrow> selector \<Rightarrow> selector res" where
  "onCheckFilterScope env checked st =
     (let m = ss_filterScopeMap st;
          key = getKeyForFilterScopeTree env (ss_activeFilterField st) (ss_checkedFilterFields st)
      in rbind (getRevertedFilterScope checked (editing_list (ss_activeFilterField st) (ss_checkedFilterFields st)) m) (\<lambda>updated.
           Inr (st\<lparr>ss_filterScopeMap := obj_put key ((spread_entry key m)\<lparr>sm_checked := checked\<rparr>) (obj_assign m updated)\<rparr>)))"

definition onExpandFilterScope :: "selector_env \<Rightarrow> jsval list \<Rightarrow> selector \<Rightarrow> selector" where
  "onExpandFilterScope env expanded st =
     (let m = ss_filterScopeMap st;
          key = getKeyForFilterScopeTree env (ss_activeFilterField st) (ss_checkedFilterFields st)
      in st\<lparr>ss_filterScopeMap := obj_put key ((spread_entry key m)\<lparr>sm_expanded := expanded\<rparr>) m\<rparr>)"

definition select_fields :: "selector_env \<Rightarrow> string list \<Rightarrow> string option \<Rightarrow> selector \<Rightarrow> selector res" where
  "select_fields env checkedFilterFields active st =
     rbind (buildFilterScopeTreeEntry env checkedFilterFields active (ss_filterScopeMap st)) (\<lambda>(key, entry).
       Inr (st\<lparr>ss_activeFilterField := active, ss_checkedFilterFields := checkedFilterFields,
              ss_filterScopeMap := obj_put key entry (ss_filterScopeMap st)\<rparr>))"

definition onCheckFilterField :: "selector_env \<Rightarrow> string list \<Rightarrow> selector \<Rightarrow> selector res" where
  "onCheckFilterField env checkedFilterFields st = select_fields env checkedFilterFields None st"

definition onExpandFilterField :: "jsval list \<Rightarrow> selector \<Rightarrow> selector" where
  "onExpandFilterField expandedFilterIds st = st\<lparr>ss_expandedFilterIds := expandedFilterIds\<rparr>"

definition onChangeFilterField :: "selector_env \<Rightarrow> string \<Rightarrow> selector \<Rightarrow> selector res" where
  "onChangeFilterField env nextActiveFilterField st =
     (if ss_activeFilterField st = Some nextActiveFilterField then select_fields env (ss_checkedFilterFields st) None st
      else if nextActiveFilterField \<in> set (ss_allfilterFields st) then
        select_fields env (ss_checkedFilterFields st) (Some nextActiveFilterField) st
      else Inr st)"

fun filterNodes :: "(string \<Rightarrow> string) \<Rightarrow> string \<Rightarrow> scope_node \<Rightarrow> scope_node list" where
  "filterNodes lower searchText (ChartNode m l b) =
     (if str_includes (lower searchText) (lower l) then [ChartNode m l b] else [])"
| "filterNodes lower searchText (TabNode v l ty children) =
     (let children' = concat (map (filterNodes lower searchText) children)
      in if str_includes (lower searchText) (lower l) \<or> children' \<noteq> [] then [TabNode v l ty children'] else [])"

definition filter_root :: "(string \<Rightarrow> string) \<Rightarrow> string \<Rightarrow> scope_node option \<Rightarrow> scope_node option list res" where
  "filter_root lower searchText x =
     (case x of None \<Rightarrow> Inl TypeError | Some nd \<Rightarrow> Inr (map Some (filterNodes lower searchText nd)))"

definition filterTree :: "selector_env \<Rightarrow> selector \<Rightarrow> selector res" where
  "filterTree env st =
     (let m = ss_filterScopeMap st;
          key = getKeyForFilterScopeTree env (ss_activeFilterField st) (ss_checkedFilterFields st)
      in case map_of m key of
           None \<Rightarrow> Inl TypeError
         | Some e \<Rightarrow>
             if ss_searchText st = [] then
               Inr (st\<lparr>ss_filterScopeMap := obj_put key (e\<lparr>sm_nodesFiltered := sm_nodes e\<rparr>) m\<rparr>)
             else
               (case sm_nodes e of
                  None \<Rightarrow> Inl TypeError
                | Some nodes \<Rightarrow>
                    rbind (rmap (filter_root (sv_lower env) (ss_searchText st)) nodes) (\<lambda>fs.
                      Inr (st\<lparr>ss_filterScopeMap := obj_put key (e\<lparr>sm_nodesFiltered := Some (concat fs),
                        sm_expanded := getFilterScopeParentNodes (concat fs) None\<rparr>) m\<rparr>))))"

definition onSearchInputChange :: "selector_env \<Rightarrow> string \<Rightarrow> selector \<Rightarrow> selector res" where
  "onSearchInputChange env text st = filterTree env (st\<lparr>ss_searchText := text\<rparr>)"

text \<open>\<open>onSave\<close>: the scopes handed to \<open>updateDashboardFiltersScope\<close>; \<open>None\<close> is the empty object.\<close>

definition onSave :: "selector \<Rightarrow> filter_scope option obj res" where
  "onSave st =
     rfold (\<lambda>filterKey acc.
       case map_of (ss_filterScopeMap st) filterKey of
         None \<Rightarrow> Inl TypeError
       | Some e \<Rightarrow>
           rbind (getFilterScopeFromNodesTree filterKey (case sm_nodes e of Some ns \<Rightarrow> ns | None \<Rightarrow> []) (sm_checked e)) (\<lambda>s.
             Inr (obj_put filterKey s acc))) (ss_allfilterFields st) []"

end
