(* ===== verification/FilterScopeFacts.thy ===== *)
theory FilterScopeFacts
  imports FilterScopeTree
begin

text \<open>
  What the scoping tree promises on a layout whose parents lists are up to date: the scope of the
  checked nodes reaches exactly the checked charts, and the nodes read back from it are those
  that were checked.
\<close>

section \<open>Layouts with up-to-date parents lists\<close>

definition chart_at :: "components \<Rightarrow> string \<Rightarrow> int \<Rightarrow> bool" where
  "chart_at lay x n \<longleftrightarrow> (\<exists>c. map_of lay x = Some c \<and> co_type c = ''CHART'' \<and> chart_id c = Some n)"

definition root_ok :: "components \<Rightarrow> bool" where
  "root_ok lay \<longleftrightarrow>
     (\<exists>r. map_of lay ''ROOT_ID'' = Some r \<and> co_type r = ''ROOT'' \<and> or_empty (co_parents r) = []) \<and>
     paths_below lay ''ROOT_ID'' \<and>
     (\<forall>x. x \<notin> below (kids_of lay) ''ROOT_ID'' \<longrightarrow> or_empty (pars lay x) = [])"

definition charts_ok :: "components \<Rightarrow> bool" where
  "charts_ok lay \<longleftrightarrow>
     (\<forall>x c. map_of lay x = Some c \<longrightarrow> x \<noteq> [] \<and> \<not> str_includes ''-layer-'' x) \<and>
     (\<forall>x c. map_of lay x = Some c \<longrightarrow> co_type c = ''CHART'' \<longrightarrow>
        x \<in> below (kids_of lay) ''ROOT_ID'' \<and> co_children c = [] \<and> (\<exists>n. chart_id c = Some n \<and> n \<noteq> 0)) \<and>
     (\<forall>x y n. chart_at lay x n \<longrightarrow> chart_at lay y n \<longrightarrow> x = y)"

definition scope_layout :: "components \<Rightarrow> bool" where
  "scope_layout lay \<longleftrightarrow> layout_ok lay \<and> root_ok lay \<and> charts_ok lay"

lemma scope_layoutD:
  assumes "scope_layout lay"
  shows "layout_ok lay" "forest (kids_of lay)" "distinct (map fst lay)" "paths_below lay ''ROOT_ID''" "''ROOT_ID'' \<in> dom (map_of lay)"
    and "or_empty (pars lay ''ROOT_ID'') = []" "x \<notin> below (kids_of lay) ''ROOT_ID'' \<Longrightarrow> or_empty (pars lay x) = []"
    and "map_of lay x = Some c \<Longrightarrow> x \<noteq> []" "map_of lay x = Some c \<Longrightarrow> \<not> str_includes ''-layer-'' x"
    and "chart_at lay x n \<Longrightarrow> chart_at lay y n \<Longrightarrow> x = y"
  using assms by (auto simp: scope_layout_def layout_ok_def root_ok_def charts_ok_def pars_def obj_wf_def)

lemma chart_atD:
  assumes "scope_layout lay" and "chart_at lay x n"
  shows "x \<in> below (kids_of lay) ''ROOT_ID''" "n \<noteq> 0" "kids_of lay x = Some []" "is_chart lay x" "x \<noteq> ''ROOT_ID''"
proof -
  obtain c where c: "map_of lay x = Some c" "co_type c = ''CHART''" "chart_id c = Some n" using assms(2) by (auto simp: chart_at_def)
  with assms(1) have "x \<in> below (kids_of lay) ''ROOT_ID'' \<and> (\<exists>m. chart_id c = Some m \<and> m \<noteq> 0)"
    unfolding scope_layout_def charts_ok_def by blast
  then show "x \<in> below (kids_of lay) ''ROOT_ID''" "n \<noteq> 0" using c(3) by auto
  from c assms(1) have "co_children c = []" by (simp add: scope_layout_def charts_ok_def)
  then show "kids_of lay x = Some []" using c(1) by (simp add: kids_of_def)
  show "is_chart lay x" "x \<noteq> ''ROOT_ID''" using c assms(1) by (auto simp: is_chart_def scope_layout_def root_ok_def)
qed

lemma is_chart_at: "scope_layout lay \<Longrightarrow> is_chart lay x \<Longrightarrow> \<exists>n. chart_at lay x n"
proof -
  assume a: "scope_layout lay" "is_chart lay x"
  then obtain c where c: "map_of lay x = Some c" "co_type c = ''CHART''" by (auto simp: is_chart_def split: option.splits)
  with a(1) have "\<exists>n. chart_id c = Some n \<and> n \<noteq> 0" unfolding scope_layout_def charts_ok_def by blast
  then show ?thesis using c by (auto simp: chart_at_def)
qed

lemma root_below_dom: "scope_layout lay \<Longrightarrow> below (kids_of lay) ''ROOT_ID'' \<subseteq> dom (map_of lay)"
  using below_in_dom [of "kids_of lay" "''ROOT_ID''"] scope_layoutD(2,5) by auto

lemma parents_of_below:
  assumes "scope_layout lay" and "y \<in> below (kids_of lay) ''ROOT_ID''"
  shows "set (or_empty (pars lay y)) = {a. a \<in> below (kids_of lay) ''ROOT_ID'' \<and> y \<in> below (kids_of lay) a \<and> a \<noteq> y}"
  using paths_below_set [OF scope_layoutD(1,4,6) [OF assms(1)] assms(2)] .

lemma parents_in_dom: "scope_layout lay \<Longrightarrow> set (or_empty (pars lay y)) \<subseteq> dom (map_of lay)"
proof -
  assume a: "scope_layout lay"
  show ?thesis
  proof (cases "y \<in> below (kids_of lay) ''ROOT_ID''")
    case True
    then show ?thesis using parents_of_below [OF a True] root_below_dom [OF a] by blast
  qed (simp add: scope_layoutD(7) [OF a])
qed

lemma last_parent:
  assumes "scope_layout lay" and "pars lay y = Some ps" and "ps \<noteq> []"
  shows "child_of (kids_of lay) (last ps) y"
proof -
  have "y \<in> below (kids_of lay) ''ROOT_ID''" using scope_layoutD(7) [OF assms(1)] assms(2,3) by (fastforce simp: or_empty_def)
  moreover have "y \<noteq> ''ROOT_ID''" using scope_layoutD(6) [OF assms(1)] assms(2,3) by (auto simp: or_empty_def)
  ultimately obtain p where "p \<in> below (kids_of lay) ''ROOT_ID''" "child_of (kids_of lay) p y"
    by (metis below_def mem_Collect_eq rtranclp.cases)
  then show ?thesis using scope_layoutD(4) [OF assms(1)] assms(2) unfolding paths_below_def by fastforce
qed

text \<open>The item of a chart is found by its chart id.\<close>

lemma in_root_path_chart:
  assumes "scope_layout lay"
  shows "in_root_path rp (map snd (items lay)) n \<longleftrightarrow>
    (\<exists>x. chart_at lay x n \<and> (\<exists>p\<in>set rp. p \<in> set (or_empty (pars lay x))))"
proof -
  let ?P = "\<lambda>i. li_type i = ''CHART'' \<and> li_chartId i = Some n"
  have mem: "chart_at lay x n \<and> co_parents c = pars lay x" if "(x, c) \<in> set lay" "?P (item_of c)" for x c
    using that scope_layoutD(3) [OF assms] by (auto simp: chart_at_def chart_id_def item_of_def pars_def)
  have it: "set (map snd (items lay)) = item_of ` snd ` set lay" by (force simp: items_def)
  show ?thesis
  proof (cases "find ?P (map snd (items lay))")
    case None
    then have no: "\<not> ?P i" if "i \<in> item_of ` snd ` set lay" for i using that unfolding find_None_iff it by blast
    have "\<not> chart_at lay x n" for x
    proof
      assume "chart_at lay x n"
      then obtain c where "(x, c) \<in> set lay" "?P (item_of c)"
        by (auto simp: chart_at_def chart_id_def item_of_def dest: map_of_SomeD)
      then show False using no [of "item_of c"] by force
    qed
    then show ?thesis using None by (simp add: in_root_path_def)
  next
    case (Some i)
    then have "i \<in> set (map snd (items lay))" "?P i" using find_SomeD [OF Some] by blast+
    then obtain x c where x: "(x, c) \<in> set lay" "i = item_of c" unfolding it by auto
    with mem [of x c] \<open>?P i\<close> have "chart_at lay x n" "co_parents c = pars lay x" by auto
    then have u: "chart_at lay y n \<longleftrightarrow> y = x" for y using scope_layoutD(10) [OF assms, of y n x] by blast
    have "li_parents i = pars lay x" using x(2) \<open>co_parents c = pars lay x\<close> by (simp add: item_of_def)
    then show ?thesis unfolding in_root_path_def Some u by (auto simp: list_ex_iff or_empty_def split: option.splits)
  qed
qed

section \<open>The scope of the checked nodes\<close>

lemma visible_parents_ok:
  assumes "scope_layout lay" and "chart_at lay x n"
  shows "\<exists>ps. visible_parents lay x = Inr ps \<and> ps \<noteq> [] \<and> set ps \<subseteq> set (or_empty (pars lay x))"
proof -
  let ?ps = "''ROOT_ID'' # or_empty (pars lay x)" and ?s = "\<lambda>p. isShowTypeInTree (the (map_of lay p))"
  have "x \<in> below (kids_of lay) ''ROOT_ID''" "x \<noteq> ''ROOT_ID''" using chart_atD [OF assms] by auto
  then have r: "''ROOT_ID'' \<in> set (or_empty (pars lay x))" using parents_of_below [OF assms(1)] by auto
  have "set ?ps \<subseteq> dom (map_of lay)" using parents_in_dom [OF assms(1)] scope_layoutD(5) [OF assms(1)] by auto
  then have "rmap (shown_at lay) ?ps = Inr (map ?s ?ps)"
    by (intro rmap_total) (auto simp: shown_at_def)
  then have "visible_parents lay x = Inr (map fst (filter snd (zip ?ps (map ?s ?ps))))"
    by (simp add: visible_parents_def Let_def)
  moreover have "map fst (filter snd (zip ps (map f ps))) = filter f ps" for f and ps :: "string list"
    by (induction ps) auto
  moreover have "?s ''ROOT_ID''" using assms(1) by (auto simp: scope_layout_def root_ok_def isShowTypeInTree_def)
  ultimately show ?thesis using r by auto
qed

lemma shortest_index:
  assumes "sort_key length pss = q # qs" and "\<forall>ps\<in>set pss. ps \<noteq> []" and "ps \<in> set pss"
  shows "id_at ps (int (length q) - 1) \<in> set ps"
proof -
  have s: "set (q # qs) = set pss" using assms(1) set_sort [of length pss] by simp
  have "sorted (map length (q # qs))" using assms(1) sorted_sort_key [of length pss] by simp
  then have "length q \<le> length ps" using assms(3) unfolding s [symmetric] by auto
  moreover have "q \<noteq> []" using s assms(2) by auto
  ultimately have "nat (int (length q) - 1) < length ps" "0 \<le> int (length q) - 1" by (cases q; simp)+
  then show ?thesis by (simp add: id_at_def)
qed

lemma scope_root_path_mem:
  assumes "\<forall>ps\<in>set pss. ps \<noteq> []"
  shows "ps \<in> set pss \<Longrightarrow> \<exists>p\<in>set (scope_root_path pss). p \<in> set ps"
    and "p \<in> set (scope_root_path pss) \<Longrightarrow> \<exists>ps\<in>set pss. p \<in> set ps"
proof -
  have s: "set (sort_key length pss) = set pss" by simp
  {
    assume p: "ps \<in> set pss"
    then obtain q qs where q: "sort_key length pss = q # qs" using s by (cases "sort_key length pss") auto
    then have "ps \<in> set (q # qs)" using p s by simp
    then have "id_at ps (int (length q) - 1) \<in> set (scope_root_path pss)" unfolding scope_root_path_def q by auto
    then show "\<exists>p\<in>set (scope_root_path pss). p \<in> set ps" using shortest_index [OF q assms p] by blast
  next
    assume p: "p \<in> set (scope_root_path pss)"
    then obtain q qs where q: "sort_key length pss = q # qs" by (cases "sort_key length pss") (auto simp: scope_root_path_def)
    then obtain ps where "ps \<in> set (q # qs)" "p = id_at ps (int (length q) - 1)" using p unfolding scope_root_path_def q by auto
    then show "\<exists>ps\<in>set pss. p \<in> set ps" using shortest_index [OF q assms] s q by auto
  }
qed

lemma map_filter_pairs:
  "n \<in> set (List.map_filter (\<lambda>(y, c). if P c \<and> Q y c then f c else None) ps) \<longleftrightarrow> (\<exists>(y, c)\<in>set ps. P c \<and> f c = Some n \<and> Q y c)"
  by (induction ps) (auto simp: List.map_filter_simps split: option.split if_splits)

lemma the_chart:
  assumes "scope_layout lay" and "map_of lay x = Some c" and "co_type c = ''CHART''" and "chart_id c = Some n"
  shows "(\<exists>y d. map_of lay y = Some d \<and> co_type d = ''CHART'' \<and> chart_id d = Some n \<and> R y d) \<longleftrightarrow> R x c"
proof -
  have x: "chart_at lay x n" using assms(2-4) by (simp add: chart_at_def)
  have u: "y = x \<and> d = c" if "map_of lay y = Some d" "co_type d = ''CHART''" "chart_id d = Some n" for y d
  proof -
    have "chart_at lay y n" using that by (simp add: chart_at_def)
    from scope_layoutD(10) [OF assms(1) this x] show ?thesis using that(1) assms(2) by simp
  qed
  show ?thesis
  proof
    assume "\<exists>y d. map_of lay y = Some d \<and> co_type d = ''CHART'' \<and> chart_id d = Some n \<and> R y d"
    then obtain y d where "map_of lay y = Some d" "co_type d = ''CHART''" "chart_id d = Some n" "R y d" by (elim exE conjE)
    with u [of y d] show "R x c" by simp
  next
    assume "R x c"
    with assms(2-4) have "map_of lay x = Some c \<and> co_type c = ''CHART'' \<and> chart_id c = Some n \<and> R x c" by simp
    then show "\<exists>y d. map_of lay y = Some d \<and> co_type d = ''CHART'' \<and> chart_id d = Some n \<and> R y d" by (intro exI)
  qed
qed

lemma scope_excluded_iff:
  assumes "scope_layout lay" and "chart_at lay x n" and "set rp \<subseteq> dom (map_of lay)"
  shows "n \<in> set (scope_excluded rp ks lay) \<longleftrightarrow> x \<notin> set ks \<and> (\<exists>p\<in>set rp. p \<in> set (or_empty (pars lay x)))"
proof -
  obtain c where c: "map_of lay x = Some c" "co_type c = ''CHART''" "chart_id c = Some n" using assms(2) by (auto simp: chart_at_def)
  let ?f = "\<lambda>y c. find (\<lambda>parent. parent \<in> set rp \<and> y \<notin> set ks) (''ROOT_ID'' # or_empty (co_parents c))"
  have hit: "(case ?f y c of None \<Rightarrow> False | Some p \<Rightarrow> p \<noteq> []) \<longleftrightarrow> y \<notin> set ks \<and> (\<exists>p\<in>set rp. p \<in> set (''ROOT_ID'' # or_empty (co_parents c)))"
    for y c
  proof (cases "?f y c")
    case None
    then show ?thesis unfolding None using find_None_iff [THEN iffD1, OF None] by auto
  next
    case (Some p)
    from find_SomeD [OF Some] have p: "p \<in> set (''ROOT_ID'' # or_empty (co_parents c))" "p \<in> set rp" "y \<notin> set ks" by blast+
    then have "p \<noteq> []" using assms(3) scope_layoutD(8) [OF assms(1)] by blast
    then show ?thesis unfolding Some using p by auto
  qed
  have "n \<in> set (scope_excluded rp ks lay) \<longleftrightarrow>
      (\<exists>(y, c)\<in>set lay. co_type c = ''CHART'' \<and> chart_id c = Some n \<and> (case ?f y c of None \<Rightarrow> False | Some p \<Rightarrow> p \<noteq> []))"
    unfolding scope_excluded_def by (rule map_filter_pairs)
  also have "\<dots> \<longleftrightarrow> (\<exists>y c. map_of lay y = Some c \<and> co_type c = ''CHART'' \<and> chart_id c = Some n \<and> y \<notin> set ks \<and> (\<exists>p\<in>set rp. p \<in> set (''ROOT_ID'' # or_empty (co_parents c))))"
    unfolding hit Bex_def split_paired_Ex prod.case map_of_eq_Some_iff [OF scope_layoutD(3) [OF assms(1)]] by (simp only: conj_ac)
  also have "\<dots> \<longleftrightarrow> x \<notin> set ks \<and> (\<exists>p\<in>set rp. p \<in> set (''ROOT_ID'' # or_empty (pars lay x)))"
    using the_chart [OF assms(1) c] c(1) by (simp add: pars_def)
  also have "set (''ROOT_ID'' # or_empty (pars lay x)) = set (or_empty (pars lay x))"
    using parents_of_below [OF assms(1)] chart_atD [OF assms(1,2)] by auto
  finally show ?thesis .
qed

text \<open>A scope selects a set of charts when its root path and its exclusions single them out.\<close>

definition selects :: "components \<Rightarrow> NativeFilterScope \<Rightarrow> string set \<Rightarrow> bool" where
  "selects lay sc ks \<longleftrightarrow> set (rootPath sc) \<subseteq> {p \<in> below (kids_of lay) ''ROOT_ID''. \<not> is_chart lay p} \<and>
     (\<forall>x n. chart_at lay x n \<longrightarrow>
        (x \<in> ks \<longleftrightarrow> n \<notin> set (excluded sc) \<and> (\<exists>p\<in>set (rootPath sc). p \<in> set (or_empty (pars lay x)))))"

lemma findFilterScope_ok:
  assumes "scope_layout lay"
  shows "\<exists>sc. findFilterScope keys lay = Inr sc \<and> selectedLayers sc = None \<and> selects lay sc (set (scope_chart_keys keys lay))"
proof (cases "keys = []")
  case True
  then show ?thesis by (simp add: findFilterScope_def scope_chart_keys_def selects_def)
next
  case False
  let ?ks = "scope_chart_keys keys lay"
  let ?cs = "filter (is_chart lay) ?ks"
  have vp: "\<exists>ps. visible_parents lay x = Inr ps \<and> ps \<noteq> [] \<and> set ps \<subseteq> set (or_empty (pars lay x))" if "x \<in> set ?cs" for x
    using that is_chart_at [OF assms] visible_parents_ok [OF assms] by auto
  then have "\<forall>x\<in>set ?cs. \<exists>ps. visible_parents lay x = Inr ps" by blast
  then obtain g where g: "\<forall>x\<in>set ?cs. visible_parents lay x = Inr (g x)" by (rule bchoice [THEN exE])
  let ?pss = "map g ?cs"
  have pss: "rmap (visible_parents lay) ?cs = Inr ?pss" using g by (intro rmap_total) blast
  have vg: "g x \<noteq> [] \<and> set (g x) \<subseteq> set (or_empty (pars lay x))" if "x \<in> set ?cs" for x
    using vp [OF that] g [THEN bspec, OF that] by simp
  then have ne: "\<forall>ps\<in>set ?pss. ps \<noteq> []" by auto
  let ?rp = "scope_root_path ?pss"
  have sub: "set ?rp \<subseteq> {p \<in> below (kids_of lay) ''ROOT_ID''. \<not> is_chart lay p}"
  proof
    fix p assume "p \<in> set ?rp"
    from scope_root_path_mem(2) [OF ne this] obtain x where x: "x \<in> set ?cs" "p \<in> set (g x)" by auto
    from vg [OF x(1)] x(2) have px: "p \<in> set (or_empty (pars lay x))" by auto
    have "x \<in> below (kids_of lay) ''ROOT_ID''" using x(1) is_chart_at [OF assms, of x] chart_atD(1) [OF assms] by auto
    then have "p \<in> below (kids_of lay) ''ROOT_ID''" "x \<in> below (kids_of lay) p" "p \<noteq> x" using parents_of_below [OF assms] px by auto
    then show "p \<in> {p \<in> below (kids_of lay) ''ROOT_ID''. \<not> is_chart lay p}"
      using is_chart_at [OF assms, of p] chart_atD(3) [OF assms, of p] below_leaf [of "kids_of lay" p] by auto
  qed
  have "x \<in> set ?ks \<longleftrightarrow> n \<notin> set (scope_excluded ?rp ?ks lay) \<and> (\<exists>p\<in>set ?rp. p \<in> set (or_empty (pars lay x)))"
    if c: "chart_at lay x n" for x n
  proof -
    have "\<exists>p\<in>set ?rp. p \<in> set (or_empty (pars lay x))" if "x \<in> set ?ks"
    proof -
      have "x \<in> set ?cs" using that chart_atD(4) [OF assms c] by simp
      from vg [OF this] this show ?thesis using scope_root_path_mem(1) [OF ne, of "g x"] by auto
    qed
    then show ?thesis using scope_excluded_iff [OF assms c, of ?rp ?ks] sub root_below_dom [OF assms] by blast
  qed
  then show ?thesis using False pss sub by (simp add: findFilterScope_def Let_def selects_def)
qed

section \<open>Checking nodes\<close>

lemma scope_chart_keys_plain: "\<forall>k\<in>set ks. \<not> str_includes ''-layer-'' k \<Longrightarrow> scope_chart_keys ks lay = ks"
  by (simp add: scope_chart_keys_def)

lemma layout_key_of_SomeD:
  assumes "scope_layout lay" and "layout_key_of lay n = Some k"
  shows "\<exists>c. map_of lay k = Some c \<and> chart_id c = Some n"
  using assms(2) scope_layoutD(3) [OF assms(1)] by (auto simp: layout_key_of_def dest!: find_SomeD)

text \<open>The scope kept for the charts of the checked layers differs from that of the checked charts
  by charts of checked layers only.\<close>

lemma updateScopeWithParentCharts_ok:
  assumes "scope_layout lay" and "\<forall>k\<in>set ks. \<not> str_includes ''-layer-'' k"
    and "set ids \<subseteq> all" and "selects lay sc (set ks \<union> extra)" and "\<forall>k n. k \<in> extra \<longrightarrow> chart_at lay k n \<longrightarrow> n \<in> all"
  shows "\<exists>sc' extra. updateScopeWithParentCharts sc ids ks lay = Inr sc' \<and> selectedLayers sc' = selectedLayers sc \<and>
    selects lay sc' (set ks \<union> extra) \<and> (\<forall>k n. k \<in> extra \<longrightarrow> chart_at lay k n \<longrightarrow> n \<in> all)"
  using assms(3-5)
proof (induction ids arbitrary: sc extra)
  case Nil
  then show ?case by (auto simp: updateScopeWithParentCharts_def)
next
  case (Cons m ids)
  show ?case
  proof (cases "layout_key_of lay m")
    case None
    then show ?thesis using Cons.IH [OF _ Cons.prems(2,3)] Cons.prems(1) by (simp add: updateScopeWithParentCharts_def)
  next
    case (Some k)
    from layout_key_of_SomeD [OF assms(1) this] obtain c where c: "map_of lay k = Some c" "chart_id c = Some m" by blast
    have k: "k \<noteq> []" "\<not> str_includes ''-layer-'' k" using scope_layoutD(8,9) [OF assms(1)] c(1) by auto
    from findFilterScope_ok [OF assms(1), of "ks @ [k]"] obtain t where
      t: "findFilterScope (ks @ [k]) lay = Inr t" "selects lay t (set (scope_chart_keys (ks @ [k]) lay))" by blast
    have "scope_chart_keys (ks @ [k]) lay = ks @ [k]" using assms(2) k(2) by (intro scope_chart_keys_plain) auto
    then have "selects lay (sc\<lparr>rootPath := rootPath t, excluded := excluded t\<rparr>) (set ks \<union> {k})"
      using t(2) by (simp add: selects_def)
    moreover have "\<forall>k' n. k' \<in> {k} \<longrightarrow> chart_at lay k' n \<longrightarrow> n \<in> all" using c Cons.prems(1) by (auto simp: chart_at_def)
    ultimately show ?thesis
      using Cons.IH [of "sc\<lparr>rootPath := rootPath t, excluded := excluded t\<rparr>" "{k}"] Cons.prems(1) Some k(1) t(1)
      by (simp add: updateScopeWithParentCharts_def)
  qed
qed

lemma handleCheck_ok:
  fixes keys :: "string list"
  assumes "scope_layout lay"
  defines "layers \<equiv> filter (str_includes ''-layer-'') keys"
  shows "\<exists>sc extra. handleCheck own lay keys = Inr sc \<and> layers_of sc = layers \<and> selectedLayers sc = (if layers = [] then None else Some layers) \<and>
    set (rootPath sc) \<subseteq> {p \<in> below (kids_of lay) ''ROOT_ID''. \<not> is_chart lay p} \<and>
    (\<forall>k n. k \<in> extra \<longrightarrow> chart_at lay k n \<longrightarrow> n \<in> set (layer_charts layers)) \<and>
    (\<forall>x n. chart_at lay x n \<longrightarrow> (n \<notin> set (excluded sc) \<and> (\<exists>p\<in>set (rootPath sc). p \<in> set (or_empty (pars lay x))) \<longleftrightarrow>
       x \<in> set keys \<union> extra \<and> own \<noteq> Some n))"
proof -
  let ?ks = "filter (\<lambda>k. \<not> str_includes ''-layer-'' k) keys"
  from findFilterScope_ok [OF assms(1), of ?ks] obtain s0 where
    s0: "findFilterScope ?ks lay = Inr s0" "selectedLayers s0 = None" "selects lay s0 (set (scope_chart_keys ?ks lay))" by blast
  have "selects lay s0 (set ?ks \<union> {})" using s0(3) scope_chart_keys_plain [of ?ks lay] by simp
  then obtain s1 extra where s1: "updateScopeWithParentCharts s0 (extractParentChartIds layers) ?ks lay = Inr s1" "selectedLayers s1 = None"
      "selects lay s1 (set ?ks \<union> extra)" "\<forall>k n. k \<in> extra \<longrightarrow> chart_at lay k n \<longrightarrow> n \<in> set (layer_charts layers)"
    using updateScopeWithParentCharts_ok [OF assms(1), of ?ks "extractParentChartIds layers" "set (layer_charts layers)" s0 "{}"] s0(2)
    by (auto simp: extractParentChartIds_def)
  let ?sc = "createFormValues s1 layers own"
  have "x \<in> set keys \<longleftrightarrow> x \<in> set ?ks" if "chart_at lay x n" for x n
    using that scope_layoutD(9) [OF assms(1)] by (auto simp: chart_at_def)
  moreover have "rootPath ?sc = rootPath s1" "set (excluded ?sc) = set (excluded s1) \<union> set_option own"
      "selectedLayers ?sc = (if layers = [] then None else Some layers)"
    using s1(2) by (auto simp: createFormValues_def Let_def split: option.split)
  moreover have "handleCheck own lay keys = Inr ?sc"
    using s0(1) s1(1) by (simp add: handleCheck_def separateKeys_def layers_def)
  ultimately show ?thesis using s1(3,4)
    by (intro exI [of _ ?sc] exI [of _ extra]) (auto simp: selects_def layers_of_def)
qed

text \<open>
  C23. The scope of a check. Whatever nodes are checked in the scoping tree, a scope is stored, and a
  filter with that scope reaches exactly the charts that are checked, but the one the form
  belongs to, and the charts of which a layer is checked.
\<close>

theorem handleCheck_reaches:
  assumes "scope_layout lay"
  shows "\<exists>sc. handleCheck own lay keys = Inr sc \<and>
    (\<forall>ids. set (getChartIdsInFilterScope sc ids (map snd (items lay))) =
       {n \<in> set ids. n \<in> set (layer_charts (filter (str_includes ''-layer-'') keys)) \<or>
          own \<noteq> Some n \<and> (\<exists>x\<in>set keys. chart_at lay x n)})"
proof -
  let ?L = "set (layer_charts (filter (str_includes ''-layer-'') keys))"
  from handleCheck_ok [OF assms, of own keys] obtain sc extra where
    sc: "handleCheck own lay keys = Inr sc" "layers_of sc = filter (str_includes ''-layer-'') keys"
    and ex: "\<And>k n. k \<in> extra \<Longrightarrow> chart_at lay k n \<Longrightarrow> n \<in> ?L"
    and sel: "\<And>x n. chart_at lay x n \<Longrightarrow> (n \<notin> set (excluded sc) \<and> (\<exists>p\<in>set (rootPath sc). p \<in> set (or_empty (pars lay x))) \<longleftrightarrow>
       x \<in> set keys \<union> extra \<and> own \<noteq> Some n)" by blast
  have "n \<in> ?L \<or> n \<notin> set (excluded sc) \<and> in_root_path (rootPath sc) (map snd (items lay)) n \<longleftrightarrow>
      n \<in> ?L \<or> own \<noteq> Some n \<and> (\<exists>x\<in>set keys. chart_at lay x n)" for n
    unfolding in_root_path_chart [OF assms] using sel ex by blast
  then show ?thesis using sc getChartIdsInFilterScope_iff [of sc _ "map snd (items lay)"] by auto
qed

section \<open>Reading the checked nodes back\<close>

lemma addInvisibleParents_ok:
  assumes "scope_layout lay" and "x \<in> dom (map_of lay)"
  shows "\<exists>sub. addInvisibleParents lay x = Inr sub \<and> set sub = {y. child_of (kids_of lay) x y}"
proof -
  obtain c where c: "map_of lay x = Some c" using assms(2) by auto
  have "child_of (kids_of lay) x (co_id v)" if "v \<in> set (invisible_children lay x)" for v
  proof -
    from that obtain y ps where v: "(y, v) \<in> set lay" "co_parents v = Some ps" "ps \<noteq> []" "last ps = x"
      by (auto simp: invisible_children_def split: option.splits)
    then have "map_of lay y = Some v" using scope_layoutD(3) [OF assms(1)] by simp
    moreover from this have "co_id v = y" using scope_layoutD(1) [OF assms(1)] by (simp add: layout_ok_def)
    ultimately show ?thesis using last_parent [OF assms(1), of y ps] v(2-4) by (simp add: pars_def)
  qed
  then show ?thesis using c by (auto simp: addInvisibleParents_def child_of_def kids_of_def)
qed

lemma below_children: "below k x = insert x (\<Union>y\<in>{y. child_of k x y}. below k y)"
  using below_cases [of _ k x] below_trans [OF child_below, of k x] by auto

text \<open>A loop whose every step adds a set to the collected values adds their union.\<close>

lemma rfold_collects:
  assumes "\<And>x acc. x \<in> set xs \<Longrightarrow> \<exists>acc'. f x acc = Inr acc' \<and> set acc' = set acc \<union> g x"
  shows "\<exists>acc'. rfold f xs acc = Inr acc' \<and> set acc' = set acc \<union> (\<Union>x\<in>set xs. g x)"
  using assms
proof (induction xs arbitrary: acc)
  case (Cons x xs)
  obtain a where a: "f x acc = Inr a" "set a = set acc \<union> g x" using Cons.prems [of x acc] by auto
  obtain b where "rfold f xs a = Inr b" "set b = set a \<union> (\<Union>x\<in>set xs. g x)" using Cons.IH [of a] Cons.prems by auto
  with a show ?case by (intro exI [of _ b]) auto
qed simp

lemma below_finite: "scope_layout lay \<Longrightarrow> x \<in> dom (map_of lay) \<Longrightarrow> finite (below (kids_of lay) x) \<and> 0 < card (below (kids_of lay) x)"
proof -
  assume a: "scope_layout lay" "x \<in> dom (map_of lay)"
  have "below (kids_of lay) x \<subseteq> dom (map_of lay)" using below_in_dom [OF scope_layoutD(2) [OF a(1)], of x] a(2) by simp
  then have "finite (below (kids_of lay) x)" using finite_dom_map_of [of lay] finite_subset by blast
  then show ?thesis using below_refl [of x "kids_of lay"] by (auto simp: card_gt_0_iff simp del: below_refl)
qed

lemma child_smaller:
  assumes "scope_layout lay" and "child_of (kids_of lay) x y"
  shows "y \<in> dom (map_of lay)" "card (below (kids_of lay) y) < card (below (kids_of lay) x)"
proof -
  have f: "forest (kids_of lay)" using scope_layoutD(2) [OF assms(1)] .
  show "y \<in> dom (map_of lay)" using assms(2) forestD(2) [OF f] by (fastforce simp: child_of_def)
  have "x \<in> dom (map_of lay)" using assms(2) by (auto simp: child_of_def kids_of_def)
  then show "card (below (kids_of lay) y) < card (below (kids_of lay) x)"
    using below_grows(1) [OF f assms(2)] by (simp add: finite_dom_map_of)
qed

lemma checkTreeItem_ok:
  assumes "scope_layout lay" and "set its \<subseteq> dom (map_of lay)" and "\<forall>x\<in>set its. card (below (kids_of lay) x) < m" and "0 < m"
  shows "\<exists>ck'. checkTreeItem m lay its excl ck = Inr ck' \<and>
      set ck' = set ck \<union> (\<Union>x\<in>set its. {y. checks_item lay excl y \<and> y \<in> below (kids_of lay) x})"
  using assms(2-4)
proof (induction m arbitrary: its ck)
  case (Suc m)
  let ?k = "kids_of lay" and ?c = "\<lambda>y. checks_item lay excl y"
  show ?case unfolding checkTreeItem.simps
  proof (rule rfold_collects)
    fix x ck assume "x \<in> set its"
    then have x: "x \<in> dom (map_of lay)" "card (below ?k x) \<le> m" using Suc.prems(1,2) by auto
    from addInvisibleParents_ok [OF assms(1) x(1)] obtain sub where sub: "addInvisibleParents lay x = Inr sub" "set sub = {y. child_of ?k x y}"
      by blast
    have "set sub \<subseteq> dom (map_of lay)" "\<forall>y\<in>set sub. card (below ?k y) < m" "0 < m"
      using sub(2) child_smaller [OF assms(1)] below_finite [OF assms(1) x(1)] x(2) by fastforce+
    then obtain ck1 where ck1: "checkTreeItem m lay sub excl ck = Inr ck1" "set ck1 = set ck \<union> (\<Union>z\<in>set sub. {y. ?c y \<and> y \<in> below ?k z})"
      using Suc.IH by blast
    then show "\<exists>acc'. rbind (addInvisibleParents lay x) (\<lambda>sub. rbind (checkTreeItem m lay sub excl ck) (\<lambda>checkedItems.
        Inr (if ?c x then checkedItems @ [x] else checkedItems))) = Inr acc' \<and> set acc' = set ck \<union> {y. ?c y \<and> y \<in> below ?k x}"
      using sub below_children [of ?k x] by auto
  qed
qed simp

lemma check_root_path:
  assumes "scope_layout lay" and "set rp \<subseteq> {p \<in> below (kids_of lay) ''ROOT_ID''. \<not> is_chart lay p}" and "length lay < m"
  shows "\<exists>ck. checkTreeItem m lay rp excl [] = Inr ck \<and>
    set ck = {x. \<exists>n. chart_at lay x n \<and> n \<notin> set excl \<and> (\<exists>p\<in>set rp. p \<in> set (or_empty (pars lay x)))}"
proof -
  let ?k = "kids_of lay"
  have dm: "set rp \<subseteq> dom (map_of lay)" using assms(2) root_below_dom [OF assms(1)] by blast
  have "card (below ?k x) < m" if "x \<in> dom (map_of lay)" for x
  proof -
    have "card (below ?k x) \<le> card (dom (map_of lay))"
      using below_in_dom [OF scope_layoutD(2) [OF assms(1)], of x] that by (intro card_mono) (auto simp: finite_dom_map_of)
    then show ?thesis using card_dom_le [of lay] assms(3) by linarith
  qed
  then have "\<forall>x\<in>set rp. card (below ?k x) < m" using dm by blast
  from checkTreeItem_ok [OF assms(1) dm this, of excl "[]"] obtain ck where ck1: "checkTreeItem m lay rp excl [] = Inr ck"
      "set ck = (\<Union>x\<in>set rp. {y. checks_item lay excl y \<and> y \<in> below ?k x})" using assms(3) by auto
  then have ck: "checkTreeItem m lay rp excl [] = Inr ck" "set ck = {y. checks_item lay excl y \<and> (\<exists>x\<in>set rp. y \<in> below ?k x)}" by auto
  have "checks_item lay excl y \<longleftrightarrow> (\<exists>n. chart_at lay y n \<and> n \<notin> set excl)" for y
    using is_chart_at [OF assms(1), of y] by (auto simp: checks_item_def chart_at_def is_chart_def split: option.splits)
  moreover have "y \<in> below ?k p \<longleftrightarrow> p \<in> set (or_empty (pars lay y))" if "chart_at lay y n" "p \<in> set rp" for y n p
    using parents_of_below [OF assms(1) chart_atD(1) [OF assms(1) that(1)]] assms(2) that(2) chart_atD(4) [OF assms(1) that(1)] by auto
  ultimately have "set ck = {x. \<exists>n. chart_at lay x n \<and> n \<notin> set excl \<and> (\<exists>p\<in>set rp. p \<in> set (or_empty (pars lay x)))}"
    unfolding ck(2) by blast
  then show ?thesis using ck(1) by blast
qed

text \<open>
  C24. The checked nodes survive the round trip. The nodes that the scoping tree shows as checked for
  the stored scope are the checked layers and the checked charts, except the chart the form
  belongs to and the charts of which layers are checked, which the tree checks by their layers; no node
  is listed twice.
\<close>

theorem checked_items_roundtrip:
  assumes "scope_layout lay" and "handleCheck own lay keys = Inr sc" and "length lay < m"
  shows "\<exists>ks. getTreeCheckedItems m sc lay (selectedLayers sc) = Inr ks \<and> distinct ks \<and>
    set ks = {k \<in> set keys. str_includes ''-layer-'' k} \<union>
      {x \<in> set keys. \<exists>n. chart_at lay x n \<and> own \<noteq> Some n \<and> n \<notin> set (layer_charts (filter (str_includes ''-layer-'') keys))}"
proof -
  let ?ls = "filter (str_includes ''-layer-'') keys"
  let ?L = "set (layer_charts ?ls)"
  from handleCheck_ok [OF assms(1), of own keys] assms(2) obtain extra where
    sc: "selectedLayers sc = (if ?ls = [] then None else Some ?ls)" "set (rootPath sc) \<subseteq> {p \<in> below (kids_of lay) ''ROOT_ID''. \<not> is_chart lay p}"
    and ex: "\<And>k n. k \<in> extra \<Longrightarrow> chart_at lay k n \<Longrightarrow> n \<in> ?L"
    and sel: "\<And>x n. chart_at lay x n \<Longrightarrow> (n \<notin> set (excluded sc) \<and> (\<exists>p\<in>set (rootPath sc). p \<in> set (or_empty (pars lay x))) \<longleftrightarrow>
       x \<in> set keys \<union> extra \<and> own \<noteq> Some n)" by auto
  from check_root_path [OF assms(1) sc(2) assms(3), of "excluded sc"] obtain ck where ck0: "checkTreeItem m lay (rootPath sc) (excluded sc) [] = Inr ck"
      "set ck = {x. \<exists>n. chart_at lay x n \<and> n \<notin> set (excluded sc) \<and> (\<exists>p\<in>set (rootPath sc). p \<in> set (or_empty (pars lay x)))}" by blast
  then have ck: "checkTreeItem m lay (rootPath sc) (excluded sc) [] = Inr ck"
      "set ck = {x. \<exists>n. chart_at lay x n \<and> x \<in> set keys \<union> extra \<and> own \<noteq> Some n}" using sel by blast+
  have keep: "keeps_item lay (extractParentChartIds ?ls) x \<longleftrightarrow> n \<notin> ?L" if "chart_at lay x n" for x n
    using that chart_atD(2) [OF assms(1) that] by (auto simp: keeps_item_def chart_at_def extractParentChartIds_def)
  show ?thesis
  proof (cases ?ls)
    case Nil
    then have "extra \<inter> {x. \<exists>n. chart_at lay x n} = {}" using ex by auto
    moreover have "\<not> str_includes ''-layer-'' k" if "k \<in> set keys" for k using Nil that by (auto simp: filter_empty_conv)
    ultimately show ?thesis using ck sc(1) Nil by (auto simp: getTreeCheckedItems_def)
  next
    case (Cons l ls)
    have "getTreeCheckedItems m sc lay (selectedLayers sc) = Inr (nub (filter (keeps_item lay (extractParentChartIds ?ls)) ck @ ?ls))"
      using ck(1) sc(1) Cons by (simp add: getTreeCheckedItems_def)
    moreover have "{x \<in> set ck. keeps_item lay (extractParentChartIds ?ls) x} = {x \<in> set keys. \<exists>n. chart_at lay x n \<and> own \<noteq> Some n \<and> n \<notin> ?L}"
      unfolding ck(2) using keep ex by blast
    ultimately show ?thesis by auto
  qed
qed

end
