(* ===== verification/FilterScopeShown.thy ===== *)
theory FilterScopeShown
  imports FilterScopeFacts
begin

text \<open>
  The tree the scoping form shows: its leaves are the charts the form offers.
\<close>

section \<open>The charts of a tree\<close>

fun tree_charts :: "'r TreeItem \<Rightarrow> string list" where
  "tree_charts (TreeItem key title children ty chartId layer) =
     (if ty = Some NodeChart then [key] else []) @ concat (map tree_charts children)"

fun subitems :: "'r TreeItem \<Rightarrow> 'r TreeItem list" where
  "subitems (TreeItem key title children ty chartId layer) =
     TreeItem key title children ty chartId layer # concat (map subitems children)"

definition offered :: "int option \<Rightarrow> components \<Rightarrow> string \<Rightarrow> bool" where
  "offered cur lay x \<longleftrightarrow> (\<exists>n. chart_at lay x n \<and> cur \<noteq> Some n)"

text \<open>The charts listed under each tab of some items are those below the tab in the layout.\<close>

definition tabs_right :: "int option \<Rightarrow> components \<Rightarrow> 'r TreeItem list \<Rightarrow> bool" where
  "tabs_right cur lay ts \<longleftrightarrow>
     (\<forall>t\<in>set ts. \<forall>s\<in>set (subitems t). ti_nodeType s = Some NodeTab \<longrightarrow>
        set (tree_charts s) = {y \<in> below (kids_of lay) (ti_key s). offered cur lay y})"

definition tree_of :: "int option \<Rightarrow> components \<Rightarrow> string \<Rightarrow> 'r TreeItem list \<Rightarrow> bool" where
  "tree_of cur lay x ts \<longleftrightarrow>
     distinct (concat (map tree_charts ts)) \<and>
     set (concat (map tree_charts ts)) = {y \<in> below (kids_of lay) x. offered cur lay y} \<and> tabs_right cur lay ts"

lemma sub_nodes_no_charts:
  "t \<in> set (generateChartSubNodes n chart title slices) \<Longrightarrow> tree_charts t = [] \<and> subitems t = [t] \<and> ti_nodeType t = Some NodeLayer"
  by (auto simp: generateChartSubNodes_def Let_def split: if_splits)

lemma set_validNodes:
  "set (foldl (\<lambda>acc (_, cur). if co_type cur = ''CHART'' \<and> own \<noteq> chart_id cur
       then nub (acc @ or_empty (co_parents cur) @ [co_id cur]) else acc) acc lay) =
   set acc \<union> {z. \<exists>(x, c)\<in>set lay. co_type c = ''CHART'' \<and> own \<noteq> chart_id c \<and> (z = co_id c \<or> z \<in> set (or_empty (co_parents c)))}"
  by (induction lay arbitrary: acc) auto

lemma chart_in_validNodes:
  assumes "scope_layout lay" and "chart_at lay x n"
  shows "x \<in> set (validNodes cur lay) \<longleftrightarrow> cur \<noteq> Some n"
proof -
  have id: "co_id c = y \<and> map_of lay y = Some c" if "(y, c) \<in> set lay" for y c
    using that scope_layoutD(1,3) [OF assms(1)] by (simp add: layout_ok_def)
  have "x \<notin> set (or_empty (co_parents d))" if "(y, d) \<in> set lay" "co_type d = ''CHART''" for y d
  proof
    assume x: "x \<in> set (or_empty (co_parents d))"
    have "is_chart lay y" using id [OF that(1)] that(2) by (simp add: is_chart_def)
    then have "y \<in> below (kids_of lay) ''ROOT_ID''" using is_chart_at [OF assms(1)] chart_atD(1) [OF assms(1)] by blast
    from parents_of_below [OF assms(1) this] x id [OF that(1)] have "y \<in> below (kids_of lay) x" "x \<noteq> y" by (auto simp: pars_def)
    then show False using below_leaf [of "kids_of lay" x] chart_atD(3) [OF assms] by simp
  qed
  note not_parent = this
  obtain c where c: "(x, c) \<in> set lay" "co_type c = ''CHART''" "chart_id c = Some n"
    using assms(2) by (auto simp: chart_at_def dest: map_of_SomeD)
  let ?P = "\<lambda>d z. co_type d = ''CHART'' \<and> cur \<noteq> chart_id d \<and> (z = co_id d \<or> z \<in> set (or_empty (co_parents d)))"
  have "(\<exists>(y, d)\<in>set lay. ?P d x) \<longleftrightarrow> cur \<noteq> Some n"
  proof
    assume "\<exists>(y, d)\<in>set lay. ?P d x"
    then obtain y d where d: "(y, d) \<in> set lay" "?P d x" by blast
    then have "y = x" using not_parent [of y d] id [OF d(1)] by simp
    then have "d = c" using id [OF d(1)] id [OF c(1)] by simp
    then show "cur \<noteq> Some n" using d(2) c(3) by simp
  next
    assume "cur \<noteq> Some n"
    then have "?P c x" using c id [OF c(1)] by simp
    then show "\<exists>(y, d)\<in>set lay. ?P d x" using c(1) by blast
  qed
  then show ?thesis unfolding validNodes_def set_validNodes by simp
qed

lemma tree_item_charts:
  "concat (map tree_charts [tree_item env node ts]) =
     (if co_type node = ''CHART'' then [co_id node] else []) @ concat (map tree_charts ts)"
proof -
  have "concat (map tree_charts (generateChartSubNodes n chart (te_title env) (te_slices env))) = []" for n chart
    using sub_nodes_no_charts by (fastforce simp: concat_eq_Nil_conv)
  then show ?thesis by (auto simp: tree_item_def Let_def split: option.splits)
qed

lemma tree_item_tabs:
  assumes "tabs_right cur lay ts" and "co_type node = ''CHART'' \<longrightarrow> ts = []"
    and "co_type node \<noteq> ''CHART'' \<longrightarrow> set (concat (map tree_charts ts)) = {y \<in> below (kids_of lay) (co_id node). offered cur lay y}"
  shows "tabs_right cur lay [tree_item env node ts]"
proof (cases "co_type node = ''CHART''")
  case True
  have "s = tree_item env node [] \<or> ti_nodeType s = Some NodeLayer" if "s \<in> set (subitems (tree_item env node []))" for s
    using that sub_nodes_no_charts by (fastforce simp: tree_item_def Let_def split: option.splits)
  moreover have "ti_nodeType (tree_item env node []) = Some NodeChart" using True by (simp add: tree_item_def Let_def)
  ultimately have "ti_nodeType s \<noteq> Some NodeTab" if "s \<in> set (subitems (tree_item env node []))" for s using that by fastforce
  then show ?thesis using True assms(2) by (simp add: tabs_right_def)
next
  case False
  have "chart_of_node env node = None" using False by (simp add: chart_of_node_def)
  then have "set (subitems (tree_item env node ts)) = insert (tree_item env node ts) (\<Union> (set ` subitems ` set ts))" "ti_key (tree_item env node ts) = co_id node"
    by (simp_all add: tree_item_def Let_def)
  then show ?thesis using assms(1,3) False tree_item_charts [of env node ts] unfolding tabs_right_def by auto
qed

section \<open>Building the tree\<close>

abbreviation push_children :: "nat \<Rightarrow> 'r tree_env \<Rightarrow> string list \<Rightarrow> 'r TreeItem list \<times> string list \<Rightarrow> ('r TreeItem list \<times> string list) res" where
  "push_children n env \<equiv> rfold (\<lambda>child (pushed, warnings).
            case map_of (te_layout env) child of
              None \<Rightarrow> Inr (pushed, warnings @ [missing_text child])
            | Some childNode \<Rightarrow>
                rbind (buildTree n env childNode) (\<lambda>(p, w). Inr (pushed @ p, warnings @ w)))"

lemma push_children_ok:
  assumes f: "forest k" and k: "k = kids_of (te_layout env)" and "distinct cs" and "\<forall>c\<in>set cs. child_of k x c"
    and step: "\<And>c d. child_of k x c \<Longrightarrow> map_of (te_layout env) c = Some d \<Longrightarrow>
      \<exists>ts. buildTree n env d = Inr (ts, []) \<and> tree_of cur (te_layout env) c ts"
  shows "\<exists>ts. push_children n env cs (ts0, []) = Inr (ts0 @ ts, []) \<and> distinct (concat (map tree_charts ts)) \<and>
    set (concat (map tree_charts ts)) = {y. \<exists>c\<in>set cs. y \<in> below k c \<and> offered cur (te_layout env) y} \<and> tabs_right cur (te_layout env) ts"
  using assms(3,4)
proof (induction cs arbitrary: ts0)
  case Nil
  then show ?case by (auto simp: tabs_right_def)
next
  case (Cons c cs)
  have c: "child_of k x c" using Cons.prems(2) by simp
  then have "c \<in> dom k" using forestD(2) [OF f] by (fastforce simp: child_of_def)
  then obtain d where d: "map_of (te_layout env) c = Some d" using k by auto
  from step [OF c d] obtain t1 where t1: "buildTree n env d = Inr (t1, [])" "distinct (concat (map tree_charts t1))"
      "set (concat (map tree_charts t1)) = {y \<in> below k c. offered cur (te_layout env) y}" "tabs_right cur (te_layout env) t1"
    unfolding tree_of_def k by blast
  from Cons.IH [of "ts0 @ t1"] Cons.prems obtain t2 where t2: "push_children n env cs (ts0 @ t1, []) = Inr ((ts0 @ t1) @ t2, [])"
      "distinct (concat (map tree_charts t2))"
      "set (concat (map tree_charts t2)) = {y. \<exists>c\<in>set cs. y \<in> below k c \<and> offered cur (te_layout env) y}" "tabs_right cur (te_layout env) t2"
    by auto
  have "below k c \<inter> below k e = {}" if "e \<in> set cs" for e
    using siblings_disjoint [OF f c, of e] that Cons.prems by auto
  then have "distinct (concat (map tree_charts (t1 @ t2)))" using t1(2,3) t2(2,3) by (auto simp del: set_concat)
  moreover have "push_children n env (c # cs) (ts0, []) = Inr (ts0 @ (t1 @ t2), [])" using d t1(1) t2(1) by simp
  moreover have "tabs_right cur (te_layout env) (t1 @ t2)" using t1(4) t2(4) by (auto simp: tabs_right_def)
  moreover have "set (concat (map tree_charts (t1 @ t2))) = {y. \<exists>e\<in>set (c # cs). y \<in> below k e \<and> offered cur (te_layout env) y}"
    unfolding map_append concat_append set_append t1(3) t2(3) by auto
  ultimately show ?case by blast
qed

lemma buildTree_ok:
  assumes s: "scope_layout (te_layout env)" and v: "te_validNodes env = validNodes cur (te_layout env)"
    and "map_of (te_layout env) x = Some c" and "card (below (kids_of (te_layout env)) x) \<le> n"
  shows "\<exists>ts. buildTree n env c = Inr (ts, []) \<and> tree_of cur (te_layout env) x ts"
  using assms(3,4)
proof (induction n arbitrary: x c)
  case 0
  have "finite (below (kids_of (te_layout env)) x)"
    using below_in_dom [OF scope_layoutD(2) [OF s], of x] 0(1) by (intro finite_subset [OF _ finite_dom_map_of [of "te_layout env"]]) auto
  with 0(2) have "below (kids_of (te_layout env)) x = {}" by simp
  with below_refl [of x "kids_of (te_layout env)"] show ?case by (simp only: empty_iff)
next
  case (Suc n)
  let ?lay = "te_layout env"
  let ?k = "kids_of ?lay"
  have f: "forest ?k" and id: "co_id c = x" using scope_layoutD(1,2) [OF s] Suc.prems(1) by (auto simp: layout_ok_def)
  show ?case
  proof (cases "co_type c = ''CHART''")
    case True
    then obtain m where m: "chart_at ?lay x m" using is_chart_at [OF s, of x] Suc.prems(1) by (auto simp: is_chart_def)
    have off: "{y \<in> below ?k x. offered cur ?lay y} = (if cur \<noteq> Some m then {x} else {})"
    proof -
      have "below ?k x = {x}" using below_leaf [of ?k x] chart_atD(3) [OF s m] by simp
      moreover have "offered cur ?lay x \<longleftrightarrow> cur \<noteq> Some m" using m by (auto simp: offered_def chart_at_def)
      ultimately show ?thesis by auto
    qed
    have "shows_node env c \<longleftrightarrow> cur \<noteq> Some m"
      using True id v chart_in_validNodes [OF s m, of cur] by (simp add: shows_node_def isShowTypeInTree_def)
    then have "buildTree (Suc n) env c = Inr (if cur \<noteq> Some m then [tree_item env c []] else [], [])" using True by simp
    moreover have "tabs_right cur ?lay [tree_item env c []]" by (rule tree_item_tabs) (auto simp: True tabs_right_def)
    ultimately show ?thesis unfolding tree_of_def off using True id tree_item_charts [of env c "[]"] by (auto simp: tabs_right_def)
  next
    case False
    have kx: "?k x = Some (co_children c)" using Suc.prems(1) by (simp add: kids_of_def)
    have step: "\<exists>ts. buildTree n env d = Inr (ts, []) \<and> tree_of cur ?lay ch ts" if "child_of ?k x ch" "map_of ?lay ch = Some d" for ch d
    proof -
      have "finite (dom ?k)" "x \<in> dom ?k" using finite_dom_map_of [of ?lay] Suc.prems(1) by auto
      then have "card (below ?k ch) \<le> n" using below_grows(1) [OF f that(1)] Suc.prems(2) by fastforce
      then show ?thesis by (rule Suc.IH [OF that(2)])
    qed
    have "\<forall>ch\<in>set (co_children c). child_of ?k x ch" using kx by (simp add: child_of_def)
    from push_children_ok [OF f refl forestD(1) [OF f kx] this step, of "[]"] obtain ts where
      ts: "push_children n env (co_children c) ([], []) = Inr (ts, [])" "distinct (concat (map tree_charts ts))"
      "set (concat (map tree_charts ts)) = {y. \<exists>ch\<in>set (co_children c). y \<in> below ?k ch \<and> offered cur ?lay y}" "tabs_right cur ?lay ts"
      by auto
    have "\<not> offered cur ?lay x" using False Suc.prems(1) by (simp add: offered_def chart_at_def)
    then have st: "set (concat (map tree_charts ts)) = {y \<in> below ?k x. offered cur ?lay y}"
      unfolding ts(3) using kx below_children [of ?k x] by (auto simp: child_of_def)
    then have "tabs_right cur ?lay [tree_item env c ts]" using tree_item_tabs [OF ts(4), of c] False id by simp
    moreover have "buildTree (Suc n) env c = Inr (if shows_node env c then [tree_item env c ts] else ts, [])" using ts(1) False by simp
    ultimately show ?thesis using ts(2,4) st tree_item_charts [of env c ts] False by (auto simp: tree_of_def)
  qed
qed


end
