(* ===== verification/LegacyFacts.thy ===== *)
theory LegacyFacts
  imports LegacyScopes FilterScopeShown
begin

text \<open>
  What the scope selector saves: no checked chart is lost, and in a dashboard whose tabs are not
  nested the saved scope reaches the checked charts only.
\<close>

section \<open>Charts and tabs of a tree\<close>

fun node_charts :: "scope_node \<Rightarrow> int list" where
  "node_charts (ChartNode m l b) = [m]"
| "node_charts (TabNode v l ty children) = concat (map node_charts children)"

fun sub_tabs :: "scope_node \<Rightarrow> scope_node list" where
  "sub_tabs (ChartNode m l b) = []"
| "sub_tabs (TabNode v l ty children) = TabNode v l ty children # concat (map sub_tabs children)"

fun typed_node :: "scope_node \<Rightarrow> bool" where
  "typed_node (ChartNode m l b) \<longleftrightarrow> True"
| "typed_node (TabNode v l ty children) \<longleftrightarrow> list_all (\<lambda>c. (sub_tabs c = [] \<or> is_tab c) \<and> typed_node c) children"

abbreviation node_tab_ids :: "scope_node \<Rightarrow> string list" where
  "node_tab_ids nd \<equiv> map tab_value (sub_tabs nd)"

definition in_scope :: "scope_node \<Rightarrow> string list \<Rightarrow> int \<Rightarrow> bool" where
  "in_scope nd scope m \<longleftrightarrow> (\<exists>s\<in>set (sub_tabs nd). tab_value s \<in> set scope \<and> m \<in> set (node_charts s))"

lemma chart_children_set: "m \<in> set (chart_children cs) \<longleftrightarrow> (\<exists>l b. ChartNode m l b \<in> set cs)"
  by (induction cs) (auto simp: chart_children_def List.map_filter_simps split: scope_node.splits)

lemma sub_tabs_self: "is_tab c \<Longrightarrow> c \<in> set (sub_tabs c)"
  by (cases c) auto

lemma set_put_distinct:
  assumes "distinct (map fst ps)"
  shows "set (fold (\<lambda>(k, v). obj_put k v) ps []) = set ps"
proof -
  let ?m = "fold (\<lambda>(k, v). obj_put k v) ps []"
  have "map_of (rev ps) = map_of ps" using assms by (subst map_of_inject_set) (simp_all add: rev_map [symmetric])
  then have e: "map_of ?m = map_of ps" using objd.get_put_all [of ps "[]"] by simp
  have d: "distinct (map fst ?m)" using objd.wf_put_all [of "[]" ps] objd.wf_distinct by simp
  show ?thesis using e map_of_inject_set [OF d assms] by blast
qed

lemma tab_ids_children:
  assumes "distinct (node_tab_ids (TabNode v l ty cs))"
  shows "distinct (map tab_value (filter is_tab cs))" "c \<in> set cs \<Longrightarrow> distinct (node_tab_ids c)" "c \<in> set cs \<Longrightarrow> v \<notin> set (node_tab_ids c)"
proof -
  have d: "distinct (concat (map node_tab_ids cs))" "v \<notin> set (concat (map node_tab_ids cs))"
    using assms by (auto simp: map_concat comp_def)
  have "distinct (concat (map node_tab_ids ds)) \<Longrightarrow> distinct (map tab_value (filter is_tab ds))" for ds
  proof (induction ds)
    case (Cons c ds)
    have "tab_value c \<notin> tab_value ` set (filter is_tab ds)" if "is_tab c"
    proof
      assume "tab_value c \<in> tab_value ` set (filter is_tab ds)"
      then obtain e where "e \<in> set ds" "is_tab e" "tab_value e = tab_value c" by auto
      then have "tab_value c \<in> set (node_tab_ids e)" using sub_tabs_self [of e] by (metis image_eqI list.set_map)
      then have "tab_value c \<in> set (concat (map node_tab_ids ds))" using \<open>e \<in> set ds\<close> by auto
      moreover have "tab_value c \<in> set (node_tab_ids c)" using that sub_tabs_self by simp
      ultimately show False using Cons.prems by auto
    qed
    then show ?case using Cons by auto
  qed simp
  then show "distinct (map tab_value (filter is_tab cs))" using d(1) by blast
  show "c \<in> set cs \<Longrightarrow> distinct (node_tab_ids c)" using d(1) by (auto simp: distinct_concat_iff)
  show "c \<in> set cs \<Longrightarrow> v \<notin> set (node_tab_ids c)" using d(2) by auto
qed

section \<open>The scope of a node\<close>

abbreviation tab_pairs :: "int \<Rightarrow> jsval list \<Rightarrow> scope_node list \<Rightarrow> (string \<times> filter_scope) list" where
  "tab_pairs f ck cs \<equiv> map (\<lambda>c. (tab_value c, scope_of_node f ck c)) (filter is_tab cs)"

definition tab_scopes :: "int \<Rightarrow> jsval list \<Rightarrow> scope_node list \<Rightarrow> filter_scope obj" where
  "tab_scopes f ck cs = fold (\<lambda>(key, s). obj_put key s) (tab_pairs f ck cs) []"

lemma set_tab_scopes:
  assumes "distinct (node_tab_ids (TabNode v l ty cs))"
  shows "set (tab_scopes f ck cs) = (\<lambda>c. (tab_value c, scope_of_node f ck c)) ` {c \<in> set cs. is_tab c}"
proof -
  have "distinct (map fst (tab_pairs f ck cs))" using tab_ids_children(1) [OF assms] by (simp add: comp_def)
  from set_put_distinct [OF this] show ?thesis by (simp add: tab_scopes_def)
qed

text \<open>How the scope of a node comes from its charts and the scopes of its tabs.\<close>

definition aggregated :: "jsval list \<Rightarrow> scope_node list \<Rightarrow> filter_scope obj \<Rightarrow> bool" where
  "aggregated ck cs ts \<longleftrightarrow>
     list_ex (is_checked ck) (chart_children cs) \<or>
     filter is_tab cs \<noteq> [] \<and> chart_children cs = [] \<and> list_all (\<lambda>(key, s). fs_scope s \<noteq> [] \<and> key = hd (fs_scope s)) ts"

lemma scope_of_node_scope:
  "fs_scope (scope_of_node f ck (TabNode v l ty cs)) =
     (if aggregated ck cs (tab_scopes f ck cs) then [v]
      else if filter is_tab cs = [] then []
      else concat (map (fs_scope \<circ> snd) (filter (\<lambda>(_, s). fs_scope s \<noteq> []) (tab_scopes f ck cs))))"
proof -
  have "map fs_scope (filter (\<lambda>s. fs_scope s \<noteq> []) (map snd ts)) = map (fs_scope \<circ> snd) (filter (\<lambda>(_, s). fs_scope s \<noteq> []) ts)"
    for ts :: "filter_scope obj" by (induction ts) auto
  then show ?thesis
    by (auto simp: node_scope_def getTabChildrenScope_def tab_scopes_def [symmetric] aggregated_def Let_def)
qed

lemma scope_of_tab:
  assumes "distinct (node_tab_ids (TabNode v l ty cs))" and "\<not> aggregated ck cs (tab_scopes f ck cs)"
  shows "set (fs_scope (scope_of_node f ck (TabNode v l ty cs))) = (\<Union>c\<in>{c \<in> set cs. is_tab c}. set (fs_scope (scope_of_node f ck c)))"
proof -
  let ?ts = "tab_scopes f ck cs"
  have "set (fs_scope (scope_of_node f ck (TabNode v l ty cs))) = (\<Union>p\<in>set ?ts. set (fs_scope (snd p)))"
  proof (cases "filter is_tab cs = []")
    case True
    then have "?ts = []" by (simp add: tab_scopes_def)
    then show ?thesis unfolding scope_of_node_scope if_not_P [OF assms(2)] if_P [OF True] by simp
  next
    case False
    have "set (concat (map (fs_scope \<circ> snd) (filter (\<lambda>(_, s). fs_scope s \<noteq> []) ts))) = (\<Union>p\<in>set ts. set (fs_scope (snd p)))"
      for ts :: "filter_scope obj" by (induction ts) auto
    then show ?thesis unfolding scope_of_node_scope if_not_P [OF assms(2)] if_not_P [OF False] .
  qed
  also have "\<dots> = (\<Union>c\<in>{c \<in> set cs. is_tab c}. set (fs_scope (scope_of_node f ck c)))"
    unfolding set_tab_scopes [OF assms(1)] by simp
  finally show ?thesis .
qed

lemma scope_tab_ids:
  "distinct (node_tab_ids nd) \<Longrightarrow> set (fs_scope (scope_of_node f ck nd)) \<subseteq> set (node_tab_ids nd)"
proof (induction nd)
  case (TabNode v l ty cs)
  show ?case
  proof (cases "aggregated ck cs (tab_scopes f ck cs)")
    case True
    then show ?thesis by (simp add: scope_of_node_scope del: scope_of_node.simps)
  next
    case False
    show ?thesis unfolding scope_of_tab [OF TabNode.prems False]
      using TabNode.IH tab_ids_children(2) [OF TabNode.prems] by fastforce
  qed
qed simp

text \<open>Every checked chart is in the scope.\<close>

lemma scope_covers:
  assumes "m \<in> set (node_charts nd)" and "is_checked ck m" and "distinct (node_tab_ids nd)" and "typed_node nd" and "sub_tabs nd \<noteq> []"
  shows "in_scope nd (fs_scope (scope_of_node f ck nd)) m"
  using assms
proof (induction nd)
  case (TabNode v l ty cs)
  show ?case
  proof (cases "aggregated ck cs (tab_scopes f ck cs)")
    case True
    then show ?thesis using TabNode.prems(1) by (simp add: in_scope_def scope_of_node_scope del: scope_of_node.simps)
  next
    case False
    from TabNode.prems(1) obtain c where c: "c \<in> set cs" "m \<in> set (node_charts c)" by auto
    have "sub_tabs c \<noteq> []"
    proof (cases c)
      case (ChartNode m' l' b')
      then have "m \<in> set (chart_children cs)" using c by (auto simp: chart_children_set)
      then show ?thesis using False TabNode.prems(2) by (auto simp: aggregated_def list_ex_iff)
    qed simp
    moreover from this have t: "is_tab c" "typed_node c" using TabNode.prems(4) c(1) by (auto simp: list_all_iff)
    ultimately have "in_scope c (fs_scope (scope_of_node f ck c)) m"
      using TabNode.IH [OF c(1) c(2) TabNode.prems(2)] tab_ids_children(2) [OF TabNode.prems(3) c(1)] by blast
    moreover have "set (fs_scope (scope_of_node f ck c)) \<subseteq> set (fs_scope (scope_of_node f ck (TabNode v l ty cs)))"
      unfolding scope_of_tab [OF TabNode.prems(3) False] using c(1) t(1) by auto
    ultimately show ?thesis using c(1) unfolding in_scope_def by auto
  qed
qed simp

section \<open>The charts left out\<close>

lemma scopes_of_tabs:
  assumes "distinct (node_tab_ids (TabNode v l ty cs))"
  shows "set (concat (map (fs_scope \<circ> snd) (tab_scopes f ck cs))) = (\<Union>c\<in>{c \<in> set cs. is_tab c}. set (fs_scope (scope_of_node f ck c)))"
    and "set (concat (map (fs_immune \<circ> snd) (tab_scopes f ck cs))) = (\<Union>c\<in>{c \<in> set cs. is_tab c}. set (fs_immune (scope_of_node f ck c)))"
  using set_tab_scopes [OF assms, of f ck] by simp_all

abbreviation own_immune :: "int \<Rightarrow> jsval list \<Rightarrow> scope_node list \<Rightarrow> int list" where
  "own_immune f ck cs \<equiv> filter (\<lambda>m. f \<noteq> m \<and> \<not> is_checked ck m) (chart_children cs)"

lemma immune_aggregated:
  assumes "aggregated ck cs (tab_scopes f ck cs)" and "distinct (node_tab_ids (TabNode v l ty cs))"
  shows "set (fs_immune (scope_of_node f ck (TabNode v l ty cs))) =
    set (own_immune f ck cs) \<union> (\<Union>c\<in>{c \<in> set cs. is_tab c}. set (fs_immune (scope_of_node f ck c))) \<union>
    set (getImmuneChartIdsFromTabsNotInScope (filter is_tab cs) (concat (map (fs_scope \<circ> snd) (tab_scopes f ck cs))))"
proof (cases "filter is_tab cs = []")
  case True
  then have "{c \<in> set cs. is_tab c} = {}" by (auto simp: filter_empty_conv)
  then show ?thesis using assms(1) True
    by (simp add: node_scope_def aggregated_def Let_def getImmuneChartIdsFromTabsNotInScope_def del: Collect_empty_eq)
next
  case False
  have "fs_immune (scope_of_node f ck (TabNode v l ty cs)) = own_immune f ck cs @
      nub (getImmuneChartIdsFromTabsNotInScope (filter is_tab cs) (concat (map (fs_scope \<circ> snd) (tab_scopes f ck cs))) @
           concat (map (fs_immune \<circ> snd) (tab_scopes f ck cs)))"
    using assms(1) False by (auto simp: node_scope_def getTabChildrenScope_def tab_scopes_def [symmetric] aggregated_def Let_def)
  then show ?thesis using scopes_of_tabs(2) [OF assms(2), of f ck] by auto
qed

lemma immune_not_aggregated:
  assumes "\<not> aggregated ck cs (tab_scopes f ck cs)" and "distinct (node_tab_ids (TabNode v l ty cs))"
  shows "set (fs_immune (scope_of_node f ck (TabNode v l ty cs))) \<subseteq>
      set (own_immune f ck cs) \<union> (\<Union>c\<in>{c \<in> set cs. is_tab c}. set (fs_immune (scope_of_node f ck c)))"
    and "c \<in> set cs \<Longrightarrow> is_tab c \<Longrightarrow> fs_scope (scope_of_node f ck c) \<noteq> [] \<Longrightarrow>
      set (fs_immune (scope_of_node f ck c)) \<subseteq> set (fs_immune (scope_of_node f ck (TabNode v l ty cs)))"
proof -
  let ?ts = "tab_scopes f ck cs" and ?in = "filter (\<lambda>s. fs_scope s \<noteq> []) (map snd (tab_scopes f ck cs))"
  have i: "fs_immune (scope_of_node f ck (TabNode v l ty cs)) =
      (if filter is_tab cs = [] then own_immune f ck cs
       else if ?in \<noteq> [] then concat (map fs_immune ?in) else concat (map (fs_immune \<circ> snd) ?ts) @ own_immune f ck cs)"
    using assms(1) by (auto simp: node_scope_def getTabChildrenScope_def tab_scopes_def [symmetric] aggregated_def Let_def)
  have "set (concat (map fs_immune ?in)) \<subseteq> set (concat (map (fs_immune \<circ> snd) ?ts))" by auto
  then show "set (fs_immune (scope_of_node f ck (TabNode v l ty cs))) \<subseteq>
      set (own_immune f ck cs) \<union> (\<Union>c\<in>{c \<in> set cs. is_tab c}. set (fs_immune (scope_of_node f ck c)))"
    unfolding i scopes_of_tabs(2) [OF assms(2), symmetric] by auto
  assume c: "c \<in> set cs" "is_tab c" "fs_scope (scope_of_node f ck c) \<noteq> []"
  then have "(tab_value c, scope_of_node f ck c) \<in> set ?ts" unfolding set_tab_scopes [OF assms(2)] by blast
  then have "scope_of_node f ck c \<in> set ?in" using c(3) by force
  moreover from this have "?in \<noteq> []" by (metis empty_iff list.set(1))
  moreover have "filter is_tab cs \<noteq> []" using c(1,2) by (auto simp: filter_empty_conv)
  ultimately show "set (fs_immune (scope_of_node f ck c)) \<subseteq> set (fs_immune (scope_of_node f ck (TabNode v l ty cs)))"
    unfolding i by auto
qed

lemma immune_below_unchecked:
  assumes "m \<in> set (immune_below S c)" and "is_tab c" and "typed_node c" and "distinct (node_tab_ids c)"
    and "set (fs_scope (scope_of_node f ck c)) \<subseteq> set S"
  shows "\<not> is_checked ck m"
proof
  assume m: "is_checked ck m"
  from assms(1) obtain v l ty ds w l' ty' es where c: "c = TabNode v l ty ds" "v \<notin> set S" "TabNode w l' ty' es \<in> set ds" "w \<notin> set S"
      "m \<in> set (chart_children es)"
    by (cases c) (auto split: if_splits scope_node.splits)
  let ?w = "TabNode w l' ty' es"
  have "aggregated ck es (tab_scopes f ck es)" using c(5) m by (auto simp: aggregated_def list_ex_iff)
  then have w: "set (fs_scope (scope_of_node f ck ?w)) = {w}" by (simp add: scope_of_node_scope del: scope_of_node.simps)
  have "is_tab ?w" using assms(3) c(1,3) by (auto simp: list_all_iff)
  show False
  proof (cases "aggregated ck ds (tab_scopes f ck ds)")
    case True
    then show ?thesis using assms(5) c(1,2) by (simp add: scope_of_node_scope del: scope_of_node.simps)
  next
    case False
    have "w \<in> set (fs_scope (scope_of_node f ck c))"
      using scope_of_tab [OF assms(4) [unfolded c(1)] False] c(1,3) w \<open>is_tab ?w\<close> by blast
    then show ?thesis using assms(5) c(4) by blast
  qed
qed

text \<open>No checked chart is left out.\<close>

lemma immune_unchecked:
  assumes "m \<in> set (fs_immune (scope_of_node f ck nd))" and "distinct (node_tab_ids nd)" and "typed_node nd"
  shows "\<not> is_checked ck m"
  using assms
proof (induction nd)
  case (TabNode v l ty cs)
  have IH: "\<not> is_checked ck m" if "c \<in> set cs" "is_tab c" "m \<in> set (fs_immune (scope_of_node f ck c))" for c
    using TabNode.IH [OF that(1,3)] tab_ids_children(2) [OF TabNode.prems(2) that(1)] TabNode.prems(3) that(1) by (auto simp: list_all_iff)
  show ?case
  proof (cases "aggregated ck cs (tab_scopes f ck cs)")
    case True
    let ?S = "concat (map (fs_scope \<circ> snd) (tab_scopes f ck cs))"
    from TabNode.prems(1) have "m \<in> set (own_immune f ck cs) \<or> (\<exists>c\<in>set cs. is_tab c \<and> m \<in> set (fs_immune (scope_of_node f ck c))) \<or>
        (\<exists>c\<in>set cs. is_tab c \<and> m \<in> set (immune_below ?S c))"
      unfolding immune_aggregated [OF True TabNode.prems(2)] getImmuneChartIdsFromTabsNotInScope_def by auto
    moreover have "\<not> is_checked ck m" if "c \<in> set cs" "is_tab c" "m \<in> set (immune_below ?S c)" for c
    proof (rule immune_below_unchecked [OF that(3,2)])
      show "typed_node c" using TabNode.prems(3) that(1) by (simp add: list_all_iff)
      show "distinct (node_tab_ids c)" by (rule tab_ids_children(2) [OF TabNode.prems(2) that(1)])
      show "set (fs_scope (scope_of_node f ck c)) \<subseteq> set ?S" using scopes_of_tabs(1) [OF TabNode.prems(2), of f ck] that(1,2) by blast
    qed
    ultimately show ?thesis using IH by auto
  next
    case False
    then have "m \<in> set (own_immune f ck cs) \<or> (\<exists>c\<in>set cs. is_tab c \<and> m \<in> set (fs_immune (scope_of_node f ck c)))"
      using immune_not_aggregated(1) [OF False TabNode.prems(2)] TabNode.prems(1) by auto
    then show ?thesis using IH by auto
  qed
qed simp

section \<open>Tabs that are not nested\<close>

fun flat_node :: "scope_node \<Rightarrow> bool" where
  "flat_node (ChartNode m l b) \<longleftrightarrow> True"
| "flat_node (TabNode v l ty children) \<longleftrightarrow> list_all (\<lambda>c. length (sub_tabs c) \<le> 1) children"

lemma leaf_tab:
  assumes "is_tab c" and "length (sub_tabs c) \<le> 1"
  shows "m \<in> set (node_charts c) \<Longrightarrow> m \<notin> set (fs_immune (scope_of_node f ck c)) \<Longrightarrow> is_checked ck m \<or> m = f"
    and "set (fs_scope (scope_of_node f ck c)) \<subseteq> {tab_value c}"
proof -
  obtain v l ty cs where c: "c = TabNode v l ty cs" using assms(1) by (cases c) auto
  have ch: "\<exists>l b. d = ChartNode (hd (node_charts d)) l b" if "d \<in> set cs" for d
    using assms(2) that by (cases d) (auto simp: c)
  have "\<not> is_tab d" if "d \<in> set cs" for d using ch [OF that] by (metis is_tab.simps(1))
  then have nt: "filter is_tab cs = []" by (simp add: filter_empty_conv)
  then have s: "scope_of_node f ck c = (if list_ex (is_checked ck) (chart_children cs)
      then \<lparr>fs_scope = [v], fs_immune = own_immune f ck cs\<rparr> else \<lparr>fs_scope = [], fs_immune = own_immune f ck cs\<rparr>)"
    by (simp add: c node_scope_def Let_def)
  then show "set (fs_scope (scope_of_node f ck c)) \<subseteq> {tab_value c}" by (simp add: c)
  assume m: "m \<in> set (node_charts c)" "m \<notin> set (fs_immune (scope_of_node f ck c))"
  from m(1) obtain d where d: "d \<in> set cs" "m \<in> set (node_charts d)" by (auto simp: c)
  with ch [OF d(1)] have "m \<in> set (chart_children cs)" by (cases d) (auto simp: chart_children_set)
  then show "is_checked ck m \<or> m = f" using m(2) s by (auto split: if_splits)
qed

lemma flat_scope_exact:
  assumes "distinct (node_tab_ids nd)" and "typed_node nd" and "flat_node nd"
    and "in_scope nd (fs_scope (scope_of_node f ck nd)) m" and "m \<notin> set (fs_immune (scope_of_node f ck nd))"
  shows "is_checked ck m \<or> m = f"
proof (cases nd)
  case (ChartNode m' l b)
  then show ?thesis using assms(4) by (simp add: in_scope_def)
next
  case nd: (TabNode v l ty cs)
  have d: "distinct (node_tab_ids (TabNode v l ty cs))" using assms(1) nd by simp
  from assms(4) obtain s where s: "s \<in> set (sub_tabs nd)" "tab_value s \<in> set (fs_scope (scope_of_node f ck nd))" "m \<in> set (node_charts s)"
    by (auto simp: in_scope_def)
  have leaf: "length (sub_tabs c) \<le> 1" "sub_tabs c = [] \<or> is_tab c" if "c \<in> set cs" for c
    using assms(2,3) that nd by (auto simp: list_all_iff)
  show ?thesis
  proof (cases "aggregated ck cs (tab_scopes f ck cs)")
    case True
    note im = immune_aggregated [OF True d, folded nd]
    have "tab_value s = v" using s(2) True nd by (simp add: scope_of_node_scope del: scope_of_node.simps)
    moreover have "tab_value s \<noteq> v" if "c \<in> set cs" "s \<in> set (sub_tabs c)" for c using tab_ids_children(3) [OF d that(1)] that(2) by auto
    ultimately have "s = nd" using s(1) by (auto simp: nd)
    then have "m \<in> set (node_charts nd)" using s(3) by simp
    then obtain c where c: "c \<in> set cs" "m \<in> set (node_charts c)" by (auto simp: nd)
    show ?thesis
    proof (cases c)
      case (ChartNode m' l' b')
      then have "m \<in> set (chart_children cs)" using c by (auto simp: chart_children_set)
      then show ?thesis using assms(5) unfolding im by auto
    next
      case (TabNode v' l' ty' cs')
      then have t: "is_tab c" using leaf(2) [OF c(1)] by simp
      have "m \<notin> set (fs_immune (scope_of_node f ck c))" using assms(5) c(1) t unfolding im by blast
      then show ?thesis using leaf_tab(1) [OF t leaf(1) [OF c(1)] c(2)] by blast
    qed
  next
    case False
    from s(2) obtain c where c: "c \<in> set cs" "is_tab c" "tab_value s \<in> set (fs_scope (scope_of_node f ck c))"
      unfolding nd scope_of_tab [OF d False] by blast
    then have "tab_value s = tab_value c" using leaf_tab(2) [OF c(2) leaf(1) [OF c(1)], of f ck] by blast
    moreover have "c \<in> set (sub_tabs nd)" using c(1) sub_tabs_self [OF c(2)] by (auto simp: nd)
    ultimately have "s = c" using assms(1) s(1) by (metis distinct_map inj_onD)
    moreover have "m \<notin> set (fs_immune (scope_of_node f ck c))"
      using immune_not_aggregated(2) [OF False d c(1,2)] c(3) assms(5) nd by fastforce
    ultimately show ?thesis using leaf_tab(1) [OF c(2) leaf(1) [OF c(1)]] s(3) by blast
  qed
qed

end
