(* ===== verification/LegacyLayout.thy ===== *)
theory LegacyLayout
  imports LegacyFacts LayoutWitnesses
begin

text \<open>
  The scope selector on a layout: the tree it shows follows the layout, the charts a saved scope
  reaches, and both together. A dashboard with a tab inside a tab shows where charts that are not
  checked come into the scope.
\<close>

section \<open>The charts a scope reaches\<close>

definition charts_below :: "components \<Rightarrow> string \<Rightarrow> int set" where
  "charts_below lay x = {m. \<exists>y\<in>below (kids_of lay) x. chart_at lay y m}"

lemma charts_below_children:
  "charts_below lay x = {m. chart_at lay x m} \<union> (\<Union>y\<in>{y. child_of (kids_of lay) x y}. charts_below lay y)"
proof -
  have "y \<in> below (kids_of lay) x \<longleftrightarrow> y = x \<or> (\<exists>z. child_of (kids_of lay) x z \<and> y \<in> below (kids_of lay) z)" for y
    using below_children [of "kids_of lay" x] by (simp add: set_eq_iff)
  then show ?thesis unfolding charts_below_def by auto
qed

lemma charts_below_inner:
  assumes "\<nexists>m. chart_at lay x m"
  shows "charts_below lay x = (\<Union>y\<in>{y. child_of (kids_of lay) x y}. charts_below lay y)"
proof -
  have "{m. chart_at lay x m} = {}" using assms by simp
  then show ?thesis by (subst charts_below_children) (simp only: Un_empty_left)
qed

lemma chart_of_component:
  assumes "scope_layout lay" and "map_of lay x = Some c"
  shows "node_chart_id c = Some m \<longleftrightarrow> chart_at lay x m" "co_type c = ''CHART'' \<Longrightarrow> \<exists>m. node_chart_id c = Some m \<and> co_children c = []"
proof -
  have "chart_at lay x m \<Longrightarrow> m \<noteq> 0" by (rule chart_atD(2) [OF assms(1)])
  then show "node_chart_id c = Some m \<longleftrightarrow> chart_at lay x m"
    using assms(2) by (auto simp: node_chart_id_def chart_at_def split: option.splits)
  assume "co_type c = ''CHART''"
  then have "is_chart lay x" using assms(2) by (simp add: is_chart_def)
  then obtain k where k: "chart_at lay x k" using is_chart_at [OF assms(1)] by blast
  then have "node_chart_id c = Some k" using assms(2) chart_atD(2) [OF assms(1) k] by (auto simp: node_chart_id_def chart_at_def)
  moreover have "co_children c = []" using chart_atD(3) [OF assms(1) k] assms(2) by (simp add: kids_of_def)
  ultimately show "\<exists>m. node_chart_id c = Some m \<and> co_children c = []" by blast
qed

lemma scope_charts_ok:
  assumes "scope_layout lay" and "x \<in> dom (map_of lay)" and "card (below (kids_of lay) x) \<le> n"
  shows "\<exists>acc'. scope_charts n lay immune x acc = Inr acc' \<and> set acc' = set acc \<union> (charts_below lay x - set immune)"
  using assms(2,3)
proof (induction n arbitrary: x acc)
  case 0
  then show ?case using below_finite [OF assms(1) 0(1)] by simp
next
  case (Suc n)
  obtain c where c: "map_of lay x = Some c" using Suc.prems(1) by auto
  have kids: "y \<in> set (co_children c) \<longleftrightarrow> child_of (kids_of lay) x y" for y using c by (auto simp: child_of_def kids_of_def)
  have "\<exists>acc'. rfold (scope_charts n lay immune) (co_children c) acc = Inr acc' \<and>
      set acc' = set acc \<union> (\<Union>y\<in>set (co_children c). charts_below lay y - set immune)"
  proof (rule rfold_collects)
    fix y acc assume "y \<in> set (co_children c)"
    then have y: "child_of (kids_of lay) x y" using kids by blast
    show "\<exists>acc'. scope_charts n lay immune y acc = Inr acc' \<and> set acc' = set acc \<union> (charts_below lay y - set immune)"
      using Suc.IH [OF child_smaller(1) [OF assms(1) y]] child_smaller(2) [OF assms(1) y] Suc.prems(2) by simp
  qed
  moreover have "charts_below lay x = {m. node_chart_id c = Some m} \<union> (\<Union>y\<in>set (co_children c). charts_below lay y)"
    unfolding charts_below_children [of lay x] chart_of_component(1) [OF assms(1) c] by (auto simp: kids)
  moreover have "scope_charts (Suc n) lay immune x acc = (case node_chart_id c of
      Some m \<Rightarrow> if m \<notin> set immune then Inr (acc @ [m]) else rfold (scope_charts n lay immune) (co_children c) acc
    | None \<Rightarrow> rfold (scope_charts n lay immune) (co_children c) acc)"
    using c by (auto simp: node_chart_id_def split: option.splits)
  moreover have "co_children c = []" if "node_chart_id c = Some m" for m
    using that chart_of_component(2) [OF assms(1) c] by (auto simp: node_chart_id_def split: option.splits if_splits)
  ultimately show ?case by (cases "node_chart_id c") auto
qed

lemma chartIdsInFilterScope_ok:
  assumes "scope_layout lay" and "set (fs_scope sc) \<subseteq> dom (map_of lay)" and "length lay \<le> n"
  shows "\<exists>ids. chartIdsInFilterScope n lay (Some sc) = Inr ids \<and> set ids = (\<Union>v\<in>set (fs_scope sc). charts_below lay v - set (fs_immune sc))"
proof -
  have "card (below (kids_of lay) x) \<le> n" if "x \<in> dom (map_of lay)" for x
  proof -
    have "card (below (kids_of lay) x) \<le> card (dom (map_of lay))"
      using below_in_dom [OF scope_layoutD(2) [OF assms(1)], of x] that by (intro card_mono) (auto simp: finite_dom_map_of)
    then show ?thesis using card_dom_le [of lay] assms(3) by linarith
  qed
  then have "\<exists>ids. rfold (scope_charts n lay (fs_immune sc)) (fs_scope sc) [] = Inr ids \<and>
      set ids = set [] \<union> (\<Union>v\<in>set (fs_scope sc). charts_below lay v - set (fs_immune sc))"
    using assms(2) by (intro rfold_collects scope_charts_ok [OF assms(1)]) blast+
  then show ?thesis by (simp add: chartIdsInFilterScope_def Let_def)
qed

section \<open>The tree of a layout\<close>

definition only_root :: "components \<Rightarrow> bool" where
  "only_root lay \<longleftrightarrow> (\<forall>x c. map_of lay x = Some c \<longrightarrow> co_type c = ''ROOT'' \<longrightarrow> x = ''ROOT_ID'')"

lemma root_no_parent:
  assumes "scope_layout lay" and "p \<in> below (kids_of lay) ''ROOT_ID''"
  shows "\<not> child_of (kids_of lay) p ''ROOT_ID''"
proof
  assume "child_of (kids_of lay) p ''ROOT_ID''"
  then have "pars lay ''ROOT_ID'' = Some (or_empty (pars lay p) @ [p])"
    using assms(2) scope_layoutD(4) [OF assms(1)] unfolding paths_below_def by blast
  then show False using scope_layoutD(6) [OF assms(1)] by (simp add: or_empty_def)
qed

text \<open>The nodes made for the subtree of a component.\<close>

definition tab_ok :: "components \<Rightarrow> scope_node \<Rightarrow> bool" where
  "tab_ok lay s \<longleftrightarrow> set (node_charts s) = charts_below lay (tab_value s) \<and>
     set (node_tab_ids s) \<subseteq> below (kids_of lay) (tab_value s) \<and>
     (\<exists>c. map_of lay (tab_value s) = Some c \<and> is_container (co_type c))"

definition forest_ok :: "components \<Rightarrow> string set \<Rightarrow> scope_node list \<Rightarrow> bool" where
  "forest_ok lay X ns \<longleftrightarrow>
     set (concat (map node_charts ns)) = (\<Union>x\<in>X. charts_below lay x) \<and>
     set (concat (map node_tab_ids ns)) \<subseteq> (\<Union>x\<in>X. below (kids_of lay) x) \<and>
     distinct (concat (map node_tab_ids ns)) \<and>
     (\<forall>s\<in>set (concat (map sub_tabs ns)). tab_ok lay s) \<and>
     (\<forall>nd\<in>set ns. typed_node nd)"

definition tabs_only :: "scope_node list \<Rightarrow> bool" where
  "tabs_only ns \<longleftrightarrow> (\<forall>nd\<in>set ns. sub_tabs nd = [] \<or> is_tab nd)"

lemma forest_okD:
  assumes "forest_ok lay X ns"
  shows "set (concat (map node_charts ns)) = (\<Union>x\<in>X. charts_below lay x)" "set (concat (map node_tab_ids ns)) \<subseteq> (\<Union>x\<in>X. below (kids_of lay) x)"
    and "distinct (concat (map node_tab_ids ns))" "\<forall>s\<in>set (concat (map sub_tabs ns)). tab_ok lay s" "\<forall>nd\<in>set ns. typed_node nd"
  using assms unfolding forest_ok_def by argo+

lemma forest_ok_append:
  assumes "forest_ok lay X ns" and "forest_ok lay Y ms" and "\<And>x y. x \<in> X \<Longrightarrow> y \<in> Y \<Longrightarrow> below (kids_of lay) x \<inter> below (kids_of lay) y = {}"
  shows "forest_ok lay (X \<union> Y) (ns @ ms)"
  unfolding forest_ok_def map_append concat_append set_append UN_Un ball_Un distinct_append
proof (intro conjI)
  note a = forest_okD [OF assms(1)] and b = forest_okD [OF assms(2)]
  have "(\<Union>x\<in>X. below (kids_of lay) x) \<inter> (\<Union>x\<in>Y. below (kids_of lay) x) = {}" using assms(3) by blast
  then show "set (concat (map node_tab_ids ns)) \<inter> set (concat (map node_tab_ids ms)) = {}" using a(2) b(2) by blast
  show "set (concat (map node_charts ns)) \<union> set (concat (map node_charts ms)) = \<Union> (charts_below lay ` X) \<union> \<Union> (charts_below lay ` Y)"
    by (simp only: a(1) b(1))
  show "set (concat (map node_tab_ids ns)) \<union> set (concat (map node_tab_ids ms)) \<subseteq> \<Union> (below (kids_of lay) ` X) \<union> \<Union> (below (kids_of lay) ` Y)"
    by (rule Un_mono [OF a(2) b(2)])
qed (rule forest_okD(3-5) [OF assms(1)] forest_okD(3-5) [OF assms(2)])+

lemma forest_ok_container:
  assumes "forest_ok lay {y. child_of (kids_of lay) x y} ns" and "tabs_only ns" and "forest (kids_of lay)"
    and "map_of lay x = Some c" and "is_container ty" and "co_type c = ty" and "\<nexists>m. chart_at lay x m"
  shows "forest_ok lay {x} [TabNode x l ty ns]"
proof -
  let ?n = "TabNode x l ty ns" and ?C = "{y. child_of (kids_of lay) x y}"
  note a = forest_okD [OF assms(1)]
  have ch: "set (node_charts ?n) = charts_below lay x"
    unfolding charts_below_inner [OF assms(7)] node_charts.simps a(1) ..
  have bl: "(\<Union>y\<in>?C. below (kids_of lay) y) \<subseteq> below (kids_of lay) x - {x}"
    using below_children [of "kids_of lay" x] forest_not_above [OF assms(3), of x] by blast
  have ids: "node_tab_ids ?n = x # concat (map node_tab_ids ns)" by (simp add: map_concat comp_def)
  have sub: "set (concat (map node_tab_ids ns)) \<subseteq> below (kids_of lay) x - {x}" using a(2) bl by blast
  then have "set (node_tab_ids ?n) \<subseteq> below (kids_of lay) x" "distinct (node_tab_ids ?n)" unfolding ids using a(3) by auto
  moreover have "tab_ok lay ?n" using ch calculation(1) assms(4-6) by (simp add: tab_ok_def)
  moreover have "typed_node ?n" using a(5) assms(2) by (simp add: list_all_iff tabs_only_def)
  moreover have "\<forall>s\<in>set (concat (map sub_tabs ns)). tab_ok lay s" by (rule a(4))
  ultimately show ?thesis using ch unfolding forest_ok_def by (simp del: node_charts.simps typed_node.simps)
qed

lemma forest_ok_inner:
  assumes "forest_ok lay {y. child_of (kids_of lay) x y} ns" and "\<nexists>m. chart_at lay x m"
  shows "forest_ok lay {x} ns"
proof -
  note a = forest_okD [OF assms(1)]
  have "set (concat (map node_charts ns)) = (\<Union>y\<in>{x}. charts_below lay y)" unfolding a(1) using charts_below_inner [OF assms(2)] by simp
  moreover have "set (concat (map node_tab_ids ns)) \<subseteq> (\<Union>y\<in>{x}. below (kids_of lay) y)"
    using a(2) below_children [of "kids_of lay" x] by blast
  ultimately show ?thesis unfolding forest_ok_def using a(3-5) by argo
qed

lemma forest_ok_chart:
  assumes "scope_layout lay" and "chart_at lay x m"
  shows "forest_ok lay {x} [ChartNode m l b]"
proof -
  have "below (kids_of lay) x = {x}" using below_leaf [of "kids_of lay" x] chart_atD(3) [OF assms] by simp
  moreover have "chart_at lay x k \<longleftrightarrow> k = m" for k using assms(2) by (auto simp: chart_at_def)
  ultimately have "charts_below lay x = {m}" by (simp add: charts_below_def)
  then show ?thesis by (simp add: forest_ok_def)
qed

abbreviation nodes_loop :: "nat \<Rightarrow> (string \<Rightarrow> string) \<Rightarrow> components \<Rightarrow> int option \<Rightarrow> string list \<Rightarrow> scope_node list \<Rightarrow> scope_node list res" where
  "nodes_loop n t lay sel \<equiv> rfold (\<lambda>child children.
              case map_of lay child of
                None \<Rightarrow> Inl TypeError
              | Some c \<Rightarrow> rbind (nodes_below n t lay sel c) (\<lambda>r. Inr (children @ as_nodes r)))"

lemma nodes_loop_ok:
  assumes s: "scope_layout lay" and "distinct cs" and "\<forall>y\<in>set cs. child_of (kids_of lay) x y"
    and step: "\<And>y d. child_of (kids_of lay) x y \<Longrightarrow> map_of lay y = Some d \<Longrightarrow>
      \<exists>r. nodes_below n t lay sel d = Inr r \<and> forest_ok lay {y} (as_nodes r) \<and> tabs_only (as_nodes r)"
  shows "\<exists>ns. nodes_loop n t lay sel cs acc = Inr (acc @ ns) \<and> forest_ok lay (set cs) ns \<and> tabs_only ns"
  using assms(2,3)
proof (induction cs arbitrary: acc)
  case Nil
  then show ?case by (simp add: forest_ok_def tabs_only_def)
next
  case (Cons y cs)
  have y: "child_of (kids_of lay) x y" using Cons.prems(2) by simp
  from child_smaller(1) [OF s y] obtain d where d: "map_of lay y = Some d" by auto
  from step [OF y d] obtain r where r: "nodes_below n t lay sel d = Inr r" "forest_ok lay {y} (as_nodes r)" "tabs_only (as_nodes r)" by blast
  from Cons.IH [of "acc @ as_nodes r"] Cons.prems obtain ns where
    ns: "nodes_loop n t lay sel cs (acc @ as_nodes r) = Inr ((acc @ as_nodes r) @ ns)" "forest_ok lay (set cs) ns" "tabs_only ns" by auto
  have "forest_ok lay ({y} \<union> set cs) (as_nodes r @ ns)"
  proof (rule forest_ok_append [OF r(2) ns(2)])
    fix a b assume "a \<in> {y}" "b \<in> set cs"
    then show "below (kids_of lay) a \<inter> below (kids_of lay) b = {}"
      using siblings_disjoint [OF scope_layoutD(2) [OF s] y, of b] Cons.prems by auto
  qed
  moreover have "tabs_only (as_nodes r @ ns)" using r(3) ns(3) by (auto simp: tabs_only_def)
  moreover have "nodes_loop n t lay sel (y # cs) acc = Inr (acc @ (as_nodes r @ ns))" using d r(1) ns(1) by simp
  ultimately show ?case by auto
qed

lemma nodes_below_ok:
  assumes s: "scope_layout lay" and o: "only_root lay"
    and "x \<in> below (kids_of lay) ''ROOT_ID''" and "map_of lay x = Some c" and "card (below (kids_of lay) x) \<le> n"
  shows "\<exists>r. nodes_below n t lay sel c = Inr r \<and> forest_ok lay {x} (as_nodes r) \<and> (x \<noteq> ''ROOT_ID'' \<longrightarrow> tabs_only (as_nodes r)) \<and>
    (is_container (co_type c) \<longrightarrow> (\<exists>l ns. r = Inl (TabNode x l (co_type c) ns) \<and> tabs_only ns))"
  using assms(3-5)
proof (induction n arbitrary: x c)
  case 0
  then show ?case using below_finite [OF s, of x] by auto
next
  case (Suc n)
  show ?case
  proof (cases "node_chart_id c")
    case (Some m)
    then have m: "chart_at lay x m" using chart_of_component(1) [OF s Suc.prems(2)] by blast
    then have "\<not> is_container (co_type c)" using Suc.prems(2) by (auto simp: chart_at_def is_container_def)
    then show ?thesis using Some forest_ok_chart [OF s m] by (auto simp: as_nodes_def chart_node_def tabs_only_def)
  next
    case None
    then have nc: "\<nexists>m. chart_at lay x m" using chart_of_component(1) [OF s Suc.prems(2)] by simp
    have f: "forest (kids_of lay)" and id: "co_id c = x" using scope_layoutD(1,2) [OF s] Suc.prems(2) by (auto simp: layout_ok_def)
    have kx: "kids_of lay x = Some (co_children c)" using Suc.prems(2) by (simp add: kids_of_def)
    have kids: "set (co_children c) = {y. child_of (kids_of lay) x y}" using kx by (auto simp: child_of_def)
    have "\<exists>r. nodes_below n t lay sel d = Inr r \<and> forest_ok lay {y} (as_nodes r) \<and> tabs_only (as_nodes r)"
      if y: "child_of (kids_of lay) x y" "map_of lay y = Some d" for y d
    proof -
      have "y \<noteq> ''ROOT_ID''" using y(1) root_no_parent [OF s Suc.prems(1)] by blast
      moreover have "card (below (kids_of lay) y) \<le> n" using child_smaller(2) [OF s y(1)] Suc.prems(3) by simp
      ultimately show ?thesis using Suc.IH [OF below_step [OF Suc.prems(1) y(1)] y(2)] by blast
    qed
    with nodes_loop_ok [OF s forestD(1) [OF f kx], of x n t sel "[]"] kids obtain ns where
      ns: "nodes_loop n t lay sel (co_children c) [] = Inr ns" "forest_ok lay {y. child_of (kids_of lay) x y} ns" "tabs_only ns" by auto
    have r: "nodes_below (Suc n) t lay sel c = Inr (container_node t c ns)" using None ns(1) by simp
    show ?thesis
    proof (cases "is_container (co_type c)")
      case True
      then obtain l where l: "container_node t c ns = Inl (TabNode x l (co_type c) ns)" by (auto simp: container_node_def id)
      have "tabs_only [TabNode x l (co_type c) ns]" if "x \<noteq> ''ROOT_ID''"
        using that True o Suc.prems(2) by (auto simp: tabs_only_def is_container_def only_root_def)
      then show ?thesis using r l forest_ok_container [OF ns(2,3) f Suc.prems(2) True refl nc] ns(3) by (auto simp: as_nodes_def)
    next
      case False
      then show ?thesis using r forest_ok_inner [OF ns(2) nc] ns(3) by (auto simp: as_nodes_def container_node_def)
    qed
  qed
qed

section \<open>What is saved\<close>

definition flat_tabs :: "components \<Rightarrow> bool" where
  "flat_tabs lay \<longleftrightarrow> (\<forall>x y c d. map_of lay x = Some c \<longrightarrow> map_of lay y = Some d \<longrightarrow> co_type c = ''TAB'' \<longrightarrow> co_type d = ''TAB'' \<longrightarrow>
     x \<noteq> y \<longrightarrow> y \<notin> below (kids_of lay) x)"

lemma tree_of_layout:
  assumes "scope_layout lay" and "only_root lay" and "length lay \<le> n"
  shows "\<exists>nd. getFilterScopeNodesTree n t lay sel = Inr [Some nd] \<and> forest_ok lay {''ROOT_ID''} [nd] \<and> sub_tabs nd \<noteq> [] \<and>
    (flat_tabs lay \<longrightarrow> flat_node nd)"
proof -
  obtain r where r: "map_of lay ''ROOT_ID'' = Some r" "co_type r = ''ROOT''" using assms(1) by (auto simp: scope_layout_def root_ok_def)
  have "card (below (kids_of lay) ''ROOT_ID'') \<le> card (dom (map_of lay))"
    using root_below_dom [OF assms(1)] by (intro card_mono) (auto simp: finite_dom_map_of)
  then have "card (below (kids_of lay) ''ROOT_ID'') \<le> n" using card_dom_le [of lay] assms(3) by linarith
  from nodes_below_ok [OF assms(1,2) below_refl r(1) this, of t sel] r(2) obtain l ns where
    nd: "nodes_below n t lay sel r = Inr (Inl (TabNode ''ROOT_ID'' l ''ROOT'' ns))" "forest_ok lay {''ROOT_ID''} [TabNode ''ROOT_ID'' l ''ROOT'' ns]"
      "tabs_only ns" by (auto simp: is_container_def as_nodes_def)
  have "length (sub_tabs c) \<le> 1" if fl: "flat_tabs lay" and c: "c \<in> set ns" for c
  proof (rule ccontr)
    assume long: "\<not> length (sub_tabs c) \<le> 1"
    then obtain v l' ty cs where cv: "c = TabNode v l' ty cs" by (cases c) auto
    then obtain e where e: "e \<in> set (concat (map sub_tabs cs))" using long by (cases "concat (map sub_tabs cs)") auto
    note ok = forest_okD(3,4) [OF nd(2)]
    have "distinct (node_tab_ids c)" "''ROOT_ID'' \<notin> set (node_tab_ids c)"
      using ok(1) c tab_ids_children(2,3) [of "''ROOT_ID''" l "''ROOT''" ns] by auto
    moreover have te: "tab_value e \<in> set (map tab_value (concat (map sub_tabs cs)))" using e unfolding set_map by (rule imageI)
    moreover have ids: "node_tab_ids c = v # map tab_value (concat (map sub_tabs cs))" by (simp add: cv)
    ultimately have ne: "tab_value e \<noteq> v" "v \<noteq> ''ROOT_ID''" "tab_value e \<noteq> ''ROOT_ID''" by (auto simp del: set_concat set_map)
    have t: "tab_ok lay c" "tab_ok lay e" using ok(2) c cv e by auto
    then obtain d d' where d: "map_of lay v = Some d" "is_container (co_type d)" "map_of lay (tab_value e) = Some d'" "is_container (co_type d')"
      using cv unfolding tab_ok_def by auto
    have "tab_value e \<in> set (node_tab_ids c)" unfolding ids using te by simp
    moreover have "set (node_tab_ids c) \<subseteq> below (kids_of lay) v" using t(1) by (simp add: tab_ok_def cv)
    ultimately have "tab_value e \<in> below (kids_of lay) v" by blast
    then show False using fl ne d assms(2) by (auto simp: flat_tabs_def only_root_def is_container_def)
  qed
  then have "flat_tabs lay \<longrightarrow> flat_node (TabNode ''ROOT_ID'' l ''ROOT'' ns)" by (simp add: list_all_iff)
  moreover have "lay \<noteq> []" using r(1) by auto
  ultimately show ?thesis using r(1) nd(1,2) by (simp add: getFilterScopeNodesTree_def)
qed

text \<open>
  C26. What the scope selector saves. The scope computed from the tree of the layout for a list of
  checked charts reaches every checked chart; and when no tab lies inside another tab it reaches
  no other chart than the checked ones and the filter's own, which the active filters leave out.
\<close>

theorem legacy_scope_saved:
  assumes "scope_layout lay" and "only_root lay" and "length lay \<le> n"
    and "getChartIdAndColumnFromFilterKey key = Inr (own, column)"
  shows "\<exists>nodes sc ids. getFilterScopeNodesTree n t lay sel = Inr nodes \<and>
    getFilterScopeFromNodesTree key nodes checked = Inr (Some sc) \<and> chartIdsInFilterScope n lay (Some sc) = Inr ids \<and>
    {m. is_checked checked m \<and> (\<exists>x. chart_at lay x m)} \<subseteq> set ids \<and>
    (flat_tabs lay \<longrightarrow> set ids \<subseteq> insert own {m. is_checked checked m \<and> (\<exists>x. chart_at lay x m)})"
proof -
  from tree_of_layout [OF assms(1-3), of t sel] obtain nd where
    nd: "getFilterScopeNodesTree n t lay sel = Inr [Some nd]" "forest_ok lay {''ROOT_ID''} [nd]" "sub_tabs nd \<noteq> []" "flat_tabs lay \<longrightarrow> flat_node nd"
    by blast
  let ?sc = "scope_of_node own checked nd"
  have ok: "distinct (node_tab_ids nd)" "typed_node nd" "set (node_charts nd) = charts_below lay ''ROOT_ID''" "\<forall>s\<in>set (sub_tabs nd). tab_ok lay s"
      "set (node_tab_ids nd) \<subseteq> below (kids_of lay) ''ROOT_ID''"
    using forest_okD [OF nd(2)] by simp_all
  have sub: "set (fs_scope ?sc) \<subseteq> set (node_tab_ids nd)" by (rule scope_tab_ids [OF ok(1)])
  then have "set (fs_scope ?sc) \<subseteq> dom (map_of lay)" using ok(5) root_below_dom [OF assms(1)] by blast
  from chartIdsInFilterScope_ok [OF assms(1) this assms(3)] obtain ids where
    ids: "chartIdsInFilterScope n lay (Some ?sc) = Inr ids" "set ids = (\<Union>v\<in>set (fs_scope ?sc). charts_below lay v - set (fs_immune ?sc))" by blast
  have "charts_below lay v = set (node_charts s)" if "s \<in> set (sub_tabs nd)" "tab_value s = v" for s v
    using ok(4) that by (auto simp: tab_ok_def)
  moreover have "\<exists>s\<in>set (sub_tabs nd). tab_value s = v" if "v \<in> set (fs_scope ?sc)" for v using sub that by auto
  ultimately have reach: "m \<in> set ids \<longleftrightarrow> in_scope nd (fs_scope ?sc) m \<and> m \<notin> set (fs_immune ?sc)" for m
    unfolding ids(2) in_scope_def by blast
  have ch: "m \<in> set (node_charts nd) \<longleftrightarrow> (\<exists>x. chart_at lay x m)" for m
    unfolding ok(3) charts_below_def using chart_atD(1) [OF assms(1)] by blast
  have "m \<in> set ids" if "is_checked checked m" "\<exists>x. chart_at lay x m" for m
    using reach scope_covers [OF _ that(1) ok(1,2) nd(3), of own] immune_unchecked [OF _ ok(1,2), of m own checked] that ch by blast
  moreover have "m = own \<or> is_checked checked m" if "flat_tabs lay" "m \<in> set ids" for m
    using flat_scope_exact [OF ok(1,2), of own checked m] nd(4) reach that by blast
  moreover have "\<exists>x. chart_at lay x m" if "m \<in> set ids" for m
    using that unfolding ids(2) charts_below_def by blast
  moreover have "getFilterScopeFromNodesTree key [Some nd] checked = Inr (Some ?sc)" using assms(4) by (simp add: getFilterScopeFromNodesTree_def)
  ultimately show ?thesis using nd(1) ids(1) by blast
qed

text \<open>
  With a tab inside a tab, a chart that is not checked comes into the scope: the root has a checked
  chart 1, its tab an unchecked chart 2 next to an inner tab with the checked chart 3, and the saved
  scope is the whole dashboard with no chart left out.
\<close>

definition nested_tree :: scope_node where
  "nested_tree = TabNode ''ROOT_ID'' ''All charts'' ''ROOT'' [ChartNode 1 ''a'' True,
     TabNode ''T'' ''outer'' ''TAB'' [ChartNode 2 ''b'' True, TabNode ''U'' ''inner'' ''TAB'' [ChartNode 3 ''c'' True]]]"

lemma nested_scope_leaks:
  "scope_of_node 9 [JNum (Fin 1), JNum (Fin 3)] nested_tree = \<lparr>fs_scope = [''ROOT_ID''], fs_immune = []\<rparr>"
  "in_scope nested_tree [''ROOT_ID''] 2 \<and> \<not> is_checked [JNum (Fin 1), JNum (Fin 3)] 2"
  by code_simp+

end
