(* ===== verification/LegacySelector.thy ===== *)
theory LegacySelector
  imports LegacyLayout QueryTypes
begin

text \<open>
  The state of the scope selector and the cache of the applied filter values: the checked charts
  are written as \<open>chart:field\<close> and read back, and reading applied values between actions never
  returns values of earlier filters.
\<close>

section \<open>Checked charts by field\<close>

lemma split_colon: "CHR '':'' \<notin> set s \<Longrightarrow> split_from '':'' acc 0 (s @ t) = split_from '':'' (rev s @ acc) 0 t"
  by (induction s arbitrary: acc) auto

lemma str_split_colon:
  assumes "CHR '':'' \<notin> set a" and "CHR '':'' \<notin> set b"
  shows "str_split '':'' (a @ '':'' @ b) = [a, b]"
proof -
  have "str_split '':'' (a @ '':'' @ b) = split_from '':'' (rev a) 0 (CHR '':'' # b)"
    unfolding str_split_def using split_colon [OF assms(1), of "[]" "CHR '':'' # b"] by simp
  also have "\<dots> = a # split_from '':'' [] 0 (b @ [])" by simp
  also have "\<dots> = [a, b]" unfolding split_colon [OF assms(2)] by simp
  finally show ?thesis .
qed

lemma show_int_no_colon: "CHR '':'' \<notin> set (show_int n)"
  using show_nat_digits [of "nat n"] show_nat_digits [of "nat (- n)"]
  by (auto simp: show_int_def list_all_iff is_digit_def)

definition check_of :: "int \<times> string \<Rightarrow> string" where
  "check_of p = show_int (fst p) @ '':'' @ snd p"

lemma split_check_of: "CHR '':'' \<notin> set (snd p) \<Longrightarrow> split_check (JStr (check_of p)) = Inr (show_int (fst p), snd p)"
  using str_split_colon [OF show_int_no_colon, of "snd p" "fst p"] by (simp add: split_check_def check_of_def)

definition entries_of :: "string \<Rightarrow> (jsval list) obj \<Rightarrow> jsval list" where
  "entries_of f m = (case map_of m f of Some xs \<Rightarrow> xs | None \<Rightarrow> [])"

abbreviation num_val :: "int \<Rightarrow> jsval" where
  "num_val n \<equiv> JNum (num_of_int n)"

abbreviation checks_step :: "jsval \<Rightarrow> (jsval list) obj \<Rightarrow> (jsval list) obj res" where
  "checks_step \<equiv> \<lambda>v acc. rbind (split_check v) (\<lambda>(chartId, filterField).
       Inr (obj_put filterField
         ((case map_of acc filterField of Some xs \<Rightarrow> xs | None \<Rightarrow> []) @ [JNum (parseInt10 chartId)]) acc))"

lemma checks_by_field_of:
  assumes "\<forall>p\<in>set ps. CHR '':'' \<notin> set (snd p)"
  shows "\<exists>m. rfold checks_step (map (\<lambda>p. JStr (check_of p)) ps) acc = Inr m \<and>
    (\<forall>f. entries_of f m = entries_of f acc @ map (num_val \<circ> fst) (filter (\<lambda>p. snd p = f) ps))"
  using assms
proof (induction ps arbitrary: acc)
  case (Cons p ps)
  let ?acc = "obj_put (snd p) (entries_of (snd p) acc @ [num_val (fst p)]) acc"
  have "checks_step (JStr (check_of p)) acc = Inr ?acc"
    using Cons.prems split_check_of [of p] by (simp add: entries_of_def parseInt10_show_int)
  moreover obtain m where m: "rfold checks_step (map (\<lambda>p. JStr (check_of p)) ps) ?acc = Inr m"
      "\<forall>f. entries_of f m = entries_of f ?acc @ map (num_val \<circ> fst) (filter (\<lambda>p. snd p = f) ps)"
    using Cons.IH [of ?acc] Cons.prems by auto
  moreover have "entries_of f ?acc = entries_of f acc @ (if snd p = f then [num_val (fst p)] else [])" for f
    by (simp add: entries_of_def map_of_obj_put)
  ultimately show ?case by (intro exI [of _ m]) auto
qed simp

lemma to_str_num: "to_str (num_val n) = show_int n"
  unfolding to_str.simps by (rule num_to_string_int)

lemma check_of_inject:
  assumes "CHR '':'' \<notin> set (snd p)" and "CHR '':'' \<notin> set (snd q)" and "check_of p = check_of q"
  shows "p = q"
  using split_check_of [OF assms(1)] split_check_of [OF assms(2)] assms(3) by (simp add: prod_eq_iff)

text \<open>The fields of the list and the charts checked for each, as pairs.\<close>

definition check_pairs :: "(string \<Rightarrow> int list) \<Rightarrow> string list \<Rightarrow> (int \<times> string) list" where
  "check_pairs ids fs = concat (map (\<lambda>f. map (\<lambda>n. (n, f)) (ids f)) fs)"

lemma distinct_check_pairs:
  assumes "distinct fs" and "\<forall>f\<in>set fs. distinct (ids f)"
  shows "distinct (check_pairs ids fs)"
  using assms
proof (induction fs)
  case (Cons f fs)
  have "distinct (map (\<lambda>n. (n, f)) (ids f))" using Cons.prems(2) by (simp add: distinct_map inj_on_def)
  then show ?case using Cons by (auto simp: check_pairs_def)
qed (simp add: check_pairs_def)

lemma filter_check_pairs:
  assumes "distinct fs" and "f \<in> set fs"
  shows "map fst (filter (\<lambda>p. snd p = f) (check_pairs ids fs)) = ids f"
  using assms
proof (induction fs)
  case (Cons g fs)
  have s: "filter (\<lambda>p. snd p = f) (map (\<lambda>n. (n, g)) xs) = (if g = f then map (\<lambda>n. (n, g)) xs else [])" for xs :: "int list"
    by (induction xs) auto
  have n: "filter (\<lambda>p. snd p = f) (check_pairs ids fs) = []" if "f \<notin> set fs"
    using that by (auto simp: check_pairs_def filter_empty_conv)
  have "check_pairs ids (g # fs) = map (\<lambda>n. (n, g)) (ids g) @ check_pairs ids fs" by (simp add: check_pairs_def)
  then show ?case using Cons s n by (auto simp: comp_def)
qed simp

text \<open>
  The selector keeps the checked charts. When the fields that are edited together have the checked
  charts written into the entry of their tree, and that list comes back unchanged, every field
  gets back exactly the charts it had, provided no field name contains a colon.
\<close>

lemma reverted_scope_roundtrip:
  assumes "distinct fs" and "\<forall>f\<in>set fs. CHR '':'' \<notin> set f"
    and "\<forall>f\<in>set fs. \<exists>e. map_of m f = Some e \<and> sm_checked e = map num_val (ids f) \<and> distinct (ids f)"
    and "editing_list active checkedFields = fs"
    and "buildFilterScopeTreeEntry env checkedFields active m = Inr (key, entry)"
  shows "\<exists>u. getRevertedFilterScope (sm_checked entry) fs m = Inr u \<and> (\<forall>f\<in>set fs. map_of u f = map_of m f) \<and> dom (map_of u) = set fs"
proof -
  have fc: "field_checks m f = Inr (map (\<lambda>n. check_of (n, f)) (ids f))" if "f \<in> set fs" for f
    using assms(3) that by (auto simp: field_checks_def check_of_def to_str_num simp del: to_str.simps)
  have "rmap (field_checks m) fs = Inr (map (\<lambda>f. map (\<lambda>n. check_of (n, f)) (ids f)) fs)" by (rule rmap_total) (rule fc)
  then have "sm_checked entry = map JStr (nub (concat (map (\<lambda>f. map (\<lambda>n. check_of (n, f)) (ids f)) fs)))"
    using assms(4,5) by (auto simp: buildFilterScopeTreeEntry_def Let_def rbind_Inr_iff)
  moreover have "concat (map (\<lambda>f. map (\<lambda>n. check_of (n, f)) (ids f)) fs) = map check_of (check_pairs ids fs)"
    by (simp add: check_pairs_def map_concat comp_def)
  moreover have nc: "\<forall>p\<in>set (check_pairs ids fs). CHR '':'' \<notin> set (snd p)" using assms(2) by (auto simp: check_pairs_def)
  moreover have "distinct (map check_of (check_pairs ids fs))"
    using distinct_check_pairs [OF assms(1), of ids] assms(3) nc check_of_inject by (auto simp: distinct_map inj_on_def)
  ultimately have ck: "sm_checked entry = map (\<lambda>p. JStr (check_of p)) (check_pairs ids fs)" by (simp add: nub_id)
  obtain b where b: "checks_by_field (sm_checked entry) = Inr b"
      "\<forall>f. entries_of f b = entries_of f [] @ map (num_val \<circ> fst) (filter (\<lambda>p. snd p = f) (check_pairs ids fs))"
    using checks_by_field_of [OF nc, of "[]"] unfolding ck checks_by_field_def by blast
  let ?g = "\<lambda>f. (spread_entry f m)\<lparr>sm_checked := entries_of f b\<rparr>"
  have u: "getRevertedFilterScope (sm_checked entry) fs m = Inr (fold (\<lambda>f. obj_put f (?g f)) fs [])"
    using b(1) by (simp add: getRevertedFilterScope_def entries_of_def)
  have "Some (?g f) = map_of m f" if f: "f \<in> set fs" for f
  proof -
    obtain e where e: "map_of m f = Some e" "sm_checked e = map num_val (ids f)" using assms(3) f by blast
    have "entries_of f b = map num_val (ids f)"
      using b(2) filter_check_pairs [OF assms(1) f, of ids] by (simp add: entries_of_def flip: map_map)
    then show ?thesis using e by (simp add: spread_entry_def)
  qed
  then have "map_of (fold (\<lambda>f. obj_put f (?g f)) fs []) f = map_of m f" if "f \<in> set fs" for f
    using that objd.get_put_same [of ?g fs "[]" f] by simp
  moreover have "dom (map_of (fold (\<lambda>f. obj_put f (?g f)) fs [])) = set fs"
    using objd.get_put_same [of ?g fs "[]"] by (auto simp: dom_def)
  ultimately show ?thesis using u by blast
qed

text \<open>
  The leaves of the tree are charts without a field. A check of leaves that carry no colon clears the
  checked charts of every edited field.
\<close>

lemma leaf_checks_clear:
  assumes "\<forall>s\<in>set vs. CHR '':'' \<notin> set s" and "f \<in> set fs" and "''undefined'' \<notin> set fs"
  shows "\<exists>u e. getRevertedFilterScope (map JStr vs) fs m = Inr u \<and> map_of u f = Some e \<and> sm_checked e = []"
proof -
  have sp: "split_check (JStr s) = Inr (s, ''undefined'')" if "CHR '':'' \<notin> set s" for s
    using split_colon [OF that, of "[]" "[]"] by (simp add: split_check_def str_split_def)
  have r: "\<exists>b. rfold checks_step (map JStr vs) acc = Inr b \<and> (\<forall>g. g \<noteq> ''undefined'' \<longrightarrow> map_of b g = map_of acc g)" for acc
    using assms(1)
  proof (induction vs arbitrary: acc)
    case (Cons s vs)
    let ?acc = "obj_put ''undefined'' ((case map_of acc ''undefined'' of Some xs \<Rightarrow> xs | None \<Rightarrow> []) @ [JNum (parseInt10 s)]) acc"
    have "rfold checks_step (map JStr (s # vs)) acc = rfold checks_step (map JStr vs) ?acc" using sp [of s] Cons.prems by simp
    then show ?case using Cons.IH [of ?acc] Cons.prems by (simp add: map_of_obj_put)
  qed simp
  from r [of "[]"] obtain b where b: "checks_by_field (map JStr vs) = Inr b" "\<And>g. g \<noteq> ''undefined'' \<Longrightarrow> map_of b g = None"
    unfolding checks_by_field_def by auto
  let ?g = "\<lambda>f. (spread_entry f m)\<lparr>sm_checked := (case map_of b f of Some xs \<Rightarrow> xs | None \<Rightarrow> [])\<rparr>"
  have "f \<noteq> ''undefined''" using assms(2,3) by metis
  then have "sm_checked (?g f) = []" using b(2) [of f] by simp
  moreover have "map_of (fold (\<lambda>f. obj_put f (?g f)) fs []) f = Some (?g f)" using assms(2) objd.get_put_same [of ?g fs "[]" f] by simp
  moreover have "getRevertedFilterScope (map JStr vs) fs m = Inr (fold (\<lambda>f. obj_put f (?g f)) fs [])"
    using b(1) by (simp add: getRevertedFilterScope_def)
  ultimately show ?thesis by blast
qed

section \<open>The cache of the applied values\<close>

definition cache_coherent :: "active_module \<Rightarrow> bool" where
  "cache_coherent md \<longleftrightarrow>
     (\<forall>n vs. map_of (am_applied md) (show_int n) = Some vs \<longrightarrow> applied_values n (am_activeFilters md) = Inr vs)"

lemma buildActiveFilters_coherent: "buildActiveFilters n fs comps md = Inr md' \<Longrightarrow> cache_coherent md'"
  by (auto simp: buildActiveFilters_def Let_def rbind_Inr_iff cache_coherent_def)

text \<open>Between actions the cache agrees with the active filters, and a read returns their values.\<close>

lemma reducer_coherent:
  assumes "dashboardFiltersReducer n (fs, md) action = Inr (fs', md')" and "cache_coherent md"
  shows "cache_coherent md'"
  using assms buildActiveFilters_coherent
  by (cases action) (fastforce simp: dashboardFiltersReducer_def rbind_Inr_iff Let_def split: option.splits)+

text \<open>The module between actions of the store and reads of the charts.\<close>

inductive filters_step :: "nat \<Rightarrow> dashboard_filter obj \<times> active_module \<Rightarrow> dashboard_filter obj \<times> active_module \<Rightarrow> bool" for n where
  Reduce: "dashboardFiltersReducer n st action = Inr st' \<Longrightarrow> filters_step n st st'"
| Read: "getAppliedFilterValues c None md = Inr (vs, md') \<Longrightarrow> filters_step n (fs, md) (fs, md')"

lemma read_coherent:
  assumes "cache_coherent md"
  shows "getAppliedFilterValues c None md = Inr (vs, md') \<Longrightarrow> applied_values c (am_activeFilters md) = Inr vs \<and> cache_coherent md'"
  using assms by (auto simp: getAppliedFilterValues_def cache_coherent_def rbind_Inr_iff map_of_obj_put split: option.splits if_splits)

interpretation filters: step_system "filters_step n" "\<lambda>st. cache_coherent (snd st)" for n
proof
  fix st st' assume "cache_coherent (snd st)" and "filters_step n st st'"
  from this(2,1) show "cache_coherent (snd st')"
  proof cases
    case (Reduce action)
    then show ?thesis using reducer_coherent [of n "fst st" "snd st" action "fst st'" "snd st'"] \<open>cache_coherent (snd st)\<close> by simp
  qed (auto dest: read_coherent)
qed

text \<open>Whatever actions and reads came before, a read returns the values of the filters that are active now.\<close>

lemma applied_values_fresh:
  assumes "(filters_step n)\<^sup>*\<^sup>* (fs0, md0) (fs, md)" and "am_applied md0 = []"
    and "getAppliedFilterValues c None md = Inr (vs, md')"
  shows "applied_values c (am_activeFilters md) = Inr vs"
proof -
  have "cache_coherent md" using filters.inv_steps [OF assms(1)] assms(2) by (simp add: cache_coherent_def)
  then show ?thesis using read_coherent assms(3) by blast
qed

end
