(* ===== verification/FilterScopeWitnesses.thy ===== *)
theory FilterScopeWitnesses
  imports LegacySelector
begin

text \<open>
  The facts on the scoping tree at a concrete dashboard: a grid with a chart and a tab with two more.
\<close>

section \<open>A run\<close>

definition demo_node :: "string \<Rightarrow> string \<Rightarrow> string list \<Rightarrow> string list \<Rightarrow> jsval obj \<Rightarrow> string \<times> component" where
  "demo_node x ty kids ps meta = (x, \<lparr>co_id = x, co_type = ty, co_children = kids, co_parents = Some ps, co_width = None, co_meta = meta\<rparr>)"

definition scope_demo :: components where
  "scope_demo = [demo_node ''ROOT_ID'' ''ROOT'' [''G''] [] [],
     demo_node ''G'' ''GRID'' [''A'', ''S''] [''ROOT_ID''] [],
     demo_node ''A'' ''CHART'' [] [''ROOT_ID'', ''G''] [(''chartId'', JNum (Fin 1))],
     demo_node ''S'' ''TABS'' [''T''] [''ROOT_ID'', ''G''] [],
     demo_node ''T'' ''TAB'' [''B'', ''C''] [''ROOT_ID'', ''G'', ''S''] [],
     demo_node ''B'' ''CHART'' [] [''ROOT_ID'', ''G'', ''S'', ''T''] [(''chartId'', JNum (Fin 2))],
     demo_node ''C'' ''CHART'' [] [''ROOT_ID'', ''G'', ''S'', ''T''] [(''chartId'', JNum (Fin 3))]]"

lemma demo_kids: "kids_of scope_demo = [''ROOT_ID'' \<mapsto> [''G''], ''G'' \<mapsto> [''A'', ''S''], ''A'' \<mapsto> [], ''S'' \<mapsto> [''T''],
    ''T'' \<mapsto> [''B'', ''C''], ''B'' \<mapsto> [], ''C'' \<mapsto> []]"
  by (auto simp: kids_of_def scope_demo_def demo_node_def fun_eq_iff)

lemma demo_lookup: "map_of scope_demo x = Some c \<longleftrightarrow> (x, c) \<in> set scope_demo"
proof -
  have "distinct (map fst scope_demo)" by code_simp
  then show ?thesis by (rule map_of_eq_Some_iff)
qed

lemma demo_child: "child_of (kids_of scope_demo) p y \<longleftrightarrow>
    (p, y) \<in> {(''ROOT_ID'', ''G''), (''G'', ''A''), (''G'', ''S''), (''S'', ''T''), (''T'', ''B''), (''T'', ''C'')}"
  by (auto simp: child_of_def demo_kids split: if_splits)

lemma demo_below: "{''ROOT_ID'', ''G'', ''A'', ''S'', ''T'', ''B'', ''C''} \<subseteq> below (kids_of scope_demo) ''ROOT_ID''"
proof -
  have r: "''ROOT_ID'' \<in> below (kids_of scope_demo) ''ROOT_ID''" by simp
  have g: "''G'' \<in> below (kids_of scope_demo) ''ROOT_ID''" by (rule below_step [OF r]) (simp add: demo_child)
  have s: "''S'' \<in> below (kids_of scope_demo) ''ROOT_ID''" by (rule below_step [OF g]) (simp add: demo_child)
  have t: "''T'' \<in> below (kids_of scope_demo) ''ROOT_ID''" by (rule below_step [OF s]) (simp add: demo_child)
  have "''A'' \<in> below (kids_of scope_demo) ''ROOT_ID''" by (rule below_step [OF g]) (simp add: demo_child)
  moreover have "''B'' \<in> below (kids_of scope_demo) ''ROOT_ID''" by (rule below_step [OF t]) (simp add: demo_child)
  moreover have "''C'' \<in> below (kids_of scope_demo) ''ROOT_ID''" by (rule below_step [OF t]) (simp add: demo_child)
  ultimately show ?thesis using r g s t by simp
qed

lemma demo_pars: "child_of (kids_of scope_demo) p y \<Longrightarrow> pars scope_demo y = Some (or_empty (pars scope_demo p) @ [p])"
  unfolding demo_child by (elim insertE) (simp_all add: pars_def or_empty_def scope_demo_def demo_node_def)

lemma demo_root_ok: "root_ok scope_demo"
proof -
  have "or_empty (pars scope_demo x) = []" if "x \<notin> below (kids_of scope_demo) ''ROOT_ID''" for x
  proof -
    have "x \<notin> {''ROOT_ID'', ''G'', ''A'', ''S'', ''T'', ''B'', ''C''}" using that demo_below by blast
    then have "map_of scope_demo x = None" by (simp add: scope_demo_def demo_node_def)
    then show ?thesis by (simp add: pars_def or_empty_def)
  qed
  moreover have "map_of scope_demo ''ROOT_ID'' = Some (snd (hd scope_demo))" "co_type (snd (hd scope_demo)) = ''ROOT''"
      "or_empty (co_parents (snd (hd scope_demo))) = []" by code_simp+
  ultimately show ?thesis using demo_pars by (auto simp: root_ok_def paths_below_def)
qed

lemma demo_charts: "chart_at scope_demo x n \<longleftrightarrow> (x, n) \<in> {(''A'', 1), (''B'', 2), (''C'', 3)}"
  by (auto simp: chart_at_def chart_id_def item_of_def scope_demo_def demo_node_def split: if_splits)

lemma demo_charts_ok: "charts_ok scope_demo"
proof -
  have "x \<noteq> [] \<and> \<not> str_includes ''-layer-'' x" if "map_of scope_demo x = Some c" for x c
    using that by (auto simp: scope_demo_def demo_node_def split: if_splits)
  moreover have "x \<in> below (kids_of scope_demo) ''ROOT_ID'' \<and> co_children c = [] \<and> (\<exists>n. chart_id c = Some n \<and> n \<noteq> 0)"
    if "map_of scope_demo x = Some c" "co_type c = ''CHART''" for x c
  proof -
    have "x \<in> {''A'', ''B'', ''C''} \<and> co_children c = [] \<and> (\<exists>n. chart_id c = Some n \<and> n \<noteq> 0)"
      using that by (auto simp: scope_demo_def demo_node_def chart_id_def item_of_def split: if_splits)
    then show ?thesis using demo_below by blast
  qed
  ultimately show ?thesis by (auto simp: charts_ok_def demo_charts)
qed

lemma demo_scope_layout: "scope_layout scope_demo"
proof -
  have "layout_ok scope_demo" by (rule layout_ok_topo) code_simp+
  then show ?thesis using demo_root_ok demo_charts_ok by (simp add: scope_layout_def)
qed

abbreviation demo_keys :: "string list" where
  "demo_keys \<equiv> [''A'', ''B'', ''C'', ''chart-2-layer-0'', ''T'']"

lemma demo_layer_charts: "layer_charts (filter (str_includes ''-layer-'') demo_keys) = [2]"
  by code_simp

section \<open>Witnesses\<close>

theorem handleCheck_reaches_witness:
  "\<exists>sc. handleCheck (Some 3) scope_demo demo_keys = Inr sc \<and>
     set (getChartIdsInFilterScope sc [1, 2, 3] (map snd (items scope_demo))) = {1, 2}"
proof -
  from handleCheck_reaches [OF demo_scope_layout, of "Some 3" demo_keys] obtain sc where
    sc: "handleCheck (Some 3) scope_demo demo_keys = Inr sc"
    "set (getChartIdsInFilterScope sc [1, 2, 3] (map snd (items scope_demo))) =
       {n \<in> set [1, 2, 3]. n \<in> {2} \<or> Some 3 \<noteq> Some n \<and> (\<exists>x\<in>set demo_keys. chart_at scope_demo x n)}"
    unfolding demo_layer_charts by auto
  moreover have "{n \<in> set [1, 2, 3]. n \<in> {2 :: int} \<or> Some 3 \<noteq> Some n \<and> (\<exists>x\<in>set demo_keys. chart_at scope_demo x n)} = {1, 2}"
    unfolding demo_charts by auto
  ultimately show ?thesis by metis
qed

theorem checked_items_roundtrip_witness:
  "\<exists>sc ks. handleCheck None scope_demo demo_keys = Inr sc \<and> getTreeCheckedItems 8 sc scope_demo (selectedLayers sc) = Inr ks \<and>
     distinct ks \<and> set ks = {''A'', ''C'', ''chart-2-layer-0''}"
proof -
  obtain sc where sc: "handleCheck None scope_demo demo_keys = Inr sc" using handleCheck_ok [OF demo_scope_layout] by blast
  have "length scope_demo < 8" by code_simp
  from checked_items_roundtrip [OF demo_scope_layout sc this] obtain ks where
    ks: "getTreeCheckedItems 8 sc scope_demo (selectedLayers sc) = Inr ks" "distinct ks"
    "set ks = {k \<in> set demo_keys. str_includes ''-layer-'' k} \<union>
      {x \<in> set demo_keys. \<exists>n. chart_at scope_demo x n \<and> None \<noteq> Some n \<and> n \<notin> set [2]}"
    unfolding demo_layer_charts by blast
  have "{k \<in> set demo_keys. str_includes ''-layer-'' k} = {''chart-2-layer-0''}" by auto
  moreover have "{x \<in> set demo_keys. \<exists>n. chart_at scope_demo x n \<and> None \<noteq> Some n \<and> n \<notin> set [2]} = {''A'', ''C''}"
    unfolding demo_charts by auto
  ultimately show ?thesis using sc ks by auto
qed

definition demo_env :: "jsval tree_env" where
  "demo_env = \<lparr>te_layout = scope_demo, te_charts = [], te_validNodes = [], te_excluded = [], te_title = (\<lambda>label _ _ _. label),
     te_slices = [], te_t = (\<lambda>s. s)\<rparr>"


section \<open>The scope selector\<close>

lemma demo_only_root: "only_root scope_demo"
  by (auto simp: only_root_def scope_demo_def demo_node_def split: if_splits)

lemma demo_flat_tabs: "flat_tabs scope_demo"
proof -
  have "x = ''T''" if "map_of scope_demo x = Some c" "co_type c = ''TAB''" for x c
    using that by (auto simp: scope_demo_def demo_node_def split: if_splits)
  then show ?thesis unfolding flat_tabs_def by blast
qed

theorem legacy_scope_saved_witness:
  "\<exists>nodes sc ids. getFilterScopeNodesTree 7 (\<lambda>s. s) scope_demo (Some 1) = Inr nodes \<and>
     getFilterScopeFromNodesTree ''1_region'' nodes [num_val 3] = Inr (Some sc) \<and> chartIdsInFilterScope 7 scope_demo (Some sc) = Inr ids \<and>
     3 \<in> set ids \<and> 2 \<notin> set ids"
proof -
  have len: "length scope_demo \<le> 7" by (simp add: scope_demo_def)
  have key: "getChartIdAndColumnFromFilterKey ''1_region'' = Inr (1, ''region'')" by code_simp
  from legacy_scope_saved [OF demo_scope_layout demo_only_root len key, of "\<lambda>s. s" "Some 1" "[num_val 3]"] obtain nodes sc ids where
    r: "getFilterScopeNodesTree 7 (\<lambda>s. s) scope_demo (Some 1) = Inr nodes" "getFilterScopeFromNodesTree ''1_region'' nodes [num_val 3] = Inr (Some sc)"
      "chartIdsInFilterScope 7 scope_demo (Some sc) = Inr ids"
      "{m. is_checked [num_val 3] m \<and> (\<exists>x. chart_at scope_demo x m)} \<subseteq> set ids"
      "flat_tabs scope_demo \<longrightarrow> set ids \<subseteq> insert 1 {m. is_checked [num_val 3] m \<and> (\<exists>x. chart_at scope_demo x m)}"
    by blast
  have c: "is_checked [num_val 3] 3" "\<not> is_checked [num_val 3] 2" by code_simp+
  have "chart_at scope_demo ''C'' 3" unfolding demo_charts by simp
  then have "3 \<in> set ids" using r(4) c(1) by blast
  moreover have "2 \<notin> set ids" using r(5) demo_flat_tabs c(2) by auto
  ultimately show ?thesis using r(1-3) by blast
qed

definition selector_demo :: selector_env where
  "selector_demo = \<lparr>sv_t = (\<lambda>s. s), sv_lower = (\<lambda>s. s), sv_stringify = (\<lambda>fs. ''['' @ concat fs @ '']''), sv_depth = 7,
     sv_layout = scope_demo, sv_allComponents = scope_demo, sv_dashboardFilters = []\<rparr>"

definition demo_entry :: "int list \<Rightarrow> scope_entry" where
  "demo_entry ns = \<lparr>sm_nodes = None, sm_nodesFiltered = None, sm_checked = map num_val ns, sm_expanded = []\<rparr>"

definition demo_scopes :: "scope_entry obj" where
  "demo_scopes = [(''1_a'', demo_entry [2, 3]), (''1_b'', demo_entry [3])]"

end
