(* ===== verification/PivotNumbers.thy ===== *)
theory PivotNumbers
  imports JsArith
begin

text \<open>
  Number formatting of the pivot table (\<open>react-pivottable/utilities.js\<close>): \<open>addSeparators\<close> with its
  loop over a regular expression, \<open>numberFormat\<close> and the three US formatters. The loop need not
  end, so it is a partial function into \<open>option\<close>; \<open>None\<close> means that it runs forever.
\<close>

section \<open>Language primitives\<close>

text \<open>\<open>x.toFixed(d)\<close> of a finite number: ties round up in absolute value.\<close>

definition fixed_units :: "nat \<Rightarrow> rat \<Rightarrow> nat" where
  "fixed_units d q = nat \<lfloor>\<bar>q\<bar> * 10 ^ d + 1 / 2\<rfloor>"

definition to_fixed :: "nat \<Rightarrow> rat \<Rightarrow> string" where
  "to_fixed d q =
     (if 10 ^ 21 \<le> \<bar>q\<bar> then num_to_string (Fin q)
      else let ds = show_nat (fixed_units d q);
               m = replicate (Suc d - length ds) CHR ''0'' @ ds
           in (if q < 0 then ''-'' else []) @
              (if d = 0 then m
               else take (length m - d) m @ ''.'' @ drop (length m - d) m))"

text \<open>
  The replacement text of \<open>String.prototype.replace\<close> for a pattern with two groups: \<open>$1\<close> and
  \<open>$2\<close> are the groups, \<open>$&\<close> the match, and two more forms the text around it.
\<close>

fun expand_repl :: "string \<Rightarrow> string \<Rightarrow> string \<Rightarrow> string \<Rightarrow> string \<Rightarrow> string" where
  "expand_repl pre g1 g2 post [] = []"
| "expand_repl pre g1 g2 post (c # t) =
     (if c \<noteq> CHR ''$'' then c # expand_repl pre g1 g2 post t
      else case t of
        [] \<Rightarrow> ''$''
      | d # u \<Rightarrow>
          if d = CHR ''$'' then CHR ''$'' # expand_repl pre g1 g2 post u
          else if d = CHR ''&'' then g1 @ g2 @ expand_repl pre g1 g2 post u
          else if d = CHR 0x60 then pre @ expand_repl pre g1 g2 post u
          else if d = CHR 0x27 then post @ expand_repl pre g1 g2 post u
          else if d = CHR ''0'' \<and> prefix ''1'' u then g1 @ expand_repl pre g1 g2 post (tl u)
          else if d = CHR ''0'' \<and> prefix ''2'' u then g2 @ expand_repl pre g1 g2 post (tl u)
          else if d = CHR ''1'' then g1 @ expand_repl pre g1 g2 post u
          else if d = CHR ''2'' then g2 @ expand_repl pre g1 g2 post u
          else CHR ''$'' # expand_repl pre g1 g2 post t)"

section \<open>Thousands separators\<close>

text \<open>
  The leftmost match of \<open>/(\d+)(\d{3})/\<close>: the text before it, its two groups and the text after
  it. A run of digits matches when it has four or more.
\<close>

fun sep_match :: "string \<Rightarrow> string \<Rightarrow> (string \<times> string \<times> string \<times> string) option" where
  "sep_match acc [] = None"
| "sep_match acc (c # s) =
     (let run = takeWhile is_digit (c # s); n = length run
      in if 4 \<le> n
         then Some (rev acc, take (n - 3) run, drop (n - 3) run, drop n (c # s))
         else sep_match (c # acc) s)"

partial_function (option) sep_loop :: "string \<Rightarrow> string \<Rightarrow> string option" where
  "sep_loop thousandsSep x1 =
     (case sep_match [] x1 of
        None \<Rightarrow> Some x1
      | Some (pre, g1, g2, post) \<Rightarrow>
          sep_loop thousandsSep
            (pre @ expand_repl pre g1 g2 post (''$1'' @ thousandsSep @ ''$2'') @ post))"

definition addSeparators :: "string \<Rightarrow> string \<Rightarrow> string \<Rightarrow> string option" where
  "addSeparators nStr thousandsSep decimalSep =
     (let x = str_split ''.'' nStr;
          x2 = (if 1 < length x then decimalSep @ x ! 1 else [])
      in map_option (\<lambda>x1. x1 @ x2) (sep_loop thousandsSep (x ! 0)))"

section \<open>Formatters\<close>

type_synonym fmt = "jsval \<Rightarrow> jsval option"

record format_opts =
  digitsAfterDecimal :: nat
  scaler :: rat
  thousandsSep :: string
  decimalSep :: string
  fo_prefix :: string
  fo_suffix :: string

definition format_defaults :: format_opts where
  "format_defaults = \<lparr>digitsAfterDecimal = 2, scaler = 1, thousandsSep = '','', decimalSep = ''.'',
     fo_prefix = [], fo_suffix = []\<rparr>"

definition numberFormat :: "format_opts \<Rightarrow> fmt" where
  "numberFormat opts x =
     (case x of
        JNum (Fin q) \<Rightarrow>
          map_option (\<lambda>r. JStr (fo_prefix opts @ r @ fo_suffix opts))
            (addSeparators (to_fixed (digitsAfterDecimal opts) (scaler opts * q))
               (thousandsSep opts) (decimalSep opts))
      | _ \<Rightarrow> Some (JStr []))"

definition usFmt :: fmt where
  "usFmt = numberFormat format_defaults"

definition usFmtInt :: fmt where
  "usFmtInt = numberFormat (format_defaults\<lparr>digitsAfterDecimal := 0\<rparr>)"

definition usFmtPct :: fmt where
  "usFmtPct = numberFormat (format_defaults\<lparr>digitsAfterDecimal := 1, scaler := 100, fo_suffix := ''%''\<rparr>)"

definition fmtNonString :: "fmt \<Rightarrow> fmt" where
  "fmtNonString formatter x = (case x of JStr s \<Rightarrow> Some (JStr s) | _ \<Rightarrow> formatter x)"

section \<open>The separators group the digits by threes\<close>

function group_digits :: "string \<Rightarrow> string \<Rightarrow> string" where
  "group_digits sep ds =
     (if length ds \<le> 3 then ds
      else group_digits sep (take (length ds - 3) ds) @ sep @ drop (length ds - 3) ds)"
  by auto
termination by (relation "measure (\<lambda>(_, ds). length ds)") auto

declare group_digits.simps [simp del]

definition plain_sep :: "string \<Rightarrow> bool" where
  "plain_sep sep \<longleftrightarrow> sep \<noteq> [] \<and> list_all (\<lambda>c. \<not> is_digit c \<and> c \<noteq> CHR ''$'') sep"

lemma sep_match_skip:
  "list_all (\<lambda>c. \<not> is_digit c) p \<Longrightarrow> sep_match acc (p @ s) = sep_match (rev p @ acc) s"
  by (induction p arbitrary: acc) (auto simp: Let_def)

lemma sep_match_short:
  assumes "list_all is_digit g" and "length g \<le> 3" and "s = [] \<or> \<not> is_digit (hd s)"
  shows "sep_match acc (g @ s) = sep_match (rev g @ acc) s"
  using assms
proof (induction g arbitrary: acc)
  case (Cons c g)
  have "takeWhile is_digit (c # g @ s) = c # g"
    using Cons.prems by (cases s) (auto simp: takeWhile_append list_all_iff)
  then show ?case using Cons by (simp add: Let_def)
qed simp

lemma sep_match_long:
  assumes "list_all is_digit ds" and "4 \<le> length ds" and "s = [] \<or> \<not> is_digit (hd s)"
  shows "sep_match acc (ds @ s) =
    Some (rev acc, take (length ds - 3) ds, drop (length ds - 3) ds, s)"
proof -
  obtain c d where ds: "ds = c # d" using assms(2) by (cases ds) auto
  have "takeWhile is_digit (ds @ s) = ds"
    using assms by (cases s) (auto simp: takeWhile_append list_all_iff)
  then have "takeWhile is_digit (c # d @ s) = c # d" by (simp add: ds)
  with assms(2) show ?thesis by (simp add: ds Let_def)
qed

lemma expand_plain:
  "list_all (\<lambda>c. \<not> is_digit c \<and> c \<noteq> CHR ''$'') sep \<Longrightarrow>
   expand_repl pre g1 g2 post (sep @ ''$2'') = sep @ g2"
  by (induction sep) auto

lemma expand_template:
  assumes "plain_sep sep"
  shows "expand_repl pre g1 g2 post (''$1'' @ sep @ ''$2'') = g1 @ sep @ g2"
  using expand_plain [of sep pre g1 g2 post] assms by (auto simp: plain_sep_def)

text \<open>What the loop has already split off: triples behind separators.\<close>

definition triples :: "string \<Rightarrow> string list \<Rightarrow> string" where
  "triples sep gs = concat (map (\<lambda>g. sep @ g) gs)"

definition triple :: "string \<Rightarrow> bool" where
  "triple g \<longleftrightarrow> length g = 3 \<and> list_all is_digit g"

lemma triples_hd:
  "plain_sep sep \<Longrightarrow> triples sep gs = [] \<or> \<not> is_digit (hd (triples sep gs))"
  by (cases gs; cases sep) (auto simp: triples_def plain_sep_def)

lemma sep_match_triples:
  assumes "plain_sep sep" and "list_all triple gs"
  shows "sep_match acc (triples sep gs) = None"
  using assms(2)
proof (induction gs arbitrary: acc)
  case Nil
  then show ?case by (simp add: triples_def)
next
  case (Cons g gs)
  have "sep_match acc (sep @ g @ triples sep gs) = sep_match (rev sep @ acc) (g @ triples sep gs)"
    using assms(1) by (intro sep_match_skip) (auto simp: plain_sep_def list_all_iff)
  also have "\<dots> = sep_match (rev g @ rev sep @ acc) (triples sep gs)"
    using Cons.prems by (intro sep_match_short triples_hd assms(1)) (auto simp: triple_def)
  finally show ?case using Cons by (simp add: triples_def)
qed

lemma sep_loop_group:
  assumes sep: "plain_sep sep" and p: "list_all (\<lambda>c. \<not> is_digit c) p"
  shows "list_all is_digit ds \<Longrightarrow> list_all triple gs \<Longrightarrow>
    sep_loop sep (p @ ds @ triples sep gs) = Some (p @ group_digits sep ds @ triples sep gs)"
proof (induction "length ds" arbitrary: ds gs rule: less_induct)
  case less
  let ?m = "length ds - 3"
  have skip: "sep_match [] (p @ ds @ triples sep gs) = sep_match (rev p) (ds @ triples sep gs)"
    using p sep_match_skip [of p "[]"] by simp
  show ?case
  proof (cases "length ds \<le> 3")
    case True
    then have "sep_match [] (p @ ds @ triples sep gs) = None"
      using skip sep_match_short [OF less.prems(1) True triples_hd [OF sep]]
        sep_match_triples [OF sep less.prems(2)] by simp
    with True show ?thesis by (simp add: sep_loop.simps group_digits.simps)
  next
    case False
    then have m: "sep_match [] (p @ ds @ triples sep gs) =
        Some (p, take ?m ds, drop ?m ds, triples sep gs)"
      using skip sep_match_long [OF less.prems(1) _ triples_hd [OF sep]] by simp
    have d: "triple (drop ?m ds)" and t: "list_all is_digit (take ?m ds)"
      using False less.prems(1) by (auto simp: triple_def list_all_iff dest: in_set_dropD in_set_takeD)
    have "sep_loop sep (p @ ds @ triples sep gs) =
        sep_loop sep (p @ take ?m ds @ triples sep (drop ?m ds # gs))"
      by (subst sep_loop.simps)
         (simp only: m option.case prod.case expand_template [OF sep], simp add: triples_def)
    also have "\<dots> = Some (p @ group_digits sep (take ?m ds) @ triples sep (drop ?m ds # gs))"
      using False d t less.prems(2) by (intro less.hyps) auto
    finally show ?thesis
      using False by (simp add: group_digits.simps [of sep ds] triples_def)
  qed
qed

lemma group_digits_digits:
  "plain_sep sep \<Longrightarrow> list_all is_digit ds \<Longrightarrow> filter is_digit (group_digits sep ds) = ds"
proof (induction sep ds rule: group_digits.induct)
  case (1 sep ds)
  have "filter is_digit sep = []"
    using "1.prems"(1) by (auto simp: plain_sep_def list_all_iff filter_empty_conv)
  moreover have "filter is_digit (drop k ds) = drop k ds" "list_all is_digit (take k ds)" for k
    using "1.prems"(2) by (auto simp: list_all_iff filter_id_conv dest: in_set_dropD in_set_takeD)
  ultimately show ?case
    using "1.IH" "1.prems" by (subst group_digits.simps) (auto simp: list_all_iff)
qed

section \<open>What a formatted number shows\<close>

lemma split_dot_none: "CHR ''.'' \<notin> set s \<Longrightarrow> split_from ''.'' acc 0 s = [rev acc @ s]"
  by (induction s arbitrary: acc) auto

lemma split_dot_one:
  "CHR ''.'' \<notin> set s \<Longrightarrow> CHR ''.'' \<notin> set u \<Longrightarrow>
   split_from ''.'' acc 0 (s @ CHR ''.'' # u) = [rev acc @ s, u]"
  by (induction s arbitrary: acc) (auto simp: split_dot_none)

lemma digits_no_dot: "list_all is_digit s \<Longrightarrow> CHR ''.'' \<notin> set s"
  by (auto simp: list_all_iff is_digit_def)

lemma nat_of_digits_zeros: "nat_of_digits (replicate k CHR ''0'' @ s) = nat_of_digits s"
  by (induction k) (auto simp: nat_of_digits_def digit_val_def)

definition sign_text :: "rat \<Rightarrow> string" where
  "sign_text q = (if q < 0 then ''-'' else [])"

text \<open>The text of \<open>toFixed\<close>: a sign, at least one digit, and exactly \<open>d\<close> decimals.\<close>

lemma to_fixed_text:
  assumes "\<bar>q\<bar> < 10 ^ 21"
  obtains a b where "to_fixed d q = sign_text q @ a @ (if d = 0 then [] else CHR ''.'' # b)"
    and "list_all is_digit (a @ b)" and "length b = d" and "a \<noteq> []"
    and "nat_of_digits (a @ b) = fixed_units d q"
proof -
  let ?ds = "show_nat (fixed_units d q)"
  define m where "m = replicate (Suc d - length ?ds) CHR ''0'' @ ?ds"
  have dig: "list_all is_digit m"
    using show_nat_digits by (auto simp: m_def list_all_iff is_digit_def)
  have len: "d < length m" by (simp add: m_def)
  have val: "nat_of_digits m = fixed_units d q" by (simp add: m_def nat_of_digits_zeros)
  have "to_fixed d q = sign_text q @ (if d = 0 then m
      else take (length m - d) m @ ''.'' @ drop (length m - d) m)"
    using assms by (simp only: to_fixed_def Let_def m_def [symmetric] sign_text_def) simp
  then have "to_fixed d q = sign_text q @ take (length m - d) m @
      (if d = 0 then [] else CHR ''.'' # drop (length m - d) m)" by simp
  then show ?thesis
    using that [of "take (length m - d) m" "drop (length m - d) m"] dig len val
    by (simp only: append_take_drop_id) fastforce
qed

lemma fixed_units_close: "\<bar>of_nat (fixed_units d q) - \<bar>q\<bar> * 10 ^ d\<bar> \<le> (1 / 2 :: rat)"
proof -
  let ?x = "\<bar>q\<bar> * 10 ^ d + 1 / 2 :: rat"
  have "0 \<le> ?x" by simp
  then have "of_nat (nat \<lfloor>?x\<rfloor>) = (of_int \<lfloor>?x\<rfloor> :: rat)" by simp
  then show ?thesis
    using of_int_floor_le [of ?x] floor_correct [of ?x] unfolding fixed_units_def by linarith
qed

lemma addSeparators_text:
  assumes sep: "plain_sep sep" and ab: "list_all is_digit (a @ b)" and d: "length b = d"
    and p: "p = [] \<or> p = ''-''"
  shows "addSeparators (p @ a @ (if d = 0 then [] else CHR ''.'' # b)) sep dec =
    Some (p @ group_digits sep a @ (if d = 0 then [] else dec @ b))"
proof -
  have nd: "CHR ''.'' \<notin> set (p @ a)" "CHR ''.'' \<notin> set b"
    using ab p digits_no_dot [of a] digits_no_dot [of b] by auto
  have p': "list_all (\<lambda>c. \<not> is_digit c) p" using p by (auto simp: is_digit_def)
  have loop: "sep_loop sep (p @ a) = Some (p @ group_digits sep a)"
    using sep_loop_group [OF sep p', of a "[]"] ab by (simp add: triples_def)
  show ?thesis
  proof (cases "d = 0")
    case True
    then show ?thesis
      using loop split_dot_none [OF nd(1), of "[]"] d by (simp add: addSeparators_def str_split_def)
  next
    case False
    have "str_split ''.'' (p @ a @ CHR ''.'' # b) = [p @ a, b]"
      using split_dot_one [OF nd, of "[]"] by (simp add: str_split_def)
    with False loop show ?thesis by (simp add: addSeparators_def)
  qed
qed

lemma sep_match_parts:
  "sep_match acc s = Some (pre, g1, g2, post) \<Longrightarrow> pre @ g1 @ g2 @ post = rev acc @ s"
proof (induction acc s rule: sep_match.induct)
  case (2 acc c s)
  let ?r = "takeWhile is_digit (c # s)"
  show ?case
  proof (cases "4 \<le> length ?r")
    case True
    have "take (length ?r - 3) ?r @ drop (length ?r - 3) ?r @ drop (length ?r) (c # s) = c # s"
      by (metis append.assoc append_take_drop_id dropWhile_eq_drop takeWhile_dropWhile_id)
    with True "2.prems" show ?thesis by (auto simp: Let_def)
  next
    case False
    with 2 show ?thesis by (auto simp: Let_def)
  qed
qed simp

lemma sep_loop_Some: "sep_loop sep s = Some r \<Longrightarrow> sep = [] \<longrightarrow> sep_match [] s = None"
proof (rule sep_loop.raw_induct [of "\<lambda>sep s r. sep = [] \<longrightarrow> sep_match [] s = None"])
  fix loop :: "string \<Rightarrow> string \<Rightarrow> string option" and sep s r
  assume IH: "\<And>sep s r. loop sep s = Some r \<Longrightarrow> sep = [] \<longrightarrow> sep_match [] s = None"
    and body: "(case sep_match [] s of None \<Rightarrow> Some s
      | Some (pre, g1, g2, post) \<Rightarrow>
          loop sep (pre @ expand_repl pre g1 g2 post (''$1'' @ sep @ ''$2'') @ post)) = Some r"
  show "sep = [] \<longrightarrow> sep_match [] s = None"
  proof (rule impI, rule ccontr)
    assume sep: "sep = []" and "sep_match [] s \<noteq> None"
    then obtain pre g1 g2 post where m: "sep_match [] s = Some (pre, g1, g2, post)" by auto
    have "loop [] (pre @ g1 @ g2 @ post) = Some r" using body m sep by simp
    with IH m sep_match_parts [OF m] show False by auto
  qed
qed

text \<open>An empty separator: the pattern matches again after every replacement.\<close>

lemma addSeparators_empty_loops:
  assumes "list_all is_digit ds" and "4 \<le> length ds"
  shows "addSeparators ds [] dec = None"
proof -
  have "sep_match [] ds \<noteq> None" using sep_match_long [OF assms, of "[]" "[]"] by simp
  then have "sep_loop [] ds = None" using sep_loop_Some [of "[]" ds] by (cases "sep_loop [] ds") auto
  moreover have "str_split ''.'' ds = [ds]"
    using split_dot_none [OF digits_no_dot [OF assms(1)], of "[]"] by (simp add: str_split_def)
  ultimately show ?thesis by (simp add: addSeparators_def)
qed


end
