(* ===== verification/PivotSort.thy ===== *)
theory PivotSort
  imports PivotNumbers "HOL-Library.Product_Lexorder"
begin

text \<open>
  The sorters of the pivot table (\<open>react-pivottable/utilities.js\<close>): \<open>naturalSort\<close> on values of any
  kind, \<open>sortAs\<close> for a given order, \<open>getSort\<close>, and \<open>arrSort\<close>, which compares two keys, that is
  two lists of attribute values. A sorter returns a number; its sign is the order.

  Modelling bound. An attribute is not the name of a property every object inherits (\<open>getSort\<close>
  would find a built-in function there); the values compared by \<open>sortAs\<close> may be such names.
\<close>

type_synonym sorter = "jsval \<Rightarrow> jsval \<Rightarrow> jsnum"
type_synonym pkey = "jsval list"

abbreviation minus_one :: jsnum where "minus_one \<equiv> Fin (- 1)"
abbreviation plus_one :: jsnum where "plus_one \<equiv> Fin 1"

section \<open>\<open>naturalSort\<close>\<close>

text \<open>\<open>s.match(/(\d+)|(\D+)/g)\<close>: the runs of digits and of other characters.\<close>

function chunks :: "string \<Rightarrow> string list" where
  "chunks [] = []"
| "chunks (c # s) =
     (let P = (\<lambda>x. is_digit x = is_digit c)
      in takeWhile P (c # s) # chunks (dropWhile P (c # s)))"
  by pat_completeness auto
termination
  by (relation "measure length") (auto intro: le_imp_less_Suc length_dropWhile_le)

definition has_digit :: "string \<Rightarrow> bool" where
  "has_digit s \<longleftrightarrow> list_ex is_digit s"

text \<open>\<open>s.replace(/^0/, '.0')\<close>\<close>

definition dot_zero :: "string \<Rightarrow> string" where
  "dot_zero s = (if prefix ''0'' s then ''.0'' @ tl s else s)"

fun chunk_compare :: "string list \<Rightarrow> string list \<Rightarrow> jsnum" where
  "chunk_compare (a1 # a) (b1 # b) =
     (if a1 \<noteq> b1 then
        (if has_digit a1 \<and> has_digit b1
         then num_sub (str_number (dot_zero a1)) (str_number (dot_zero b1))
         else if str_less b1 a1 then plus_one else minus_one)
      else chunk_compare a b)"
| "chunk_compare a b = num_sub (num_of_nat (length a)) (num_of_nat (length b))"

definition string_compare :: "string \<Rightarrow> string \<Rightarrow> jsnum" where
  "string_compare a b =
     (if a = b then Fin 0
      else if \<not> has_digit a \<or> \<not> has_digit b then (if str_less b a then plus_one else minus_one)
      else chunk_compare (chunks a) (chunks b))"

definition naturalSort :: sorter where
  "naturalSort as bs =
     (let nas = to_number as; nbs = to_number bs
      in if bs \<noteq> JNull \<and> as = JNull then minus_one
         else if as \<noteq> JNull \<and> bs = JNull then plus_one
         else if as = JNum NaN then minus_one
         else if bs = JNum NaN then plus_one
         else if num_less nas nbs then minus_one
         else if num_less nbs nas then plus_one
         else if is_number as \<and> \<not> is_number bs then minus_one
         else if is_number bs \<and> \<not> is_number as then plus_one
         else if is_number as \<and> is_number bs then Fin 0
         else if nbs = NaN \<and> nas \<noteq> NaN then minus_one
         else if nas = NaN \<and> nbs \<noteq> NaN then plus_one
         else string_compare (to_str as) (to_str bs))"

section \<open>\<open>sortAs\<close> and \<open>getSort\<close>\<close>

text \<open>\<open>toLowerCase\<close> on code units below 256.\<close>

definition lower_char :: "char \<Rightarrow> char" where
  "lower_char c =
     (let n = of_char c :: nat
      in if (65 \<le> n \<and> n \<le> 90) \<or> (192 \<le> n \<and> n \<le> 222 \<and> n \<noteq> 215) then char_of (n + 32) else c)"

definition toLowerCase :: "string \<Rightarrow> string" where
  "toLowerCase s = map lower_char s"

text \<open>Assigning a number to the property \<open>__proto__\<close> of a plain object has no effect.\<close>

definition set_index :: "string \<Rightarrow> nat \<Rightarrow> nat obj \<Rightarrow> nat obj" where
  "set_index k i m = (if k = ''__proto__'' then m else obj_put k i m)"

definition sort_mapping :: "jsval list \<Rightarrow> nat obj" where
  "sort_mapping order = fold (\<lambda>(i, el). set_index (to_str el) i) (enumerate 0 order) []"

definition sort_lmapping :: "jsval list \<Rightarrow> nat obj" where
  "sort_lmapping order =
     fold (\<lambda>(i, el). case el of JStr s \<Rightarrow> set_index (toLowerCase s) i | _ \<Rightarrow> id) (enumerate 0 order) []"

text \<open>\<open>a in m\<close>, and \<open>m[a]\<close> as a number: the properties every object inherits are found too.\<close>

definition index_in :: "nat obj \<Rightarrow> jsval \<Rightarrow> bool" where
  "index_in m a \<longleftrightarrow> to_str a \<in> set (map fst m) \<or> to_str a \<in> set (map fst object_prototype)"

definition index_at :: "nat obj \<Rightarrow> jsval \<Rightarrow> jsnum" where
  "index_at m a = (case map_of m (to_str a) of Some i \<Rightarrow> num_of_nat i | None \<Rightarrow> NaN)"

definition sortAs :: "jsval list \<Rightarrow> sorter" where
  "sortAs order a b =
     (let mapping = sort_mapping order; lMapping = sort_lmapping order
      in if index_in mapping a \<and> index_in mapping b
           then num_sub (index_at mapping a) (index_at mapping b)
         else if index_in mapping a then minus_one
         else if index_in mapping b then plus_one
         else if index_in lMapping a \<and> index_in lMapping b
           then num_sub (index_at lMapping a) (index_at lMapping b)
         else if index_in lMapping a then minus_one
         else if index_in lMapping b then plus_one
         else naturalSort a b)"

datatype sorters = NoSorters | SorterFun "string \<Rightarrow> sorter option" | SorterObj "sorter obj"

definition getSort :: "sorters \<Rightarrow> string \<Rightarrow> sorter" where
  "getSort sorters attr =
     (case sorters of
        NoSorters \<Rightarrow> naturalSort
      | SorterFun f \<Rightarrow> (case f attr of Some f' \<Rightarrow> f' | None \<Rightarrow> naturalSort)
      | SorterObj m \<Rightarrow> (case map_of m attr of Some f' \<Rightarrow> f' | None \<Rightarrow> naturalSort))"

section \<open>Comparing keys\<close>

text \<open>
  The loop of \<open>arrSort\<close>: the first comparison that is not zero. A key never has more values than
  there are attributes, so the sorters do not run out first.
\<close>

fun arr_loop :: "bool \<Rightarrow> sorter list \<Rightarrow> pkey \<Rightarrow> pkey \<Rightarrow> jsnum option" where
  "arr_loop reverse (sorter # ss) (x # xs) (y # ys) =
     (let comparison = (if reverse then sorter y x else sorter x y)
      in if comparison \<noteq> Fin 0 then Some comparison else arr_loop reverse ss xs ys)"
| "arr_loop reverse _ _ _ = None"

definition arrSort :: "sorters \<Rightarrow> string list \<Rightarrow> bool \<Rightarrow> bool \<Rightarrow> pkey \<Rightarrow> pkey \<Rightarrow> jsnum" where
  "arrSort sorters attrs partialOnTop reverse a b =
     (case arr_loop reverse (map (getSort sorters) attrs) a b of
        Some comparison \<Rightarrow> comparison
      | None \<Rightarrow>
          if partialOnTop then num_sub (num_of_nat (length a)) (num_of_nat (length b))
          else num_sub (num_of_nat (length b)) (num_of_nat (length a)))"

section \<open>Where \<open>naturalSort\<close> is an order\<close>

text \<open>
  Nulls, numbers other than NaN and strings without digits: there the sorter compares a key,
  nulls first, then the number a value converts to, numbers before strings, then the text.
\<close>

fun orderly :: "jsval \<Rightarrow> bool" where
  "orderly JNull = True"
| "orderly (JNum n) = (n \<noteq> NaN)"
| "orderly (JStr s) = (\<not> has_digit s)"
| "orderly _ = False"

definition sort_key :: "jsval \<Rightarrow> bool \<times> jsnum \<times> bool \<times> string" where
  "sort_key v = (v \<noteq> JNull, to_number v, is_str v, (case v of JStr s \<Rightarrow> s | _ \<Rightarrow> []))"

lemma sort_key_inj: "orderly a \<Longrightarrow> orderly b \<Longrightarrow> sort_key a = sort_key b \<Longrightarrow> a = b"
  by (cases a; cases b) (auto simp: sort_key_def)

lemma string_compare_key:
  "\<not> has_digit s \<Longrightarrow> \<not> has_digit t \<Longrightarrow>
   string_compare s t = (if s < t then minus_one else if t < s then plus_one else Fin 0)"
  using less_linear [of s t] by (auto simp: string_compare_def str_less_iff)

lemma naturalSort_key:
  assumes "orderly a" and "orderly b"
  shows "naturalSort a b =
    (if sort_key a < sort_key b then minus_one else if sort_key b < sort_key a then plus_one else Fin 0)"
proof (cases "a = JNull \<or> b = JNull")
  case True
  with assms show ?thesis
    by (cases a; cases b) (auto simp: naturalSort_def sort_key_def string_compare_def)
next
  case False
  then have nonnull: "a \<noteq> JNull" "b \<noteq> JNull" by auto
  have nan: "a \<noteq> JNum NaN" "b \<noteq> JNum NaN" using assms by auto
  consider (nn) n m where "a = JNum n" "b = JNum m" | (ns) n t where "a = JNum n" "b = JStr t"
    | (sn) s m where "a = JStr s" "b = JNum m" | (ss) s t where "a = JStr s" "b = JStr t"
    using assms nonnull by (cases a; cases b) auto
  then show ?thesis
  proof cases
    case nn
    with nan show ?thesis by (auto simp: naturalSort_def sort_key_def num_less_iff)
  next
    case ns
    with nan show ?thesis by (auto simp: naturalSort_def sort_key_def num_less_iff Let_def)
  next
    case sn
    with nan show ?thesis by (auto simp: naturalSort_def sort_key_def num_less_iff Let_def)
  next
    case ss
    with assms show ?thesis
      by (auto simp: naturalSort_def sort_key_def num_less_iff string_compare_key Let_def)
  qed
qed

interpretation natural: keyed_order naturalSort "{v. orderly v}" sort_key
  by unfold_locales (auto simp: naturalSort_key)

section \<open>Where \<open>arrSort\<close> is an order\<close>

text \<open>The keys whose values lie, position by position, in given sets.\<close>

definition keys_in :: "jsval set list \<Rightarrow> pkey set" where
  "keys_in Vs = {k. length k \<le> length Vs \<and> list_all2 (\<lambda>v V. v \<in> V) k (take (length k) Vs)}"

lemma keys_in_Cons: "x # xs \<in> keys_in (V # Vs) \<longleftrightarrow> x \<in> V \<and> xs \<in> keys_in Vs"
  by (auto simp: keys_in_def)

lemma keys_in_Nil: "k \<in> keys_in [] \<longleftrightarrow> k = []"
  by (auto simp: keys_in_def)

lemma Nil_keys_in [simp]: "[] \<in> keys_in Vs"
  by (simp add: keys_in_def)

lemma arrSort_Cons:
  "arrSort sorters (a # attrs) onTop reverse (x # xs) (y # ys) =
     (let c = (if reverse then getSort sorters a y x else getSort sorters a x y)
      in if c \<noteq> Fin 0 then c else arrSort sorters attrs onTop reverse xs ys)"
  by (simp add: arrSort_def Let_def split: option.split)

lemma arrSort_Nil:
  "arrSort sorters attrs onTop reverse [] k =
     (if onTop then num_of_int (- int (length k)) else num_of_nat (length k))"
  "arrSort sorters attrs onTop reverse k [] =
     (if onTop then num_of_nat (length k) else num_of_int (- int (length k)))"
  by (cases attrs; cases k; simp add: arrSort_def)+

text \<open>
  The two comparisons of \<open>arrSort\<close> on keys that both go on, in terms of the comparison of their first
  values and that of the rest.
\<close>

lemma lex_order:
  assumes "sort_order c V" and "sort_order t K"
    and s_Cons: "\<And>x xs y ys. s (x # xs) (y # ys) = (if c x y \<noteq> Fin 0 then c x y else t xs ys)"
    and s_Nil: "\<And>k. s [] k = (if onTop then num_of_int (- int (length k)) else num_of_nat (length k))"
      "\<And>k. s k [] = (if onTop then num_of_nat (length k) else num_of_int (- int (length k)))"
    and K': "\<And>k. k \<in> K' \<longleftrightarrow> (case k of [] \<Rightarrow> True | x # xs \<Rightarrow> x \<in> V \<and> xs \<in> K)"
  shows "sort_order s K'"
proof -
  note c = sort_order.cmp_num [OF assms(1)] sort_order.cmp_zero_iff [OF assms(1)]
    sort_order.cmp_less_iff [OF assms(1)]
  note t = sort_order.cmp_num [OF assms(2)] sort_order.cmp_swap [OF assms(2)]
  have ord: "in_order s (x # xs) (y # ys) \<longleftrightarrow>
      \<not> in_order c y x \<or> in_order c x y \<and> in_order t xs ys"
    if "x \<in> V" "y \<in> V" for x xs y ys
    using that c(2) [of x y] num_less_asym sort_order.in_order_linear [OF assms(1), of x y]
    by (auto simp: in_order_def s_Cons)
  have nil: "in_order s [] k \<longleftrightarrow> onTop \<or> k = []" "in_order s k [] \<longleftrightarrow> \<not> onTop \<or> k = []" for k
    by (auto simp: in_order_def s_Nil)
  show ?thesis
  proof
    fix k l m
    show "s k l \<noteq> NaN" if "k \<in> K'" "l \<in> K'"
      using that c(1) t(1) by (cases k; cases l) (auto simp: K' s_Cons s_Nil)
    show "num_less (Fin 0) (s k l) \<longleftrightarrow> num_less (s l k) (Fin 0)" if "k \<in> K'" "l \<in> K'"
      using that c(2) t(2) sort_order.cmp_swap [OF assms(1)]
      by (cases k; cases l) (auto simp: K' s_Cons s_Nil)
    show "in_order s k m" if "k \<in> K'" "l \<in> K'" "m \<in> K'" "in_order s k l" "in_order s l m"
    proof (cases k; cases l; cases m)
      fix x xs y ys z zs
      assume k: "k = x # xs" "l = y # ys" "m = z # zs"
      then have V: "x \<in> V" "y \<in> V" "z \<in> V" "xs \<in> K" "ys \<in> K" "zs \<in> K" using that(1-3) by (auto simp: K')
      have h: "\<not> in_order c y x \<or> in_order c x y \<and> in_order t xs ys"
        "\<not> in_order c z y \<or> in_order c y z \<and> in_order t ys zs"
        using that(4,5) ord [OF V(1,2)] ord [OF V(2,3)] unfolding k by blast+
      have "\<not> in_order c z x \<or> in_order c x z \<and> in_order t xs zs"
        using h sort_order.in_order_linear [OF assms(1) V(2,1)]
          sort_order.cmp_trans [OF assms(1) V(3,1,2)] sort_order.cmp_trans [OF assms(1) V(2,3,1)]
          sort_order.cmp_trans [OF assms(1) V(1,2,3)] sort_order.cmp_trans [OF assms(2) V(4,5,6)]
        by blast
      then show ?thesis using ord [OF V(1,3)] unfolding k by blast
    qed (use that nil in auto)
  qed
qed

lemma arrSort_order:
  "list_all2 (\<lambda>a V. sort_order (getSort sorters a) V) attrs Vs \<Longrightarrow>
   sort_order (arrSort sorters attrs onTop reverse) (keys_in Vs)"
proof (induction attrs Vs rule: list_all2_induct)
  case Nil
  have "arrSort sorters [] onTop reverse [] [] = Fin 0" by (simp add: arrSort_Nil)
  then show ?case by unfold_locales (auto simp: keys_in_Nil in_order_def)
next
  case (Cons a attrs V Vs)
  show ?case
  proof (rule lex_order)
    show "sort_order (if reverse then (\<lambda>x y. getSort sorters a y x) else getSort sorters a) V"
      using Cons.hyps sort_order_reverse by auto
    show "sort_order (arrSort sorters attrs onTop reverse) (keys_in Vs)" by (rule Cons.IH)
    show "k \<in> keys_in (V # Vs) \<longleftrightarrow> (case k of [] \<Rightarrow> True | x # xs \<Rightarrow> x \<in> V \<and> xs \<in> keys_in Vs)" for k
      by (cases k) (auto simp: keys_in_Cons)
  qed (auto simp: arrSort_Cons arrSort_Nil)
qed

section \<open>Where \<open>sortAs\<close> is an order\<close>

lemma index_listed:
  assumes "to_str v \<in> set (map fst m)"
  shows "index_in m v" and "index_at m v = num_of_nat (the (map_of m (to_str v)))"
proof -
  obtain i where "map_of m (to_str v) = Some i"
    using assms objd.keys_dom [of m] by blast
  then show "index_at m v = num_of_nat (the (map_of m (to_str v)))" by (simp add: index_at_def)
qed (simp add: assms index_in_def del: set_map)

lemma sortAs_keyed:
  "keyed_order (sortAs order) {v. to_str v \<in> set (map fst (sort_mapping order))}
     (\<lambda>v. the (map_of (sort_mapping order) (to_str v)))"
proof -
  have "sortAs order a b = num_of_int
      (int (the (map_of (sort_mapping order) (to_str a))) - int (the (map_of (sort_mapping order) (to_str b))))"
    if "to_str a \<in> set (map fst (sort_mapping order))" "to_str b \<in> set (map fst (sort_mapping order))"
    for a b
    by (simp add: sortAs_def Let_def index_listed [OF that(1)] index_listed [OF that(2)])
  then show ?thesis by unfold_locales (simp_all del: set_map)
qed

lemma sortAs_order: "sort_order (sortAs order) {v. to_str v \<in> set (map fst (sort_mapping order))}"
  using sortAs_keyed [of order] by (rule keyed_order.sort_order_cmp)

lemma set_index_keys:
  "set (map fst (set_index k i m)) = set (map fst m) \<union> ({k} - {''__proto__''})"
  using set_keys_obj_put [of k i m] by (auto simp: set_index_def simp del: set_map)

lemma keys_sort_mapping:
  "set (map fst (sort_mapping order)) = to_str ` set order - {''__proto__''}"
proof -
  have "set (map fst (fold (\<lambda>(i, el). set_index (to_str el) i) ps m)) =
      set (map fst m) \<union> (to_str ` set (map snd ps) - {''__proto__''})" for ps m
  proof (induction ps arbitrary: m)
    case (Cons p ps)
    obtain i el where p: "p = (i, el)" by (cases p)
    show ?case using Cons.IH [of "set_index (to_str el) i m"] set_index_keys [of "to_str el" i m]
      by (auto simp: p simp del: set_map)
  qed simp
  from this [of "enumerate 0 order" "[]"] show ?thesis
    by (simp add: sort_mapping_def del: set_map)
qed

end
