(* ===== verification/PivotAggregators.thy ===== *)
theory PivotAggregators
  imports PivotSort
begin

text \<open>
  The aggregators of the pivot table: the templates of \<open>react-pivottable/utilities.js\<close> and the
  factory of \<open>PivotTableChart.tsx\<close>. A template is the function a name stands for, with its formatter
  already given; an aggregator made from it keeps a state, takes records one by one (\<open>push\<close>) and
  reads a value. A template that relates an aggregator to a total (\<open>fractionOf\<close>) wraps one of
  the others.

  Modelling bounds. A record is an object. The wrapped template of a fraction is not itself a
  fraction (the code wraps sums and counts only). \<open>Math.sqrt\<close> is an argument, because numbers are
  exact rationals. Reading a median sorts the collected numbers in place; the model sorts a copy,
  and every read sorts again.
\<close>

section \<open>Templates and states\<close>

datatype base_template =
    TCount fmt
  | TUniques "jsval list \<Rightarrow> jsval" fmt
  | TSum fmt
  | TExtremes string fmt
  | TQuantile rat fmt
  | TRunningStat string rat fmt
  | TSumOverSum fmt

datatype template = Base base_template | FractionOf base_template string fmt

datatype agg_state =
    CountState nat
  | UniquesState "jsval list"
  | SumState jsval
  | ExtremesState jsval
  | QuantileState "jsnum list" "nat obj"
  | RunningState nat jsnum jsnum jsval
  | SumOverSumState jsnum jsnum

type_synonym prec = "jsval obj"

text \<open>\<open>record[attr]\<close> for the attribute at a position of \<open>vals\<close>; a missing one is \<open>undefined\<close>.\<close>

definition attr_name :: "string list \<Rightarrow> nat \<Rightarrow> string" where
  "attr_name vals i = (if i < length vals then vals ! i else ''undefined'')"

definition attr_val :: "string list \<Rightarrow> nat \<Rightarrow> prec \<Rightarrow> jsval" where
  "attr_val vals i rc = oprop (JObj rc) (attr_name vals i)"

fun agg_init :: "base_template \<Rightarrow> agg_state" where
  "agg_init (TCount _) = CountState 0"
| "agg_init (TUniques _ _) = UniquesState []"
| "agg_init (TSum _) = SumState (JNum (Fin 0))"
| "agg_init (TExtremes _ _) = ExtremesState JNull"
| "agg_init (TQuantile _ _) = QuantileState [] []"
| "agg_init (TRunningStat _ _ _) = RunningState 0 (Fin 0) (Fin 0) JNull"
| "agg_init (TSumOverSum _) = SumOverSumState (Fin 0) (Fin 0)"

section \<open>Pushing a record\<close>

definition uniques_push :: "jsval \<Rightarrow> jsval list \<Rightarrow> jsval list" where
  "uniques_push v uniq = (if list_ex (\<lambda>u. same_value_zero u v) uniq then uniq else uniq @ [v])"

definition sum_push :: "jsval \<Rightarrow> jsval \<Rightarrow> jsval" where
  "sum_push v acc =
     (if to_number v = NaN then v else js_add acc (JNum (parseFloat (to_str v))))"

text \<open>
  \<open>sorter\<close> is \<open>getSort(data.sorters, attr)\<close>; the data model keeps its sorters under \<open>props\<close>, so
  \<open>data.sorters\<close> is undefined.
\<close>

definition extremes_push :: "string \<Rightarrow> sorter \<Rightarrow> jsval \<Rightarrow> jsval \<Rightarrow> jsval" where
  "extremes_push mode sorter x val =
     (let other = (if val \<noteq> JNull then val else x)
      in if mode \<in> {''min'', ''max''} then
           (let coercedValue = to_number x
            in if coercedValue = NaN then
                 (if \<not> truthy val \<or> (mode = ''min'' \<and> js_less x val) \<or> (mode = ''max'' \<and> js_less val x)
                  then x else val)
               else let v = (if val \<noteq> JNull then to_number val else coercedValue)
                    in JNum (if mode = ''min'' then math_min coercedValue v else math_max coercedValue v))
         else if mode = ''first'' \<and> num_le (sorter x other) (Fin 0) then x
         else if mode = ''last'' \<and> num_le (Fin 0) (sorter x other) then x
         else val)"

definition quantile_push :: "jsval \<Rightarrow> jsnum list \<Rightarrow> nat obj \<Rightarrow> jsnum list \<times> nat obj" where
  "quantile_push v vals strMap =
     (let x = to_number v; k = to_str v
      in if x = NaN then (vals, obj_put k (Suc (case map_of strMap k of Some n \<Rightarrow> n | None \<Rightarrow> 0)) strMap)
         else (vals @ [x], strMap))"

fun runningStat_push :: "jsval \<Rightarrow> nat \<times> jsnum \<times> jsnum \<times> jsval \<Rightarrow> nat \<times> jsnum \<times> jsnum \<times> jsval" where
  "runningStat_push v (n, m, s, strValue) =
     (let x = to_number v
      in if x = NaN then (n, m, s, if is_str v then v else strValue)
         else let n1 = Suc n;
                  m1 = (if n1 = 1 then x else m);
                  mNew = num_add m1 (num_div (num_sub x m1) (num_of_nat n1))
              in (n1, mNew, num_add s (num_mul (num_sub x m1) (num_sub x mNew)), strValue))"

definition sumOver_push :: "jsval \<Rightarrow> jsnum \<Rightarrow> jsnum" where
  "sumOver_push v acc = (if to_number v \<noteq> NaN then num_add acc (parseFloat (to_str v)) else acc)"

fun agg_push :: "base_template \<Rightarrow> string list \<Rightarrow> prec \<Rightarrow> agg_state \<Rightarrow> agg_state" where
  "agg_push (TCount _) vals rc (CountState n) = CountState (Suc n)"
| "agg_push (TUniques _ _) vals rc (UniquesState u) = UniquesState (uniques_push (attr_val vals 0 rc) u)"
| "agg_push (TSum _) vals rc (SumState s) = SumState (sum_push (attr_val vals 0 rc) s)"
| "agg_push (TExtremes mode _) vals rc (ExtremesState v) =
     ExtremesState (extremes_push mode (getSort NoSorters (attr_name vals 0)) (attr_val vals 0 rc) v)"
| "agg_push (TQuantile _ _) vals rc (QuantileState vs m) =
     (let (vs', m') = quantile_push (attr_val vals 0 rc) vs m in QuantileState vs' m')"
| "agg_push (TRunningStat _ _ _) vals rc (RunningState n m s str) =
     (let (n', m', s', str') = runningStat_push (attr_val vals 0 rc) (n, m, s, str)
      in RunningState n' m' s' str')"
| "agg_push (TSumOverSum _) vals rc (SumOverSumState a b) =
     SumOverSumState (sumOver_push (attr_val vals 0 rc) a) (sumOver_push (attr_val vals 1 rc) b)"
| "agg_push _ vals rc s = s"

section \<open>Reading the value\<close>

text \<open>\<open>xs[i]\<close> of an array of numbers at an integer that may be out of range.\<close>

definition num_at :: "jsnum list \<Rightarrow> int \<Rightarrow> jsval" where
  "num_at xs i = (if 0 \<le> i \<and> nat i < length xs then JNum (xs ! nat i) else JUndef)"

definition num_sort :: "jsnum list \<Rightarrow> jsnum list" where
  "num_sort xs = (case js_sort (\<lambda>a b. Inr (num_sub a b)) xs of Inr ys \<Rightarrow> ys | Inl _ \<Rightarrow> xs)"

definition quantile_value :: "rat \<Rightarrow> jsnum list \<Rightarrow> nat obj \<Rightarrow> jsval" where
  "quantile_value q vals strMap =
     (if vals = [] \<and> strMap = [] then JNull
      else if strMap \<noteq> [] then
        (let ks = map fst strMap; middle = length strMap div 2
         in if odd (length ks) then JStr (ks ! middle)
            else js_div (JStr (ks ! (middle - 1) @ ks ! middle)) (JInt 2))
      else let vs = num_sort vals; i = of_int (int (length vs) - 1) * q
           in js_div (js_add (num_at vs \<lfloor>i\<rfloor>) (num_at vs \<lceil>i\<rceil>)) (JInt 2))"

definition runningStat_value ::
  "(jsnum \<Rightarrow> jsnum) \<Rightarrow> string \<Rightarrow> rat \<Rightarrow> nat \<Rightarrow> jsnum \<Rightarrow> jsnum \<Rightarrow> jsval \<Rightarrow> jsval res" where
  "runningStat_value msqrt mode ddof n m s strValue =
     (if truthy strValue then Inr strValue
      else if mode = ''mean'' then Inr (JNum (if n = 0 then NaN else m))
      else if of_nat n \<le> ddof then Inr (JInt 0)
      else let variance = num_div s (Fin (of_nat n - ddof))
           in if mode = ''var'' then Inr (JNum variance)
              else if mode = ''stdev'' then Inr (JNum (msqrt variance))
              else Inl (PlainError ''unknown mode for runningStat''))"

fun agg_value :: "(jsnum \<Rightarrow> jsnum) \<Rightarrow> base_template \<Rightarrow> agg_state \<Rightarrow> jsval res" where
  "agg_value msqrt (TCount _) (CountState n) = Inr (JNum (num_of_nat n))"
| "agg_value msqrt (TUniques fn _) (UniquesState u) = Inr (fn u)"
| "agg_value msqrt (TSum _) (SumState s) = Inr s"
| "agg_value msqrt (TExtremes _ _) (ExtremesState v) = Inr v"
| "agg_value msqrt (TQuantile q _) (QuantileState vs m) = Inr (quantile_value q vs m)"
| "agg_value msqrt (TRunningStat mode ddof _) (RunningState n m s str) =
     runningStat_value msqrt mode ddof n m s str"
| "agg_value msqrt (TSumOverSum _) (SumOverSumState a b) = Inr (JNum (num_div a b))"
| "agg_value msqrt _ _ = Inl TypeError"

section \<open>Formatting and inputs\<close>

definition extremes_format :: "fmt \<Rightarrow> fmt" where
  "extremes_format formatter x = (if is_number x then formatter x else Some x)"

fun base_format :: "base_template \<Rightarrow> fmt" where
  "base_format (TCount f) = f"
| "base_format (TUniques _ f) = fmtNonString f"
| "base_format (TSum f) = fmtNonString f"
| "base_format (TExtremes _ f) = extremes_format f"
| "base_format (TQuantile _ f) = fmtNonString f"
| "base_format (TRunningStat _ _ f) = fmtNonString f"
| "base_format (TSumOverSum f) = f"

fun agg_format :: "template \<Rightarrow> fmt" where
  "agg_format (Base b) = base_format b"
| "agg_format (FractionOf _ _ f) = fmtNonString f"

fun base_inputs :: "base_template \<Rightarrow> string list \<Rightarrow> nat option" where
  "base_inputs (TCount _) vals = None"
| "base_inputs (TSumOverSum _) vals = Some (if 1 < length vals then 0 else 2)"
| "base_inputs _ vals = Some (if vals \<noteq> [] then 0 else 1)"

fun numInputs :: "template \<Rightarrow> string list \<Rightarrow> nat option" where
  "numInputs (Base b) vals = base_inputs b vals"
| "numInputs (FractionOf b _ _) vals = base_inputs b vals"

section \<open>The named templates\<close>

text \<open>\<open>x.join(s)\<close>: null and undefined print as nothing.\<close>

definition elem_text :: "jsval \<Rightarrow> string" where
  "elem_text v = (if nullish v then [] else to_str v)"

definition vals_join :: "string \<Rightarrow> jsval list \<Rightarrow> string" where
  "vals_join s xs = str_join s (map elem_text xs)"

definition countUnique :: "fmt \<Rightarrow> template" where
  "countUnique f = Base (TUniques (\<lambda>x. JNum (num_of_nat (length x))) f)"

definition listUnique :: "string \<Rightarrow> fmt option \<Rightarrow> template" where
  "listUnique s f = Base (TUniques (\<lambda>x. JStr (vals_join s x)) (case f of Some g \<Rightarrow> g | None \<Rightarrow> Some))"

definition tpl_max :: "fmt \<Rightarrow> template" where "tpl_max f = Base (TExtremes ''max'' f)"
definition tpl_min :: "fmt \<Rightarrow> template" where "tpl_min f = Base (TExtremes ''min'' f)"
definition tpl_first :: "fmt \<Rightarrow> template" where "tpl_first f = Base (TExtremes ''first'' f)"
definition tpl_last :: "fmt \<Rightarrow> template" where "tpl_last f = Base (TExtremes ''last'' f)"
definition tpl_median :: "fmt \<Rightarrow> template" where "tpl_median f = Base (TQuantile (1 / 2) f)"
definition tpl_average :: "fmt \<Rightarrow> template" where "tpl_average f = Base (TRunningStat ''mean'' 1 f)"
definition tpl_var :: "rat \<Rightarrow> fmt \<Rightarrow> template" where "tpl_var ddof f = Base (TRunningStat ''var'' ddof f)"
definition tpl_stdev :: "rat \<Rightarrow> fmt \<Rightarrow> template" where "tpl_stdev ddof f = Base (TRunningStat ''stdev'' ddof f)"

definition aggregators :: "template obj" where
  "aggregators =
     [(''Count'', Base (TCount usFmtInt)),
      (''Count Unique Values'', countUnique usFmtInt),
      (''List Unique Values'', listUnique '', '' None),
      (''Sum'', Base (TSum usFmt)),
      (''Integer Sum'', Base (TSum usFmtInt)),
      (''Average'', tpl_average usFmt),
      (''Median'', tpl_median usFmt),
      (''Sample Variance'', tpl_var 1 usFmt),
      (''Sample Standard Deviation'', tpl_stdev 1 usFmt),
      (''Minimum'', tpl_min usFmt),
      (''Maximum'', tpl_max usFmt),
      (''First'', tpl_first usFmt),
      (''Last'', tpl_last usFmt),
      (''Sum over Sum'', Base (TSumOverSum usFmt)),
      (''Sum as Fraction of Total'', FractionOf (TSum usFmt) ''total'' usFmtPct),
      (''Sum as Fraction of Rows'', FractionOf (TSum usFmt) ''row'' usFmtPct),
      (''Sum as Fraction of Columns'', FractionOf (TSum usFmt) ''col'' usFmtPct),
      (''Count as Fraction of Total'', FractionOf (TCount usFmtInt) ''total'' usFmtPct),
      (''Count as Fraction of Rows'', FractionOf (TCount usFmtInt) ''row'' usFmtPct),
      (''Count as Fraction of Columns'', FractionOf (TCount usFmtInt) ''col'' usFmtPct)]"

definition aggregatorsFactory :: "fmt \<Rightarrow> template obj" where
  "aggregatorsFactory formatter =
     [(''Count'', Base (TCount formatter)),
      (''Count Unique Values'', countUnique formatter),
      (''List Unique Values'', listUnique '', '' (Some formatter)),
      (''Sum'', Base (TSum formatter)),
      (''Average'', tpl_average formatter),
      (''Median'', tpl_median formatter),
      (''Sample Variance'', tpl_var 1 formatter),
      (''Sample Standard Deviation'', tpl_stdev 1 formatter),
      (''Minimum'', tpl_min formatter),
      (''Maximum'', tpl_max formatter),
      (''First'', tpl_first formatter),
      (''Last'', tpl_last formatter),
      (''Sum as Fraction of Total'', FractionOf (TSum usFmt) ''total'' formatter),
      (''Sum as Fraction of Rows'', FractionOf (TSum usFmt) ''row'' formatter),
      (''Sum as Fraction of Columns'', FractionOf (TSum usFmt) ''col'' formatter),
      (''Count as Fraction of Total'', FractionOf (TCount usFmtInt) ''total'' formatter),
      (''Count as Fraction of Rows'', FractionOf (TCount usFmtInt) ''row'' formatter),
      (''Count as Fraction of Columns'', FractionOf (TCount usFmtInt) ''col'' formatter)]"

end
