(* ===== verification/PivotData.thy ===== *)
theory PivotData
  imports PivotAggregators
begin

text \<open>
  The data model of the pivot table: the class \<open>PivotData\<close> of \<open>react-pivottable/utilities.js\<close>. Its
  constructor files every record under the grand total, under a total for each prefix of its row
  key, a total for each prefix of its column key, and a cell for each pair of prefixes; the
  dictionaries are keyed by \<open>flatKey\<close>, the texts of the values joined by NUL characters.

  Modelling bounds. The names of columns are not names every object inherits; the values in them
  may be. Where the code finds an inherited function in place of an aggregator, it throws as soon
  as it calls \<open>push\<close> or \<open>value\<close> on it; the model throws at the lookup.
\<close>

section \<open>Keys and lookups\<close>

definition flatKey :: "pkey \<Rightarrow> string" where
  "flatKey attrVals = vals_join [CHR 0x00] attrVals"

text \<open>\<open>obj[k]\<close> where the object may lack the key and inherit it.\<close>

datatype 'v prop_lookup = Own 'v | Inherited | Absent

definition prop_lookup :: "'v obj \<Rightarrow> string \<Rightarrow> 'v prop_lookup" where
  "prop_lookup m k =
     (case map_of m k of
        Some v \<Rightarrow> Own v
      | None \<Rightarrow> if k \<in> set (map fst object_prototype) then Inherited else Absent)"

section \<open>Aggregators in their places\<close>

record agg =
  ag_template :: template
  ag_vals :: "string list"
  ag_row :: pkey
  ag_col :: pkey
  ag_state :: agg_state
  ag_isSubtotal :: bool
  ag_isRowSubtotal :: bool
  ag_isColSubtotal :: bool

fun base_of :: "template \<Rightarrow> base_template" where
  "base_of (Base b) = b"
| "base_of (FractionOf b _ _) = b"

definition newAggregator :: "template \<Rightarrow> string list \<Rightarrow> pkey \<Rightarrow> pkey \<Rightarrow> agg" where
  "newAggregator tpl vals rowKey colKey =
     \<lparr>ag_template = tpl, ag_vals = vals, ag_row = rowKey, ag_col = colKey,
      ag_state = agg_init (base_of tpl), ag_isSubtotal = False, ag_isRowSubtotal = False,
      ag_isColSubtotal = False\<rparr>"

definition push :: "prec \<Rightarrow> agg \<Rightarrow> agg" where
  "push rc a = a\<lparr>ag_state := agg_push (base_of (ag_template a)) (ag_vals a) rc (ag_state a)\<rparr>"

text \<open>The row and column key whose aggregator a fraction relates to.\<close>

definition fraction_selector :: "string \<Rightarrow> agg \<Rightarrow> (pkey \<times> pkey) option" where
  "fraction_selector type a =
     (if type = ''total'' then Some ([], [])
      else if type = ''row'' then Some (ag_row a, [])
      else if type = ''col'' then Some ([], ag_col a) else None)"

section \<open>The class\<close>

datatype pivot_input = Records "prec list" | OtherInput

record pivot_props =
  pp_data :: pivot_input
  pp_cols :: "string list"
  pp_rows :: "string list"
  pp_vals :: "string list"
  pp_aggregatorName :: string
  pp_sorters :: sorters
  pp_rowOrder :: string
  pp_colOrder :: string
  pp_defaultFormatter :: fmt
  pp_customFormatters :: "fmt obj obj option"

text \<open>\<open>PivotData.defaultProps\<close>, with the formatter and the data still to be given.\<close>

definition default_props :: "fmt \<Rightarrow> pivot_input \<Rightarrow> pivot_props" where
  "default_props formatter input =
     \<lparr>pp_data = input, pp_cols = [], pp_rows = [], pp_vals = [], pp_aggregatorName = ''Count'',
      pp_sorters = SorterObj [], pp_rowOrder = ''key_a_to_z'', pp_colOrder = ''key_a_to_z'',
      pp_defaultFormatter = formatter, pp_customFormatters = None\<rparr>"

record subtotals =
  rowEnabled :: bool
  colEnabled :: bool
  rowPartialOnTop :: bool
  colPartialOnTop :: bool

record pivot_data =
  pd_props :: pivot_props
  pd_aggregator :: template
  pd_formatted :: "template obj obj option"
  pd_tree :: "agg obj obj"
  pd_rowKeys :: "pkey list"
  pd_colKeys :: "pkey list"
  pd_rowTotals :: "agg obj"
  pd_colTotals :: "agg obj"
  pd_allTotal :: agg
  pd_subtotals :: subtotals
  pd_sorted :: bool

subsection \<open>Choosing the aggregator\<close>

definition has_formatter :: "template obj obj \<Rightarrow> string \<Rightarrow> jsval \<Rightarrow> bool" where
  "has_formatter fa name value =
     (case map_of fa name of None \<Rightarrow> False | Some m \<Rightarrow> prop_lookup m (to_str value) \<noteq> Absent)"

definition getFormattedAggregator :: "pivot_data \<Rightarrow> prec \<Rightarrow> pkey option \<Rightarrow> template res" where
  "getFormattedAggregator pd rc totalsKeys =
     (case pd_formatted pd of
        None \<Rightarrow> Inr (pd_aggregator pd)
      | Some fa \<Rightarrow>
          (case find (\<lambda>(name, value). has_formatter fa name value) rc of
             None \<Rightarrow> Inr (pd_aggregator pd)
           | Some (groupName, groupValue) \<Rightarrow>
               if groupName = [] \<or> \<not> truthy groupValue \<or>
                  (case totalsKeys of None \<Rightarrow> False
                   | Some ks \<Rightarrow> \<not> list_ex (\<lambda>v. same_value_zero v groupValue) ks)
               then Inr (pd_aggregator pd)
               else (case prop_lookup (the (map_of fa groupName)) (to_str groupValue) of
                       Own tpl \<Rightarrow> Inr tpl
                     | _ \<Rightarrow> Inl TypeError)))"

subsection \<open>Filing a record\<close>

definition key_of :: "string list \<Rightarrow> prec \<Rightarrow> pkey" where
  "key_of attrs rc = map (\<lambda>a. case map_of rc a of Some v \<Rightarrow> v | None \<Rightarrow> JStr ''null'') attrs"

definition levels :: "bool \<Rightarrow> nat \<Rightarrow> nat list" where
  "levels enabled n = [(if enabled then 1 else max 1 n)..<Suc n]"

definition row_total_step :: "prec \<Rightarrow> pkey \<Rightarrow> nat \<Rightarrow> pivot_data \<Rightarrow> pivot_data res" where
  "row_total_step rc rowKey ri pd =
     (let fRowKey = take ri rowKey; k = flatKey fRowKey;
          fill = (\<lambda>a. (push rc a)\<lparr>ag_isSubtotal := ri < length rowKey\<rparr>)
      in case prop_lookup (pd_rowTotals pd) k of
           Own a \<Rightarrow> Inr (pd\<lparr>pd_rowTotals := obj_put k (fill a) (pd_rowTotals pd)\<rparr>)
         | Inherited \<Rightarrow> Inl TypeError
         | Absent \<Rightarrow> rbind (getFormattedAggregator pd rc (Some rowKey)) (\<lambda>tpl.
             Inr (pd\<lparr>pd_rowKeys := pd_rowKeys pd @ [fRowKey],
                     pd_rowTotals := obj_put k
                       (fill (newAggregator tpl (pp_vals (pd_props pd)) fRowKey [])) (pd_rowTotals pd)\<rparr>)))"

definition col_total_step :: "prec \<Rightarrow> pkey \<Rightarrow> nat \<Rightarrow> pivot_data \<Rightarrow> pivot_data res" where
  "col_total_step rc colKey ci pd =
     (let fColKey = take ci colKey; k = flatKey fColKey;
          fill = (\<lambda>a. (push rc a)\<lparr>ag_isSubtotal := ci < length colKey\<rparr>)
      in case prop_lookup (pd_colTotals pd) k of
           Own a \<Rightarrow> Inr (pd\<lparr>pd_colTotals := obj_put k (fill a) (pd_colTotals pd)\<rparr>)
         | Inherited \<Rightarrow> Inl TypeError
         | Absent \<Rightarrow> rbind (getFormattedAggregator pd rc (Some colKey)) (\<lambda>tpl.
             Inr (pd\<lparr>pd_colKeys := pd_colKeys pd @ [fColKey],
                     pd_colTotals := obj_put k
                       (fill (newAggregator tpl (pp_vals (pd_props pd)) [] fColKey)) (pd_colTotals pd)\<rparr>)))"

definition cell_step :: "prec \<Rightarrow> pkey \<Rightarrow> pkey \<Rightarrow> nat \<Rightarrow> nat \<Rightarrow> pivot_data \<Rightarrow> pivot_data res" where
  "cell_step rc rowKey colKey ri ci pd =
     (let fRowKey = take ri rowKey; rk = flatKey fRowKey; fColKey = take ci colKey; ck = flatKey fColKey;
          rsub = ri < length rowKey; csub = ci < length colKey;
          fill = (\<lambda>a. (push rc a)\<lparr>ag_isSubtotal := rsub \<or> csub, ag_isRowSubtotal := rsub,
                                 ag_isColSubtotal := csub\<rparr>)
      in case prop_lookup (pd_tree pd) rk of
           Own cells \<Rightarrow>
             (case prop_lookup cells ck of
                Own a \<Rightarrow> Inr (pd\<lparr>pd_tree := obj_put rk (obj_put ck (fill a) cells) (pd_tree pd)\<rparr>)
              | Inherited \<Rightarrow> Inl TypeError
              | Absent \<Rightarrow> rbind (getFormattedAggregator pd rc None) (\<lambda>tpl.
                  Inr (pd\<lparr>pd_tree := obj_put rk (obj_put ck
                    (fill (newAggregator tpl (pp_vals (pd_props pd)) fRowKey fColKey)) cells) (pd_tree pd)\<rparr>)))
         | _ \<Rightarrow> Inl TypeError)"

definition tree_row_step :: "prec \<Rightarrow> pkey \<Rightarrow> pkey \<Rightarrow> nat list \<Rightarrow> nat \<Rightarrow> pivot_data \<Rightarrow> pivot_data res" where
  "tree_row_step rc rowKey colKey cls ri pd =
     (let rk = flatKey (take ri rowKey);
          pd1 = (if prop_lookup (pd_tree pd) rk = Absent then pd\<lparr>pd_tree := obj_put rk [] (pd_tree pd)\<rparr> else pd)
      in rfold (cell_step rc rowKey colKey ri) cls pd1)"

definition processRecord :: "prec \<Rightarrow> pivot_data \<Rightarrow> pivot_data res" where
  "processRecord rc pd =
     (let colKey = key_of (pp_cols (pd_props pd)) rc;
          rowKey = key_of (pp_rows (pd_props pd)) rc;
          pd1 = pd\<lparr>pd_allTotal := push rc (pd_allTotal pd)\<rparr>;
          rls = levels (rowEnabled (pd_subtotals pd)) (length rowKey);
          cls = levels (colEnabled (pd_subtotals pd)) (length colKey)
      in rbind (rfold (row_total_step rc rowKey) rls pd1) (\<lambda>pd2.
         rbind (rfold (col_total_step rc colKey) cls pd2) (\<lambda>pd3.
         rfold (tree_row_step rc rowKey colKey cls) rls pd3)))"

subsection \<open>The constructor\<close>

definition forEachRecord :: "pivot_input \<Rightarrow> (prec \<Rightarrow> pivot_data \<Rightarrow> pivot_data res) \<Rightarrow> pivot_data \<Rightarrow> pivot_data res" where
  "forEachRecord input process pd =
     (case input of Records rs \<Rightarrow> rfold process rs pd
      | OtherInput \<Rightarrow> Inl (PlainError ''Unknown input format''))"

definition formattedAggregators :: "string \<Rightarrow> fmt obj obj \<Rightarrow> template obj obj res" where
  "formattedAggregators name cf =
     rmap (\<lambda>(key, columnFormatter).
       rbind (rmap (\<lambda>(column, formatter).
         case map_of (aggregatorsFactory formatter) name of
           None \<Rightarrow> Inl TypeError
         | Some tpl \<Rightarrow> Inr (column, tpl)) columnFormatter) (\<lambda>ts. Inr (key, ts))) cf"

definition empty_pivot ::
  "pivot_props \<Rightarrow> subtotals \<Rightarrow> template \<Rightarrow> template obj obj option \<Rightarrow> pivot_data" where
  "empty_pivot props st tpl fa =
     \<lparr>pd_props = props, pd_aggregator = tpl, pd_formatted = fa, pd_tree = [], pd_rowKeys = [],
      pd_colKeys = [], pd_rowTotals = [], pd_colTotals = [],
      pd_allTotal = newAggregator tpl (pp_vals props) [] [], pd_subtotals = st, pd_sorted = False\<rparr>"

definition newPivotData :: "pivot_props \<Rightarrow> subtotals \<Rightarrow> pivot_data res" where
  "newPivotData props st =
     (case map_of (aggregatorsFactory (pp_defaultFormatter props)) (pp_aggregatorName props) of
        None \<Rightarrow> Inl TypeError
      | Some tpl \<Rightarrow>
          rbind (case pp_customFormatters props of
                   None \<Rightarrow> Inr None
                 | Some cf \<Rightarrow> rbind (formattedAggregators (pp_aggregatorName props) cf) (\<lambda>fa. Inr (Some fa)))
            (\<lambda>fa. forEachRecord (pp_data props) processRecord (empty_pivot props st tpl fa)))"

subsection \<open>Reading\<close>

text \<open>\<open>None\<close> is the placeholder whose value is null and which formats to the empty string.\<close>

definition getAggregator :: "pivot_data \<Rightarrow> pkey \<Rightarrow> pkey \<Rightarrow> agg option res" where
  "getAggregator pd rowKey colKey =
     (let pick = (\<lambda>m k. case prop_lookup m k of Own a \<Rightarrow> Inr (Some a) | Inherited \<Rightarrow> Inl TypeError
                        | Absent \<Rightarrow> Inr None)
      in if rowKey = [] \<and> colKey = [] then Inr (Some (pd_allTotal pd))
         else if rowKey = [] then pick (pd_colTotals pd) (flatKey colKey)
         else if colKey = [] then pick (pd_rowTotals pd) (flatKey rowKey)
         else (case prop_lookup (pd_tree pd) (flatKey rowKey) of
                 Own cells \<Rightarrow> pick cells (flatKey colKey)
               | _ \<Rightarrow> Inl TypeError))"

definition value_of :: "(jsnum \<Rightarrow> jsnum) \<Rightarrow> pivot_data \<Rightarrow> agg option \<Rightarrow> jsval res" where
  "value_of msqrt pd oa =
     (case oa of
        None \<Rightarrow> Inr JNull
      | Some a \<Rightarrow>
          (let own = agg_value msqrt (base_of (ag_template a)) (ag_state a)
           in case ag_template a of
                Base b \<Rightarrow> own
              | FractionOf b type f \<Rightarrow>
                  (case fraction_selector type a of
                     None \<Rightarrow> Inl TypeError
                   | Some (r, c) \<Rightarrow>
                       rbind (getAggregator pd r c) (\<lambda>ot.
                       case ot of
                         None \<Rightarrow> Inl TypeError
                       | Some tot \<Rightarrow>
                           (case ag_template tot of
                              Base _ \<Rightarrow> Inl TypeError
                            | FractionOf tb _ _ \<Rightarrow>
                                rbind (agg_value msqrt tb (ag_state tot)) (\<lambda>acc.
                                if is_str acc then Inr acc
                                else rbind own (\<lambda>v. Inr (js_div v acc))))))))"

definition format_of :: "agg option \<Rightarrow> jsval \<Rightarrow> jsval option" where
  "format_of oa v = (case oa of None \<Rightarrow> Some (JStr []) | Some a \<Rightarrow> agg_format (ag_template a) v)"

subsection \<open>Sorting the keys\<close>

definition value_compare ::
  "(jsnum \<Rightarrow> jsnum) \<Rightarrow> pivot_data \<Rightarrow> bool \<Rightarrow> (pkey \<Rightarrow> pkey \<times> pkey) \<Rightarrow> pkey \<Rightarrow> pkey \<Rightarrow> jsnum res" where
  "value_compare msqrt pd descending place a b =
     rbind (rbind (getAggregator pd (fst (place a)) (snd (place a))) (value_of msqrt pd)) (\<lambda>va.
     rbind (rbind (getAggregator pd (fst (place b)) (snd (place b))) (value_of msqrt pd)) (\<lambda>vb.
     Inr (if descending then num_neg (naturalSort va vb) else naturalSort va vb)))"

definition sort_axis ::
  "(jsnum \<Rightarrow> jsnum) \<Rightarrow> pivot_data \<Rightarrow> string \<Rightarrow> string list \<Rightarrow> bool \<Rightarrow> (pkey \<Rightarrow> pkey \<times> pkey) \<Rightarrow> pkey list \<Rightarrow> pkey list res" where
  "sort_axis msqrt pd order attrs partialOnTop place ks =
     (let key_cmp = (\<lambda>reverse a b. Inr (arrSort (pp_sorters (pd_props pd)) attrs partialOnTop reverse a b))
      in if order = ''key_z_to_a'' then js_sort (key_cmp True) ks
         else if order = ''value_a_to_z'' then js_sort (value_compare msqrt pd False place) ks
         else if order = ''value_z_to_a'' then js_sort (value_compare msqrt pd True place) ks
         else js_sort (key_cmp False) ks)"

definition sortKeys :: "(jsnum \<Rightarrow> jsnum) \<Rightarrow> pivot_data \<Rightarrow> pivot_data res" where
  "sortKeys msqrt pd =
     (if pd_sorted pd then Inr pd
      else let p = pd_props pd; st = pd_subtotals pd
           in rbind (sort_axis msqrt pd (pp_rowOrder p) (pp_rows p) (rowPartialOnTop st)
                       (\<lambda>k. (k, [])) (pd_rowKeys pd)) (\<lambda>rks.
              rbind (sort_axis msqrt pd (pp_colOrder p) (pp_cols p) (colPartialOnTop st)
                       (\<lambda>k. ([], k)) (pd_colKeys pd)) (\<lambda>cks.
              Inr (pd\<lparr>pd_sorted := True, pd_rowKeys := rks, pd_colKeys := cks\<rparr>))))"

definition getColKeys :: "(jsnum \<Rightarrow> jsnum) \<Rightarrow> pivot_data \<Rightarrow> (pkey list \<times> pivot_data) res" where
  "getColKeys msqrt pd = rbind (sortKeys msqrt pd) (\<lambda>pd'. Inr (pd_colKeys pd', pd'))"

definition getRowKeys :: "(jsnum \<Rightarrow> jsnum) \<Rightarrow> pivot_data \<Rightarrow> (pkey list \<times> pivot_data) res" where
  "getRowKeys msqrt pd = rbind (sortKeys msqrt pd) (\<lambda>pd'. Inr (pd_rowKeys pd', pd'))"

end
