(* ===== verification/PivotTable.thy ===== *)
theory PivotTable
  imports PivotData
begin

text \<open>
  The renderer of the pivot table (\<open>react-pivottable/TableRenderers.jsx\<close>): the class
  \<open>TableRenderer\<close> with its state of collapsed rows and columns, the handlers that change it, the
  computation of spans, and the rows of the table as data: a header cell with its spans, label
  and filters, a value cell with its text and style. The loop over the columns of a header row
  moves by the spans it reads, so it is a partial function into \<open>option\<close>.

  Modelling bounds. An element is the data it shows; events are values the state is updated with.
  The translation function, the date formatters and the cell colours are arguments. Names of
  columns are not names every object inherits.
\<close>

section \<open>Labels\<close>

datatype cell_text = Html string | Plain jsval

definition parseLabel :: "(string \<Rightarrow> string) \<Rightarrow> jsval \<Rightarrow> jsval" where
  "parseLabel tr value =
     (case value of
        JStr s \<Rightarrow> if s = ''metric'' then JStr (tr ''metric'') else value
      | JNum _ \<Rightarrow> value
      | _ \<Rightarrow> JStr (to_str value))"

definition displayCell :: "(string \<Rightarrow> string) \<Rightarrow> jsval \<Rightarrow> bool \<Rightarrow> cell_text" where
  "displayCell tr value allowRenderHtml =
     (case value of
        JStr s \<Rightarrow> if allowRenderHtml then Html s else Plain (parseLabel tr value)
      | _ \<Rightarrow> Plain (parseLabel tr value))"

text \<open>What a click on an arrow does; the first component of an attribute event is \<open>rowOrCol\<close>.\<close>

datatype ui_event = CollapseAttr bool nat | ExpandAttr bool nat | ToggleRow string | ToggleCol string

datatype arrow = ArrowCollapsed | ArrowExpanded

record label =
  lb_toggle :: "(arrow \<times> ui_event) option"
  lb_shown :: cell_text

text \<open>\<open>namesMapping[value] || value\<close>; an inherited function prints as its text.\<close>

definition mapped_name :: "jsval obj \<Rightarrow> jsval \<Rightarrow> jsval" where
  "mapped_name namesMapping value =
     (case map_of namesMapping (to_str value) of
        Some v \<Rightarrow> js_or v value
      | None \<Rightarrow> (case map_of object_prototype (to_str value) of Some s \<Rightarrow> JStr s | None \<Rightarrow> value))"

definition displayHeaderCell ::
  "(string \<Rightarrow> string) \<Rightarrow> (arrow \<times> ui_event) option \<Rightarrow> jsval \<Rightarrow> jsval obj \<Rightarrow> bool \<Rightarrow> label" where
  "displayHeaderCell tr toggle value namesMapping allowRenderHtml =
     (let parsedLabel = parseLabel tr (mapped_name namesMapping value)
      in \<lparr>lb_toggle = toggle,
          lb_shown = (case parsedLabel of
                        JStr s \<Rightarrow> if allowRenderHtml then Html s else Plain parsedLabel
                      | _ \<Rightarrow> Plain parsedLabel)\<rparr>)"

section \<open>Collapsed rows and columns\<close>

record table_state =
  collapsedRows :: "bool obj"
  collapsedCols :: "bool obj"

definition initial_state :: table_state where
  "initial_state = \<lparr>collapsedRows = [], collapsedCols = []\<rparr>"

text \<open>\<open>collapsed[k]\<close> as a condition, and \<open>k in collapsed\<close>: inherited functions count.\<close>

definition is_collapsed :: "bool obj \<Rightarrow> string \<Rightarrow> bool" where
  "is_collapsed collapsed k = (case prop_lookup collapsed k of Own b \<Rightarrow> b | Inherited \<Rightarrow> True | Absent \<Rightarrow> False)"

definition in_collapsed :: "bool obj \<Rightarrow> string \<Rightarrow> bool" where
  "in_collapsed collapsed k \<longleftrightarrow> prop_lookup collapsed k \<noteq> Absent"

definition set_flags :: "bool \<Rightarrow> string list \<Rightarrow> bool obj" where
  "set_flags b ks = fold (\<lambda>k. obj_put k b) ks []"

definition collapse_updates :: "nat \<Rightarrow> pkey list \<Rightarrow> bool obj" where
  "collapse_updates attrIdx allKeys =
     set_flags True (map flatKey (filter (\<lambda>k. length k = attrIdx + 1) allKeys))"

definition expand_updates :: "nat \<Rightarrow> pkey list \<Rightarrow> bool obj" where
  "expand_updates attrIdx allKeys =
     set_flags False (concat (map (\<lambda>k. map (\<lambda>i. flatKey (take (i + 1) k)) [0..<Suc attrIdx]) allKeys))"

definition update_axis :: "bool \<Rightarrow> bool obj \<Rightarrow> table_state \<Rightarrow> table_state" where
  "update_axis rowOrCol updates state =
     (if rowOrCol then state\<lparr>collapsedRows := obj_assign (collapsedRows state) updates\<rparr>
      else state\<lparr>collapsedCols := obj_assign (collapsedCols state) updates\<rparr>)"

definition collapseAttr :: "bool \<Rightarrow> nat \<Rightarrow> pkey list \<Rightarrow> table_state \<Rightarrow> table_state" where
  "collapseAttr rowOrCol attrIdx allKeys = update_axis rowOrCol (collapse_updates attrIdx allKeys)"

definition expandAttr :: "bool \<Rightarrow> nat \<Rightarrow> pkey list \<Rightarrow> table_state \<Rightarrow> table_state" where
  "expandAttr rowOrCol attrIdx allKeys = update_axis rowOrCol (expand_updates attrIdx allKeys)"

definition toggleRowKey :: "string \<Rightarrow> table_state \<Rightarrow> table_state" where
  "toggleRowKey flatRowKey state =
     state\<lparr>collapsedRows := obj_put flatRowKey (\<not> is_collapsed (collapsedRows state) flatRowKey) (collapsedRows state)\<rparr>"

definition toggleColKey :: "string \<Rightarrow> table_state \<Rightarrow> table_state" where
  "toggleColKey flatColKey state =
     state\<lparr>collapsedCols := obj_put flatColKey (\<not> is_collapsed (collapsedCols state) flatColKey) (collapsedCols state)\<rparr>"

text \<open>The keys an attribute event works on are those of the axis it is shown for.\<close>

fun apply_event :: "pkey list \<Rightarrow> pkey list \<Rightarrow> ui_event \<Rightarrow> table_state \<Rightarrow> table_state" where
  "apply_event rowKeys colKeys (CollapseAttr r i) = collapseAttr r i (if r then rowKeys else colKeys)"
| "apply_event rowKeys colKeys (ExpandAttr r i) = expandAttr r i (if r then rowKeys else colKeys)"
| "apply_event rowKeys colKeys (ToggleRow k) = toggleRowKey k"
| "apply_event rowKeys colKeys (ToggleCol k) = toggleColKey k"

definition visibleKeys :: "pkey list \<Rightarrow> bool obj \<Rightarrow> nat \<Rightarrow> bool \<Rightarrow> pkey list" where
  "visibleKeys ks collapsed numAttrs hideOnExpand =
     filter (\<lambda>k. \<not> list_ex (\<lambda>j. is_collapsed collapsed (flatKey (take j k))) [0..<length k] \<and>
       (length k = numAttrs \<or> in_collapsed collapsed (flatKey k) \<or> \<not> hideOnExpand)) ks"

section \<open>Spans\<close>

text \<open>
  The first loop of \<open>calcAttrSpans\<close>: while the values agree with those of the previous key, the span
  at the start of their run grows. The start of a run is the index \<open>li\<close> last recorded for the depth.
\<close>

fun span_same ::
  "nat \<Rightarrow> pkey \<Rightarrow> pkey \<Rightarrow> (nat \<Rightarrow> nat option) \<Rightarrow> int list list \<Rightarrow> (nat \<times> int list list) res" where
  "span_same depth (x # lv) (y # cv) li spans =
     (if strict_eq x y then
        (case li depth of
           None \<Rightarrow> Inl TypeError
         | Some j \<Rightarrow> span_same (Suc depth) lv cv li
             (spans[j := (spans ! j)[depth := spans ! j ! depth + 1]]))
      else Inr (depth, spans))"
| "span_same depth _ _ li spans = Inr (depth, spans)"

record span_state =
  sp_spans :: "int list list"
  sp_li :: "nat \<Rightarrow> nat option"
  sp_lv :: pkey

definition span_step :: "nat \<times> pkey \<Rightarrow> span_state \<Rightarrow> span_state res" where
  "span_step icv s =
     (let (i, cv) = icv
      in rbind (span_same 0 (sp_lv s) cv (sp_li s) (sp_spans s)) (\<lambda>(depth, spans).
         Inr \<lparr>sp_spans = spans @ [replicate depth (- 1) @ replicate (length cv - depth) 1],
              sp_li = (\<lambda>e. if depth \<le> e \<and> e < length cv then Some i else sp_li s e),
              sp_lv = cv\<rparr>))"

definition calcAttrSpans :: "pkey list \<Rightarrow> nat \<Rightarrow> int list list res" where
  "calcAttrSpans attrArr numAttrs =
     rbind (rfold span_step (enumerate 0 attrArr)
       \<lparr>sp_spans = [], sp_li = (\<lambda>_. None), sp_lv = replicate numAttrs JUndef\<rparr>) (\<lambda>s. Inr (sp_spans s))"

section \<open>Settings\<close>

record color_formatter =
  cf_column :: jsval
  cf_color :: "jsval \<Rightarrow> string option"

record table_options =
  to_rowTotals :: "bool option"
  to_colTotals :: "bool option"
  to_rowSubTotals :: bool
  to_colSubTotals :: bool
  to_highlightOnHover :: bool
  to_omittedGroups :: "string list"
  to_highlighted :: "jsval obj option"
  to_dateFormatters :: "(jsval \<Rightarrow> jsval) obj"
  to_cellColors :: "color_formatter list obj"

record subtotal_display =
  displayOnTop :: bool
  enabled :: bool
  hideOnExpand :: bool

record renderer_props =
  rp_pivot :: pivot_props
  rp_options :: table_options
  rp_rowOnTop :: bool
  rp_colOnTop :: bool
  rp_namesMapping :: "jsval obj"
  rp_allowRenderHtml :: bool
  rp_tr :: "string \<Rightarrow> string"
  rp_total :: "string \<Rightarrow> string"

record pivot_settings =
  ps_pivotData :: pivot_data
  ps_colAttrs :: "string list"
  ps_rowAttrs :: "string list"
  ps_colKeys :: "pkey list"
  ps_rowKeys :: "pkey list"
  ps_rowTotals :: bool
  ps_colTotals :: bool
  ps_colSubtotalDisplay :: subtotal_display
  ps_rowSubtotalDisplay :: subtotal_display

definition getBasePivotSettings :: "(jsnum \<Rightarrow> jsnum) \<Rightarrow> renderer_props \<Rightarrow> pivot_settings res" where
  "getBasePivotSettings msqrt props =
     (let colAttrs = pp_cols (rp_pivot props); rowAttrs = pp_rows (rp_pivot props);
          opt = rp_options props;
          rowTotals = (case to_rowTotals opt of None \<Rightarrow> True | Some b \<Rightarrow> b) \<or> colAttrs = [];
          colTotals = (case to_colTotals opt of None \<Rightarrow> True | Some b \<Rightarrow> b) \<or> rowAttrs = [];
          colDisplay = \<lparr>displayOnTop = rp_colOnTop props, enabled = to_colSubTotals opt, hideOnExpand = False\<rparr>;
          rowDisplay = \<lparr>displayOnTop = rp_rowOnTop props, enabled = to_rowSubTotals opt, hideOnExpand = False\<rparr>
      in rbind (newPivotData (rp_pivot props)
           \<lparr>rowEnabled = enabled rowDisplay, colEnabled = enabled colDisplay,
            rowPartialOnTop = displayOnTop rowDisplay, colPartialOnTop = displayOnTop colDisplay\<rparr>) (\<lambda>pd.
         rbind (getRowKeys msqrt pd) (\<lambda>(rowKeys, pd1).
         rbind (getColKeys msqrt pd1) (\<lambda>(colKeys, pd2).
         Inr \<lparr>ps_pivotData = pd2, ps_colAttrs = colAttrs, ps_rowAttrs = rowAttrs, ps_colKeys = colKeys,
              ps_rowKeys = rowKeys, ps_rowTotals = rowTotals, ps_colTotals = colTotals,
              ps_colSubtotalDisplay = colDisplay, ps_rowSubtotalDisplay = rowDisplay\<rparr>))))"

section \<open>Clicks\<close>

definition nth_or_undef :: "jsval list \<Rightarrow> nat \<Rightarrow> jsval" where
  "nth_or_undef xs i = (if i < length xs then xs ! i else JUndef)"

definition nth_name :: "string list \<Rightarrow> nat \<Rightarrow> string" where
  "nth_name xs i = (if i < length xs then xs ! i else ''undefined'')"

definition axis_filters :: "string list \<Rightarrow> pkey \<Rightarrow> jsval obj \<Rightarrow> jsval obj" where
  "axis_filters attrs vs filters =
     fold (\<lambda>(attr, v) m. if v \<noteq> JNull then obj_put attr v m else m) (zip attrs vs) filters"

text \<open>\<open>clickHandler\<close>: the value and the filters its callback receives.\<close>

definition clickHandler ::
  "(jsnum \<Rightarrow> jsnum) \<Rightarrow> string list \<Rightarrow> string list \<Rightarrow> pivot_data \<Rightarrow> pkey \<Rightarrow> pkey \<Rightarrow> (jsval \<times> jsval obj) res" where
  "clickHandler msqrt colAttrs rowAttrs pd rowValues colValues =
     rbind (rbind (getAggregator pd rowValues colValues) (value_of msqrt pd)) (\<lambda>value.
     Inr (value, axis_filters rowAttrs rowValues (axis_filters colAttrs colValues [])))"

record header_click =
  hk_value :: jsval
  hk_filters :: "jsval obj"
  hk_isSubtotal :: bool
  hk_isGrandTotal :: bool

definition clickHeaderHandler :: "pkey \<Rightarrow> string list \<Rightarrow> nat \<Rightarrow> bool \<Rightarrow> bool \<Rightarrow> header_click" where
  "clickHeaderHandler vs attrs attrIdx isSubtotal isGrandTotal =
     \<lparr>hk_value = nth_or_undef vs attrIdx,
      hk_filters = fold (\<lambda>i. obj_put (nth_name attrs i) (nth_or_undef vs i)) [0..<Suc attrIdx] [],
      hk_isSubtotal = isSubtotal, hk_isGrandTotal = isGrandTotal\<rparr>"

section \<open>Rows of the table\<close>

record th =
  th_class :: string
  th_key :: string
  th_colSpan :: int
  th_rowSpan :: int
  th_label :: label
  th_click :: "header_click option"

text \<open>\<open>Math.max(...lengths)\<close>; \<open>None\<close> is minus infinity.\<close>

definition max_length :: "pkey list \<Rightarrow> nat option" where
  "max_length ks = (if ks = [] then None else Some (foldr max (map length ks) 0))"

definition less_max :: "nat \<Rightarrow> nat option \<Rightarrow> bool" where
  "less_max n m = (case m of None \<Rightarrow> False | Some k \<Rightarrow> n < k)"

definition is_active :: "table_options \<Rightarrow> string \<Rightarrow> jsval \<Rightarrow> bool" where
  "is_active opt attr v =
     (case to_highlighted opt of
        None \<Rightarrow> False
      | Some hl \<Rightarrow> (case oprop (JObj hl) attr of
          JArr vs \<Rightarrow> list_ex (\<lambda>u. same_value_zero u v) vs | _ \<Rightarrow> False))"

definition label_class :: "string \<Rightarrow> table_options \<Rightarrow> string \<Rightarrow> jsval \<Rightarrow> string" where
  "label_class cls opt attr v =
     cls @ (if attr \<notin> set (to_omittedGroups opt) \<and> to_highlightOnHover opt then '' hoverable'' else []) @
     (if is_active opt attr v then '' active'' else [])"

definition plain_label :: "string \<Rightarrow> label" where
  "plain_label s = \<lparr>lb_toggle = None, lb_shown = Plain (JStr s)\<rparr>"

definition date_formatted :: "table_options \<Rightarrow> string \<Rightarrow> jsval \<Rightarrow> jsval" where
  "date_formatted opt attr v = (case map_of (to_dateFormatters opt) attr of Some f \<Rightarrow> f v | None \<Rightarrow> v)"

definition attr_toggle :: "bool \<Rightarrow> nat \<Rightarrow> bool \<Rightarrow> nat option \<Rightarrow> (arrow \<times> ui_event) option" where
  "attr_toggle rowOrCol i needToggle maxVisible =
     (if needToggle
      then Some (if less_max (i + 1) maxVisible then (ArrowExpanded, CollapseAttr rowOrCol i)
                 else (ArrowCollapsed, ExpandAttr rowOrCol i))
      else None)"

text \<open>The cells a column contributes to a header row: its value, the word Subtotal, or nothing.\<close>

definition col_header_cell ::
  "renderer_props \<Rightarrow> pivot_settings \<Rightarrow> table_state \<Rightarrow> string \<Rightarrow> nat \<Rightarrow> pkey \<Rightarrow> int \<Rightarrow> th list" where
  "col_header_cell props S state attrName attrIdx colKey colSpan =
     (let colAttrs = ps_colAttrs S; opt = rp_options props;
          rowIncrSpan = (if ps_rowAttrs S \<noteq> [] then 1 else 0);
          needToggle = enabled (ps_colSubtotalDisplay S) \<and> Suc attrIdx \<noteq> length colAttrs
      in if attrIdx < length colKey then
           (let v = colKey ! attrIdx; flatColKey = flatKey (take (attrIdx + 1) colKey)
            in [\<lparr>th_class = label_class ''pvtColLabel'' opt (nth_name colAttrs attrIdx) v,
                 th_key = ''colKey-'' @ flatColKey, th_colSpan = colSpan,
                 th_rowSpan = 1 + (if Suc attrIdx = length colAttrs then rowIncrSpan else 0),
                 th_label = displayHeaderCell (rp_tr props)
                   (if needToggle
                    then Some (if is_collapsed (collapsedCols state) flatColKey then ArrowCollapsed else ArrowExpanded,
                               ToggleCol flatColKey)
                    else None)
                   (date_formatted opt attrName v) (rp_namesMapping props) (rp_allowRenderHtml props),
                 th_click = Some (clickHeaderHandler colKey colAttrs attrIdx False False)\<rparr>])
         else if attrIdx = length colKey then
           [\<lparr>th_class = ''pvtColLabel pvtSubtotalLabel'', th_key = ''colKeyBuffer-'' @ flatKey colKey,
             th_colSpan = colSpan, th_rowSpan = int (length colAttrs) - int (length colKey) + rowIncrSpan,
             th_label = plain_label (rp_tr props ''Subtotal''),
             th_click = Some (clickHeaderHandler colKey colAttrs attrIdx True False)\<rparr>]
         else [])"

text \<open>
  The loop over the columns of a header row. The outer \<open>None\<close> is a loop that never ends; leaving
  the array to the left reads a property of \<open>undefined\<close>.
\<close>

partial_function (option) col_header_loop ::
  "(pkey \<Rightarrow> int \<Rightarrow> 'c list) \<Rightarrow> nat \<Rightarrow> pkey list \<Rightarrow> int list list \<Rightarrow> int \<Rightarrow> 'c list res option" where
  "col_header_loop cell attrIdx ks spans i =
     (if i < int (length ks) then
        if i < 0 then Some (Inl TypeError)
        else let colKey = ks ! nat i;
                 colSpan = (if attrIdx < length colKey then spans ! nat i ! attrIdx else 1)
             in Option.bind (col_header_loop cell attrIdx ks spans (i + colSpan))
                  (\<lambda>r. Some (rbind r (\<lambda>cs. Inr (cell colKey colSpan @ cs))))
      else Some (Inr []))"

definition total_label :: "renderer_props \<Rightarrow> label" where
  "total_label props = plain_label (rp_total props (rp_tr props (pp_aggregatorName (rp_pivot props))))"

definition renderColHeaderRow ::
  "renderer_props \<Rightarrow> pivot_settings \<Rightarrow> table_state \<Rightarrow> pkey list \<Rightarrow> int list list \<Rightarrow> string \<Rightarrow> nat \<Rightarrow> th list res option" where
  "renderColHeaderRow props S state visibleColKeys colAttrSpans attrName attrIdx =
     (let colAttrs = ps_colAttrs S; rowAttrs = ps_rowAttrs S;
          needToggle = enabled (ps_colSubtotalDisplay S) \<and> Suc attrIdx \<noteq> length colAttrs;
          spaceCell = (if attrIdx = 0 \<and> rowAttrs \<noteq> []
            then [\<lparr>th_class = [], th_key = ''padding'', th_colSpan = int (length rowAttrs),
                   th_rowSpan = int (length colAttrs), th_label = plain_label [], th_click = None\<rparr>] else []);
          attrNameCell = \<lparr>th_class = ''pvtAxisLabel'', th_key = ''label'', th_colSpan = 1, th_rowSpan = 1,
            th_label = displayHeaderCell (rp_tr props)
              (attr_toggle False attrIdx needToggle (max_length visibleColKeys)) (JStr attrName)
              (rp_namesMapping props) (rp_allowRenderHtml props),
            th_click = None\<rparr>;
          totalCell = (if attrIdx = 0 \<and> ps_rowTotals S
            then [\<lparr>th_class = ''pvtTotalLabel'', th_key = ''total'', th_colSpan = 1,
                   th_rowSpan = int (length colAttrs) + int (min (length rowAttrs) 1),
                   th_label = total_label props,
                   th_click = Some (clickHeaderHandler [] colAttrs attrIdx False True)\<rparr>] else [])
      in map_option (\<lambda>r. rbind r (\<lambda>cells. Inr (spaceCell @ [attrNameCell] @ cells @ totalCell)))
           (col_header_loop (col_header_cell props S state attrName attrIdx) attrIdx visibleColKeys colAttrSpans 0))"

definition renderRowHeaderRow :: "renderer_props \<Rightarrow> pivot_settings \<Rightarrow> pkey list \<Rightarrow> th list" where
  "renderRowHeaderRow props S visibleRowKeys =
     map (\<lambda>(i, r).
       \<lparr>th_class = ''pvtAxisLabel'', th_key = ''rowAttr-'' @ show_nat i, th_colSpan = 1, th_rowSpan = 1,
        th_label = displayHeaderCell (rp_tr props)
          (attr_toggle True i (enabled (ps_rowSubtotalDisplay S) \<and> Suc i \<noteq> length (ps_rowAttrs S))
             (max_length visibleRowKeys)) (JStr r) (rp_namesMapping props) (rp_allowRenderHtml props),
        th_click = None\<rparr>) (enumerate 0 (ps_rowAttrs S)) @
     [\<lparr>th_class = ''pvtTotalLabel'', th_key = ''padding'', th_colSpan = 1, th_rowSpan = 1,
       th_label = (if ps_colAttrs S = [] then total_label props else plain_label []),
       th_click = Some (clickHeaderHandler [] (ps_rowAttrs S) 0 False True)\<rparr>]"

record td =
  td_class :: string
  td_key :: string
  td_shown :: "cell_text option"
  td_bold :: bool
  td_background :: "string option"

definition row_label_cell ::
  "renderer_props \<Rightarrow> pivot_settings \<Rightarrow> table_state \<Rightarrow> pkey \<Rightarrow> int list \<Rightarrow> nat \<Rightarrow> th list" where
  "row_label_cell props S state rowKey rowSpans i =
     (let rowAttrs = ps_rowAttrs S; opt = rp_options props; r = rowKey ! i; rowSpan = rowSpans ! i;
          flatRowKey = flatKey (take (i + 1) rowKey);
          colIncrSpan = (if ps_colAttrs S \<noteq> [] then 1 else 0)
      in if 0 < rowSpan then
           [\<lparr>th_class = label_class ''pvtRowLabel'' opt (nth_name rowAttrs i) r,
             th_key = ''rowKeyLabel-'' @ show_nat i,
             th_colSpan = 1 + (if Suc i = length rowAttrs then colIncrSpan else 0), th_rowSpan = rowSpan,
             th_label = displayHeaderCell (rp_tr props)
               (if enabled (ps_rowSubtotalDisplay S) \<and> Suc i \<noteq> length rowAttrs
                then Some (if is_collapsed (collapsedRows state) flatRowKey then ArrowCollapsed else ArrowExpanded,
                           ToggleRow flatRowKey) else None)
               (date_formatted opt (nth_name rowAttrs i) r) (rp_namesMapping props) (rp_allowRenderHtml props),
             th_click = Some (clickHeaderHandler rowKey rowAttrs i False False)\<rparr>]
         else [])"

text \<open>
  The colour of a cell: the formatters of each group run over the values of the row and column key
  until a colour is found; among the formatters of one value the last colour wins.
\<close>

definition cell_color :: "color_formatter list obj \<Rightarrow> pkey \<Rightarrow> jsval \<Rightarrow> string option" where
  "cell_color groups ks aggValue =
     fold (\<lambda>(_, fs) bg. fold (\<lambda>k bg. if bg \<noteq> None \<and> bg \<noteq> Some [] then bg
         else fold (\<lambda>f bg. case cf_color f aggValue of Some c \<Rightarrow> if c = [] then bg else Some c | None \<Rightarrow> bg)
           (filter (\<lambda>f. strict_eq (cf_column f) k) fs) bg) ks bg) groups None"

definition value_cell ::
  "(jsnum \<Rightarrow> jsnum) \<Rightarrow> renderer_props \<Rightarrow> pivot_data \<Rightarrow> pkey \<Rightarrow> pkey \<Rightarrow> td res" where
  "value_cell msqrt props pd rowKey colKey =
     rbind (getAggregator pd rowKey colKey) (\<lambda>ag.
     rbind (value_of msqrt pd ag) (\<lambda>aggValue.
     let bold = (case ag of None \<Rightarrow> False | Some a \<Rightarrow> ag_isSubtotal a)
     in Inr \<lparr>td_class = ''pvtVal'', td_key = ''pvtVal-'' @ flatKey colKey,
          td_shown = map_option (\<lambda>v. displayCell (rp_tr props) v (rp_allowRenderHtml props)) (format_of ag aggValue),
          td_bold = bold,
          td_background = (if bold then None
            else cell_color (to_cellColors (rp_options props)) (rowKey @ colKey) aggValue)\<rparr>))"

definition total_cell ::
  "(jsnum \<Rightarrow> jsnum) \<Rightarrow> renderer_props \<Rightarrow> pivot_data \<Rightarrow> string \<Rightarrow> string \<Rightarrow> pkey \<Rightarrow> pkey \<Rightarrow> td res" where
  "total_cell msqrt props pd cls key rowKey colKey =
     rbind (getAggregator pd rowKey colKey) (\<lambda>ag.
     rbind (value_of msqrt pd ag) (\<lambda>aggValue.
     Inr \<lparr>td_class = cls, td_key = key,
          td_shown = map_option (\<lambda>v. displayCell (rp_tr props) v (rp_allowRenderHtml props)) (format_of ag aggValue),
          td_bold = False, td_background = None\<rparr>))"

definition renderTableRow ::
  "(jsnum \<Rightarrow> jsnum) \<Rightarrow> renderer_props \<Rightarrow> pivot_settings \<Rightarrow> table_state \<Rightarrow> pkey list \<Rightarrow> int list list \<Rightarrow> pkey \<Rightarrow> nat \<Rightarrow>
   (th list \<times> td list) res" where
  "renderTableRow msqrt props S state visibleColKeys rowAttrSpans rowKey rowIdx =
     (let rowAttrs = ps_rowAttrs S; pd = ps_pivotData S;
          colIncrSpan = (if ps_colAttrs S \<noteq> [] then 1 else 0);
          attrValueCells = concat (map (row_label_cell props S state rowKey (rowAttrSpans ! rowIdx)) [0..<length rowKey]);
          padding = (if length rowKey < length rowAttrs
            then [\<lparr>th_class = ''pvtRowLabel pvtSubtotalLabel'', th_key = ''rowKeyBuffer'',
                   th_colSpan = int (length rowAttrs) - int (length rowKey) + colIncrSpan, th_rowSpan = 1,
                   th_label = plain_label (rp_tr props ''Subtotal''),
                   th_click = Some (clickHeaderHandler rowKey rowAttrs (length rowKey) True False)\<rparr>] else [])
      in rbind (rmap (value_cell msqrt props pd rowKey) visibleColKeys) (\<lambda>valueCells.
         rbind (if ps_rowTotals S then rmap (total_cell msqrt props pd ''pvtTotal'' ''total'' rowKey) [[]] else Inr [])
           (\<lambda>totals. Inr (attrValueCells @ padding, valueCells @ totals))))"

definition renderTotalsRow ::
  "(jsnum \<Rightarrow> jsnum) \<Rightarrow> renderer_props \<Rightarrow> pivot_settings \<Rightarrow> pkey list \<Rightarrow> (th list \<times> td list) res" where
  "renderTotalsRow msqrt props S visibleColKeys =
     (let pd = ps_pivotData S; rowAttrs = ps_rowAttrs S; colAttrs = ps_colAttrs S;
          totalLabelCell = \<lparr>th_class = ''pvtTotalLabel pvtRowTotalLabel'', th_key = ''label'',
            th_colSpan = int (length rowAttrs) + int (min (length colAttrs) 1), th_rowSpan = 1,
            th_label = total_label props,
            th_click = Some (clickHeaderHandler [] rowAttrs 0 False True)\<rparr>
      in rbind (rmap (\<lambda>colKey. total_cell msqrt props pd ''pvtTotal pvtRowTotal'' (''total-'' @ flatKey colKey) [] colKey)
           visibleColKeys) (\<lambda>cells.
         rbind (if ps_rowTotals S then rmap (total_cell msqrt props pd ''pvtGrandTotal pvtRowTotal'' ''total'' []) [[]] else Inr [])
           (\<lambda>grand. Inr ([totalLabelCell], cells @ grand))))"

section \<open>The whole table\<close>

record rendered =
  rd_colHeaders :: "th list list"
  rd_rowHeader :: "th list option"
  rd_body :: "(th list \<times> td list) list"
  rd_totals :: "(th list \<times> td list) option"

definition opt_all :: "'a res option list \<Rightarrow> 'a list res option" where
  "opt_all xs = (if list_ex (\<lambda>x. x = None) xs then None else Some (rmap (\<lambda>x. the x) xs))"

definition render ::
  "(jsnum \<Rightarrow> jsnum) \<Rightarrow> renderer_props \<Rightarrow> pivot_settings \<Rightarrow> table_state \<Rightarrow> rendered res option" where
  "render msqrt props S state =
     (let visibleRowKeys = visibleKeys (ps_rowKeys S) (collapsedRows state) (length (ps_rowAttrs S))
            (hideOnExpand (ps_rowSubtotalDisplay S));
          visibleColKeys = visibleKeys (ps_colKeys S) (collapsedCols state) (length (ps_colAttrs S))
            (hideOnExpand (ps_colSubtotalDisplay S))
      in case (calcAttrSpans visibleRowKeys (length (ps_rowAttrs S)),
               calcAttrSpans visibleColKeys (length (ps_colAttrs S))) of
           (Inr rowAttrSpans, Inr colAttrSpans) \<Rightarrow>
             map_option (\<lambda>r. rbind r (\<lambda>headers.
               rbind (rmap (\<lambda>(i, r). renderTableRow msqrt props S state visibleColKeys rowAttrSpans r i)
                 (enumerate 0 visibleRowKeys)) (\<lambda>body.
               rbind (if ps_colTotals S then rmap (renderTotalsRow msqrt props S) [visibleColKeys] else Inr []) (\<lambda>totals.
               Inr \<lparr>rd_colHeaders = headers,
                    rd_rowHeader = (if ps_rowAttrs S \<noteq> [] then Some (renderRowHeaderRow props S visibleRowKeys) else None),
                    rd_body = body, rd_totals = (case totals of [] \<Rightarrow> None | x # _ \<Rightarrow> Some x)\<rparr>))))
               (opt_all (map (\<lambda>(j, c). renderColHeaderRow props S state visibleColKeys colAttrSpans c j)
                  (enumerate 0 (ps_colAttrs S))))
         | (Inl e, _) \<Rightarrow> Some (Inl e)
         | (_, Inl e) \<Rightarrow> Some (Inl e))"

end
