(* ===== verification/PivotFacts.thy ===== *)
theory PivotFacts
  imports PivotData
begin

text \<open>
  What the data model of the pivot table computes. Filing a record appends entries to three logs,
  one per dictionary; a dictionary always holds, for each key of its log, the aggregator that has
  seen exactly the records logged under that key, in order. From this follow the refinement of the
  whole class by grouping, the errors of the constructor, and the totals.
\<close>

section \<open>Templates up to formatting\<close>

fun strip_base :: "base_template \<Rightarrow> base_template" where
  "strip_base (TCount _) = TCount Some"
| "strip_base (TUniques fn _) = TUniques fn Some"
| "strip_base (TSum _) = TSum Some"
| "strip_base (TExtremes mode _) = TExtremes mode Some"
| "strip_base (TQuantile q _) = TQuantile q Some"
| "strip_base (TRunningStat mode ddof _) = TRunningStat mode ddof Some"
| "strip_base (TSumOverSum _) = TSumOverSum Some"

fun plain_tpl :: "template \<Rightarrow> template" where
  "plain_tpl (Base b) = Base (strip_base b)"
| "plain_tpl (FractionOf b type _) = FractionOf (strip_base b) type Some"

lemma agg_init_strip [simp]: "agg_init (strip_base b) = agg_init b"
  by (cases b) auto

lemma agg_push_strip [simp]: "agg_push (strip_base b) vals rc s = agg_push b vals rc s"
  by (cases b; cases s) auto

lemma agg_value_strip [simp]: "agg_value msqrt (strip_base b) s = agg_value msqrt b s"
  by (cases b; cases s) auto

lemma base_of_strip: "base_of (plain_tpl t) = strip_base (base_of t)"
  by (cases t) auto

lemma plain_tpl_eq_push: "plain_tpl t = plain_tpl u \<Longrightarrow> agg_push (base_of t) = agg_push (base_of u)"
  by (metis base_of_strip agg_push_strip ext)

lemma plain_tpl_eq_init: "plain_tpl t = plain_tpl u \<Longrightarrow> agg_init (base_of t) = agg_init (base_of u)"
  by (metis base_of_strip agg_init_strip)

lemma plain_tpl_eq_value: "plain_tpl t = plain_tpl u \<Longrightarrow> agg_value m (base_of t) s = agg_value m (base_of u) s"
  by (metis base_of_strip agg_value_strip)

text \<open>A name stands for the same template whatever the formatter.\<close>

lemma factory_strip:
  assumes "map_of (aggregatorsFactory f) name = Some t" and "map_of (aggregatorsFactory g) name = Some u"
  shows "plain_tpl t = plain_tpl u"
proof -
  have "map (\<lambda>(k, t). (k, plain_tpl t)) (aggregatorsFactory f) = map (\<lambda>(k, t). (k, plain_tpl t)) (aggregatorsFactory g)"
    by (simp add: aggregatorsFactory_def countUnique_def listUnique_def tpl_max_def tpl_min_def
        tpl_first_def tpl_last_def tpl_median_def tpl_average_def tpl_var_def tpl_stdev_def)
  then have "map_option plain_tpl (map_of (aggregatorsFactory f) name) =
      map_option plain_tpl (map_of (aggregatorsFactory g) name)"
    by (metis map_of_map comp_apply)
  with assms show ?thesis by simp
qed

section \<open>Tallies\<close>

text \<open>
  A dictionary against its log, a list of pairs of a key and a record: the keys of the log have an
  aggregator of the given template, which has seen the records logged under its key.
\<close>

definition seen :: "('k \<times> prec) list \<Rightarrow> 'k \<Rightarrow> prec list" where
  "seen L k = map snd (filter (\<lambda>p. fst p = k) L)"

definition tally :: "template \<Rightarrow> string list \<Rightarrow> prec list \<Rightarrow> agg \<Rightarrow> bool" where
  "tally tpl vals rs a \<longleftrightarrow> plain_tpl (ag_template a) = plain_tpl tpl \<and> ag_vals a = vals \<and>
     ag_state a = fold (agg_push (base_of tpl) vals) rs (agg_init (base_of tpl))"

definition tallied ::
  "template \<Rightarrow> string list \<Rightarrow> ('k \<times> prec) list \<Rightarrow> ('k \<rightharpoonup> agg) \<Rightarrow> bool" where
  "tallied tpl vals L g \<longleftrightarrow>
     (\<forall>k. case g k of None \<Rightarrow> seen L k = [] | Some a \<Rightarrow> seen L k \<noteq> [] \<and> tally tpl vals (seen L k) a)"

lemma seen_snoc: "seen (L @ [(k, rc)]) k' = seen L k' @ (if k = k' then [rc] else [])"
  by (simp add: seen_def)

lemma seen_append: "seen (L @ M) k = seen L k @ seen M k"
  by (simp add: seen_def)

lemma tally_push: "tally tpl vals rs a \<Longrightarrow> tally tpl vals (rs @ [rc]) (push rc a)"
  using plain_tpl_eq_push [of "ag_template a" tpl] by (simp add: tally_def push_def)

lemma tally_flags [simp]:
  "tally tpl vals rs (a\<lparr>ag_isSubtotal := b\<rparr>) = tally tpl vals rs a"
  "tally tpl vals rs (a\<lparr>ag_isRowSubtotal := b\<rparr>) = tally tpl vals rs a"
  "tally tpl vals rs (a\<lparr>ag_isColSubtotal := b\<rparr>) = tally tpl vals rs a"
  by (simp_all add: tally_def)

lemma tally_new: "plain_tpl t = plain_tpl tpl \<Longrightarrow> tally tpl vals [] (newAggregator t vals r c)"
  using plain_tpl_eq_init [of t tpl] by (simp add: tally_def newAggregator_def)

lemma tallied_old:
  assumes "tallied tpl vals L g" and "g k = Some a"
  shows "tally tpl vals (seen L k) a"
proof -
  have "case g k of None \<Rightarrow> seen L k = [] | Some a \<Rightarrow> seen L k \<noteq> [] \<and> tally tpl vals (seen L k) a"
    using assms(1) unfolding tallied_def by blast
  with assms(2) show ?thesis by simp
qed

lemma tallied_none: "tallied tpl vals L g \<Longrightarrow> g k = None \<longleftrightarrow> seen L k = []"
  unfolding tallied_def by (drule spec [of _ k]) (auto split: option.splits)

lemma tallied_put:
  assumes g: "tallied tpl vals L g" and a: "tally tpl vals (seen L k) a"
    and a': "\<And>rs. tally tpl vals rs (h a) = tally tpl vals rs (push rc a)"
  shows "tallied tpl vals (L @ [(k, rc)]) (g(k \<mapsto> h a))"
  unfolding tallied_def
proof
  fix k'
  show "case (g(k \<mapsto> h a)) k' of None \<Rightarrow> seen (L @ [(k, rc)]) k' = []
      | Some b \<Rightarrow> seen (L @ [(k, rc)]) k' \<noteq> [] \<and> tally tpl vals (seen (L @ [(k, rc)]) k') b"
  proof (cases "k' = k")
    case True
    then show ?thesis using tally_push [OF a, of rc] a' by (simp add: seen_snoc)
  next
    case False
    have "case g k' of None \<Rightarrow> seen L k' = [] | Some b \<Rightarrow> seen L k' \<noteq> [] \<and> tally tpl vals (seen L k') b"
      using g unfolding tallied_def by blast
    with False show ?thesis by (simp add: seen_snoc split: option.splits)
  qed
qed

lemma tallied_empty: "tallied tpl vals [] Map.empty"
  by (simp add: tallied_def seen_def)

lemma nub_from_snoc:
  "nub_from ys (xs @ [x]) = nub_from ys xs @ (if x \<in> set ys \<union> set xs then [] else [x])"
  by (induction ys xs rule: nub_from.induct) auto

lemma nub_snoc: "nub (xs @ [x]) = nub xs @ (if x \<in> set xs then [] else [x])"
  by (simp add: nub_def nub_from_snoc)

lemma seen_Nil_iff: "seen L k = [] \<longleftrightarrow> k \<notin> set (map fst L)"
  by (induction L) (auto simp: seen_def)

text \<open>A loop that appends to a log.\<close>

lemma rfold_log:
  assumes "rfold f xs s = Inr t" and "P L s"
    and "\<And>x L s s'. x \<in> set xs \<Longrightarrow> P L s \<Longrightarrow> f x s = Inr s' \<Longrightarrow> P (L @ h x) s'"
  shows "P (L @ concat (map h xs)) t"
  using assms
proof (induction xs arbitrary: L s)
  case (Cons x xs)
  then obtain s' where s': "f x s = Inr s'" "rfold f xs s' = Inr t" by (auto simp: rbind_Inr_iff)
  have "P (L @ h x) s'" using Cons.prems(2,3) s'(1) by simp
  from Cons.IH [OF s'(2) this] Cons.prems(3) show ?case by simp
qed simp

section \<open>The invariant of the class\<close>

definition formatters_ok :: "template \<Rightarrow> template obj obj option \<Rightarrow> bool" where
  "formatters_ok tpl ofa \<longleftrightarrow>
     (\<forall>fa name m k t. ofa = Some fa \<longrightarrow> map_of fa name = Some m \<longrightarrow> map_of m k = Some t \<longrightarrow> plain_tpl t = plain_tpl tpl)"

lemma prop_lookup_Own [simp]: "prop_lookup m k = Own v \<longleftrightarrow> map_of m k = Some v"
  by (auto simp: prop_lookup_def split: option.splits if_splits)

lemma prop_lookup_Absent: "prop_lookup m k = Absent \<longleftrightarrow> map_of m k = None \<and> k \<notin> set (map fst object_prototype)"
  by (auto simp: prop_lookup_def split: option.splits)

lemma prop_lookup_Inherited: "prop_lookup m k = Inherited \<longleftrightarrow> map_of m k = None \<and> k \<in> set (map fst object_prototype)"
  by (auto simp: prop_lookup_def split: option.splits)

lemma getFormattedAggregator_strip:
  assumes "getFormattedAggregator pd rc ks = Inr t" and "formatters_ok (pd_aggregator pd) (pd_formatted pd)"
  shows "plain_tpl t = plain_tpl (pd_aggregator pd)"
proof -
  have "t = pd_aggregator pd \<or> (\<exists>fa name m k. pd_formatted pd = Some fa \<and> map_of fa name = Some m \<and> map_of m k = Some t)"
  proof (cases "pd_formatted pd")
    case (Some fa)
    note fa = this
    show ?thesis
    proof (cases "find (\<lambda>(name, value). has_formatter fa name value) rc")
      case (Some p)
      obtain n v where p: "p = (n, v)" by (cases p)
      have "has_formatter fa n v" using find_SomeD [OF Some] p by auto
      then obtain m where "map_of fa n = Some m" by (auto simp: has_formatter_def split: option.splits)
      with assms(1) fa Some p show ?thesis
        by (fastforce simp: getFormattedAggregator_def split: if_splits prop_lookup.splits)
    qed (use assms(1) fa in \<open>simp add: getFormattedAggregator_def\<close>)
  qed (use assms(1) in \<open>simp add: getFormattedAggregator_def\<close>)
  then show ?thesis using assms(2) unfolding formatters_ok_def by blast
qed

definition cell_at :: "agg obj obj \<Rightarrow> string \<times> string \<rightharpoonup> agg" where
  "cell_at tree = (\<lambda>(rk, ck). case map_of tree rk of None \<Rightarrow> None | Some cells \<Rightarrow> map_of cells ck)"

type_synonym log = "(string \<times> prec) list"

record pivot_logs =
  lg_rows :: log
  lg_cols :: log
  lg_cells :: "((string \<times> string) \<times> prec) list"
  lg_all :: "prec list"

text \<open>
  The beginnings of the keys of the records: of every length when subtotals are shown, else the
  whole keys.
\<close>

definition prefixes :: "bool \<Rightarrow> string list \<Rightarrow> prec list \<Rightarrow> pkey set" where
  "prefixes enabled attrs rs =
     {take i (key_of attrs r) | r i. r \<in> set rs \<and> 0 < i \<and> i \<le> length attrs \<and> (enabled \<or> i = length attrs)}"

lemma levels_iff: "i \<in> set (levels enabled n) \<longleftrightarrow> 0 < i \<and> i \<le> n \<and> (enabled \<or> i = n)"
  by (auto simp: levels_def)

lemma prefixes_levels:
  "prefixes enabled attrs rs =
     {take i (key_of attrs r) | r i. r \<in> set rs \<and> i \<in> set (levels enabled (length attrs))}"
  by (simp add: prefixes_def levels_iff)

lemma length_key_of [simp]: "length (key_of attrs rc) = length attrs"
  by (simp add: key_of_def)

lemma prefixes_I:
  "rc \<in> set rs \<Longrightarrow> i \<in> set (levels enabled (length (key_of attrs rc))) \<Longrightarrow>
   take i (key_of attrs rc) \<in> prefixes enabled attrs rs"
  unfolding prefixes_levels by auto

definition pivot_inv :: "pivot_props \<Rightarrow> subtotals \<Rightarrow> template \<Rightarrow> pivot_logs \<Rightarrow> pivot_data \<Rightarrow> bool" where
  "pivot_inv props st tpl L pd \<longleftrightarrow>
     pd_props pd = props \<and> pd_subtotals pd = st \<and> pd_aggregator pd = tpl \<and> \<not> pd_sorted pd \<and>
     formatters_ok tpl (pd_formatted pd) \<and>
     tally tpl (pp_vals props) (lg_all L) (pd_allTotal pd) \<and>
     tallied tpl (pp_vals props) (lg_rows L) (map_of (pd_rowTotals pd)) \<and>
     tallied tpl (pp_vals props) (lg_cols L) (map_of (pd_colTotals pd)) \<and>
     tallied tpl (pp_vals props) (lg_cells L) (cell_at (pd_tree pd)) \<and>
     map flatKey (pd_rowKeys pd) = nub (map fst (lg_rows L)) \<and>
     map flatKey (pd_colKeys pd) = nub (map fst (lg_cols L)) \<and>
     set (pd_rowKeys pd) \<subseteq> prefixes (rowEnabled st) (pp_rows props) (lg_all L) \<and>
     set (pd_colKeys pd) \<subseteq> prefixes (colEnabled st) (pp_cols props) (lg_all L)"

lemma pivot_inv_formatted:
  "pivot_inv props st tpl L pd \<Longrightarrow> getFormattedAggregator pd rc ks = Inr t \<Longrightarrow> plain_tpl t = plain_tpl tpl"
  using getFormattedAggregator_strip [of pd rc ks t] by (simp add: pivot_inv_def)

text \<open>One step of each loop adds one entry to its log.\<close>

lemma row_total_step_inv:
  assumes inv: "pivot_inv props st tpl L pd" and step: "row_total_step rc rowKey ri pd = Inr pd'"
    and pre: "take ri rowKey \<in> prefixes (rowEnabled st) (pp_rows props) (lg_all L)"
  shows "pivot_inv props st tpl (L\<lparr>lg_rows := lg_rows L @ [(flatKey (take ri rowKey), rc)]\<rparr>) pd'"
proof -
  let ?k = "flatKey (take ri rowKey)" and ?v = "pp_vals props"
  let ?h = "\<lambda>a. (push rc a)\<lparr>ag_isSubtotal := ri < length rowKey\<rparr>"
  have tl: "tallied tpl ?v (lg_rows L) (map_of (pd_rowTotals pd))"
    and nb: "map flatKey (pd_rowKeys pd) = nub (map fst (lg_rows L))"
    using inv by (simp_all add: pivot_inv_def)
  have put: "tallied tpl ?v (lg_rows L @ [(?k, rc)]) ((map_of (pd_rowTotals pd))(?k \<mapsto> ?h a))"
    if "tally tpl ?v (seen (lg_rows L) ?k) a" for a
    using tallied_put [OF tl that, of ?h rc] by simp
  show ?thesis
  proof (cases "map_of (pd_rowTotals pd) ?k")
    case None
    then obtain t where t: "getFormattedAggregator pd rc (Some rowKey) = Inr t"
      "pd' = pd\<lparr>pd_rowKeys := pd_rowKeys pd @ [take ri rowKey],
        pd_rowTotals := obj_put ?k (?h (newAggregator t ?v (take ri rowKey) [])) (pd_rowTotals pd)\<rparr>"
      using step inv
      by (auto simp: row_total_step_def Let_def prop_lookup_def rbind_Inr_iff pivot_inv_def split: if_splits)
    have s: "seen (lg_rows L) ?k = []" using None tallied_none [OF tl] by simp
    then have "tally tpl ?v (seen (lg_rows L) ?k) (newAggregator t ?v (take ri rowKey) [])"
      using tally_new pivot_inv_formatted [OF inv t(1)] by simp
    from put [OF this] s nb inv t(2) pre show ?thesis
      by (simp add: pivot_inv_def map_of_obj_put nub_snoc seen_Nil_iff)
  next
    case (Some a)
    then have pd': "pd' = pd\<lparr>pd_rowTotals := obj_put ?k (?h a) (pd_rowTotals pd)\<rparr>"
      using step by (simp add: row_total_step_def Let_def prop_lookup_def)
    have "seen (lg_rows L) ?k \<noteq> []" using Some tallied_none [OF tl, of ?k] by simp
    with put [OF tallied_old [OF tl Some]] nb inv pd' show ?thesis
      by (simp add: pivot_inv_def map_of_obj_put nub_snoc seen_Nil_iff)
  qed
qed

lemma col_total_step_inv:
  assumes inv: "pivot_inv props st tpl L pd" and step: "col_total_step rc colKey ci pd = Inr pd'"
    and pre: "take ci colKey \<in> prefixes (colEnabled st) (pp_cols props) (lg_all L)"
  shows "pivot_inv props st tpl (L\<lparr>lg_cols := lg_cols L @ [(flatKey (take ci colKey), rc)]\<rparr>) pd'"
proof -
  let ?k = "flatKey (take ci colKey)" and ?v = "pp_vals props"
  let ?h = "\<lambda>a. (push rc a)\<lparr>ag_isSubtotal := ci < length colKey\<rparr>"
  have tl: "tallied tpl ?v (lg_cols L) (map_of (pd_colTotals pd))"
    and nb: "map flatKey (pd_colKeys pd) = nub (map fst (lg_cols L))"
    using inv by (simp_all add: pivot_inv_def)
  have put: "tallied tpl ?v (lg_cols L @ [(?k, rc)]) ((map_of (pd_colTotals pd))(?k \<mapsto> ?h a))"
    if "tally tpl ?v (seen (lg_cols L) ?k) a" for a
    using tallied_put [OF tl that, of ?h rc] by simp
  show ?thesis
  proof (cases "map_of (pd_colTotals pd) ?k")
    case None
    then obtain t where t: "getFormattedAggregator pd rc (Some colKey) = Inr t"
      "pd' = pd\<lparr>pd_colKeys := pd_colKeys pd @ [take ci colKey],
        pd_colTotals := obj_put ?k (?h (newAggregator t ?v [] (take ci colKey))) (pd_colTotals pd)\<rparr>"
      using step inv
      by (auto simp: col_total_step_def Let_def prop_lookup_def rbind_Inr_iff pivot_inv_def split: if_splits)
    have s: "seen (lg_cols L) ?k = []" using None tallied_none [OF tl] by simp
    then have "tally tpl ?v (seen (lg_cols L) ?k) (newAggregator t ?v [] (take ci colKey))"
      using tally_new pivot_inv_formatted [OF inv t(1)] by simp
    from put [OF this] s nb inv t(2) pre show ?thesis
      by (simp add: pivot_inv_def map_of_obj_put nub_snoc seen_Nil_iff)
  next
    case (Some a)
    then have pd': "pd' = pd\<lparr>pd_colTotals := obj_put ?k (?h a) (pd_colTotals pd)\<rparr>"
      using step by (simp add: col_total_step_def Let_def prop_lookup_def)
    have "seen (lg_cols L) ?k \<noteq> []" using Some tallied_none [OF tl, of ?k] by simp
    with put [OF tallied_old [OF tl Some]] nb inv pd' show ?thesis
      by (simp add: pivot_inv_def map_of_obj_put nub_snoc seen_Nil_iff)
  qed
qed

lemma cell_at_put:
  "map_of tree rk = Some cells \<Longrightarrow>
   cell_at (obj_put rk (obj_put ck a cells) tree) = (cell_at tree)((rk, ck) \<mapsto> a)"
  by (auto simp: cell_at_def map_of_obj_put fun_eq_iff split: option.splits)

lemma cell_at_new_row: "map_of tree rk = None \<Longrightarrow> cell_at (obj_put rk [] tree) = cell_at tree"
  by (auto simp: cell_at_def map_of_obj_put fun_eq_iff split: option.splits)

lemma cell_step_inv:
  assumes inv: "pivot_inv props st tpl L pd" and step: "cell_step rc rowKey colKey ri ci pd = Inr pd'"
  shows "pivot_inv props st tpl
    (L\<lparr>lg_cells := lg_cells L @ [((flatKey (take ri rowKey), flatKey (take ci colKey)), rc)]\<rparr>) pd'"
proof -
  let ?rk = "flatKey (take ri rowKey)" and ?ck = "flatKey (take ci colKey)" and ?v = "pp_vals props"
  let ?h = "\<lambda>a. (push rc a)\<lparr>ag_isSubtotal := ri < length rowKey \<or> ci < length colKey,
    ag_isRowSubtotal := ri < length rowKey, ag_isColSubtotal := ci < length colKey\<rparr>"
  obtain cells where cells: "map_of (pd_tree pd) ?rk = Some cells"
    using step by (auto simp: cell_step_def Let_def split: prop_lookup.splits)
  have tl: "tallied tpl ?v (lg_cells L) (cell_at (pd_tree pd))" using inv by (simp add: pivot_inv_def)
  have at: "cell_at (pd_tree pd) (?rk, ?ck) = map_of cells ?ck" by (simp add: cell_at_def cells)
  have put: "pivot_inv props st tpl (L\<lparr>lg_cells := lg_cells L @ [((?rk, ?ck), rc)]\<rparr>)
      (pd\<lparr>pd_tree := obj_put ?rk (obj_put ?ck (?h a) cells) (pd_tree pd)\<rparr>)"
    if "tally tpl ?v (seen (lg_cells L) (?rk, ?ck)) a" for a
    using tallied_put [OF tl that, of ?h rc] inv by (simp add: pivot_inv_def cell_at_put [OF cells])
  show ?thesis
  proof (cases "map_of cells ?ck")
    case None
    then obtain t where t: "getFormattedAggregator pd rc None = Inr t"
      "pd' = pd\<lparr>pd_tree := obj_put ?rk (obj_put ?ck
        (?h (newAggregator t ?v (take ri rowKey) (take ci colKey))) cells) (pd_tree pd)\<rparr>"
      using step inv cells
      by (auto simp: cell_step_def Let_def prop_lookup_def rbind_Inr_iff pivot_inv_def split: if_splits)
    have "seen (lg_cells L) (?rk, ?ck) = []" using None at tallied_none [OF tl] by simp
    then show ?thesis
      using put tally_new pivot_inv_formatted [OF inv t(1)] unfolding t(2) by simp
  next
    case (Some a)
    then have "pd' = pd\<lparr>pd_tree := obj_put ?rk (obj_put ?ck (?h a) cells) (pd_tree pd)\<rparr>"
      using step cells by (simp add: cell_step_def Let_def prop_lookup_def)
    then show ?thesis using put [OF tallied_old [OF tl]] Some at by simp
  qed
qed

section \<open>Filing a record\<close>

definition flats :: "bool \<Rightarrow> pkey \<Rightarrow> string list" where
  "flats enabled k = map (\<lambda>i. flatKey (take i k)) (levels enabled (length k))"

definition log_record :: "pivot_props \<Rightarrow> subtotals \<Rightarrow> prec \<Rightarrow> pivot_logs \<Rightarrow> pivot_logs" where
  "log_record props st rc L =
     (let rf = flats (rowEnabled st) (key_of (pp_rows props) rc);
          cf = flats (colEnabled st) (key_of (pp_cols props) rc)
      in L\<lparr>lg_all := lg_all L @ [rc], lg_rows := lg_rows L @ map (\<lambda>k. (k, rc)) rf,
           lg_cols := lg_cols L @ map (\<lambda>k. (k, rc)) cf,
           lg_cells := lg_cells L @ map (\<lambda>k. (k, rc)) (List.product rf cf)\<rparr>)"

lemma tree_row_step_inv:
  assumes inv: "pivot_inv props st tpl L pd" and step: "tree_row_step rc rowKey colKey cls ri pd = Inr pd'"
  shows "pivot_inv props st tpl (L\<lparr>lg_cells := lg_cells L @
    map (\<lambda>ci. ((flatKey (take ri rowKey), flatKey (take ci colKey)), rc)) cls\<rparr>) pd'"
proof -
  let ?rk = "flatKey (take ri rowKey)"
  let ?P = "\<lambda>M pd. pivot_inv props st tpl (L\<lparr>lg_cells := M\<rparr>) pd"
  define pd1 where "pd1 = (if prop_lookup (pd_tree pd) ?rk = Absent
    then pd\<lparr>pd_tree := obj_put ?rk [] (pd_tree pd)\<rparr> else pd)"
  have start: "?P (lg_cells L) pd1"
    using inv by (simp add: pd1_def pivot_inv_def cell_at_new_row prop_lookup_Absent)
  have loop: "rfold (cell_step rc rowKey colKey ri) cls pd1 = Inr pd'"
    using step by (simp add: tree_row_step_def Let_def pd1_def)
  have "?P (lg_cells L @ concat (map (\<lambda>ci. [((?rk, flatKey (take ci colKey)), rc)]) cls)) pd'"
    by (rule rfold_log [OF loop, where P = ?P]) (rule start, drule (1) cell_step_inv, simp)
  then show ?thesis by (simp add: concat_map_singleton)
qed

lemma processRecord_inv:
  assumes inv: "pivot_inv props st tpl L pd" and step: "processRecord rc pd = Inr pd'"
  shows "pivot_inv props st tpl (log_record props st rc L) pd'"
proof -
  let ?rowKey = "key_of (pp_rows props) rc" and ?colKey = "key_of (pp_cols props) rc"
  let ?rls = "levels (rowEnabled st) (length ?rowKey)" and ?cls = "levels (colEnabled st) (length ?colKey)"
  let ?fr = "\<lambda>i. flatKey (take i ?rowKey)" and ?fc = "\<lambda>i. flatKey (take i ?colKey)"
  define pd1 where "pd1 = pd\<lparr>pd_allTotal := push rc (pd_allTotal pd)\<rparr>"
  have "pd_props pd = props" "pd_subtotals pd = st" using inv by (simp_all add: pivot_inv_def)
  then obtain pd2 pd3 where steps: "rfold (row_total_step rc ?rowKey) ?rls pd1 = Inr pd2"
    "rfold (col_total_step rc ?colKey) ?cls pd2 = Inr pd3"
    "rfold (tree_row_step rc ?rowKey ?colKey ?cls) ?rls pd3 = Inr pd'"
    using step by (auto simp: processRecord_def Let_def rbind_Inr_iff pd1_def)
  let ?L1 = "L\<lparr>lg_all := lg_all L @ [rc]\<rparr>"
  have mono: "prefixes en attrs (lg_all L) \<subseteq> prefixes en attrs (lg_all L @ [rc])" for en attrs
    by (auto simp: prefixes_levels)
  have 1: "pivot_inv props st tpl (?L1\<lparr>lg_rows := lg_rows L\<rparr>) pd1"
    using inv tally_push [of tpl "pp_vals props" "lg_all L" "pd_allTotal pd" rc]
    by (auto simp: pivot_inv_def pd1_def intro: subsetD [OF mono])
  have 2: "pivot_inv props st tpl (?L1\<lparr>lg_rows := lg_rows L @ concat (map (\<lambda>i. [(?fr i, rc)]) ?rls)\<rparr>) pd2"
    by (rule rfold_log [OF steps(1), where P = "\<lambda>M. pivot_inv props st tpl (?L1\<lparr>lg_rows := M\<rparr>)"])
       (rule 1, drule (1) row_total_step_inv, simp_all add: prefixes_I)
  let ?L2 = "?L1\<lparr>lg_rows := lg_rows L @ map (\<lambda>i. (?fr i, rc)) ?rls\<rparr>"
  have 3: "pivot_inv props st tpl (?L2\<lparr>lg_cols := lg_cols L @ concat (map (\<lambda>i. [(?fc i, rc)]) ?cls)\<rparr>) pd3"
    by (rule rfold_log [OF steps(2), where P = "\<lambda>M. pivot_inv props st tpl (?L2\<lparr>lg_cols := M\<rparr>)"])
       (use 2 in \<open>simp add: concat_map_singleton\<close>, drule (1) col_total_step_inv, simp_all add: prefixes_I)
  let ?L3 = "?L2\<lparr>lg_cols := lg_cols L @ map (\<lambda>i. (?fc i, rc)) ?cls\<rparr>"
  have 4: "pivot_inv props st tpl (?L3\<lparr>lg_cells := lg_cells L @
      concat (map (\<lambda>i. map (\<lambda>j. ((?fr i, ?fc j), rc)) ?cls) ?rls)\<rparr>) pd'"
    by (rule rfold_log [OF steps(3), where P = "\<lambda>M. pivot_inv props st tpl (?L3\<lparr>lg_cells := M\<rparr>)"])
       (use 3 in \<open>simp add: concat_map_singleton\<close>, drule (1) tree_row_step_inv, simp)
  have "concat (map (\<lambda>i. map (\<lambda>j. ((?fr i, ?fc j), rc)) ?cls) ?rls) =
      map (\<lambda>k. (k, rc)) (List.product (map ?fr ?rls) (map ?fc ?cls))"
    by (simp add: product_concat_map map_concat comp_def)
  with 4 show ?thesis by (simp add: log_record_def flats_def Let_def comp_def)
qed

section \<open>The constructor\<close>

definition no_logs :: pivot_logs where
  "no_logs = \<lparr>lg_rows = [], lg_cols = [], lg_cells = [], lg_all = []\<rparr>"

lemma empty_pivot_inv:
  assumes "formatters_ok tpl fa"
  shows "pivot_inv props st tpl no_logs (empty_pivot props st tpl fa)"
proof -
  have "cell_at [] = Map.empty" by (simp add: cell_at_def fun_eq_iff)
  then show ?thesis
    using assms by (simp add: pivot_inv_def empty_pivot_def no_logs_def tally_new tallied_empty nub_def)
qed

lemma rmap_mem: "rmap f xs = Inr ys \<Longrightarrow> y \<in> set ys \<Longrightarrow> \<exists>x\<in>set xs. f x = Inr y"
  by (induction xs arbitrary: ys) (auto simp: rbind_Inr_iff)

lemma formattedAggregators_ok:
  assumes "formattedAggregators name cf = Inr fa" and "map_of (aggregatorsFactory f) name = Some tpl"
  shows "formatters_ok tpl (Some fa)"
  unfolding formatters_ok_def
proof (intro allI impI)
  fix fa' key m k t
  assume "Some fa = Some fa'" and m: "map_of fa' key = Some m" and t: "map_of m k = Some t"
  then have "(key, m) \<in> set fa" by (auto dest: map_of_SomeD)
  from rmap_mem [OF assms(1) [unfolded formattedAggregators_def] this]
  obtain cfm where "rmap (\<lambda>(column, formatter). case map_of (aggregatorsFactory formatter) name of
      None \<Rightarrow> Inl TypeError | Some tpl \<Rightarrow> Inr (column, tpl)) cfm = Inr m"
    by (auto simp: rbind_Inr_iff)
  from rmap_mem [OF this map_of_SomeD [OF t]]
  obtain g where "map_of (aggregatorsFactory g) name = Some t"
    by (auto split: option.splits)
  then show "plain_tpl t = plain_tpl tpl" using factory_strip assms(2) by blast
qed

definition template_of :: "pivot_props \<Rightarrow> template option" where
  "template_of props = map_of (aggregatorsFactory (pp_defaultFormatter props)) (pp_aggregatorName props)"

lemma newPivotData_inv:
  assumes new: "newPivotData props st = Inr pd" and data: "pp_data props = Records rs"
  shows "\<exists>tpl. template_of props = Some tpl \<and>
    pivot_inv props st tpl (fold (log_record props st) rs no_logs) pd"
proof -
  obtain tpl fa where tpl: "template_of props = Some tpl" and fa: "formatters_ok tpl fa"
    and run: "rfold processRecord rs (empty_pivot props st tpl fa) = Inr pd"
  proof (cases "pp_customFormatters props")
    case None
    have "formatters_ok t None" for t by (simp add: formatters_ok_def)
    with None new data that [of _ None] show ?thesis
      by (auto simp: newPivotData_def template_of_def forEachRecord_def split: option.splits)
  next
    case (Some cf)
    then obtain tpl fa where "template_of props = Some tpl"
      "formattedAggregators (pp_aggregatorName props) cf = Inr fa"
      "rfold processRecord rs (empty_pivot props st tpl (Some fa)) = Inr pd"
      using new data
      by (auto simp: newPivotData_def template_of_def forEachRecord_def rbind_Inr_iff split: option.splits)
    then show ?thesis using that formattedAggregators_ok unfolding template_of_def by blast
  qed
  have "pivot_inv props st tpl (fold (log_record props st) rs L) pd"
    if "pivot_inv props st tpl L s" "rfold processRecord rs s = Inr pd" for L s
    using that
  proof (induction rs arbitrary: L s)
    case (Cons r rs)
    then show ?case by (auto simp: rbind_Inr_iff intro: processRecord_inv)
  qed simp
  with empty_pivot_inv [OF fa] run tpl show ?thesis by blast
qed

section \<open>What the logs hold\<close>

lemma str_join_snoc: "xs \<noteq> [] \<Longrightarrow> str_join sep (xs @ [x]) = str_join sep xs @ sep @ x"
  by (induction sep xs rule: str_join.induct) auto

lemma flatKey_longer:
  assumes "0 < i" and "i < j" and "j \<le> length k"
  shows "length (flatKey (take i k)) < length (flatKey (take j k))"
  using assms(2,3)
proof (induction j)
  case (Suc j)
  have "length (flatKey (take j k)) < length (flatKey (take (Suc j) k))"
  proof -
    have "map elem_text (take j k) \<noteq> []" using Suc.prems assms(1) by auto
    with Suc.prems show ?thesis
      by (simp add: flatKey_def vals_join_def take_Suc_conv_app_nth str_join_snoc del: map_is_Nil_conv)
  qed
  with Suc show ?case by (cases "i = j") auto
qed simp

lemma levels_range: "i \<in> set (levels enabled n) \<Longrightarrow> 0 < i \<and> i \<le> n"
  by (auto simp: levels_def split: if_splits)

lemma distinct_flats: "distinct (flats enabled k)"
proof -
  have "inj_on (\<lambda>i. flatKey (take i k)) (set (levels enabled (length k)))"
  proof (rule inj_onI)
    fix i j
    assume "i \<in> set (levels enabled (length k))" "j \<in> set (levels enabled (length k))"
      and "flatKey (take i k) = flatKey (take j k)"
    then show "i = j"
      using flatKey_longer [of i j k] flatKey_longer [of j i k] levels_range by (metis linorder_neqE_nat nat_neq_iff)
  qed
  then show ?thesis by (simp add: flats_def distinct_map levels_def)
qed

lemma seen_pairs: "distinct ks \<Longrightarrow> seen (map (\<lambda>k. (k, rc)) ks) k = (if k \<in> set ks then [rc] else [])"
  by (induction ks) (auto simp: seen_def)

definition row_flats :: "pivot_props \<Rightarrow> subtotals \<Rightarrow> prec \<Rightarrow> string list" where
  "row_flats props st rc = flats (rowEnabled st) (key_of (pp_rows props) rc)"

definition col_flats :: "pivot_props \<Rightarrow> subtotals \<Rightarrow> prec \<Rightarrow> string list" where
  "col_flats props st rc = flats (colEnabled st) (key_of (pp_cols props) rc)"

abbreviation logs :: "pivot_props \<Rightarrow> subtotals \<Rightarrow> prec list \<Rightarrow> pivot_logs" where
  "logs props st rs \<equiv> fold (log_record props st) rs no_logs"

lemma logs_snoc: "logs props st (rs @ [r]) = log_record props st r (logs props st rs)"
  by simp

lemma lg_all_logs: "lg_all (logs props st rs) = rs"
  by (induction rs rule: rev_induct) (auto simp: no_logs_def log_record_def Let_def)

lemma seen_rows: "seen (lg_rows (logs props st rs)) k = filter (\<lambda>r. k \<in> set (row_flats props st r)) rs"
  by (induction rs rule: rev_induct)
     (auto simp: no_logs_def log_record_def Let_def seen_append seen_pairs distinct_flats row_flats_def,
      simp add: seen_def)

lemma seen_cols: "seen (lg_cols (logs props st rs)) k = filter (\<lambda>r. k \<in> set (col_flats props st r)) rs"
  by (induction rs rule: rev_induct)
     (auto simp: no_logs_def log_record_def Let_def seen_append seen_pairs distinct_flats col_flats_def,
      simp add: seen_def)

lemma seen_cells:
  "seen (lg_cells (logs props st rs)) (rk, ck) =
     filter (\<lambda>r. rk \<in> set (row_flats props st r) \<and> ck \<in> set (col_flats props st r)) rs"
  by (induction rs rule: rev_induct)
     (auto simp: no_logs_def log_record_def Let_def seen_append seen_pairs distinct_flats
       distinct_product row_flats_def col_flats_def, simp add: seen_def)

lemma keys_rows: "map fst (lg_rows (logs props st rs)) = concat (map (row_flats props st) rs)"
  by (induction rs rule: rev_induct)
     (auto simp: no_logs_def log_record_def Let_def row_flats_def comp_def)

lemma keys_cols: "map fst (lg_cols (logs props st rs)) = concat (map (col_flats props st) rs)"
  by (induction rs rule: rev_induct)
     (auto simp: no_logs_def log_record_def Let_def col_flats_def comp_def)

end
