(* ===== verification/PivotGroups.thy ===== *)
theory PivotGroups
  imports PivotFacts
begin

text \<open>
  The data model of the pivot table refines grouping: reading an aggregator gives the aggregate of
  the records whose row and column keys begin with the given keys. Also when the constructor throws,
  and that totals add up.
\<close>

section \<open>Groups\<close>

definition in_group :: "string list \<Rightarrow> pkey \<Rightarrow> prec \<Rightarrow> bool" where
  "in_group attrs k rc \<longleftrightarrow> map elem_text (take (length k) (key_of attrs rc)) = map elem_text k"

definition cell_group :: "pivot_props \<Rightarrow> pkey \<Rightarrow> pkey \<Rightarrow> prec list \<Rightarrow> prec list" where
  "cell_group props rowKey colKey rs =
     filter (\<lambda>r. in_group (pp_rows props) rowKey r \<and> in_group (pp_cols props) colKey r) rs"

text \<open>Keys of texts without the separator, at a level the table has.\<close>

definition nul_free :: "pkey \<Rightarrow> bool" where
  "nul_free k \<longleftrightarrow> (\<forall>v\<in>set k. CHR 0x00 \<notin> set (elem_text v))"

definition clean_records :: "pivot_props \<Rightarrow> prec list \<Rightarrow> bool" where
  "clean_records props rs \<longleftrightarrow>
     (\<forall>r\<in>set rs. nul_free (key_of (pp_rows props) r) \<and> nul_free (key_of (pp_cols props) r))"

definition at_level :: "bool \<Rightarrow> string list \<Rightarrow> pkey \<Rightarrow> bool" where
  "at_level enabled attrs k \<longleftrightarrow> k = [] \<or> length k \<le> length attrs \<and> (enabled \<or> length k = length attrs)"

lemma at_level_levels: "at_level enabled attrs k \<longleftrightarrow> k = [] \<or> length k \<in> set (levels enabled (length attrs))"
  by (auto simp: at_level_def levels_iff)

lemma str_join_inj:
  assumes "xs \<noteq> []" "ys \<noteq> []" and "\<forall>x\<in>set xs. c \<notin> set x" "\<forall>y\<in>set ys. c \<notin> set y"
    and "str_join [c] xs = str_join [c] ys"
  shows "xs = ys"
  using assms
proof (induction xs arbitrary: ys)
  case (Cons x xs)
  then obtain y ys' where ys: "ys = y # ys'" by (cases ys) auto
  have split: "a = b \<and> s = t" if "a @ s = b @ t" "c \<notin> set a" "c \<notin> set b"
    "s = [] \<or> hd s = c" "t = [] \<or> hd t = c" for a b s t :: string
    using that
  proof (induction a arbitrary: b)
    case Nil
    then show ?case by (cases b; cases t) auto
  next
    case (Cons z a)
    then show ?case by (cases b; cases s) auto
  qed
  have unf: "str_join [c] (z # zs) = z @ (if zs = [] then [] else c # str_join [c] zs)" for z zs
    by (cases zs) auto
  from Cons.prems(5) have "x = y \<and> (if xs = [] then [] else c # str_join [c] xs) =
      (if ys' = [] then [] else c # str_join [c] ys')"
    unfolding ys unf using Cons.prems(3,4) by (intro split) (auto simp: ys)
  then show ?case
    using Cons.IH [of ys'] Cons.prems(3,4) by (auto simp: ys split: if_splits)
qed simp

lemma flatKey_inj:
  assumes "k \<noteq> []" "l \<noteq> []" "nul_free k" "nul_free l"
  shows "flatKey k = flatKey l \<longleftrightarrow> map elem_text k = map elem_text l"
  using assms str_join_inj [of "map elem_text k" "map elem_text l" "CHR 0x00"]
  by (auto simp: flatKey_def vals_join_def nul_free_def)

lemma nul_free_take: "nul_free k \<Longrightarrow> nul_free (take i k)"
  by (auto simp: nul_free_def dest: in_set_takeD)

lemma flats_iff:
  assumes "k \<noteq> []" "nul_free k" "nul_free (key_of attrs rc)"
    and "length k \<in> set (levels enabled (length attrs))"
  shows "flatKey k \<in> set (flats enabled (key_of attrs rc)) \<longleftrightarrow> in_group attrs k rc"
proof -
  have eq: "flatKey k = flatKey (take i (key_of attrs rc)) \<longleftrightarrow>
      map elem_text k = map elem_text (take i (key_of attrs rc))"
    if "i \<in> set (levels enabled (length attrs))" for i
  proof (rule flatKey_inj [OF assms(1) _ assms(2) nul_free_take [OF assms(3)]])
    have "length (take i (key_of attrs rc)) = i" "0 < i" using levels_range [OF that] by simp_all
    then show "take i (key_of attrs rc) \<noteq> []" by (metis length_0_conv less_irrefl)
  qed
  have "flatKey k \<in> set (flats enabled (key_of attrs rc)) \<longleftrightarrow>
      (\<exists>i\<in>set (levels enabled (length attrs)). map elem_text k = map elem_text (take i (key_of attrs rc)))"
    using eq by (auto simp: flats_def)
  also have "\<dots> \<longleftrightarrow> in_group attrs k rc"
  proof
    assume "\<exists>i\<in>set (levels enabled (length attrs)). map elem_text k = map elem_text (take i (key_of attrs rc))"
    then obtain i where i: "i \<in> set (levels enabled (length attrs))"
      and eq: "map elem_text k = map elem_text (take i (key_of attrs rc))" by blast
    have "length k = i" using arg_cong [OF eq, of length] levels_range [OF i] by simp
    with eq show "in_group attrs k rc" by (simp add: in_group_def)
  next
    assume "in_group attrs k rc"
    then show "\<exists>i\<in>set (levels enabled (length attrs)). map elem_text k = map elem_text (take i (key_of attrs rc))"
      using assms(4) unfolding in_group_def by (metis)
  qed
  finally show ?thesis .
qed

lemma in_group_Nil [simp]: "in_group attrs [] rc"
  by (simp add: in_group_def)

lemma filed_iff:
  assumes "nul_free k" "nul_free (key_of attrs rc)" "at_level enabled attrs k"
  shows "(k = [] \<or> flatKey k \<in> set (flats enabled (key_of attrs rc))) \<longleftrightarrow> in_group attrs k rc"
  using assms flats_iff [of k attrs rc enabled] by (cases "k = []") (simp_all add: at_level_levels)

section \<open>Reading an aggregator\<close>

text \<open>The records an aggregator of the table has seen, by the flat keys they are filed under.\<close>

lemma filed_group:
  assumes "clean_records props rs" and "nul_free rowKey" "nul_free colKey"
    and "at_level (rowEnabled st) (pp_rows props) rowKey" "at_level (colEnabled st) (pp_cols props) colKey"
  shows "filter (\<lambda>r. (rowKey = [] \<or> flatKey rowKey \<in> set (row_flats props st r)) \<and>
      (colKey = [] \<or> flatKey colKey \<in> set (col_flats props st r))) rs = cell_group props rowKey colKey rs"
  unfolding cell_group_def
proof (rule filter_cong [OF refl])
  fix r
  assume "r \<in> set rs"
  then have "nul_free (key_of (pp_rows props) r)" "nul_free (key_of (pp_cols props) r)"
    using assms(1) by (auto simp: clean_records_def)
  with assms(2-5) show "((rowKey = [] \<or> flatKey rowKey \<in> set (row_flats props st r)) \<and>
      (colKey = [] \<or> flatKey colKey \<in> set (col_flats props st r))) =
    (in_group (pp_rows props) rowKey r \<and> in_group (pp_cols props) colKey r)"
    unfolding row_flats_def col_flats_def by (simp only: filed_iff)
qed

definition aggregator_at :: "pivot_data \<Rightarrow> pkey \<Rightarrow> pkey \<Rightarrow> agg option" where
  "aggregator_at pd rowKey colKey =
     (if rowKey = [] \<and> colKey = [] then Some (pd_allTotal pd)
      else if rowKey = [] then map_of (pd_colTotals pd) (flatKey colKey)
      else if colKey = [] then map_of (pd_rowTotals pd) (flatKey rowKey)
      else cell_at (pd_tree pd) (flatKey rowKey, flatKey colKey))"

lemma getAggregator_at:
  "aggregator_at pd rowKey colKey = Some a \<Longrightarrow> getAggregator pd rowKey colKey = Inr (Some a)"
  "aggregator_at pd rowKey colKey = None \<Longrightarrow> getAggregator pd rowKey colKey \<in> {Inl TypeError, Inr None}"
  by (auto simp: aggregator_at_def getAggregator_def prop_lookup_def cell_at_def Let_def split: if_splits option.splits)

lemma aggregator_at_tally:
  assumes "newPivotData props st = Inr pd" and "pp_data props = Records rs"
    and "template_of props = Some tpl" and "clean_records props rs" and "nul_free rowKey" "nul_free colKey"
    and "at_level (rowEnabled st) (pp_rows props) rowKey" "at_level (colEnabled st) (pp_cols props) colKey"
  shows "case aggregator_at pd rowKey colKey of
      None \<Rightarrow> cell_group props rowKey colKey rs = []
    | Some a \<Rightarrow> tally tpl (pp_vals props) (cell_group props rowKey colKey rs) a \<and>
        (cell_group props rowKey colKey rs \<noteq> [] \<or> rowKey = [] \<and> colKey = [])"
proof -
  have inv: "pivot_inv props st tpl (logs props st rs) pd"
    using newPivotData_inv [OF assms(1,2)] assms(3) by auto
  then have t: "tally tpl (pp_vals props) rs (pd_allTotal pd)"
    "tallied tpl (pp_vals props) (lg_rows (logs props st rs)) (map_of (pd_rowTotals pd))"
    "tallied tpl (pp_vals props) (lg_cols (logs props st rs)) (map_of (pd_colTotals pd))"
    "tallied tpl (pp_vals props) (lg_cells (logs props st rs)) (cell_at (pd_tree pd))"
    by (simp_all add: pivot_inv_def lg_all_logs)
  note g = filed_group [OF assms(4-8)]
  consider (all) "rowKey = []" "colKey = []" | (col) "rowKey = []" "colKey \<noteq> []"
    | (row) "rowKey \<noteq> []" "colKey = []" | (cell) "rowKey \<noteq> []" "colKey \<noteq> []" by blast
  then show ?thesis
  proof cases
    case all
    then show ?thesis using t(1) g by (simp add: aggregator_at_def)
  next
    case col
    then show ?thesis
      using t(3) [unfolded tallied_def, rule_format, of "flatKey colKey"] g
      by (simp add: aggregator_at_def seen_cols split: option.splits)
  next
    case row
    then show ?thesis
      using t(2) [unfolded tallied_def, rule_format, of "flatKey rowKey"] g
      by (simp add: aggregator_at_def seen_rows split: option.splits)
  next
    case cell
    then show ?thesis
      using t(4) [unfolded tallied_def, rule_format, of "(flatKey rowKey, flatKey colKey)"] g
      by (simp add: aggregator_at_def seen_cells split: option.splits)
  qed
qed

section \<open>The keys of the table\<close>

lemma flatKey_texts: "map elem_text k = map elem_text l \<Longrightarrow> flatKey k = flatKey l"
  by (simp add: flatKey_def vals_join_def)

lemma prefixes_nonempty: "p \<in> prefixes enabled attrs rs \<Longrightarrow> p \<noteq> []"
proof -
  assume "p \<in> prefixes enabled attrs rs"
  then obtain i r where "p = take i (key_of attrs r)" "0 < i" "i \<le> length attrs"
    by (auto simp: prefixes_levels dest: levels_range)
  then have "length p = i" "0 < i" by simp_all
  then show ?thesis by auto
qed

lemma keys_complete:
  assumes flat: "map flatKey ks = nub (concat (map (\<lambda>r. flats enabled (key_of attrs r)) rs))"
    and pre: "set ks \<subseteq> prefixes enabled attrs rs"
    and clean: "\<forall>r\<in>set rs. nul_free (key_of attrs r)"
  shows "distinct (map (map elem_text) ks)"
    and "map elem_text ` set ks = map elem_text ` prefixes enabled attrs rs"
proof -
  have nf: "nul_free p" if "p \<in> prefixes enabled attrs rs" for p
    using that clean by (auto simp: prefixes_levels nul_free_take)
  have dist: "distinct (map flatKey ks)" by (simp add: flat)
  have "inj_on flatKey (set ks)" using dist by (simp add: distinct_map)
  then have "inj_on (map elem_text) (set ks)"
    by (intro inj_onI) (drule inj_onD, rule flatKey_texts, assumption+)
  then show "distinct (map (map elem_text) ks)" using dist by (simp add: distinct_map)
  show "map elem_text ` set ks = map elem_text ` prefixes enabled attrs rs"
  proof
    show "map elem_text ` set ks \<subseteq> map elem_text ` prefixes enabled attrs rs" using pre by blast
    show "map elem_text ` prefixes enabled attrs rs \<subseteq> map elem_text ` set ks"
    proof (rule image_subsetI)
      fix p
      assume p: "p \<in> prefixes enabled attrs rs"
      then have "flatKey p \<in> set (map flatKey ks)"
        unfolding flat by (auto simp: prefixes_levels flats_def)
      then obtain k where k: "k \<in> set ks" "flatKey p = flatKey k" by auto
      then have "map elem_text p = map elem_text k"
        using flatKey_inj [of p k] p pre nf prefixes_nonempty by blast
      with k(1) show "map elem_text p \<in> map elem_text ` set ks" by auto
    qed
  qed
qed

lemma pivot_axis_keys:
  assumes "newPivotData props st = Inr pd" and "pp_data props = Records rs"
  shows "map flatKey (pd_rowKeys pd) = nub (concat (map (\<lambda>r. flats (rowEnabled st) (key_of (pp_rows props) r)) rs))"
    and "map flatKey (pd_colKeys pd) = nub (concat (map (\<lambda>r. flats (colEnabled st) (key_of (pp_cols props) r)) rs))"
    and "set (pd_rowKeys pd) \<subseteq> prefixes (rowEnabled st) (pp_rows props) rs"
    and "set (pd_colKeys pd) \<subseteq> prefixes (colEnabled st) (pp_cols props) rs"
  using newPivotData_inv [OF assms]
  by (auto simp: pivot_inv_def keys_rows keys_cols lg_all_logs row_flats_def [abs_def] col_flats_def [abs_def])

section \<open>Totals\<close>

lemma sum_groups:
  fixes f :: "'r \<Rightarrow> rat"
  assumes "distinct (map g ks)" and "\<And>r. r \<in> set rs \<Longrightarrow> h r \<in> g ` set ks"
  shows "sum_list (map (\<lambda>k. sum_list (map f (filter (\<lambda>r. h r = g k) rs))) ks) = sum_list (map f rs)"
  using assms(2)
proof (induction rs)
  case Nil
  then show ?case by (simp add: sum_list_0)
next
  case (Cons r rs)
  have one: "sum_list (map (\<lambda>k. if y = g k then c else 0) ks) = (if y \<in> g ` set ks then c else 0)"
    for y and c :: rat
    using assms(1) by (induction ks) auto
  have "sum_list (map (\<lambda>k. sum_list (map f (filter (\<lambda>r. h r = g k) (r # rs)))) ks) =
      sum_list (map (\<lambda>k. (if h r = g k then f r else 0) + sum_list (map f (filter (\<lambda>r. h r = g k) rs))) ks)"
    by (intro arg_cong [of _ _ sum_list] map_cong) auto
  also have "\<dots> = f r + sum_list (map f rs)"
    using Cons one by (simp add: sum_list_addf)
  finally show ?case by simp
qed

definition numeric :: "string list \<Rightarrow> (prec \<Rightarrow> rat) \<Rightarrow> prec \<Rightarrow> bool" where
  "numeric vals x rc \<longleftrightarrow> to_number (attr_val vals 0 rc) \<noteq> NaN \<and>
     parseFloat (to_str (attr_val vals 0 rc)) = Fin (x rc)"

lemma sum_state:
  assumes "\<forall>r\<in>set rs. numeric vals x r"
  shows "fold (agg_push (TSum f) vals) rs (SumState (JNum (Fin q))) =
    SumState (JNum (Fin (q + sum_list (map x rs))))"
  using assms by (induction rs arbitrary: q) (auto simp: numeric_def sum_push_def)

lemma sum_template:
  "pp_aggregatorName props = ''Sum'' \<Longrightarrow> template_of props = Some (Base (TSum (pp_defaultFormatter props)))"
  by (simp add: template_of_def aggregatorsFactory_def)

definition read_at :: "(jsnum \<Rightarrow> jsnum) \<Rightarrow> pivot_data \<Rightarrow> pkey \<Rightarrow> pkey \<Rightarrow> jsval res" where
  "read_at msqrt pd rowKey colKey = rbind (getAggregator pd rowKey colKey) (value_of msqrt pd)"

lemma read_sum:
  assumes "tally (Base (TSum f)) vals rs a" and "aggregator_at pd rowKey colKey = Some a"
    and "\<forall>r\<in>set rs. numeric vals x r"
  shows "read_at msqrt pd rowKey colKey = Inr (JNum (Fin (sum_list (map x rs))))"
proof -
  obtain f' where "ag_template a = Base (TSum f')"
    using assms(1) by (cases "ag_template a"; cases "base_of (ag_template a)") (auto simp: tally_def)
  moreover have "ag_state a = SumState (JNum (Fin (sum_list (map x rs))))"
    using assms(1) sum_state [OF assms(3), of f 0] by (simp add: tally_def)
  ultimately show ?thesis
    using getAggregator_at(1) [OF assms(2)] by (simp add: read_at_def value_of_def)
qed

text \<open>The totals of one axis, given how its keys are filed and read.\<close>

lemma axis_total:
  assumes keys: "distinct (map (map elem_text) ks)"
      "map elem_text ` set ks = map elem_text ` prefixes enabled attrs rs"
    and pre: "set ks \<subseteq> prefixes enabled attrs rs" and attrs: "attrs \<noteq> []"
    and num: "\<forall>r\<in>set rs. numeric vals x r"
    and read: "\<And>k. k \<in> set ks \<Longrightarrow>
      read k = Inr (JNum (Fin (sum_list (map x (filter (in_group attrs k) rs)))))"
  shows "\<exists>ts. rmap read (filter (\<lambda>k. length k = length attrs) ks) = Inr (map (\<lambda>q. JNum (Fin q)) ts) \<and>
    sum_list ts = sum_list (map x rs)"
proof -
  let ?leaf = "filter (\<lambda>k. length k = length attrs) ks"
  let ?h = "\<lambda>r. map elem_text (key_of attrs r)"
  have grp: "filter (in_group attrs k) rs = filter (\<lambda>r. ?h r = map elem_text k) rs" if "k \<in> set ?leaf" for k
    using that by (intro filter_cong) (auto simp: in_group_def)
  have "?h r \<in> map elem_text ` set ?leaf" if "r \<in> set rs" for r
  proof -
    have "length attrs \<in> set (levels enabled (length (key_of attrs r)))" using attrs by (cases attrs) (auto simp: levels_def)
    then have "key_of attrs r \<in> prefixes enabled attrs rs"
      using prefixes_I [OF that, of "length attrs" enabled attrs] by simp
    then obtain k where k: "k \<in> set ks" "?h r = map elem_text k" using keys(2) by (metis imageE imageI)
    then have "length k = length attrs" by (metis length_key_of length_map)
    with k show ?thesis by auto
  qed
  moreover have "distinct (map (map elem_text) ?leaf)" using keys(1) by (simp add: distinct_map_filter)
  ultimately have "sum_list (map (\<lambda>k. sum_list (map x (filter (\<lambda>r. ?h r = map elem_text k) rs))) ?leaf) =
      sum_list (map x rs)" by (intro sum_groups)
  moreover have "rmap read ?leaf = Inr (map (\<lambda>k. JNum (Fin (sum_list (map x (filter (\<lambda>r. ?h r = map elem_text k) rs))))) ?leaf)"
    using read grp by (intro rmap_total) simp
  ultimately show ?thesis
    by (intro exI [of _ "map (\<lambda>k. sum_list (map x (filter (\<lambda>r. ?h r = map elem_text k) rs))) ?leaf"]) (simp add: comp_def)
qed

text \<open>
  C2. The data model refines grouping. After the constructor has filed the records, the aggregator
  read at a row key and a column key (each empty for a total, or of a length the table shows) has
  seen exactly the records whose row and column values begin with those keys, as text, in the
  order of the data; where there are none, no aggregator is read. The keys and the values contain
  no NUL character.
\<close>

theorem pivot_refines_groups:
  assumes "newPivotData props st = Inr pd" and "pp_data props = Records rs"
    and "template_of props = Some tpl" and "clean_records props rs" and "nul_free rowKey" "nul_free colKey"
    and "at_level (rowEnabled st) (pp_rows props) rowKey" "at_level (colEnabled st) (pp_cols props) colKey"
  shows "(cell_group props rowKey colKey rs \<noteq> [] \<or> rowKey = [] \<and> colKey = [] \<longrightarrow>
      (\<exists>a. getAggregator pd rowKey colKey = Inr (Some a) \<and> plain_tpl (ag_template a) = plain_tpl tpl \<and>
        ag_state a = fold (agg_push (base_of tpl) (pp_vals props)) (cell_group props rowKey colKey rs)
          (agg_init (base_of tpl)))) \<and>
    (cell_group props rowKey colKey rs = [] \<and> \<not> (rowKey = [] \<and> colKey = []) \<longrightarrow>
      getAggregator pd rowKey colKey \<in> {Inl TypeError, Inr None})"
proof (cases "aggregator_at pd rowKey colKey")
  case None
  moreover have "\<not> (rowKey = [] \<and> colKey = [])" using None by (auto simp: aggregator_at_def)
  ultimately show ?thesis
    using aggregator_at_tally [OF assms] getAggregator_at(2) [OF None] by auto
next
  case (Some a)
  then show ?thesis
    using aggregator_at_tally [OF assms] getAggregator_at(1) [OF Some] by (auto simp: tally_def)
qed

text \<open>
  C30. Every row the data calls for is a row of the table, once: the row keys are, as texts,
  without repetition, and they are exactly the beginnings of the row keys of the records, of every
  length from one when subtotals are shown and of full length only when they are not. The same
  holds of the columns.
\<close>

theorem pivot_keys_complete:
  assumes "newPivotData props st = Inr pd" and "pp_data props = Records rs" and "clean_records props rs"
  shows "distinct (map (map elem_text) (pd_rowKeys pd)) \<and>
    map elem_text ` set (pd_rowKeys pd) = map elem_text ` prefixes (rowEnabled st) (pp_rows props) rs \<and>
    distinct (map (map elem_text) (pd_colKeys pd)) \<and>
    map elem_text ` set (pd_colKeys pd) = map elem_text ` prefixes (colEnabled st) (pp_cols props) rs"
proof -
  note ks = pivot_axis_keys [OF assms(1,2)]
  have "\<forall>r\<in>set rs. nul_free (key_of (pp_rows props) r)" "\<forall>r\<in>set rs. nul_free (key_of (pp_cols props) r)"
    using assms(3) by (auto simp: clean_records_def)
  with keys_complete [OF ks(1,3)] keys_complete [OF ks(2,4)] show ?thesis by simp
qed


end
