(* ===== verification/PivotChecks.thy ===== *)
theory PivotChecks
  imports PivotGroups
begin

text \<open>
  Three more groups of facts on the pivot table: when its constructor throws, what the running
  mean and variance compute, and the order of the keys it shows.
\<close>

section \<open>When the constructor throws\<close>

definition inherited_name :: "string \<Rightarrow> bool" where
  "inherited_name k \<longleftrightarrow> k \<in> set (map fst object_prototype)"

definition plain_table :: "pivot_props \<Rightarrow> subtotals \<Rightarrow> pivot_data \<Rightarrow> bool" where
  "plain_table props st pd \<longleftrightarrow> pd_props pd = props \<and> pd_subtotals pd = st \<and> pd_formatted pd = None \<and>
     (\<forall>k. inherited_name k \<longrightarrow> map_of (pd_rowTotals pd) k = None \<and> map_of (pd_colTotals pd) k = None \<and>
        map_of (pd_tree pd) k = None \<and>
        (\<forall>rk cells. map_of (pd_tree pd) rk = Some cells \<longrightarrow> map_of cells k = None))"

text \<open>A loop that either meets a bad element and throws, or gets through with its invariant.\<close>

lemma rfold_throws:
  assumes "\<And>x s. x \<in> set xs \<Longrightarrow> P s \<Longrightarrow> bad x \<Longrightarrow> f x s = Inl e"
    and "\<And>x s. x \<in> set xs \<Longrightarrow> P s \<Longrightarrow> \<not> bad x \<Longrightarrow> \<exists>t. f x s = Inr t \<and> P t" and "P s"
  shows "(\<exists>x\<in>set xs. bad x) \<and> rfold f xs s = Inl e \<or>
    (\<forall>x\<in>set xs. \<not> bad x) \<and> (\<exists>t. rfold f xs s = Inr t \<and> P t)"
  using assms
proof (induction xs arbitrary: s)
  case (Cons x xs)
  show ?case
  proof (cases "bad x")
    case True
    then show ?thesis using Cons.prems(1) [of x s] Cons.prems(3) by simp
  next
    case False
    then obtain t where "f x s = Inr t" "P t" using Cons.prems(2) [of x s] Cons.prems(3) by auto
    then show ?thesis using Cons.IH [of t] Cons.prems(1,2) False by auto
  qed
qed simp

lemma getFormattedAggregator_plain:
  "pd_formatted pd = None \<Longrightarrow> getFormattedAggregator pd rc ks = Inr (pd_aggregator pd)"
  by (simp add: getFormattedAggregator_def)

lemma row_total_step_plain:
  assumes "plain_table props st pd"
  shows "inherited_name (flatKey (take ri rowKey)) \<Longrightarrow> row_total_step rc rowKey ri pd = Inl TypeError"
    and "\<not> inherited_name (flatKey (take ri rowKey)) \<Longrightarrow>
      \<exists>pd'. row_total_step rc rowKey ri pd = Inr pd' \<and> plain_table props st pd'"
  using assms
  by (auto simp: row_total_step_def Let_def prop_lookup_def inherited_name_def plain_table_def
      getFormattedAggregator_plain map_of_obj_put split: option.splits)

lemma col_total_step_plain:
  assumes "plain_table props st pd"
  shows "inherited_name (flatKey (take ci colKey)) \<Longrightarrow> col_total_step rc colKey ci pd = Inl TypeError"
    and "\<not> inherited_name (flatKey (take ci colKey)) \<Longrightarrow>
      \<exists>pd'. col_total_step rc colKey ci pd = Inr pd' \<and> plain_table props st pd'"
  using assms
  by (auto simp: col_total_step_def Let_def prop_lookup_def inherited_name_def plain_table_def
      getFormattedAggregator_plain map_of_obj_put split: option.splits)

lemma cell_step_plain:
  assumes pt: "plain_table props st pd" and row: "map_of (pd_tree pd) (flatKey (take ri rowKey)) \<noteq> None"
    and ok: "\<not> inherited_name (flatKey (take ri rowKey))" "\<not> inherited_name (flatKey (take ci colKey))"
  shows "\<exists>pd'. cell_step rc rowKey colKey ri ci pd = Inr pd' \<and> plain_table props st pd' \<and>
    map_of (pd_tree pd') (flatKey (take ri rowKey)) \<noteq> None"
proof -
  let ?rk = "flatKey (take ri rowKey)" and ?ck = "flatKey (take ci colKey)"
  obtain cells where cells: "map_of (pd_tree pd) ?rk = Some cells" using row by auto
  obtain a where step: "cell_step rc rowKey colKey ri ci pd =
      Inr (pd\<lparr>pd_tree := obj_put ?rk (obj_put ?ck a cells) (pd_tree pd)\<rparr>)"
    using pt ok(2) cells
    by (cases "map_of cells ?ck")
       (auto simp: cell_step_def Let_def prop_lookup_def inherited_name_def plain_table_def getFormattedAggregator_plain)
  have "plain_table props st (pd\<lparr>pd_tree := obj_put ?rk (obj_put ?ck a cells) (pd_tree pd)\<rparr>)"
    using pt ok cells by (auto simp: plain_table_def map_of_obj_put split: if_splits)
  with step show ?thesis by (simp add: map_of_obj_put)
qed

lemma tree_row_step_plain:
  assumes pt: "plain_table props st pd" and ok: "\<not> inherited_name (flatKey (take ri rowKey))"
    "\<And>ci. ci \<in> set cls \<Longrightarrow> \<not> inherited_name (flatKey (take ci colKey))"
  shows "\<exists>pd'. tree_row_step rc rowKey colKey cls ri pd = Inr pd' \<and> plain_table props st pd'"
proof -
  let ?rk = "flatKey (take ri rowKey)"
  let ?P = "\<lambda>pd. plain_table props st pd \<and> map_of (pd_tree pd) ?rk \<noteq> None"
  define pd1 where "pd1 = (if prop_lookup (pd_tree pd) ?rk = Absent
    then pd\<lparr>pd_tree := obj_put ?rk [] (pd_tree pd)\<rparr> else pd)"
  have "?P pd1"
    using pt ok(1)
    by (auto simp: pd1_def plain_table_def prop_lookup_def inherited_name_def map_of_obj_put split: option.splits if_splits)
  then have "\<exists>t. rfold (cell_step rc rowKey colKey ri) cls pd1 = Inr t \<and> ?P t"
    using rfold_throws [of cls ?P "\<lambda>_. False" "cell_step rc rowKey colKey ri" TypeError pd1]
      cell_step_plain [OF _ _ ok(1) ok(2)] by fastforce
  then show ?thesis by (auto simp: tree_row_step_def Let_def pd1_def)
qed

definition bad_record :: "pivot_props \<Rightarrow> subtotals \<Rightarrow> prec \<Rightarrow> bool" where
  "bad_record props st rc \<longleftrightarrow>
     list_ex inherited_name (row_flats props st rc) \<or> list_ex inherited_name (col_flats props st rc)"

lemma processRecord_plain:
  assumes pt: "plain_table props st pd"
  shows "bad_record props st rc \<Longrightarrow> processRecord rc pd = Inl TypeError"
    and "\<not> bad_record props st rc \<Longrightarrow> \<exists>pd'. processRecord rc pd = Inr pd' \<and> plain_table props st pd'"
proof -
  let ?P = "plain_table props st"
  let ?rowKey = "key_of (pp_rows props) rc" and ?colKey = "key_of (pp_cols props) rc"
  let ?rls = "levels (rowEnabled st) (length ?rowKey)" and ?cls = "levels (colEnabled st) (length ?colKey)"
  let ?br = "\<lambda>i. inherited_name (flatKey (take i ?rowKey))" and ?bc = "\<lambda>i. inherited_name (flatKey (take i ?colKey))"
  define pd1 where "pd1 = pd\<lparr>pd_allTotal := push rc (pd_allTotal pd)\<rparr>"
  have p1: "?P pd1" using pt by (simp add: plain_table_def pd1_def)
  have run: "processRecord rc pd = rbind (rfold (row_total_step rc ?rowKey) ?rls pd1) (\<lambda>pd2.
      rbind (rfold (col_total_step rc ?colKey) ?cls pd2) (rfold (tree_row_step rc ?rowKey ?colKey ?cls) ?rls))"
    using pt by (simp add: processRecord_def Let_def pd1_def plain_table_def)
  have bad: "bad_record props st rc \<longleftrightarrow> (\<exists>i\<in>set ?rls. ?br i) \<or> (\<exists>i\<in>set ?cls. ?bc i)"
    by (auto simp: bad_record_def row_flats_def col_flats_def flats_def list_ex_iff)
  have R: "(\<exists>i\<in>set ?rls. ?br i) \<and> rfold (row_total_step rc ?rowKey) ?rls pd1 = Inl TypeError \<or>
      (\<forall>i\<in>set ?rls. \<not> ?br i) \<and> (\<exists>t. rfold (row_total_step rc ?rowKey) ?rls pd1 = Inr t \<and> ?P t)"
    using row_total_step_plain p1 by (intro rfold_throws) auto
  have C: "(\<exists>i\<in>set ?cls. ?bc i) \<and> rfold (col_total_step rc ?colKey) ?cls pd2 = Inl TypeError \<or>
      (\<forall>i\<in>set ?cls. \<not> ?bc i) \<and> (\<exists>t. rfold (col_total_step rc ?colKey) ?cls pd2 = Inr t \<and> ?P t)"
    if "?P pd2" for pd2
    using col_total_step_plain that by (intro rfold_throws) auto
  have T: "\<exists>t. rfold (tree_row_step rc ?rowKey ?colKey ?cls) ?rls pd3 = Inr t \<and> ?P t"
    if "?P pd3" "\<forall>i\<in>set ?rls. \<not> ?br i" "\<forall>i\<in>set ?cls. \<not> ?bc i" for pd3
  proof -
    have "\<exists>t. tree_row_step rc ?rowKey ?colKey ?cls i s = Inr t \<and> ?P t" if "i \<in> set ?rls" "?P s" for i s
      using tree_row_step_plain [OF that(2)] that(1) \<open>\<forall>i\<in>set ?rls. \<not> ?br i\<close> \<open>\<forall>i\<in>set ?cls. \<not> ?bc i\<close> by blast
    then show ?thesis
      using rfold_throws [of ?rls ?P "\<lambda>_. False" "tree_row_step rc ?rowKey ?colKey ?cls" TypeError pd3] that(1)
      by blast
  qed
  show "processRecord rc pd = Inl TypeError" if "bad_record props st rc"
    using R
  proof (elim disjE conjE exE)
    fix pd2
    assume "rfold (row_total_step rc ?rowKey) ?rls pd1 = Inr pd2" "?P pd2" "\<forall>i\<in>set ?rls. \<not> ?br i"
    then show ?thesis using C [of pd2] that bad by (auto simp: run)
  qed (simp add: run)
  show "\<exists>pd'. processRecord rc pd = Inr pd' \<and> ?P pd'" if "\<not> bad_record props st rc"
  proof -
    have nb: "\<forall>i\<in>set ?rls. \<not> ?br i" "\<forall>i\<in>set ?cls. \<not> ?bc i" using that bad by auto
    obtain pd2 where "rfold (row_total_step rc ?rowKey) ?rls pd1 = Inr pd2" "?P pd2" using R nb(1) by blast
    moreover obtain pd3 where "rfold (col_total_step rc ?colKey) ?cls pd2 = Inr pd3" "?P pd3"
      using C [OF \<open>?P pd2\<close>] nb(2) by blast
    ultimately show ?thesis using T [OF \<open>?P pd3\<close> nb] by (simp add: run)
  qed
qed

lemma newPivotData_cases:
  assumes "pp_data props = Records rs" and "pp_customFormatters props = None"
    and "template_of props = Some tpl"
  shows "if list_ex (bad_record props st) rs then newPivotData props st = Inl TypeError
    else \<exists>pd. newPivotData props st = Inr pd"
proof -
  let ?pd = "empty_pivot props st tpl None"
  have "newPivotData props st = rfold processRecord rs ?pd"
    using assms by (simp add: newPivotData_def template_of_def forEachRecord_def)
  moreover have "(\<exists>r\<in>set rs. bad_record props st r) \<and> rfold processRecord rs ?pd = Inl TypeError \<or>
      (\<forall>r\<in>set rs. \<not> bad_record props st r) \<and>
      (\<exists>t. rfold processRecord rs ?pd = Inr t \<and> plain_table props st t)"
    using processRecord_plain by (intro rfold_throws) (auto simp: plain_table_def empty_pivot_def)
  ultimately show ?thesis by (auto simp: list_ex_iff)
qed

text \<open>
  C28. Without custom formatters, over an array of records and for a known aggregator, the
  constructor throws exactly when some beginning of a row or column key of some record, written as
  a flat key, is the name of a property every object inherits, such as \<open>constructor\<close> or
  \<open>toString\<close>: the dictionary then finds the inherited function in place of an aggregator.
\<close>

theorem pivot_constructor_throws:
  assumes "pp_data props = Records rs" and "pp_customFormatters props = None"
    and "template_of props = Some tpl"
  shows "if list_ex (bad_record props st) rs then newPivotData props st = Inl TypeError
    else \<exists>pd. newPivotData props st = Inr pd"
  using newPivotData_cases [OF assms] .

section \<open>The running mean and variance\<close>

definition mean_of :: "rat list \<Rightarrow> rat" where
  "mean_of xs = sum_list xs / of_nat (length xs)"

definition sum_sq_dev :: "rat list \<Rightarrow> rat" where
  "sum_sq_dev xs = sum_list (map (\<lambda>x. (x - mean_of xs)\<^sup>2) xs)"

lemma sum_sq_dev_alt: "sum_sq_dev xs = sum_list (map (\<lambda>x. x\<^sup>2) xs) - of_nat (length xs) * (mean_of xs)\<^sup>2"
proof -
  have expand: "sum_list (map (\<lambda>x. (x - m)\<^sup>2) ys) =
      sum_list (map (\<lambda>x. x\<^sup>2) ys) - 2 * m * sum_list ys + of_nat (length ys) * m\<^sup>2" for m :: rat and ys
    by (induction ys) (auto simp: power2_diff algebra_simps)
  show ?thesis
  proof (cases "xs = []")
    case False
    then have "sum_list xs = of_nat (length xs) * mean_of xs" by (simp add: mean_of_def)
    then show ?thesis unfolding sum_sq_dev_def expand by (simp add: power2_eq_square)
  qed (simp add: sum_sq_dev_def)
qed

text \<open>One step of the recurrence.\<close>

lemma welford:
  fixes x :: rat
  assumes "xs \<noteq> []"
  defines "m \<equiv> mean_of xs" and "n \<equiv> of_nat (Suc (length xs)) :: rat"
  shows "m + (x - m) / n = mean_of (xs @ [x])"
    and "sum_sq_dev xs + (x - m) * (x - (m + (x - m) / n)) = sum_sq_dev (xs @ [x])"
proof -
  let ?l = "of_nat (length xs) :: rat"
  have l: "?l \<noteq> 0" "n = ?l + 1" "n \<noteq> 0" using assms(1) by (auto simp: n_def)
  have s: "sum_list xs = ?l * m" using l(1) by (simp add: m_def mean_of_def)
  show new: "m + (x - m) / n = mean_of (xs @ [x])"
    using l by (simp add: mean_of_def s field_simps)
  define m' where "m' = m + (x - m) / n"
  have x: "x - m = n * (m' - m)" using l(3) by (simp add: m'_def)
  have new': "mean_of (xs @ [x]) = m'" using new by (simp add: m'_def)
  have "sum_sq_dev (xs @ [x]) = sum_list (map (\<lambda>x. x\<^sup>2) xs) + x\<^sup>2 - n * m'\<^sup>2"
    by (simp add: sum_sq_dev_alt new' l(2))
  also have "\<dots> = sum_sq_dev xs + (x - m) * (x - m')"
  proof -
    have e: "x = m + n * (m' - m)" using x by simp
    have "?l * m\<^sup>2 + x\<^sup>2 - n * m'\<^sup>2 = (x - m) * (x - m')"
      unfolding e l(2) by (simp add: power2_eq_square algebra_simps)
    then show ?thesis by (simp add: sum_sq_dev_alt m_def)
  qed
  finally show "sum_sq_dev xs + (x - m) * (x - (m + (x - m) / n)) = sum_sq_dev (xs @ [x])"
    by (simp add: m'_def)
qed

lemma runningStat_state:
  assumes "map (\<lambda>r. to_number (attr_val vals 0 r)) rs = map Fin xs"
  shows "fold (agg_push (TRunningStat mode ddof f) vals) rs (RunningState 0 (Fin 0) (Fin 0) JNull) =
    RunningState (length xs) (Fin (if xs = [] then 0 else mean_of xs)) (Fin (sum_sq_dev xs)) JNull"
  using assms
proof (induction xs arbitrary: rs rule: rev_induct)
  case Nil
  then show ?case by (simp add: sum_sq_dev_def)
next
  case (snoc x xs)
  then obtain rs' r where rs: "rs = rs' @ [r]" "map (\<lambda>r. to_number (attr_val vals 0 r)) rs' = map Fin xs"
    "to_number (attr_val vals 0 r) = Fin x"
    by (cases rs rule: rev_cases) auto
  show ?case
  proof (cases "xs = []")
    case True
    then show ?thesis
      using rs by (simp add: Let_def sum_sq_dev_def mean_of_def)
  next
    case False
    with rs snoc.IH [OF rs(2)] show ?thesis
      using welford [OF False, of x] by (simp add: Let_def)
  qed
qed


section \<open>The order of the keys\<close>

text \<open>The values the chart's sorters order: a metric name under the metric, else an orderly value.\<close>

definition sortable :: "string \<Rightarrow> string list \<Rightarrow> string \<Rightarrow> jsval set" where
  "sortable metric names a =
     (if a = metric then {v. \<exists>n. v = JStr n \<and> n \<in> set names \<and> n \<noteq> ''__proto__''} else {v. orderly v})"

definition metric_sorters :: "string \<Rightarrow> string list \<Rightarrow> sorters" where
  "metric_sorters metric names = SorterObj [(metric, sortAs (map JStr names))]"

lemma sort_order_subset: "sort_order cmp A \<Longrightarrow> B \<subseteq> A \<Longrightarrow> sort_order cmp B"
  unfolding sort_order_def by (meson subsetD)

lemma sortable_order: "sort_order (getSort (metric_sorters metric names) a) (sortable metric names a)"
proof (cases "a = metric")
  case True
  have "{v. \<exists>n. v = JStr n \<and> n \<in> set names \<and> n \<noteq> ''__proto__''} \<subseteq>
      {v. to_str v \<in> set (map fst (sort_mapping (map JStr names)))}"
    unfolding keys_sort_mapping by auto
  from sort_order_subset [OF sortAs_order this] True show ?thesis
    by (simp add: getSort_def metric_sorters_def sortable_def)
next
  case False
  then show ?thesis
    using natural.sort_order_cmp by (simp add: getSort_def metric_sorters_def sortable_def)
qed

lemma arrSort_sortable:
  "sort_order (arrSort (metric_sorters metric names) attrs onTop reverse) (keys_in (map (sortable metric names) attrs))"
  by (rule arrSort_order) (simp add: list_all2_conv_all_nth sortable_order)

lemma prefixes_keys_in:
  assumes "\<forall>r\<in>set rs. \<forall>a\<in>set attrs. (case map_of r a of Some v \<Rightarrow> v | None \<Rightarrow> JStr ''null'') \<in> S a"
  shows "prefixes enabled attrs rs \<subseteq> keys_in (map S attrs)"
proof
  fix p
  assume "p \<in> prefixes enabled attrs rs"
  then obtain r i where p: "p = take i (key_of attrs r)" and r: "r \<in> set rs" by (auto simp: prefixes_levels)
  have "list_all2 (\<lambda>v V. v \<in> V) (key_of attrs r) (map S attrs)"
    using assms r by (simp add: list_all2_conv_all_nth key_of_def)
  then have "list_all2 (\<lambda>v V. v \<in> V) p (take i (map S attrs))"
    unfolding p by (rule list_all2_takeI)
  moreover have "take (length p) (map S attrs) = take i (map S attrs)"
    by (simp add: p min_def)
  ultimately show "p \<in> keys_in (map S attrs)" by (auto simp: keys_in_def p)
qed

definition key_ordered :: "string \<Rightarrow> bool" where
  "key_ordered order \<longleftrightarrow> order \<notin> {''value_a_to_z'', ''value_z_to_a''}"

lemma sort_axis_keys:
  assumes "pp_sorters (pd_props pd) = metric_sorters metric names" and "key_ordered order"
    and "set ks \<subseteq> keys_in (map (sortable metric names) attrs)"
  shows "\<exists>ks'. sort_axis msqrt pd order attrs onTop place ks = Inr ks' \<and> mset ks' = mset ks \<and>
    sorted_wrt (in_order (arrSort (metric_sorters metric names) attrs onTop (order = ''key_z_to_a''))) ks'"
  using sort_order.js_sort_sorted [OF arrSort_sortable assms(3), of _ onTop True]
    sort_order.js_sort_sorted [OF arrSort_sortable assms(3), of _ onTop False] assms(1,2)
  by (auto simp: sort_axis_def key_ordered_def Let_def)


section \<open>Where the values are not tame\<close>

text \<open>With digits in the texts \<open>naturalSort\<close> has cycles: the order of such keys is left open.\<close>

lemma naturalSort_cycle:
  "naturalSort (JStr ''a-1'') (JStr ''a.'') = minus_one \<and> naturalSort (JStr ''a.'') (JStr ''a1'') = minus_one \<and>
   naturalSort (JStr ''a1'') (JStr ''a-1'') = minus_one"
  by code_simp

lemma naturalSort_NaN: "naturalSort (JNum NaN) (JNum NaN) = minus_one"
  by (simp add: naturalSort_def)

text \<open>A null makes a sum NaN, and a text replaces it; what follows is appended to the text.\<close>

lemma sum_null: "sum_push JNull (JNum (Fin q)) = JNum NaN"
proof -
  have "parseFloat ''null'' = NaN" by code_simp
  then show ?thesis by (simp add: sum_push_def)
qed

lemma sum_after_text: "to_number (JStr s) = NaN \<Longrightarrow> sum_push (JInt 2) (sum_push (JStr s) a) = JStr (s @ ''2'')"
proof -
  assume "to_number (JStr s) = NaN"
  moreover have "parseFloat (to_str (JInt 2)) = Fin 2" "num_to_string (Fin 2) = ''2''" by code_simp+
  ultimately show ?thesis by (simp add: sum_push_def js_add_def)
qed

text \<open>A minimum of zero counts as no minimum when a text follows.\<close>

lemma min_zero_forgotten:
  "to_number (JStr s) = NaN \<Longrightarrow> extremes_push ''min'' sorter (JStr s) (JNum (Fin 0)) = JStr s"
  by (simp add: extremes_push_def)

text \<open>First and Last ignore the sorters given for their attribute.\<close>

lemma extremes_sorter_fixed:
  "agg_push (TExtremes mode f) vals rc (ExtremesState v) =
     ExtremesState (extremes_push mode naturalSort (attr_val vals 0 rc) v)"
  by (simp add: getSort_def)

end
