(* ===== verification/PivotChart.thy ===== *)
theory PivotChart
  imports PivotTable PivotChecks QueryBuild
begin

text \<open>
  The pivot table chart: the query it sends (\<open>plugin/buildQuery.ts\<close>, on top of the query builder),
  the records and attributes it hands to the data model, and its filters (\<open>PivotTableChart.tsx\<close>).
  The name under which the metrics are filed, \<open>METRIC_KEY\<close>, is the translation of the word Metric
  and an argument, as are the number, currency and date formatters.
\<close>

section \<open>The query\<close>

definition temporal_axis :: "jsval obj \<Rightarrow> jsval \<Rightarrow> jsval \<Rightarrow> jsval" where
  "temporal_axis formData time_grain col =
     (if isPhysicalColumn col \<and> truthy time_grain \<and>
         (truthy (oprop (oprop (JObj formData) ''temporal_columns_lookup'') (to_str col)) \<or>
          strict_eq (oprop (JObj formData) ''granularity_sqla'') col)
      then JObj [(''timeGrain'', time_grain), (''columnType'', JStr ''BASE_AXIS''),
                 (''sqlExpression'', col), (''label'', col), (''expressionType'', JStr ''SQL'')]
      else col)"

text \<open>\<open>Array.from(new Set(xs))\<close> on values: objects stay distinct.\<close>

fun set_values :: "jsval list \<Rightarrow> jsval list \<Rightarrow> jsval list" where
  "set_values acc [] = rev acc"
| "set_values acc (x # xs) =
     (if list_ex (same_value_zero x) acc then set_values acc xs else set_values (x # acc) xs)"

definition pivot_columns :: "jsval obj \<Rightarrow> jsval list" where
  "pivot_columns formData =
     (let p = oprop (JObj formData);
          time_grain = js_or (oprop (p ''extra_form_data'') ''time_grain_sqla'') (p ''time_grain_sqla'')
      in map (temporal_axis formData time_grain)
           (set_values [] (ensureIsArray (js_default (p ''groupbyColumns'') (JArr [])) @
                           ensureIsArray (js_default (p ''groupbyRows'') (JArr [])))))"

definition pivot_orderby :: "jsval obj \<Rightarrow> jsval" where
  "pivot_orderby baseQueryObject =
     (let p = oprop (JObj baseQueryObject); dir = JBool (\<not> truthy (p ''order_desc''))
      in if truthy (p ''series_limit_metric'') then JArr [JArr [p ''series_limit_metric'', dir]]
         else case p ''metrics'' of
                JArr (m # _) \<Rightarrow> if truthy m then JArr [JArr [m, dir]] else JUndef
              | _ \<Rightarrow> JUndef)"

definition pivot_buildQuery ::
  "(jsval obj \<Rightarrow> string list \<Rightarrow> jsval obj) \<Rightarrow> jsval obj \<Rightarrow> jsval obj res" where
  "pivot_buildQuery lodash_omit formData =
     buildQueryContext lodash_omit formData (BuildFunction (\<lambda>baseQueryObject.
       Inr [obj_put ''columns'' (JArr (pivot_columns formData))
              (obj_put ''orderby'' (pivot_orderby baseQueryObject) baseQueryObject)]))"

section \<open>Records and attributes\<close>

definition metricNames :: "jsval list \<Rightarrow> jsval list res" where
  "metricNames metrics = rmap (\<lambda>m. if is_str m then Inr m else getprop m ''label'') metrics"

text \<open>One record per record and metric, unless the metric is null there.\<close>

definition unpivot_record :: "string \<Rightarrow> prec \<Rightarrow> jsval \<Rightarrow> prec" where
  "unpivot_record metricKey rc name =
     obj_put ''value'' (oprop (JObj rc) (to_str name)) (obj_put metricKey name (obj_assign [] rc))"

definition unpivotedData :: "string \<Rightarrow> jsval list \<Rightarrow> prec list \<Rightarrow> prec list" where
  "unpivotedData metricKey names rs =
     concat (map (\<lambda>rc. filter (\<lambda>r. oprop (JObj r) ''value'' \<noteq> JNull)
       (map (unpivot_record metricKey rc) names)) rs)"

datatype metrics_layout = ROWS | COLUMNS

definition pivot_axes ::
  "string \<Rightarrow> bool \<Rightarrow> metrics_layout \<Rightarrow> bool \<Rightarrow> string list \<Rightarrow> string list \<Rightarrow> string list \<times> string list" where
  "pivot_axes metricKey transposePivot metricsLayout combineMetric groupbyRows groupbyColumns =
     (let (rows0, cols0) = (if transposePivot then (groupbyColumns, groupbyRows) else (groupbyRows, groupbyColumns));
          add = (\<lambda>xs. if combineMetric then xs @ [metricKey] else metricKey # xs)
      in if metricsLayout = ROWS then (add rows0, cols0) else (rows0, add cols0))"

definition customFormatsArray ::
  "jsval obj \<Rightarrow> jsval obj \<Rightarrow> jsval \<Rightarrow> jsval \<Rightarrow> (string \<times> jsval \<times> jsval) list" where
  "customFormatsArray columnFormats currencyFormats valueFormat currencyFormat =
     map (\<lambda>name. (name, js_or (oprop (JObj columnFormats) name) valueFormat,
                  js_or (oprop (JObj currencyFormats) name) currencyFormat))
       (nub (map fst columnFormats @ map fst currencyFormats))"

text \<open>\<open>number_fmt\<close> and \<open>currency_fmt\<close> stand for \<open>getNumberFormatter\<close> and \<open>new CurrencyFormatter\<close>.\<close>

definition metricFormatters ::
  "(jsval \<Rightarrow> fmt) \<Rightarrow> (jsval \<Rightarrow> jsval \<Rightarrow> fmt) \<Rightarrow> string \<Rightarrow> (string \<times> jsval \<times> jsval) list \<Rightarrow> fmt obj obj option" where
  "metricFormatters number_fmt currency_fmt metricKey formats =
     (if formats = [] then None
      else Some [(metricKey, from_entries (map (\<lambda>(metric, d3Format, currency).
        (metric, if truthy currency then currency_fmt currency d3Format else number_fmt d3Format)) formats))])"

definition default_formatter :: "(jsval \<Rightarrow> fmt) \<Rightarrow> (jsval \<Rightarrow> jsval \<Rightarrow> fmt) \<Rightarrow> jsval \<Rightarrow> jsval \<Rightarrow> fmt" where
  "default_formatter number_fmt currency_fmt valueFormat currencyFormat =
     (if truthy (oprop currencyFormat ''symbol'') then currency_fmt currencyFormat valueFormat
      else number_fmt valueFormat)"

record chart_props =
  ch_data :: "prec list"
  ch_groupbyRows :: "jsval list"
  ch_groupbyColumns :: "jsval list"
  ch_metrics :: "jsval list"
  ch_colOrder :: string
  ch_rowOrder :: string
  ch_aggregateFunction :: string
  ch_transposePivot :: bool
  ch_combineMetric :: bool
  ch_metricsLayout :: metrics_layout
  ch_valueFormat :: jsval
  ch_currencyFormat :: jsval
  ch_columnFormats :: "jsval obj"
  ch_currencyFormats :: "jsval obj"
  ch_emitCrossFilters :: bool
  ch_selectedFilters :: "jsval obj option"
  ch_timeGrainSqla :: jsval

definition chart_axes :: "string \<Rightarrow> chart_props \<Rightarrow> string list \<times> string list" where
  "chart_axes metricKey c =
     pivot_axes metricKey (ch_transposePivot c) (ch_metricsLayout c) (ch_combineMetric c)
       (map (\<lambda>g. to_str (getColumnLabel g)) (ch_groupbyRows c))
       (map (\<lambda>g. to_str (getColumnLabel g)) (ch_groupbyColumns c))"

text \<open>The props of the data model.\<close>

definition chart_pivot_props ::
  "(jsval \<Rightarrow> fmt) \<Rightarrow> (jsval \<Rightarrow> jsval \<Rightarrow> fmt) \<Rightarrow> string \<Rightarrow> chart_props \<Rightarrow> pivot_props res" where
  "chart_pivot_props number_fmt currency_fmt metricKey c =
     rbind (metricNames (ch_metrics c)) (\<lambda>names.
     Inr \<lparr>pp_data = Records (unpivotedData metricKey names (ch_data c)),
          pp_cols = snd (chart_axes metricKey c), pp_rows = fst (chart_axes metricKey c),
          pp_vals = [''value''], pp_aggregatorName = ch_aggregateFunction c,
          pp_sorters = SorterObj [(metricKey, sortAs names)],
          pp_rowOrder = ch_rowOrder c, pp_colOrder = ch_colOrder c,
          pp_defaultFormatter = default_formatter number_fmt currency_fmt (ch_valueFormat c) (ch_currencyFormat c),
          pp_customFormatters = metricFormatters number_fmt currency_fmt metricKey
            (customFormatsArray (ch_columnFormats c) (ch_currencyFormats c) (ch_valueFormat c) (ch_currencyFormat c))\<rparr>)"

section \<open>Cross filters\<close>

definition filter_column :: "jsval list \<Rightarrow> string \<Rightarrow> jsval" where
  "filter_column groupby key =
     (case find (\<lambda>item. if isPhysicalColumn item then item = JStr key
                        else isAdhocColumn item \<and> strict_eq (oprop item ''label'') (JStr key)) groupby of
        Some item \<Rightarrow> js_coalesce item (JStr [])
      | None \<Rightarrow> JStr [])"

definition cross_clause :: "jsval list \<Rightarrow> string \<times> jsval \<Rightarrow> jsval" where
  "cross_clause groupby kv =
     (let col = filter_column groupby (fst kv)
      in if nullish (snd kv) then JObj [(''col'', col), (''op'', JStr ''IS NULL'')]
         else JObj [(''col'', col), (''op'', JStr ''IN''), (''val'', snd kv)])"

text \<open>The data mask of \<open>handleChange\<close>, which \<open>getCrossFilterDataMask\<close> builds the same way.\<close>

definition filters_mask :: "jsval list \<Rightarrow> jsval obj \<Rightarrow> jsval" where
  "filters_mask groupby filters =
     JObj [(''extraFormData'', JObj [(''filters'',
             if filters = [] then JUndef else JArr (map (cross_clause groupby) filters))]),
           (''filterState'', JObj [(''value'', if filters = [] then JNull else JArr (map snd filters)),
             (''selectedFilters'', if filters = [] then JNull else JObj filters)])]"

definition is_active_value :: "jsval obj option \<Rightarrow> string \<Rightarrow> jsval \<Rightarrow> bool" where
  "is_active_value selected key val =
     (case selected of
        None \<Rightarrow> False
      | Some sel \<Rightarrow> (case oprop (JObj sel) key of
          JArr vs \<Rightarrow> list_ex (\<lambda>v. same_value_zero v val) vs | _ \<Rightarrow> False))"

text \<open>\<open>Some\<close>: the filters handed to \<open>handleChange\<close>; \<open>None\<close>: an early return.\<close>

definition toggleFilter ::
  "string \<Rightarrow> bool \<Rightarrow> bool \<Rightarrow> jsval obj option \<Rightarrow> header_click \<Rightarrow> jsval obj option" where
  "toggleFilter metricKey emitCrossFilters textSelected selected click =
     (if hk_isSubtotal click \<or> hk_isGrandTotal click \<or> \<not> emitCrossFilters \<or> textSelected then None
      else let entries = AList.delete metricKey (hk_filters click)
           in if entries = [] then None
              else let (key, val) = last entries
                   in Some (if is_active_value selected key val then [] else [(key, JArr [val])]))"

definition getCrossFilterDataMask ::
  "jsval list \<Rightarrow> jsval obj option \<Rightarrow> jsval obj \<Rightarrow> (jsval \<times> bool) option" where
  "getCrossFilterDataMask groupby selected point =
     (case point of
        [] \<Rightarrow> None
      | (key, val) # _ \<Rightarrow>
          let active = is_active_value selected key val
          in Some (filters_mask groupby (if active then [] else [(key, JArr [val])]), active))"

section \<open>The context menu\<close>

definition drill_filter :: "(jsval \<Rightarrow> jsval) obj \<Rightarrow> jsval \<Rightarrow> string \<times> jsval \<Rightarrow> jsval" where
  "drill_filter dateFormatters timeGrain cv =
     (let (col, val) = cv; formatter = map_of dateFormatters col;
          formatted = (case formatter of Some f \<Rightarrow> f val | None \<Rightarrow> JUndef)
      in JObj [(''col'', JStr col), (''op'', JStr ''==''), (''val'', val),
               (''formattedVal'', js_or formatted (JStr (to_str val))),
               (''grain'', case formatter of Some _ \<Rightarrow> timeGrain | None \<Rightarrow> JUndef)])"

definition drillToDetail ::
  "(jsval \<Rightarrow> jsval) obj \<Rightarrow> jsval \<Rightarrow> string list \<Rightarrow> string list \<Rightarrow> pkey option \<Rightarrow> pkey option \<Rightarrow> jsval list" where
  "drillToDetail dateFormatters timeGrain rows cols colKey rowKey =
     (case colKey of
        None \<Rightarrow> []
      | Some ck \<Rightarrow> if 1 < length ck then map (drill_filter dateFormatters timeGrain) (tl (zip cols ck)) else []) @
     (case rowKey of None \<Rightarrow> [] | Some rk \<Rightarrow> map (drill_filter dateFormatters timeGrain) (zip rows rk))"

definition drillBy :: "jsval obj \<Rightarrow> pkey option \<Rightarrow> jsval" where
  "drillBy point rowKey =
     (case point of
        [] \<Rightarrow> JUndef
      | (col, val) # _ \<Rightarrow>
          JObj [(''filters'', JArr [JObj [(''col'', JStr col), (''op'', JStr ''==''), (''val'', val)]]),
                (''groupbyFieldName'', JStr (case rowKey of Some _ \<Rightarrow> ''groupbyRows'' | None \<Rightarrow> ''groupbyColumns''))])"

end
