(* ===== verification/PivotTableFacts.thy ===== *)
theory PivotTableFacts
  imports PivotTable PivotChecks
begin

text \<open>
  Facts on the renderer of the pivot table: the spans are the lengths of the runs of equal values,
  the loop over a header row ends and tiles the visible columns, and what collapsing hides.
\<close>

section \<open>Runs\<close>

text \<open>The number of leading values two keys share.\<close>

fun common :: "pkey \<Rightarrow> pkey \<Rightarrow> nat" where
  "common (x # a) (y # b) = (if strict_eq x y then Suc (common a b) else 0)"
| "common _ _ = 0"

definition same :: "pkey list \<Rightarrow> nat \<Rightarrow> nat \<Rightarrow> bool" where
  "same ks i d \<longleftrightarrow> 0 < i \<and> d < common (ks ! (i - 1)) (ks ! i)"

definition run :: "pkey list \<Rightarrow> nat \<Rightarrow> nat \<Rightarrow> nat \<Rightarrow> nat set" where
  "run ks n i d = {j. i \<le> j \<and> j < n \<and> (\<forall>m. i < m \<and> m \<le> j \<longrightarrow> same ks m d)}"

lemma common_le: "common a b \<le> length a" "common a b \<le> length b"
  by (induction a b rule: common.induct) auto

lemma finite_run [simp]: "finite (run ks n i d)"
  by (rule finite_subset [of _ "{..<n}"]) (auto simp: run_def)

lemma run_Suc:
  "i < n \<Longrightarrow> run ks (Suc n) i d = run ks n i d \<union> (if \<forall>m. i < m \<and> m \<le> n \<longrightarrow> same ks m d then {n} else {})"
  by (auto simp: run_def less_Suc_eq)

lemma run_new: "run ks (Suc n) n d = {n}"
  by (auto simp: run_def)

section \<open>The spans\<close>

definition spans_ok :: "pkey list \<Rightarrow> nat \<Rightarrow> int list list \<Rightarrow> bool" where
  "spans_ok ks n spans \<longleftrightarrow> length spans = n \<and>
     (\<forall>i<n. length (spans ! i) = length (ks ! i) \<and>
       (\<forall>d<length (ks ! i). spans ! i ! d = (if same ks i d then - 1 else int (card (run ks n i d)))))"

text \<open>The recorded start of the current run at a depth.\<close>

definition starts_ok :: "pkey list \<Rightarrow> nat \<Rightarrow> (nat \<Rightarrow> nat option) \<Rightarrow> bool" where
  "starts_ok ks n li \<longleftrightarrow> (\<forall>d. 0 < n \<longrightarrow> d < length (ks ! (n - 1)) \<longrightarrow>
     (\<exists>j<n. li d = Some j \<and> d < length (ks ! j) \<and> \<not> same ks j d \<and> (\<forall>m. j < m \<and> m < n \<longrightarrow> same ks m d)))"

definition bumped :: "nat \<Rightarrow> nat \<Rightarrow> (nat \<Rightarrow> nat option) \<Rightarrow> int list list \<Rightarrow> int list list \<Rightarrow> bool" where
  "bumped lo hi li spans spans' \<longleftrightarrow> length spans' = length spans \<and>
     (\<forall>i<length spans. length (spans' ! i) = length (spans ! i) \<and>
       (\<forall>d<length (spans ! i). spans' ! i ! d =
          spans ! i ! d + (if lo \<le> d \<and> d < hi \<and> li d = Some i then 1 else 0)))"

lemma span_same_bumped:
  assumes "\<And>d. depth \<le> d \<Longrightarrow> d < depth + common lv cv \<Longrightarrow>
    \<exists>j<length spans. li d = Some j \<and> d < length (spans ! j)"
  shows "\<exists>spans'. span_same depth lv cv li spans = Inr (depth + common lv cv, spans') \<and>
    bumped depth (depth + common lv cv) li spans spans'"
  using assms
proof (induction depth lv cv li spans rule: span_same.induct)
  case (1 depth x lv y cv li spans)
  show ?case
  proof (cases "strict_eq x y")
    case True
    obtain j where j: "j < length spans" "li depth = Some j" "depth < length (spans ! j)"
      using "1.prems" [of depth] True by auto
    let ?s = "spans[j := (spans ! j)[depth := spans ! j ! depth + 1]]"
    have "\<exists>k<length ?s. li d = Some k \<and> d < length (?s ! k)"
      if "Suc depth \<le> d" "d < Suc depth + common lv cv" for d
      using "1.prems" [of d] that True j(1) by (auto simp: nth_list_update)
    then obtain spans' where s': "span_same (Suc depth) lv cv li ?s = Inr (Suc depth + common lv cv, spans')"
      and b: "bumped (Suc depth) (Suc depth + common lv cv) li ?s spans'"
      using "1.IH" [OF True j(2)] by blast
    have "bumped depth (depth + common (x # lv) (y # cv)) li spans spans'"
      unfolding bumped_def
    proof (intro conjI allI impI)
      show "length spans' = length spans" using b by (simp add: bumped_def)
      fix i
      assume i: "i < length spans"
      have ls: "length (?s ! i) = length (spans ! i)" using j(1) by (cases "i = j") auto
      with i show "length (spans' ! i) = length (spans ! i)" using b by (simp add: bumped_def)
      fix d
      assume d: "d < length (spans ! i)"
      have "spans' ! i ! d = ?s ! i ! d +
          (if Suc depth \<le> d \<and> d < Suc depth + common lv cv \<and> li d = Some i then 1 else 0)"
        using b i d ls by (simp add: bumped_def)
      then show "spans' ! i ! d = spans ! i ! d +
          (if depth \<le> d \<and> d < depth + common (x # lv) (y # cv) \<and> li d = Some i then 1 else 0)"
        using i j True by (cases "d = depth") (auto simp: nth_list_update)
    qed
    with s' True j(2) show ?thesis by auto
  qed (simp add: bumped_def)
qed (auto simp: bumped_def)

text \<open>Exactly the run that reaches the new key grows.\<close>

lemma span_grows:
  assumes i: "i < n" and same_n: "same ks n d \<longleftrightarrow> d < c"
    and start: "d < c \<Longrightarrow> \<exists>j<n. li d = Some j \<and> d < length (ks ! j) \<and> \<not> same ks j d \<and>
      (\<forall>m. j < m \<and> m < n \<longrightarrow> same ks m d)"
  shows "(if same ks i d then - 1 else int (card (run ks n i d))) + (if d < c \<and> li d = Some i then 1 else 0) =
    (if same ks i d then - 1 else int (card (run ks (Suc n) i d)))"
proof (cases "same ks i d")
  case True
  then have "\<not> (d < c \<and> li d = Some i)" using start by auto
  then show ?thesis using True by simp
next
  case False
  have "(d < c \<and> li d = Some i) \<longleftrightarrow> (\<forall>m. i < m \<and> m \<le> n \<longrightarrow> same ks m d)"
  proof
    assume "d < c \<and> li d = Some i"
    then show "\<forall>m. i < m \<and> m \<le> n \<longrightarrow> same ks m d"
      using start same_n by (metis le_neq_implies_less option.inject)
  next
    assume a: "\<forall>m. i < m \<and> m \<le> n \<longrightarrow> same ks m d"
    then have c: "d < c" using i same_n by auto
    with start obtain j where j: "j < n" "li d = Some j" "\<not> same ks j d"
      "\<forall>m. j < m \<and> m < n \<longrightarrow> same ks m d" by blast
    then have "j = i" using a i False by (metis le_less_Suc_eq less_Suc_eq_le linorder_neqE_nat nat_less_le)
    with c j(2) show "d < c \<and> li d = Some i" by simp
  qed
  moreover have "n \<notin> run ks n i d" by (simp add: run_def)
  ultimately show ?thesis using False i by (simp add: run_Suc)
qed

lemma span_step_ok:
  assumes n: "n < length ks" and ok: "spans_ok ks n (sp_spans s)" "starts_ok ks n (sp_li s)"
    and lv: "0 < n \<Longrightarrow> sp_lv s = ks ! (n - 1)" "n = 0 \<Longrightarrow> common (sp_lv s) (ks ! n) = 0"
  shows "\<exists>s'. span_step (n, ks ! n) s = Inr s' \<and> spans_ok ks (Suc n) (sp_spans s') \<and>
    starts_ok ks (Suc n) (sp_li s') \<and> sp_lv s' = ks ! n"
proof -
  let ?cv = "ks ! n" and ?c = "common (sp_lv s) (ks ! n)"
  have same_n: "same ks n d \<longleftrightarrow> d < ?c" for d
    using lv by (cases "n = 0") (auto simp: same_def)
  have len: "length (sp_spans s) = n" using ok(1) by (simp add: spans_ok_def)
  have start: "\<exists>j<n. sp_li s d = Some j \<and> d < length (ks ! j) \<and> \<not> same ks j d \<and> (\<forall>m. j < m \<and> m < n \<longrightarrow> same ks m d)"
    if "d < ?c" for d
  proof -
    have "0 < n" using that lv(2) by (cases n) auto
    then show ?thesis
      using ok(2) that lv(1) common_le(1) [of "sp_lv s" ?cv] unfolding starts_ok_def by (metis order_less_le_trans)
  qed
  have "\<exists>j<length (sp_spans s). sp_li s d = Some j \<and> d < length (sp_spans s ! j)" if "d < ?c" for d
    using start [OF that] ok(1) len unfolding spans_ok_def by metis
  then obtain spans' where step: "span_same 0 (sp_lv s) ?cv (sp_li s) (sp_spans s) = Inr (?c, spans')"
    and b: "bumped 0 ?c (sp_li s) (sp_spans s) spans'"
    using span_same_bumped [of 0 "sp_lv s" ?cv "sp_spans s" "sp_li s"] by auto
  let ?ent = "replicate ?c (- 1) @ replicate (length ?cv - ?c) (1 :: int)"
  let ?li = "\<lambda>e. if ?c \<le> e \<and> e < length ?cv then Some n else sp_li s e"
  have ent: "?ent ! d = (if same ks n d then - 1 else int (card (run ks (Suc n) n d)))" if "d < length ?cv" for d
    using that same_n [of d] common_le(2) [of "sp_lv s" ?cv] by (auto simp: nth_append run_new)
  have old: "spans' ! i ! d = (if same ks i d then - 1 else int (card (run ks (Suc n) i d)))"
    if i: "i < n" and d: "d < length (ks ! i)" for i d
  proof -
    have "sp_spans s ! i ! d = (if same ks i d then - 1 else int (card (run ks n i d)))"
      using ok(1) i d by (auto simp: spans_ok_def)
    moreover have "spans' ! i ! d = sp_spans s ! i ! d + (if d < ?c \<and> sp_li s d = Some i then 1 else 0)"
      using b i d len ok(1) by (auto simp: bumped_def spans_ok_def)
    ultimately show ?thesis using span_grows [OF i same_n [of d], of "sp_li s"] start [of d] by simp
  qed
  have "spans_ok ks (Suc n) (spans' @ [?ent])"
    using b ok(1) len ent old common_le(2) [of "sp_lv s" ?cv]
    by (auto simp: spans_ok_def bumped_def nth_append less_Suc_eq)
  moreover have "starts_ok ks (Suc n) ?li"
    unfolding starts_ok_def
  proof (intro allI impI)
    fix d
    assume "d < length (ks ! (Suc n - 1))"
    then have d: "d < length ?cv" by simp
    show "\<exists>j<Suc n. ?li d = Some j \<and> d < length (ks ! j) \<and> \<not> same ks j d \<and> (\<forall>m. j < m \<and> m < Suc n \<longrightarrow> same ks m d)"
    proof (cases "d < ?c")
      case True
      then obtain j where "j < n" "sp_li s d = Some j" "d < length (ks ! j)" "\<not> same ks j d"
        "\<forall>m. j < m \<and> m < n \<longrightarrow> same ks m d" using start by blast
      with True same_n [of d] show ?thesis by (auto simp: less_Suc_eq)
    next
      case False
      with d same_n [of d] show ?thesis by auto
    qed
  qed
  ultimately show ?thesis by (auto simp: span_step_def step)
qed

lemma span_loop_ok:
  assumes "m \<le> length ks" and "\<And>k. ks \<noteq> [] \<Longrightarrow> common (sp_lv s) (ks ! 0) = 0"
    and "sp_spans s = []"
  shows "\<exists>s'. rfold span_step (enumerate 0 (take m ks)) s = Inr s' \<and> spans_ok ks m (sp_spans s') \<and>
    (0 < m \<longrightarrow> starts_ok ks m (sp_li s') \<and> sp_lv s' = ks ! (m - 1)) \<and> (m = 0 \<longrightarrow> s' = s)"
  using assms(1)
proof (induction m)
  case 0
  then show ?case using assms(3) by (simp add: spans_ok_def)
next
  case (Suc m)
  then obtain s1 where s1: "rfold span_step (enumerate 0 (take m ks)) s = Inr s1" "spans_ok ks m (sp_spans s1)"
    "0 < m \<longrightarrow> starts_ok ks m (sp_li s1) \<and> sp_lv s1 = ks ! (m - 1)" "m = 0 \<longrightarrow> s1 = s" by auto
  have m: "m < length ks" using Suc.prems by simp
  have "starts_ok ks m (sp_li s1)" using s1(3) by (cases m) (auto simp: starts_ok_def)
  then obtain s2 where "span_step (m, ks ! m) s1 = Inr s2" "spans_ok ks (Suc m) (sp_spans s2)"
    "starts_ok ks (Suc m) (sp_li s2)" "sp_lv s2 = ks ! m"
    using span_step_ok [OF m s1(2)] s1(3,4) assms(2) m by fastforce
  moreover have "enumerate 0 (take (Suc m) ks) = enumerate 0 (take m ks) @ [(m, ks ! m)]"
    using m by (simp add: take_Suc_conv_app_nth enumerate_append_eq min_def)
  ultimately show ?case using s1(1) by (simp add: rfold_append)
qed

lemma common_undef: "\<forall>v\<in>set k. v \<noteq> JUndef \<Longrightarrow> common (replicate n JUndef) k = 0"
  by (cases n; cases k) (auto split: if_splits elim: strict_eq.elims)

lemma calcAttrSpans_ok:
  assumes "\<forall>k\<in>set ks. \<forall>v\<in>set k. v \<noteq> JUndef"
  shows "\<exists>spans. calcAttrSpans ks n = Inr spans \<and> spans_ok ks (length ks) spans"
  using span_loop_ok [of "length ks" ks
      "\<lparr>sp_spans = [], sp_li = (\<lambda>_. None), sp_lv = replicate n JUndef\<rparr>"]
    common_undef [of "ks ! 0" n] assms
  by (fastforce simp: calcAttrSpans_def)

section \<open>The header row\<close>

definition span_at :: "pkey list \<Rightarrow> int list list \<Rightarrow> nat \<Rightarrow> nat \<Rightarrow> int" where
  "span_at ks spans d i = (if d < length (ks ! i) then spans ! i ! d else 1)"

definition run_starts :: "pkey list \<Rightarrow> nat \<Rightarrow> nat \<Rightarrow> nat list" where
  "run_starts ks d i = filter (\<lambda>j. \<not> same ks j d) [i..<length ks]"

text \<open>The end of the run at a start, where the next run starts.\<close>

lemma run_end:
  assumes ok: "spans_ok ks (length ks) spans" and i: "i < length ks" and ns: "\<not> same ks i d"
  obtains j where "i < j" "j \<le> length ks" "span_at ks spans d i = int (j - i)"
    "\<forall>m. i < m \<and> m < j \<longrightarrow> same ks m d" "j = length ks \<or> \<not> same ks j d"
proof -
  define j where "j = (LEAST j. i < j \<and> (j = length ks \<or> \<not> same ks j d))"
  have j: "i < j \<and> (j = length ks \<or> \<not> same ks j d)"
    unfolding j_def by (rule LeastI [of _ "length ks"]) (simp add: i)
  have le: "j \<le> length ks" unfolding j_def by (rule Least_le) (simp add: i)
  have mid: "\<forall>m. i < m \<and> m < j \<longrightarrow> same ks m d"
    using not_less_Least [of _ "\<lambda>j. i < j \<and> (j = length ks \<or> \<not> same ks j d)"] unfolding j_def by blast
  have "run ks (length ks) i d = {i..<j}"
  proof
    show "run ks (length ks) i d \<subseteq> {i..<j}"
      using j by (fastforce simp: run_def not_less [symmetric])
    show "{i..<j} \<subseteq> run ks (length ks) i d" using mid le by (auto simp: run_def)
  qed
  then have card: "card (run ks (length ks) i d) = j - i" by simp
  have "span_at ks spans d i = int (j - i)"
  proof (cases "d < length (ks ! i)")
    case True
    then show ?thesis using ok i ns card by (simp add: span_at_def spans_ok_def)
  next
    case False
    have "\<not> same ks (Suc i) d" using False common_le(1) [of "ks ! i" "ks ! Suc i"] by (auto simp: same_def)
    then have "j = Suc i" using mid j by (metis Suc_lessI lessI)
    with False show ?thesis by (simp add: span_at_def)
  qed
  with j le mid that show ?thesis by blast
qed

lemma run_starts_step:
  assumes "i < j" "j \<le> length ks" "\<not> same ks i d" "\<forall>m. i < m \<and> m < j \<longrightarrow> same ks m d"
  shows "run_starts ks d i = i # run_starts ks d j"
proof -
  have "[i..<length ks] = i # [Suc i..<j] @ [j..<length ks]"
    using assms(1,2) by (metis Suc_leI upt_add_eq_append upt_conv_Cons order_less_le_trans le_add_diff_inverse)
  moreover have "filter (\<lambda>j. \<not> same ks j d) [Suc i..<j] = []"
    using assms(4) by (auto simp: filter_empty_conv)
  ultimately show ?thesis using assms(3) by (simp add: run_starts_def)
qed

lemma col_header_loop_runs:
  assumes ok: "spans_ok ks (length ks) spans"
  shows "i \<le> length ks \<Longrightarrow> i = length ks \<or> \<not> same ks i d \<Longrightarrow>
    col_header_loop cell d ks spans (int i) =
      Some (Inr (concat (map (\<lambda>j. cell (ks ! j) (span_at ks spans d j)) (run_starts ks d i)))) \<and>
    sum_list (map (span_at ks spans d) (run_starts ks d i)) = int (length ks) - int i"
proof (induction "length ks - i" arbitrary: i rule: less_induct)
  case less
  show ?case
  proof (cases "i = length ks")
    case True
    then show ?thesis by (simp add: col_header_loop.simps run_starts_def)
  next
    case False
    then have i: "i < length ks" and ns: "\<not> same ks i d" using less.prems by auto
    obtain j where j: "i < j" "j \<le> length ks" "span_at ks spans d i = int (j - i)"
      "\<forall>m. i < m \<and> m < j \<longrightarrow> same ks m d" "j = length ks \<or> \<not> same ks j d"
      by (rule run_end [OF ok i ns])
    have next_i: "int i + span_at ks spans d i = int j" using j(1,3) by simp
    have IH: "col_header_loop cell d ks spans (int j) =
        Some (Inr (concat (map (\<lambda>j. cell (ks ! j) (span_at ks spans d j)) (run_starts ks d j))))"
      "sum_list (map (span_at ks spans d) (run_starts ks d j)) = int (length ks) - int j"
      using less.hyps [of j] i j by auto
    have "col_header_loop cell d ks spans (int i) =
        Option.bind (col_header_loop cell d ks spans (int j))
          (\<lambda>r. Some (rbind r (\<lambda>cs. Inr (cell (ks ! i) (span_at ks spans d i) @ cs))))"
      using i next_i
      by (subst col_header_loop.simps) (cases "d < length (ks ! i)"; simp add: Let_def span_at_def)
    then show ?thesis using IH next_i run_starts_step [OF j(1,2) ns j(4)] by simp
  qed
qed

text \<open>
  C20. A header row of the table tiles the visible columns. For keys without undefined values the
  spans are computed without an error, the loop over the columns ends, and it shows one cell for
  each maximal run of columns that agree in their values up to the attribute of the row, in order:
  a cell starts exactly where a column differs from the one before it, and the spans of the cells
  add up to the number of visible columns.
\<close>

theorem header_row_tiles:
  assumes "\<forall>k\<in>set ks. \<forall>v\<in>set k. v \<noteq> JUndef"
  shows "\<exists>spans. calcAttrSpans ks numAttrs = Inr spans \<and>
    col_header_loop cell attrIdx ks spans 0 =
      Some (Inr (concat (map (\<lambda>i. cell (ks ! i) (span_at ks spans attrIdx i)) (run_starts ks attrIdx 0)))) \<and>
    sum_list (map (span_at ks spans attrIdx) (run_starts ks attrIdx 0)) = int (length ks)"
proof -
  obtain spans where s: "calcAttrSpans ks numAttrs = Inr spans" "spans_ok ks (length ks) spans"
    using calcAttrSpans_ok [OF assms] by blast
  have "\<not> same ks 0 attrIdx" by (simp add: same_def)
  with s col_header_loop_runs [OF s(2), of 0 attrIdx cell] show ?thesis by simp
qed

section \<open>Collapsing\<close>

text \<open>The rows below a group: longer keys that begin with its values.\<close>

definition below_group :: "pkey \<Rightarrow> pkey \<Rightarrow> bool" where
  "below_group g k \<longleftrightarrow> length g < length k \<and> map elem_text (take (length g) k) = map elem_text g"

definition plain_keys :: "pkey list \<Rightarrow> bool" where
  "plain_keys ks \<longleftrightarrow> (\<forall>k\<in>set ks. nul_free k \<and> (\<forall>j\<in>set [0..<Suc (length k)]. \<not> inherited_name (flatKey (take j k))))"

lemma is_collapsed_one:
  "\<not> inherited_name k \<Longrightarrow> is_collapsed [(g, b)] k \<longleftrightarrow> k = g \<and> b"
  by (auto simp: is_collapsed_def prop_lookup_def inherited_name_def)

lemma collapsed_prefix_iff:
  assumes "nul_free g" "g \<noteq> []" "flatKey g \<noteq> []" "nul_free k"
  shows "(\<exists>j<length k. flatKey (take j k) = flatKey g) \<longleftrightarrow> below_group g k"
proof
  assume "\<exists>j<length k. flatKey (take j k) = flatKey g"
  then obtain j where j: "j < length k" "flatKey (take j k) = flatKey g" by blast
  have "flatKey [] = []" by (simp add: flatKey_def vals_join_def)
  then have "take j k \<noteq> []" using j(2) assms(3) by metis
  then have eq: "map elem_text (take j k) = map elem_text g"
    using flatKey_inj [of "take j k" g] assms j(2) nul_free_take by blast
  then have "length g = j" using j(1) by (metis length_map length_take min.absorb2 less_imp_le)
  with eq j(1) show "below_group g k" by (simp add: below_group_def)
next
  assume "below_group g k"
  then show "\<exists>j<length k. flatKey (take j k) = flatKey g"
    unfolding below_group_def using flatKey_texts by blast
qed

lemma visible_one:
  assumes "plain_keys ks"
  shows "visibleKeys ks [(flatKey g, b)] n False =
    filter (\<lambda>k. \<not> (b \<and> (\<exists>j<length k. flatKey (take j k) = flatKey g))) ks"
  unfolding visibleKeys_def
proof (rule filter_cong [OF refl])
  fix k
  assume "k \<in> set ks"
  then have "is_collapsed [(flatKey g, b)] (flatKey (take j k)) \<longleftrightarrow> flatKey (take j k) = flatKey g \<and> b"
    if "j < length k" for j
    using assms that by (intro is_collapsed_one) (auto simp: plain_keys_def)
  then show "(\<not> list_ex (\<lambda>j. is_collapsed [(flatKey g, b)] (flatKey (take j k))) [0..<length k] \<and>
      (length k = n \<or> in_collapsed [(flatKey g, b)] (flatKey k) \<or> \<not> False)) =
    (\<not> (b \<and> (\<exists>j<length k. flatKey (take j k) = flatKey g)))"
    by (auto simp: list_ex_iff)
qed

lemma toggle_first:
  assumes "\<not> inherited_name f"
  shows "collapsedRows (toggleRowKey f initial_state) = [(f, True)]"
    and "collapsedRows (toggleRowKey f (toggleRowKey f initial_state)) = [(f, False)]"
  using assms by (auto simp: toggleRowKey_def initial_state_def is_collapsed_def prop_lookup_def inherited_name_def)

text \<open>A group whose flat key is empty: toggling it hides every row, its own included.\<close>

lemma toggle_empty_hides_all:
  assumes "plain_keys ks" and "\<forall>k\<in>set ks. k \<noteq> []" and "flatKey g = []"
  shows "visibleKeys ks (collapsedRows (toggleRowKey (flatKey g) initial_state)) n False = []"
proof -
  have "\<not> inherited_name []" by (simp add: inherited_name_def object_prototype_def)
  then have "collapsedRows (toggleRowKey (flatKey g) initial_state) = [(flatKey g, True)]"
    using toggle_first(1) assms(3) by simp
  moreover have "\<exists>j<length k. flatKey (take j k) = flatKey g" if "k \<in> set ks" for k
    using assms that by (intro exI [of _ 0]) (auto simp: flatKey_def vals_join_def)
  ultimately show ?thesis
    using visible_one [OF assms(1), of g True n] by (auto simp: filter_empty_conv)
qed

text \<open>
  C31. Collapsing a group of rows hides exactly the rows below it. In a table with nothing
  collapsed, a click on the arrow of a group leaves the group itself and every row outside it
  visible and hides the longer keys that begin with its values; a second click shows all rows
  again. The keys have no NUL character, are not inherited names, and the text of the group is not
  empty.
\<close>

theorem toggle_hides_group:
  assumes "plain_keys ks" and "g \<in> set ks" and "g \<noteq> []" and "flatKey g \<noteq> []"
  shows "visibleKeys ks (collapsedRows (toggleRowKey (flatKey g) initial_state)) n False =
      filter (\<lambda>k. \<not> below_group g k) ks \<and>
    visibleKeys ks (collapsedRows (toggleRowKey (flatKey g) (toggleRowKey (flatKey g) initial_state))) n False = ks"
proof -
  have g: "nul_free g" "\<not> inherited_name (flatKey g)"
    using assms(1,2) by (auto simp: plain_keys_def)
  have "filter (\<lambda>k. \<not> (\<exists>j<length k. flatKey (take j k) = flatKey g)) ks = filter (\<lambda>k. \<not> below_group g k) ks"
    using assms collapsed_prefix_iff [OF g(1) assms(3,4)] by (intro filter_cong) (auto simp: plain_keys_def)
  then show ?thesis
    using visible_one [OF assms(1), of g True n] visible_one [OF assms(1), of g False n]
    by (simp add: toggle_first [OF g(2)])
qed

end
