(* ===== verification/PivotChartFacts.thy ===== *)
theory PivotChartFacts
  imports PivotChart PivotTableFacts
begin

text \<open>
  Facts on the pivot table chart: the grand total over all metrics, from the records of the query to
  the value shown; what a click on a header selects; and the filters of the context menu.
\<close>

section \<open>From the records to the grand total\<close>

lemma obj_assign_get: "oprop (JObj (obj_assign [] rc)) k = oprop (JObj rc) k"
  by (simp add: oprop.simps(1) map_of_obj_assign)

lemma unpivot_value: "oprop (JObj (unpivot_record metricKey rc name)) ''value'' = oprop (JObj rc) (to_str name)"
  by (simp add: unpivot_record_def)

lemma unpivot_other:
  "k \<noteq> ''value'' \<Longrightarrow> k \<noteq> metricKey \<Longrightarrow> oprop (JObj (unpivot_record metricKey rc name)) k = oprop (JObj rc) k"
  by (simp add: unpivot_record_def obj_assign_get)

text \<open>A group-by column called \<open>value\<close> is lost: its cells are those of the metric.\<close>

lemma unpivot_hides_value_column:
  "map_of rc (to_str name) = Some v \<Longrightarrow> key_of [''value''] (unpivot_record metricKey rc name) = [v]"
  by (simp add: unpivot_record_def key_of_def map_of_obj_put oprop.simps(1))

definition metric_sum :: "(jsval \<Rightarrow> rat) \<Rightarrow> jsval list \<Rightarrow> prec \<Rightarrow> rat" where
  "metric_sum q names rc =
     sum_list (map (\<lambda>n. q (oprop (JObj rc) (to_str n))) (filter (\<lambda>n. oprop (JObj rc) (to_str n) \<noteq> JNull) names))"

text \<open>\<open>q\<close> is the number a value adds to a sum.\<close>

definition adds :: "(jsval \<Rightarrow> rat) \<Rightarrow> jsval \<Rightarrow> bool" where
  "adds q v \<longleftrightarrow> v = JNull \<or> to_number v \<noteq> NaN \<and> parseFloat (to_str v) = Fin (q v)"

lemma unpivoted_sum:
  "sum_list (map (\<lambda>r. q (attr_val [''value''] 0 r)) (unpivotedData metricKey names rs)) =
     sum_list (map (metric_sum q names) rs)"
proof (induction rs)
  case (Cons r rs)
  have "map (\<lambda>r. q (attr_val [''value''] 0 r))
      (filter (\<lambda>r. oprop (JObj r) ''value'' \<noteq> JNull) (map (unpivot_record metricKey r) names)) =
    map (\<lambda>n. q (oprop (JObj r) (to_str n))) (filter (\<lambda>n. oprop (JObj r) (to_str n) \<noteq> JNull) names)"
    by (simp add: filter_map comp_def unpivot_value attr_val_def attr_name_def)
  with Cons show ?case by (simp add: unpivotedData_def metric_sum_def)
qed (simp add: unpivotedData_def)

lemma unpivoted_numeric:
  assumes "\<forall>r\<in>set rs. \<forall>n\<in>set names. adds q (oprop (JObj r) (to_str n))"
  shows "\<forall>r\<in>set (unpivotedData metricKey names rs). numeric [''value''] (\<lambda>r. q (attr_val [''value''] 0 r)) r"
  using assms
  by (fastforce simp: unpivotedData_def numeric_def adds_def attr_val_def attr_name_def unpivot_value)


section \<open>Selecting by a header\<close>

lemma obj_put_new: "index_of_key k = None \<Longrightarrow> k \<notin> set (map fst m) \<Longrightarrow> obj_put k v m = m @ [(k, v)]"
  by (induction m) (auto simp: key_before_def)

lemma clickHeaderHandler_filters:
  assumes "distinct attrs" and "i < length attrs" "i < length vs" and "\<forall>a\<in>set attrs. index_of_key a = None"
  shows "hk_filters (clickHeaderHandler vs attrs i b g) = zip (take (Suc i) attrs) (take (Suc i) vs)"
proof -
  have "fold (\<lambda>i. obj_put (nth_name attrs i) (nth_or_undef vs i)) [0..<n] [] = zip (take n attrs) (take n vs)"
    if "n \<le> Suc i" for n
    using that
  proof (induction n)
    case (Suc n)
    have "attrs ! n \<notin> set (map fst (zip (take n attrs) (take n vs)))"
      using assms Suc.prems by (auto simp: in_set_conv_nth nth_eq_iff_index_eq)
    then show ?case
      using Suc assms by (simp add: nth_name_def nth_or_undef_def obj_put_new take_Suc_conv_app_nth)
  qed simp
  then show ?thesis by (simp add: clickHeaderHandler_def del: upt_Suc)
qed

lemma last_delete: "k \<noteq> fst p \<Longrightarrow> AList.delete k (ps @ [p]) = AList.delete k ps @ [p]"
  by (cases p) (simp add: AList.delete_eq)

text \<open>
  A click on a header value selects that value and nothing else, and a second click clears the
  selection: with cross filters on and no text selected, for distinct attributes that are no
  array indices, the click on a value of an attribute other than the metric hands on the single
  filter of that attribute and value unless it is the one selected, and no filter if it is.
\<close>

lemma header_click_selects:
  assumes "distinct attrs" and "i < length attrs" "i < length vs" and "\<forall>a\<in>set attrs. index_of_key a = None"
    and "attrs ! i \<noteq> metricKey"
  shows "let click = clickHeaderHandler vs attrs i False False; chosen = [(attrs ! i, JArr [vs ! i])]
    in toggleFilter metricKey True False selected click =
        Some (if is_active_value selected (attrs ! i) (vs ! i) then [] else chosen) \<and>
      (same_value_zero (vs ! i) (vs ! i) \<longrightarrow> toggleFilter metricKey True False (Some chosen) click = Some [])"
proof -
  have "hk_filters (clickHeaderHandler vs attrs i False False) =
      zip (take i attrs) (take i vs) @ [(attrs ! i, vs ! i)]"
    using clickHeaderHandler_filters [OF assms(1-4)] assms(2,3) by (simp add: take_Suc_conv_app_nth)
  then have "AList.delete metricKey (hk_filters (clickHeaderHandler vs attrs i False False)) =
      AList.delete metricKey (zip (take i attrs) (take i vs)) @ [(attrs ! i, vs ! i)]"
    using assms(5) by (simp add: last_delete)
  then show ?thesis
    by (simp add: toggleFilter_def Let_def is_active_value_def) (simp add: clickHeaderHandler_def)
qed

section \<open>The context menu\<close>

definition drill_columns :: "jsval list \<Rightarrow> jsval list" where
  "drill_columns fs = map (\<lambda>f. oprop f ''col'') fs"

lemma drill_columns_zip:
  "length ks = length attrs \<Longrightarrow> drill_columns (map (drill_filter df tg) (zip attrs ks)) = map JStr attrs"
  by (induction ks attrs rule: list_induct2) (simp_all add: drill_columns_def drill_filter_def Let_def)

lemma drill_columns_append: "drill_columns (fs @ gs) = drill_columns fs @ drill_columns gs"
  by (simp add: drill_columns_def)

text \<open>The filters are those of the columns but the first, and of all rows.\<close>

lemma drill_columns_shown:
  assumes "length ck = length cols" "length rk = length rows" and "1 < length cols"
  shows "drill_columns (drillToDetail df tg rows cols (Some ck) (Some rk)) = map JStr (tl cols @ rows)"
proof -
  have "tl (zip cols ck) = zip (tl cols) (tl ck)" using assms(1,3) by (cases cols; cases ck) auto
  with assms show ?thesis
    by (simp add: drillToDetail_def drill_columns_append drill_columns_zip)
qed

text \<open>
  With the metrics first among the columns, these are the group-by attributes. With the metrics
  last the metric is filtered as if it were a column and the first column is not, and with the
  metrics among the rows the metric is filtered as well.
\<close>

lemma drill_filters_layouts:
  assumes "(rows, cols) = pivot_axes metricKey False layout combine gr gc" and "1 < length cols"
    and "length ck = length cols" "length rk = length rows"
    and "filtered = drill_columns (drillToDetail df tg rows cols (Some ck) (Some rk))"
  shows "layout = COLUMNS \<Longrightarrow> \<not> combine \<Longrightarrow> filtered = map JStr (gc @ gr)"
    and "layout = COLUMNS \<Longrightarrow> combine \<Longrightarrow> filtered = map JStr (tl gc @ metricKey # gr)"
    and "layout = ROWS \<Longrightarrow> JStr metricKey \<in> set filtered"
proof -
  have f: "filtered = map JStr (tl cols @ rows)"
    using assms(5) drill_columns_shown [OF assms(3,4,2)] by simp
  show "layout = COLUMNS \<Longrightarrow> \<not> combine \<Longrightarrow> filtered = map JStr (gc @ gr)"
    "layout = ROWS \<Longrightarrow> JStr metricKey \<in> set filtered"
    using assms(1) by (auto simp: f pivot_axes_def)
  show "layout = COLUMNS \<Longrightarrow> combine \<Longrightarrow> filtered = map JStr (tl gc @ metricKey # gr)"
    using assms(1,2) by (cases gc) (auto simp: f pivot_axes_def)
qed

end
