(* ===== verification/PivotWitnesses.thy ===== *)
theory PivotWitnesses
  imports PivotChartFacts
begin

text \<open>The properties of the pivot table at concrete tables.\<close>

definition demo_records :: "prec list" where
  "demo_records =
     [[(''a'', JStr ''x''), (''b'', JStr ''u''), (''value'', JInt 1)],
      [(''a'', JStr ''x''), (''b'', JStr ''v''), (''value'', JInt 2)],
      [(''a'', JStr ''y''), (''b'', JStr ''u''), (''value'', JInt 4)]]"

definition demo_props :: pivot_props where
  "demo_props = (default_props usFmt (Records demo_records))
     \<lparr>pp_rows := [''a''], pp_cols := [''b''], pp_vals := [''value''], pp_aggregatorName := ''Sum'',
      pp_sorters := metric_sorters ''Metric'' [''m'']\<rparr>"

definition demo_subtotals :: subtotals where
  "demo_subtotals = \<lparr>rowEnabled = True, colEnabled = False, rowPartialOnTop = False, colPartialOnTop = True\<rparr>"

lemma demo_proj:
  "pp_data demo_props = Records demo_records" "pp_customFormatters demo_props = None"
  "pp_rows demo_props = [''a'']" "pp_cols demo_props = [''b'']" "pp_vals demo_props = [''value'']"
  "pp_sorters demo_props = metric_sorters ''Metric'' [''m'']" "pp_aggregatorName demo_props = ''Sum''"
  "pp_rowOrder demo_props = ''key_a_to_z''" "pp_colOrder demo_props = ''key_a_to_z''"
  "pp_defaultFormatter demo_props = usFmt"
  by (simp_all add: demo_props_def default_props_def)

lemma demo_template: "template_of demo_props = Some (Base (TSum usFmt))"
  using sum_template [OF demo_proj(7)] by (simp add: demo_proj)

lemma demo_not_bad: "\<not> list_ex (bad_record demo_props demo_subtotals) demo_records"
  by code_simp

lemma demo_built: "\<exists>pd. newPivotData demo_props demo_subtotals = Inr pd"
  using newPivotData_cases [OF demo_proj(1,2) demo_template, of demo_subtotals] demo_not_bad by simp

lemma demo_clean: "clean_records demo_props demo_records"
  by code_simp


theorem pivot_refines_groups_witness:
  "\<exists>pd a. newPivotData demo_props demo_subtotals = Inr pd \<and>
     getAggregator pd [JStr ''x''] [] = Inr (Some a) \<and> ag_state a = SumState (JNum (Fin 3))"
proof -
  obtain pd where pd: "newPivotData demo_props demo_subtotals = Inr pd" using demo_built by blast
  have lev: "nul_free [JStr ''x'']" "nul_free []" "at_level (rowEnabled demo_subtotals) (pp_rows demo_props) [JStr ''x'']"
    "at_level (colEnabled demo_subtotals) (pp_cols demo_props) []"
    by code_simp+
  have grp: "cell_group demo_props [JStr ''x''] [] demo_records \<noteq> []" by code_simp
  have st: "fold (agg_push (base_of (Base (TSum usFmt))) (pp_vals demo_props)) (cell_group demo_props [JStr ''x''] [] demo_records)
      (agg_init (base_of (Base (TSum usFmt)))) = SumState (JNum (Fin 3))"
    by code_simp
  from pivot_refines_groups [OF pd demo_proj(1) demo_template demo_clean lev] grp st pd show ?thesis by auto
qed

theorem pivot_keys_complete_witness:
  "\<exists>pd. newPivotData demo_props demo_subtotals = Inr pd \<and> distinct (map (map elem_text) (pd_rowKeys pd)) \<and>
     map elem_text ` set (pd_rowKeys pd) = map elem_text ` prefixes True [''a''] demo_records"
proof -
  obtain pd where pd: "newPivotData demo_props demo_subtotals = Inr pd" using demo_built by blast
  from pivot_keys_complete [OF pd demo_proj(1) demo_clean] pd show ?thesis
    by (auto simp: demo_proj demo_subtotals_def)
qed


theorem pivot_constructor_throws_witness:
  "newPivotData (demo_props\<lparr>pp_data := Records [[(''a'', JStr ''constructor'')]]\<rparr>) demo_subtotals = Inl TypeError \<and>
   (\<exists>pd. newPivotData demo_props demo_subtotals = Inr pd)"
proof
  let ?p = "demo_props\<lparr>pp_data := Records [[(''a'', JStr ''constructor'')]]\<rparr>"
  have "list_ex (bad_record ?p demo_subtotals) [[(''a'', JStr ''constructor'')]]" by code_simp
  moreover have "template_of ?p = Some (Base (TSum usFmt))" using demo_template by (simp add: template_of_def)
  ultimately show "newPivotData ?p demo_subtotals = Inl TypeError"
    using pivot_constructor_throws [of ?p "[[(''a'', JStr ''constructor'')]]" "Base (TSum usFmt)" demo_subtotals]
    by (simp add: demo_proj)
  show "\<exists>pd. newPivotData demo_props demo_subtotals = Inr pd" by (rule demo_built)
qed



theorem header_row_tiles_witness:
  "\<exists>spans. calcAttrSpans [[JStr ''x'', JStr ''u''], [JStr ''x'', JStr ''v''], [JStr ''y'', JStr ''u'']] 2 = Inr spans \<and>
     col_header_loop (\<lambda>k s. [s]) 0 [[JStr ''x'', JStr ''u''], [JStr ''x'', JStr ''v''], [JStr ''y'', JStr ''u'']] spans 0
       = Some (Inr [2, 1])"
proof -
  let ?ks = "[[JStr ''x'', JStr ''u''], [JStr ''x'', JStr ''v''], [JStr ''y'', JStr ''u'']]"
  have "\<forall>k\<in>set ?ks. \<forall>v\<in>set k. v \<noteq> JUndef" by simp
  from header_row_tiles [OF this, of 2 "\<lambda>k s. [s]" 0]
  obtain spans where s: "calcAttrSpans ?ks 2 = Inr spans"
    "col_header_loop (\<lambda>k s. [s]) 0 ?ks spans 0 = Some (Inr (concat (map (\<lambda>i. [span_at ?ks spans 0 i]) (run_starts ?ks 0 0))))"
    by blast
  have "calcAttrSpans ?ks 2 = Inr [[2, 1], [- 1, 1], [1, 1]]" by code_simp
  moreover have "run_starts ?ks 0 0 = [0, 2]" by code_simp
  ultimately show ?thesis using s by (simp add: span_at_def)
qed

theorem toggle_hides_group_witness:
  "visibleKeys [[JStr ''x''], [JStr ''x'', JStr ''u''], [JStr ''y''], [JStr ''y'', JStr ''u'']]
     (collapsedRows (toggleRowKey (flatKey [JStr ''x'']) initial_state)) 2 False =
   [[JStr ''x''], [JStr ''y''], [JStr ''y'', JStr ''u'']]"
proof -
  let ?ks = "[[JStr ''x''], [JStr ''x'', JStr ''u''], [JStr ''y''], [JStr ''y'', JStr ''u'']]"
  have "plain_keys ?ks" by code_simp
  moreover have "flatKey [JStr ''x''] \<noteq> []" by code_simp
  moreover have "filter (\<lambda>k. \<not> below_group [JStr ''x''] k) ?ks = [[JStr ''x''], [JStr ''y''], [JStr ''y'', JStr ''u'']]"
    by (simp add: below_group_def elem_text_def nullish_def)
  ultimately show ?thesis using toggle_hides_group [of ?ks "[JStr ''x'']" 2] by simp
qed

definition demo_chart :: chart_props where
  "demo_chart = \<lparr>ch_data = [[(''g'', JStr ''x''), (''m1'', JInt 1), (''m2'', JNull)], [(''g'', JStr ''y''), (''m1'', JInt 2), (''m2'', JInt 4)]],
     ch_groupbyRows = [JStr ''g''], ch_groupbyColumns = [], ch_metrics = [JStr ''m1'', JObj [(''label'', JStr ''m2'')]],
     ch_colOrder = ''key_a_to_z'', ch_rowOrder = ''key_a_to_z'', ch_aggregateFunction = ''Sum'', ch_transposePivot = False,
     ch_combineMetric = False, ch_metricsLayout = COLUMNS, ch_valueFormat = JUndef, ch_currencyFormat = JUndef,
     ch_columnFormats = [], ch_currencyFormats = [], ch_emitCrossFilters = True, ch_selectedFilters = None,
     ch_timeGrainSqla = JUndef\<rparr>"


end
