(* ===== verification/Spec2Isabelle.thy ===== *)
theory Spec2Isabelle
  imports QueryFacts Operators Registry ChartFormData LayoutWitnesses SqlLabWitnesses SwitchboardWitnesses ColorRuns ConnectionWitnesses FilterScopeWitnesses PivotWitnesses
begin

text \<open>
  Verification of the frontend core of the repository (\<open>src/superset-frontend\<close>, in the
  following just the path below it).

  \<^bold>\<open>The program.\<close> The frontend turns what a user does into queries. A chart has form data; a
  query builder makes a query context from it. A dashboard holds charts in a layout tree, filters
  with scopes over that tree, and label colours that its charts share; the filters that apply to a
  chart are merged into its form data before the query is built. SQL Lab keeps editor tabs, queries
  and tables in a store. An embedded dashboard talks to the page around it over a message channel.
  Registries hold what is looked up by name (chart types, formatters, colour schemes).

  \<^bold>\<open>Conventions.\<close> Dynamically typed code works on \<open>jsval\<close> (theory \<open>JsVal\<close>), typed code on records
  and datatypes. A function that can throw returns \<open>js_error + 'a\<close> (theory \<open>Prelude\<close>); a stateful one
  takes its state and returns it updated, module-level caches, singletons and shared objects
  included. Reducers are functions of the state and an action, with one definition per handler.
  Plain objects and \<open>Map\<close>s are association lists in enumeration order (theory \<open>JsDict\<close>); both satisfy
  the locale \<open>js_dict\<close>. Libraries (lodash, redux helpers, nanoid, d3, tinycolor), the clock, the
  translation function and the feature flags are arguments; what is used of them is a named
  hypothesis of the theorem that uses it. Numbers are exact rationals with NaN and infinities.

  \<^bold>\<open>The parts.\<close>
  \<^item> \<open>Prelude\<close>, \<open>JsDict\<close>, \<open>JsVal\<close>, \<open>JsJson\<close>: results, lists, dictionaries, values, \<open>JSON.parse\<close>.
  \<^item> \<open>QueryTypes\<close>, \<open>QueryBuild\<close>, \<open>QueryFacts\<close>: \<open>packages/superset-ui-core/src/query\<close>, from
    \<open>extractQueryFields.ts\<close> to \<open>buildQueryContext.ts\<close>. Columns are deduplicated by label and none is
    lost; every filter lands in the clause it belongs to; free SQL cannot leave its parentheses
    or swallow what follows in a comment; order and queries have the stated shape.
  \<^item> \<open>Operators\<close>: \<open>packages/superset-ui-chart-controls/src/operators\<close>. The columns of a time comparison
    are paired and renamed consistently.
  \<^item> \<open>Registry\<close>: \<open>models/Registry.ts\<close>, \<open>RegistryWithDefaultKey.ts\<close>, \<open>TypedRegistry.ts\<close>, the formatter
    registries and \<open>utils/lruCache.ts\<close>. The locale \<open>keyed_store\<close> is the contract of a store; the
    promise cache stays coherent with the items; the cache never exceeds its capacity.
  \<^item> \<open>FilterScoping\<close>, \<open>NativeFilters\<close>, \<open>DashboardReducers\<close>, \<open>ChartFormData\<close>: \<open>src/dashboard/util\<close>,
    \<open>src/dashboard/components/nativeFilters\<close>, the reducers \<open>nativeFilters.ts\<close>, \<open>dataMask/reducer.ts\<close>,
    \<open>chartReducer.ts\<close>, and \<open>getFormDataWithExtraFilters.ts\<close>. A filter reaches exactly the charts of its
    scope; the circularity test is exact; masks and merged form data are what the filters say.
  \<^item> \<open>LayoutTree\<close>, \<open>DashboardLayout\<close>, \<open>LayoutFacts\<close>, \<open>LayoutDrops\<close>, \<open>LayoutParents\<close>:
    \<open>src/dashboard/reducers/dashboardLayout.js\<close> and the drag and drop rules it calls. The layout stays
    a forest under every drop, moves and deletions do exactly that, and no content is lost.
  \<^item> \<open>SqlLab\<close>, \<open>SqlLabFacts\<close>, \<open>SqlLabTabs\<close>, \<open>SqlLabQueries\<close>: \<open>src/SqlLab/reducers/sqlLab.js\<close> and the action
    creators that compute from the state. What a tab shows refines the editor operations; polling
    never revives a settled query; the ways in which edits get lost are theorems too.
  \<^item> \<open>Switchboard\<close>, \<open>SwitchboardFacts\<close>: \<open>packages/superset-ui-switchboard\<close>, with two switchboards as a
    step relation. Answers go to the call they answer, and every call is answered.
  \<^item> \<open>ColorUtils\<close>, \<open>ColorScale\<close>, \<open>ColorFacts\<close>, \<open>ColorDashboard\<close>, \<open>ColorRuns\<close>:
    \<open>packages/superset-ui-core/src/color\<close> and \<open>src/utils/colorScheme.ts\<close>. Labels of a chart get different
    colours while the scheme has enough, and a label keeps its colour on a whole dashboard.
  \<^item> \<open>Connection\<close>, \<open>ConnectionFacts\<close>: \<open>packages/superset-ui-core/src/connection\<close>, the HTTP client. Calls with
    their response cache are functions; the client with its CSRF token is an asynchronous system of
    events. A request leaves only with a token that was issued, the cache is transparent, every
    request is settled, and two races of the token are shown.
  \<^item> \<open>FilterScopeTree\<close>, \<open>FilterScopeFacts\<close>, \<open>FilterScopeShown\<close>: the scoping tree of the native filter form
    (\<open>FiltersConfigForm/FilterScope\<close>). On a layout whose parents lists are up to date the tree lists every
    chart once, a check stores a scope that reaches exactly the checked charts, and the
    checked nodes are read back from it. The walks take a depth; the length of the layout is enough.
  \<^item> \<open>LegacyScopes\<close>, \<open>LegacyFacts\<close>, \<open>LegacyLayout\<close>, \<open>LegacySelector\<close>: the dashboard filters that precede native
    filters, with \<open>activeDashboardFilters.js\<close>, the reducer \<open>dashboardFilters.js\<close> and the scope selector. The saved
    scope loses no checked chart and is exact without nested tabs; with nested tabs it is not, and a
    check of the leaves clears the scopes of the edited fields. The witnesses of both groups are in
    \<open>FilterScopeWitnesses\<close>.
  \<^item> \<open>JsArith\<close>: arithmetic, comparison and the stable sort of the language; the locales \<open>sort_order\<close> and
    \<open>keyed_order\<close> say when a comparator sorts.
  \<^item> \<open>PivotNumbers\<close>, \<open>PivotSort\<close>, \<open>PivotAggregators\<close>, \<open>PivotData\<close>: the data model of the pivot table
    (\<open>plugins/plugin-chart-pivot-table/src/react-pivottable/utilities.js\<close>), with \<open>PivotFacts\<close>, \<open>PivotGroups\<close> and
    \<open>PivotChecks\<close>: reading the table is grouping the records, totals add up, the one-pass statistics
    are exact, keys are complete and in order, and the constructor throws exactly on inherited names.
  \<^item> \<open>PivotTable\<close>, \<open>PivotTableFacts\<close>: the renderer (\<open>TableRenderers.jsx\<close>) as data. Header rows tile the visible
    columns, their loop ends, and collapsing hides exactly the rows below a group.
  \<^item> \<open>PivotChart\<close>, \<open>PivotChartFacts\<close>: \<open>PivotTableChart.tsx\<close> and \<open>plugin/buildQuery.ts\<close>, from the records of the
    query to the grand total, the selection by headers and the filters of the context menu.
  \<^item> This theory: what crosses components. The filters that are active on a chart are the filters of
    its query, and the cache of the chart form data can return stale filters.
  The theories ending in \<open>Witnesses\<close> hold concrete states on which theorems apply.

  \<^bold>\<open>Bounds and fuel.\<close> \<open>json_parse\<close> spends \<open>2 * length s + 2\<close> units, proved to be enough
  (\<open>parse_value_fuel\<close>). The recursions over a layout are bounded by \<open>length lay + 2\<close>; beyond it the
  result is a stack overflow, and \<open>doesChildOverflowParent_total\<close> and \<open>updateComponentParentsList_ok\<close>
  prove that a forest never gets there. All other loops are total functions with a measure (the
  circularity test, the deletion of a subtree, the analogous colours). A channel of two switchboards
  comes to rest within the weight of its state. Two loops of the pivot table need not end and are
  partial functions into \<open>option\<close>: the one that inserts thousands separators, proved to end for separators
  without digits (and not for the empty one), and the one over a header row, proved to end always.

  \<^bold>\<open>Not modelled.\<close> React components, hooks and styling (almost all of \<open>src/components\<close>,
  \<open>src/features\<close>, \<open>src/pages\<close>, \<open>src/explore/components\<close>, the chart plugins other than the pivot table): their
  behaviour is rendering and effects of libraries outside the repository. Thunks that only talk to
  the backend, demo and storybook data, generated translations and the Python backend. Sequential
  colour scales (interpolation of a library), the undo history (redux-undo). Strings are sequences
  of code units below 256, and numbers are not rounded to double precision.
\<close>

lemma process_filter_prefix:
  assumes "process_filter f (JArr sw, fw, fh) = Inr (sw', fw', fh')"
  shows "\<exists>ys. sw' = JArr (sw @ ys)"
  using assms
  by (auto simp: process_filter_def rbind_Inr_iff Let_def split: if_splits intro: exI [of _ "[]"])

lemma process_filters_prefix:
  assumes "rfold process_filter fs (JArr sw, fw, fh) = Inr (sw', fw', fh')"
  shows "\<exists>ys. sw' = JArr (sw @ ys)"
  using assms
proof (induction fs arbitrary: sw fw fh)
  case (Cons f fs)
  then obtain acc where acc: "process_filter f (JArr sw, fw, fh) = Inr acc"
      "rfold process_filter fs acc = Inr (sw', fw', fh')" by (auto simp: rbind_Inr_iff)
  obtain s1 f1 h1 where "acc = (s1, f1, h1)" by (cases acc)
  then obtain ys where "acc = (JArr (sw @ ys), f1, h1)"
    using process_filter_prefix acc(1) by blast
  then show ?case using Cons.IH acc(2) by force
qed auto

lemma processFilters_filters:
  assumes "processFilters fd = Inr pf" and "oprop (JObj fd) ''filters'' = JArr sw"
  shows "\<exists>ys. oprop (JObj pf) ''filters'' = JArr (sw @ ys)"
proof -
  obtain fs sw' fw fh where
      "rfold process_filter fs (JArr sw, (if truthy (oprop (JObj fd) ''where'') then [oprop (JObj fd) ''where''] else []), []) =
         Inr (sw', fw, fh)" "oprop (JObj pf) ''filters'' = sw'"
    using assms by (auto simp: processFilters_def Let_def rbind_Inr_iff js_default_def split: prod.splits)
  then show ?thesis using process_filters_prefix by blast
qed

lemma filter_form_data_filters:
  assumes "filter_form_data fd extras = Inr ffd" and "oprop (JObj extras) ''filters'' = JArr xs"
    and "oprop (JObj (extra_form_data_of fd)) ''filters'' = arr_or_undef vs"
  shows "oprop (JObj ffd) ''filters'' = JArr (xs @ vs)"
  using assms
  by (auto simp: filter_form_data_def rbind_Inr_iff Let_def arr_or_undef_def js_default_def oprop_assign
      split: if_splits)

lemma extractExtras_filters_array: "extractExtras fd = Inr r \<Longrightarrow> \<exists>xs. oprop (JObj r) ''filters'' = JArr xs"
  by (auto simp: extractExtras_def rbind_Inr_iff Let_def)

text \<open>
  Dashboard filters reach the query. When a chart's form data carries the merged form data
  of the filters applied on it, the query built from it contains, after the extra filters of
  the form, every filter clause of every applied filter, in the order of the filters; and its
  time range is the one of the last applied filter that sets one.
\<close>

lemma dashboard_filters_reach_query:
  assumes "buildQueryObject fd aliases = Inr q"
    and "oprop (JObj fd) ''extra_form_data'' = JObj (getExtraFormData dataMask ids)" and "ids \<noteq> []"
  shows "(\<exists>extras xs ys. extractExtras fd = Inr extras \<and> oprop (JObj extras) ''filters'' = JArr xs \<and>
       oprop (JObj q) ''filters'' =
         JArr (xs @ concat (map (\<lambda>i. appended (mask_form_data dataMask i) ''filters'') ids) @ ys)) \<and>
     (\<forall>r. fold (\<lambda>i v. js_default (oprop (JObj (mask_form_data dataMask i)) ''time_range'') v) ids JUndef = JStr r \<longrightarrow>
       oprop (JObj q) ''time_range'' = JStr r)"
proof -
  let ?vs = "concat (map (\<lambda>i. appended (mask_form_data dataMask i) ''filters'') ids)"
  have keys: "''filters'' \<in> set EXTRA_FORM_DATA_APPEND_KEYS" "''time_range'' \<in> set EXTRA_FORM_DATA_OVERRIDE_KEYS"
    by code_simp+
  have e: "extra_form_data_of fd = getExtraFormData dataMask ids"
    using assms(2) by (simp add: extra_form_data_of_def js_or_def)
  have vs: "oprop (JObj (extra_form_data_of fd)) ''filters'' = arr_or_undef ?vs"
    using merged_fold_nonempty [OF assms(3) keys(1), of "mask_form_data dataMask" "[]"]
    by (simp add: e getExtraFormData_def appended_def [of "[]"])
  have tr: "oprop (JObj (extra_form_data_of fd)) ''time_range'' =
      fold (\<lambda>i v. js_default (oprop (JObj (mask_form_data dataMask i)) ''time_range'') v) ids JUndef"
    using override_fold [OF keys(2), of "mask_form_data dataMask" ids "[]"] by (simp add: e getExtraFormData_def)
  obtain qf extras ffd pf q1 where b: "extractExtras fd = Inr extras"
      "filter_form_data fd extras = Inr ffd" "processFilters ffd = Inr pf"
      "overrideExtraFormData (obj_assign (obj_assign (obj_assign (query_base fd) extras) pf)
        (query_rest fd qf))
      (fold AList.delete [''adhoc_filters'', ''filters'', ''custom_form_data''] (extra_form_data_of fd)) = Inr q1"
      "q = obj_put ''custom_form_data''
       (js_default (oprop (JObj (extra_form_data_of fd)) ''custom_form_data'') (JObj [])) q1"
    using assms(1) by (elim buildQueryObject_Inr)
  obtain xs where xs: "oprop (JObj extras) ''filters'' = JArr xs" using extractExtras_filters_array [OF b(1)] by blast
  obtain ys where ys: "oprop (JObj pf) ''filters'' = JArr ((xs @ ?vs) @ ys)"
    using processFilters_filters [OF b(3) filter_form_data_filters [OF b(2) xs vs]] by blast
  have "''filters'' \<notin> set (map snd EXTRA_FORM_DATA_OVERRIDE_REGULAR_MAPPINGS)"
    by (simp add: override_targets del: set_map)
  from overrideExtraFormData_other [OF b(4) this]
  have "oprop (JObj q) ''filters'' = JArr (xs @ ?vs @ ys)"
    using ys b(5) processFilters_keys [OF b(3)]
    by (simp add: oprop_assign keys_query_rest query_rest_keys_def del: set_map)
  moreover have "oprop (JObj q) ''time_range'' = JStr r"
    if "fold (\<lambda>i v. js_default (oprop (JObj (mask_form_data dataMask i)) ''time_range'') v) ids JUndef = JStr r" for r
    using overrideExtraFormData_regular [OF b(4)] tr that b(5) by (simp add: js_default_def)
  ultimately show ?thesis using b(1) xs by blast
qed

lemma spread_all_append: "spread_all (vs @ [v]) = obj_assign (spread_all vs) (own_props v)"
  by (simp add: spread_all_def)

lemma chart_form_data_extra:
  assumes "filterIdsAppliedOnChart a \<noteq> []" and "''extra_form_data'' \<notin> set (map fst (fa_extraControls a))"
  shows "oprop (JObj (chart_form_data a)) ''extra_form_data'' =
     JObj (getExtraFormData (fa_dataMask a) (filterIdsAppliedOnChart a))"
proof -
  let ?pre = "[fa_chart_form_data a,
         JObj [(''chart_id'', JInt (fa_chart_id a)), (''label_colors'', fa_labelsColor a),
               (''shared_label_colors'', fa_sharedLabelsColors a),
               (''map_label_colors'', fa_labelsColorMap a)]] @
        (if truthy (fa_colorScheme a) then [JObj [(''color_scheme'', fa_colorScheme a)]] else []) @
        (if truthy (fa_ownColorScheme a) then [JObj [(''own_color_scheme'', fa_ownColorScheme a)]] else []) @
        [JObj [(''extra_filters'', JArr (getEffectiveExtraFilters (fa_filters a)))]]"
  let ?base = "obj_assign (obj_assign (spread_all ?pre) (extra_data a)) (fa_extraControls a)"
  have "chart_form_data a = (if layer_filter_scope a \<noteq> []
      then obj_assign ?base [(''layer_filter_scope'', JObj (layer_filter_scope a))] else ?base)"
    unfolding chart_form_data_def by (simp add: spread_all_def)
  then have "oprop (JObj (chart_form_data a)) ''extra_form_data'' = oprop (JObj ?base) ''extra_form_data''"
    by (simp add: oprop_assign)
  also have "\<dots> = oprop (JObj (extra_data a)) ''extra_form_data''"
    using assms by (simp add: oprop_assign extra_data_def Let_def)
  finally show ?thesis using assms(1) by (simp add: extra_data_def Let_def)
qed

text \<open>
  C1. From dashboard filters to the query, end to end. When the form data of a chart is
  computed afresh from the dashboard state and the query is built from it, the query holds,
  after the form's own extra filters, every filter clause of every filter that is active on
  the chart, in the order of the active filters; and the last of these filters that sets a
  time range determines the time range of the query.
\<close>

theorem active_filters_reach_query:
  assumes "cache_hit lo a c = None" and "filterIdsAppliedOnChart a \<noteq> []"
    and "''extra_form_data'' \<notin> set (map fst (fa_extraControls a))"
    and "getFormDataWithExtraFilters lo a c = (fd, c')" and "buildQueryObject fd aliases = Inr q"
  shows "(\<exists>extras xs ys. extractExtras fd = Inr extras \<and> oprop (JObj extras) ''filters'' = JArr xs \<and>
       oprop (JObj q) ''filters'' = JArr (xs @
         concat (map (\<lambda>i. appended (mask_form_data (fa_dataMask a) i) ''filters'') (filterIdsAppliedOnChart a)) @ ys)) \<and>
     (\<forall>r. fold (\<lambda>i v. js_default (oprop (JObj (mask_form_data (fa_dataMask a) i)) ''time_range'') v)
            (filterIdsAppliedOnChart a) JUndef = JStr r \<longrightarrow> oprop (JObj q) ''time_range'' = JStr r)"
proof -
  have "fd = chart_form_data a"
    using assms(1,4) by (simp add: getFormDataWithExtraFilters_def Let_def)
  then have "oprop (JObj fd) ''extra_form_data'' = JObj (getExtraFormData (fa_dataMask a) (filterIdsAppliedOnChart a))"
    using chart_form_data_extra [OF assms(2,3)] by simp
  from dashboard_filters_reach_query [OF assms(5) this assms(2)] show ?thesis .
qed

lemma cache_hit_scopes:
  "cache_hit lo (a\<lparr>fa_nativeFilters := nf, fa_crossScopes := cs, fa_activeFilters := af,
     fa_chart_form_data := v, fa_allSliceIds := ids\<rparr>) c = cache_hit lo a c"
  by (simp add: cache_hit_def Let_def split: option.split)

text \<open>
  Stale form data. The cache of chart form data does not look at the scopes of the filters,
  the configuration of the charts or the saved form data: when a call is answered from the
  cache, so is every call that differs in these only, with the same form data.
\<close>

lemma getFormDataWithExtraFilters_stale:
  assumes "cache_hit lo a c = Some d"
  shows "getFormDataWithExtraFilters lo (a\<lparr>fa_nativeFilters := nf, fa_crossScopes := cs, fa_activeFilters := af,
           fa_chart_form_data := v, fa_allSliceIds := ids\<rparr>) c = (d, c)"
  using assms by (simp add: getFormDataWithExtraFilters_def cache_hit_scopes)

section \<open>Witnesses\<close>

definition mask1 :: "jsval obj" where
  "mask1 = [(''filters'', JArr [JStr ''p'']), (''time_range'', JStr ''Last week'')]"

definition dash_args :: form_args where
  "dash_args = \<lparr>fa_chart_id = 7, fa_chart_form_data = JObj [(''groupby'', JArr [JStr ''a''])], fa_filters_ref = 0,
     fa_filters = [], fa_nativeFilters = [], fa_crossScopes = [], fa_colorScheme = JUndef, fa_ownColorScheme = JUndef,
     fa_colorNamespace = JUndef, fa_sliceId = 7,
     fa_dataMask = [(''f'', JObj [(''id'', JStr ''f''), (''extraFormData'', JObj mask1)])],
     fa_extraControls = [], fa_labelsColor = JUndef, fa_labelsColorMap = JUndef, fa_sharedLabelsColors = JUndef,
     fa_allSliceIds = [7], fa_activeFilters = None\<rparr>"

definition no_cache :: chart_caches where
  "no_cache = \<lparr>cachedFiltersByChart = [], cachedFormdataByChart = []\<rparr>"

definition dash_form :: "jsval obj" where
  "dash_form = [(''groupby'', JArr [JStr ''a'']), (''chart_id'', JInt 7), (''label_colors'', JUndef),
     (''shared_label_colors'', JUndef), (''map_label_colors'', JUndef), (''extra_filters'', JArr []),
     (''extra_form_data'', JObj mask1)]"

lemma merge_mask1: "mergeExtraFormData [] mask1 = mask1"
proof -
  have "fold (merge_append [] mask1) EXTRA_FORM_DATA_APPEND_KEYS [] = [(''filters'', JArr [JStr ''p''])]"
    "\<not> key_before ''time_range'' ''filters''" by code_simp+
  then show ?thesis
    by (simp add: mergeExtraFormData_def mask1_def merge_override_def EXTRA_FORM_DATA_OVERRIDE_KEYS_def
        EXTRA_FORM_DATA_OVERRIDE_EXTRA_KEYS_def EXTRA_FORM_DATA_OVERRIDE_REGULAR_KEYS_def
        EXTRA_FORM_DATA_OVERRIDE_REGULAR_MAPPINGS_def)
qed

lemma dash_ids: "filterIdsAppliedOnChart dash_args = [''f'']"
  by code_simp

lemma dash_mask: "mask_form_data (fa_dataMask dash_args) ''f'' = mask1"
  by code_simp

lemma dash_chart_form: "chart_form_data dash_args = dash_form"
proof -
  have "extra_data dash_args = [(''extra_form_data'', JObj mask1)]"
    by (simp add: extra_data_def dash_ids getExtraFormData_def dash_mask merge_mask1)
      (simp add: uses_layers_def dash_args_def)
  moreover have "layer_filter_scope dash_args = []"
    by (simp add: layer_filter_scope_def uses_layers_def dash_args_def)
  moreover have "spread_all [JObj [(''groupby'', JArr [JStr ''a''])],
      JObj [(''chart_id'', JInt 7), (''label_colors'', JUndef), (''shared_label_colors'', JUndef),
        (''map_label_colors'', JUndef)],
      JObj [(''extra_filters'', JArr [])], JObj [(''extra_form_data'', JObj mask1)], JObj []] = dash_form"
    by code_simp
  ultimately show ?thesis
    by (simp add: chart_form_data_def getEffectiveExtraFilters_def) (simp add: dash_args_def)
qed

theorem active_filters_reach_query_witness:
  "\<exists>fd c' q xs ys. getFormDataWithExtraFilters lo0 dash_args no_cache = (fd, c') \<and> buildQueryObject fd [] = Inr q \<and>
     oprop (JObj q) ''filters'' = JArr (xs @ [JStr ''p''] @ ys) \<and> oprop (JObj q) ''time_range'' = JStr ''Last week''"
proof -
  obtain fd c' where f: "getFormDataWithExtraFilters lo0 dash_args no_cache = (fd, c')" by (metis surj_pair)
  have m: "cache_hit lo0 dash_args no_cache = None" by (simp add: cache_hit_def no_cache_def)
  then have fd: "fd = dash_form"
    using f by (simp add: getFormDataWithExtraFilters_def Let_def dash_chart_form)
  have "\<not> isl (buildQueryObject dash_form [])" by code_simp
  then obtain q where q: "buildQueryObject fd [] = Inr q" using fd res_Inr by blast
  have e: "''extra_form_data'' \<notin> set (map fst (fa_extraControls dash_args))" by (simp add: dash_args_def)
  have v: "appended mask1 ''filters'' = [JStr ''p'']" "oprop (JObj mask1) ''time_range'' = JStr ''Last week''"
    by code_simp+
  show ?thesis
    using active_filters_reach_query [OF m _ e f q] f q
    by (auto simp: dash_ids dash_mask v js_default_def)
qed

end
